(* ===== verification/Relay_Prelude.thy ===== *)
theory Relay_Prelude
  imports Main "HOL-Library.Char_ord" "HOL-Library.List_Lexorder" "HOL-Library.Multiset"
    "HOL-Library.Product_Lexorder"
begin

text \<open>
  The part of the JavaScript runtime the modelled sources use, and the generic lemmas and
  interfaces the component theories share.

  \<^item> Strings: a JavaScript string is a sequence of UTF-16 code units; \<^typ>\<open>string\<close> (a list of
    8-bit characters) stands for the strings whose code units are all below 256. On those,
    \<open>trim\<close>, \<open>toLowerCase\<close>, \<open>startsWith\<close>, \<open>slice\<close>, \<open><=\<close> and the UTF-8 byte length below are exactly
    the language's operations.
  \<^item> Values of type \<open>unknown\<close> are of type \<open>json\<close>; a number is an integral value, a non-integral
    finite value given by its floor, NaN or an infinity.
  \<^item> \<open>Map\<close> and \<open>Record\<close> whose iteration order matters are association lists with the
    language's insertion order; where only lookup matters they are HOL maps.
  \<^item> The locales \<open>keyed_map\<close>, \<open>state_machine\<close> and \<open>preference\<close> are the interfaces the component
    theories interpret on their own definitions.
\<close>

named_theorems js_defs "the definitions of the JavaScript string and value operations"

section \<open>Strings\<close>

definition starts_with :: "'a list \<Rightarrow> 'a list \<Rightarrow> bool" where
  "starts_with s p \<longleftrightarrow> take (length p) s = p"

definition ends_with :: "'a list \<Rightarrow> 'a list \<Rightarrow> bool" where
  "ends_with s p \<longleftrightarrow> length p \<le> length s \<and> drop (length s - length p) s = p"

text \<open>White space of \<open>String.prototype.trim\<close> and of the class \<open>\s\<close> among code units below 256.\<close>

definition is_ws :: "char \<Rightarrow> bool" where
  "is_ws c \<longleftrightarrow> of_char c \<in> {9, 10, 11, 12, 13, 32, 160 :: nat}"

definition trim_left :: "string \<Rightarrow> string" where
  "trim_left s = dropWhile is_ws s"

definition trim :: "string \<Rightarrow> string" where
  "trim s = rev (dropWhile is_ws (rev (dropWhile is_ws s)))"

text \<open>\<open>toLowerCase\<close> on code units below 256: the ASCII and the Latin-1 capitals move up by 32.\<close>

definition lower_char :: "char \<Rightarrow> char" where
  "lower_char c = (let n = (of_char c :: nat) in
     if (65 \<le> n \<and> n \<le> 90) \<or> (192 \<le> n \<and> n \<le> 222 \<and> n \<noteq> 215) then char_of (n + 32) else c)"

definition to_lower :: "string \<Rightarrow> string" where
  "to_lower s = map lower_char s"

definition is_digit :: "char \<Rightarrow> bool" where
  "is_digit c \<longleftrightarrow> (let n = (of_char c :: nat) in 48 \<le> n \<and> n \<le> 57)"

definition is_upper :: "char \<Rightarrow> bool" where
  "is_upper c \<longleftrightarrow> (let n = (of_char c :: nat) in 65 \<le> n \<and> n \<le> 90)"

definition is_lower :: "char \<Rightarrow> bool" where
  "is_lower c \<longleftrightarrow> (let n = (of_char c :: nat) in 97 \<le> n \<and> n \<le> 122)"

definition is_alpha :: "char \<Rightarrow> bool" where
  "is_alpha c \<longleftrightarrow> is_upper c \<or> is_lower c"

definition is_alnum :: "char \<Rightarrow> bool" where
  "is_alnum c \<longleftrightarrow> is_alpha c \<or> is_digit c"

text \<open>\<open>new TextEncoder().encode(s).byteLength\<close>: one byte below 128, two up to 255.\<close>

definition utf8_length :: "string \<Rightarrow> nat" where
  "utf8_length s = sum_list (map (\<lambda>c. if (of_char c :: nat) < 128 then 1 else 2) s)"

lemmas [js_defs] = starts_with_def ends_with_def is_ws_def trim_def trim_left_def
  lower_char_def to_lower_def is_digit_def is_upper_def is_lower_def is_alpha_def is_alnum_def
  utf8_length_def

lemma starts_with_iff: "starts_with s p \<longleftrightarrow> (\<exists>t. s = p @ t)"
  unfolding starts_with_def by (metis append_eq_conv_conj append_take_drop_id)

lemma ends_with_iff: "ends_with s p \<longleftrightarrow> (\<exists>t. s = t @ p)"
proof
  assume "ends_with s p"
  then show "\<exists>t. s = t @ p"
    unfolding ends_with_def by (metis append_take_drop_id)
next
  assume "\<exists>t. s = t @ p"
  then show "ends_with s p"
    by (auto simp: ends_with_def)
qed

lemma starts_with_append [simp]: "starts_with (p @ t) p"
  by (simp add: starts_with_def)

lemma ends_with_append [simp]: "ends_with (t @ p) p"
  by (auto simp: ends_with_iff)

lemma starts_with_refl [simp]: "starts_with s s"
  by (simp add: starts_with_def)

lemma length_to_lower [simp]: "length (to_lower s) = length s"
  by (simp add: to_lower_def)

lemma to_lower_Nil_iff [simp]: "to_lower s = [] \<longleftrightarrow> s = []"
  by (simp add: to_lower_def)

lemma trim_Nil [simp]: "trim [] = []"
  by (simp add: trim_def)

lemma length_trim_le: "length (trim s) \<le> length s"
proof -
  have "length (trim s) \<le> length (dropWhile is_ws s)"
    unfolding trim_def using length_dropWhile_le [of is_ws "rev (dropWhile is_ws s)"] by simp
  then show ?thesis
    using length_dropWhile_le [of is_ws s] by linarith
qed

lemma dropWhile_fixed: "s = [] \<or> \<not> P (hd s) \<Longrightarrow> dropWhile P s = s"
  by (cases s) auto

lemma trim_fixed: "s = [] \<or> (\<not> is_ws (hd s) \<and> \<not> is_ws (last s)) \<Longrightarrow> trim s = s"
  by (auto simp: trim_def dropWhile_fixed hd_rev)

lemma trim_hd: "trim s \<noteq> [] \<Longrightarrow> \<not> is_ws (hd (trim s))"
proof -
  assume ne: "trim s \<noteq> []"
  let ?d = "dropWhile is_ws s"
  from ne have "?d \<noteq> []" unfolding trim_def by force
  then have hd: "\<not> is_ws (hd ?d)" by (rule hd_dropWhile)
  obtain w where "rev ?d = w @ dropWhile is_ws (rev ?d)"
    by (metis takeWhile_dropWhile_id)
  then have "?d = rev (dropWhile is_ws (rev ?d)) @ rev w"
    by (metis rev_append rev_rev_ident)
  then have "hd ?d = hd (trim s)"
    using ne unfolding trim_def by (metis hd_append2)
  with hd show ?thesis by simp
qed

lemma trim_last: "trim s \<noteq> [] \<Longrightarrow> \<not> is_ws (last (trim s))"
  by (simp add: trim_def last_rev hd_dropWhile)

lemma trim_trim [simp]: "trim (trim s) = trim s"
  by (rule trim_fixed) (auto dest: trim_hd trim_last)

section \<open>Values of type unknown\<close>

datatype js_number =
    IntNum int            \<comment> \<open>an integral value\<close>
  | FracNum int           \<comment> \<open>a finite value that is not integral, with its floor\<close>
  | NaNNum
  | InfNum bool           \<comment> \<open>positive infinity for True\<close>

datatype json =
    JUndef
  | JNull
  | JBool bool
  | JNum js_number
  | JStr string
  | JArr "json list"
  | JObj "(string \<times> json) list"

text \<open>\<open>value.key\<close>: undefined unless the value is an object with that own property.\<close>

definition fld :: "json \<Rightarrow> string \<Rightarrow> json" where
  "fld v k = (case v of JObj kvs \<Rightarrow> (case map_of kvs k of Some x \<Rightarrow> x | None \<Rightarrow> JUndef) | _ \<Rightarrow> JUndef)"

definition obj_keys :: "json \<Rightarrow> string list" where
  "obj_keys v = (case v of JObj kvs \<Rightarrow> map fst kvs | _ \<Rightarrow> [])"

definition is_record :: "json \<Rightarrow> bool" where
  "is_record v = (case v of JObj _ \<Rightarrow> True | _ \<Rightarrow> False)"

definition is_str :: "json \<Rightarrow> bool" where
  "is_str v = (case v of JStr _ \<Rightarrow> True | _ \<Rightarrow> False)"

definition is_bool :: "json \<Rightarrow> bool" where
  "is_bool v = (case v of JBool _ \<Rightarrow> True | _ \<Rightarrow> False)"

definition is_num :: "json \<Rightarrow> bool" where
  "is_num v = (case v of JNum _ \<Rightarrow> True | _ \<Rightarrow> False)"

definition is_finite_num :: "json \<Rightarrow> bool" where
  "is_finite_num v = (case v of JNum (IntNum _) \<Rightarrow> True | JNum (FracNum _) \<Rightarrow> True | _ \<Rightarrow> False)"

definition max_safe_integer :: int where
  "max_safe_integer = 9007199254740991"

text \<open>\<open>Number.isSafeInteger(value)\<close> together with a lower bound, as the validators use it.\<close>

definition is_safe_int_from :: "int \<Rightarrow> json \<Rightarrow> bool" where
  "is_safe_int_from lo v =
     (case v of JNum (IntNum n) \<Rightarrow> \<bar>n\<bar> \<le> max_safe_integer \<and> lo \<le> n | _ \<Rightarrow> False)"

definition the_str :: "json \<Rightarrow> string" where
  "the_str v = (case v of JStr s \<Rightarrow> s | _ \<Rightarrow> [])"

definition str_sat :: "(string \<Rightarrow> bool) \<Rightarrow> json \<Rightarrow> bool" where
  "str_sat P v = (case v of JStr s \<Rightarrow> P s | _ \<Rightarrow> False)"

definition arr_sat :: "(json list \<Rightarrow> bool) \<Rightarrow> json \<Rightarrow> bool" where
  "arr_sat P v = (case v of JArr xs \<Rightarrow> P xs | _ \<Rightarrow> False)"

text \<open>\<open>value === undefined || P(value)\<close>\<close>

definition opt_sat :: "(json \<Rightarrow> bool) \<Rightarrow> json \<Rightarrow> bool" where
  "opt_sat P v \<longleftrightarrow> v = JUndef \<or> P v"

definition null_sat :: "(json \<Rightarrow> bool) \<Rightarrow> json \<Rightarrow> bool" where
  "null_sat P v \<longleftrightarrow> v = JNull \<or> P v"

lemmas [js_defs] = fld_def obj_keys_def is_record_def is_str_def is_bool_def is_num_def
  is_finite_num_def max_safe_integer_def is_safe_int_from_def the_str_def str_sat_def
  arr_sat_def opt_sat_def null_sat_def

lemma str_satD: "str_sat P v \<Longrightarrow> \<exists>s. v = JStr s \<and> P s"
  by (auto simp: str_sat_def split: json.splits)

lemma is_strD: "is_str v \<Longrightarrow> \<exists>s. v = JStr s"
  by (auto simp: is_str_def split: json.splits)

lemma is_recordD: "is_record v \<Longrightarrow> \<exists>kvs. v = JObj kvs"
  by (auto simp: is_record_def split: json.splits)

lemma arr_satD: "arr_sat P v \<Longrightarrow> \<exists>xs. v = JArr xs \<and> P xs"
  by (auto simp: arr_sat_def split: json.splits)

text \<open>\<open>...(value ? { key: value } : {})\<close>: an optional string that is kept only when it is not empty.\<close>

definition truthy :: "string option \<Rightarrow> string option" where
  "truthy s = (case s of None \<Rightarrow> None | Some x \<Rightarrow> if x = [] then None else Some x)"

definition is_truthy :: "string option \<Rightarrow> bool" where
  "is_truthy s \<longleftrightarrow> truthy s \<noteq> None"

text \<open>\<open>a ?? b\<close>\<close>

definition nullish :: "'a option \<Rightarrow> 'a option \<Rightarrow> 'a option" where
  "nullish a b = (case a of None \<Rightarrow> b | Some _ \<Rightarrow> a)"

lemma is_truthy_iff: "is_truthy s \<longleftrightarrow> (\<exists>x. s = Some x \<and> x \<noteq> [])"
  by (auto simp: is_truthy_def truthy_def split: option.splits)

section \<open>Generic list lemmas\<close>

lemma sorted_map_update:
  assumes "sorted (map f xs)" and "\<And>x. x \<in> set xs \<Longrightarrow> P x \<Longrightarrow> f (g x) = f x"
  shows "sorted (map f (map (\<lambda>x. if P x then g x else x) xs))"
proof -
  have "map f (map (\<lambda>x. if P x then g x else x) xs) = map f xs"
    using assms(2) by (induction xs) auto
  with assms(1) show ?thesis by (simp only:)
qed

lemma map_of_key_list:
  "distinct (map k xs) \<Longrightarrow> map_of (map (\<lambda>x. (k x, x)) xs) i = Some x \<longleftrightarrow> x \<in> set xs \<and> k x = i"
  by (induction xs) (auto simp: image_iff)

lemma map_of_key_list_None:
  "map_of (map (\<lambda>x. (k x, x)) xs) i = None \<longleftrightarrow> i \<notin> k ` set xs"
  by (induction xs) auto

lemma foldl_invariant:
  "P a \<Longrightarrow> (\<And>a x. P a \<Longrightarrow> x \<in> set xs \<Longrightarrow> P (f a x)) \<Longrightarrow> P (foldl f a xs)"
  by (induction xs arbitrary: a) auto

lemma find_Some_in: "List.find P xs = Some x \<Longrightarrow> x \<in> set xs \<and> P x"
  by (induction xs) (auto split: if_splits)

lemma find_None_all: "List.find P xs = None \<longleftrightarrow> (\<forall>x\<in>set xs. \<not> P x)"
  by (induction xs) auto

section \<open>Searching\<close>

text \<open>\<open>indexOf\<close> of an element, of a substring, and \<open>includes\<close>.\<close>

fun index_of :: "'a \<Rightarrow> 'a list \<Rightarrow> nat option" where
  "index_of c [] = None"
| "index_of c (x # xs) = (if x = c then Some 0 else map_option Suc (index_of c xs))"

lemma index_of_less: "index_of c xs = Some i \<Longrightarrow> i < length xs"
  by (induction xs arbitrary: i) (auto split: if_splits)

lemma index_of_split:
  "index_of c xs = Some i \<Longrightarrow> xs = take i xs @ c # drop (Suc i) xs \<and> c \<notin> set (take i xs)"
  by (induction xs arbitrary: i) (auto split: if_splits)

lemma index_of_None: "index_of c xs = None \<longleftrightarrow> c \<notin> set xs"
  by (induction xs) auto

lemma index_of_append: "c \<notin> set xs \<Longrightarrow> index_of c (xs @ c # ys) = Some (length xs)"
  by (induction xs) auto

fun find_sub :: "string \<Rightarrow> string \<Rightarrow> nat option" where
  "find_sub p [] = (if p = [] then Some 0 else None)"
| "find_sub p (c # s) = (if starts_with (c # s) p then Some 0 else map_option Suc (find_sub p s))"

lemma find_sub_bound: "find_sub p s = Some j \<Longrightarrow> j + length p \<le> length s"
proof (induction s arbitrary: j)
  case (Cons c s)
  then show ?case by (auto simp: starts_with_iff split: if_splits) (metis le_add1 length_Cons length_append)
qed (auto split: if_splits)

definition includes_sub :: "string \<Rightarrow> string \<Rightarrow> bool" where
  "includes_sub s p \<longleftrightarrow> find_sub p s \<noteq> None"

text \<open>The decimal rendering of an integer in a template literal.\<close>

fun nat_to_dec :: "nat \<Rightarrow> string" where
  "nat_to_dec n = (if n < 10 then [char_of (48 + n)] else nat_to_dec (n div 10) @ [char_of (48 + n mod 10)])"

declare nat_to_dec.simps [simp del]

definition int_to_dec :: "int \<Rightarrow> string" where
  "int_to_dec i = (if i < 0 then ''-'' @ nat_to_dec (nat (- i)) else nat_to_dec (nat i))"

section \<open>Insertion-ordered maps\<close>

text \<open>
  \<open>Map.set\<close> keeps the place of an existing key and appends a new one; \<open>Map.delete\<close> removes
  the entry; \<open>Array.from(map.values())\<close> lists the values in this order.
\<close>

type_synonym ('k, 'v) jsmap = "('k \<times> 'v) list"

definition jm_get :: "('k, 'v) jsmap \<Rightarrow> 'k \<Rightarrow> 'v option" where
  "jm_get m k = map_of m k"

fun jm_set :: "('k, 'v) jsmap \<Rightarrow> 'k \<Rightarrow> 'v \<Rightarrow> ('k, 'v) jsmap" where
  "jm_set [] k v = [(k, v)]"
| "jm_set ((k', v') # m) k v = (if k' = k then (k, v) # m else (k', v') # jm_set m k v)"

definition jm_delete :: "('k, 'v) jsmap \<Rightarrow> 'k \<Rightarrow> ('k, 'v) jsmap" where
  "jm_delete m k = filter (\<lambda>e. fst e \<noteq> k) m"

definition jm_values :: "('k, 'v) jsmap \<Rightarrow> 'v list" where
  "jm_values m = map snd m"

definition jm_wf :: "('k, 'v) jsmap \<Rightarrow> bool" where
  "jm_wf m \<longleftrightarrow> distinct (map fst m)"

text \<open>The laws a client of a keyed map relies on.\<close>

locale keyed_map =
  fixes empty :: "'m"
    and get :: "'m \<Rightarrow> 'k \<Rightarrow> 'v option"
    and set_at :: "'m \<Rightarrow> 'k \<Rightarrow> 'v \<Rightarrow> 'm"
    and delete :: "'m \<Rightarrow> 'k \<Rightarrow> 'm"
    and invar :: "'m \<Rightarrow> bool"
  assumes get_empty: "get empty k = None"
    and get_set: "invar m \<Longrightarrow> get (set_at m k v) k' = (if k' = k then Some v else get m k')"
    and get_delete: "invar m \<Longrightarrow> get (delete m k) k' = (if k' = k then None else get m k')"
    and invar_empty: "invar empty"
    and invar_set: "invar m \<Longrightarrow> invar (set_at m k v)"
    and invar_delete: "invar m \<Longrightarrow> invar (delete m k)"
begin

lemma get_set_same: "invar m \<Longrightarrow> get (set_at m k v) k = Some v"
  by (simp add: get_set)

lemma set_then_delete: "invar m \<Longrightarrow> get (delete (set_at m k v) k) k' = get (delete m k) k'"
  by (simp add: get_set get_delete invar_set)

lemma set_commute:
  "invar m \<Longrightarrow> k \<noteq> l \<Longrightarrow> get (set_at (set_at m k v) l w) i = get (set_at (set_at m l w) k v) i"
  by (simp add: get_set invar_set)

text \<open>A predicate on the stored values survives an update that stores a value satisfying it.\<close>

lemma all_values_set:
  assumes "invar m" and "\<And>i x. get m i = Some x \<Longrightarrow> P i x" and "P k v"
    and "get (set_at m k v) j = Some y"
  shows "P j y"
  using assms by (auto simp: get_set split: if_splits)

lemma all_values_delete:
  assumes "invar m" and "\<And>i x. get m i = Some x \<Longrightarrow> P i x" and "get (delete m k) j = Some y"
  shows "P j y"
  using assms by (auto simp: get_delete split: if_splits)

end

lemma keys_jm_set: "map fst (jm_set m k v) = (if k \<in> set (map fst m) then map fst m else map fst m @ [k])"
  by (induction m k v rule: jm_set.induct) auto

lemma map_of_jm_set: "map_of (jm_set m k v) k' = (if k' = k then Some v else map_of m k')"
  by (induction m k v rule: jm_set.induct) auto

lemma map_of_filter_key: "map_of (filter (\<lambda>e. fst e \<noteq> k) m) k' = (if k' = k then None else map_of m k')"
  by (induction m) auto

lemma jm_wf_set: "jm_wf m \<Longrightarrow> jm_wf (jm_set m k v)"
  by (auto simp: jm_wf_def keys_jm_set)

lemma jm_wf_delete: "jm_wf m \<Longrightarrow> jm_wf (jm_delete m k)"
  unfolding jm_wf_def jm_delete_def by (induction m) auto

lemma jm_wf_filter: "jm_wf m \<Longrightarrow> jm_wf (filter P m)"
  by (simp add: jm_wf_def distinct_map_filter)

interpretation jm: keyed_map "[] :: ('k, 'v) jsmap" jm_get jm_set jm_delete jm_wf
  by unfold_locales
    (simp_all add: jm_get_def map_of_jm_set jm_delete_def map_of_filter_key jm_wf_set
      jm_wf_delete [unfolded jm_delete_def] jm_wf_def [of "[]"])

lemma jm_get_in_values: "jm_get m k = Some v \<Longrightarrow> v \<in> set (jm_values m)"
  by (auto simp: jm_get_def jm_values_def dest!: map_of_SomeD intro: rev_image_eqI)

section \<open>State machines\<close>

text \<open>A component is driven by a sequence of events; \<open>all_ok\<close> says every event meets its
  side condition in the state it arrives in.\<close>

fun run :: "('s \<Rightarrow> 'e \<Rightarrow> 's) \<Rightarrow> 's \<Rightarrow> 'e list \<Rightarrow> 's" where
  "run step s [] = s"
| "run step s (e # es) = run step (step s e) es"

fun all_ok :: "('s \<Rightarrow> 'e \<Rightarrow> 's) \<Rightarrow> ('s \<Rightarrow> 'e \<Rightarrow> bool) \<Rightarrow> 's \<Rightarrow> 'e list \<Rightarrow> bool" where
  "all_ok step ok s [] = True"
| "all_ok step ok s (e # es) = (ok s e \<and> all_ok step ok (step s e) es)"

lemma run_append: "run step s (es @ fs) = run step (run step s es) fs"
  by (induction es arbitrary: s) auto

lemma all_ok_True [simp]: "all_ok step (\<lambda>_ _. True) s es"
  by (induction es arbitrary: s) auto

inductive reachable :: "('s \<Rightarrow> 'e \<Rightarrow> 's) \<Rightarrow> ('s \<Rightarrow> 'e \<Rightarrow> bool) \<Rightarrow> 's \<Rightarrow> 's \<Rightarrow> bool"
  for step :: "'s \<Rightarrow> 'e \<Rightarrow> 's" and ok :: "'s \<Rightarrow> 'e \<Rightarrow> bool" and s0 :: 's where
  reach_init: "reachable step ok s0 s0"
| reach_step: "reachable step ok s0 s \<Longrightarrow> ok s e \<Longrightarrow> reachable step ok s0 (step s e)"

locale state_machine =
  fixes step :: "'s \<Rightarrow> 'e \<Rightarrow> 's"
    and ok :: "'s \<Rightarrow> 'e \<Rightarrow> bool"
    and inv :: "'s \<Rightarrow> bool"
  assumes step_inv: "inv s \<Longrightarrow> ok s e \<Longrightarrow> inv (step s e)"
begin

lemma run_inv: "inv s \<Longrightarrow> all_ok step ok s es \<Longrightarrow> inv (run step s es)"
  by (induction es arbitrary: s) (auto intro: step_inv)

lemma reachable_inv: "reachable step ok s0 s \<Longrightarrow> inv s0 \<Longrightarrow> inv s"
  by (induction rule: reachable.induct) (auto intro: step_inv)

end

section \<open>Picking a winner\<close>

text \<open>
  Several resolvers scan a list with an accumulator and keep the preferred of two candidates.
  When the preference compares a rank, and the earlier of two equal candidates stays, the winner
  is a candidate of least rank; its rank does not depend on the order of the list.
\<close>

fun pick :: "('a \<Rightarrow> 'a \<Rightarrow> 'a) \<Rightarrow> 'a option \<Rightarrow> 'a list \<Rightarrow> 'a option" where
  "pick f acc [] = acc"
| "pick f acc (x # xs) = pick f (Some (case acc of None \<Rightarrow> x | Some a \<Rightarrow> f a x)) xs"

lemma pick_filter:
  "foldl (\<lambda>acc x. if P x then Some (case acc of None \<Rightarrow> x | Some a \<Rightarrow> f a x) else acc) acc xs
    = pick f acc (filter P xs)"
  by (induction xs arbitrary: acc) simp_all

locale preference =
  fixes pref :: "'a \<Rightarrow> 'a \<Rightarrow> 'a"
    and rank :: "'a \<Rightarrow> 'k :: linorder"
  assumes pref_rank: "pref a b = (if rank a \<le> rank b then a else b)"
begin

lemma pick_from:
  "\<exists>w. pick pref (Some a) xs = Some w \<and> w \<in> insert a (set xs) \<and>
    (\<forall>x\<in>insert a (set xs). rank w \<le> rank x)"
proof (induction xs arbitrary: a)
  case (Cons x xs)
  from Cons.IH [of "pref a x"] obtain w
    where "pick pref (Some (pref a x)) xs = Some w" "w \<in> insert (pref a x) (set xs)"
      "\<forall>y\<in>insert (pref a x) (set xs). rank w \<le> rank y" by blast
  moreover have "pref a x \<in> {a, x}" "rank (pref a x) \<le> rank a" "rank (pref a x) \<le> rank x"
    by (auto simp: pref_rank)
  ultimately show ?case by (intro exI [of _ w]) auto
qed simp

lemma pick_least:
  "pick pref None xs = Some w \<Longrightarrow> w \<in> set xs \<and> (\<forall>x\<in>set xs. rank w \<le> rank x)"
  using pick_from [of "hd xs" "tl xs"] by (cases xs) auto

lemma pick_None: "pick pref None xs = None \<longleftrightarrow> xs = []"
  using pick_from [of "hd xs" "tl xs"] by (cases xs) auto

text \<open>The rank of the winner depends only on the set of candidates, and so does the winner when
  no two candidates have the same rank.\<close>

lemma pick_rank_set:
  assumes "set xs = set ys"
  shows "map_option rank (pick pref None xs) = map_option rank (pick pref None ys)"
proof (cases "pick pref None xs")
  case None
  with assms have "xs = []" "ys = []" by (simp_all add: pick_None)
  then show ?thesis by simp
next
  case (Some w)
  then obtain v where v: "pick pref None ys = Some v"
    using assms pick_None [of xs] pick_None [of ys] by (cases "pick pref None ys") auto
  have "rank w \<le> rank v" "rank v \<le> rank w"
    using pick_least [OF Some] pick_least [OF v] assms by auto
  with Some v show ?thesis by simp
qed

lemma pick_set:
  assumes "set xs = set ys" and "inj_on rank (set xs)"
  shows "pick pref None xs = pick pref None ys"
proof (cases "pick pref None xs")
  case None
  with assms(1) show ?thesis by (simp add: pick_None)
next
  case (Some w)
  with pick_rank_set [OF assms(1)] obtain v where v: "pick pref None ys = Some v" "rank v = rank w"
    by (cases "pick pref None ys") auto
  then have "v = w"
    using pick_least [OF Some] pick_least [OF v(1)] assms by (auto dest: inj_onD)
  with Some v show ?thesis by simp
qed

end

end
