(* ===== verification/Channel_Types.thy ===== *)
theory Channel_Types
  imports Relay_Prelude
begin

text \<open>
  The data of the channel conversation protocol (\<open>shared/channel-chat-protocol.ts\<close>): enums as
  datatypes, interfaces as records. An optional property \<open>p?: T\<close> is a \<open>T option\<close> field with
  \<open>None\<close> for undefined, and \<open>T | null\<close> is a \<open>T option\<close> with \<open>None\<close> for null. Sequence numbers
  and delta indices are the integers the store assigns. The \<open>schemaVersion\<close> and \<open>type\<close>
  properties with a single literal value carry no information and are not fields.
  Record fields carry a prefix for their interface.
\<close>

section \<open>Asynchronous runs\<close>

datatype async_run_state =
    RunSubmitted | RunWorking | RunInputRequired | RunAuthRequired | RunCompleted
  | RunCompletedUnmet | RunFailed | RunCancelled | RunRejected

datatype async_run_target_state =
    TgtWorking | TgtInputRequired | TgtAuthRequired | TgtCompleted | TgtCompletedUnmet
  | TgtFailed | TgtCancelled | TgtRejected | TgtQueued | TgtRefused

datatype async_run_approval_state = ApprovalRequested | ApprovalResolved | ApprovalExpired

record async_run_target =
  tgt_targetId :: string
  tgt_state :: async_run_target_state
  tgt_reason :: "string option"
  tgt_turnId :: "string option"
  tgt_approvalState :: "async_run_approval_state option"
  tgt_updatedAt :: string
  tgt_completedAt :: "string option"

datatype upstream_ref_source = RefUpstream | RefOriginHead | RefTrackingOtherBranch

record delivery_baseline =
  bl_headSha :: string
  bl_upstreamRef :: "string option option"
  bl_upstreamRefSource :: "upstream_ref_source option option"
  bl_upstreamSha :: "string option"
  bl_prNumber :: "int option"
  bl_prHeadSha :: "string option"
  bl_cwd :: "string option"
  bl_capturedAt :: string

record delivery_result =
  dr_met :: bool
  dr_unmet :: "string list"
  dr_unknown :: "(string \<times> string) list option"
  dr_deltaSummary :: "string option"
  dr_evaluatedAt :: string

record delivery_contract =
  dc_expect :: "string list"
  dc_baseline :: "delivery_baseline option option"
  dc_contractPending :: "bool option"
  dc_followupDepth :: "int option"
  dc_parentRunId :: "string option"
  dc_childRunId :: "string option"
  dc_abandonedAt :: "string option"
  dc_followupDecidedAt :: "string option"
  dc_result :: "delivery_result option"
  dc_followupPostedAt :: "string option"

record async_run =
  run_id :: string
  run_channelId :: string
  run_threadId :: "string option"
  run_requestMessageId :: string
  run_requesterId :: string
  run_state :: async_run_state
  run_reason :: "string option"
  run_deliveryContract :: "delivery_contract option"
  run_targets :: "async_run_target list"
  run_createdAt :: string
  run_updatedAt :: string
  run_completedAt :: "string option"

record async_run_reference =
  arr_runId :: string
  arr_targetId :: string

section \<open>Delivery receipts\<close>

datatype receipt_state =
    RcQueued | RcDeliveredToRuntime | RcTurnStarted | RcCompleted | RcHeldBusy
  | RcDroppedQueueFull | RcRefusedPolicy | RcRefusedProvider | RcUnreachableOffline
  | RcExpiredWatchdog | RcFailedRuntime | RcSuperseded

datatype receipt_reason =
    RrQueueCap | RrSteeringQueueCap | RrSupersededByNewer | RrRuntimeUnavailable
  | RrBindingFailed | RrWatchdogForceDrain | RrTurnCeiling | RrSendRejected | RrSendError
  | RrRuntimeEnded | RrAgentBusy | RrProfileMissing | RrProviderUnavailable
  | RrMentionChainPaused | RrProviderQuotaExhausted | RrProviderAuthRequired
  | RrProviderBinaryMissing | RrProviderUnknownFailure

record delivery_receipt =
  rc_messageId :: string
  rc_channelId :: string
  rc_targetBindingId :: string
  rc_senderProfileId :: "string option"
  rc_targetProfileId :: string
  rc_state :: receipt_state
  rc_reasonCode :: "receipt_reason option"
  rc_ts :: string

section \<open>Messages\<close>

datatype image_mime = MimePng | MimeJpeg | MimeWebp | MimeGif

record image_part =
  img_id :: string
  img_mime :: image_mime
  img_w :: int
  img_h :: int
  img_bytes :: int
  img_alt :: "string option"

datatype sender_kind = SkHuman | SkAgent | SkSystem
datatype message_kind = MkMessage | MkSystem
datatype message_status = StStreaming | StComplete | StTruncated | StInterrupted | StFailed
datatype body_format = FmtMarkdown | FmtText
datatype member_kind = MemHuman | MemAgent

record sender_ref =
  sr_kind :: sender_kind
  sr_id :: string
  sr_displayName :: "string option"
  sr_providerId :: "string option"
  sr_runtimeId :: "string option"

record member_ref =
  mem_kind :: member_kind
  mem_id :: string
  mem_joinedAt :: string
  mem_invitedBy :: "string option"
  mem_removedAt :: "string option"

record channel_mention =
  mn_raw :: string
  mn_providerId :: "string option"
  mn_profileId :: "string option"

record message_source =
  src_runtimeId :: string
  src_turnId :: "string option"
  src_itemId :: "string option"

datatype detail_kind = DkMessage | DkThought | DkToolCall | DkOutput | DkDiff
datatype detail_status = DsPending | DsRunning | DsCompleted | DsFailed | DsCancelled

record detail_card =
  card_kind :: detail_kind
  card_title :: string
  card_status :: detail_status
  card_content :: "string option"
  card_language :: "string option"
  card_command :: "string option"
  card_path :: "string option"
  card_additions :: "int option"
  card_deletions :: "int option"
  card_sizeBytes :: "int option"

record agent_detail =
  ad_itemId :: string
  ad_card :: detail_card

record agent_attribution =
  aa_model :: "string option"
  aa_effort :: "string option"

record message_body =
  body_text :: string
  body_format :: body_format

record channel_message =
  msg_id :: string
  msg_channelId :: string
  msg_seq :: int
  msg_kind :: message_kind
  msg_status :: message_status
  msg_sender :: sender_ref
  msg_body :: message_body
  msg_parts :: "image_part list option"
  msg_threadId :: "string option"
  msg_parentMessageId :: "string option"
  msg_replyCount :: "int option"
  msg_mentions :: "channel_mention list option"
  msg_source :: "message_source option"
  msg_agentDetail :: "agent_detail option"
  msg_agentAttribution :: "agent_attribution option"
  msg_asyncRun :: "async_run_reference option"
  msg_meta :: "(string \<times> json) list option"
  msg_truncated :: "bool option"
  msg_clientMessageId :: "string option"
  msg_createdAt :: string
  msg_updatedAt :: string
  msg_completedAt :: "string option"

abbreviation msg_text :: "channel_message \<Rightarrow> string" where
  "msg_text m \<equiv> body_text (msg_body m)"

text \<open>\<open>TERMINAL_MESSAGE_STATUSES\<close> and \<open>TERMINAL_RUN_STATES\<close>.\<close>

definition terminal_message_statuses :: "message_status list" where
  "terminal_message_statuses = [StComplete, StTruncated, StInterrupted, StFailed]"

definition terminal_run_states :: "async_run_state list" where
  "terminal_run_states = [RunCompleted, RunCompletedUnmet, RunFailed, RunCancelled, RunRejected]"

section \<open>Events\<close>

record in_flight_ref =
  ifr_messageId :: string
  ifr_deltaIndex :: int

record state_replacement =
  rep_message :: channel_message
  rep_inFlight :: "in_flight_ref option"

datatype snapshot_mode = SnapFull | SnapCatchup

record snapshot_event =
  sn_mode :: snapshot_mode
  sn_messages :: "channel_message list"
  sn_stateReplacements :: "state_replacement list option"
  sn_runs :: "async_run list option"
  sn_members :: "member_ref list"
  sn_latestSeq :: int
  sn_inFlight :: "in_flight_ref list"
  sn_truncated :: bool

record run_contract_summary =
  rcs_met :: bool
  rcs_unmet :: "string list"
  rcs_unknown :: "(string \<times> string) list option"
  rcs_evaluatedAt :: string
  rcs_followupPostedAt :: "string option"

record run_lifecycle_event =
  rle_run :: async_run
  rle_finalMessageSeq :: "int option"
  rle_finalTextPreview :: "string option"
  rle_contract :: "run_contract_summary option"

text \<open>\<open>ChannelEventV1\<close>, one constructor per member of the union. The base properties
  \<open>channelId\<close> and \<open>timestamp\<close> are not read by any modelled operation.\<close>

datatype channel_event =
    EvSnapshot snapshot_event
  | EvCreated channel_message
  | EvDelta (delta_messageId: string) (delta_index: int) (delta_text: string)
  | EvUpdated channel_message
  | EvCompleted channel_message
  | EvEdited channel_message
  | EvDeleted channel_message
  | EvResyncRequired int
  | EvRunLifecycle run_lifecycle_event
  | EvReceipt delivery_receipt

end
