(* ===== verification/Channel_Filter.thy ===== *)
theory Channel_Filter
  imports Channel_Types
begin

text \<open>
  The pure predicates on channel messages (\<open>shared/channel-chat-protocol.ts\<close>): the projection of
  a durable admission result, member-id canonicalisation and the reserved inviter markers, the
  subscription filters, and the retry, edit and delete contracts of a row. The properties say
  which rows the contracts admit, that a normalised filter selects the same rows and runs, and
  that a turn id determines the message that raised it.
\<close>

section \<open>Durable mention delivery\<close>

text \<open>The four values of \<open>ChannelPostMentionDelivery.state\<close> as receipt states.\<close>

definition projectDurableMentionDelivery ::
  "async_run_target \<Rightarrow> (receipt_state \<times> receipt_reason option) option" where
  "projectDurableMentionDelivery target =
     (if tgt_state target = TgtRefused then
        (if tgt_reason target = Some ''provider-failure:quota_exhausted''
           then Some (RcRefusedProvider, Some RrProviderQuotaExhausted)
         else if tgt_reason target = Some ''provider-failure:auth_required''
           then Some (RcRefusedProvider, Some RrProviderAuthRequired)
         else if tgt_reason target = Some ''provider-failure:binary_missing''
           then Some (RcRefusedProvider, Some RrProviderBinaryMissing)
         else if tgt_reason target = Some ''provider-failure:unknown''
           then Some (RcRefusedProvider, Some RrProviderUnknownFailure)
         else if (case tgt_reason target of None \<Rightarrow> False
                  | Some r \<Rightarrow> starts_with r ''provider-failure:'')
           then Some (RcRefusedProvider, None)
         else Some (RcRefusedPolicy, None))
      else if tgt_state target \<noteq> TgtRejected then None
      else if tgt_reason target = Some ''mention-chain-paused''
        then Some (RcRefusedPolicy, Some RrMentionChainPaused)
      else if tgt_reason target = Some ''target-unavailable''
        then Some (RcUnreachableOffline, Some RrRuntimeUnavailable)
      else if tgt_reason target = Some ''target-binding-failed''
        then Some (RcRefusedPolicy, Some RrBindingFailed)
      else Some (RcRefusedPolicy, None))"

section \<open>Member ids\<close>

definition membership_reserved_inviters :: "string list" where
  "membership_reserved_inviters =
     [''backfill'', ''binding'', ''self'', ''credential-mint'', ''creator'']"

definition canonicalChannelMemberId :: "string \<Rightarrow> string" where
  "canonicalChannelMemberId i = (if starts_with i ''agent:'' then drop (length ''agent:'') i else i)"

definition collidesWithReservedInviter :: "string \<Rightarrow> bool" where
  "collidesWithReservedInviter i =
     (let canonical = canonicalChannelMemberId (trim i) in
      list_ex (\<lambda>marker. canonical = marker \<or> canonical = ''agent-profile:'' @ marker @ '':default'')
        membership_reserved_inviters)"

section \<open>Retry, edit and delete contracts\<close>

definition turn_id_prefix :: string where
  "turn_id_prefix = ''chturn-''"

definition channelTurnId :: "string \<Rightarrow> string \<Rightarrow> string" where
  "channelTurnId triggerMessageId profileActorId = turn_id_prefix @ triggerMessageId @ ''-'' @ profileActorId"

definition triggerMessageIdFromTurnId :: "string \<Rightarrow> string \<Rightarrow> string option" where
  "triggerMessageIdFromTurnId turnId profileActorId =
     (let suffix = ''-'' @ profileActorId in
      if \<not> starts_with turnId turn_id_prefix then None
      else if \<not> ends_with turnId suffix \<or> length turnId \<le> length suffix then None
      else
        let i = drop (length turn_id_prefix) (take (length turnId - length suffix) turnId) in
        if starts_with i ''chm:'' \<and> length ''chm:'' < length i then Some i else None)"

definition retryable_statuses :: "message_status list" where
  "retryable_statuses = [StFailed, StInterrupted, StTruncated]"

text \<open>\<open>message.meta?.[key]\<close>\<close>

definition meta_get :: "channel_message \<Rightarrow> string \<Rightarrow> json" where
  "meta_get m k = (case msg_meta m of None \<Rightarrow> JUndef | Some kvs \<Rightarrow> fld (JObj kvs) k)"

definition channelRetryTarget :: "channel_message \<Rightarrow> (string \<times> string) option" where
  "channelRetryTarget m =
     (if msg_kind m \<noteq> MkMessage then None
      else if sr_kind (msg_sender m) \<noteq> SkAgent then None
      else if msg_status m \<notin> set retryable_statuses then None
      else case Option.bind (msg_source m) src_turnId of
        None \<Rightarrow> None
      | Some turnId \<Rightarrow>
          if turnId = [] then None
          else
            let profileActorId = sr_id (msg_sender m) in
            case triggerMessageIdFromTurnId turnId profileActorId of
              None \<Rightarrow> None
            | Some t \<Rightarrow> if t = msg_id m then None else Some (t, profileActorId))"

definition retriedMessageIdFromSystemRow :: "channel_message \<Rightarrow> string option" where
  "retriedMessageIdFromSystemRow m =
     (if msg_kind m \<noteq> MkSystem then None
      else case meta_get m ''retryOfMessageId'' of
        JStr v \<Rightarrow> if starts_with v ''chm:'' then Some v else None
      | _ \<Rightarrow> None)"

definition channelMessageEditedAt :: "channel_message \<Rightarrow> string option" where
  "channelMessageEditedAt m =
     (case meta_get m ''editedAt'' of JStr v \<Rightarrow> if length v > 0 then Some v else None | _ \<Rightarrow> None)"

definition channelMessageDeletedAt :: "channel_message \<Rightarrow> string option" where
  "channelMessageDeletedAt m =
     (case meta_get m ''deletedAt'' of JStr v \<Rightarrow> if length v > 0 then Some v else None | _ \<Rightarrow> None)"

definition isChannelMessageDeleted :: "channel_message \<Rightarrow> bool" where
  "isChannelMessageDeleted m \<longleftrightarrow> channelMessageDeletedAt m \<noteq> None"

definition channelMessageEditable :: "channel_message \<Rightarrow> bool" where
  "channelMessageEditable m \<longleftrightarrow>
     msg_kind m = MkMessage \<and> sr_kind (msg_sender m) = SkHuman \<and>
     msg_status m = StComplete \<and> \<not> isChannelMessageDeleted m"

definition channelMessageDeletable :: "channel_message \<Rightarrow> bool" where
  "channelMessageDeletable m \<longleftrightarrow> channelMessageEditable m"

definition isChannelMessageTombstone :: "channel_message \<Rightarrow> bool" where
  "isChannelMessageTombstone m \<longleftrightarrow>
     msg_kind m = MkMessage \<and> sr_kind (msg_sender m) = SkHuman \<and>
     isChannelMessageDeleted m \<and> length (msg_text m) = 0"

section \<open>Subscription filters\<close>

record subscription_filter =
  flt_threadId :: "string option"
  flt_messageId :: "string option"
  flt_senderId :: "string option"
  flt_mentionTargetId :: "string option"
  flt_status :: "message_status option"
  flt_runId :: "string option"
  flt_terminalOnly :: "bool option"
  flt_principalOnly :: "bool option"

definition normalizeChannelSubscriptionFilter :: "subscription_filter \<Rightarrow> subscription_filter" where
  "normalizeChannelSubscriptionFilter flt =
     flt\<lparr>flt_terminalOnly := (if flt_terminalOnly flt = Some True then Some True else None),
            flt_principalOnly := (if flt_principalOnly flt = Some True then Some True else None)\<rparr>"

definition channelMessageIsPrincipalProse :: "channel_message \<Rightarrow> bool" where
  "channelMessageIsPrincipalProse m \<longleftrightarrow>
     msg_kind m = MkMessage \<and> \<not> isChannelMessageTombstone m \<and>
     length (trim (msg_text m)) > 0 \<and> msg_agentDetail m = None \<and>
     (case msg_parts m of None \<Rightarrow> True | Some ps \<Rightarrow> length ps = 0)"

definition channelMessageMatchesSubscriptionFilter ::
  "channel_message \<Rightarrow> subscription_filter \<Rightarrow> bool" where
  "channelMessageMatchesSubscriptionFilter m flt =
     (if (case flt_threadId flt of None \<Rightarrow> False
          | Some t \<Rightarrow> if t = ''root'' then msg_threadId m \<noteq> None
              else \<not> ((msg_threadId m = None \<and> msg_id m = t) \<or> msg_threadId m = Some t))
      then False
      else if flt_messageId flt \<noteq> None \<and> Some (msg_id m) \<noteq> flt_messageId flt then False
      else if flt_senderId flt \<noteq> None \<and> Some (sr_id (msg_sender m)) \<noteq> flt_senderId flt then False
      else if flt_mentionTargetId flt \<noteq> None \<and>
          \<not> (case msg_mentions m of None \<Rightarrow> False
             | Some ms \<Rightarrow> list_ex (\<lambda>mention. mn_profileId mention = flt_mentionTargetId flt \<or>
                 mn_providerId mention = flt_mentionTargetId flt) ms)
      then False
      else if flt_status flt \<noteq> None \<and> Some (msg_status m) \<noteq> flt_status flt then False
      else if flt_runId flt \<noteq> None \<and> map_option arr_runId (msg_asyncRun m) \<noteq> flt_runId flt then False
      else if flt_terminalOnly flt = Some True \<and> msg_status m \<notin> set terminal_message_statuses then False
      else flt_principalOnly flt \<noteq> Some True \<or> channelMessageIsPrincipalProse m)"

definition channelAsyncRunMatchesSubscriptionFilter ::
  "async_run \<Rightarrow> subscription_filter \<Rightarrow> bool" where
  "channelAsyncRunMatchesSubscriptionFilter r flt =
     (if flt_messageId flt \<noteq> None \<or> flt_senderId flt \<noteq> None \<or>
         flt_mentionTargetId flt \<noteq> None \<or> flt_status flt \<noteq> None \<or>
         flt_principalOnly flt = Some True
      then False
      else if (case flt_threadId flt of None \<Rightarrow> False
          | Some t \<Rightarrow> if t = ''root'' then run_threadId r \<noteq> None
              else (case run_threadId r of None \<Rightarrow> run_requestMessageId r \<noteq> t
                    | Some t' \<Rightarrow> t' \<noteq> t))
      then False
      else if flt_runId flt \<noteq> None \<and> Some (run_id r) \<noteq> flt_runId flt then False
      else flt_terminalOnly flt \<noteq> Some True \<or> run_state r \<in> set terminal_run_states)"

section \<open>Lemmas\<close>

lemma canonical_idem_unless_double:
  "\<not> starts_with (canonicalChannelMemberId i) ''agent:'' \<Longrightarrow>
    canonicalChannelMemberId (canonicalChannelMemberId i) = canonicalChannelMemberId i"
  by (simp add: canonicalChannelMemberId_def)

lemma trigger_of_turn_id:
  assumes "starts_with t ''chm:''" and "length ''chm:'' < length t"
  shows "triggerMessageIdFromTurnId (channelTurnId t p) p = Some t"
proof -
  let ?turn = "channelTurnId t p"
  have "starts_with ?turn turn_id_prefix"
    by (simp add: channelTurnId_def)
  moreover have "ends_with ?turn (''-'' @ p)"
    unfolding channelTurnId_def by (metis append.assoc ends_with_append)
  moreover have "drop (length turn_id_prefix) (take (length ?turn - length (''-'' @ p)) ?turn) = t"
    by (simp add: channelTurnId_def)
  moreover have "\<not> length ?turn \<le> length (''-'' @ p)"
    by (simp add: channelTurnId_def turn_id_prefix_def)
  ultimately show ?thesis
    using assms unfolding triggerMessageIdFromTurnId_def Let_def by (simp only: if_True if_False simp_thms)
qed

lemma trigger_from_turn_id_sound:
  assumes "triggerMessageIdFromTurnId turnId p = Some t"
  shows "turnId = channelTurnId t p"
proof -
  let ?suf = "''-'' @ p"
  from assms have pre: "starts_with turnId turn_id_prefix" and suf: "ends_with turnId ?suf"
    and t: "t = drop (length turn_id_prefix) (take (length turnId - length ?suf) turnId)"
    and chm: "starts_with t ''chm:''" "length ''chm:'' < length t"
    by (auto simp: triggerMessageIdFromTurnId_def Let_def split: if_splits)
  from suf obtain u where u: "turnId = u @ ?suf" by (auto simp: ends_with_iff)
  with t have t': "t = drop (length turn_id_prefix) u" by simp
  with chm have "length turn_id_prefix < length u" by auto
  with pre u have "take (length turn_id_prefix) u = turn_id_prefix"
    by (simp add: starts_with_def)
  then have "u = turn_id_prefix @ t"
    using t' by (metis append_take_drop_id)
  with u show ?thesis by (simp add: channelTurnId_def)
qed

lemma normalize_filter_fields [simp]:
  "flt_threadId (normalizeChannelSubscriptionFilter f) = flt_threadId f"
  "flt_messageId (normalizeChannelSubscriptionFilter f) = flt_messageId f"
  "flt_senderId (normalizeChannelSubscriptionFilter f) = flt_senderId f"
  "flt_mentionTargetId (normalizeChannelSubscriptionFilter f) = flt_mentionTargetId f"
  "flt_status (normalizeChannelSubscriptionFilter f) = flt_status f"
  "flt_runId (normalizeChannelSubscriptionFilter f) = flt_runId f"
  "flt_terminalOnly (normalizeChannelSubscriptionFilter f) = Some True \<longleftrightarrow> flt_terminalOnly f = Some True"
  "flt_principalOnly (normalizeChannelSubscriptionFilter f) = Some True \<longleftrightarrow> flt_principalOnly f = Some True"
  by (simp_all add: normalizeChannelSubscriptionFilter_def)

lemma normalize_filter_matches_message:
  "channelMessageMatchesSubscriptionFilter m (normalizeChannelSubscriptionFilter f)
    = channelMessageMatchesSubscriptionFilter m f"
  unfolding channelMessageMatchesSubscriptionFilter_def by (simp only: normalize_filter_fields)

lemma normalize_filter_matches_run:
  "channelAsyncRunMatchesSubscriptionFilter r (normalizeChannelSubscriptionFilter f)
    = channelAsyncRunMatchesSubscriptionFilter r f"
  unfolding channelAsyncRunMatchesSubscriptionFilter_def by (simp only: normalize_filter_fields)

end
