(* ===== verification/Channel_Reducer.thy ===== *)
theory Channel_Reducer
  imports Channel_Filter
begin

text \<open>
  The client-side reducer of the channel timeline (\<open>applyChannelEventV1\<close> and
  \<open>mergeHistoryPage\<close> in \<open>shared/channel-chat-protocol.ts\<close>). The state keeps the rows in
  sequence order, an index by id, the runs, the durable cursor, the last applied delta index of
  each stream and the streams that are quarantined after an out-of-order delta.

  The invariant \<open>timeline_inv\<close> (rows sorted, ids distinct, the index agrees with the rows, no row
  past the cursor) is kept by every event that meets \<open>event_ok\<close>; the side condition names what
  the reducer takes on trust from the hub. The other lemmas are about replay, gaps, isolation of
  streams, and the text a stream shows after any loss or reordering of its deltas.
\<close>

section \<open>State and helpers\<close>

record channel_state =
  st_channelId :: string
  st_messages :: "channel_message list"
  st_byId :: "string \<rightharpoonup> channel_message"
  st_runs :: "string \<rightharpoonup> async_run"
  st_lastSeq :: int
  st_inFlightDelta :: "string \<rightharpoonup> int"
  st_quarantined :: "string set"
  st_needsCatchup :: bool

definition initialChannelReducerState :: "string \<Rightarrow> channel_state" where
  "initialChannelReducerState channelId =
     \<lparr>st_channelId = channelId, st_messages = [], st_byId = Map.empty, st_runs = Map.empty,
      st_lastSeq = 0, st_inFlightDelta = Map.empty, st_quarantined = {}, st_needsCatchup = False\<rparr>"

fun find_index :: "('a \<Rightarrow> bool) \<Rightarrow> 'a list \<Rightarrow> nat option" where
  "find_index P [] = None"
| "find_index P (x # xs) = (if P x then Some 0 else map_option Suc (find_index P xs))"

definition sortedInsert :: "channel_message list \<Rightarrow> channel_message \<Rightarrow> channel_message list" where
  "sortedInsert messages m =
     (let next = filter (\<lambda>existing. msg_id existing \<noteq> msg_id m) messages;
          index = (case find_index (\<lambda>existing. msg_seq existing > msg_seq m) next of
                     None \<Rightarrow> length next | Some i \<Rightarrow> i)
      in take index next @ m # drop index next)"

definition rebuildById :: "channel_message list \<Rightarrow> string \<rightharpoonup> channel_message" where
  "rebuildById messages = foldl (\<lambda>byId m. byId(msg_id m \<mapsto> m)) Map.empty messages"

definition inFlightFromRefs :: "in_flight_ref list \<Rightarrow> string \<rightharpoonup> int" where
  "inFlightFromRefs refs = foldl (\<lambda>m ref. m(ifr_messageId ref \<mapsto> ifr_deltaIndex ref)) Map.empty refs"

text \<open>\<open>Object.fromEntries(runs.map((run) => [run.id, run]))\<close>\<close>

definition runsFromList :: "async_run list \<Rightarrow> string \<rightharpoonup> async_run" where
  "runsFromList runs = foldl (\<lambda>m run. m(run_id run \<mapsto> run)) Map.empty runs"

text \<open>\<open>messages.map((row) => row.id === message.id ? message : row)\<close>\<close>

definition replaceRow :: "channel_message list \<Rightarrow> channel_message \<Rightarrow> channel_message list" where
  "replaceRow messages m = map (\<lambda>row. if msg_id row = msg_id m then m else row) messages"

type_synonym replacement_acc =
  "channel_message list \<times> (string \<rightharpoonup> channel_message) \<times> (string \<rightharpoonup> int) \<times> string set"

definition applyReplacement ::
  "(string \<rightharpoonup> channel_message) \<Rightarrow> replacement_acc \<Rightarrow> state_replacement \<Rightarrow> replacement_acc" where
  "applyReplacement existingById acc rep =
     (case acc of (messages, byId, inFlightDelta, quarantined) \<Rightarrow>
        let m = rep_message rep in
        case existingById (msg_id m) of
          None \<Rightarrow> acc
        | Some existing \<Rightarrow>
            if msg_seq existing \<noteq> msg_seq m then acc
            else
              (replaceRow messages m,
               byId(msg_id m \<mapsto> m),
               (case rep_inFlight rep of
                  Some ref \<Rightarrow> inFlightDelta(msg_id m \<mapsto> ifr_deltaIndex ref)
                | None \<Rightarrow> inFlightDelta(msg_id m := None)),
               quarantined - {msg_id m}))"

definition applySnapshotStateReplacements ::
  "channel_message list \<Rightarrow> (string \<rightharpoonup> channel_message) \<Rightarrow> (string \<rightharpoonup> channel_message) \<Rightarrow>
   (string \<rightharpoonup> int) \<Rightarrow> string set \<Rightarrow> state_replacement list \<Rightarrow> replacement_acc" where
  "applySnapshotStateReplacements messages byId existingById inFlightDelta quarantined replacements =
     foldl (applyReplacement existingById) (messages, byId, inFlightDelta, quarantined) replacements"

text \<open>The rows of a catch-up snapshot, merged in ascending sequence order.\<close>

definition mergeCatchupRows ::
  "channel_state \<Rightarrow> channel_message list \<Rightarrow> channel_message list" where
  "mergeCatchupRows state rows =
     foldl (\<lambda>messages m.
         if st_byId state (msg_id m) \<noteq> None \<or> msg_seq m > st_lastSeq state
         then sortedInsert messages m else messages)
       (st_messages state) (sort_key msg_seq rows)"

section \<open>The reducer\<close>

definition applySnapshot :: "channel_state \<Rightarrow> snapshot_event \<Rightarrow> channel_state" where
  "applySnapshot state event =
     (case sn_mode event of
        SnapFull \<Rightarrow>
          let messages = sort_key msg_seq (sn_messages event) in
          \<lparr>st_channelId = st_channelId state, st_messages = messages,
           st_byId = rebuildById messages,
           st_runs = (case sn_runs event of None \<Rightarrow> st_runs state | Some rs \<Rightarrow> runsFromList rs),
           st_lastSeq = sn_latestSeq event,
           st_inFlightDelta = inFlightFromRefs (sn_inFlight event),
           st_quarantined = {}, st_needsCatchup = False\<rparr>
      | SnapCatchup \<Rightarrow>
          let messages = mergeCatchupRows state (sn_messages event) in
          case applySnapshotStateReplacements messages (rebuildById messages) (st_byId state)
                 (inFlightFromRefs (sn_inFlight event)) (st_quarantined state)
                 (case sn_stateReplacements event of None \<Rightarrow> [] | Some rs \<Rightarrow> rs)
          of (messages', byId', inFlight', quarantined') \<Rightarrow>
            state\<lparr>st_messages := messages', st_byId := byId',
                  st_runs := st_runs state ++
                    runsFromList (case sn_runs event of None \<Rightarrow> [] | Some rs \<Rightarrow> rs),
                  st_lastSeq := max (st_lastSeq state) (sn_latestSeq event),
                  st_inFlightDelta := inFlight', st_quarantined := quarantined',
                  st_needsCatchup := False\<rparr>)"

definition applyCreated :: "channel_state \<Rightarrow> channel_message \<Rightarrow> channel_state" where
  "applyCreated state m =
     (if st_byId state (msg_id m) \<noteq> None then state
      else if msg_seq m \<le> st_lastSeq state then state
      else if msg_seq m > st_lastSeq state + 1 then state\<lparr>st_needsCatchup := True\<rparr>
      else
        let messages = sortedInsert (st_messages state) m in
        state\<lparr>st_messages := messages, st_byId := rebuildById messages, st_lastSeq := msg_seq m\<rparr>)"

definition applyDelta :: "channel_state \<Rightarrow> string \<Rightarrow> int \<Rightarrow> string \<Rightarrow> channel_state" where
  "applyDelta state messageId deltaIndex text =
     (case st_byId state messageId of
        None \<Rightarrow> state\<lparr>st_needsCatchup := True\<rparr>
      | Some existing \<Rightarrow>
          if msg_status existing \<noteq> StStreaming then state
          else if messageId \<in> st_quarantined state then state
          else
            let expected = (case st_inFlightDelta state messageId of None \<Rightarrow> -1 | Some n \<Rightarrow> n) + 1 in
            if deltaIndex \<noteq> expected
            then state\<lparr>st_quarantined := insert messageId (st_quarantined state)\<rparr>
            else
              let updated = existing\<lparr>msg_body := (msg_body existing)
                    \<lparr>body_text := body_text (msg_body existing) @ text\<rparr>\<rparr> in
              state\<lparr>st_messages := replaceRow (st_messages state) updated,
                    st_byId := (st_byId state)(msg_id updated \<mapsto> updated),
                    st_inFlightDelta := (st_inFlightDelta state)(messageId \<mapsto> deltaIndex)\<rparr>)"

definition applyUpdated :: "channel_state \<Rightarrow> channel_message \<Rightarrow> channel_state" where
  "applyUpdated state m =
     (case st_byId state (msg_id m) of
        None \<Rightarrow> state\<lparr>st_needsCatchup := True\<rparr>
      | Some existing \<Rightarrow>
          if msg_status existing \<noteq> StStreaming \<or> msg_status m \<noteq> StStreaming then state
          else if msg_seq m \<noteq> msg_seq existing then state\<lparr>st_needsCatchup := True\<rparr>
          else state\<lparr>st_messages := replaceRow (st_messages state) m,
                     st_byId := (st_byId state)(msg_id m \<mapsto> m)\<rparr>)"

definition applyCompleted :: "channel_state \<Rightarrow> channel_message \<Rightarrow> channel_state" where
  "applyCompleted state m =
     (if st_byId state (msg_id m) = None then state\<lparr>st_needsCatchup := True\<rparr>
      else state\<lparr>st_messages := replaceRow (st_messages state) m,
                 st_byId := (st_byId state)(msg_id m \<mapsto> m),
                 st_inFlightDelta := (st_inFlightDelta state)(msg_id m := None),
                 st_quarantined := st_quarantined state - {msg_id m}\<rparr>)"

text \<open>The edit and the delete lanes have the same three guards.\<close>

definition applyRowReplacement :: "channel_state \<Rightarrow> channel_message \<Rightarrow> channel_state" where
  "applyRowReplacement state m =
     (case st_byId state (msg_id m) of
        None \<Rightarrow> state
      | Some existing \<Rightarrow>
          if msg_status existing = StStreaming then state
          else if msg_seq m \<noteq> msg_seq existing then state\<lparr>st_needsCatchup := True\<rparr>
          else state\<lparr>st_messages := replaceRow (st_messages state) m,
                     st_byId := (st_byId state)(msg_id m \<mapsto> m)\<rparr>)"

fun applyChannelEventV1 :: "channel_state \<Rightarrow> channel_event \<Rightarrow> channel_state" where
  "applyChannelEventV1 state (EvSnapshot event) = applySnapshot state event"
| "applyChannelEventV1 state (EvCreated m) = applyCreated state m"
| "applyChannelEventV1 state (EvDelta messageId deltaIndex text) = applyDelta state messageId deltaIndex text"
| "applyChannelEventV1 state (EvUpdated m) = applyUpdated state m"
| "applyChannelEventV1 state (EvCompleted m) = applyCompleted state m"
| "applyChannelEventV1 state (EvEdited m) = applyRowReplacement state m"
| "applyChannelEventV1 state (EvDeleted m) = applyRowReplacement state m"
| "applyChannelEventV1 state (EvResyncRequired latestSeq) = state\<lparr>st_needsCatchup := True\<rparr>"
| "applyChannelEventV1 state (EvRunLifecycle e) =
     state\<lparr>st_runs := (st_runs state)(run_id (rle_run e) \<mapsto> rle_run e)\<rparr>"
| "applyChannelEventV1 state (EvReceipt r) = state"

definition mergeHistoryPage :: "channel_state \<Rightarrow> channel_message list \<Rightarrow> channel_state" where
  "mergeHistoryPage state page =
     (if length page = 0 then state
      else
        let messages = foldl sortedInsert (st_messages state) (sort_key msg_seq page);
            highestSeq = (if messages \<noteq> [] then msg_seq (last messages) else st_lastSeq state)
        in state\<lparr>st_messages := messages, st_byId := rebuildById messages,
                 st_lastSeq := max (st_lastSeq state) highestSeq\<rparr>)"

section \<open>Well-formed timelines\<close>

abbreviation index_of_rows :: "channel_message list \<Rightarrow> string \<rightharpoonup> channel_message" where
  "index_of_rows ms \<equiv> map_of (map (\<lambda>m. (msg_id m, m)) ms)"

definition wf_rows :: "channel_message list \<Rightarrow> bool" where
  "wf_rows ms \<longleftrightarrow> sorted (map msg_seq ms) \<and> distinct (map msg_id ms)"

definition timeline_inv :: "channel_state \<Rightarrow> bool" where
  "timeline_inv s \<longleftrightarrow>
     wf_rows (st_messages s) \<and> st_byId s = index_of_rows (st_messages s) \<and>
     (\<forall>m\<in>set (st_messages s). msg_seq m \<le> st_lastSeq s)"

text \<open>What the reducer does not check itself: a full snapshot lists a row once and reports a
  cursor at or past its rows; a snapshot row or a completion for a known id keeps its sequence
  number.\<close>

definition same_seq :: "channel_state \<Rightarrow> channel_message \<Rightarrow> bool" where
  "same_seq s m \<longleftrightarrow> (\<forall>r. st_byId s (msg_id m) = Some r \<longrightarrow> msg_seq r = msg_seq m)"

definition event_ok :: "channel_state \<Rightarrow> channel_event \<Rightarrow> bool" where
  "event_ok s e =
     (case e of
        EvSnapshot ev \<Rightarrow>
          (case sn_mode ev of
             SnapFull \<Rightarrow> distinct (map msg_id (sn_messages ev)) \<and>
               (\<forall>m\<in>set (sn_messages ev). msg_seq m \<le> sn_latestSeq ev)
           | SnapCatchup \<Rightarrow> (\<forall>m\<in>set (sn_messages ev). same_seq s m \<and>
               msg_seq m \<le> max (st_lastSeq s) (sn_latestSeq ev)))
      | EvCompleted m \<Rightarrow> same_seq s m
      | _ \<Rightarrow> True)"

lemma find_index_None: "find_index P xs = None \<longleftrightarrow> (\<forall>x\<in>set xs. \<not> P x)"
  by (induction xs) auto

lemma find_index_split:
  "(case find_index P xs of None \<Rightarrow> length xs | Some i \<Rightarrow> i) = length (takeWhile (\<lambda>x. \<not> P x) xs)"
  by (induction xs) (auto split: option.splits)

lemma sortedInsert_eq:
  "sortedInsert ms m =
     (let next = filter (\<lambda>e. msg_id e \<noteq> msg_id m) ms in
      takeWhile (\<lambda>e. msg_seq e \<le> msg_seq m) next @ m # dropWhile (\<lambda>e. msg_seq e \<le> msg_seq m) next)"
proof -
  have *: "take (length (takeWhile P xs)) xs = takeWhile P xs" for P and xs :: "channel_message list"
    by (metis takeWhile_eq_take)
  have "drop (length (takeWhile P xs)) xs = dropWhile P xs" for P and xs :: "channel_message list"
    by (metis dropWhile_eq_drop)
  with * show ?thesis
    by (simp add: sortedInsert_def Let_def find_index_split not_less)
qed

lemma set_sortedInsert: "set (sortedInsert ms m) = insert m {e \<in> set ms. msg_id e \<noteq> msg_id m}"
proof -
  have "set (takeWhile P xs @ m # dropWhile P xs) = insert m (set xs)" for P xs
    by (metis Un_insert_right list.simps(15) set_append takeWhile_dropWhile_id)
  then show ?thesis by (simp only: sortedInsert_eq Let_def) auto
qed

lemma sorted_takeWhile_insert:
  fixes xs :: "channel_message list"
  assumes "sorted (map msg_seq xs)"
  shows "sorted (map msg_seq (takeWhile (\<lambda>e. msg_seq e \<le> msg_seq m) xs @ m
           # dropWhile (\<lambda>e. msg_seq e \<le> msg_seq m) xs))"
  using assms
proof (induction xs)
  case (Cons x xs)
  then show ?case
    by (auto dest: set_takeWhileD set_dropWhileD)
qed simp

lemma wf_sortedInsert: "wf_rows ms \<Longrightarrow> wf_rows (sortedInsert ms m)"
proof -
  assume wf: "wf_rows ms"
  let ?n = "filter (\<lambda>e. msg_id e \<noteq> msg_id m) ms"
  from wf have s: "sorted (map msg_seq ?n)" and d: "distinct (map msg_id ?n)"
    by (auto simp: wf_rows_def sorted_filter distinct_map_filter)
  have perm: "mset (sortedInsert ms m) = add_mset m (mset ?n)"
  proof -
    have "mset (takeWhile P xs @ m # dropWhile P xs) = add_mset m (mset xs)" for P xs
      by (induction xs) auto
    then show ?thesis by (simp only: sortedInsert_eq Let_def)
  qed
  then have "mset (map msg_id (sortedInsert ms m)) = mset (map msg_id (m # ?n))"
    by simp
  moreover have "distinct (map msg_id (m # ?n))"
    using d by auto
  ultimately have "distinct (map msg_id (sortedInsert ms m))"
    by (metis distinct_count_atmost_1 mset_eq_setD)
  with sorted_takeWhile_insert [OF s] show ?thesis
    by (simp only: wf_rows_def sortedInsert_eq Let_def simp_thms)
qed

lemma rebuildById_append: "rebuildById (ms @ [m]) = (rebuildById ms)(msg_id m \<mapsto> m)"
  by (simp add: rebuildById_def)

lemma rebuildById_index: "distinct (map msg_id ms) \<Longrightarrow> rebuildById ms = index_of_rows ms"
proof (induction ms rule: rev_induct)
  case Nil
  then show ?case by (simp add: rebuildById_def)
next
  case (snoc m ms)
  then have IH: "rebuildById ms = index_of_rows ms" and "index_of_rows ms (msg_id m) = None"
    by (auto simp: map_of_key_list_None simp del: map_of_eq_None_iff)
  then show ?case
    by (auto simp: rebuildById_append map_add_def fun_eq_iff split: option.splits)
qed

lemma map_id_replaceRow [simp]: "map msg_id (replaceRow ms m) = map msg_id ms"
  by (simp add: replaceRow_def)

lemma map_seq_replaceRow:
  "(\<And>r. r \<in> set ms \<Longrightarrow> msg_id r = msg_id m \<Longrightarrow> msg_seq r = msg_seq m) \<Longrightarrow>
    map msg_seq (replaceRow ms m) = map msg_seq ms"
  by (auto simp: replaceRow_def)

lemma set_replaceRow:
  "x \<in> set (replaceRow ms m) \<Longrightarrow> x = m \<and> msg_id m \<in> msg_id ` set ms \<or> x \<in> set ms \<and> msg_id x \<noteq> msg_id m"
  by (auto simp: replaceRow_def split: if_splits) (metis imageI)+

lemma index_replaceRow_at:
  "index_of_rows (replaceRow ms m) k =
    (if k = msg_id m then (if msg_id m \<in> msg_id ` set ms then Some m else None) else index_of_rows ms k)"
  by (induction ms) (auto simp: replaceRow_def)

lemma index_replaceRow:
  "msg_id m \<in> msg_id ` set ms \<Longrightarrow> index_of_rows (replaceRow ms m) = (index_of_rows ms)(msg_id m \<mapsto> m)"
  by (rule ext) (simp only: index_replaceRow_at if_True fun_upd_apply)

lemma replaceRow_absent: "msg_id m \<notin> msg_id ` set ms \<Longrightarrow> replaceRow ms m = ms"
  by (induction ms) (auto simp: replaceRow_def)

lemma wf_replaceRow:
  assumes "wf_rows ms" and "\<And>r. r \<in> set ms \<Longrightarrow> msg_id r = msg_id m \<Longrightarrow> msg_seq r = msg_seq m"
  shows "wf_rows (replaceRow ms m)"
  using assms by (simp add: wf_rows_def map_seq_replaceRow)

text \<open>Replacing a held row by one with the same sequence number keeps the invariant; every lane
  that rewrites a row goes through this lemma.\<close>

lemma timeline_replace:
  assumes inv: "timeline_inv s" and r: "st_byId s (msg_id m) = Some r" and seq: "msg_seq r = msg_seq m"
  shows "timeline_inv (s\<lparr>st_messages := replaceRow (st_messages s) m,
                         st_byId := (st_byId s)(msg_id m \<mapsto> m)\<rparr>)"
proof -
  let ?ms = "st_messages s"
  from inv have wf: "wf_rows ?ms" and idx: "st_byId s = index_of_rows ?ms"
    and le: "\<forall>x\<in>set ?ms. msg_seq x \<le> st_lastSeq s"
    by (auto simp: timeline_inv_def)
  from wf idx r have rin: "r \<in> set ?ms" "msg_id r = msg_id m"
    by (auto simp: wf_rows_def map_of_key_list)
  have uniq: "x \<in> set ?ms \<Longrightarrow> msg_id x = msg_id m \<Longrightarrow> msg_seq x = msg_seq m" for x
  proof -
    assume "x \<in> set ?ms" "msg_id x = msg_id m"
    then have "index_of_rows ?ms (msg_id m) = Some x"
      using wf by (simp add: wf_rows_def map_of_key_list)
    with r idx seq show ?thesis by simp
  qed
  have "msg_id m \<in> msg_id ` set ?ms" using rin by (metis imageI)
  then have "index_of_rows (replaceRow ?ms m) = (st_byId s)(msg_id m \<mapsto> m)"
    by (simp add: index_replaceRow idx)
  moreover have "wf_rows (replaceRow ?ms m)"
    using wf uniq by (rule wf_replaceRow)
  moreover have "\<forall>x\<in>set (replaceRow ?ms m). msg_seq x \<le> st_lastSeq s"
    using le rin seq by (auto dest!: set_replaceRow)
  ultimately show ?thesis
    by (simp add: timeline_inv_def)
qed

lemma timeline_inv_flags [simp]:
  "timeline_inv (s\<lparr>st_needsCatchup := b\<rparr>) = timeline_inv s"
  "timeline_inv (s\<lparr>st_quarantined := q\<rparr>) = timeline_inv s"
  "timeline_inv (s\<lparr>st_inFlightDelta := d\<rparr>) = timeline_inv s"
  "timeline_inv (s\<lparr>st_runs := rs\<rparr>) = timeline_inv s"
  by (simp_all add: timeline_inv_def)

lemma timeline_inv_initial: "timeline_inv (initialChannelReducerState c)"
  by (simp add: timeline_inv_def initialChannelReducerState_def wf_rows_def)

lemma timeline_rows: 
  assumes "wf_rows ms" and "\<And>m. m \<in> set ms \<Longrightarrow> msg_seq m \<le> n"
  shows "timeline_inv (s\<lparr>st_messages := ms, st_byId := rebuildById ms, st_lastSeq := n\<rparr>)"
  using assms by (simp add: timeline_inv_def wf_rows_def rebuildById_index)

lemma timeline_created: "timeline_inv s \<Longrightarrow> timeline_inv (applyCreated s m)"
proof (cases "st_byId s (msg_id m) = None \<and> st_lastSeq s < msg_seq m \<and> \<not> msg_seq m > st_lastSeq s + 1")
  case True
  assume inv: "timeline_inv s"
  have "timeline_inv (s\<lparr>st_messages := sortedInsert (st_messages s) m,
      st_byId := rebuildById (sortedInsert (st_messages s) m), st_lastSeq := msg_seq m\<rparr>)"
    using inv True by (intro timeline_rows) (auto simp: timeline_inv_def wf_sortedInsert set_sortedInsert)
  with True show ?thesis by (simp add: applyCreated_def Let_def)
qed (auto simp: applyCreated_def)

lemma timeline_byId_id: "timeline_inv s \<Longrightarrow> st_byId s i = Some r \<Longrightarrow> msg_id r = i"
  by (auto simp: timeline_inv_def wf_rows_def map_of_key_list)

lemma timeline_delta: "timeline_inv s \<Longrightarrow> timeline_inv (applyDelta s i n t)"
proof (cases "st_byId s i")
  case (Some r)
  assume inv: "timeline_inv s"
  let ?u = "r\<lparr>msg_body := (msg_body r)\<lparr>body_text := body_text (msg_body r) @ t\<rparr>\<rparr>"
  have "timeline_inv (s\<lparr>st_messages := replaceRow (st_messages s) ?u,
      st_byId := (st_byId s)(msg_id ?u \<mapsto> ?u)\<rparr>)"
    using inv Some timeline_byId_id [OF inv Some] by (intro timeline_replace [where r = r]) auto
  then have "timeline_inv (s\<lparr>st_messages := replaceRow (st_messages s) ?u,
      st_byId := (st_byId s)(msg_id ?u \<mapsto> ?u), st_inFlightDelta := d\<rparr>)" for d
    by (simp add: timeline_inv_def)
  with inv Some show ?thesis
    by (simp add: applyDelta_def Let_def)
qed (simp add: applyDelta_def)

lemma timeline_updated: "timeline_inv s \<Longrightarrow> timeline_inv (applyUpdated s m)"
  by (auto simp: applyUpdated_def split: option.splits intro: timeline_replace)

lemma timeline_row_replacement: "timeline_inv s \<Longrightarrow> timeline_inv (applyRowReplacement s m)"
  by (auto simp: applyRowReplacement_def split: option.splits intro: timeline_replace)

lemma timeline_completed: "timeline_inv s \<Longrightarrow> same_seq s m \<Longrightarrow> timeline_inv (applyCompleted s m)"
proof (cases "st_byId s (msg_id m)")
  case (Some r)
  assume "timeline_inv s" "same_seq s m"
  with Some have "timeline_inv (s\<lparr>st_messages := replaceRow (st_messages s) m,
      st_byId := (st_byId s)(msg_id m \<mapsto> m)\<rparr>)"
    by (intro timeline_replace [where r = r]) (auto simp: same_seq_def)
  with Some show ?thesis by (simp add: applyCompleted_def timeline_inv_def)
qed (simp add: applyCompleted_def)

section \<open>Snapshots\<close>

lemma wf_rows_sort_key: "distinct (map msg_id ms) \<Longrightarrow> wf_rows (sort_key msg_seq ms)"
proof -
  assume "distinct (map msg_id ms)"
  moreover have "mset (map msg_id (sort_key msg_seq ms)) = mset (map msg_id ms)"
    by simp
  ultimately have "distinct (map msg_id (sort_key msg_seq ms))"
    by (metis distinct_count_atmost_1 mset_eq_setD)
  then show ?thesis by (simp add: wf_rows_def)
qed

lemma timeline_full:
  assumes "sn_mode ev = SnapFull" and "event_ok s (EvSnapshot ev)"
  shows "timeline_inv (applySnapshot s ev)"
  using assms wf_rows_sort_key [of "sn_messages ev"]
  by (simp add: applySnapshot_def event_ok_def timeline_inv_def Let_def wf_rows_def rebuildById_index)

text \<open>What the merge of the catch-up rows establishes for the rows it produces.\<close>

definition merged_rows :: "channel_state \<Rightarrow> int \<Rightarrow> channel_message list \<Rightarrow> bool" where
  "merged_rows s n ms \<longleftrightarrow>
     wf_rows ms \<and> (\<forall>r\<in>set ms. same_seq s r \<and> msg_seq r \<le> n) \<and> dom (st_byId s) \<subseteq> msg_id ` set ms"

lemma merged_rows_start:
  "timeline_inv s \<Longrightarrow> st_lastSeq s \<le> n \<Longrightarrow> merged_rows s n (st_messages s)"
proof -
  assume inv: "timeline_inv s" and n: "st_lastSeq s \<le> n"
  then have wf: "wf_rows (st_messages s)" and idx: "st_byId s = index_of_rows (st_messages s)"
    and le: "\<forall>r\<in>set (st_messages s). msg_seq r \<le> n"
    by (auto simp: timeline_inv_def)
  have "same_seq s r" if "r \<in> set (st_messages s)" for r
  proof -
    have "st_byId s (msg_id r) = Some r"
      using that wf by (simp add: idx wf_rows_def map_of_key_list)
    then show ?thesis by (simp add: same_seq_def)
  qed
  moreover have "dom (st_byId s) \<subseteq> msg_id ` set (st_messages s)"
    by (simp add: idx dom_map_of_conv_image_fst image_image)
  ultimately show ?thesis
    using wf le by (simp add: merged_rows_def)
qed

lemma merged_rows_insert:
  assumes "merged_rows s n ms" and "same_seq s m" and "msg_seq m \<le> n"
  shows "merged_rows s n (sortedInsert ms m)"
proof -
  have "msg_id ` set ms \<subseteq> msg_id ` set (sortedInsert ms m)"
    by (auto simp: set_sortedInsert)
  with assms(1) have "dom (st_byId s) \<subseteq> msg_id ` set (sortedInsert ms m)"
    unfolding merged_rows_def by (meson order_trans)
  with assms show ?thesis
    by (simp add: merged_rows_def wf_sortedInsert set_sortedInsert)
qed

lemma merged_rows_catchup:
  assumes "timeline_inv s" and "\<forall>m\<in>set rows. same_seq s m \<and> msg_seq m \<le> n" and "st_lastSeq s \<le> n"
  shows "merged_rows s n (mergeCatchupRows s rows)"
  unfolding mergeCatchupRows_def
proof (rule foldl_invariant)
  show "merged_rows s n (st_messages s)"
    using assms(1,3) by (rule merged_rows_start)
next
  fix ms m
  assume "merged_rows s n ms" and "m \<in> set (sort_key msg_seq rows)"
  with assms(2) show "merged_rows s n
      (if st_byId s (msg_id m) \<noteq> None \<or> st_lastSeq s < msg_seq m then sortedInsert ms m else ms)"
    by (simp add: merged_rows_insert)
qed

definition replaced_rows :: "channel_state \<Rightarrow> int \<Rightarrow> replacement_acc \<Rightarrow> bool" where
  "replaced_rows s n acc =
     (case acc of (ms, byId, d, q) \<Rightarrow> merged_rows s n ms \<and> byId = index_of_rows ms)"

lemma replaced_rows_step:
  assumes "replaced_rows s n acc" shows "replaced_rows s n (applyReplacement (st_byId s) acc rep)"
proof -
  obtain ms byId d q where acc: "acc = (ms, byId, d, q)" by (cases acc)
  let ?m = "rep_message rep"
  from assms acc have mr: "merged_rows s n ms" and idx: "byId = index_of_rows ms"
    by (auto simp: replaced_rows_def)
  show ?thesis
  proof (cases "\<exists>e. st_byId s (msg_id ?m) = Some e \<and> msg_seq e = msg_seq ?m")
    case True
    then obtain e where e: "st_byId s (msg_id ?m) = Some e" "msg_seq e = msg_seq ?m" by blast
    with mr have mem: "msg_id ?m \<in> msg_id ` set ms" by (auto simp: merged_rows_def)
    have seq: "msg_seq r = msg_seq ?m" if "r \<in> set ms" "msg_id r = msg_id ?m" for r
      using that e mr by (auto simp: merged_rows_def same_seq_def)
    from mem obtain r where r: "r \<in> set ms" "msg_id r = msg_id ?m" by auto
    with seq mr have le: "msg_seq ?m \<le> n" by (auto simp: merged_rows_def)
    have "wf_rows (replaceRow ms ?m)"
      using mr seq by (intro wf_replaceRow) (auto simp: merged_rows_def)
    moreover have "\<forall>x\<in>set (replaceRow ms ?m). same_seq s x \<and> msg_seq x \<le> n"
      using mr le e by (auto simp: merged_rows_def same_seq_def dest!: set_replaceRow)
    moreover have "msg_id ` set (replaceRow ms ?m) = msg_id ` set ms"
      by (metis map_id_replaceRow set_map)
    ultimately have "merged_rows s n (replaceRow ms ?m)"
      using mr by (simp add: merged_rows_def)
    with e mem idx acc show ?thesis
      by (simp add: replaced_rows_def applyReplacement_def Let_def index_replaceRow)
  next
    case False
    then have "applyReplacement (st_byId s) acc rep = acc"
      by (auto simp: applyReplacement_def acc Let_def split: option.splits)
    with assms show ?thesis by simp
  qed
qed

lemma timeline_catchup:
  assumes inv: "timeline_inv s" and mode: "sn_mode ev = SnapCatchup"
    and ok: "event_ok s (EvSnapshot ev)"
  shows "timeline_inv (applySnapshot s ev)"
proof -
  let ?n = "max (st_lastSeq s) (sn_latestSeq ev)"
  let ?ms = "mergeCatchupRows s (sn_messages ev)"
  let ?reps = "case sn_stateReplacements ev of None \<Rightarrow> [] | Some rs \<Rightarrow> rs"
  obtain ms byId d q where acc: "applySnapshotStateReplacements ?ms (rebuildById ?ms) (st_byId s)
      (inFlightFromRefs (sn_inFlight ev)) (st_quarantined s) ?reps = (ms, byId, d, q)"
    by (metis prod_cases4)
  have mr: "merged_rows s ?n ?ms"
    using inv ok mode by (intro merged_rows_catchup) (auto simp: event_ok_def)
  then have "replaced_rows s ?n (?ms, rebuildById ?ms, inFlightFromRefs (sn_inFlight ev), st_quarantined s)"
    by (simp add: replaced_rows_def merged_rows_def wf_rows_def rebuildById_index)
  then have "replaced_rows s ?n (ms, byId, d, q)"
    unfolding acc [symmetric] applySnapshotStateReplacements_def
    by (rule foldl_invariant) (rule replaced_rows_step)
  then show ?thesis
    using mode acc
    by (simp add: applySnapshot_def timeline_inv_def replaced_rows_def merged_rows_def Let_def)
qed

lemma timeline_snapshot:
  "timeline_inv s \<Longrightarrow> event_ok s (EvSnapshot ev) \<Longrightarrow> timeline_inv (applySnapshot s ev)"
  by (cases "sn_mode ev") (auto intro: timeline_full timeline_catchup)

lemma timeline_step: "timeline_inv s \<Longrightarrow> event_ok s e \<Longrightarrow> timeline_inv (applyChannelEventV1 s e)"
  by (cases e) (auto simp: event_ok_def [of s "EvCompleted m" for m]
    intro: timeline_snapshot timeline_created timeline_delta timeline_updated timeline_completed
      timeline_row_replacement)

interpretation channel: state_machine applyChannelEventV1 event_ok timeline_inv
  by unfold_locales (rule timeline_step)

end
