(* ===== verification/Channel_Timeline.thy ===== *)
theory Channel_Timeline
  imports Channel_Reducer
begin

text \<open>
  Consequences of the reducer's invariant: replay of events, gaps in the sequence, isolation of
  concurrent streams, the text of a stream under loss and reordering of its deltas, the agreement
  of live delivery with catch-up, and history pages.
\<close>

section \<open>Replay\<close>

definition is_delta :: "channel_event \<Rightarrow> bool" where
  "is_delta e = (case e of EvDelta _ _ _ \<Rightarrow> True | _ \<Rightarrow> False)"

definition is_catchup :: "channel_event \<Rightarrow> bool" where
  "is_catchup e = (case e of EvSnapshot ev \<Rightarrow> sn_mode ev = SnapCatchup | _ \<Rightarrow> False)"

lemma replaceRow_twice [simp]: "replaceRow (replaceRow ms m) m = replaceRow ms m"
  by (simp add: replaceRow_def)

lemma rebuildById_mem: "m \<in> set ms \<Longrightarrow> rebuildById ms (msg_id m) \<noteq> None"
  by (induction ms rule: rev_induct) (auto simp: rebuildById_append)

lemma replay_created: "applyCreated (applyCreated s m) m = applyCreated s m"
proof -
  have "rebuildById (sortedInsert (st_messages s) m) (msg_id m) \<noteq> None"
    by (rule rebuildById_mem) (simp add: set_sortedInsert)
  then show ?thesis by (simp add: applyCreated_def Let_def)
qed

lemma replay_updated: "applyUpdated (applyUpdated s m) m = applyUpdated s m"
  by (auto simp: applyUpdated_def split: option.splits)

lemma replay_completed: "applyCompleted (applyCompleted s m) m = applyCompleted s m"
  by (simp add: applyCompleted_def)

lemma replay_row: "applyRowReplacement (applyRowReplacement s m) m = applyRowReplacement s m"
  by (auto simp: applyRowReplacement_def split: option.splits)

lemma replay_full: "sn_mode ev = SnapFull \<Longrightarrow> applySnapshot (applySnapshot s ev) ev = applySnapshot s ev"
  by (auto simp: applySnapshot_def Let_def split: option.splits)

lemmas replay_lanes = replay_created replay_updated replay_completed replay_row replay_full

section \<open>Streams\<close>

text \<open>The row of a stream while it is open, with the index of its next delta.\<close>

definition streaming_at :: "channel_state \<Rightarrow> string \<Rightarrow> string \<Rightarrow> nat \<Rightarrow> bool" where
  "streaming_at s i txt n \<longleftrightarrow>
     timeline_inv s \<and>
     (\<exists>r. st_byId s i = Some r \<and> msg_status r = StStreaming \<and> msg_text r = txt) \<and>
     (case st_inFlightDelta s i of None \<Rightarrow> -1 | Some k \<Rightarrow> k) + 1 = int n"

lemma streaming_at_delta_next:
  assumes "streaming_at s i txt n" and "i \<notin> st_quarantined s"
  shows "streaming_at (applyDelta s i (int n) t) i (txt @ t) (Suc n)
    \<and> i \<notin> st_quarantined (applyDelta s i (int n) t)"
proof -
  from assms(1) obtain r where inv: "timeline_inv s" and r: "st_byId s i = Some r"
    "msg_status r = StStreaming" "msg_text r = txt"
    and n: "(case st_inFlightDelta s i of None \<Rightarrow> -1 | Some k \<Rightarrow> k) + 1 = int n"
    by (auto simp: streaming_at_def)
  have id: "msg_id r = i" using inv r(1) by (rule timeline_byId_id)
  have "timeline_inv (applyDelta s i (int n) t)"
    using inv by (rule timeline_delta)
  with r id n assms(2) show ?thesis
    by (simp add: streaming_at_def applyDelta_def Let_def)
qed

lemma streaming_at_delta_other:
  assumes "streaming_at s i txt n" and "k \<noteq> int n \<or> i \<in> st_quarantined s"
  shows "streaming_at (applyDelta s i k t) i txt n"
proof -
  from assms(1) obtain r where inv: "timeline_inv s" and r: "st_byId s i = Some r"
    "msg_status r = StStreaming" "msg_text r = txt"
    and n: "(case st_inFlightDelta s i of None \<Rightarrow> -1 | Some k \<Rightarrow> k) + 1 = int n"
    by (auto simp: streaming_at_def)
  have "timeline_inv (applyDelta s i k t)"
    using inv by (rule timeline_delta)
  with r n assms(2) show ?thesis
    by (auto simp: streaming_at_def applyDelta_def Let_def)
qed

text \<open>The deltas a client receives of a stream whose deltas are \<open>ts\<close>: a list of indices, in any
  order, with losses and repetitions.\<close>

definition received :: "string \<Rightarrow> string list \<Rightarrow> nat list \<Rightarrow> channel_event list" where
  "received i ts ks = map (\<lambda>k. EvDelta i (int k) (ts ! k)) ks"

lemma stream_prefix:
  assumes "streaming_at s i (t0 @ concat (take n ts)) n" and "n \<le> length ts"
    and "\<And>k. k \<in> set ks \<Longrightarrow> k < length ts"
  shows "\<exists>n'. n \<le> n' \<and> n' \<le> length ts \<and>
    streaming_at (run applyChannelEventV1 s (received i ts ks)) i (t0 @ concat (take n' ts)) n'"
  using assms
proof (induction ks arbitrary: s n)
  case Nil
  then show ?case by (auto simp: received_def)
next
  case (Cons k ks)
  let ?s = "applyDelta s i (int k) (ts ! k)"
  have step: "run applyChannelEventV1 s (received i ts (k # ks)) = run applyChannelEventV1 ?s (received i ts ks)"
    by (simp add: received_def)
  show ?case
  proof (cases "k = n \<and> i \<notin> st_quarantined s")
    case True
    with Cons.prems have lt: "n < length ts" by simp
    then have "concat (take (Suc n) ts) = concat (take n ts) @ ts ! n"
      by (simp add: take_Suc_conv_app_nth)
    with True streaming_at_delta_next [OF Cons.prems(1)]
    have "streaming_at ?s i (t0 @ concat (take (Suc n) ts)) (Suc n)" by simp
    from Cons.IH [OF this] lt Cons.prems(3) obtain n' where "Suc n \<le> n'" "n' \<le> length ts"
      "streaming_at (run applyChannelEventV1 ?s (received i ts ks)) i (t0 @ concat (take n' ts)) n'"
      by auto
    then show ?thesis using step by (intro exI [of _ n']) simp
  next
    case False
    then have "streaming_at ?s i (t0 @ concat (take n ts)) n"
      using Cons.prems(1) by (intro streaming_at_delta_other) auto
    from Cons.IH [OF this Cons.prems(2)] Cons.prems(3) step show ?thesis by simp
  qed
qed

lemma stream_in_order:
  assumes "streaming_at s i (t0 @ concat (take n ts)) n" and "i \<notin> st_quarantined s"
    and "n \<le> length ts"
  shows "streaming_at (run applyChannelEventV1 s (received i ts [n..<length ts])) i
    (t0 @ concat ts) (length ts)"
  using assms
proof (induction "length ts - n" arbitrary: s n)
  case 0
  then show ?case by (simp add: received_def)
next
  case (Suc x)
  then have lt: "n < length ts" and x: "x = length ts - Suc n" by simp_all
  have "concat (take (Suc n) ts) = concat (take n ts) @ ts ! n"
    using lt by (simp add: take_Suc_conv_app_nth)
  with streaming_at_delta_next [OF Suc.prems(1,2)]
  have "streaming_at (applyDelta s i (int n) (ts ! n)) i (t0 @ concat (take (Suc n) ts)) (Suc n)"
    "i \<notin> st_quarantined (applyDelta s i (int n) (ts ! n))" by simp_all
  from Suc.hyps(1) [OF x this] lt show ?case
    by (simp add: received_def upt_conv_Cons)
qed

section \<open>Isolation\<close>

text \<open>The message id an event of a single row is about.\<close>

fun row_target :: "channel_event \<Rightarrow> string option" where
  "row_target (EvCreated m) = Some (msg_id m)"
| "row_target (EvDelta i _ _) = Some i"
| "row_target (EvUpdated m) = Some (msg_id m)"
| "row_target (EvCompleted m) = Some (msg_id m)"
| "row_target (EvEdited m) = Some (msg_id m)"
| "row_target (EvDeleted m) = Some (msg_id m)"
| "row_target _ = None"

text \<open>Everything the state keeps about one message.\<close>

definition row_view :: "channel_state \<Rightarrow> string \<Rightarrow> channel_message option \<times> int option \<times> bool" where
  "row_view s j = (st_byId s j, st_inFlightDelta s j, j \<in> st_quarantined s)"

lemma index_sortedInsert:
  assumes "wf_rows ms" and "j \<noteq> msg_id m"
  shows "index_of_rows (sortedInsert ms m) j = index_of_rows ms j"
proof -
  have wf: "wf_rows (sortedInsert ms m)" using assms(1) by (rule wf_sortedInsert)
  have "index_of_rows (sortedInsert ms m) j = Some r \<longleftrightarrow> index_of_rows ms j = Some r" for r
    using assms wf by (auto simp: wf_rows_def map_of_key_list set_sortedInsert)
  then show ?thesis
    by (cases "index_of_rows ms j") (metis not_Some_eq)+
qed

lemma isolated_created:
  "timeline_inv s \<Longrightarrow> j \<noteq> msg_id m \<Longrightarrow> row_view (applyCreated s m) j = row_view s j"
  using index_sortedInsert [of "st_messages s" j m] wf_sortedInsert [of "st_messages s" m]
  by (auto simp: row_view_def applyCreated_def Let_def timeline_inv_def wf_rows_def rebuildById_index)

lemma isolated_delta:
  "timeline_inv s \<Longrightarrow> j \<noteq> i \<Longrightarrow> row_view (applyDelta s i n t) j = row_view s j"
  by (auto simp: row_view_def applyDelta_def Let_def split: option.splits dest: timeline_byId_id)

lemma isolated_rows:
  "j \<noteq> msg_id m \<Longrightarrow> row_view (applyUpdated s m) j = row_view s j"
  "j \<noteq> msg_id m \<Longrightarrow> row_view (applyCompleted s m) j = row_view s j"
  "j \<noteq> msg_id m \<Longrightarrow> row_view (applyRowReplacement s m) j = row_view s j"
  by (auto simp: row_view_def applyUpdated_def applyCompleted_def applyRowReplacement_def
    split: option.splits)

lemma isolation:
  "timeline_inv s \<Longrightarrow> row_target e = Some i \<Longrightarrow> j \<noteq> i \<Longrightarrow>
    row_view (applyChannelEventV1 s e) j = row_view s j"
  by (cases e) (auto simp: isolated_created isolated_delta isolated_rows)

section \<open>Gaps\<close>

definition gapless :: "int \<Rightarrow> channel_state \<Rightarrow> bool" where
  "gapless lo s \<longleftrightarrow> lo \<le> st_lastSeq s \<and> msg_seq ` set (st_messages s) = {lo<..st_lastSeq s}"

lemma seq_image_replaceRow:
  assumes "timeline_inv s" and "same_seq s m"
  shows "msg_seq ` set (replaceRow (st_messages s) m) = msg_seq ` set (st_messages s)"
proof -
  have "msg_seq r = msg_seq m" if "r \<in> set (st_messages s)" "msg_id r = msg_id m" for r
  proof -
    have "st_byId s (msg_id m) = Some r"
      using that assms(1) by (simp add: timeline_inv_def wf_rows_def map_of_key_list)
    with assms(2) show ?thesis by (simp add: same_seq_def)
  qed
  then have "map msg_seq (replaceRow (st_messages s) m) = map msg_seq (st_messages s)"
    by (rule map_seq_replaceRow)
  then show ?thesis by (metis set_map)
qed

lemma gapless_replace:
  assumes "timeline_inv s" and "same_seq s m" and "gapless lo s"
    and "st_messages s' = replaceRow (st_messages s) m" and "st_lastSeq s' = st_lastSeq s"
  shows "gapless lo s'"
  using assms seq_image_replaceRow [OF assms(1,2)] by (simp add: gapless_def)

lemma gapless_created:
  assumes inv: "timeline_inv s" and g: "gapless lo s" shows "gapless lo (applyCreated s m)"
proof (cases "st_byId s (msg_id m) = None \<and> msg_seq m = st_lastSeq s + 1")
  case True
  let ?ms = "st_messages s"
  from True inv have "msg_id m \<notin> msg_id ` set ?ms"
    by (simp add: timeline_inv_def map_of_key_list_None del: map_of_eq_None_iff)
  then have "msg_id e \<noteq> msg_id m" if "e \<in> set ?ms" for e
    using that by (metis imageI)
  then have "{e \<in> set ?ms. msg_id e \<noteq> msg_id m} = set ?ms" by auto
  then have "msg_seq ` set (sortedInsert ?ms m) = insert (msg_seq m) (msg_seq ` set ?ms)"
    by (simp add: set_sortedInsert)
  moreover have "lo \<le> st_lastSeq s" "msg_seq ` set ?ms = {lo<..st_lastSeq s}"
    using g by (auto simp: gapless_def)
  moreover have "insert (b + 1) {lo<..b} = {lo<..b + 1}" if "lo \<le> b" for lo b :: int
    using that by auto
  ultimately show ?thesis
    using True by (auto simp: gapless_def applyCreated_def Let_def)
next
  case False
  with g show ?thesis by (auto simp: applyCreated_def gapless_def)
qed

lemma gapless_delta:
  assumes inv: "timeline_inv s" and g: "gapless lo s" shows "gapless lo (applyDelta s i n t)"
proof (cases "st_byId s i")
  case (Some r)
  let ?u = "r\<lparr>msg_body := (msg_body r)\<lparr>body_text := body_text (msg_body r) @ t\<rparr>\<rparr>"
  have "same_seq s ?u"
    using Some timeline_byId_id [OF inv Some] by (simp add: same_seq_def)
  then have "gapless lo (s\<lparr>st_messages := replaceRow (st_messages s) ?u, st_byId := b, st_inFlightDelta := d\<rparr>)" for b d
    using inv g by (elim gapless_replace [rotated]) simp_all
  with Some g show ?thesis
    by (simp add: applyDelta_def Let_def gapless_def)
qed (use g in \<open>simp add: applyDelta_def gapless_def\<close>)

lemma gapless_rows:
  assumes inv: "timeline_inv s" and g: "gapless lo s"
  shows "gapless lo (applyUpdated s m)" and "gapless lo (applyRowReplacement s m)"
    and "same_seq s m \<Longrightarrow> gapless lo (applyCompleted s m)"
proof -
  have rep: "same_seq s m \<Longrightarrow> gapless lo (s\<lparr>st_messages := replaceRow (st_messages s) m, st_byId := b\<rparr>)" for b
    using inv g gapless_replace [of s m] by simp
  have flag: "gapless lo (s\<lparr>st_needsCatchup := True\<rparr>)"
    using g by (simp add: gapless_def)
  show "gapless lo (applyUpdated s m)" and "gapless lo (applyRowReplacement s m)"
    using g flag rep
    by (auto simp: applyUpdated_def applyRowReplacement_def same_seq_def split: option.splits)
  show "same_seq s m \<Longrightarrow> gapless lo (applyCompleted s m)"
    using flag rep by (auto simp: applyCompleted_def gapless_def)
qed

lemma gapless_step:
  assumes "timeline_inv s" and "gapless lo s" and "event_ok s e" and "\<And>ev. e \<noteq> EvSnapshot ev"
  shows "gapless lo (applyChannelEventV1 s e)"
proof (cases e)
  case (EvCompleted m)
  with assms show ?thesis by (simp add: event_ok_def gapless_rows)
qed (use assms in \<open>auto simp: gapless_created gapless_delta gapless_rows\<close>,
  simp_all add: gapless_def)

section \<open>Live delivery and catch-up\<close>

text \<open>The rows that follow the cursor without a gap, none of them known yet.\<close>

definition next_rows :: "channel_state \<Rightarrow> channel_message list \<Rightarrow> bool" where
  "next_rows s ms \<longleftrightarrow>
     map msg_seq ms = map (\<lambda>k. st_lastSeq s + 1 + int k) [0..<length ms] \<and>
     distinct (map msg_id ms) \<and> (\<forall>m\<in>set ms. st_byId s (msg_id m) = None)"

lemma next_rows_Cons:
  assumes "timeline_inv s" and "next_rows s (m # ms)"
  shows "st_byId s (msg_id m) = None" and "msg_seq m = st_lastSeq s + 1"
    and "next_rows (applyCreated s m) ms"
proof -
  from assms(2) have seqs: "map msg_seq (m # ms) = map (\<lambda>k. st_lastSeq s + 1 + int k) [0..<Suc (length ms)]"
    and ids: "distinct (map msg_id (m # ms))" "\<forall>x\<in>set (m # ms). st_byId s (msg_id x) = None"
    by (auto simp: next_rows_def)
  from seqs have m: "msg_seq m = st_lastSeq s + 1"
    and rest: "map msg_seq ms = map (\<lambda>k. st_lastSeq s + 1 + 1 + int k) [0..<length ms]"
    by (simp_all add: upt_conv_Cons map_Suc_upt [symmetric] comp_def algebra_simps del: upt_Suc)
  show n: "st_byId s (msg_id m) = None" and m': "msg_seq m = st_lastSeq s + 1"
    using ids m by auto
  have "row_view (applyCreated s m) (msg_id x) = row_view s (msg_id x)" if "x \<in> set ms" for x
  proof (rule isolated_created [OF assms(1)])
    show "msg_id x \<noteq> msg_id m"
      using that ids(1) by (metis distinct.simps(2) imageI list.simps(9) set_map)
  qed
  then have "\<forall>x\<in>set ms. st_byId (applyCreated s m) (msg_id x) = None"
    using ids(2) by (simp add: row_view_def)
  moreover have "st_lastSeq (applyCreated s m) = st_lastSeq s + 1"
    using n m by (simp add: applyCreated_def Let_def)
  ultimately show "next_rows (applyCreated s m) ms"
    using rest ids(1) by (simp add: next_rows_def)
qed

lemma run_created:
  assumes "timeline_inv s" and "next_rows s ms"
  shows "st_messages (run applyCreated s ms) = foldl sortedInsert (st_messages s) ms
    \<and> st_lastSeq (run applyCreated s ms) = st_lastSeq s + int (length ms)
    \<and> timeline_inv (run applyCreated s ms)"
  using assms
proof (induction ms arbitrary: s)
  case (Cons m ms)
  note next' = next_rows_Cons [OF Cons.prems]
  have "st_messages (applyCreated s m) = sortedInsert (st_messages s) m"
    "st_lastSeq (applyCreated s m) = st_lastSeq s + 1"
    using next'(1,2) by (simp_all add: applyCreated_def Let_def)
  moreover note Cons.IH [OF timeline_created [OF Cons.prems(1)] next'(3)]
  ultimately show ?case by simp
qed simp

lemma next_rows_seq:
  assumes "next_rows s ms"
  shows "inj_on msg_seq (set ms)" and "sorted (map msg_seq ms)"
    and "m \<in> set ms \<Longrightarrow> st_lastSeq s < msg_seq m"
proof -
  from assms have eq: "map msg_seq ms = map (\<lambda>k. st_lastSeq s + 1 + int k) [0..<length ms]"
    by (simp add: next_rows_def)
  have d: "distinct (map msg_seq ms)" unfolding eq by (simp add: distinct_map inj_on_def)
  then show "inj_on msg_seq (set ms)" by (simp add: distinct_map)
  show "sorted (map msg_seq ms)" unfolding eq by (simp add: sorted_iff_nth_mono)
  assume "m \<in> set ms"
  then have "msg_seq m \<in> set (map msg_seq ms)" by simp
  then show "st_lastSeq s < msg_seq m" unfolding eq by auto
qed

lemma merge_next_rows:
  assumes "next_rows s ms" and "mset rows = mset ms"
  shows "mergeCatchupRows s rows = foldl sortedInsert (st_messages s) ms"
proof -
  have set_eq: "set rows = set ms" using assms(2) by (rule mset_eq_setD)
  then have sort: "sort_key msg_seq rows = ms"
    using next_rows_seq [OF assms(1)] assms(2) by (intro sort_key_inj_key_eq) auto
  have "foldl (\<lambda>acc m. if st_byId s (msg_id m) \<noteq> None \<or> st_lastSeq s < msg_seq m
      then sortedInsert acc m else acc) acc xs = foldl sortedInsert acc xs"
    if "set xs \<subseteq> set ms" for acc xs
    using that by (induction xs arbitrary: acc) (auto simp: next_rows_seq [OF assms(1)])
  with sort show ?thesis by (simp add: mergeCatchupRows_def)
qed

section \<open>History pages\<close>

lemma set_insert_page:
  "distinct (map msg_id page) \<Longrightarrow>
    set (foldl sortedInsert ms page) = set page \<union> {e \<in> set ms. msg_id e \<notin> msg_id ` set page}"
  by (induction page arbitrary: ms) (auto simp: set_sortedInsert)

lemma wf_insert_page: "wf_rows ms \<Longrightarrow> wf_rows (foldl sortedInsert ms page)"
  by (rule foldl_invariant) (auto intro: wf_sortedInsert)

lemma distinct_ids_sort [simp]:
  "distinct (map msg_id (sort_key msg_seq page)) = distinct (map msg_id page)"
  by (rule mset_eq_imp_distinct_iff) simp

lemma history_rows:
  assumes "distinct (map msg_id page)"
  shows "set (st_messages (mergeHistoryPage s page)) =
    set page \<union> {e \<in> set (st_messages s). msg_id e \<notin> msg_id ` set page}"
  using set_insert_page [of "sort_key msg_seq page" "st_messages s"] assms
  by (auto simp: mergeHistoryPage_def Let_def)

lemma sorted_last_max: "sorted (map f xs) \<Longrightarrow> x \<in> set xs \<Longrightarrow> f x \<le> (f (last xs) :: int)"
  by (induction xs) auto

lemma history_inv: "timeline_inv s \<Longrightarrow> timeline_inv (mergeHistoryPage s page)"
proof (cases "page = []")
  case False
  assume inv: "timeline_inv s"
  let ?ms = "foldl sortedInsert (st_messages s) (sort_key msg_seq page)"
  have wf: "wf_rows ?ms"
    using inv by (intro wf_insert_page) (simp add: timeline_inv_def)
  then have "msg_seq x \<le> msg_seq (last ?ms)" if "x \<in> set ?ms" for x
    using that by (intro sorted_last_max) (auto simp: wf_rows_def)
  then have "timeline_inv (s\<lparr>st_messages := ?ms, st_byId := rebuildById ?ms,
      st_lastSeq := max (st_lastSeq s) (if ?ms \<noteq> [] then msg_seq (last ?ms) else st_lastSeq s)\<rparr>)"
    using wf by (intro timeline_rows) (force simp: max_def)+
  with False show ?thesis by (simp add: mergeHistoryPage_def Let_def)
qed (simp add: mergeHistoryPage_def)

text \<open>Rows with pairwise distinct sequence numbers are determined by their set, so the timeline
  does not depend on the order in which pages arrive.\<close>

lemma rows_determined:
  assumes "wf_rows xs" and "wf_rows ys" and "set xs = set ys" and "inj_on msg_seq (set xs)"
  shows "xs = ys"
proof -
  have "distinct xs" "distinct ys"
    using assms(1,2) by (auto simp: wf_rows_def distinct_map)
  then have "mset xs = mset ys" using assms(3) by (simp add: set_eq_iff_mset_eq_distinct)
  then have "sort_key msg_seq xs = ys"
    using assms by (intro sort_key_inj_key_eq) (auto simp: wf_rows_def)
  moreover have "sort_key msg_seq xs = xs"
    using assms(1) by (simp add: wf_rows_def sorted_sort_id sort_key_inj_key_eq assms(4))
  ultimately show ?thesis by simp
qed

section \<open>Properties\<close>

text \<open>A row for the concrete runs below.\<close>

definition sample_row :: "string \<Rightarrow> int \<Rightarrow> message_status \<Rightarrow> string \<Rightarrow> channel_message" where
  "sample_row i n st txt =
     \<lparr>msg_id = i, msg_channelId = ''c'', msg_seq = n, msg_kind = MkMessage, msg_status = st,
      msg_sender = \<lparr>sr_kind = SkAgent, sr_id = ''agent-profile:claude:default'', sr_displayName = None,
        sr_providerId = None, sr_runtimeId = None\<rparr>,
      msg_body = \<lparr>body_text = txt, body_format = FmtText\<rparr>, msg_parts = None, msg_threadId = None,
      msg_parentMessageId = None, msg_replyCount = None, msg_mentions = None, msg_source = None,
      msg_agentDetail = None, msg_agentAttribution = None, msg_asyncRun = None, msg_meta = None,
      msg_truncated = None, msg_clientMessageId = None, msg_createdAt = ''t'', msg_updatedAt = ''t'',
      msg_completedAt = None\<rparr>"

lemma sample_row_fields [simp]:
  "msg_id (sample_row i n st txt) = i" "msg_seq (sample_row i n st txt) = n"
  "msg_status (sample_row i n st txt) = st" "msg_text (sample_row i n st txt) = txt"
  by (simp_all add: sample_row_def)

definition sample_snapshot :: "snapshot_mode \<Rightarrow> channel_message list \<Rightarrow> int \<Rightarrow> snapshot_event" where
  "sample_snapshot mode ms n =
     \<lparr>sn_mode = mode, sn_messages = ms, sn_stateReplacements = None, sn_runs = None,
      sn_members = [], sn_latestSeq = n, sn_inFlight = [], sn_truncated = False\<rparr>"

lemmas reducer_evals = initialChannelReducerState_def applyCreated_def applyDelta_def applyCompleted_def
  sortedInsert_def rebuildById_def replaceRow_def Let_def



text \<open>The completion lane alone takes the sequence number of a known row on trust: a completion
  with another sequence number is applied and leaves the rows out of order, where the update, edit
  and delete lanes ask for a re-sync.\<close>

theorem completed_seq_is_not_checked:
  "\<exists>s m. timeline_inv s \<and> \<not> sorted (map msg_seq (st_messages (applyChannelEventV1 s (EvCompleted m))))
     \<and> \<not> st_needsCatchup (applyChannelEventV1 s (EvCompleted m))"
proof -
  let ?s = "run applyChannelEventV1 (initialChannelReducerState ''c'')
    [EvCreated (sample_row ''a'' 1 StStreaming []), EvCreated (sample_row ''b'' 2 StComplete [])]"
  have "timeline_inv ?s"
    by (rule channel.run_inv [OF timeline_inv_initial]) (simp add: event_ok_def)
  moreover have "st_messages (applyChannelEventV1 ?s (EvCompleted (sample_row ''a'' 7 StComplete []))) =
      [sample_row ''a'' 7 StComplete [], sample_row ''b'' 2 StComplete []]"
    "\<not> st_needsCatchup (applyChannelEventV1 ?s (EvCompleted (sample_row ''a'' 7 StComplete [])))"
    by (simp_all add: reducer_evals)
  ultimately show ?thesis
    by (intro exI [of _ ?s] exI [of _ "sample_row ''a'' 7 StComplete []"]) simp
qed

text \<open>Replaying an event is idempotent: applying any event other than a stream delta or a
  catch-up snapshot a second time changes nothing.\<close>

theorem replay_idempotent:
  assumes "\<not> is_delta e" and "\<not> is_catchup e"
  shows "applyChannelEventV1 (applyChannelEventV1 s e) e = applyChannelEventV1 s e"
proof (cases e)
  case (EvSnapshot ev)
  with assms(2) have "sn_mode ev = SnapFull"
    by (cases "sn_mode ev") (auto simp: is_catchup_def)
  with EvSnapshot show ?thesis by (simp add: replay_full)
qed (use assms in \<open>simp_all add: is_delta_def replay_lanes\<close>)

theorem replay_idempotent_witness:
  "let e = EvCreated (sample_row ''a'' 1 StStreaming []); s = initialChannelReducerState ''c''
   in applyChannelEventV1 (applyChannelEventV1 s e) e = applyChannelEventV1 s e"
  unfolding Let_def by (rule replay_idempotent) (simp_all add: is_delta_def is_catchup_def)

text \<open>C2: However the deltas of an open stream are lost, repeated or reordered on the way, the text
  shown is the opening text followed by the first deltas in order: a later delta never lands on top
  of a missing one and none is applied twice.\<close>

theorem stream_text_is_prefix:
  assumes "timeline_inv s" and "st_byId s i = Some r" and "msg_status r = StStreaming"
    and "st_inFlightDelta s i = None" and "\<forall>k\<in>set ks. k < length ts"
  shows "\<exists>n r'. n \<le> length ts \<and> st_byId (run applyChannelEventV1 s (received i ts ks)) i = Some r' \<and>
    msg_text r' = msg_text r @ concat (take n ts)"
proof -
  have "streaming_at s i (msg_text r @ concat (take 0 ts)) 0"
    using assms(1-4) by (simp add: streaming_at_def)
  from stream_prefix [OF this] assms(5) obtain n where "n \<le> length ts"
    "streaming_at (run applyChannelEventV1 s (received i ts ks)) i (msg_text r @ concat (take n ts)) n"
    by auto
  then show ?thesis by (auto simp: streaming_at_def)
qed

theorem stream_text_is_prefix_witness:
  "let s = applyChannelEventV1 (initialChannelReducerState ''c'') (EvCreated (sample_row ''a'' 1 StStreaming ''h''))
   in \<exists>n r'. n \<le> length [''x'', ''y'', ''z''] \<and>
        st_byId (run applyChannelEventV1 s (received ''a'' [''x'', ''y'', ''z''] [0, 2, 1])) ''a'' = Some r' \<and>
        msg_text r' = ''h'' @ concat (take n [''x'', ''y'', ''z''])"
proof -
  let ?s = "applyChannelEventV1 (initialChannelReducerState ''c'') (EvCreated (sample_row ''a'' 1 StStreaming ''h''))"
  have inv: "timeline_inv ?s" by (simp add: timeline_created timeline_inv_initial)
  have "st_byId ?s ''a'' = Some (sample_row ''a'' 1 StStreaming ''h'')" "st_inFlightDelta ?s ''a'' = None"
    by (simp_all add: reducer_evals)
  from stream_text_is_prefix [OF inv this(1) _ this(2), of "[0, 2, 1]" "[''x'', ''y'', ''z'']"]
  show ?thesis by (simp add: Let_def)
qed

text \<open>When every delta of a stream arrives in order, the text shown is the whole text, and the
  completion that follows replaces the row by the authoritative one and forgets the delta cursor
  and the quarantine of the stream.\<close>

theorem stream_completes:
  assumes "timeline_inv s" and "st_byId s i = Some r" and "msg_status r = StStreaming"
    and "st_inFlightDelta s i = None" and "i \<notin> st_quarantined s" and "msg_id m = i"
    and "s' = run applyChannelEventV1 s (received i ts [0..<length ts])"
    and "s'' = applyChannelEventV1 s' (EvCompleted m)"
  shows "(\<exists>r'. st_byId s' i = Some r' \<and> msg_text r' = msg_text r @ concat ts) \<and>
    st_byId s'' i = Some m \<and> st_inFlightDelta s'' i = None \<and> i \<notin> st_quarantined s''"
proof -
  have "streaming_at s i (msg_text r @ concat (take 0 ts)) 0"
    using assms(1-4) by (simp add: streaming_at_def)
  from stream_in_order [OF this assms(5)] assms(7)
  have "streaming_at s' i (msg_text r @ concat ts) (length ts)" by simp
  then obtain r' where "st_byId s' i = Some r'" "msg_text r' = msg_text r @ concat ts"
    by (auto simp: streaming_at_def)
  then show ?thesis
    using assms(6,8) by (auto simp: applyCompleted_def)
qed

theorem stream_completes_witness:
  "let s = applyChannelEventV1 (initialChannelReducerState ''c'') (EvCreated (sample_row ''a'' 1 StStreaming ''h''));
       s' = run applyChannelEventV1 s (received ''a'' [''x'', ''y''] [0..<2])
   in \<exists>r'. st_byId s' ''a'' = Some r' \<and> msg_text r' = ''hxy''"
proof -
  let ?s = "applyChannelEventV1 (initialChannelReducerState ''c'') (EvCreated (sample_row ''a'' 1 StStreaming ''h''))"
  have inv: "timeline_inv ?s" by (simp add: timeline_created timeline_inv_initial)
  have "st_byId ?s ''a'' = Some (sample_row ''a'' 1 StStreaming ''h'')" "st_inFlightDelta ?s ''a'' = None"
    "''a'' \<notin> st_quarantined ?s"
    by (simp_all add: reducer_evals)
  from stream_completes [OF inv this(1) _ this(2,3) _ refl refl, of "sample_row ''a'' 1 StComplete ''hxy''" "[''x'', ''y'']"]
  show ?thesis by (simp add: Let_def numeral_2_eq_2)
qed

text \<open>Two streams never disturb each other: an event for one message leaves the row, the delta
  cursor and the quarantine of every other message as they were.\<close>

theorem streams_are_isolated:
  assumes "timeline_inv s" and "row_target e = Some i" and "j \<noteq> i"
  shows "st_byId (applyChannelEventV1 s e) j = st_byId s j \<and>
    st_inFlightDelta (applyChannelEventV1 s e) j = st_inFlightDelta s j \<and>
    (j \<in> st_quarantined (applyChannelEventV1 s e)) = (j \<in> st_quarantined s)"
  using isolation [OF assms] by (simp add: row_view_def)

theorem streams_are_isolated_witness:
  "st_byId (applyChannelEventV1 (initialChannelReducerState ''c'') (EvCreated (sample_row ''a'' 1 StStreaming []))) ''b'' = None"
  using streams_are_isolated [OF timeline_inv_initial, of "EvCreated (sample_row ''a'' 1 StStreaming [])" "''a''" "''b''" "''c''"]
  by (simp add: initialChannelReducerState_def)



text \<open>C26: Catching up gives what live delivery would have given: for rows that continue the log after
  the cursor, a catch-up snapshot listing them in any order yields the same rows, index and cursor
  as their creation events one by one.\<close>

theorem catchup_agrees_with_live:
  assumes "timeline_inv s" and "next_rows s ms" and "mset (sn_messages ev) = mset ms"
    and "sn_mode ev = SnapCatchup" and "sn_stateReplacements ev = None"
    and "sn_latestSeq ev = st_lastSeq s + int (length ms)"
  shows "st_messages (applyChannelEventV1 s (EvSnapshot ev)) = st_messages (run applyChannelEventV1 s (map EvCreated ms))
    \<and> st_byId (applyChannelEventV1 s (EvSnapshot ev)) = st_byId (run applyChannelEventV1 s (map EvCreated ms))
    \<and> st_lastSeq (applyChannelEventV1 s (EvSnapshot ev)) = st_lastSeq (run applyChannelEventV1 s (map EvCreated ms))"
proof -
  have live: "run applyChannelEventV1 s (map EvCreated ms) = run applyCreated s ms" for s
    by (induction ms arbitrary: s) simp_all
  note created = run_created [OF assms(1,2)]
  have rows: "mergeCatchupRows s (sn_messages ev) = foldl sortedInsert (st_messages s) ms"
    using assms(2,3) by (rule merge_next_rows)
  moreover have "rebuildById (foldl sortedInsert (st_messages s) ms) = index_of_rows (foldl sortedInsert (st_messages s) ms)"
    using created by (intro rebuildById_index) (metis timeline_inv_def wf_rows_def)
  ultimately have "st_byId (run applyCreated s ms) = rebuildById (mergeCatchupRows s (sn_messages ev))"
    using created by (simp add: timeline_inv_def)
  then show ?thesis
    using created rows assms(4-6)
    by (simp add: live applySnapshot_def Let_def applySnapshotStateReplacements_def)
qed

theorem catchup_agrees_with_live_witness:
  "let s = initialChannelReducerState ''c'';
       ms = [sample_row ''a'' 1 StComplete [], sample_row ''b'' 2 StComplete []]
   in st_messages (applyChannelEventV1 s (EvSnapshot (sample_snapshot SnapCatchup (rev ms) 2)))
      = st_messages (run applyChannelEventV1 s (map EvCreated ms))"
proof -
  let ?s = "initialChannelReducerState ''c''"
  let ?ms = "[sample_row ''a'' 1 StComplete [], sample_row ''b'' 2 StComplete []]"
  have "next_rows ?s ?ms"
    by (simp add: next_rows_def initialChannelReducerState_def upt_conv_Cons)
  then show ?thesis
    using catchup_agrees_with_live [OF timeline_inv_initial, of "''c''" ?ms "sample_snapshot SnapCatchup (rev ?ms) 2"]
    by (simp add: sample_snapshot_def initialChannelReducerState_def)
qed

text \<open>History pages can arrive in any order: merging two pages of different rows gives the same
  timeline whichever is merged first, and merging a page again changes no row.\<close>

theorem history_pages_commute:
  assumes "timeline_inv s" and "distinct (map msg_id p)" and "distinct (map msg_id q)"
    and "msg_id ` set p \<inter> msg_id ` set q = {}"
    and "inj_on msg_seq (set (st_messages s) \<union> set p \<union> set q)"
  shows "st_messages (mergeHistoryPage (mergeHistoryPage s p) q) = st_messages (mergeHistoryPage (mergeHistoryPage s q) p)
    \<and> st_messages (mergeHistoryPage (mergeHistoryPage s p) p) = st_messages (mergeHistoryPage s p)"
proof -
  have wf: "wf_rows (st_messages (mergeHistoryPage t r))" if "timeline_inv t" for t r
    using history_inv [OF that] by (simp add: timeline_inv_def)
  note inv = history_inv [OF assms(1)]
  let ?pq = "st_messages (mergeHistoryPage (mergeHistoryPage s p) q)"
  let ?qp = "st_messages (mergeHistoryPage (mergeHistoryPage s q) p)"
  let ?pp = "st_messages (mergeHistoryPage (mergeHistoryPage s p) p)"
  let ?p = "st_messages (mergeHistoryPage s p)"
  have "set ?pq = set ?qp" and sub: "set ?pq \<subseteq> set (st_messages s) \<union> set p \<union> set q"
    using assms(2-4) by (auto simp: history_rows)
  then have "?pq = ?qp"
    using inv assms(5) by (intro rows_determined wf) (auto intro: inj_on_subset)
  moreover have "set ?pp = set ?p" and "set ?pp \<subseteq> set (st_messages s) \<union> set p \<union> set q"
    using assms(2) by (auto simp: history_rows)
  then have "?pp = ?p"
    using inv assms(1,5) by (intro rows_determined wf) (auto intro: inj_on_subset)
  ultimately show ?thesis by simp
qed

theorem history_pages_commute_witness:
  "let s = initialChannelReducerState ''c''; p = [sample_row ''a'' 1 StComplete []]; q = [sample_row ''b'' 2 StComplete []]
   in st_messages (mergeHistoryPage (mergeHistoryPage s p) q) = st_messages (mergeHistoryPage (mergeHistoryPage s q) p)"
proof -
  let ?p = "[sample_row ''a'' 1 StComplete []]" and ?q = "[sample_row ''b'' 2 StComplete []]"
  have "inj_on msg_seq (set (st_messages (initialChannelReducerState ''c'')) \<union> set ?p \<union> set ?q)"
    by (auto simp: initialChannelReducerState_def inj_on_def)
  with history_pages_commute [OF timeline_inv_initial, of ?p ?q "''c''"] show ?thesis
    by (simp add: Let_def)
qed

end
