(* ===== verification/Channel_Wire.thy ===== *)
theory Channel_Wire
  imports Channel_Timeline
begin

text \<open>
  The runtime validators of the channel protocol (\<open>shared/channel-chat-protocol.ts\<close>), over values
  of type unknown: message parts, senders, detail cards, members, messages, runs, receipts and
  events, and the splitting of a search snippet. \<open>message_of_json\<close> is the cast
  \<open>value is ChannelMessage\<close> a successful validation licenses: it reads every field of the interface.
\<close>

section \<open>Delivery receipts\<close>

definition receipt_states :: "string list" where
  "receipt_states = [''queued'', ''delivered_to_runtime'', ''turn_started'', ''completed'', ''held_busy'',
     ''dropped_queue_full'', ''refused_policy'', ''refused_provider'', ''unreachable_offline'',
     ''expired_watchdog'', ''failed_runtime'', ''superseded'']"

definition receipt_allowed_keys :: "string list" where
  "receipt_allowed_keys = [''messageId'', ''channelId'', ''targetBindingId'', ''senderProfileId'',
     ''targetProfileId'', ''state'', ''reasonCode'', ''ts'']"

definition receipt_reason_codes :: "string list" where
  "receipt_reason_codes = [''queue_cap'', ''steering_queue_cap'', ''superseded_by_newer'',
     ''runtime_unavailable'', ''binding_failed'', ''watchdog_force_drain'', ''turn_ceiling'',
     ''send_rejected'', ''send_error'', ''runtime_ended'', ''agent_busy'', ''profile_missing'',
     ''provider_unavailable'', ''mention_chain_paused'', ''provider_quota_exhausted'',
     ''provider_auth_required'', ''provider_binary_missing'', ''provider_unknown_failure'']"

definition nonempty_str :: "json \<Rightarrow> bool" where
  "nonempty_str v = str_sat (\<lambda>s. length s > 0) v"

definition isChannelDeliveryReceipt :: "json \<Rightarrow> bool" where
  "isChannelDeliveryReceipt v =
     (if \<not> is_record v then False
      else if \<not> nonempty_str (fld v ''messageId'') then False
      else if \<not> nonempty_str (fld v ''channelId'') then False
      else if \<not> nonempty_str (fld v ''targetBindingId'') then False
      else if fld v ''senderProfileId'' \<noteq> JNull \<and> \<not> is_str (fld v ''senderProfileId'') then False
      else if \<not> nonempty_str (fld v ''targetProfileId'') then False
      else if \<not> str_sat (\<lambda>s. s \<in> set receipt_states) (fld v ''state'') then False
      else if fld v ''reasonCode'' \<noteq> JUndef \<and>
          \<not> str_sat (\<lambda>s. s \<in> set receipt_reason_codes) (fld v ''reasonCode'') then False
      else if \<not> nonempty_str (fld v ''ts'') then False
      else list_all (\<lambda>key. key \<in> set receipt_allowed_keys) (obj_keys v))"

section \<open>Messages\<close>

definition message_statuses :: "string list" where
  "message_statuses = [''streaming'', ''complete'', ''truncated'', ''interrupted'', ''failed'']"

definition isChannelMessagePart :: "json \<Rightarrow> bool" where
  "isChannelMessagePart v \<longleftrightarrow>
     is_record v \<and> fld v ''type'' = JStr ''image'' \<and>
     str_sat (\<lambda>s. starts_with s ''cha:'') (fld v ''id'') \<and>
     str_sat (\<lambda>s. s \<in> {''image/png'', ''image/jpeg'', ''image/webp'', ''image/gif''}) (fld v ''mime'') \<and>
     is_safe_int_from 1 (fld v ''w'') \<and> is_safe_int_from 1 (fld v ''h'') \<and>
     is_safe_int_from 1 (fld v ''bytes'') \<and>
     opt_sat (str_sat (\<lambda>s. length s \<le> 500)) (fld v ''alt'')"

definition isSenderRef :: "json \<Rightarrow> bool" where
  "isSenderRef v \<longleftrightarrow>
     is_record v \<and> str_sat (\<lambda>s. s \<in> {''human'', ''agent'', ''system''}) (fld v ''kind'') \<and>
     is_str (fld v ''id'') \<and> opt_sat is_str (fld v ''displayName'') \<and>
     opt_sat is_str (fld v ''providerId'') \<and> opt_sat is_str (fld v ''sessionId'')"

definition isChannelAgentDetail :: "json \<Rightarrow> bool" where
  "isChannelAgentDetail v =
     (if \<not> is_record v \<or> \<not> is_str (fld v ''itemId'') then False
      else let card = fld v ''card'' in
        if \<not> is_record card then False
        else
          str_sat (\<lambda>s. s \<in> {''message'', ''thought'', ''tool_call'', ''output'', ''diff''}) (fld card ''kind'') \<and>
          is_str (fld card ''title'') \<and>
          str_sat (\<lambda>s. s \<in> {''pending'', ''running'', ''completed'', ''failed'', ''cancelled''}) (fld card ''status'') \<and>
          opt_sat is_str (fld card ''content'') \<and> opt_sat is_str (fld card ''language'') \<and>
          opt_sat is_str (fld card ''command'') \<and> opt_sat is_str (fld card ''path'') \<and>
          opt_sat (is_safe_int_from 0) (fld card ''additions'') \<and>
          opt_sat (is_safe_int_from 0) (fld card ''deletions'') \<and>
          opt_sat (is_safe_int_from 0) (fld card ''sizeBytes''))"

definition isMemberRef :: "json \<Rightarrow> bool" where
  "isMemberRef v \<longleftrightarrow>
     is_record v \<and> (fld v ''kind'' = JStr ''human'' \<or> fld v ''kind'' = JStr ''agent'') \<and>
     is_str (fld v ''id'') \<and> is_str (fld v ''joinedAt'') \<and>
     opt_sat is_str (fld v ''invitedBy'') \<and> opt_sat is_str (fld v ''removedAt'')"

definition isAgentAttribution :: "json \<Rightarrow> bool" where
  "isAgentAttribution v \<longleftrightarrow>
     is_record v \<and> (fld v ''model'' \<noteq> JUndef \<or> fld v ''effort'' \<noteq> JUndef) \<and>
     opt_sat (str_sat (\<lambda>s. length s \<le> 512)) (fld v ''model'') \<and>
     opt_sat (str_sat (\<lambda>s. length s \<le> 512)) (fld v ''effort'')"

definition isChannelMessage :: "json \<Rightarrow> bool" where
  "isChannelMessage v =
     (if \<not> is_record v then False
      else if fld v ''schemaVersion'' \<noteq> JNum (IntNum 1) then False
      else if \<not> str_sat (\<lambda>s. starts_with s ''chm:'') (fld v ''id'') then False
      else if \<not> is_str (fld v ''channelId'') then False
      else if \<not> is_finite_num (fld v ''seq'') then False
      else if \<not> str_sat (\<lambda>s. s \<in> {''message'', ''system''}) (fld v ''kind'') then False
      else if \<not> str_sat (\<lambda>s. s \<in> set message_statuses) (fld v ''status'') then False
      else if \<not> isSenderRef (fld v ''sender'') then False
      else if \<not> is_record (fld v ''body'') \<or> \<not> is_str (fld (fld v ''body'') ''text'') \<or>
          \<not> str_sat (\<lambda>s. s \<in> {''markdown'', ''text''}) (fld (fld v ''body'') ''format'') then False
      else if fld v ''parts'' \<noteq> JUndef \<and>
          \<not> arr_sat (\<lambda>ps. length ps \<le> 4 \<and> list_all isChannelMessagePart ps) (fld v ''parts'') then False
      else if fld v ''agentDetail'' \<noteq> JUndef \<and> \<not> isChannelAgentDetail (fld v ''agentDetail'') then False
      else if fld v ''agentAttribution'' \<noteq> JUndef \<and> \<not> isAgentAttribution (fld v ''agentAttribution'') then False
      else if fld v ''asyncRun'' \<noteq> JUndef \<and>
          (\<not> is_record (fld v ''asyncRun'') \<or>
           \<not> str_sat (\<lambda>s. starts_with s ''chrun:'') (fld (fld v ''asyncRun'') ''runId'') \<or>
           \<not> is_str (fld (fld v ''asyncRun'') ''targetId'')) then False
      else if fld v ''threadId'' \<noteq> JNull \<and> \<not> is_str (fld v ''threadId'') then False
      else if fld v ''parentMessageId'' \<noteq> JNull \<and> \<not> is_str (fld v ''parentMessageId'') then False
      else if fld v ''replyCount'' \<noteq> JUndef \<and> \<not> is_safe_int_from 0 (fld v ''replyCount'') then False
      else if \<not> is_str (fld v ''createdAt'') \<or> \<not> is_str (fld v ''updatedAt'') then False
      else True)"

definition isMessageArray :: "json \<Rightarrow> bool" where
  "isMessageArray v = arr_sat (list_all isChannelMessage) v"

text \<open>The cast of a validated value. The sequence number of a value whose \<open>seq\<close> is not integral
  is its floor; the store assigns integral ones.\<close>

definition opt_str :: "json \<Rightarrow> string option" where
  "opt_str v = (case v of JStr s \<Rightarrow> Some s | _ \<Rightarrow> None)"

definition the_int :: "json \<Rightarrow> int" where
  "the_int v = (case v of JNum (IntNum n) \<Rightarrow> n | JNum (FracNum n) \<Rightarrow> n | _ \<Rightarrow> 0)"

definition opt_int :: "json \<Rightarrow> int option" where
  "opt_int v = (case v of JNum _ \<Rightarrow> Some (the_int v) | _ \<Rightarrow> None)"

definition status_of_string :: "string \<Rightarrow> message_status" where
  "status_of_string s = (if s = ''streaming'' then StStreaming else if s = ''complete'' then StComplete
     else if s = ''truncated'' then StTruncated else if s = ''interrupted'' then StInterrupted else StFailed)"

definition sender_of_json :: "json \<Rightarrow> sender_ref" where
  "sender_of_json v =
     \<lparr>sr_kind = (if fld v ''kind'' = JStr ''human'' then SkHuman
                 else if fld v ''kind'' = JStr ''agent'' then SkAgent else SkSystem),
      sr_id = the_str (fld v ''id''), sr_displayName = opt_str (fld v ''displayName''),
      sr_providerId = opt_str (fld v ''providerId''), sr_runtimeId = opt_str (fld v ''runtimeId'')\<rparr>"

definition mime_of_string :: "string \<Rightarrow> image_mime" where
  "mime_of_string s = (if s = ''image/png'' then MimePng else if s = ''image/jpeg'' then MimeJpeg
     else if s = ''image/webp'' then MimeWebp else MimeGif)"

definition part_of_json :: "json \<Rightarrow> image_part" where
  "part_of_json v =
     \<lparr>img_id = the_str (fld v ''id''), img_mime = mime_of_string (the_str (fld v ''mime'')),
      img_w = the_int (fld v ''w''), img_h = the_int (fld v ''h''), img_bytes = the_int (fld v ''bytes''),
      img_alt = opt_str (fld v ''alt'')\<rparr>"

definition mention_of_json :: "json \<Rightarrow> channel_mention" where
  "mention_of_json v =
     \<lparr>mn_raw = the_str (fld v ''raw''), mn_providerId = opt_str (fld v ''providerId''),
      mn_profileId = opt_str (fld v ''profileId'')\<rparr>"

definition source_of_json :: "json \<Rightarrow> message_source" where
  "source_of_json v =
     \<lparr>src_runtimeId = the_str (fld v ''runtimeId''), src_turnId = opt_str (fld v ''turnId''),
      src_itemId = opt_str (fld v ''itemId'')\<rparr>"

definition detail_kind_of_string :: "string \<Rightarrow> detail_kind" where
  "detail_kind_of_string s = (if s = ''message'' then DkMessage else if s = ''thought'' then DkThought
     else if s = ''tool_call'' then DkToolCall else if s = ''output'' then DkOutput else DkDiff)"

definition detail_status_of_string :: "string \<Rightarrow> detail_status" where
  "detail_status_of_string s = (if s = ''pending'' then DsPending else if s = ''running'' then DsRunning
     else if s = ''completed'' then DsCompleted else if s = ''failed'' then DsFailed else DsCancelled)"

definition detail_of_json :: "json \<Rightarrow> agent_detail" where
  "detail_of_json v = (let c = fld v ''card'' in
     \<lparr>ad_itemId = the_str (fld v ''itemId''),
      ad_card = \<lparr>card_kind = detail_kind_of_string (the_str (fld c ''kind'')),
        card_title = the_str (fld c ''title''),
        card_status = detail_status_of_string (the_str (fld c ''status'')),
        card_content = opt_str (fld c ''content''), card_language = opt_str (fld c ''language''),
        card_command = opt_str (fld c ''command''), card_path = opt_str (fld c ''path''),
        card_additions = opt_int (fld c ''additions''), card_deletions = opt_int (fld c ''deletions''),
        card_sizeBytes = opt_int (fld c ''sizeBytes'')\<rparr>\<rparr>)"

definition opt_arr :: "(json \<Rightarrow> 'a) \<Rightarrow> json \<Rightarrow> 'a list option" where
  "opt_arr f v = (case v of JArr xs \<Rightarrow> Some (map f xs) | _ \<Rightarrow> None)"

definition opt_obj :: "(json \<Rightarrow> 'a) \<Rightarrow> json \<Rightarrow> 'a option" where
  "opt_obj f v = (case v of JObj _ \<Rightarrow> Some (f v) | _ \<Rightarrow> None)"

definition message_of_json :: "json \<Rightarrow> channel_message" where
  "message_of_json v =
     \<lparr>msg_id = the_str (fld v ''id''), msg_channelId = the_str (fld v ''channelId''),
      msg_seq = the_int (fld v ''seq''),
      msg_kind = (if fld v ''kind'' = JStr ''system'' then MkSystem else MkMessage),
      msg_status = status_of_string (the_str (fld v ''status'')),
      msg_sender = sender_of_json (fld v ''sender''),
      msg_body = \<lparr>body_text = the_str (fld (fld v ''body'') ''text''),
        body_format = (if fld (fld v ''body'') ''format'' = JStr ''markdown'' then FmtMarkdown else FmtText)\<rparr>,
      msg_parts = opt_arr part_of_json (fld v ''parts''), msg_threadId = opt_str (fld v ''threadId''),
      msg_parentMessageId = opt_str (fld v ''parentMessageId''),
      msg_replyCount = opt_int (fld v ''replyCount''),
      msg_mentions = opt_arr mention_of_json (fld v ''mentions''),
      msg_source = opt_obj source_of_json (fld v ''source''),
      msg_agentDetail = opt_obj detail_of_json (fld v ''agentDetail''),
      msg_agentAttribution = opt_obj (\<lambda>a. \<lparr>aa_model = opt_str (fld a ''model''),
        aa_effort = opt_str (fld a ''effort'')\<rparr>) (fld v ''agentAttribution''),
      msg_asyncRun = opt_obj (\<lambda>a. \<lparr>arr_runId = the_str (fld a ''runId''),
        arr_targetId = the_str (fld a ''targetId'')\<rparr>) (fld v ''asyncRun''),
      msg_meta = (case fld v ''meta'' of JObj kvs \<Rightarrow> Some kvs | _ \<Rightarrow> None),
      msg_truncated = (case fld v ''truncated'' of JBool b \<Rightarrow> Some b | _ \<Rightarrow> None),
      msg_clientMessageId = opt_str (fld v ''clientMessageId''),
      msg_createdAt = the_str (fld v ''createdAt''), msg_updatedAt = the_str (fld v ''updatedAt''),
      msg_completedAt = opt_str (fld v ''completedAt'')\<rparr>"

section \<open>Runs and events\<close>

definition async_run_states :: "string list" where
  "async_run_states = [''submitted'', ''working'', ''input-required'', ''auth-required'', ''completed'',
     ''completed_unmet'', ''failed'', ''cancelled'', ''rejected'']"

definition async_run_target_states :: "string list" where
  "async_run_target_states = [''queued'', ''working'', ''input-required'', ''auth-required'', ''completed'',
     ''failed'', ''cancelled'', ''rejected'', ''refused'']"

definition isInFlightArray :: "json \<Rightarrow> bool" where
  "isInFlightArray v = arr_sat (list_all (\<lambda>entry.
     is_record entry \<and> is_str (fld entry ''messageId'') \<and> is_num (fld entry ''deltaIndex''))) v"

definition isSnapshotStateReplacement :: "json \<Rightarrow> bool" where
  "isSnapshotStateReplacement v \<longleftrightarrow>
     is_record v \<and> isChannelMessage (fld v ''message'') \<and>
     (fld v ''inFlight'' = JUndef \<or>
      (fld (fld v ''message'') ''status'' = JStr ''streaming'' \<and> is_record (fld v ''inFlight'') \<and>
       is_str (fld (fld v ''inFlight'') ''messageId'') \<and> is_num (fld (fld v ''inFlight'') ''deltaIndex'') \<and>
       fld (fld v ''inFlight'') ''messageId'' = fld (fld v ''message'') ''id''))"

definition isChannelAsyncRun :: "json \<Rightarrow> bool" where
  "isChannelAsyncRun v \<longleftrightarrow>
     is_record v \<and> str_sat (\<lambda>s. starts_with s ''chrun:'') (fld v ''id'') \<and> is_str (fld v ''channelId'') \<and>
     null_sat is_str (fld v ''threadId'') \<and> is_str (fld v ''requestMessageId'') \<and>
     is_str (fld v ''requesterId'') \<and> str_sat (\<lambda>s. s \<in> set async_run_states) (fld v ''state'') \<and>
     arr_sat (list_all (\<lambda>target. is_record target \<and> is_str (fld target ''targetId'') \<and>
       str_sat (\<lambda>s. s \<in> set async_run_target_states) (fld target ''state'') \<and>
       is_str (fld target ''updatedAt''))) (fld v ''targets'') \<and>
     is_str (fld v ''createdAt'') \<and> is_str (fld v ''updatedAt'')"

definition isChannelEventV1 :: "json \<Rightarrow> bool" where
  "isChannelEventV1 v =
     (if \<not> is_record v then False
      else if \<not> is_str (fld v ''type'') then False
      else if \<not> is_str (fld v ''channelId'') then False
      else if \<not> is_str (fld v ''timestamp'') then False
      else let ty = the_str (fld v ''type''); message = fld v ''message'' in
        if ty = ''channel-snapshot-v1'' then
          (fld v ''mode'' = JStr ''full'' \<or> fld v ''mode'' = JStr ''catchup'') \<and>
          isMessageArray (fld v ''messages'') \<and>
          (fld v ''stateReplacements'' = JUndef \<or>
           (fld v ''mode'' = JStr ''catchup'' \<and>
            arr_sat (list_all isSnapshotStateReplacement) (fld v ''stateReplacements''))) \<and>
          (fld v ''runs'' = JUndef \<or> arr_sat (list_all isChannelAsyncRun) (fld v ''runs'')) \<and>
          arr_sat (list_all isMemberRef) (fld v ''members'') \<and>
          is_num (fld v ''latestSeq'') \<and> isInFlightArray (fld v ''inFlight'') \<and>
          is_bool (fld v ''truncated'')
        else if ty = ''channel-message-created-v1'' then isChannelMessage message
        else if ty = ''channel-message-delta-v1'' then
          is_str (fld v ''messageId'') \<and> is_num (fld v ''deltaIndex'') \<and>
          is_record (fld v ''delta'') \<and> is_str (fld (fld v ''delta'') ''text'')
        else if ty = ''channel-message-updated-v1'' then
          isChannelMessage message \<and> fld message ''status'' = JStr ''streaming''
        else if ty = ''channel-message-completed-v1'' then isChannelMessage message
        else if ty = ''channel-message-edited-v1'' then
          isChannelMessage message \<and> channelMessageEditable (message_of_json message)
        else if ty = ''channel-message-deleted-v1'' then
          isChannelMessage message \<and> isChannelMessageTombstone (message_of_json message)
        else if ty = ''channel-resync-required-v1'' then is_num (fld v ''latestSeq'')
        else if ty = ''channel-run-lifecycle-v1'' then isChannelAsyncRun (fld v ''run'')
        else if ty = ''channel-delivery-receipt-v1'' then isChannelDeliveryReceipt (fld v ''receipt'')
        else False)"

section \<open>Search snippets\<close>

text \<open>The sentinels are the code units U+E000 and U+E001, so the snippet is a list of UTF-16 code
  units here.\<close>

type_synonym code_units = "nat list"

definition highlight_open :: nat where
  "highlight_open = 57344"

definition highlight_close :: nat where
  "highlight_close = 57345"

text \<open>One segment per pair: its text and whether it is highlighted. Each round drops at least the
  two sentinels, so the loop ends.\<close>

function parseChannelSearchSnippet :: "code_units \<Rightarrow> (code_units \<times> bool) list" where
  "parseChannelSearchSnippet rest =
     (if rest = [] then []
      else case index_of highlight_open rest of
        None \<Rightarrow> [(rest, False)]
      | Some opn \<Rightarrow>
          (case index_of highlight_close (drop (opn + 1) rest) of
             None \<Rightarrow> [(rest, False)]
           | Some c \<Rightarrow>
               let cls = opn + 1 + c; inner = take c (drop (opn + 1) rest) in
               (if opn > 0 then [(take opn rest, False)] else []) @
               (if length inner > 0 then [(inner, True)] else []) @
               parseChannelSearchSnippet (drop (cls + 1) rest)))"
  by pat_completeness auto
termination
  by (relation "measure length") auto

declare parseChannelSearchSnippet.simps [simp del]

text \<open>The text of the segments in order.\<close>

definition segment_text :: "(code_units \<times> bool) list \<Rightarrow> code_units" where
  "segment_text segs = concat (map fst segs)"

lemma parse_pair:
  assumes "index_of highlight_open rest = Some opn"
    and "index_of highlight_close (drop (opn + 1) rest) = Some c"
  shows "parseChannelSearchSnippet rest =
    (if opn > 0 then [(take opn rest, False)] else []) @
    (if take c (drop (opn + 1) rest) \<noteq> [] then [(take c (drop (opn + 1) rest), True)] else []) @
    parseChannelSearchSnippet (drop (opn + 1 + c + 1) rest)"
  using assms by (subst parseChannelSearchSnippet.simps) (auto simp: Let_def)

lemma parse_stop:
  assumes "\<nexists>opn c. index_of highlight_open rest = Some opn \<and>
    index_of highlight_close (drop (opn + 1) rest) = Some c"
  shows "parseChannelSearchSnippet rest = (if rest = [] then [] else [(rest, False)])"
  using assms by (subst parseChannelSearchSnippet.simps) (auto split: option.splits)

lemma parse_cases:
  obtains (pair) opn c where "index_of highlight_open rest = Some opn"
      and "index_of highlight_close (drop (opn + 1) rest) = Some c"
      and "length (drop (opn + 1 + c + 1) rest) < length rest"
  | (stop) "parseChannelSearchSnippet rest = (if rest = [] then [] else [(rest, False)])"
proof (cases "\<exists>opn c. index_of highlight_open rest = Some opn \<and>
    index_of highlight_close (drop (opn + 1) rest) = Some c")
  case True
  then obtain opn c where "index_of highlight_open rest = Some opn"
    "index_of highlight_close (drop (opn + 1) rest) = Some c" by blast
  moreover from this(1) have "opn < length rest" by (rule index_of_less)
  ultimately show ?thesis using pair by simp
next
  case False
  then show ?thesis using parse_stop stop by blast
qed

abbreviation plain_units :: "code_units \<Rightarrow> code_units" where
  "plain_units \<equiv> filter (\<lambda>c. c \<noteq> highlight_open \<and> c \<noteq> highlight_close)"

lemma parse_keeps_text: "plain_units (segment_text (parseChannelSearchSnippet rest)) = plain_units rest"
proof (induction rest rule: measure_induct_rule [of length])
  case (less rest)
  show ?case
  proof (cases rest rule: parse_cases)
    case (pair opn c)
    let ?tail = "drop (opn + 1 + c + 1) rest" and ?inner = "take c (drop (opn + 1) rest)"
    have split: "rest = take opn rest @ highlight_open # ?inner @ highlight_close # ?tail"
      using index_of_split [OF pair(1)] index_of_split [OF pair(2)] by (simp add: add.commute)
    have "plain_units rest = plain_units (take opn rest @ highlight_open # ?inner @ highlight_close # ?tail)"
      by (subst split) (rule refl)
    also have "\<dots> = plain_units (take opn rest) @ plain_units ?inner @ plain_units ?tail" by simp
    finally show ?thesis
      using parse_pair [OF pair(1,2)] less.IH [OF pair(3)] by (auto simp: segment_text_def)
  qed (simp add: segment_text_def)
qed

lemma parse_nonempty_segments: "seg \<in> set (parseChannelSearchSnippet rest) \<Longrightarrow> fst seg \<noteq> []"
proof (induction rest rule: measure_induct_rule [of length])
  case (less rest)
  show ?case
  proof (cases rest rule: parse_cases)
    case (pair opn c)
    have "rest \<noteq> []" using pair(1) by auto
    with less.prems less.IH [OF pair(3)] parse_pair [OF pair(1,2)] show ?thesis
      by (auto split: if_splits)
  qed (use less.prems in \<open>auto split: if_splits\<close>)
qed

end
