(* ===== verification/Subscription_Filter.thy ===== *)
theory Subscription_Filter
  imports Channel_Wire
begin

text \<open>
  Validation of a channel subscription filter at the shared HTTP and CLI boundary
  (\<open>subscriptionFilterStringIsValid\<close>, \<open>channelSubscriptionFilterValidationError\<close>,
  \<open>isChannelSubscriptionFilter\<close> of \<open>shared/channel-chat-protocol.ts\<close>) and the steering flag of a
  post. The validation serialises the value before it looks at the fields, so the size in UTF-8
  bytes of \<open>JSON.stringify\<close> is part of the model; the number of characters of a rendered finite
  number is an argument of the definitions (\<open>numlen\<close>), since a \<^typ>\<open>js_number\<close> keeps only the
  floor of a fraction.

  The properties: the validator accepts exactly the filters whose fields are well formed, for every
  way of rendering numbers, so the size bound never refuses a filter the later tests would accept;
  and a key that is the empty string is not refused although it is no supported key. The theory also
  holds the properties of the other validators: a receipt that passes is content-free, an accepted
  deletion frame clears the row it names, a snippet round-trips, and turn ids are read back exactly.
\<close>

section \<open>Serialised size\<close>

text \<open>\<open>JSON.stringify\<close> of a character: the quotation mark, the backslash and \<open>\b \t \n \f \r\<close> take two
  characters, the other control characters six.\<close>

definition json_char_bytes :: "char \<Rightarrow> nat" where
  "json_char_bytes c = (let n = (of_char c :: nat) in
     if n \<in> {8, 9, 10, 12, 13, 34, 92} then 2 else if n < 32 then 6 else if n < 128 then 1 else 2)"

definition json_str_bytes :: "string \<Rightarrow> nat" where
  "json_str_bytes s = 2 + sum_list (map json_char_bytes s)"

text \<open>A comma between the members, the brackets around them.\<close>

definition json_list_bytes :: "nat list \<Rightarrow> nat" where
  "json_list_bytes ns = 2 + sum_list ns + (length ns - 1)"

text \<open>An undefined member of an object is left out, of an array is \<open>null\<close>, as are the numbers that
  are not finite.\<close>

fun json_bytes :: "(js_number \<Rightarrow> nat) \<Rightarrow> json \<Rightarrow> nat" where
  "json_bytes numlen JUndef = 4"
| "json_bytes numlen JNull = 4"
| "json_bytes numlen (JBool b) = (if b then 4 else 5)"
| "json_bytes numlen (JNum n) =
     (case n of NaNNum \<Rightarrow> 4 | InfNum _ \<Rightarrow> 4 | _ \<Rightarrow> numlen n)"
| "json_bytes numlen (JStr s) = json_str_bytes s"
| "json_bytes numlen (JArr xs) = json_list_bytes (map (json_bytes numlen) xs)"
| "json_bytes numlen (JObj kvs) =
     json_list_bytes (map (\<lambda>kv. json_str_bytes (fst kv) + 1 + json_bytes numlen (snd kv))
       (filter (\<lambda>kv. snd kv \<noteq> JUndef) kvs))"

section \<open>Validation\<close>

definition filter_id_max_chars :: nat where
  "filter_id_max_chars = 512"

definition filter_max_bytes :: nat where
  "filter_max_bytes = filter_id_max_chars * 5 * 3 * 3 + 1024"

definition subscription_filter_keys :: "string list" where
  "subscription_filter_keys = [''threadId'', ''messageId'', ''senderId'', ''mentionTargetId'',
     ''status'', ''runId'', ''terminalOnly'', ''principalOnly'']"

definition subscriptionFilterStringIsValid :: "json \<Rightarrow> string option \<Rightarrow> bool" where
  "subscriptionFilterStringIsValid v pfx = str_sat (\<lambda>s.
     length s > 0 \<and> length (trim s) > 0 \<and> length s \<le> filter_id_max_chars \<and>
     (case pfx of None \<Rightarrow> True
      | Some p \<Rightarrow> starts_with s p \<and> length s > length p \<and> length (trim (drop (length p) s)) > 0)) v"

text \<open>The reason of the refusal, \<open>None\<close> for an accepted filter. \<open>if (unknown)\<close> and
  \<open>if (undefinedKey)\<close> test the key found for truth, so the empty key counts as not found.\<close>

datatype filter_error =
    NotAnObject
  | UnsupportedKey string
  | UndefinedKey string
  | TooManyBytes
  | BadThreadId
  | BadMessageId
  | BadActorId string
  | BadStatus
  | BadRunId
  | BadFlag string

definition found_key :: "string option \<Rightarrow> string option" where
  "found_key k = (case k of None \<Rightarrow> None | Some s \<Rightarrow> if s = [] then None else Some s)"

definition channelSubscriptionFilterValidationError ::
  "(js_number \<Rightarrow> nat) \<Rightarrow> json \<Rightarrow> filter_error option" where
  "channelSubscriptionFilterValidationError numlen v =
     (if \<not> is_record v then Some NotAnObject
      else case found_key (List.find (\<lambda>k. k \<notin> set subscription_filter_keys) (obj_keys v)) of
        Some k \<Rightarrow> Some (UnsupportedKey k)
      | None \<Rightarrow>
      (case found_key (List.find (\<lambda>k. fld v k = JUndef) (obj_keys v)) of
        Some k \<Rightarrow> Some (UndefinedKey k)
      | None \<Rightarrow>
        if json_bytes numlen v > filter_max_bytes then Some TooManyBytes
        else if fld v ''threadId'' \<noteq> JUndef \<and> fld v ''threadId'' \<noteq> JStr ''root'' \<and>
            \<not> subscriptionFilterStringIsValid (fld v ''threadId'') (Some ''chm:'') then Some BadThreadId
        else if fld v ''messageId'' \<noteq> JUndef \<and>
            \<not> subscriptionFilterStringIsValid (fld v ''messageId'') (Some ''chm:'') then Some BadMessageId
        else case List.find (\<lambda>k. fld v k \<noteq> JUndef \<and> \<not> subscriptionFilterStringIsValid (fld v k) None)
            [''senderId'', ''mentionTargetId''] of
          Some k \<Rightarrow> Some (BadActorId k)
        | None \<Rightarrow>
          if fld v ''status'' \<noteq> JUndef \<and>
            \<not> str_sat (\<lambda>s. s \<in> set message_statuses) (fld v ''status'') then Some BadStatus
          else if fld v ''runId'' \<noteq> JUndef \<and>
            \<not> subscriptionFilterStringIsValid (fld v ''runId'') (Some ''chrun:'') then Some BadRunId
          else case List.find (\<lambda>k. fld v k \<noteq> JUndef \<and> \<not> is_bool (fld v k))
              [''terminalOnly'', ''principalOnly''] of
            Some k \<Rightarrow> Some (BadFlag k)
          | None \<Rightarrow> None))"

definition isChannelSubscriptionFilter :: "(js_number \<Rightarrow> nat) \<Rightarrow> json \<Rightarrow> bool" where
  "isChannelSubscriptionFilter numlen v \<longleftrightarrow> channelSubscriptionFilterValidationError numlen v = None"

definition post_steering_values :: "string list" where
  "post_steering_values = [''interrupt'']"

definition isChannelPostSteering :: "json \<Rightarrow> bool" where
  "isChannelPostSteering v = str_sat (\<lambda>s. s \<in> set post_steering_values) v"

section \<open>What an accepted filter is\<close>

text \<open>The reference description: a record with distinct supported keys, each holding a value of the
  type its field has.\<close>

definition filter_field_ok :: "string \<Rightarrow> json \<Rightarrow> bool" where
  "filter_field_ok k v \<longleftrightarrow>
     (if k = ''threadId'' then v = JStr ''root'' \<or> subscriptionFilterStringIsValid v (Some ''chm:'')
      else if k = ''messageId'' then subscriptionFilterStringIsValid v (Some ''chm:'')
      else if k = ''senderId'' \<or> k = ''mentionTargetId'' then subscriptionFilterStringIsValid v None
      else if k = ''status'' then str_sat (\<lambda>s. s \<in> set message_statuses) v
      else if k = ''runId'' then subscriptionFilterStringIsValid v (Some ''chrun:'')
      else (k = ''terminalOnly'' \<or> k = ''principalOnly'') \<and> is_bool v)"

definition well_formed_filter :: "json \<Rightarrow> bool" where
  "well_formed_filter v = (case v of
     JObj kvs \<Rightarrow> list_all (\<lambda>kv. filter_field_ok (fst kv) (snd kv)) kvs | _ \<Rightarrow> False)"

text \<open>No two properties of an object have the same name.\<close>

definition distinct_keys :: "json \<Rightarrow> bool" where
  "distinct_keys v \<longleftrightarrow> distinct (obj_keys v)"

lemma json_char_bytes_le: "json_char_bytes c \<le> 6"
  by (simp add: json_char_bytes_def Let_def)

lemma json_str_bytes_le: "json_str_bytes s \<le> 2 + 6 * length s"
  by (induction s) (auto simp: json_str_bytes_def intro!: add_mono order_trans [OF add_mono [OF json_char_bytes_le]])

text \<open>A bound of the bytes each field takes with its key, colon and comma.\<close>

definition field_bytes_bound :: "string \<Rightarrow> nat" where
  "field_bytes_bound k = (if k = ''status'' then 160 else if k = ''terminalOnly'' \<or> k = ''principalOnly'' then 160
     else 3200)"

lemma valid_string_bytes:
  "subscriptionFilterStringIsValid v p \<Longrightarrow> json_bytes numlen v \<le> 3074"
  using json_str_bytes_le [of "the_str v"] unfolding subscriptionFilterStringIsValid_def
  by (cases v) (auto simp: str_sat_def the_str_def filter_id_max_chars_def)

lemma key_bytes: "k \<in> set subscription_filter_keys \<Longrightarrow> json_str_bytes k \<le> 17"
  by (auto simp: subscription_filter_keys_def json_str_bytes_def json_char_bytes_def)

lemma field_key_supported: "filter_field_ok k v \<Longrightarrow> k \<in> set subscription_filter_keys"
  by (auto simp: filter_field_ok_def subscription_filter_keys_def split: if_splits)

lemma root_and_status_bytes:
  "json_bytes numlen (JStr ''root'') \<le> 3074"
  "str_sat (\<lambda>s. s \<in> set message_statuses) v \<Longrightarrow> json_bytes numlen v \<le> 100"
  "is_bool v \<Longrightarrow> json_bytes numlen v \<le> 100"
  by (auto simp: message_statuses_def json_str_bytes_def json_char_bytes_def is_bool_def
      dest!: str_satD split: json.splits)

lemma field_bytes:
  assumes "filter_field_ok k v"
  shows "json_str_bytes k + 1 + json_bytes numlen v + 1 \<le> field_bytes_bound k"
proof -
  have "json_str_bytes k \<le> 17" by (rule key_bytes [OF field_key_supported [OF assms]])
  moreover have "json_bytes numlen v + 50 \<le> field_bytes_bound k"
    using field_key_supported [OF assms] assms valid_string_bytes [of v _ numlen]
      root_and_status_bytes(1) [of numlen] root_and_status_bytes(2,3) [of v numlen]
    unfolding subscription_filter_keys_def list.set insert_iff empty_iff
    by (elim disjE) (force simp: filter_field_ok_def field_bytes_bound_def simp del: json_bytes.simps)+
  ultimately show ?thesis by linarith
qed

lemma sum_field_bounds:
  assumes "distinct ks" and "set ks \<subseteq> set subscription_filter_keys"
  shows "sum_list (map field_bytes_bound ks) \<le> 16480"
proof -
  have "sum_list (map field_bytes_bound ks) = sum field_bytes_bound (set ks)"
    using assms(1) by (rule sum_list_distinct_conv_sum_set)
  also have "\<dots> \<le> sum field_bytes_bound (set subscription_filter_keys)"
    using assms(2) by (intro sum_mono2) auto
  also have "\<dots> = 16480"
    by (simp add: subscription_filter_keys_def field_bytes_bound_def)
  finally show ?thesis .
qed

lemma sum_list_entries:
  assumes "list_all (\<lambda>kv. filter_field_ok (fst kv) (snd kv)) kvs"
  shows "sum_list (map (\<lambda>kv. json_str_bytes (fst kv) + 1 + json_bytes numlen (snd kv)) kvs) + length kvs
    \<le> sum_list (map field_bytes_bound (map fst kvs))"
  using assms
proof (induction kvs)
  case (Cons kv kvs)
  then show ?case using field_bytes [of "fst kv" "snd kv" numlen] by simp
qed simp

lemma filter_field_defined: "\<not> filter_field_ok k JUndef"
  by (simp add: filter_field_ok_def subscriptionFilterStringIsValid_def str_sat_def is_bool_def)

lemma well_formed_filter_size:
  assumes "well_formed_filter v" and "distinct_keys v"
  shows "json_bytes numlen v \<le> filter_max_bytes"
proof -
  from assms(1) obtain kvs where v: "v = JObj kvs"
    and ok: "list_all (\<lambda>kv. filter_field_ok (fst kv) (snd kv)) kvs"
    by (auto simp: well_formed_filter_def split: json.splits)
  have "set (map fst kvs) \<subseteq> set subscription_filter_keys"
    using ok field_key_supported by (fastforce simp: list_all_iff)
  then have "sum_list (map field_bytes_bound (map fst kvs)) \<le> 16480"
    using assms(2) v by (intro sum_field_bounds) (simp_all add: distinct_keys_def obj_keys_def)
  moreover have "filter (\<lambda>kv. snd kv \<noteq> JUndef) kvs = kvs"
    using ok by (intro filter_True ballI) (metis filter_field_defined list_all_iff)
  ultimately show ?thesis
    using sum_list_entries [OF ok, of numlen]
    by (simp add: v json_list_bytes_def filter_max_bytes_def filter_id_max_chars_def)
qed


lemma found_key_None:
  "[] \<notin> set ks \<Longrightarrow> found_key (List.find P ks) = None \<longleftrightarrow> (\<forall>k\<in>set ks. \<not> P k)"
  by (induction ks) (auto simp: found_key_def)

lemma guard_None: "(if b then Some e else y) = None \<longleftrightarrow> \<not> b \<and> y = None"
  by simp

lemma found_None: "(case x of None \<Rightarrow> y | Some k \<Rightarrow> Some (f k)) = None \<longleftrightarrow> x = None \<and> y = None"
  by (cases x) auto

lemma accepted_iff_tests:
  assumes "is_record v"
  shows "isChannelSubscriptionFilter numlen v \<longleftrightarrow>
    (found_key (List.find (\<lambda>k. k \<notin> set subscription_filter_keys) (obj_keys v)) = None \<and>
     found_key (List.find (\<lambda>k. fld v k = JUndef) (obj_keys v)) = None \<and>
     \<not> json_bytes numlen v > filter_max_bytes \<and>
     \<not> (fld v ''threadId'' \<noteq> JUndef \<and> fld v ''threadId'' \<noteq> JStr ''root'' \<and>
        \<not> subscriptionFilterStringIsValid (fld v ''threadId'') (Some ''chm:'')) \<and>
     \<not> (fld v ''messageId'' \<noteq> JUndef \<and> \<not> subscriptionFilterStringIsValid (fld v ''messageId'') (Some ''chm:'')) \<and>
     List.find (\<lambda>k. fld v k \<noteq> JUndef \<and> \<not> subscriptionFilterStringIsValid (fld v k) None)
       [''senderId'', ''mentionTargetId''] = None \<and>
     \<not> (fld v ''status'' \<noteq> JUndef \<and> \<not> str_sat (\<lambda>s. s \<in> set message_statuses) (fld v ''status'')) \<and>
     \<not> (fld v ''runId'' \<noteq> JUndef \<and> \<not> subscriptionFilterStringIsValid (fld v ''runId'') (Some ''chrun:'')) \<and>
     List.find (\<lambda>k. fld v k \<noteq> JUndef \<and> \<not> is_bool (fld v k)) [''terminalOnly'', ''principalOnly''] = None)"
  using assms unfolding isChannelSubscriptionFilter_def channelSubscriptionFilterValidationError_def
  by (simp only: guard_None found_None simp_thms)

text \<open>The tests on the fields are the reference test on every supported key.\<close>

lemma accepted_iff_fields:
  assumes "is_record v" and "[] \<notin> set (obj_keys v)"
  shows "isChannelSubscriptionFilter numlen v \<longleftrightarrow>
    set (obj_keys v) \<subseteq> set subscription_filter_keys \<and> (\<forall>k\<in>set (obj_keys v). fld v k \<noteq> JUndef) \<and>
    json_bytes numlen v \<le> filter_max_bytes \<and>
    (\<forall>k\<in>set subscription_filter_keys. fld v k \<noteq> JUndef \<longrightarrow> filter_field_ok k (fld v k))"
proof -
  have fields: "(\<forall>k\<in>set subscription_filter_keys. fld v k \<noteq> JUndef \<longrightarrow> filter_field_ok k (fld v k)) \<longleftrightarrow>
    (fld v ''threadId'' = JUndef \<or> fld v ''threadId'' = JStr ''root'' \<or>
       subscriptionFilterStringIsValid (fld v ''threadId'') (Some ''chm:'')) \<and>
    (fld v ''messageId'' = JUndef \<or> subscriptionFilterStringIsValid (fld v ''messageId'') (Some ''chm:'')) \<and>
    (\<forall>k\<in>set [''senderId'', ''mentionTargetId'']. fld v k = JUndef \<or> subscriptionFilterStringIsValid (fld v k) None) \<and>
    (fld v ''status'' = JUndef \<or> str_sat (\<lambda>s. s \<in> set message_statuses) (fld v ''status'')) \<and>
    (fld v ''runId'' = JUndef \<or> subscriptionFilterStringIsValid (fld v ''runId'') (Some ''chrun:'')) \<and>
    (\<forall>k\<in>set [''terminalOnly'', ''principalOnly'']. fld v k = JUndef \<or> is_bool (fld v k))"
    by (simp add: subscription_filter_keys_def filter_field_ok_def) blast
  show ?thesis
    unfolding fields accepted_iff_tests [OF assms(1)] found_key_None [OF assms(2)] find_None_all
    by (simp only: de_Morgan_conj de_Morgan_disj not_not not_less subset_eq)
qed

lemma fld_in_obj: "distinct (map fst kvs) \<Longrightarrow> kv \<in> set kvs \<Longrightarrow> fld (JObj kvs) (fst kv) = snd kv"
  by (cases kv) (simp add: fld_def)

lemma fld_undef_outside: "k \<notin> fst ` set kvs \<Longrightarrow> fld (JObj kvs) k = JUndef"
  by (simp add: fld_def map_of_eq_None_iff [THEN iffD2])

lemma well_formed_filter_fld:
  assumes "distinct (map fst kvs)"
  shows "well_formed_filter (JObj kvs) \<longleftrightarrow> (\<forall>k\<in>fst ` set kvs. filter_field_ok k (fld (JObj kvs) k))"
  using fld_in_obj [OF assms] by (auto simp: well_formed_filter_def list_all_iff)

text \<open>The validator of a subscription filter accepts a value exactly when it is an object whose
  members are all supported and of the right form (thread and message ids of at most 512 characters
  starting with \<open>chm:\<close>, run ids with \<open>chrun:\<close>, bounded actor ids, a known status, booleans),
  provided no member name is the empty string. In particular the limit on the serialised size never
  refuses such a filter, however many bytes the escapes of its ids take.\<close>

theorem subscription_filter_validation_exact:
  assumes "distinct_keys v" and "[] \<notin> set (obj_keys v)"
  shows "isChannelSubscriptionFilter numlen v \<longleftrightarrow> well_formed_filter v"
proof (cases v)
  case (JObj kvs)
  have d: "distinct (map fst kvs)" using assms(1) JObj by (simp add: distinct_keys_def obj_keys_def)
  have keys: "set (obj_keys v) = fst ` set kvs" by (simp add: JObj obj_keys_def)
  show ?thesis
  proof
    assume acc: "isChannelSubscriptionFilter numlen v"
    have "is_record v" by (simp add: JObj is_record_def)
    from accepted_iff_fields [OF this assms(2), THEN iffD1, OF acc] keys
    have "\<forall>k\<in>fst ` set kvs. filter_field_ok k (fld v k)" by blast
    then show "well_formed_filter v" unfolding JObj well_formed_filter_fld [OF d] .
  next
    assume wf: "well_formed_filter v"
    then have all: "\<forall>k\<in>fst ` set kvs. filter_field_ok k (fld v k)"
      unfolding JObj well_formed_filter_fld [OF d] .
    have "fst ` set kvs \<subseteq> set subscription_filter_keys"
      using all field_key_supported by blast
    moreover have "\<forall>k\<in>fst ` set kvs. fld v k \<noteq> JUndef"
      using all filter_field_defined by metis
    moreover have "fld v k \<noteq> JUndef \<longrightarrow> filter_field_ok k (fld v k)" for k
      using all fld_undef_outside [of k kvs] JObj by blast
    ultimately show "isChannelSubscriptionFilter numlen v"
      using accepted_iff_fields [OF _ assms(2)] well_formed_filter_size [OF wf assms(1)] keys JObj
      by (simp add: is_record_def)
  qed
qed (simp_all add: isChannelSubscriptionFilter_def channelSubscriptionFilterValidationError_def
    well_formed_filter_def is_record_def)

theorem subscription_filter_validation_exact_witness:
  "isChannelSubscriptionFilter (\<lambda>_. 1) (JObj [(''threadId'', JStr ''chm:1''), (''terminalOnly'', JBool True)])"
  using subscription_filter_validation_exact
    [of "JObj [(''threadId'', JStr ''chm:1''), (''terminalOnly'', JBool True)]" "\<lambda>_. 1"]
  by (simp add: distinct_keys_def obj_keys_def well_formed_filter_def filter_field_ok_def
      subscriptionFilterStringIsValid_def filter_id_max_chars_def js_defs)

text \<open>A filter with a member whose name is the empty string is accepted together with any
  unsupported member that follows it: the first unsupported key found is the empty string, which the
  test \<open>if (unknown)\<close> takes for none.\<close>

theorem empty_filter_key_hides_unknown_keys:
  "channelSubscriptionFilterValidationError numlen (JObj [([], JBool a), (''bogus'', JBool b)]) = None
   \<and> channelSubscriptionFilterValidationError numlen (JObj [(''bogus'', JBool b)])
     = Some (UnsupportedKey ''bogus'')"
  by (simp add: channelSubscriptionFilterValidationError_def is_record_def obj_keys_def found_key_def
      subscription_filter_keys_def fld_def json_list_bytes_def json_str_bytes_def json_char_bytes_def
      filter_max_bytes_def filter_id_max_chars_def)

section \<open>Receipts and row replacements\<close>

text \<open>A delivery receipt that passes its validator carries no content: every member is one of
  eight identity and state fields and holds a string, null or undefined, and the reason code, when
  present, is one of the fixed codes.\<close>

theorem receipt_is_content_free:
  assumes "isChannelDeliveryReceipt v" and "distinct_keys v"
  shows "\<exists>kvs. v = JObj kvs \<and> (\<forall>(k, x)\<in>set kvs. k \<in> set receipt_allowed_keys \<and>
    (x = JNull \<or> x = JUndef \<or> is_str x) \<and> (k = ''reasonCode'' \<longrightarrow> x = JUndef \<or> (\<exists>s\<in>set receipt_reason_codes. x = JStr s)))"
proof -
  from assms(1) obtain kvs where v: "v = JObj kvs"
    by (auto simp: isChannelDeliveryReceipt_def dest!: is_recordD split: if_splits)
  have d: "distinct (map fst kvs)" using assms(2) v by (simp add: distinct_keys_def obj_keys_def)
  have str: "is_str x" if "str_sat P x" for P x
    using str_satD [OF that] by (auto simp: is_str_def)
  have fields: "x = JNull \<or> x = JUndef \<or> is_str x" if "x = fld v k" "k \<in> set receipt_allowed_keys" for k x
    using assms(1) that str unfolding isChannelDeliveryReceipt_def nonempty_str_def receipt_allowed_keys_def
    by (auto split: if_splits)
  have reason: "fld v ''reasonCode'' = JUndef \<or> (\<exists>s\<in>set receipt_reason_codes. fld v ''reasonCode'' = JStr s)"
    using assms(1) unfolding isChannelDeliveryReceipt_def
    by (auto split: if_splits dest!: str_satD)
  have "k \<in> set receipt_allowed_keys \<and> (x = JNull \<or> x = JUndef \<or> is_str x) \<and>
    (k = ''reasonCode'' \<longrightarrow> x = JUndef \<or> (\<exists>s\<in>set receipt_reason_codes. x = JStr s))" if "(k, x) \<in> set kvs" for k x
  proof -
    have f: "fld v k = x" using fld_in_obj [OF d that] v by simp
    have "k \<in> set (obj_keys v)" using that v by (force simp: obj_keys_def)
    then have "k \<in> set receipt_allowed_keys"
      using assms(1) by (auto simp: isChannelDeliveryReceipt_def list_all_iff split: if_splits)
    with fields [OF f [symmetric]] reason f show ?thesis by auto
  qed
  with v show ?thesis by blast
qed

theorem receipt_is_content_free_witness:
  "let v = JObj [(''messageId'', JStr ''m''), (''channelId'', JStr ''c''), (''targetBindingId'', JStr ''b''),
     (''senderProfileId'', JNull), (''targetProfileId'', JStr ''p''), (''state'', JStr ''queued''),
     (''reasonCode'', JStr ''queue_cap''), (''ts'', JStr ''t'')]
   in isChannelDeliveryReceipt v \<and> distinct_keys v \<and> (\<exists>kvs. v = JObj kvs \<and> fst ` set kvs \<subseteq> set receipt_allowed_keys)"
proof -
  let ?v = "JObj [(''messageId'', JStr ''m''), (''channelId'', JStr ''c''), (''targetBindingId'', JStr ''b''),
     (''senderProfileId'', JNull), (''targetProfileId'', JStr ''p''), (''state'', JStr ''queued''),
     (''reasonCode'', JStr ''queue_cap''), (''ts'', JStr ''t'')]"
  have "isChannelDeliveryReceipt ?v" and "distinct_keys ?v"
    by code_simp+
  moreover from receipt_is_content_free [OF this]
  have "\<exists>kvs. ?v = JObj kvs \<and> fst ` set kvs \<subseteq> set receipt_allowed_keys" by fastforce
  ultimately show ?thesis by (simp only: Let_def simp_thms)
qed

text \<open>A deletion frame that passes validation, applied to a settled row it names, leaves the row
  without text: it is no longer principal prose and can be neither edited nor deleted again, no other
  row changes, and no sequence number changes.\<close>

theorem deletion_frame_clears_row:
  assumes "isChannelEventV1 v" and "fld v ''type'' = JStr ''channel-message-deleted-v1''"
    and "m = message_of_json (fld v ''message'')"
    and "timeline_inv s" and "st_byId s (msg_id m) = Some r"
    and "msg_status r \<noteq> StStreaming" and "msg_seq r = msg_seq m"
    and "s' = applyChannelEventV1 s (EvDeleted m)"
  shows "st_byId s' (msg_id m) = Some m \<and> msg_text m = [] \<and> \<not> channelMessageIsPrincipalProse m \<and>
    \<not> channelMessageEditable m \<and> \<not> channelMessageDeletable m \<and>
    (\<forall>i. i \<noteq> msg_id m \<longrightarrow> st_byId s' i = st_byId s i) \<and>
    map msg_seq (st_messages s') = map msg_seq (st_messages s)"
proof -
  have stone: "isChannelMessageTombstone m"
    using assms(1,2,3) by (auto simp: isChannelEventV1_def the_str_def Let_def split: if_splits)
  have s': "s' = s\<lparr>st_messages := replaceRow (st_messages s) m, st_byId := (st_byId s)(msg_id m \<mapsto> m)\<rparr>"
    using assms by (simp add: applyRowReplacement_def)
  have "map msg_seq (replaceRow (st_messages s) m) = map msg_seq (st_messages s)"
  proof (rule map_seq_replaceRow)
    fix x assume "x \<in> set (st_messages s)" "msg_id x = msg_id m"
    then have "st_byId s (msg_id m) = Some x"
      using assms(4) by (simp add: timeline_inv_def wf_rows_def map_of_key_list)
    then show "msg_seq x = msg_seq m" using assms(5,7) by simp
  qed
  with s' stone show ?thesis
    by (simp add: channelMessageIsPrincipalProse_def channelMessageDeletable_def channelMessageEditable_def
        isChannelMessageTombstone_def)
qed

definition sample_tombstone :: json where
  "sample_tombstone = JObj [(''schemaVersion'', JNum (IntNum 1)), (''id'', JStr ''chm:a''),
     (''channelId'', JStr ''c''), (''seq'', JNum (IntNum 1)), (''kind'', JStr ''message''),
     (''status'', JStr ''complete''), (''sender'', JObj [(''kind'', JStr ''human''), (''id'', JStr ''h'')]),
     (''body'', JObj [(''text'', JStr []), (''format'', JStr ''text'')]), (''threadId'', JNull),
     (''parentMessageId'', JNull), (''meta'', JObj [(''deletedAt'', JStr ''t'')]),
     (''createdAt'', JStr ''t''), (''updatedAt'', JStr ''t'')]"

definition sample_delete_frame :: json where
  "sample_delete_frame = JObj [(''type'', JStr ''channel-message-deleted-v1''), (''channelId'', JStr ''c''),
     (''timestamp'', JStr ''t''), (''message'', sample_tombstone)]"

lemma sample_delete_frame_ok:
  "isChannelEventV1 sample_delete_frame" "fld sample_delete_frame ''type'' = JStr ''channel-message-deleted-v1''"
  "msg_id (message_of_json (fld sample_delete_frame ''message'')) = ''chm:a''"
  "msg_seq (message_of_json (fld sample_delete_frame ''message'')) = 1"
  by code_simp+

theorem deletion_frame_clears_row_witness:
  "let s = run applyChannelEventV1 (initialChannelReducerState ''c'') [EvCreated (sample_row ''chm:a'' 1 StComplete ''x'')];
       m = message_of_json (fld sample_delete_frame ''message'');
       s' = applyChannelEventV1 s (EvDeleted m)
   in \<exists>r. st_byId s' ''chm:a'' = Some r \<and> msg_text r = []"
proof -
  let ?s = "run applyChannelEventV1 (initialChannelReducerState ''c'') [EvCreated (sample_row ''chm:a'' 1 StComplete ''x'')]"
  have inv: "timeline_inv ?s"
    by (rule channel.run_inv [OF timeline_inv_initial]) (simp add: event_ok_def)
  have row: "st_byId ?s (msg_id (message_of_json (fld sample_delete_frame ''message''))) = Some (sample_row ''chm:a'' 1 StComplete ''x'')"
    by (simp add: sample_delete_frame_ok reducer_evals)
  from deletion_frame_clears_row [OF sample_delete_frame_ok(1,2) refl inv row _ _ refl]
  show ?thesis by (simp add: sample_delete_frame_ok Let_def)
qed

section \<open>Search snippets\<close>

text \<open>The marked text of a list of segments, and the segment lists the splitter returns: no empty
  segment, no sentinel inside one, and no two plain segments in a row.\<close>

definition mark_segments :: "(code_units \<times> bool) list \<Rightarrow> code_units" where
  "mark_segments segs = concat (map (\<lambda>(t, hl). if hl then highlight_open # t @ [highlight_close] else t) segs)"

fun segments_ok :: "(code_units \<times> bool) list \<Rightarrow> bool" where
  "segments_ok [] = True"
| "segments_ok ((t, hl) # segs) \<longleftrightarrow> t \<noteq> [] \<and> highlight_open \<notin> set t \<and> highlight_close \<notin> set t \<and>
     (hl \<or> segs = [] \<or> snd (hd segs)) \<and> segments_ok segs"

lemma parse_marked:
  assumes "highlight_open \<notin> set p" and "highlight_close \<notin> set t" and "t \<noteq> []"
  shows "parseChannelSearchSnippet (p @ highlight_open # t @ highlight_close # rest) =
    (if p \<noteq> [] then [(p, False)] else []) @ (t, True) # parseChannelSearchSnippet rest"
proof -
  let ?w = "p @ highlight_open # t @ highlight_close # rest"
  have "index_of highlight_open ?w = Some (length p)" using assms(1) by (rule index_of_append)
  moreover have "index_of highlight_close (drop (length p + 1) ?w) = Some (length t)"
    using assms(2) by (simp add: index_of_append)
  ultimately show ?thesis using parse_pair [of ?w "length p" "length t"] assms(3) by simp
qed

text \<open>Splitting a marked snippet returns the segments it was marked from, and every
  snippet, balanced or not, is split without losing or adding an unmarked character and without an
  empty segment.\<close>

theorem snippet_round_trip:
  assumes "segments_ok segs"
  shows "parseChannelSearchSnippet (mark_segments segs) = segs \<and>
    plain_units (segment_text (parseChannelSearchSnippet w)) = plain_units w \<and>
    list_all (\<lambda>seg. fst seg \<noteq> []) (parseChannelSearchSnippet w)"
proof -
  have "parseChannelSearchSnippet (mark_segments segs) = segs"
    using assms
  proof (induction segs rule: length_induct)
    case (1 segs)
    show ?case
    proof (cases segs)
      case Nil
      then show ?thesis by (simp add: mark_segments_def parseChannelSearchSnippet.simps)
    next
      case (Cons a rest)
      obtain t hl where a: "a = (t, hl)" by force
      show ?thesis
      proof (cases hl)
        case True
        with Cons a 1 have "parseChannelSearchSnippet (mark_segments rest) = rest" by simp
        then show ?thesis
          using parse_marked [of "[]" t "mark_segments rest"] 1(2) True Cons a by (simp add: mark_segments_def)
      next
        case plain: False
        show ?thesis
        proof (cases rest)
          case Nil
          have "index_of highlight_open t = None" using 1(2) Cons a by (simp add: index_of_None)
          then show ?thesis using 1(2) Cons a plain Nil
            by (simp add: mark_segments_def parseChannelSearchSnippet.simps [of t])
        next
          case next_seg: (Cons b more)
          obtain u where b: "b = (u, True)" using 1(2) Cons a plain next_seg by (cases b) auto
          have "parseChannelSearchSnippet (mark_segments more) = more"
            using 1 Cons a next_seg b by simp
          then show ?thesis
            using parse_marked [of t u "mark_segments more"] 1(2) Cons a b plain next_seg
            by (simp add: mark_segments_def)
        qed
      qed
    qed
  qed
  then show ?thesis by (simp add: parse_keeps_text parse_nonempty_segments list_all_iff)
qed

theorem snippet_round_trip_witness:
  "parseChannelSearchSnippet (mark_segments [([1], False), ([2, 3], True), ([4], True)]) = [([1], False), ([2, 3], True), ([4], True)]"
  using snippet_round_trip [of "[([1], False), ([2, 3], True), ([4], True)]"]
  by (simp add: highlight_open_def highlight_close_def)

section \<open>Turn ids and filters\<close>

text \<open>The retry target read from a turn id is right: the message id read back from the turn id of
  a prefixed message is that message, and a turn id that yields a message id for a profile is the turn
  id of exactly that message and profile, so no turn id names two trigger messages.\<close>

theorem turn_id_round_trip:
  assumes "starts_with t ''chm:''" and "length t > 4"
  shows "triggerMessageIdFromTurnId (channelTurnId t p) p = Some t \<and>
    (\<forall>turn u. triggerMessageIdFromTurnId turn p = Some u \<longrightarrow> turn = channelTurnId u p)"
  using trigger_of_turn_id [OF assms(1)] assms(2) trigger_from_turn_id_sound by simp

theorem turn_id_round_trip_witness:
  "triggerMessageIdFromTurnId (channelTurnId ''chm:1'' ''claude-a'') ''claude-a'' = Some ''chm:1''"
  using turn_id_round_trip [of "''chm:1''" "''claude-a''"] by (simp add: starts_with_def)

end
