(* ===== verification/Agent_Profile.thy ===== *)
theory Agent_Profile
  imports Relay_Prelude
begin

text \<open>
  Agent profiles (\<open>shared/agent-profile.ts\<close>): profile ids, the normalisation of mention tokens, the
  resolution of a mention to one profile, the tokens that tell profiles of one display name apart,
  the read-time shim for historical senders, and the guards of a stored profile.

  The two scans of \<open>resolveProfileForMention\<close> are instances of the interface \<open>preference\<close>:
  the vendor alias keeps the profile of least rank (default, built-in, id), the named scan puts the
  length of the name before that rank. What the resolver returns is therefore the least candidate,
  in whatever order the contacts are listed.
\<close>

section \<open>Contacts\<close>

record contact =
  ct_id :: string
  ct_providerId :: string
  ct_displayName :: string
  ct_isDefault :: bool
  ct_isBuiltIn :: bool

definition agent_profile_id_prefix :: string where
  "agent_profile_id_prefix = ''agent-profile:''"

definition builtInAgentProfileId :: "string \<Rightarrow> string" where
  "builtInAgentProfileId providerId = agent_profile_id_prefix @ providerId @ '':default''"

text \<open>\<open>s.split(':')[0]\<close> is what stands before the first colon.\<close>

definition parseAgentProfileProviderId :: "string \<Rightarrow> string option" where
  "parseAgentProfileProviderId profileActorId =
     (if \<not> starts_with profileActorId agent_profile_id_prefix then None
      else
        let vendor = takeWhile (\<lambda>c. c \<noteq> CHR '':'') (drop (length agent_profile_id_prefix) profileActorId) in
        if vendor \<noteq> [] then Some vendor else None)"

text \<open>\<open>s.replace(/\s+/g, ' ')\<close>\<close>

declare length_dropWhile_le [termination_simp]

fun collapse_ws :: "string \<Rightarrow> string" where
  "collapse_ws [] = []"
| "collapse_ws (c # s) =
     (if is_ws c then CHR '' '' # collapse_ws (dropWhile is_ws s) else c # collapse_ws s)"

definition normalizeMentionToken :: "string \<Rightarrow> string" where
  "normalizeMentionToken token =
     trim (collapse_ws (to_lower (dropWhile (\<lambda>c. c = CHR ''@'') token)))"

definition preferProfile :: "contact \<Rightarrow> contact \<Rightarrow> contact" where
  "preferProfile a b =
     (if ct_isDefault a \<noteq> ct_isDefault b then (if ct_isDefault a then a else b)
      else if ct_isBuiltIn a \<noteq> ct_isBuiltIn b then (if ct_isBuiltIn a then a else b)
      else if ct_id a \<le> ct_id b then a else b)"

definition vendorDefaultFor :: "string \<Rightarrow> contact list \<Rightarrow> contact option" where
  "vendorDefaultFor target contactSet =
     foldl (\<lambda>acc profile.
         if ct_isDefault profile \<and> to_lower (ct_providerId profile) = target
         then Some (case acc of None \<Rightarrow> profile | Some a \<Rightarrow> preferProfile a profile)
         else acc) None contactSet"

definition name_matches :: "string \<Rightarrow> contact \<Rightarrow> bool" where
  "name_matches norm profile =
     (let name = normalizeMentionToken (ct_displayName profile) in
      name \<noteq> [] \<and> (norm = name \<or> starts_with norm (name @ '' '')))"

definition namedScan :: "string \<Rightarrow> contact option \<times> int \<Rightarrow> contact \<Rightarrow> contact option \<times> int" where
  "namedScan norm acc profile =
     (case acc of (best, bestLen) \<Rightarrow>
        let name = normalizeMentionToken (ct_displayName profile) in
        if name = [] then acc
        else if \<not> (norm = name \<or> starts_with norm (name @ '' '')) then acc
        else if int (length name) > bestLen then (Some profile, int (length name))
        else if int (length name) = bestLen then
          (case best of None \<Rightarrow> acc | Some b \<Rightarrow> (Some (preferProfile b profile), bestLen))
        else acc)"

definition resolveProfileForMention :: "string \<Rightarrow> contact list \<Rightarrow> contact option" where
  "resolveProfileForMention token contactSet =
     (let norm = normalizeMentionToken token in
      if norm = [] then None
      else case vendorDefaultFor norm contactSet of
        Some p \<Rightarrow> Some p
      | None \<Rightarrow> fst (foldl (namedScan norm) (None, -1) contactSet))"

section \<open>Disambiguators\<close>

definition alnumId :: "string \<Rightarrow> string" where
  "alnumId i = to_lower (filter is_alnum i)"

text \<open>\<open>s.slice(-n)\<close> for \<open>n > 0\<close>\<close>

definition tail_slice :: "nat \<Rightarrow> string \<Rightarrow> string" where
  "tail_slice n s = drop (length s - n) s"

definition name_groups :: "contact list \<Rightarrow> (string, contact list) jsmap" where
  "name_groups contacts =
     foldl (\<lambda>groups contact.
         let name = normalizeMentionToken (ct_displayName contact) in
         if name = [] then groups
         else case jm_get groups name of
           Some bucket \<Rightarrow> jm_set groups name (bucket @ [contact])
         | None \<Rightarrow> jm_set groups name [contact]) [] contacts"

text \<open>The loop over the slice length: it stops at the first length that tells the members apart, or
  one past the longest id.\<close>

function slice_length :: "contact list \<Rightarrow> nat \<Rightarrow> nat \<Rightarrow> nat" where
  "slice_length bucket maxLen len =
     (if len \<le> maxLen \<and> \<not> distinct (map (\<lambda>c. tail_slice len (alnumId (ct_id c))) bucket)
      then slice_length bucket maxLen (len + 1) else len)"
  by pat_completeness auto
termination
  by (relation "measure (\<lambda>(bucket, maxLen, len). Suc maxLen - len)") auto

declare slice_length.simps [simp del]

definition bucket_max_length :: "contact list \<Rightarrow> nat" where
  "bucket_max_length bucket = foldl max 6 (map (\<lambda>c. length (alnumId (ct_id c))) bucket)"

definition bucket_tokens :: "contact list \<Rightarrow> (string, string) jsmap \<Rightarrow> (string, string) jsmap" where
  "bucket_tokens bucket tokens =
     (if length bucket < 2 then tokens
      else
        let len = slice_length bucket (bucket_max_length bucket) 6 in
        foldl (\<lambda>ts c. jm_set ts (ct_id c) (tail_slice len (alnumId (ct_id c)))) tokens bucket)"

definition computeMentionDisambiguators :: "contact list \<Rightarrow> (string, string) jsmap" where
  "computeMentionDisambiguators contacts =
     foldl (\<lambda>tokens bucket. bucket_tokens bucket tokens) [] (jm_values (name_groups contacts))"

section \<open>Historical senders\<close>

definition parseHistoricalAgentSenderProviderId :: "string \<Rightarrow> string option" where
  "parseHistoricalAgentSenderProviderId senderId =
     (if \<not> starts_with senderId ''agent:'' then None
      else
        let rest = drop (length ''agent:'') senderId in
        if rest = [] \<or> CHR '':'' \<in> set rest \<or> CHR ''/'' \<in> set rest then None else Some rest)"

definition resolveHistoricalAgentSenderProfileId :: "string \<Rightarrow> contact list \<Rightarrow> string option" where
  "resolveHistoricalAgentSenderProfileId senderId contactSet =
     (case parseHistoricalAgentSenderProviderId senderId of
        None \<Rightarrow> None
      | Some providerId \<Rightarrow> map_option ct_id (vendorDefaultFor (to_lower providerId) contactSet))"

section \<open>Stored profiles\<close>

text \<open>\<open>/^[A-Za-z0-9._-]{1,64}$/\<close> and \<open>/^[\x21-\x7e]{1,4096}$/\<close>\<close>

definition hermes_profile_pattern :: "string \<Rightarrow> bool" where
  "hermes_profile_pattern s \<longleftrightarrow> 1 \<le> length s \<and> length s \<le> 64 \<and>
     list_all (\<lambda>c. is_alnum c \<or> c \<in> {CHR ''.'', CHR ''_'', CHR ''-''}) s"

definition isValidHermesProfile :: "json \<Rightarrow> bool" where
  "isValidHermesProfile v =
     (case v of JStr s \<Rightarrow> if s = ''.'' \<or> s = ''..'' then False else hermes_profile_pattern s | _ \<Rightarrow> False)"

definition isValidHermesApiKey :: "json \<Rightarrow> bool" where
  "isValidHermesApiKey v =
     str_sat (\<lambda>s. 1 \<le> length s \<and> length s \<le> 4096 \<and>
       list_all (\<lambda>c. 33 \<le> (of_char c :: nat) \<and> (of_char c :: nat) \<le> 126) s) v"

definition agent_profile_secret_key :: string where
  "agent_profile_secret_key = ''hermesApiKey''"

definition opt_str_arr :: "json \<Rightarrow> bool" where
  "opt_str_arr v = opt_sat (arr_sat (list_all is_str)) v"

definition isAgentProfile :: "json \<Rightarrow> bool" where
  "isAgentProfile v \<longleftrightarrow>
     is_record v \<and>
     str_sat (\<lambda>s. length s > 0) (fld v ''id'') \<and> str_sat (\<lambda>s. length s > 0) (fld v ''providerId'') \<and>
     is_str (fld v ''displayName'') \<and>
     null_sat (\<lambda>a. is_str (fld a ''id'')) (fld v ''avatar'') \<and>
     opt_sat is_str (fld v ''systemPrompt'') \<and> opt_sat is_str (fld v ''model'') \<and>
     opt_sat is_str (fld v ''provider'') \<and> opt_sat is_str (fld v ''effort'') \<and>
     opt_sat (\<lambda>e. case e of JObj kvs \<Rightarrow> list_all (is_str \<circ> snd) kvs | _ \<Rightarrow> False) (fld v ''envVars'') \<and>
     opt_sat isValidHermesProfile (fld v ''hermesProfile'') \<and>
     fld v agent_profile_secret_key = JUndef \<and>
     opt_sat is_bool (fld v ''hermesApiKeySet'') \<and>
     opt_str_arr (fld v ''namePool'') \<and>
     opt_sat (str_sat (\<lambda>s. s \<in> {''owner-only'', ''allowlist'', ''anyone''})) (fld v ''respondTo'') \<and>
     opt_str_arr (fld v ''respondToAllowlist'') \<and>
     is_bool (fld v ''isDefault'') \<and> is_bool (fld v ''isBuiltIn'')"

section \<open>Resolution as a choice of least rank\<close>

definition contact_rank :: "contact \<Rightarrow> bool \<times> bool \<times> string" where
  "contact_rank c = (\<not> ct_isDefault c, \<not> ct_isBuiltIn c, ct_id c)"

abbreviation contact_name :: "contact \<Rightarrow> string" where
  "contact_name c \<equiv> normalizeMentionToken (ct_displayName c)"

definition named_rank :: "contact \<Rightarrow> int \<times> bool \<times> bool \<times> string" where
  "named_rank c = (- int (length (contact_name c)), contact_rank c)"

definition named_pref :: "contact \<Rightarrow> contact \<Rightarrow> contact" where
  "named_pref a b =
     (if length (contact_name b) > length (contact_name a) then b
      else if length (contact_name b) = length (contact_name a) then preferProfile a b else a)"

interpretation vendor: preference preferProfile contact_rank
  by unfold_locales (auto simp: preferProfile_def contact_rank_def)

interpretation named: preference named_pref named_rank
  by unfold_locales (auto simp: named_pref_def named_rank_def vendor.pref_rank)

lemma contact_rank_id: "contact_rank a = contact_rank b \<Longrightarrow> ct_id a = ct_id b"
  by (simp add: contact_rank_def)

lemma inj_on_ranks:
  assumes "inj_on ct_id A"
  shows "inj_on contact_rank A" and "inj_on named_rank A"
  using assms by (auto simp: inj_on_def contact_rank_def named_rank_def)

lemma vendorDefaultFor_pick:
  "vendorDefaultFor target cs =
    pick preferProfile None (filter (\<lambda>p. ct_isDefault p \<and> to_lower (ct_providerId p) = target) cs)"
  unfolding vendorDefaultFor_def by (rule pick_filter)

lemma namedScan_step:
  "namedScan norm (map_option id b, n) p =
    (if name_matches norm p then
       (if int (length (contact_name p)) > n then (Some p, int (length (contact_name p)))
        else if int (length (contact_name p)) = n then
          (case b of None \<Rightarrow> (b, n) | Some x \<Rightarrow> (Some (preferProfile x p), n))
        else (b, n))
     else (b, n))"
  by (auto simp: namedScan_def name_matches_def Let_def option.map_id split: option.splits)

definition scan_state :: "contact option \<Rightarrow> contact option \<times> int" where
  "scan_state b = (b, case b of None \<Rightarrow> -1 | Some x \<Rightarrow> int (length (contact_name x)))"

lemma namedScan_scan_state:
  "namedScan norm (scan_state b) p =
    scan_state (if name_matches norm p
      then Some (case b of None \<Rightarrow> p | Some x \<Rightarrow> named_pref x p) else b)"
proof -
  have "name_matches norm p \<Longrightarrow> \<not> int (length (contact_name p)) = -1" by simp
  moreover have "length (contact_name (preferProfile x p)) = length (contact_name x)"
    if "length (contact_name p) = length (contact_name x)" for x
    using that by (auto simp: preferProfile_def)
  ultimately show ?thesis
    using namedScan_step [of norm b _ p, unfolded option.map_id id_apply]
    by (cases b) (auto simp: scan_state_def named_pref_def)
qed

lemma named_scan_pick:
  "fst (foldl (namedScan norm) (None, -1) cs) = pick named_pref None (filter (name_matches norm) cs)"
proof -
  have "foldl (namedScan norm) (scan_state b) cs = scan_state (pick named_pref b (filter (name_matches norm) cs))" for b
    by (induction cs arbitrary: b) (simp_all add: namedScan_scan_state)
  from this [of None] show ?thesis by (simp add: scan_state_def)
qed

lemma resolve_pick:
  "resolveProfileForMention token cs =
    (let norm = normalizeMentionToken token in
     if norm = [] then None
     else case vendorDefaultFor norm cs of Some p \<Rightarrow> Some p
       | None \<Rightarrow> pick named_pref None (filter (name_matches norm) cs))"
  unfolding resolveProfileForMention_def named_scan_pick ..

lemma resolve_vendor:
  assumes "vendorDefaultFor (normalizeMentionToken token) cs = Some p" and "normalizeMentionToken token \<noteq> []"
  shows "resolveProfileForMention token cs = Some p"
  using assms by (simp add: resolve_pick Let_def)

lemma vendorDefaultFor_least:
  assumes "vendorDefaultFor target cs = Some p"
  shows "p \<in> set cs \<and> ct_isDefault p \<and> to_lower (ct_providerId p) = target"
    and "q \<in> set cs \<Longrightarrow> ct_isDefault q \<Longrightarrow> to_lower (ct_providerId q) = target \<Longrightarrow> contact_rank p \<le> contact_rank q"
  using vendor.pick_least [OF assms [unfolded vendorDefaultFor_pick]] by auto

lemma vendorDefaultFor_None:
  "vendorDefaultFor target cs = None \<longleftrightarrow> (\<forall>q\<in>set cs. \<not> (ct_isDefault q \<and> to_lower (ct_providerId q) = target))"
  by (simp add: vendorDefaultFor_pick vendor.pick_None filter_empty_conv)

lemma resolve_in_contacts: "resolveProfileForMention token cs = Some p \<Longrightarrow> p \<in> set cs"
proof (cases "vendorDefaultFor (normalizeMentionToken token) cs")
  case None
  assume "resolveProfileForMention token cs = Some p"
  with None have "pick named_pref None (filter (name_matches (normalizeMentionToken token)) cs) = Some p"
    by (simp add: resolve_pick Let_def split: if_splits)
  from named.pick_least [OF this] show ?thesis by simp
next
  case (Some q)
  assume "resolveProfileForMention token cs = Some p"
  with Some have "p = q" by (simp add: resolve_pick Let_def split: if_splits)
  with vendorDefaultFor_least(1) [OF Some] show ?thesis by simp
qed

text \<open>Which profile a mention names does not depend on the order of the contact list: two lists
  with the same contacts, no id twice, resolve every token, and every historical sender, to the same
  profile.\<close>

theorem mention_resolution_order_independent:
  assumes "set cs = set ds" and "inj_on ct_id (set cs)"
  shows "resolveProfileForMention token cs = resolveProfileForMention token ds \<and>
    resolveHistoricalAgentSenderProfileId sender cs = resolveHistoricalAgentSenderProfileId sender ds"
proof -
  have v: "vendorDefaultFor t cs = vendorDefaultFor t ds" for t
    unfolding vendorDefaultFor_pick
    by (rule vendor.pick_set) (auto simp: assms(1) intro: inj_on_subset [OF inj_on_ranks(1) [OF assms(2)]])
  have n: "pick named_pref None (filter P cs) = pick named_pref None (filter P ds)" for P
    by (rule named.pick_set) (auto simp: assms(1) intro: inj_on_subset [OF inj_on_ranks(2) [OF assms(2)]])
  show ?thesis
    unfolding resolve_pick resolveHistoricalAgentSenderProfileId_def v n by simp
qed

definition sample_contact :: "string \<Rightarrow> string \<Rightarrow> string \<Rightarrow> bool \<Rightarrow> contact" where
  "sample_contact i prov name dflt =
     \<lparr>ct_id = i, ct_providerId = prov, ct_displayName = name, ct_isDefault = dflt, ct_isBuiltIn = dflt\<rparr>"

theorem mention_resolution_order_independent_witness:
  "let a = sample_contact ''p1'' ''claude'' ''Backend Claude'' False; b = sample_contact ''p2'' ''claude'' ''Backend'' False
   in resolveProfileForMention ''@backend claude'' [a, b] = resolveProfileForMention ''@backend claude'' [b, a]"
  using mention_resolution_order_independent [of "[sample_contact ''p1'' ''claude'' ''Backend Claude'' False,
      sample_contact ''p2'' ''claude'' ''Backend'' False]" "[sample_contact ''p2'' ''claude'' ''Backend'' False,
      sample_contact ''p1'' ''claude'' ''Backend Claude'' False]" "''@backend claude''"]
  by (simp add: Let_def inj_on_def sample_contact_def insert_commute)

text \<open>The resolver is exact. A token that normalises to the vendor id of a default profile gives
  the best default of that vendor, whatever the display names; otherwise the profile has a non-empty
  name that is the token or a prefix of it at a word boundary, and no matching name is longer; and
  there is no answer exactly when the token is empty or nothing matches.\<close>

theorem mention_resolution_correct:
  "(case resolveProfileForMention token cs of
      None \<Rightarrow> normalizeMentionToken token = [] \<or>
        \<not> list_ex (\<lambda>q. ct_isDefault q \<and> to_lower (ct_providerId q) = normalizeMentionToken token \<or>
              name_matches (normalizeMentionToken token) q) cs
    | Some p \<Rightarrow> normalizeMentionToken token \<noteq> [] \<and> p \<in> set cs \<and>
        (if list_ex (\<lambda>q. ct_isDefault q \<and> to_lower (ct_providerId q) = normalizeMentionToken token) cs
         then ct_isDefault p \<and> to_lower (ct_providerId p) = normalizeMentionToken token \<and>
           list_all (\<lambda>q. ct_isDefault q \<and> to_lower (ct_providerId q) = normalizeMentionToken token \<longrightarrow>
             contact_rank p \<le> contact_rank q) cs
         else name_matches (normalizeMentionToken token) p \<and>
           list_all (\<lambda>q. \<not> name_matches (normalizeMentionToken token) q \<or>
             length (contact_name q) < length (contact_name p) \<or>
             length (contact_name q) = length (contact_name p) \<and> contact_rank p \<le> contact_rank q) cs))"
proof (cases "normalizeMentionToken token = []")
  case True
  then show ?thesis by (simp add: resolve_pick)
next
  case ne: False
  let ?norm = "normalizeMentionToken token"
  show ?thesis
  proof (cases "vendorDefaultFor ?norm cs")
    case (Some p)
    then show ?thesis
      using resolve_vendor [OF Some ne] ne vendorDefaultFor_least [OF Some] by (auto simp: list_ex_iff list_all_iff)
  next
    case None
    then have none: "\<not> list_ex (\<lambda>q. ct_isDefault q \<and> to_lower (ct_providerId q) = ?norm) cs"
      by (auto simp: vendorDefaultFor_None list_ex_iff)
    have res: "resolveProfileForMention token cs = pick named_pref None (filter (name_matches ?norm) cs)"
      using ne None by (simp add: resolve_pick Let_def)
    show ?thesis
    proof (cases "resolveProfileForMention token cs")
      case None
      then have "filter (name_matches ?norm) cs = []" unfolding res named.pick_None .
      with None none show ?thesis by (auto simp: filter_empty_conv list_ex_iff)
    next
      case (Some p)
      from named.pick_least [OF Some [unfolded res]]
      have "p \<in> set cs" "name_matches ?norm p"
        "\<forall>q\<in>set cs. name_matches ?norm q \<longrightarrow> named_rank p \<le> named_rank q" by auto
      with Some none ne show ?thesis
        by (auto simp: list_all_iff named_rank_def)
    qed
  qed
qed

theorem mention_resolution_correct_witness:
  "let a = sample_contact ''p1'' ''claude'' ''Backend Claude'' False; b = sample_contact ''p2'' ''claude'' ''Backend'' False
   in resolveProfileForMention ''@backend claude'' [b, a] = Some a \<and> name_matches ''backend claude'' a"
proof -
  let ?a = "sample_contact ''p1'' ''claude'' ''Backend Claude'' False"
  let ?b = "sample_contact ''p2'' ''claude'' ''Backend'' False"
  have r: "resolveProfileForMention ''@backend claude'' [?b, ?a] = Some ?a" by code_simp
  have n: "normalizeMentionToken ''@backend claude'' = ''backend claude''" by code_simp
  have d: "\<not> list_ex (\<lambda>q. ct_isDefault q \<and> to_lower (ct_providerId q) = ''backend claude'') [?b, ?a]"
    by (simp add: sample_contact_def)
  from mention_resolution_correct [of "''@backend claude''" "[?b, ?a]", unfolded r n] d r show ?thesis
    by (simp add: Let_def)
qed

section \<open>Disambiguators tell colliding names apart\<close>

lemma tail_slice_all: "length s \<le> n \<Longrightarrow> tail_slice n s = s"
  by (simp add: tail_slice_def)

lemma slice_length_stops:
  "slice_length b M l \<le> M \<Longrightarrow> distinct (map (\<lambda>c. tail_slice (slice_length b M l) (alnumId (ct_id c))) b)"
proof (induction b M l rule: slice_length.induct)
  case (1 b M l)
  then show ?case by (subst (asm) (2) slice_length.simps, subst slice_length.simps) (auto split: if_splits)
qed

lemma foldl_max_ge: "(a :: nat) \<le> foldl max a xs \<and> (\<forall>x\<in>set xs. x \<le> foldl max a xs)"
proof (induction xs arbitrary: a)
  case (Cons x xs)
  from Cons.IH [of "max a x"] show ?case by auto
qed simp

lemma bucket_max_length_ge: "c \<in> set b \<Longrightarrow> length (alnumId (ct_id c)) \<le> bucket_max_length b"
  unfolding bucket_max_length_def using foldl_max_ge [of 6 "map (\<lambda>c. length (alnumId (ct_id c))) b"] by auto

definition bucket_token :: "contact list \<Rightarrow> string \<Rightarrow> string" where
  "bucket_token b i = tail_slice (slice_length b (bucket_max_length b) 6) (alnumId i)"

lemma bucket_token_inj:
  assumes "distinct (map (alnumId \<circ> ct_id) b)"
  shows "distinct (map (bucket_token b \<circ> ct_id) b)"
proof (cases "slice_length b (bucket_max_length b) 6 \<le> bucket_max_length b")
  case True
  from slice_length_stops [OF this] show ?thesis by (simp add: bucket_token_def comp_def)
next
  case False
  then have "bucket_token b (ct_id c) = alnumId (ct_id c)" if "c \<in> set b" for c
    using bucket_max_length_ge [OF that] by (simp add: bucket_token_def tail_slice_all)
  then have "map (bucket_token b \<circ> ct_id) b = map (alnumId \<circ> ct_id) b" by simp
  with assms show ?thesis by (simp only:)
qed

lemma jm_get_foldl_tokens:
  "jm_get (foldl (\<lambda>ts c. jm_set ts (k c) (g (k c))) ts b) i =
    (if i \<in> k ` set b then Some (g i) else jm_get ts i)"
  by (induction b arbitrary: ts) (auto simp: jm_get_def map_of_jm_set)

lemma jm_get_bucket_tokens:
  "jm_get (bucket_tokens b ts) i =
    (if 2 \<le> length b \<and> i \<in> ct_id ` set b then Some (bucket_token b i) else jm_get ts i)"
  by (simp add: bucket_tokens_def bucket_token_def Let_def not_less
      jm_get_foldl_tokens [of ct_id "\<lambda>i. tail_slice _ (alnumId i)"])

lemma jm_get_all_tokens:
  assumes "\<forall>b'\<in>set bs. i \<in> ct_id ` set b' \<longrightarrow> b' = b" and "2 \<le> length b" and "i \<in> ct_id ` set b"
    and "b \<in> set bs \<or> jm_get ts i = Some (bucket_token b i)"
  shows "jm_get (foldl (\<lambda>tokens bucket. bucket_tokens bucket tokens) ts bs) i = Some (bucket_token b i)"
  using assms
proof (induction bs arbitrary: ts)
  case (Cons b' bs)
  have "b \<in> set bs \<or> jm_get (bucket_tokens b' ts) i = Some (bucket_token b i)"
    using Cons.prems by (auto simp: jm_get_bucket_tokens)
  with Cons show ?case by simp
qed simp

lemma name_groups_get:
  "jm_wf (name_groups cs) \<and> (\<forall>n. jm_get (name_groups cs) n =
    (let b = filter (\<lambda>c. contact_name c = n) cs in if n = [] \<or> b = [] then None else Some b))"
proof (induction cs rule: rev_induct)
  case Nil
  then show ?case by (simp add: name_groups_def jm_get_def jm_wf_def Let_def)
next
  case (snoc c cs)
  let ?g = "name_groups cs" and ?n = "contact_name c"
  have step: "name_groups (cs @ [c]) =
    (if ?n = [] then ?g else jm_set ?g ?n ((case jm_get ?g ?n of Some b \<Rightarrow> b | None \<Rightarrow> []) @ [c]))"
    by (simp add: name_groups_def Let_def split: option.split)
  from snoc have "(case jm_get ?g ?n of Some b \<Rightarrow> b | None \<Rightarrow> []) = filter (\<lambda>d. contact_name d = ?n) cs"
    if "?n \<noteq> []" using that by (simp add: Let_def)
  with snoc step show ?case
    by (auto simp: Let_def jm.get_set jm_wf_set)
qed

lemma bucket_in_groups:
  "b \<in> set (jm_values (name_groups cs)) \<longleftrightarrow>
    (\<exists>n. n \<noteq> [] \<and> b = filter (\<lambda>c. contact_name c = n) cs \<and> b \<noteq> [])"
proof -
  have "b \<in> set (jm_values (name_groups cs)) \<longleftrightarrow> (\<exists>n. jm_get (name_groups cs) n = Some b)"
    using name_groups_get [of cs, THEN conjunct1] unfolding jm_values_def jm_get_def jm_wf_def
    by (auto simp: image_iff) (metis map_of_SomeD snd_conv)
  also have "\<dots> \<longleftrightarrow> (\<exists>n. n \<noteq> [] \<and> b = filter (\<lambda>c. contact_name c = n) cs \<and> b \<noteq> [])"
    using name_groups_get [of cs] by (auto simp: Let_def split: if_splits)
  finally show ?thesis .
qed

lemma disambiguator_of:
  assumes "distinct (map ct_id cs)" and "n \<noteq> []" and "b = filter (\<lambda>c. contact_name c = n) cs"
    and "2 \<le> length b" and "c \<in> set b"
  shows "jm_get (computeMentionDisambiguators cs) (ct_id c) = Some (bucket_token b (ct_id c))"
  unfolding computeMentionDisambiguators_def
proof (rule jm_get_all_tokens)
  show "\<forall>b'\<in>set (jm_values (name_groups cs)). ct_id c \<in> ct_id ` set b' \<longrightarrow> b' = b"
  proof (intro ballI impI)
    fix b' assume "b' \<in> set (jm_values (name_groups cs))" and c: "ct_id c \<in> ct_id ` set b'"
    then obtain n' where b': "b' = filter (\<lambda>c. contact_name c = n') cs" by (auto simp: bucket_in_groups)
    from c obtain d where d: "d \<in> set b'" "ct_id d = ct_id c" by auto
    with b' assms(1,3,5) have "d = c" by (auto simp: distinct_map dest: inj_onD)
    with d b' assms(3,5) show "b' = b" by auto
  qed
  have "b \<noteq> []" using assms(4) by auto
  then show "b \<in> set (jm_values (name_groups cs)) \<or> jm_get [] (ct_id c) = Some (bucket_token b (ct_id c))"
    using assms(2,3) unfolding bucket_in_groups by blast
qed (use assms(4,5) in auto)

text \<open>Profiles that share a display name each get a token, and when their ids differ in more than
  case and punctuation no two of them get the same one.\<close>

theorem disambiguators_unique:
  assumes "distinct (map ct_id cs)" and "n \<noteq> []" and "grp = filter (\<lambda>c. contact_name c = n) cs"
    and "2 \<le> length grp" and "distinct (map (alnumId \<circ> ct_id) grp)"
  shows "\<exists>tokens. map (\<lambda>c. jm_get (computeMentionDisambiguators cs) (ct_id c)) grp = map Some tokens \<and> distinct tokens"
proof -
  have "map (\<lambda>c. jm_get (computeMentionDisambiguators cs) (ct_id c)) grp = map Some (map (bucket_token grp \<circ> ct_id) grp)"
    using disambiguator_of [OF assms(1-4)] by simp
  with bucket_token_inj [OF assms(5)] show ?thesis by blast
qed

theorem disambiguators_unique_witness:
  "\<exists>tokens. map (\<lambda>c. jm_get (computeMentionDisambiguators
       [sample_contact ''p:abc123456'' ''claude'' ''Rev'' False, sample_contact ''p:xyz123456'' ''codex'' ''rev'' False]) (ct_id c))
       [sample_contact ''p:abc123456'' ''claude'' ''Rev'' False, sample_contact ''p:xyz123456'' ''codex'' ''rev'' False]
     = map Some tokens \<and> distinct tokens"
  by (rule disambiguators_unique [where n = "''rev''"]) code_simp+

text \<open>Two ids that differ only in punctuation or case get the same token, so a mention written with
  the token cannot tell the two profiles apart.\<close>

theorem disambiguators_can_collide:
  "\<exists>a b. ct_id a \<noteq> ct_id b \<and> contact_name a = contact_name b \<and>
    jm_get (computeMentionDisambiguators [a, b]) (ct_id a) = Some ''p1ab'' \<and>
    jm_get (computeMentionDisambiguators [a, b]) (ct_id b) = Some ''p1ab''"
  by (rule exI [of _ "sample_contact ''p1:a-b'' ''claude'' ''Rev'' False"],
      rule exI [of _ "sample_contact ''p1:ab'' ''claude'' ''Rev'' False"]) code_simp

text \<open>A Hermes profile that passes the guard is one safe path segment: between 1 and 64 characters,
  none of them a slash, a backslash, a percent sign or white space, and it is neither of the relative
  segments; and a stored profile that passes its guard carries such a binding or none, and no
  gateway key.\<close>

theorem stored_profile_is_safe:
  assumes "isAgentProfile v" and "fld v ''hermesProfile'' = JStr s"
  shows "1 \<le> length s \<and> length s \<le> 64 \<and> s \<noteq> ''.'' \<and> s \<noteq> ''..'' \<and>
    CHR ''/'' \<notin> set s \<and> CHR 0x5C \<notin> set s \<and> CHR ''%'' \<notin> set s \<and>
    \<not> list_ex is_ws s \<and> fld v ''hermesApiKey'' = JUndef"
proof -
  have h: "isValidHermesProfile (JStr s)" and k: "fld v ''hermesApiKey'' = JUndef"
    using assms by (auto simp: isAgentProfile_def opt_sat_def agent_profile_secret_key_def)
  have bad: "\<not> (is_alnum c \<or> c \<in> {CHR ''.'', CHR ''_'', CHR ''-''})"
    if "c = CHR ''/'' \<or> c = CHR 0x5C \<or> c = CHR ''%'' \<or> is_ws c" for c
    using that by (auto simp: js_defs Let_def)
  show ?thesis
    using h k bad unfolding isValidHermesProfile_def hermes_profile_pattern_def
    by (auto simp: list_all_iff list_ex_iff split: if_splits)
qed

theorem stored_profile_is_safe_witness:
  "let v = JObj [(''id'', JStr ''p''), (''providerId'', JStr ''hermes''), (''displayName'', JStr []), (''avatar'', JNull),
     (''hermesProfile'', JStr ''team.a''), (''isDefault'', JBool False), (''isBuiltIn'', JBool False)]
   in isAgentProfile v \<and> fld v ''hermesApiKey'' = JUndef"
proof -
  let ?v = "JObj [(''id'', JStr ''p''), (''providerId'', JStr ''hermes''), (''displayName'', JStr []), (''avatar'', JNull),
     (''hermesProfile'', JStr ''team.a''), (''isDefault'', JBool False), (''isBuiltIn'', JBool False)]"
  have ok: "isAgentProfile ?v" "fld ?v ''hermesProfile'' = JStr ''team.a''" by code_simp+
  from stored_profile_is_safe [OF ok] ok(1) show ?thesis by (simp only: Let_def simp_thms)
qed

end
