(* ===== verification/Channel_Mentions.thy ===== *)
theory Channel_Mentions
  imports Agent_Profile Channel_Types
begin

text \<open>
  The mention parser of \<open>shared/channel-chat-protocol.ts\<close> (\<open>parseMentions\<close>,
  \<open>parseMentionsWithContacts\<close>, \<open>maskCodeSpans\<close>, \<open>nameWordCount\<close>). The regular expressions are
  written as the scanners they denote: a global expression tries every position from its
  \<open>lastIndex\<close> on, and a match moves \<open>lastIndex\<close> to its end.

  The properties: masking keeps every offset; a mention is a slice of the text that starts at an
  at-sign outside code; the profile of a mention is one of the contacts and carries its provider;
  and no profile is mentioned twice.
\<close>

section \<open>Masking code\<close>

abbreviation fence :: string where
  "fence \<equiv> [CHR 0x60, CHR 0x60, CHR 0x60]"

text \<open>\<open>/```[\s\S]*?```/g\<close>: from an opening fence to the nearest closing one; without one the scan
  moves on by one character.\<close>

function mask_fences :: "string \<Rightarrow> string" where
  "mask_fences s =
     (case s of [] \<Rightarrow> []
      | c # t \<Rightarrow>
        (if starts_with s fence then
           (case find_sub fence (drop 3 s) of
              Some j \<Rightarrow> replicate (j + 6) CHR '' '' @ mask_fences (drop (j + 6) s)
            | None \<Rightarrow> c # mask_fences t)
         else c # mask_fences t))"
  by pat_completeness auto
termination
  by (relation "measure length") auto

text \<open>\<open>/`[^`]*`/g\<close>\<close>

function mask_inline :: "string \<Rightarrow> string" where
  "mask_inline s =
     (case s of [] \<Rightarrow> []
      | c # t \<Rightarrow>
        (if c = CHR 0x60 \<and> CHR 0x60 \<in> set t then
           let n = length (takeWhile (\<lambda>d. d \<noteq> CHR 0x60) t) in
           replicate (n + 2) CHR '' '' @ mask_inline (drop (n + 1) t)
         else c # mask_inline t))"
  by pat_completeness auto
termination
  by (relation "measure length") (auto simp: Let_def)

declare mask_fences.simps [simp del] mask_inline.simps [simp del]

definition maskCodeSpans :: "string \<Rightarrow> string" where
  "maskCodeSpans text = mask_inline (mask_fences text)"

section \<open>Without contacts\<close>

text \<open>The character before an at-sign that makes it part of an address: \<open>[A-Za-z0-9_.]\<close>; the
  characters of a word: \<open>[A-Za-z0-9_-]\<close>.\<close>

definition address_char :: "char \<Rightarrow> bool" where
  "address_char c \<longleftrightarrow> is_alnum c \<or> c = CHR ''_'' \<or> c = CHR ''.''"

definition word_char :: "char \<Rightarrow> bool" where
  "word_char c \<longleftrightarrow> is_alnum c \<or> c = CHR ''_'' \<or> c = CHR ''-''"

text \<open>\<open>/^[A-Za-z][A-Za-z0-9_-]*/\<close> at the head of a string\<close>

definition first_word :: "string \<Rightarrow> string option" where
  "first_word s = (case s of [] \<Rightarrow> None | c # t \<Rightarrow> if is_alpha c then Some (c # takeWhile word_char t) else None)"

text \<open>The position of the next at-sign that starts a mention, searching from \<open>i\<close>: the anchored
  alternative holds at the start of the text only.\<close>

function next_boundary :: "string \<Rightarrow> nat \<Rightarrow> nat option" where
  "next_boundary s i =
     (if i \<ge> length s then None
      else if i = 0 \<and> s ! 0 = CHR ''@'' then Some 0
      else if i + 1 < length s \<and> \<not> address_char (s ! i) \<and> s ! (i + 1) = CHR ''@'' then Some (i + 1)
      else next_boundary s (i + 1))"
  by pat_completeness auto
termination
  by (relation "measure (\<lambda>(s, i). length s - i)") auto

declare next_boundary.simps [simp del]

lemma next_boundary_bounds:
  "next_boundary s i = Some a \<Longrightarrow> i \<le> a \<and> a < length s \<and> s ! a = CHR ''@'' \<and> (a = 0 \<or> \<not> address_char (s ! (a - 1)))"
proof (induction s i rule: next_boundary.induct)
  case (1 s i)
  show ?case
  proof (cases "i \<ge> length s \<or> i = 0 \<and> s ! 0 = CHR ''@'' \<or>
      i + 1 < length s \<and> \<not> address_char (s ! i) \<and> s ! (i + 1) = CHR ''@''")
    case True
    with 1(2) show ?thesis by (subst (asm) next_boundary.simps) (auto split: if_splits)
  next
    case False
    then have "next_boundary s i = next_boundary s (i + 1)" by (subst next_boundary.simps) auto
    with 1 False show ?thesis by auto
  qed
qed

text \<open>\<open>/(^|[^A-Za-z0-9_.])@([A-Za-z][A-Za-z0-9_-]*)/g\<close>: the first boundary from \<open>i\<close> on that a name
  follows, with that name. A failed attempt at one position goes on at the next, so an at-sign
  refused here can still be the character before the next one.\<close>

definition mention_at :: "string \<Rightarrow> nat \<Rightarrow> (nat \<times> string) option" where
  "mention_at s i =
     (case (if i = 0 \<and> s ! 0 = CHR ''@'' then first_word (drop 1 s) else None) of
        Some name \<Rightarrow> Some (0, name)
      | None \<Rightarrow>
        (if i + 1 < length s \<and> \<not> address_char (s ! i) \<and> s ! (i + 1) = CHR ''@''
         then map_option (Pair (i + 1)) (first_word (drop (i + 2) s)) else None))"

function next_mention :: "string \<Rightarrow> nat \<Rightarrow> (nat \<times> string) option" where
  "next_mention s i =
     (if i \<ge> length s then None
      else case mention_at s i of Some r \<Rightarrow> Some r | None \<Rightarrow> next_mention s (i + 1))"
  by pat_completeness auto
termination
  by (relation "measure (\<lambda>(s, i). length s - i)") auto

declare next_mention.simps [simp del]

lemma mention_at_bounds:
  "mention_at s i = Some (a, name) \<Longrightarrow> i < length s \<Longrightarrow>
    i \<le> a \<and> a < length s \<and> s ! a = CHR ''@'' \<and> (a = 0 \<or> \<not> address_char (s ! (a - 1))) \<and>
    first_word (drop (a + 1) s) = Some name"
  by (auto simp: mention_at_def split: option.splits if_splits)

lemma next_mention_bounds:
  "next_mention s i = Some (a, name) \<Longrightarrow>
    i \<le> a \<and> a < length s \<and> s ! a = CHR ''@'' \<and> (a = 0 \<or> \<not> address_char (s ! (a - 1))) \<and>
    first_word (drop (a + 1) s) = Some name"
proof (induction s i rule: next_mention.induct)
  case (1 s i)
  have i: "i < length s" using 1(2) by (subst (asm) next_mention.simps) (simp split: if_splits)
  show ?case
  proof (cases "mention_at s i")
    case None
    with 1(2) i have "next_mention s (i + 1) = Some (a, name)" by (subst (asm) next_mention.simps) simp
    with 1(1) [OF _ None] i show ?thesis by auto
  next
    case (Some r)
    with 1(2) i have "r = (a, name)" by (subst (asm) next_mention.simps) simp
    with mention_at_bounds Some i show ?thesis by blast
  qed
qed

definition known_providers :: "string list \<Rightarrow> string \<Rightarrow> string option" where
  "known_providers ids = foldl (\<lambda>m i. m(to_lower i \<mapsto> i)) Map.empty ids"

function plain_mentions ::
  "(string \<Rightarrow> string option) \<Rightarrow> string \<Rightarrow> nat \<Rightarrow> string set \<Rightarrow> channel_mention list" where
  "plain_mentions known masked i seen =
     (case next_mention masked i of
        None \<Rightarrow> []
      | Some (a, name) \<Rightarrow>
          let key = to_lower name; next = a + 1 + length name in
          if key \<in> seen then plain_mentions known masked next seen
          else \<lparr>mn_raw = ''@'' @ name, mn_providerId = truthy (known key), mn_profileId = None\<rparr>
            # plain_mentions known masked next (insert key seen))"
  by pat_completeness auto
termination
  by (relation "measure (\<lambda>(known, masked, i, seen). length masked - i)")
    (auto dest!: next_mention_bounds)

declare plain_mentions.simps [simp del]

section \<open>With contacts\<close>

text \<open>\<open>norm.split(' ').length\<close>\<close>

definition nameWordCount :: "string \<Rightarrow> nat" where
  "nameWordCount displayName =
     (let norm = normalizeMentionToken displayName in
      if norm \<noteq> [] then length (filter (\<lambda>c. c = CHR '' '') norm) + 1 else 0)"

definition max_mention_words :: "contact list \<Rightarrow> nat" where
  "max_mention_words contacts = min 8 (foldl max 1 (map (\<lambda>c. nameWordCount (ct_displayName c)) contacts))"

text \<open>\<open>/^ ([A-Za-z0-9_-]+)/\<close>\<close>

definition cont_word :: "string \<Rightarrow> string option" where
  "cont_word s = (case s of c # t \<Rightarrow>
       (if c = CHR '' '' \<and> takeWhile word_char t \<noteq> [] then Some (takeWhile word_char t) else None)
     | [] \<Rightarrow> None)"

text \<open>The greedy run of further words: at most \<open>n\<close> more, each with the offset of its end.\<close>

fun more_words :: "string \<Rightarrow> nat \<Rightarrow> nat \<Rightarrow> (string \<times> nat) list" where
  "more_words masked cursor 0 = []"
| "more_words masked cursor (Suc n) =
     (case cont_word (drop cursor masked) of
        None \<Rightarrow> []
      | Some w \<Rightarrow> (w, cursor + 1 + length w) # more_words masked (cursor + 1 + length w) n)"

text \<open>\<open>/^#([A-Za-z0-9]+)/\<close> at an offset: the token in lower case and the offset of its end.\<close>

definition disamb_at :: "string \<Rightarrow> nat \<Rightarrow> (string \<times> nat) option" where
  "disamb_at masked cursor =
     (case drop cursor masked of
        c # t \<Rightarrow> (if c = CHR ''#'' \<and> takeWhile is_alnum t \<noteq> []
          then Some (to_lower (takeWhile is_alnum t), cursor + 1 + length (takeWhile is_alnum t)) else None)
      | [] \<Rightarrow> None)"

fun join_words :: "string list \<Rightarrow> string" where
  "join_words [] = []"
| "join_words [w] = w"
| "join_words (w # ws) = w @ '' '' @ join_words ws"

text \<open>Longest-exact-first: \<open>k\<close> words down to one.\<close>

fun resolve_words :: "contact list \<Rightarrow> string list \<Rightarrow> nat \<Rightarrow> (contact \<times> nat) option" where
  "resolve_words contacts ws 0 = None"
| "resolve_words contacts ws (Suc k) =
     (case resolveProfileForMention (join_words (take (Suc k) ws)) contacts of
        None \<Rightarrow> resolve_words contacts ws k
      | Some resolved \<Rightarrow>
          let n = nameWordCount (ct_displayName resolved); matchedLen = (if n \<noteq> 0 then n else 1) in
          if matchedLen \<noteq> Suc k then resolve_words contacts ws k else Some (resolved, Suc k))"

text \<open>The winner of one run of words: the end of the raw text, provider and profile.\<close>

definition mention_target ::
  "(string \<Rightarrow> string option) \<Rightarrow> contact list \<Rightarrow> (string \<times> nat) list \<Rightarrow> (string \<times> nat) option \<Rightarrow>
   nat \<times> string option \<times> string option" where
  "mention_target known contacts words disamb =
     (let texts = map fst words in
      case resolve_words contacts texts (length words) of
        None \<Rightarrow> (snd (hd words), known (to_lower (fst (hd words))), None)
      | Some (winner, consumed) \<Rightarrow>
          let plain = (snd (words ! (consumed - 1)), Some (ct_providerId winner), Some (ct_id winner)) in
          (case disamb of
             None \<Rightarrow> plain
           | Some (token, disambEnd) \<Rightarrow>
               if consumed \<noteq> length words then plain
               else
                 let nameNorm = normalizeMentionToken (join_words (take consumed texts)) in
                 (case List.find (\<lambda>c. normalizeMentionToken (ct_displayName c) = nameNorm \<and>
                      jm_get (computeMentionDisambiguators contacts) (ct_id c) = Some token) contacts of
                    None \<Rightarrow> plain
                  | Some target \<Rightarrow> (disambEnd, Some (ct_providerId target), Some (ct_id target)))))"

definition words_at :: "contact list \<Rightarrow> string \<Rightarrow> nat \<Rightarrow> string \<Rightarrow> (string \<times> nat) list" where
  "words_at contacts masked a first =
     (first, a + 1 + length first)
     # more_words masked (a + 1 + length first) (max_mention_words contacts - 1)"

lemma more_words_ends: "(w, e) \<in> set (more_words masked c n) \<Longrightarrow> c < e"
proof (induction masked c n arbitrary: w e rule: more_words.induct)
  case (2 masked c n)
  show ?case
  proof (cases "cont_word (drop c masked)")
    case (Some x)
    with 2(2) 2(1) [OF Some] show ?thesis by fastforce
  qed (use 2(2) in simp)
qed simp

lemma words_at_ends: "(w, e) \<in> set (words_at contacts masked a first) \<Longrightarrow> first \<noteq> [] \<Longrightarrow> a < e"
  by (auto simp: words_at_def dest!: more_words_ends)

lemma disamb_at_end: "disamb_at masked c = Some (t, e) \<Longrightarrow> c < e"
  by (auto simp: disamb_at_def split: list.splits if_splits)

lemma resolve_words_consumed:
  "resolve_words contacts ws k = Some (p, n) \<Longrightarrow> 1 \<le> n \<and> n \<le> k \<and> (\<exists>t. resolveProfileForMention t contacts = Some p)"
  by (induction k) (auto simp: Let_def split: option.splits if_splits)

lemma first_word_nonempty: "first_word s = Some w \<Longrightarrow> w \<noteq> []"
  by (auto simp: first_word_def split: list.splits if_splits)

abbreviation words_end :: "(string \<times> nat) list \<Rightarrow> nat" where
  "words_end words \<equiv> snd (last words)"

lemma mention_target_end:
  assumes "first_word (drop (a + 1) masked) = Some first"
    and "words = words_at contacts masked a first"
    and "mention_target known contacts words (disamb_at masked (words_end words)) = (rawEnd, prov, prof)"
  shows "a < rawEnd"
proof -
  have ne: "first \<noteq> []" using first_word_nonempty [OF assms(1)] .
  have words: "words \<noteq> []" "\<And>w. w \<in> set words \<Longrightarrow> a < snd w"
    using words_at_ends [OF _ ne, of "fst w" "snd w" contacts masked a for w] assms(2)
    by (auto simp: words_at_def)
  have nth: "a < snd (words ! (n - 1))" if "1 \<le> n" "n \<le> length words" for n
    using that words(2) by (metis One_nat_def Suc_le_D diff_Suc_1 less_eq_Suc_le nth_mem)
  have dis: "a < e" if "disamb_at masked (words_end words) = Some (t, e)" for t e
    using disamb_at_end [OF that] words(2) [of "last words"] words(1) by simp
  have res: "1 \<le> n \<and> n \<le> length words" if "resolve_words contacts (map fst words) (length words) = Some (p, n)" for p n
    using resolve_words_consumed [OF that] by simp
  have hd: "a < snd (hd words)" using words by (metis hd_in_set)
  show ?thesis
  proof (cases "resolve_words contacts (map fst words) (length words)")
    case None
    with assms(3) hd show ?thesis by (simp add: mention_target_def)
  next
    case (Some pn)
    obtain p n where pn: "pn = (p, n)" by force
    have n: "a < snd (words ! (n - 1))" using nth res Some pn by blast
    show ?thesis
    proof (cases "disamb_at masked (words_end words)")
      case None
      with assms(3) Some pn n show ?thesis by (auto simp: mention_target_def Let_def)
    next
      case (Some te)
      then have "a < snd te" using dis by (cases te) auto
      with assms(3) Some \<open>resolve_words _ _ _ = _\<close> pn n show ?thesis
        by (auto simp: mention_target_def Let_def split: if_splits option.splits prod.splits)
    qed
  qed
qed

function contact_mentions ::
  "(string \<Rightarrow> string option) \<Rightarrow> contact list \<Rightarrow> string \<Rightarrow> string \<Rightarrow> nat \<Rightarrow> string set \<Rightarrow> channel_mention list" where
  "contact_mentions known contacts text masked i seen =
     (case next_boundary masked i of
        None \<Rightarrow> []
      | Some a \<Rightarrow>
          (case first_word (drop (a + 1) masked) of
             None \<Rightarrow> contact_mentions known contacts text masked (a + 1) seen
           | Some first \<Rightarrow>
               let words = words_at contacts masked a first in
               (case mention_target known contacts words (disamb_at masked (words_end words)) of
                  (rawEnd, providerId, profileId) \<Rightarrow>
                    let raw = drop a (take rawEnd text);
                        dedupeKey = (case profileId of Some p \<Rightarrow> p | None \<Rightarrow> to_lower raw) in
                    if dedupeKey \<in> seen then contact_mentions known contacts text masked rawEnd seen
                    else \<lparr>mn_raw = raw, mn_providerId = truthy providerId, mn_profileId = truthy profileId\<rparr>
                      # contact_mentions known contacts text masked rawEnd (insert dedupeKey seen))))"
  by pat_completeness auto
termination
proof (relation "measure (\<lambda>(known, contacts, text, masked, i, seen). length masked - i)", goal_cases)
  case (2 known contacts body masked i seen a)
  then show ?case by (auto dest!: next_boundary_bounds)
next
  case 3
  have "i \<le> a \<and> a < length masked" if "next_boundary masked i = Some a" for masked i a
    using next_boundary_bounds [OF that] by simp
  from this [OF 3(1)] mention_target_end [OF 3(2,3)] show ?case
    using 3(4,5) by (metis (no_types, lifting) case_prod_conv diff_less_mono2 in_measure le_less_trans less_le_trans)
next
  case 4
  have "i \<le> a \<and> a < length masked" if "next_boundary masked i = Some a" for masked i a
    using next_boundary_bounds [OF that] by simp
  from this [OF 4(1)] mention_target_end [OF 4(2,3)] show ?case
    using 4(4,5) by (metis (no_types, lifting) case_prod_conv diff_less_mono2 in_measure le_less_trans less_le_trans)
qed simp

declare contact_mentions.simps [simp del]

definition parseMentionsWithContacts ::
  "string \<Rightarrow> string \<Rightarrow> (string \<Rightarrow> string option) \<Rightarrow> contact list \<Rightarrow> channel_mention list" where
  "parseMentionsWithContacts text masked known contacts = contact_mentions known contacts text masked 0 {}"

definition parseMentions :: "string \<Rightarrow> string list \<Rightarrow> contact list option \<Rightarrow> channel_mention list" where
  "parseMentions text knownProviderIds contacts =
     (let known = known_providers knownProviderIds; masked = maskCodeSpans text in
      case contacts of
        Some cs \<Rightarrow> if length cs > 0 then parseMentionsWithContacts text masked known cs
          else plain_mentions known masked 0 {}
      | None \<Rightarrow> plain_mentions known masked 0 {})"

section \<open>Masking keeps offsets\<close>

text \<open>A masked text agrees with the text except where it has a space.\<close>

definition masks :: "string \<Rightarrow> string \<Rightarrow> bool" where
  "masks m s \<longleftrightarrow> list_all2 (\<lambda>d c. d = c \<or> d = CHR '' '') m s"

lemma masks_blank: "length s = n \<Longrightarrow> masks (replicate n CHR '' '') s"
  by (simp add: masks_def list_all2_conv_all_nth)

lemma masks_append: "masks m s \<Longrightarrow> masks m' s' \<Longrightarrow> masks (m @ m') (s @ s')"
  by (simp add: masks_def list_all2_appendI)

lemma masks_trans: "masks a b \<Longrightarrow> masks b c \<Longrightarrow> masks a c"
  unfolding masks_def by (simp add: list_all2_conv_all_nth) metis

lemma takeWhile_short: "x \<in> set t \<Longrightarrow> length (takeWhile (\<lambda>d. d \<noteq> x) t) < length t"
  by (induction t) auto

lemma masks_fences: "masks (mask_fences s) s"
proof (induction s rule: mask_fences.induct)
  case (1 s)
  show ?case
  proof (cases s)
    case Nil
    then show ?thesis by (simp add: mask_fences.simps masks_def)
  next
    case (Cons c t)
    show ?thesis
    proof (cases "if starts_with s fence then find_sub fence (drop 3 s) else None")
      case None
      then have "mask_fences s = c # mask_fences t"
        by (subst mask_fences.simps) (auto simp: Cons split: if_splits)
      moreover have "masks (mask_fences t) t"
      proof (cases "starts_with s fence")
        case True
        with None have "find_sub fence (drop 3 s) = None" by simp
        with 1(1) [OF Cons True] show ?thesis by simp
      next
        case False
        with 1(3) Cons show ?thesis by blast
      qed
      ultimately show ?thesis by (simp add: Cons masks_def)
    next
      case (Some j)
      then have f: "starts_with s fence" "find_sub fence (drop 3 s) = Some j" by (auto split: if_splits)
      have "length (take (j + 6) s) = j + 6" using find_sub_bound [OF f(2)] f(1)
        by (auto simp: starts_with_iff)
      then have "masks (replicate (j + 6) CHR '' '' @ mask_fences (drop (j + 6) s)) (take (j + 6) s @ drop (j + 6) s)"
        using 1(2) [OF Cons f] by (intro masks_append masks_blank)
      moreover have "mask_fences s = replicate (j + 6) CHR '' '' @ mask_fences (drop (j + 6) s)"
        using f by (subst mask_fences.simps) (simp add: Cons)
      ultimately show ?thesis by simp
    qed
  qed
qed

lemma masks_inline: "masks (mask_inline s) s"
proof (induction s rule: mask_inline.induct)
  case (1 s)
  show ?case
  proof (cases s)
    case Nil
    then show ?thesis by (simp add: mask_inline.simps masks_def)
  next
    case (Cons c t)
    show ?thesis
    proof (cases "c = CHR 0x60 \<and> CHR 0x60 \<in> set t")
      case False
      then have "mask_inline s = c # mask_inline t" by (subst mask_inline.simps) (auto simp: Cons)
      with 1(2) [OF Cons False] show ?thesis by (simp add: Cons masks_def)
    next
      case True
      let ?n = "length (takeWhile (\<lambda>d. d \<noteq> CHR 0x60) t)"
      have "?n < length t" using True by (simp add: takeWhile_short)
      then have "masks (replicate (?n + 2) CHR '' '' @ mask_inline (drop (?n + 1) t))
          ((c # take (?n + 1) t) @ drop (?n + 1) t)"
        using 1(1) [OF Cons True refl] by (intro masks_append masks_blank) auto
      moreover have "mask_inline s = replicate (?n + 2) CHR '' '' @ mask_inline (drop (?n + 1) t)"
        using True by (subst mask_inline.simps) (simp add: Cons Let_def)
      ultimately show ?thesis by (simp add: Cons)
    qed
  qed
qed

lemma masks_maskCodeSpans: "masks (maskCodeSpans s) s"
  unfolding maskCodeSpans_def using masks_inline masks_fences by (rule masks_trans)

lemma length_maskCodeSpans: "length (maskCodeSpans s) = length s"
  using masks_maskCodeSpans [of s] by (simp add: masks_def list_all2_lengthD)

lemma masked_at_sign: "i < length s \<Longrightarrow> maskCodeSpans s ! i = CHR ''@'' \<Longrightarrow> s ! i = CHR ''@''"
  using masks_maskCodeSpans [of s] by (auto simp: masks_def list_all2_conv_all_nth)

section \<open>What a parsed mention is\<close>

lemma mention_target_contact:
  assumes "mention_target known contacts words disamb = (rawEnd, prov, Some p)"
  shows "\<exists>c\<in>set contacts. ct_id c = p \<and> prov = Some (ct_providerId c)"
proof (cases "resolve_words contacts (map fst words) (length words)")
  case None
  with assms show ?thesis by (simp add: mention_target_def)
next
  case (Some wn)
  obtain w n where wn: "wn = (w, n)" by force
  have w: "w \<in> set contacts"
    using resolve_words_consumed [OF Some [unfolded wn]] resolve_in_contacts by blast
  let ?plain = "(snd (words ! (n - 1)), Some (ct_providerId w), Some (ct_id w))"
  have "(\<exists>c\<in>set contacts. \<exists>e. mention_target known contacts words disamb = (e, Some (ct_providerId c), Some (ct_id c)))"
  proof (cases "mention_target known contacts words disamb = ?plain")
    case True
    with w show ?thesis by blast
  next
    case False
    with Some wn show ?thesis
      by (auto simp: mention_target_def Let_def split: option.splits if_splits dest!: find_Some_in)
  qed
  with assms show ?thesis by auto
qed

text \<open>The raw text of a mention is a slice of the message that starts with an unmasked at-sign which
  no address character precedes; the profile is a contact and the provider is the contact's.\<close>

definition mention_ok :: "string \<Rightarrow> string \<Rightarrow> contact list \<Rightarrow> channel_mention \<Rightarrow> bool" where
  "mention_ok body masked contacts m \<longleftrightarrow>
     (\<exists>a e. a < e \<and> a < length masked \<and> masked ! a = CHR ''@'' \<and>
        (a = 0 \<or> \<not> address_char (masked ! (a - 1))) \<and> mn_raw m = drop a (take e body)) \<and>
     (\<forall>p. mn_profileId m = Some p \<longrightarrow>
        (\<exists>c\<in>set contacts. ct_id c = p \<and> mn_providerId m = truthy (Some (ct_providerId c))))"

definition mention_key :: "channel_mention \<Rightarrow> string" where
  "mention_key m = (case mn_profileId m of Some p \<Rightarrow> p | None \<Rightarrow> to_lower (mn_raw m))"

lemma contact_mentions_ok:
  assumes "\<forall>c\<in>set contacts. ct_id c \<noteq> []"
  shows "list_all (mention_ok body masked contacts) (contact_mentions known contacts body masked i seen) \<and>
    distinct (map mention_key (contact_mentions known contacts body masked i seen)) \<and>
    mention_key ` set (contact_mentions known contacts body masked i seen) \<inter> seen = {}"
  using assms
proof (induction known contacts body masked i seen rule: contact_mentions.induct)
  case (1 known contacts body masked i seen)
  show ?case
  proof (cases "next_boundary masked i")
    case None
    then show ?thesis by (simp add: contact_mentions.simps)
  next
    case bnd: (Some a)
    show ?thesis
    proof (cases "first_word (drop (a + 1) masked)")
      case None
      with bnd have "contact_mentions known contacts body masked i seen = contact_mentions known contacts body masked (a + 1) seen"
        by (subst contact_mentions.simps) simp
      with 1(1) [OF bnd None 1(4)] show ?thesis by simp
    next
      case fst: (Some first)
      let ?words = "words_at contacts masked a first"
      obtain e prov prof where tgt:
        "mention_target known contacts ?words (disamb_at masked (words_end ?words)) = (e, prov, prof)"
        by (metis prod_cases3)
      let ?raw = "drop a (take e body)"
      let ?key = "case prof of Some p \<Rightarrow> p | None \<Rightarrow> to_lower ?raw"
      let ?m = "\<lparr>mn_raw = ?raw, mn_providerId = truthy prov, mn_profileId = truthy prof\<rparr>"
      have step: "contact_mentions known contacts body masked i seen =
        (if ?key \<in> seen then contact_mentions known contacts body masked e seen
         else ?m # contact_mentions known contacts body masked e (insert ?key seen))"
        using bnd fst tgt by (subst contact_mentions.simps) (simp add: Let_def)
      have prof: "truthy prof = prof"
      proof (cases prof)
        case (Some p)
        with mention_target_contact tgt 1(4) have "p \<noteq> []" by blast
        with Some show ?thesis by (simp add: truthy_def)
      qed (simp add: truthy_def)
      have ok: "mention_ok body masked contacts ?m"
        using mention_target_end [OF fst refl tgt] next_boundary_bounds [OF bnd] tgt prof
        by (auto simp: mention_ok_def dest: mention_target_contact)
      have key: "mention_key ?m = ?key" by (simp add: mention_key_def prof cong: option.case_cong)
      show ?thesis
      proof (cases "?key \<in> seen")
        case True
        with 1(2) [OF bnd fst refl tgt [symmetric] refl refl refl True 1(4)] step show ?thesis by simp
      next
        case False
        with 1(3) [OF bnd fst refl tgt [symmetric] refl refl refl False 1(4)] step ok key show ?thesis by auto
      qed
    qed
  qed
qed

lemma first_word_prefix: "first_word s = Some w \<Longrightarrow> \<exists>t. s = w @ t"
  by (auto simp: first_word_def split: list.splits if_splits) (metis takeWhile_dropWhile_id)

lemma at_sign_slice:
  assumes "a < length s" and "s ! a = CHR ''@''" and "first_word (drop (a + 1) s) = Some w"
  shows "drop a (take (a + 1 + length w) s) = ''@'' @ w"
proof -
  have "drop a s = CHR ''@'' # drop (a + 1) s" using assms(1,2) by (simp add: Cons_nth_drop_Suc [symmetric])
  moreover obtain t where "drop (a + 1) s = w @ t" using first_word_prefix [OF assms(3)] by blast
  ultimately show ?thesis by (simp add: drop_take)
qed

lemma plain_mentions_ok:
  "list_all (mention_ok masked masked []) (plain_mentions known masked i seen) \<and>
    distinct (map (\<lambda>m. to_lower (tl (mn_raw m))) (plain_mentions known masked i seen)) \<and>
    (\<lambda>m. to_lower (tl (mn_raw m))) ` set (plain_mentions known masked i seen) \<inter> seen = {}"
proof (induction known masked i seen rule: plain_mentions.induct)
  case (1 known masked i seen)
  show ?case
  proof (cases "next_mention masked i")
    case None
    then show ?thesis by (simp add: plain_mentions.simps)
  next
    case (Some an)
    obtain a name where an: "an = (a, name)" by force
    note b = next_mention_bounds [OF Some [unfolded an]]
    let ?m = "\<lparr>mn_raw = ''@'' @ name, mn_providerId = truthy (known (to_lower name)), mn_profileId = None\<rparr>"
    let ?next = "a + 1 + length name"
    have step: "plain_mentions known masked i seen =
      (if to_lower name \<in> seen then plain_mentions known masked ?next seen
       else ?m # plain_mentions known masked ?next (insert (to_lower name) seen))"
      using Some an by (subst plain_mentions.simps) (simp add: Let_def)
    have ok: "mention_ok masked masked [] ?m"
      using b at_sign_slice [of a masked name] unfolding mention_ok_def
      by (intro conjI exI [of _ a] exI [of _ ?next]) auto
    show ?thesis
    proof (cases "to_lower name \<in> seen")
      case True
      with 1(1) [OF Some an [symmetric] refl refl True] step show ?thesis by simp
    next
      case False
      with 1(2) [OF Some an [symmetric] refl refl False] step ok show ?thesis by auto
    qed
  qed
qed

text \<open>What the parser returns for a message when contacts are known: each mention is a slice of the
  text starting at an at-sign that is outside code and not part of an address, a resolved profile is
  one of the contacts with that contact's provider, and no profile, and no unresolved name, is listed
  twice.\<close>

theorem parsed_mentions_are_contacts:
  assumes "contacts \<noteq> []" and "\<forall>c\<in>set contacts. ct_id c \<noteq> []"
    and "ms = parseMentions body ids (Some contacts)"
  shows "list_all (mention_ok body (maskCodeSpans body) contacts) ms \<and> distinct (map mention_key ms) \<and>
    list_all (\<lambda>m. starts_with (mn_raw m) ''@'') ms"
proof -
  have ms: "ms = contact_mentions (known_providers ids) contacts body (maskCodeSpans body) 0 {}"
    using assms(1,3) by (simp add: parseMentions_def parseMentionsWithContacts_def)
  have at: "starts_with (mn_raw m) ''@''" if "mention_ok body (maskCodeSpans body) contacts m" for m
  proof -
    from that obtain a e where a: "a < e" "a < length body" "maskCodeSpans body ! a = CHR ''@''"
      "mn_raw m = drop a (take e body)" by (auto simp: mention_ok_def length_maskCodeSpans)
    then have "mn_raw m = CHR ''@'' # drop (Suc a) (take e body)"
      using masked_at_sign [of a body] by (simp add: Cons_nth_drop_Suc [symmetric])
    then show ?thesis by (simp add: starts_with_def)
  qed
  show ?thesis
    using contact_mentions_ok [OF assms(2), of body "maskCodeSpans body" "known_providers ids" 0 "{}"] at
    unfolding ms [symmetric] by (auto simp: list_all_iff)
qed

theorem parsed_mentions_are_contacts_witness:
  "let cs = [sample_contact ''p1'' ''claude'' ''Backend Claude'' False]
   in list_all (mention_ok ''hi @backend claude `@x`'' (maskCodeSpans ''hi @backend claude `@x`'') cs)
        (parseMentions ''hi @backend claude `@x`'' [] (Some cs))"
  using parsed_mentions_are_contacts [OF _ _ refl, of "[sample_contact ''p1'' ''claude'' ''Backend Claude'' False]"
      "''hi @backend claude `@x`''" "[]"]
  by (simp add: Let_def sample_contact_def)

text \<open>Without contacts, every mention is the at-sign and the name found in the masked text at a
  place that is not part of an address, it carries no profile, and no name is listed twice under
  another case.\<close>

theorem plain_mentions_are_slices:
  "list_all (mention_ok (maskCodeSpans body) (maskCodeSpans body) []) (parseMentions body ids None) \<and>
   distinct (map (\<lambda>m. to_lower (tl (mn_raw m))) (parseMentions body ids None)) \<and>
   length (maskCodeSpans body) = length body"
  using plain_mentions_ok [of "maskCodeSpans body" "known_providers ids" 0 "{}"]
  by (simp add: parseMentions_def length_maskCodeSpans)

end
