(* ===== verification/Line_Framer.thy ===== *)
theory Line_Framer
  imports Relay_Prelude "HOL-Library.Word"
begin

text \<open>
  The framing of a newline-delimited byte stream off a child process (\<open>server/line-framer.ts\<close>). The
  callbacks \<open>onLine\<close>, \<open>onOversized\<close> and \<open>onBufferOverflow\<close> are values of the output list in the order
  they are called; a line is kept as its bytes, which the code decodes as a whole.

  The reference is \<open>split_lf\<close>, which cuts a byte string at every LF. The properties: a framer without
  a buffer cap delivers exactly the lines of the stream that are within the line cap, in order,
  however the stream is chopped into chunks; the retained tail never exceeds the caps; and with
  \<open>skip-resync\<close> and \<open>trimTrailingCr\<close> together the chunking does matter.
\<close>

type_synonym byte = "8 word"

datatype oversized_policy = SkipResync | ReportAndContinue

record framer_options =
  fo_maxLineBytes :: "nat option"
  fo_oversizedPolicy :: oversized_policy
  fo_maxBufferBytes :: "nat option"
  fo_trimTrailingCr :: bool

record framer =
  fr_buffer :: "byte list"
  fr_skipping :: bool

datatype framer_out =
    OnLine "byte list"
  | OnOversized nat
  | OnBufferOverflow

definition lf :: byte where
  "lf = 0x0a"

definition cr :: byte where
  "cr = 0x0d"

definition new_framer :: framer where
  "new_framer = \<lparr>fr_buffer = [], fr_skipping = False\<rparr>"

definition trim_cr :: "framer_options \<Rightarrow> byte list \<Rightarrow> byte list" where
  "trim_cr opts line =
     (if fo_trimTrailingCr opts \<and> line \<noteq> [] \<and> last line = cr then butlast line else line)"

definition over_cap :: "framer_options \<Rightarrow> byte list \<Rightarrow> bool" where
  "over_cap opts line = (case fo_maxLineBytes opts of None \<Rightarrow> False | Some m \<Rightarrow> length line > m)"

text \<open>The loop of \<open>push\<close>: each round but the last consumes a line with its LF.\<close>

function frame_loop :: "framer_options \<Rightarrow> byte list \<Rightarrow> bool \<Rightarrow> framer \<times> framer_out list" where
  "frame_loop opts buffer skipping =
     (case index_of lf buffer of
        None \<Rightarrow>
          if skipping then (\<lparr>fr_buffer = [], fr_skipping = True\<rparr>, [])
          else if fo_oversizedPolicy opts = SkipResync \<and> over_cap opts buffer then
            (\<lparr>fr_buffer = [], fr_skipping = True\<rparr>, [OnOversized (length buffer)])
          else (\<lparr>fr_buffer = buffer, fr_skipping = False\<rparr>, [])
      | Some newline \<Rightarrow>
          let lineBytes = take newline buffer; rest = drop (newline + 1) buffer in
          if skipping then frame_loop opts rest False
          else
            let lineBytes = trim_cr opts lineBytes; (fr, outs) = frame_loop opts rest False in
            if over_cap opts lineBytes then (fr, OnOversized (length lineBytes) # outs)
            else (fr, OnLine lineBytes # outs))"
  by pat_completeness auto
termination
  by (relation "measure (\<lambda>(opts, buffer, skipping). length buffer)") (auto dest!: index_of_less)

declare frame_loop.simps [simp del]

definition framer_push :: "framer_options \<Rightarrow> framer \<Rightarrow> byte list \<Rightarrow> framer \<times> framer_out list" where
  "framer_push opts fr chunk =
     (let buffer = (if length (fr_buffer fr) = 0 then chunk else fr_buffer fr @ chunk);
          (fr', outs) = frame_loop opts buffer (fr_skipping fr) in
      case fo_maxBufferBytes opts of
        None \<Rightarrow> (fr', outs)
      | Some m \<Rightarrow>
          if length (fr_buffer fr') > m then (fr'\<lparr>fr_buffer := []\<rparr>, outs @ [OnBufferOverflow])
          else (fr', outs))"

definition framer_reset :: "framer \<Rightarrow> framer" where
  "framer_reset fr = fr\<lparr>fr_buffer := [], fr_skipping := False\<rparr>"

text \<open>A sequence of chunks, with all outputs in order.\<close>

fun push_all :: "framer_options \<Rightarrow> framer \<Rightarrow> byte list list \<Rightarrow> framer \<times> framer_out list" where
  "push_all opts fr [] = (fr, [])"
| "push_all opts fr (c # cs) =
     (let (fr1, outs1) = framer_push opts fr c; (fr2, outs2) = push_all opts fr1 cs in (fr2, outs1 @ outs2))"

section \<open>The reference: cutting at every LF\<close>

fun split_lf :: "byte list \<Rightarrow> byte list list \<times> byte list" where
  "split_lf [] = ([], [])"
| "split_lf (b # bs) =
     (case split_lf bs of (ls, r) \<Rightarrow>
        if b = lf then ([] # ls, r)
        else case ls of [] \<Rightarrow> ([], b # r) | l # ls' \<Rightarrow> ((b # l) # ls', r))"

abbreviation complete_lines :: "byte list \<Rightarrow> byte list list" where
  "complete_lines w \<equiv> fst (split_lf w)"

abbreviation partial_tail :: "byte list \<Rightarrow> byte list" where
  "partial_tail w \<equiv> snd (split_lf w)"

text \<open>What the reference reports for a complete line.\<close>

definition line_out :: "framer_options \<Rightarrow> byte list \<Rightarrow> framer_out" where
  "line_out opts line =
     (let l = trim_cr opts line in if over_cap opts l then OnOversized (length l) else OnLine l)"

fun delivered :: "framer_out list \<Rightarrow> byte list list" where
  "delivered [] = []"
| "delivered (OnLine l # outs) = l # delivered outs"
| "delivered (_ # outs) = delivered outs"

lemma delivered_append [simp]: "delivered (xs @ ys) = delivered xs @ delivered ys"
  by (induction xs rule: delivered.induct) auto

lemma delivered_Cons_line_out:
  "delivered (line_out opts l # outs) = (if over_cap opts (trim_cr opts l) then [] else [trim_cr opts l]) @ delivered outs"
  by (simp add: line_out_def Let_def)

lemma split_lf_no_lf: "lf \<notin> set w \<Longrightarrow> split_lf w = ([], w)"
  by (induction w) auto

lemma split_lf_first: "lf \<notin> set l \<Longrightarrow> split_lf (l @ lf # w) = (l # complete_lines w, partial_tail w)"
  by (induction l) (auto split: prod.splits)

lemma partial_tail_no_lf: "lf \<notin> set (partial_tail w)"
  by (induction w) (auto split: prod.splits list.splits)

lemma split_lf_append:
  "split_lf (w @ c) =
    (complete_lines w @ complete_lines (partial_tail w @ c), partial_tail (partial_tail w @ c))"
proof (induction w)
  case (Cons b w)
  obtain ls r where w: "split_lf w = (ls, r)" by force
  obtain ls' r' where rc: "split_lf (r @ c) = (ls', r')" by force
  have IH: "split_lf (w @ c) = (ls @ ls', r')" using Cons.IH w rc by simp
  show ?case
  proof (cases "b = lf")
    case True
    then show ?thesis using w rc IH by simp
  next
    case False
    then show ?thesis using w rc IH by (cases ls; cases ls') auto
  qed
qed simp

lemma no_lf_split: "index_of lf w = None \<Longrightarrow> split_lf w = ([], w)"
  by (simp add: index_of_None split_lf_no_lf)

lemma lf_split:
  assumes "index_of lf w = Some n"
  shows "split_lf w = (take n w # complete_lines (drop (n + 1) w), partial_tail (drop (n + 1) w))"
  using index_of_split [OF assms] split_lf_first [of "take n w" "drop (n + 1) w"] by simp

text \<open>The tail a framer keeps: nothing once it has begun to skip.\<close>

definition tail_state :: "framer_options \<Rightarrow> byte list \<Rightarrow> framer" where
  "tail_state opts r =
     (if fo_oversizedPolicy opts = SkipResync \<and> over_cap opts r then \<lparr>fr_buffer = [], fr_skipping = True\<rparr>
      else \<lparr>fr_buffer = r, fr_skipping = False\<rparr>)"

definition tail_outs :: "framer_options \<Rightarrow> byte list \<Rightarrow> framer_out list" where
  "tail_outs opts r =
     (if fo_oversizedPolicy opts = SkipResync \<and> over_cap opts r then [OnOversized (length r)] else [])"

lemma frame_loop_eq:
  "frame_loop opts w False =
    (tail_state opts (partial_tail w), map (line_out opts) (complete_lines w) @ tail_outs opts (partial_tail w))"
proof (induction w rule: measure_induct_rule [of length])
  case (less w)
  show ?case
  proof (cases "index_of lf w")
    case None
    then show ?thesis
      by (subst frame_loop.simps) (simp add: no_lf_split tail_state_def tail_outs_def)
  next
    case (Some n)
    then have "length (drop (n + 1) w) < length w" by (auto dest: index_of_less)
    from less [OF this] Some show ?thesis
      by (subst frame_loop.simps) (simp add: lf_split line_out_def Let_def)
  qed
qed

lemma frame_loop_skipping:
  "frame_loop opts w True =
    (if lf \<in> set w then frame_loop opts (drop (the (index_of lf w) + 1) w) False
     else (\<lparr>fr_buffer = [], fr_skipping = True\<rparr>, []))"
  using index_of_None [of lf w] by (subst frame_loop.simps) (cases "index_of lf w"; simp)

section \<open>Chunks do not matter\<close>

definition ref_lines :: "framer_options \<Rightarrow> byte list \<Rightarrow> byte list list" where
  "ref_lines opts w = filter (\<lambda>l. \<not> over_cap opts l) (map (trim_cr opts) (complete_lines w))"

lemma over_cap_append: "over_cap opts r \<Longrightarrow> over_cap opts (r @ x)"
  by (auto simp: over_cap_def split: option.splits)

lemma delivered_line_outs: "delivered (map (line_out opts) ls) = filter (\<lambda>l. \<not> over_cap opts l) (map (trim_cr opts) ls)"
  by (induction ls) (simp_all add: delivered_Cons_line_out)

lemma delivered_tail_outs [simp]: "delivered (tail_outs opts r) = []"
  by (simp add: tail_outs_def)

lemma tail_state_fields:
  "fo_oversizedPolicy opts = SkipResync \<and> over_cap opts r \<Longrightarrow> tail_state opts r = \<lparr>fr_buffer = [], fr_skipping = True\<rparr>"
  "\<not> (fo_oversizedPolicy opts = SkipResync \<and> over_cap opts r) \<Longrightarrow> tail_state opts r = \<lparr>fr_buffer = r, fr_skipping = False\<rparr>"
  by (simp_all add: tail_state_def)

lemma push_from_tail:
  assumes "fo_maxBufferBytes opts = None"
    and "\<not> (fo_oversizedPolicy opts = SkipResync \<and> fo_trimTrailingCr opts)"
    and "lf \<notin> set r"
  shows "fst (framer_push opts (tail_state opts r) c) = tail_state opts (partial_tail (r @ c)) \<and>
    delivered (snd (framer_push opts (tail_state opts r) c)) = ref_lines opts (r @ c)"
proof (cases "fo_oversizedPolicy opts = SkipResync \<and> over_cap opts r")
  case False
  then have "framer_push opts (tail_state opts r) c = frame_loop opts (r @ c) False"
    using assms(1) by (simp add: framer_push_def tail_state_fields)
  then show ?thesis by (simp add: frame_loop_eq delivered_line_outs ref_lines_def)
next
  case over: True
  then have push: "framer_push opts (tail_state opts r) c = frame_loop opts c True"
    using assms(1) by (simp add: framer_push_def tail_state_fields)
  show ?thesis
  proof (cases "index_of lf c")
    case None
    then have "lf \<notin> set (r @ c)" using assms(3) by (simp add: index_of_None)
    with over over_cap_append show ?thesis
      unfolding push by (simp add: frame_loop_skipping split_lf_no_lf tail_state_fields ref_lines_def)
  next
    case (Some n)
    let ?rest = "drop (n + 1) c" and ?l = "r @ take n c"
    have l: "lf \<notin> set ?l" using index_of_split [OF Some] assms(3) by simp
    have "split_lf (r @ c) = split_lf (?l @ lf # ?rest)" using index_of_split [OF Some] by simp
    also have "\<dots> = (?l # complete_lines ?rest, partial_tail ?rest)" by (rule split_lf_first [OF l])
    finally have split: "split_lf (r @ c) = (?l # complete_lines ?rest, partial_tail ?rest)" .
    have "trim_cr opts ?l = ?l" "over_cap opts ?l"
      using over assms(2) over_cap_append by (auto simp: trim_cr_def)
    moreover have "lf \<in> set c" using Some index_of_None [of lf c] by auto
    ultimately show ?thesis
      unfolding push by (simp add: frame_loop_skipping Some split frame_loop_eq delivered_line_outs ref_lines_def)
  qed
qed

lemma push_all_from_tail:
  assumes "fo_maxBufferBytes opts = None" and "\<not> (fo_oversizedPolicy opts = SkipResync \<and> fo_trimTrailingCr opts)"
  shows "lf \<notin> set r \<Longrightarrow>
    fst (push_all opts (tail_state opts r) cs) = tail_state opts (partial_tail (r @ concat cs)) \<and>
    delivered (snd (push_all opts (tail_state opts r) cs)) = ref_lines opts (r @ concat cs)"
proof (induction cs arbitrary: r)
  case Nil
  then show ?case by (simp add: split_lf_no_lf ref_lines_def)
next
  case (Cons c cs)
  let ?r = "partial_tail (r @ c)"
  from push_from_tail [OF assms Cons.prems, of c] Cons.IH [OF partial_tail_no_lf [of "r @ c"]]
  show ?case
    using split_lf_append [of "r @ c" "concat cs"] by (auto simp: ref_lines_def split: prod.splits)
qed

lemma new_framer_tail: "new_framer = tail_state opts []"
  by (simp add: new_framer_def tail_state_def over_cap_def split: option.splits)



text \<open>Under \<open>report-and-continue\<close> the whole output, the reports of oversized lines included, is
  the one of the reference, line by line, for every way the stream is chopped.\<close>

theorem framer_reports_in_order:
  assumes "fo_maxBufferBytes opts = None" and "fo_oversizedPolicy opts = ReportAndContinue"
  shows "push_all opts new_framer chunks =
    (\<lparr>fr_buffer = partial_tail (concat chunks), fr_skipping = False\<rparr>, map (line_out opts) (complete_lines (concat chunks)))"
proof -
  have push: "framer_push opts \<lparr>fr_buffer = r, fr_skipping = False\<rparr> c =
    (\<lparr>fr_buffer = partial_tail (r @ c), fr_skipping = False\<rparr>, map (line_out opts) (complete_lines (r @ c)))" for r c
    using assms by (simp add: framer_push_def frame_loop_eq tail_state_def tail_outs_def Let_def)
  have "lf \<notin> set r \<Longrightarrow> push_all opts \<lparr>fr_buffer = r, fr_skipping = False\<rparr> cs =
    (\<lparr>fr_buffer = partial_tail (r @ concat cs), fr_skipping = False\<rparr>, map (line_out opts) (complete_lines (r @ concat cs)))" for r cs
  proof (induction cs arbitrary: r)
    case (Cons c cs)
    show ?case
      using Cons.IH [OF partial_tail_no_lf [of "r @ c"]] split_lf_append [of "r @ c" "concat cs"] by (simp add: push)
  qed (simp add: split_lf_no_lf)
  from this [of "[]" chunks] show ?thesis by (simp add: new_framer_def)
qed

theorem framer_reports_in_order_witness:
  "snd (push_all \<lparr>fo_maxLineBytes = Some 1, fo_oversizedPolicy = ReportAndContinue, fo_maxBufferBytes = None,
       fo_trimTrailingCr = True\<rparr> new_framer [[1, 13], [10, 5], [6, 7, 10]]) = [OnLine [1], OnOversized 3]"
  using framer_reports_in_order [of "\<lparr>fo_maxLineBytes = Some 1, fo_oversizedPolicy = ReportAndContinue,
      fo_maxBufferBytes = None, fo_trimTrailingCr = True\<rparr>" "[[1, 13], [10, 5], [6, 7, 10]]"]
  by (simp add: line_out_def trim_cr_def over_cap_def lf_def cr_def)

section \<open>Memory\<close>

definition within_caps :: "framer_options \<Rightarrow> framer \<Rightarrow> bool" where
  "within_caps opts fr \<longleftrightarrow>
     (fo_oversizedPolicy opts = SkipResync \<longrightarrow> \<not> over_cap opts (fr_buffer fr)) \<and>
     (case fo_maxBufferBytes opts of None \<Rightarrow> True | Some m \<Rightarrow> length (fr_buffer fr) \<le> m) \<and>
     (fr_skipping fr \<longrightarrow> fr_buffer fr = [])"

lemma over_cap_Nil [simp]: "\<not> over_cap opts []"
  by (simp add: over_cap_def split: option.splits)

lemma frame_loop_tail:
  "\<exists>r. fst (frame_loop opts w b) = tail_state opts r \<or> fst (frame_loop opts w b) = \<lparr>fr_buffer = [], fr_skipping = True\<rparr>"
  by (cases b) (auto simp: frame_loop_eq frame_loop_skipping)

lemma push_within_caps: "within_caps opts (fst (framer_push opts fr c))"
proof -
  let ?b = "if length (fr_buffer fr) = 0 then c else fr_buffer fr @ c"
  obtain fr' outs where loop: "frame_loop opts ?b (fr_skipping fr) = (fr', outs)" by force
  with frame_loop_tail [of opts ?b "fr_skipping fr"]
  have "(fo_oversizedPolicy opts = SkipResync \<longrightarrow> \<not> over_cap opts (fr_buffer fr')) \<and> (fr_skipping fr' \<longrightarrow> fr_buffer fr' = [])"
    by (auto simp: tail_state_def split: if_splits)
  with loop show ?thesis
    unfolding framer_push_def Let_def by (auto simp: within_caps_def split: option.splits)
qed

interpretation line_framer: state_machine "\<lambda>fr c. fst (framer_push opts fr c)" "\<lambda>_ _. True" "within_caps opts" for opts
  by unfold_locales (rule push_within_caps)

text \<open>The bytes a framer holds between chunks are bounded whatever the peer writes: under
  \<open>skip-resync\<close> at most the line cap, with a buffer cap at most that, and none while it skips an
  oversized line.\<close>

theorem framer_memory_bounded:
  assumes "reachable (\<lambda>fr c. fst (framer_push opts fr c)) (\<lambda>_ _. True) new_framer fr"
  shows "(fo_oversizedPolicy opts = SkipResync \<and> fo_maxLineBytes opts = Some m \<longrightarrow> length (fr_buffer fr) \<le> m) \<and>
    (fo_maxBufferBytes opts = Some b \<longrightarrow> length (fr_buffer fr) \<le> b) \<and> (fr_skipping fr \<longrightarrow> fr_buffer fr = [])"
proof -
  have "within_caps opts new_framer" by (simp add: within_caps_def new_framer_def split: option.splits)
  from line_framer.reachable_inv [OF assms this] show ?thesis
    by (auto simp: within_caps_def over_cap_def split: option.splits)
qed

theorem framer_memory_bounded_witness:
  "let opts = \<lparr>fo_maxLineBytes = Some 2, fo_oversizedPolicy = SkipResync, fo_maxBufferBytes = None, fo_trimTrailingCr = False\<rparr>
   in length (fr_buffer (fst (framer_push opts new_framer [1, 2, 3]))) \<le> 2"
proof -
  let ?opts = "\<lparr>fo_maxLineBytes = Some 2, fo_oversizedPolicy = SkipResync, fo_maxBufferBytes = None, fo_trimTrailingCr = False\<rparr>"
  have "reachable (\<lambda>fr c. fst (framer_push ?opts fr c)) (\<lambda>_ _. True) new_framer (fst (framer_push ?opts new_framer [1, 2, 3]))"
    by (rule reach_step) (auto intro: reach_init)
  from framer_memory_bounded [OF this, of 2 0] show ?thesis by (simp add: Let_def)
qed

text \<open>With \<open>skip-resync\<close> and \<open>trimTrailingCr\<close> together the chunking matters: the line cap counts
  the CR of an unfinished tail, so a CRLF line of exactly the cap is delivered when it arrives whole
  and dropped when a chunk ends before its LF.\<close>

theorem framer_crlf_depends_on_chunks:
  "let opts = \<lparr>fo_maxLineBytes = Some 2, fo_oversizedPolicy = SkipResync, fo_maxBufferBytes = None, fo_trimTrailingCr = True\<rparr>
   in delivered (snd (push_all opts new_framer [[1, 2, 13, 10]])) = [[1, 2]] \<and>
      delivered (snd (push_all opts new_framer [[1, 2, 13], [10]])) = []"
  by (simp add: Let_def framer_push_def frame_loop_eq frame_loop_skipping tail_state_def tail_outs_def line_out_def
      trim_cr_def over_cap_def lf_def cr_def new_framer_def)

end
