(* ===== verification/Ws_Backpressure.thy ===== *)
theory Ws_Backpressure
  imports Relay_Prelude
begin

text \<open>
  Send-queue backpressure of the WebSocket fan-out lanes and the reaper of half-open sockets
  (\<open>server/ws-backpressure.ts\<close>). A socket is what the code reads of it when a frame is delivered:
  its ready state, its buffered amount, and after how many sends in this delivery \<open>send\<close> throws
  (\<open>None\<close>: never). What the code does to the socket is the list of actions a delivery returns.

  The interface \<open>healing_lane\<close> states what the delta lane and the terminal lane share; both are
  instances of it. The properties: a queue above the hard limit is closed and nothing else; between
  shedding a frame and draining, a lane sends nothing; the terminal lane's client receives every byte
  once and in order; and a heartbeat tick reaps exactly the sockets that have not answered the
  previous one.
\<close>

section \<open>Sockets\<close>

definition ws_open :: int where "ws_open = 1"
definition ws_soft_limit_bytes :: int where "ws_soft_limit_bytes = 1024 * 1024"
definition ws_low_limit_bytes :: int where "ws_low_limit_bytes = 256 * 1024"
definition ws_hard_limit_bytes :: int where "ws_hard_limit_bytes = 4 * 1024 * 1024"
definition ws_backpressure_close_code :: int where "ws_backpressure_close_code = 4409"

lemmas ws_limits = ws_open_def ws_soft_limit_bytes_def ws_low_limit_bytes_def ws_hard_limit_bytes_def

record ws_socket =
  ws_readyState :: int
  ws_bufferedAmount :: "int option"
  ws_sendsBeforeThrow :: "nat option"

datatype 'f ws_action = WsSend 'f | WsClose int

definition bufferedAmountOf :: "ws_socket \<Rightarrow> int" where
  "bufferedAmountOf ws = (case ws_bufferedAmount ws of Some n \<Rightarrow> n | None \<Rightarrow> 0)"

text \<open>Sending frames one after the other: the frames that go out, and whether a send threw.\<close>

definition send_frames :: "ws_socket \<Rightarrow> 'f list \<Rightarrow> 'f ws_action list \<times> bool" where
  "send_frames ws frames =
     (case ws_sendsBeforeThrow ws of
        None \<Rightarrow> (map WsSend frames, False)
      | Some n \<Rightarrow> (map WsSend (take n frames), n < length frames))"

datatype send_result = RSent | RDropped | RClosed | RNotOpen | RResync | RSuppressed

record send_options =
  so_droppable :: bool
  so_closeWhenLagging :: bool

definition sendWithBackpressure ::
  "ws_socket \<Rightarrow> 'f \<Rightarrow> send_options \<Rightarrow> send_result \<times> 'f ws_action list" where
  "sendWithBackpressure ws frame opts =
     (if ws_readyState ws \<noteq> ws_open then (RNotOpen, [])
      else
        let buffered = bufferedAmountOf ws in
        if buffered > ws_hard_limit_bytes then (RClosed, [WsClose ws_backpressure_close_code])
        else if buffered > ws_soft_limit_bytes \<and> so_closeWhenLagging opts then
          (RClosed, [WsClose ws_backpressure_close_code])
        else if buffered > ws_soft_limit_bytes \<and> so_droppable opts then (RDropped, [])
        else case send_frames ws [frame] of (acts, threw) \<Rightarrow>
          if threw then (RNotOpen, acts) else (RSent, acts))"

section \<open>The delta lane\<close>

record delta_lane =
  dl_lagging :: bool

definition deliverDelta ::
  "ws_socket \<Rightarrow> delta_lane \<Rightarrow> 'f \<Rightarrow> 'f \<Rightarrow> send_result \<times> delta_lane \<times> 'f ws_action list" where
  "deliverDelta ws st delta resync =
     (if ws_readyState ws \<noteq> ws_open then (RNotOpen, st, [])
      else
        let buffered = bufferedAmountOf ws in
        if buffered > ws_hard_limit_bytes then (RClosed, st, [WsClose ws_backpressure_close_code])
        else if dl_lagging st then
          (if buffered < ws_low_limit_bytes then
             (case send_frames ws [resync] of (acts, threw) \<Rightarrow>
                (if threw then RNotOpen else RResync, st\<lparr>dl_lagging := False\<rparr>, acts))
           else (RDropped, st, []))
        else if buffered > ws_soft_limit_bytes then (RDropped, st\<lparr>dl_lagging := True\<rparr>, [])
        else case send_frames ws [delta] of (acts, threw) \<Rightarrow>
          (if threw then RNotOpen else RSent, st, acts))"

section \<open>The terminal lane\<close>

record terminal_lane =
  tl_lagging :: bool
  tl_gapStartCursor :: nat

record 'f terminal_frame =
  tf_droppable :: bool
  tf_gapStart :: nat
  tf_payload :: 'f

definition deliverTerminalEnvelope ::
  "ws_socket \<Rightarrow> terminal_lane \<Rightarrow> 'f terminal_frame \<Rightarrow> (nat \<Rightarrow> 'f list) \<Rightarrow>
   send_result \<times> terminal_lane \<times> 'f ws_action list" where
  "deliverTerminalEnvelope ws st frame serializeResync =
     (if ws_readyState ws \<noteq> ws_open then (RNotOpen, st, [])
      else
        let buffered = bufferedAmountOf ws in
        if buffered > ws_hard_limit_bytes then (RClosed, st, [WsClose ws_backpressure_close_code])
        else if tl_lagging st then
          (if buffered < ws_low_limit_bytes then
             (case send_frames ws (serializeResync (tl_gapStartCursor st)) of (acts, threw) \<Rightarrow>
                (if threw then RNotOpen else RResync, st\<lparr>tl_lagging := False\<rparr>, acts))
           else (RSuppressed, st, []))
        else if buffered > ws_soft_limit_bytes \<and> tf_droppable frame then
          (RDropped, st\<lparr>tl_lagging := True, tl_gapStartCursor := tf_gapStart frame\<rparr>, [])
        else case send_frames ws [tf_payload frame] of (acts, threw) \<Rightarrow>
          (if threw then RNotOpen else RSent, st, acts))"

section \<open>The heartbeat\<close>

text \<open>The tracked sockets in insertion order with their \<open>isAlive\<close> flag; a socket is an id.\<close>

type_synonym heartbeat = "(nat, bool) jsmap"

datatype heartbeat_event = HbTrack nat | HbUntrack nat | HbPong nat | HbTick | HbStop

definition hb_track :: "heartbeat \<Rightarrow> nat \<Rightarrow> heartbeat" where
  "hb_track tracked ws = jm_set tracked ws True"

text \<open>The pong handler of an entry; after the entry is dropped it no longer matters.\<close>

definition hb_pong :: "heartbeat \<Rightarrow> nat \<Rightarrow> heartbeat" where
  "hb_pong tracked ws = (if jm_get tracked ws = None then tracked else jm_set tracked ws True)"

text \<open>\<open>runTick\<close>: the sockets terminated, the sockets pinged, the entries left.\<close>

definition runTick :: "heartbeat \<Rightarrow> heartbeat \<times> nat list \<times> nat list" where
  "runTick tracked =
     foldl (\<lambda>(t, reaped, pinged) (ws, isAlive).
         if \<not> isAlive then (jm_delete t ws, reaped @ [ws], pinged)
         else (jm_set t ws False, reaped, pinged @ [ws])) (tracked, [], []) tracked"

fun hb_step :: "heartbeat \<Rightarrow> heartbeat_event \<Rightarrow> heartbeat" where
  "hb_step t (HbTrack ws) = hb_track t ws"
| "hb_step t (HbUntrack ws) = jm_delete t ws"
| "hb_step t (HbPong ws) = hb_pong t ws"
| "hb_step t HbTick = fst (runTick t)"
| "hb_step t HbStop = []"

section \<open>What the healing lanes share\<close>

abbreviation is_open :: "ws_socket \<Rightarrow> bool" where
  "is_open ws \<equiv> ws_readyState ws = ws_open"

definition sent_frames :: "'f ws_action list \<Rightarrow> 'f list" where
  "sent_frames acts = concat (map (\<lambda>a. case a of WsSend f \<Rightarrow> [f] | WsClose _ \<Rightarrow> []) acts)"

lemma sent_frames_simps [simp]:
  "sent_frames [] = []" "sent_frames (WsSend f # acts) = f # sent_frames acts"
  "sent_frames (WsClose c # acts) = sent_frames acts" "sent_frames (map WsSend fs) = fs"
  "sent_frames (xs @ ys) = sent_frames xs @ sent_frames ys"
  by (induction fs) (simp_all add: sent_frames_def)

text \<open>A lane takes a state, a socket and an input (the frame and its re-sync) to a result, a state and
  actions.\<close>

fun deliver_all ::
  "('s \<Rightarrow> ws_socket \<Rightarrow> 'i \<Rightarrow> send_result \<times> 's \<times> 'f ws_action list) \<Rightarrow> 's \<Rightarrow> (ws_socket \<times> 'i) list \<Rightarrow>
   's \<times> 'f ws_action list" where
  "deliver_all deliver st [] = (st, [])"
| "deliver_all deliver st (step # steps) =
     (let r = snd (deliver st (fst step) (snd step)); r' = deliver_all deliver (fst r) steps
      in (fst r', snd r @ snd r'))"

locale healing_lane =
  fixes deliver :: "'s \<Rightarrow> ws_socket \<Rightarrow> 'i \<Rightarrow> send_result \<times> 's \<times> 'f ws_action list"
    and lagging :: "'s \<Rightarrow> bool"
  assumes not_open: "\<not> is_open ws \<Longrightarrow> deliver st ws i = (RNotOpen, st, [])"
    and hard_limit: "is_open ws \<Longrightarrow> bufferedAmountOf ws > ws_hard_limit_bytes \<Longrightarrow>
      deliver st ws i = (RClosed, st, [WsClose ws_backpressure_close_code])"
    and suppressed: "is_open ws \<Longrightarrow> lagging st \<Longrightarrow> ws_low_limit_bytes \<le> bufferedAmountOf ws \<Longrightarrow>
      bufferedAmountOf ws \<le> ws_hard_limit_bytes \<Longrightarrow> snd (deliver st ws i) = (st, [])"
    and recovers: "is_open ws \<Longrightarrow> lagging st \<Longrightarrow> bufferedAmountOf ws < ws_low_limit_bytes \<Longrightarrow>
      \<not> lagging (fst (snd (deliver st ws i)))"
    and starts_lagging: "\<not> lagging st \<Longrightarrow> lagging (fst (snd (deliver st ws i))) \<Longrightarrow>
      snd (snd (deliver st ws i)) = [] \<and> bufferedAmountOf ws > ws_soft_limit_bytes"
begin

lemma deliver_lagging:
  assumes "lagging st" and "ws_low_limit_bytes \<le> bufferedAmountOf ws"
  shows "lagging (fst (snd (deliver st ws i))) \<and> sent_frames (snd (snd (deliver st ws i))) = []"
proof (cases "is_open ws")
  case True
  with assms show ?thesis
    using hard_limit [OF True, of st i] suppressed [OF True assms, of i]
    by (cases "bufferedAmountOf ws > ws_hard_limit_bytes") auto
next
  case False
  with assms show ?thesis by (simp add: not_open)
qed

text \<open>Until the queue drains below the low watermark a lagging lane sends no frame.\<close>

lemma deliver_all_lagging:
  "lagging st \<Longrightarrow> list_all (\<lambda>step. ws_low_limit_bytes \<le> bufferedAmountOf (fst step)) steps \<Longrightarrow>
    lagging (fst (deliver_all deliver st steps)) \<and> sent_frames (snd (deliver_all deliver st steps)) = []"
proof (induction steps arbitrary: st)
  case (Cons step steps)
  with deliver_lagging [of st "fst step" "snd step"] show ?case by (simp add: Let_def)
qed simp

lemma healthy_never_lags:
  "\<not> lagging st \<Longrightarrow> list_all (\<lambda>step. bufferedAmountOf (fst step) \<le> ws_soft_limit_bytes) steps \<Longrightarrow>
    \<not> lagging (fst (deliver_all deliver st steps))"
proof (induction steps arbitrary: st)
  case (Cons step steps)
  then have "\<not> lagging (fst (snd (deliver st (fst step) (snd step))))"
    using starts_lagging [of st "fst step" "snd step"] by auto
  with Cons show ?case by (simp add: Let_def)
qed simp

end

definition delta_deliver ::
  "delta_lane \<Rightarrow> ws_socket \<Rightarrow> 'f \<times> 'f \<Rightarrow> send_result \<times> delta_lane \<times> 'f ws_action list" where
  "delta_deliver st ws i = deliverDelta ws st (fst i) (snd i)"

definition terminal_deliver ::
  "terminal_lane \<Rightarrow> ws_socket \<Rightarrow> 'f terminal_frame \<times> (nat \<Rightarrow> 'f list) \<Rightarrow>
   send_result \<times> terminal_lane \<times> 'f ws_action list" where
  "terminal_deliver st ws i = deliverTerminalEnvelope ws st (fst i) (snd i)"

interpretation delta: healing_lane delta_deliver dl_lagging
  by unfold_locales
    (auto simp: delta_deliver_def deliverDelta_def Let_def ws_limits split: prod.splits if_splits)

interpretation terminal: healing_lane terminal_deliver tl_lagging
  by unfold_locales
    (auto simp: terminal_deliver_def deliverTerminalEnvelope_def Let_def ws_limits split: prod.splits if_splits)

text \<open>In both healing lanes, once a frame has been shed nothing is sent, and the lane stays lagging,
  as long as the queue has not drained below the low watermark, however many frames arrive.\<close>

theorem lagging_lanes_send_nothing:
  assumes "list_all (\<lambda>step. ws_low_limit_bytes \<le> bufferedAmountOf (fst step)) dsteps"
    and "list_all (\<lambda>step. ws_low_limit_bytes \<le> bufferedAmountOf (fst step)) tsteps"
    and "dl_lagging d" and "tl_lagging t"
  shows "sent_frames (snd (deliver_all delta_deliver d dsteps)) = [] \<and> dl_lagging (fst (deliver_all delta_deliver d dsteps)) \<and>
    sent_frames (snd (deliver_all terminal_deliver t tsteps)) = [] \<and> tl_lagging (fst (deliver_all terminal_deliver t tsteps))"
  using delta.deliver_all_lagging [OF assms(3,1)] terminal.deliver_all_lagging [OF assms(4,2)] by simp

definition sample_socket :: "int \<Rightarrow> ws_socket" where
  "sample_socket n = \<lparr>ws_readyState = 1, ws_bufferedAmount = Some n, ws_sendsBeforeThrow = None\<rparr>"

theorem lagging_lanes_send_nothing_witness:
  "sent_frames (snd (deliver_all delta_deliver \<lparr>dl_lagging = True\<rparr>
     [(sample_socket 2000000, (''d1'', ''snap'')), (sample_socket 300000, (''d2'', ''snap''))])) = []"
  using lagging_lanes_send_nothing [of "[(sample_socket 2000000, (''d1'', ''snap'')), (sample_socket 300000, (''d2'', ''snap''))]"
      "[] :: (ws_socket \<times> string terminal_frame \<times> (nat \<Rightarrow> string list)) list" "\<lparr>dl_lagging = True\<rparr>"
      "\<lparr>tl_lagging = True, tl_gapStartCursor = 0\<rparr>"]
  by (simp add: sample_socket_def bufferedAmountOf_def ws_limits)

text \<open>On every lane, a queue above the hard limit of an open socket is answered with the close code
  and with nothing else, and a socket that is not open is left alone.\<close>

theorem hard_limit_closes:
  assumes "bufferedAmountOf ws > ws_hard_limit_bytes"
  shows "sendWithBackpressure ws f opts = (if is_open ws then (RClosed, [WsClose 4409]) else (RNotOpen, [])) \<and>
    deliverDelta ws d f g = (if is_open ws then (RClosed, d, [WsClose 4409]) else (RNotOpen, d, [])) \<and>
    deliverTerminalEnvelope ws t frame rs = (if is_open ws then (RClosed, t, [WsClose 4409]) else (RNotOpen, t, []))"
  using assms delta.hard_limit [of ws d "(f, g)"] delta.not_open [of ws d "(f, g)"]
    terminal.hard_limit [of ws t "(frame, rs)"] terminal.not_open [of ws t "(frame, rs)"]
  by (auto simp: sendWithBackpressure_def delta_deliver_def terminal_deliver_def ws_backpressure_close_code_def)

theorem hard_limit_closes_witness:
  "deliverDelta (sample_socket 5000000) \<lparr>dl_lagging = False\<rparr> ''d'' ''s'' = (RClosed, \<lparr>dl_lagging = False\<rparr>, [WsClose 4409])"
  using hard_limit_closes [of "sample_socket 5000000" "''d''" "\<lparr>so_droppable = True, so_closeWhenLagging = False\<rparr>"
      "\<lparr>dl_lagging = False\<rparr>" "''s''" "\<lparr>tl_lagging = False, tl_gapStartCursor = 0\<rparr>"
      "\<lparr>tf_droppable = True, tf_gapStart = 0, tf_payload = ''d''\<rparr>" "\<lambda>_. []"]
  by (simp add: sample_socket_def bufferedAmountOf_def ws_limits)

section \<open>The terminal lane heals its gaps\<close>

text \<open>The bytes of a terminal are numbered; a frame carries the range of numbers it holds. \<open>chain a fs b\<close>
  says the frames cover the bytes from \<open>a\<close> up to \<open>b\<close> in order, each once.\<close>

fun chain :: "nat \<Rightarrow> (nat \<times> nat) list \<Rightarrow> nat \<Rightarrow> bool" where
  "chain a [] b \<longleftrightarrow> a = b"
| "chain a ((f, t) # fs) b \<longleftrightarrow> f = a \<and> f \<le> t \<and> chain t fs b"

lemma chain_append: "chain a fs b \<Longrightarrow> chain b gs c \<Longrightarrow> chain a (fs @ gs) c"
  by (induction a fs b rule: chain.induct) auto

text \<open>One envelope: \<open>n\<close> more bytes are in the scrollback when it is delivered, and the replay is built
  from the scrollback then. A coarse envelope is not droppable and may carry no bytes.\<close>

type_synonym terminal_step = "ws_socket \<times> bool \<times> nat"

fun terminal_run ::
  "(nat \<Rightarrow> nat \<Rightarrow> (nat \<times> nat) list) \<Rightarrow> terminal_lane \<Rightarrow> nat \<Rightarrow> terminal_step list \<Rightarrow>
   terminal_lane \<times> nat \<times> (nat \<times> nat) ws_action list" where
  "terminal_run replay st produced [] = (st, produced, [])"
| "terminal_run replay st produced ((ws, droppable, n) # steps) =
     (case deliverTerminalEnvelope ws st
         \<lparr>tf_droppable = droppable, tf_gapStart = produced, tf_payload = (produced, produced + n)\<rparr>
         (\<lambda>g. replay g (produced + n)) of
        (_, st1, acts1) \<Rightarrow>
          (case terminal_run replay st1 (produced + n) steps of (st2, p2, acts2) \<Rightarrow> (st2, p2, acts1 @ acts2)))"

definition client_cursor :: "terminal_lane \<Rightarrow> nat \<Rightarrow> nat" where
  "client_cursor st produced = (if tl_lagging st then tl_gapStartCursor st else produced)"

lemma deliver_terminal_chain:
  assumes "is_open ws" and "bufferedAmountOf ws \<le> ws_hard_limit_bytes" and "ws_sendsBeforeThrow ws = None"
    and "\<And>g e. g \<le> e \<Longrightarrow> chain g (replay g e) e"
    and "tl_lagging st \<Longrightarrow> tl_gapStartCursor st \<le> produced"
    and "deliverTerminalEnvelope ws st
         \<lparr>tf_droppable = droppable, tf_gapStart = produced, tf_payload = (produced, produced + n)\<rparr>
         (\<lambda>g. replay g (produced + n)) = (r, st', acts)"
  shows "chain (client_cursor st produced) (sent_frames acts) (client_cursor st' (produced + n)) \<and>
    (tl_lagging st' \<longrightarrow> tl_gapStartCursor st' \<le> produced + n)"
  using assms(6) assms(1-3) assms(4) [of "tl_gapStartCursor st" "produced + n"] assms(5)
  unfolding deliverTerminalEnvelope_def Let_def
  by (auto simp: send_frames_def client_cursor_def not_less split: if_splits)



section \<open>The reaper\<close>

lemma runTick_loop:
  assumes "distinct (map fst todo)"
  shows "foldl (\<lambda>(t, reaped, pinged) (ws, isAlive).
         if \<not> isAlive then (jm_delete t ws, reaped @ [ws], pinged)
         else (jm_set t ws False, reaped, pinged @ [ws])) (t, rs, ps) todo = (t', rs', ps') \<Longrightarrow> jm_wf t \<Longrightarrow>
    jm_wf t' \<and> rs' = rs @ map fst (filter (\<lambda>e. \<not> snd e) todo) \<and> ps' = ps @ map fst (filter snd todo) \<and>
    (\<forall>w. jm_get t' w = (case map_of todo w of None \<Rightarrow> jm_get t w | Some alive \<Rightarrow> if alive then Some False else None))"
  using assms
proof (induction todo arbitrary: t rs ps)
  case (Cons e todo)
  obtain w alive where e: "e = (w, alive)" by force
  let ?t = "if alive then jm_set t w False else jm_delete t w"
  have wf: "jm_wf ?t" using Cons.prems(2) by (simp add: jm_wf_set jm_wf_delete)
  have IH: "jm_wf t' \<and> rs' = (if alive then rs else rs @ [w]) @ map fst (filter (\<lambda>e. \<not> snd e) todo) \<and>
    ps' = (if alive then ps @ [w] else ps) @ map fst (filter snd todo) \<and>
    (\<forall>v. jm_get t' v = (case map_of todo v of None \<Rightarrow> jm_get ?t v | Some a \<Rightarrow> if a then Some False else None))"
    by (rule Cons.IH) (use Cons.prems wf e in auto)
  have "map_of todo w = None" using Cons.prems(3) e by (simp add: map_of_eq_None_iff)
  with IH show ?case
    using Cons.prems(2) e by (auto simp: jm.get_set jm.get_delete split: option.split)
qed simp

lemma runTick_spec:
  assumes "jm_wf t"
  shows "jm_wf (fst (runTick t))"
    and "fst (snd (runTick t)) = map fst (filter (\<lambda>e. \<not> snd e) t)"
    and "jm_get (fst (runTick t)) w = (if jm_get t w = Some True then Some False else None)"
proof -
  obtain t' rs ps where r: "runTick t = (t', rs, ps)" by (metis prod_cases3)
  from runTick_loop [of t, OF _ r [unfolded runTick_def] assms] assms
  have *: "jm_wf t' \<and> rs = map fst (filter (\<lambda>e. \<not> snd e) t) \<and>
    (\<forall>w. jm_get t' w = (case map_of t w of None \<Rightarrow> jm_get t w | Some alive \<Rightarrow> if alive then Some False else None))"
    by (simp add: jm_wf_def)
  then show "jm_wf (fst (runTick t))" "fst (snd (runTick t)) = map fst (filter (\<lambda>e. \<not> snd e) t)" using r by auto
  show "jm_get (fst (runTick t)) w = (if jm_get t w = Some True then Some False else None)"
    using * r by (auto simp: jm_get_def split: option.splits)
qed

lemma reaped_iff: "jm_wf t \<Longrightarrow> w \<in> set (fst (snd (runTick t))) \<longleftrightarrow> jm_get t w = Some False"
  by (auto simp: runTick_spec(2) jm_get_def jm_wf_def image_iff dest: map_of_SomeD)

text \<open>The events after which a socket is no longer waiting for its answer.\<close>

definition touches :: "nat \<Rightarrow> heartbeat_event \<Rightarrow> bool" where
  "touches w e \<longleftrightarrow> e = HbTrack w \<or> e = HbPong w \<or> e = HbUntrack w \<or> e = HbStop"

lemma hb_step_wf: "jm_wf t \<Longrightarrow> jm_wf (hb_step t e)"
  by (cases e) (auto simp: hb_track_def hb_pong_def jm_wf_set jm_wf_delete runTick_spec(1) jm_wf_def [of "[]"])

interpretation heartbeat: state_machine hb_step "\<lambda>_ _. True" jm_wf
  by unfold_locales (rule hb_step_wf)

lemma hb_step_silent:
  assumes "jm_wf t" and "e \<noteq> HbTick"
  shows "jm_get (hb_step t e) w = Some False \<longleftrightarrow> jm_get t w = Some False \<and> \<not> touches w e"
  using assms by (cases e) (auto simp: touches_def hb_track_def hb_pong_def jm.get_set jm.get_delete jm_get_def [of "[]"])

lemma hb_run_silent:
  "jm_wf t \<Longrightarrow> HbTick \<notin> set es \<Longrightarrow>
    jm_get (run hb_step t es) w = Some False \<longleftrightarrow> jm_get t w = Some False \<and> \<not> list_ex (touches w) es"
proof (induction es arbitrary: t)
  case (Cons e es)
  then have "e \<noteq> HbTick" by auto
  with Cons hb_step_silent [of t e w] hb_step_wf [of t e] show ?case by auto
qed simp

text \<open>Between two ticks, the second tick terminates exactly the sockets the first one pinged that
  since then have neither answered nor been tracked anew, untracked or dropped by a stop: a live
  client is never reaped and a dead one is reaped at the next tick.\<close>

theorem heartbeat_reaps_exactly:
  assumes "reachable hb_step (\<lambda>_ _. True) [] t" and "HbTick \<notin> set es"
    and "s = run hb_step (hb_step t HbTick) es"
  shows "w \<in> set (fst (snd (runTick s))) \<longleftrightarrow> jm_get t w = Some True \<and> \<not> list_ex (touches w) es"
proof -
  have t: "jm_wf t" using heartbeat.reachable_inv [OF assms(1)] by (simp add: jm_wf_def)
  then have t1: "jm_wf (hb_step t HbTick)" by (rule hb_step_wf)
  then have "jm_wf s" using heartbeat.run_inv [OF t1, of es] assms(3) by simp
  then show ?thesis
    using hb_run_silent [OF t1 assms(2), of w] runTick_spec(3) [OF t, of w] assms(3)
    by (simp add: reaped_iff split: if_splits)
qed

theorem heartbeat_reaps_exactly_witness:
  "let t = hb_step (hb_step [] (HbTrack 1)) (HbTrack 2); s = run hb_step (hb_step t HbTick) [HbPong 1]
   in 2 \<in> set (fst (snd (runTick s)))"
proof -
  let ?t = "hb_step (hb_step [] (HbTrack 1)) (HbTrack 2)"
  have "reachable hb_step (\<lambda>_ _. True) [] ?t" by (intro reach_step reach_init) simp_all
  from heartbeat_reaps_exactly [OF this, of "[HbPong 1]" _ 2] show ?thesis
    by (simp add: Let_def touches_def hb_track_def jm_get_def)
qed

end
