(* ===== verification/Concurrency.thy ===== *)
theory Concurrency
  imports Relay_Prelude
begin

text \<open>
  Bounded concurrency (\<open>server/concurrency.ts\<close>) and the admission of terminal sessions
  (\<open>server/session-capacity.ts\<close>).

  \<open>Semaphore.run\<close> acquires a permit, runs its task and releases the permit when the task settles,
  by a value or by an error. The system of a semaphore and its tasks is driven by two events: a call
  of \<open>run\<close> and the settling of a task that holds a permit. The interleavings are the event sequences.
\<close>

section \<open>The semaphore\<close>

text \<open>\<open>Math.max(1, Math.floor(limit))\<close>; a limit that is not a number stays one.\<close>

definition semaphore_limit :: "js_number \<Rightarrow> js_number" where
  "semaphore_limit n = (case n of
     IntNum i \<Rightarrow> IntNum (max 1 i) | FracNum f \<Rightarrow> IntNum (max 1 f) | NaNNum \<Rightarrow> NaNNum
   | InfNum pos \<Rightarrow> if pos then InfNum True else IntNum 1)"

definition int_below :: "int \<Rightarrow> js_number \<Rightarrow> bool" where
  "int_below i n = (case n of IntNum k \<Rightarrow> i < k | FracNum f \<Rightarrow> i \<le> f | NaNNum \<Rightarrow> False | InfNum pos \<Rightarrow> pos)"

record 't semaphore =
  sem_limit :: js_number
  sem_active :: int
  sem_peak :: int
  sem_waiters :: "'t list"

definition new_semaphore :: "js_number \<Rightarrow> 't semaphore" where
  "new_semaphore limit =
     \<lparr>sem_limit = semaphore_limit limit, sem_active = 0, sem_peak = 0, sem_waiters = []\<rparr>"

text \<open>\<open>this.active += 1; if (this.active > this.peak) this.peak = this.active\<close>\<close>

definition sem_take :: "'t semaphore \<Rightarrow> 't semaphore" where
  "sem_take s = s\<lparr>sem_active := sem_active s + 1, sem_peak := max (sem_peak s) (sem_active s + 1)\<rparr>"

text \<open>The tasks whose \<open>acquire\<close> resolves are returned with the new state.\<close>

definition sem_acquire :: "'t semaphore \<Rightarrow> 't \<Rightarrow> 't semaphore \<times> 't list" where
  "sem_acquire s t =
     (if int_below (sem_active s) (sem_limit s) then (sem_take s, [t])
      else (s\<lparr>sem_waiters := sem_waiters s @ [t]\<rparr>, []))"

definition sem_release :: "'t semaphore \<Rightarrow> 't semaphore \<times> 't list" where
  "sem_release s =
     (let s1 = s\<lparr>sem_active := sem_active s - 1\<rparr> in
      case sem_waiters s1 of [] \<Rightarrow> (s1, []) | t # ws \<Rightarrow> (sem_take (s1\<lparr>sem_waiters := ws\<rparr>), [t]))"

text \<open>The semaphore with the tasks that hold a permit and the history of calls and grants.\<close>

record 't sem_system =
  sys_sem :: "'t semaphore"
  sys_holders :: "'t list"
  sys_requested :: "'t list"
  sys_granted :: "'t list"

datatype 't sem_event = SemRun 't | SemSettle 't

fun sem_step :: "'t sem_system \<Rightarrow> 't sem_event \<Rightarrow> 't sem_system" where
  "sem_step s (SemRun t) =
     (case sem_acquire (sys_sem s) t of (sem, granted) \<Rightarrow>
        \<lparr>sys_sem = sem, sys_holders = sys_holders s @ granted, sys_requested = sys_requested s @ [t],
         sys_granted = sys_granted s @ granted\<rparr>)"
| "sem_step s (SemSettle t) =
     (case sem_release (sys_sem s) of (sem, granted) \<Rightarrow>
        s\<lparr>sys_sem := sem, sys_holders := remove1 t (sys_holders s) @ granted, sys_granted := sys_granted s @ granted\<rparr>)"

fun sem_event_ok :: "'t sem_system \<Rightarrow> 't sem_event \<Rightarrow> bool" where
  "sem_event_ok s (SemRun t) = True"
| "sem_event_ok s (SemSettle t) = (t \<in> set (sys_holders s))"

definition new_sem_system :: "js_number \<Rightarrow> 't sem_system" where
  "new_sem_system limit =
     \<lparr>sys_sem = new_semaphore limit, sys_holders = [], sys_requested = [], sys_granted = []\<rparr>"

definition sem_inv :: "js_number \<Rightarrow> 't sem_system \<Rightarrow> bool" where
  "sem_inv limit s \<longleftrightarrow>
     sem_limit (sys_sem s) = semaphore_limit limit \<and>
     sem_active (sys_sem s) = int (length (sys_holders s)) \<and>
     sem_active (sys_sem s) \<le> sem_peak (sys_sem s) \<and>
     (\<forall>n. semaphore_limit limit = IntNum n \<longrightarrow> sem_peak (sys_sem s) \<le> n) \<and>
     (sem_waiters (sys_sem s) \<noteq> [] \<longrightarrow> \<not> int_below (sem_active (sys_sem s)) (semaphore_limit limit)) \<and>
     sys_granted s @ sem_waiters (sys_sem s) = sys_requested s"

lemma semaphore_limit_shape:
  "semaphore_limit n = IntNum k \<Longrightarrow> 1 \<le> k" "semaphore_limit n \<noteq> FracNum k"
  by (auto simp: semaphore_limit_def split: js_number.splits if_splits)

lemma sem_run_inv: "sem_inv limit s \<Longrightarrow> sem_inv limit (sem_step s (SemRun t))"
  by (auto simp: sem_inv_def sem_acquire_def sem_take_def int_below_def semaphore_limit_shape split: js_number.splits)

lemma sem_settle_inv:
  assumes "sem_inv limit s" and "t \<in> set (sys_holders s)"
  shows "sem_inv limit (sem_step s (SemSettle t))"
proof -
  have "length (sys_holders s) > 0" using assms(2) by (cases "sys_holders s") auto
  then show ?thesis
    using assms
    by (cases "sem_waiters (sys_sem s)")
      (auto simp: sem_inv_def sem_release_def sem_take_def length_remove1 Let_def of_nat_diff Suc_le_eq)
qed

interpretation semaphore: state_machine sem_step sem_event_ok "sem_inv limit" for limit
proof unfold_locales
  fix s :: "'t sem_system" and e
  assume "sem_inv limit s" "sem_event_ok s e"
  then show "sem_inv limit (sem_step s e)"
    by (cases e) (auto simp del: sem_step.simps intro: sem_run_inv sem_settle_inv)
qed

lemma new_sem_inv: "sem_inv limit (new_sem_system limit)"
  by (auto simp: sem_inv_def new_sem_system_def new_semaphore_def dest: semaphore_limit_shape(1))



section \<open>Settling every task\<close>

datatype ('e, 'a) settled = Fulfilled 'a | Rejected 'e

fun is_rejected :: "('e, 'a) settled \<Rightarrow> bool" where
  "is_rejected (Rejected _) = True" | "is_rejected (Fulfilled _) = False"

text \<open>\<open>result.value\<close>, undefined for a rejected result.\<close>

fun settled_value :: "('e, 'a) settled \<Rightarrow> 'a option" where
  "settled_value (Fulfilled v) = Some v" | "settled_value (Rejected _) = None"

definition allOrFirstError :: "('e, 'a) settled list \<Rightarrow> 'e + 'a option list" where
  "allOrFirstError results =
     (case List.find is_rejected results of
        Some (Rejected reason) \<Rightarrow> Inl reason
      | _ \<Rightarrow> Inr (map settled_value results))"

text \<open>The serial loop the code replaces: await each task in turn, stop at the first error.\<close>

fun serial_all :: "('e, 'a) settled list \<Rightarrow> 'e + 'a list" where
  "serial_all [] = Inr []"
| "serial_all (Rejected e # rs) = Inl e"
| "serial_all (Fulfilled v # rs) = (case serial_all rs of Inl e \<Rightarrow> Inl e | Inr vs \<Rightarrow> Inr (v # vs))"

text \<open>Running the tasks together reports what the serial loop would have: the values in order, all
  of them present, or the error of the first task that failed by position.\<close>

theorem all_or_first_error_is_serial:
  "allOrFirstError results = map_sum id (map Some) (serial_all results)"
proof (induction results rule: serial_all.induct)
  case (3 v rs)
  then show ?case
    by (cases "serial_all rs") (auto simp: allOrFirstError_def split: option.splits settled.splits)
qed (simp_all add: allOrFirstError_def)

section \<open>Terminal session capacity\<close>

definition default_max_pty_sessions :: int where
  "default_max_pty_sessions = 64"

record pty_capacity_response =
  pc_message :: string
  pc_activePtySessions :: int
  pc_maxPtySessions :: int

record session_like =
  sl_mode :: "string option"
  sl_status :: "string option"

definition resolveMaxPtySessions :: "json \<Rightarrow> int" where
  "resolveMaxPtySessions v = (case v of
     JNum (IntNum n) \<Rightarrow> max 1 n | JNum (FracNum n) \<Rightarrow> max 1 n | _ \<Rightarrow> default_max_pty_sessions)"

definition is_active_pty :: "session_like \<Rightarrow> bool" where
  "is_active_pty s \<longleftrightarrow> sl_mode s = Some ''pty'' \<and>
     (case sl_status s of None \<Rightarrow> ''active'' | Some st \<Rightarrow> st) = ''active''"

definition countActivePtySessions :: "session_like list \<Rightarrow> int" where
  "countActivePtySessions sessions = int (length (filter is_active_pty sessions))"

definition buildPtyCapacityResponse :: "int \<Rightarrow> json \<Rightarrow> pty_capacity_response option" where
  "buildPtyCapacityResponse active maxPty =
     (let resolvedMax = resolveMaxPtySessions maxPty in
      if active < resolvedMax then None
      else Some \<lparr>pc_message = ''Session limit reached: '' @ int_to_dec active @
          '' active PTY sessions. Close inactive sessions and try again.'',
        pc_activePtySessions = active, pc_maxPtySessions = resolvedMax\<rparr>)"

text \<open>A thrown value: an \<open>Error\<close> with its message and code, or anything else.\<close>

datatype thrown = ThrownError (thrown_message: string) (thrown_code: "string option") | ThrownOther

definition isPtySpawnCapacityError :: "thrown \<Rightarrow> bool" where
  "isPtySpawnCapacityError e = (case e of
     ThrownOther \<Rightarrow> False
   | ThrownError msg code \<Rightarrow>
       includes_sub msg ''posix_spawnp failed'' \<or>
       (case code of None \<Rightarrow> [] | Some c \<Rightarrow> c) \<in> {''EAGAIN'', ''ENOMEM'', ''EMFILE'', ''ENFILE''})"

definition sessionCreateErrorResponse :: "thrown \<Rightarrow> int \<Rightarrow> json \<Rightarrow> pty_capacity_response option" where
  "sessionCreateErrorResponse e active maxPty =
     (if \<not> isPtySpawnCapacityError e then None
      else Some \<lparr>pc_message = ''Unable to start a new terminal session. Too many PTY sessions may already be active; close inactive sessions and try again.'',
        pc_activePtySessions = active, pc_maxPtySessions = resolveMaxPtySessions maxPty\<rparr>)"

text \<open>The sessions under admission: a terminal session starts only when the capacity check returns
  nothing; sessions end or change in any way that does not add an active one.\<close>

datatype session_event = SessionStart session_like | SessionsChange "session_like list"

fun admit :: "json \<Rightarrow> session_like list \<Rightarrow> session_event \<Rightarrow> session_like list" where
  "admit maxPty sessions (SessionStart s) =
     (if is_active_pty s \<and> buildPtyCapacityResponse (countActivePtySessions sessions) maxPty \<noteq> None
      then sessions else sessions @ [s])"
| "admit maxPty sessions (SessionsChange sessions') = sessions'"

fun session_event_ok :: "session_like list \<Rightarrow> session_event \<Rightarrow> bool" where
  "session_event_ok sessions (SessionStart s) = True"
| "session_event_ok sessions (SessionsChange sessions') =
     (countActivePtySessions sessions' \<le> countActivePtySessions sessions)"

lemma resolved_max_pos: "1 \<le> resolveMaxPtySessions v"
  by (simp add: resolveMaxPtySessions_def default_max_pty_sessions_def split: json.splits js_number.splits)

lemma admit_inv:
  assumes "countActivePtySessions ss \<le> resolveMaxPtySessions m" and "session_event_ok ss e"
  shows "countActivePtySessions (admit m ss e) \<le> resolveMaxPtySessions m"
  using assms by (cases e) (auto simp: buildPtyCapacityResponse_def countActivePtySessions_def Let_def split: if_splits)

interpretation capacity: state_machine "admit m" session_event_ok
  "\<lambda>ss. countActivePtySessions ss \<le> resolveMaxPtySessions m" for m
  by unfold_locales (rule admit_inv)

text \<open>With every terminal session admitted by the capacity check the number of active ones never
  exceeds the configured maximum, whatever value the configuration holds, and the first session is
  always admitted.\<close>

theorem pty_capacity_respected:
  assumes "reachable (admit m) session_event_ok [] sessions"
  shows "countActivePtySessions sessions \<le> resolveMaxPtySessions m \<and> buildPtyCapacityResponse 0 m = None"
  using capacity.reachable_inv [OF assms] resolved_max_pos [of m]
  by (simp add: countActivePtySessions_def buildPtyCapacityResponse_def)

theorem pty_capacity_respected_witness:
  "countActivePtySessions (admit (JNum (IntNum 0)) [\<lparr>sl_mode = Some ''pty'', sl_status = None\<rparr>]
     (SessionStart \<lparr>sl_mode = Some ''pty'', sl_status = None\<rparr>)) \<le> 1"
proof -
  let ?s = "\<lparr>sl_mode = Some ''pty'', sl_status = None\<rparr>" and ?m = "JNum (IntNum 0)"
  have "reachable (admit ?m) session_event_ok [] (admit ?m (admit ?m [] (SessionStart ?s)) (SessionStart ?s))"
    by (intro reach_step reach_init) simp_all
  from pty_capacity_respected [OF this] show ?thesis
    by (simp add: resolveMaxPtySessions_def buildPtyCapacityResponse_def countActivePtySessions_def is_active_pty_def)
qed

end
