(* ===== verification/Security_Policy.thy ===== *)
theory Security_Policy
  imports Relay_Prelude
begin

text \<open>
  Capability bits, trust tiers and node access-control lists (\<open>shared/security-policy.ts\<close>), and the
  classification of a failed audit write (\<open>shared/security-audit.ts\<close>). A \<open>Set\<close> of capabilities whose
  iteration order matters is a list without repetitions in insertion order.

  Decisions are ordered by how much they permit; the properties say that a resolution is exactly the
  least-privilege reading of the list, that the trust-tier overlay only ever lowers a decision and is
  idempotent, and that a stored list can neither name another node nor grant an unknown bit.
\<close>

section \<open>Capabilities and lists\<close>

datatype trust_tier = TierSandbox | TierDev | TierProd

definition relay_capability_bits :: "string list" where
  "relay_capability_bits =
    [''session:read'', ''session:create:terminal'', ''session:attach'', ''session:control:kill'',
     ''session:control:rename'', ''tab:intervention:read'', ''tab:intervention:send-text'',
     ''tab:intervention:send-key'', ''tab:intervention:submit'', ''rpc:fs:list'', ''rpc:fs:read'',
     ''rpc:fs:tail'', ''rpc:fs:write'', ''rpc:fs:delete'', ''rpc:git:read'', ''rpc:git:write'',
     ''pty:exec:arbitrary'', ''preview:port-forward'', ''node:acl:widen'', ''credential:export'',
     ''node:lifecycle:destructive'', ''node:pair-token:create'', ''logs:read'', ''context:read'',
     ''context:write'', ''inbox:read'', ''inbox:write'', ''artifact:write'', ''settings:read'',
     ''settings:write'', ''integration:webhook:read'', ''integration:webhook:test'']"

definition legacy_default_allowed_capabilities :: "string list" where
  "legacy_default_allowed_capabilities =
    [''session:read'', ''session:create:terminal'', ''session:attach'', ''session:control:kill'',
     ''session:control:rename'', ''rpc:fs:list'', ''rpc:fs:read'', ''rpc:fs:tail'', ''rpc:git:read'',
     ''logs:read'', ''context:read'', ''context:write'', ''inbox:read'', ''inbox:write'',
     ''artifact:write'', ''settings:read'', ''integration:webhook:read'']"

definition high_risk_capabilities :: "string list" where
  "high_risk_capabilities =
    [''session:control:kill'', ''tab:intervention:send-text'', ''tab:intervention:send-key'',
     ''tab:intervention:submit'', ''rpc:fs:write'', ''rpc:fs:delete'', ''rpc:git:write'',
     ''pty:exec:arbitrary'', ''preview:port-forward'', ''node:acl:widen'', ''credential:export'',
     ''node:lifecycle:destructive'', ''settings:write'']"

datatype policy_scope_kind = ScopeNode | ScopeWorkspace | ScopeRepo | ScopePath

record policy_scope =
  ps_kind :: policy_scope_kind
  ps_workspaceIds :: "string list option"
  ps_repoIds :: "string list option"
  ps_pathPrefixes :: "string list option"

record acl_peer =
  ap_nodeId :: string
  ap_credentialId :: "string option"
  ap_displayName :: "string option"

record acl_grants =
  ag_allowed :: "string list"
  ag_requiresConfirmation :: "string list"

record acl_lifecycle =
  al_createdAt :: string
  al_updatedAt :: string
  al_revokedAt :: "string option"
  al_revokedBy :: "string option"
  al_revocationReason :: "string option"
  al_supersedes :: "string option"
  al_supersededBy :: "string option"

record node_acl =
  acl_ref :: string
  acl_peer :: acl_peer
  acl_nodeId :: string
  acl_trustTier :: trust_tier
  acl_grants :: acl_grants
  acl_scope :: policy_scope
  acl_lifecycle :: acl_lifecycle

datatype acl_decision = AclDeny | AclRequiresConfirmation | AclAllow

record acl_resolution =
  ar_decision :: acl_decision
  ar_known :: bool
  ar_capability :: string

record acl_summary =
  as_policyVersion :: string
  as_ref :: string
  as_trustTier :: trust_tier
  as_allowed :: "string list"
  as_requiresConfirmation :: "string list"
  as_scope :: policy_scope
  as_revokedAt :: "string option"
  as_supersededBy :: "string option"

definition relay_security_policy_version :: string where
  "relay_security_policy_version = ''1.0''"

section \<open>Operations\<close>

definition isRelayTrustTier :: "json \<Rightarrow> bool" where
  "isRelayTrustTier v \<longleftrightarrow> v = JStr ''sandbox'' \<or> v = JStr ''dev'' \<or> v = JStr ''prod''"

definition tier_of_json :: "json \<Rightarrow> trust_tier" where
  "tier_of_json v = (if v = JStr ''sandbox'' then TierSandbox else if v = JStr ''prod'' then TierProd else TierDev)"

definition isRelayCapabilityBit :: "json \<Rightarrow> bool" where
  "isRelayCapabilityBit v = str_sat (\<lambda>s. s \<in> set relay_capability_bits) v"

definition add_bit :: "string list \<Rightarrow> json \<Rightarrow> string list" where
  "add_bit normalized v =
     (if \<not> isRelayCapabilityBit v \<or> the_str v \<in> set normalized then normalized
      else normalized @ [the_str v])"

definition normalizeCapabilityBits :: "json \<Rightarrow> string list" where
  "normalizeCapabilityBits values = (case values of JArr vs \<Rightarrow> foldl add_bit [] vs | _ \<Rightarrow> [])"

text \<open>The typed callers pass arrays of strings.\<close>

abbreviation normalized_bits :: "string list \<Rightarrow> string list" where
  "normalized_bits bits \<equiv> normalizeCapabilityBits (JArr (map JStr bits))"

definition overlay_step ::
  "trust_tier \<Rightarrow> string list \<times> string list \<Rightarrow> string \<Rightarrow> string list \<times> string list" where
  "overlay_step tier acc capability =
     (case acc of (required, silentAllowed) \<Rightarrow>
        if capability \<in> set required then acc
        else if tier = TierProd \<and> capability \<in> set high_risk_capabilities
          then (required @ [capability], silentAllowed)
        else (required, silentAllowed @ [capability]))"

definition applyTrustTierOverlay :: "node_acl \<Rightarrow> node_acl" where
  "applyTrustTierOverlay acl =
     (let allowed = normalized_bits (ag_allowed (acl_grants acl));
          requiresConfirmation = normalized_bits (ag_requiresConfirmation (acl_grants acl));
          (required, silentAllowed) =
            foldl (overlay_step (acl_trustTier acl)) (requiresConfirmation, []) allowed
      in acl\<lparr>acl_grants := \<lparr>ag_allowed = silentAllowed, ag_requiresConfirmation = required\<rparr>\<rparr>)"

record legacy_acl_input =
  li_nodeId :: string
  li_credentialId :: "string option"
  li_displayName :: "string option"
  li_trustTier :: "trust_tier option"
  li_createdAt :: string
  li_supersedes :: "string option"

definition legacy_raw_acl :: "legacy_acl_input \<Rightarrow> node_acl" where
  "legacy_raw_acl input =
     (let trustTier = (case li_trustTier input of Some t \<Rightarrow> t | None \<Rightarrow> TierDev);
          ref = ''acl:'' @ li_nodeId input @ '':'' @ relay_security_policy_version
      in
        \<lparr>acl_ref = ref,
         acl_peer = \<lparr>ap_nodeId = li_nodeId input, ap_credentialId = truthy (li_credentialId input),
           ap_displayName = truthy (li_displayName input)\<rparr>,
         acl_nodeId = li_nodeId input, acl_trustTier = trustTier,
         acl_grants = \<lparr>ag_allowed = legacy_default_allowed_capabilities, ag_requiresConfirmation = []\<rparr>,
         acl_scope = \<lparr>ps_kind = ScopeNode, ps_workspaceIds = None, ps_repoIds = None, ps_pathPrefixes = None\<rparr>,
         acl_lifecycle = \<lparr>al_createdAt = li_createdAt input, al_updatedAt = li_createdAt input,
           al_revokedAt = None, al_revokedBy = None, al_revocationReason = None,
           al_supersedes = truthy (li_supersedes input), al_supersededBy = None\<rparr>\<rparr>)"

definition createLegacyDefaultNodeAcl :: "legacy_acl_input \<Rightarrow> node_acl" where
  "createLegacyDefaultNodeAcl input = applyTrustTierOverlay (legacy_raw_acl input)"

definition resolveAclCapability :: "node_acl \<Rightarrow> string \<Rightarrow> acl_resolution" where
  "resolveAclCapability acl capability =
     (if \<not> isRelayCapabilityBit (JStr capability)
      then \<lparr>ar_decision = AclDeny, ar_known = False, ar_capability = capability\<rparr>
      else
        let eff = applyTrustTierOverlay acl in
        if is_truthy (al_revokedAt (acl_lifecycle eff))
          then \<lparr>ar_decision = AclDeny, ar_known = True, ar_capability = capability\<rparr>
        else if capability \<in> set (ag_requiresConfirmation (acl_grants eff))
          then \<lparr>ar_decision = AclRequiresConfirmation, ar_known = True, ar_capability = capability\<rparr>
        else if capability \<in> set (ag_allowed (acl_grants eff))
          then \<lparr>ar_decision = AclAllow, ar_known = True, ar_capability = capability\<rparr>
        else \<lparr>ar_decision = AclDeny, ar_known = True, ar_capability = capability\<rparr>)"

definition summarizeAcl :: "node_acl \<Rightarrow> acl_summary" where
  "summarizeAcl acl =
     (let eff = applyTrustTierOverlay acl in
      \<lparr>as_policyVersion = relay_security_policy_version, as_ref = acl_ref eff,
       as_trustTier = acl_trustTier eff, as_allowed = ag_allowed (acl_grants eff),
       as_requiresConfirmation = ag_requiresConfirmation (acl_grants eff), as_scope = acl_scope eff,
       as_revokedAt = truthy (al_revokedAt (acl_lifecycle eff)),
       as_supersededBy = truthy (al_supersededBy (acl_lifecycle eff))\<rparr>)"

definition isStringArray :: "json \<Rightarrow> bool" where
  "isStringArray v = arr_sat (list_all is_str) v"

definition string_array :: "json \<Rightarrow> string list option" where
  "string_array v = (case v of JArr xs \<Rightarrow> if isStringArray v then Some (map the_str xs) else None | _ \<Rightarrow> None)"

definition normalizeScope :: "json \<Rightarrow> policy_scope" where
  "normalizeScope v =
     (if \<not> is_record v
      then \<lparr>ps_kind = ScopeNode, ps_workspaceIds = None, ps_repoIds = None, ps_pathPrefixes = None\<rparr>
      else
        \<lparr>ps_kind = (if fld v ''kind'' = JStr ''workspace'' then ScopeWorkspace
           else if fld v ''kind'' = JStr ''repo'' then ScopeRepo
           else if fld v ''kind'' = JStr ''path'' then ScopePath else ScopeNode),
         ps_workspaceIds = string_array (fld v ''workspaceIds''),
         ps_repoIds = string_array (fld v ''repoIds''),
         ps_pathPrefixes = string_array (fld v ''pathPrefixes'')\<rparr>)"

definition str_or_none :: "json \<Rightarrow> string option" where
  "str_or_none v = (case v of JStr s \<Rightarrow> Some s | _ \<Rightarrow> None)"

text \<open>The object the stored record is read into, before the overlay.\<close>

definition stored_raw_acl :: "json \<Rightarrow> legacy_acl_input \<Rightarrow> node_acl" where
  "stored_raw_acl v fallback =
     (let rec_or_empty = (\<lambda>x. if is_record x then x else JObj []);
            node = rec_or_empty (fld v ''node''); peer = rec_or_empty (fld v ''peer'');
            grants = rec_or_empty (fld v ''grants''); lifecycle = rec_or_empty (fld v ''lifecycle'');
            trustTier = (if isRelayTrustTier (fld node ''trustTier'') then tier_of_json (fld node ''trustTier'') else TierDev);
            createdAt = (case fld lifecycle ''createdAt'' of JStr s \<Rightarrow> s | _ \<Rightarrow> li_createdAt fallback);
            updatedAt = (case fld lifecycle ''updatedAt'' of JStr s \<Rightarrow> s | _ \<Rightarrow> createdAt)
        in
          \<lparr>acl_ref = (case fld v ''ref'' of JStr s \<Rightarrow> s
             | _ \<Rightarrow> ''acl:'' @ li_nodeId fallback @ '':'' @ relay_security_policy_version),
           acl_peer = \<lparr>ap_nodeId = li_nodeId fallback, ap_credentialId = truthy (li_credentialId fallback),
             ap_displayName = (case fld peer ''displayName'' of JStr s \<Rightarrow> Some s | _ \<Rightarrow> truthy (li_displayName fallback))\<rparr>,
           acl_nodeId = li_nodeId fallback, acl_trustTier = trustTier,
           acl_grants = \<lparr>ag_allowed = normalizeCapabilityBits (fld grants ''allowed''),
             ag_requiresConfirmation = normalizeCapabilityBits (fld grants ''requiresConfirmation'')\<rparr>,
           acl_scope = normalizeScope (fld v ''scope''),
           acl_lifecycle = \<lparr>al_createdAt = createdAt, al_updatedAt = updatedAt,
             al_revokedAt = str_or_none (fld lifecycle ''revokedAt''),
             al_revokedBy = str_or_none (fld lifecycle ''revokedBy''),
             al_revocationReason = str_or_none (fld lifecycle ''revocationReason''),
             al_supersedes = str_or_none (fld lifecycle ''supersedes''),
             al_supersededBy = str_or_none (fld lifecycle ''supersededBy'')\<rparr>\<rparr>)"

definition normalizeNodeAcl :: "json \<Rightarrow> legacy_acl_input \<Rightarrow> node_acl" where
  "normalizeNodeAcl v fallback =
     (if \<not> is_record v then createLegacyDefaultNodeAcl (fallback\<lparr>li_trustTier := None, li_supersedes := None\<rparr>)
      else applyTrustTierOverlay (stored_raw_acl v fallback))"

section \<open>Failed audit writes\<close>

datatype audit_failure_mode = FailClosed | Degraded

definition audit_closed_message :: string where
  "audit_closed_message = ''Security audit write failed; operation must be denied for prod or destructive capability scope.''"

definition audit_degraded_message :: string where
  "audit_degraded_message = ''Security audit write failed; low-tier read-only operation may continue only with explicit degraded audit visibility.''"

definition classifySecurityAuditWriteFailure ::
  "trust_tier option \<Rightarrow> string list \<Rightarrow> audit_failure_mode \<times> string" where
  "classifySecurityAuditWriteFailure trustTier requiredBits =
     (let highRisk = list_ex (\<lambda>b. b \<in> set high_risk_capabilities) requiredBits;
          failClosed = (trustTier = Some TierProd \<or> highRisk)
      in if failClosed then (FailClosed, audit_closed_message) else (Degraded, audit_degraded_message))"

section \<open>The order of decisions\<close>

fun decision_level :: "acl_decision \<Rightarrow> nat" where
  "decision_level AclDeny = 0" | "decision_level AclRequiresConfirmation = 1" | "decision_level AclAllow = 2"

lemma decision_level_inj: "decision_level a = decision_level b \<longleftrightarrow> a = b"
  by (cases a; cases b) auto

instantiation acl_decision :: linorder
begin

definition less_eq_acl_decision :: "acl_decision \<Rightarrow> acl_decision \<Rightarrow> bool" where
  "a \<le> b \<longleftrightarrow> decision_level a \<le> decision_level b"

definition less_acl_decision :: "acl_decision \<Rightarrow> acl_decision \<Rightarrow> bool" where
  "a < b \<longleftrightarrow> decision_level a < decision_level b"

instance
  by standard (auto simp: less_eq_acl_decision_def less_acl_decision_def decision_level_inj)

end

section \<open>Normalisation and the overlay\<close>

lemma normalize_foldl:
  "set (foldl add_bit acc vs) = set acc \<union> {s. JStr s \<in> set vs \<and> s \<in> set relay_capability_bits}"
  by (induction vs arbitrary: acc)
    (auto simp: add_bit_def isRelayCapabilityBit_def str_sat_def the_str_def split: json.splits)

lemma normalize_foldl_distinct: "distinct acc \<Longrightarrow> distinct (foldl add_bit acc vs)"
  by (induction vs arbitrary: acc) (auto simp: add_bit_def)

lemma set_normalizeCapabilityBits: "set (normalizeCapabilityBits v) \<subseteq> set relay_capability_bits"
  by (cases v) (auto simp: normalizeCapabilityBits_def normalize_foldl)

lemma distinct_normalizeCapabilityBits: "distinct (normalizeCapabilityBits v)"
  by (cases v) (auto simp: normalizeCapabilityBits_def normalize_foldl_distinct)

lemma set_normalized_bits: "set (normalized_bits bits) = set bits \<inter> set relay_capability_bits"
  by (auto simp: normalizeCapabilityBits_def normalize_foldl)

lemma normalized_bits_fixed:
  assumes "distinct bits" and "set bits \<subseteq> set relay_capability_bits"
  shows "normalized_bits bits = bits"
proof -
  have "foldl add_bit acc (map JStr bs) = acc @ bs"
    if "distinct (acc @ bs)" "set bs \<subseteq> set relay_capability_bits" for acc bs
    using that
    by (induction bs arbitrary: acc) (auto simp: add_bit_def isRelayCapabilityBit_def str_sat_def the_str_def)
  from this [of "[]" bits] assms show ?thesis by (simp add: normalizeCapabilityBits_def)
qed

definition promoted :: "trust_tier \<Rightarrow> string \<Rightarrow> bool" where
  "promoted tier c \<longleftrightarrow> tier = TierProd \<and> c \<in> set high_risk_capabilities"

lemma overlay_foldl:
  assumes "distinct bits" and "set bits \<inter> set extra = {}"
  shows "foldl (overlay_step tier) (req @ extra, silent) bits =
    (req @ extra @ filter (\<lambda>c. c \<notin> set req \<and> promoted tier c) bits,
     silent @ filter (\<lambda>c. c \<notin> set req \<and> \<not> promoted tier c) bits)"
  using assms
proof (induction bits arbitrary: extra silent)
  case (Cons b bits)
  then have "foldl (overlay_step tier) (req @ extra @ [b], silent) bits =
      (req @ (extra @ [b]) @ filter (\<lambda>c. c \<notin> set req \<and> promoted tier c) bits,
       silent @ filter (\<lambda>c. c \<notin> set req \<and> \<not> promoted tier c) bits)"
    using Cons.IH [of "extra @ [b]" silent] by auto
  with Cons show ?case by (simp add: overlay_step_def promoted_def)
qed simp

lemma overlay_grants:
  "acl_grants (applyTrustTierOverlay acl) =
    (let allowed = normalized_bits (ag_allowed (acl_grants acl));
         req = normalized_bits (ag_requiresConfirmation (acl_grants acl)) in
     \<lparr>ag_allowed = filter (\<lambda>c. c \<notin> set req \<and> \<not> promoted (acl_trustTier acl) c) allowed,
      ag_requiresConfirmation = req @ filter (\<lambda>c. c \<notin> set req \<and> promoted (acl_trustTier acl) c) allowed\<rparr>)"
  using overlay_foldl [OF distinct_normalizeCapabilityBits, of _ "[]" "acl_trustTier acl"
      "normalized_bits (ag_requiresConfirmation (acl_grants acl))" "[]"]
  by (simp add: applyTrustTierOverlay_def Let_def)

lemma overlay_fields [simp]:
  "acl_ref (applyTrustTierOverlay acl) = acl_ref acl" "acl_peer (applyTrustTierOverlay acl) = acl_peer acl"
  "acl_nodeId (applyTrustTierOverlay acl) = acl_nodeId acl"
  "acl_trustTier (applyTrustTierOverlay acl) = acl_trustTier acl"
  "acl_scope (applyTrustTierOverlay acl) = acl_scope acl"
  "acl_lifecycle (applyTrustTierOverlay acl) = acl_lifecycle acl"
  by (simp_all add: applyTrustTierOverlay_def Let_def split: prod.splits)

lemma set_overlay_allowed:
  "c \<in> set (ag_allowed (acl_grants (applyTrustTierOverlay acl))) \<longleftrightarrow>
    c \<in> set relay_capability_bits \<and> c \<in> set (ag_allowed (acl_grants acl)) \<and>
    c \<notin> set (ag_requiresConfirmation (acl_grants acl)) \<and> \<not> promoted (acl_trustTier acl) c"
  by (auto simp: overlay_grants Let_def set_normalized_bits simp del: map_map)

lemma set_overlay_confirm:
  "c \<in> set (ag_requiresConfirmation (acl_grants (applyTrustTierOverlay acl))) \<longleftrightarrow>
    c \<in> set relay_capability_bits \<and> (c \<in> set (ag_requiresConfirmation (acl_grants acl)) \<or>
      c \<in> set (ag_allowed (acl_grants acl)) \<and> promoted (acl_trustTier acl) c)"
  by (auto simp: overlay_grants Let_def set_normalized_bits)

lemmas resolve_unfold = resolveAclCapability_def isRelayCapabilityBit_def str_sat_def Let_def
  set_overlay_allowed set_overlay_confirm

text \<open>C38: The decision of an access-control list on a capability is the least-privilege reading of it:
  deny when the bit is unknown, the list is revoked or the bit is in neither set; otherwise a
  confirmation when the bit asks for one or is high-risk on a production node; silent permission only
  in the remaining case.\<close>

theorem acl_resolution_exact:
  "ar_decision (resolveAclCapability acl c) =
    (if c \<notin> set relay_capability_bits \<or> is_truthy (al_revokedAt (acl_lifecycle acl)) \<or>
        c \<notin> set (ag_allowed (acl_grants acl)) \<union> set (ag_requiresConfirmation (acl_grants acl)) then AclDeny
     else if c \<in> set (ag_requiresConfirmation (acl_grants acl)) \<or>
        acl_trustTier acl = TierProd \<and> c \<in> set high_risk_capabilities then AclRequiresConfirmation
     else AclAllow)"
  by (simp add: resolve_unfold) (auto simp: promoted_def)

theorem acl_resolution_exact_witness:
  "let acl = createLegacyDefaultNodeAcl \<lparr>li_nodeId = ''n1'', li_credentialId = None, li_displayName = None,
     li_trustTier = Some TierDev, li_createdAt = ''t'', li_supersedes = None\<rparr>
   in ar_decision (resolveAclCapability acl ''no:such:bit'') = AclDeny"
  unfolding Let_def acl_resolution_exact by code_simp

text \<open>The overlay is idempotent, resolving a list is the same as resolving its overlay, and putting
  a node on the production tier or revoking its list never raises a decision.\<close>

theorem overlay_only_lowers:
  "applyTrustTierOverlay (applyTrustTierOverlay acl) = applyTrustTierOverlay acl \<and>
   ar_decision (resolveAclCapability (acl\<lparr>acl_trustTier := TierProd\<rparr>) c) \<le> ar_decision (resolveAclCapability acl c) \<and>
   ar_decision (resolveAclCapability (acl\<lparr>acl_lifecycle := (acl_lifecycle acl)\<lparr>al_revokedAt := Some (CHR ''t'' # r)\<rparr>\<rparr>) c)
     \<le> ar_decision (resolveAclCapability acl c) \<and>
   ar_decision (resolveAclCapability acl c) = ar_decision (resolveAclCapability (applyTrustTierOverlay acl) c)"
proof -
  let ?g = "acl_grants (applyTrustTierOverlay acl)"
  have d: "distinct (ag_allowed ?g)" "distinct (ag_requiresConfirmation ?g)"
    "set (ag_allowed ?g) \<subseteq> set relay_capability_bits" "set (ag_requiresConfirmation ?g) \<subseteq> set relay_capability_bits"
    by (auto simp: overlay_grants Let_def distinct_normalizeCapabilityBits set_normalized_bits)
  have "filter (\<lambda>c. c \<notin> set (ag_requiresConfirmation ?g) \<and> \<not> promoted (acl_trustTier acl) c) (ag_allowed ?g) = ag_allowed ?g"
    "filter (\<lambda>c. c \<notin> set (ag_requiresConfirmation ?g) \<and> promoted (acl_trustTier acl) c) (ag_allowed ?g) = []"
    by (auto simp: filter_id_conv filter_empty_conv set_overlay_allowed set_overlay_confirm)
  then have grants: "acl_grants (applyTrustTierOverlay (applyTrustTierOverlay acl)) = ?g"
    using d by (simp add: overlay_grants [of "applyTrustTierOverlay acl"] normalized_bits_fixed Let_def)
  have "applyTrustTierOverlay (applyTrustTierOverlay acl) = applyTrustTierOverlay acl"
    by (rule node_acl.equality) (simp_all add: grants)
  then show ?thesis
    by (simp add: resolveAclCapability_def less_eq_acl_decision_def Let_def)
      (auto simp: set_overlay_allowed set_overlay_confirm promoted_def is_truthy_def truthy_def)
qed

text \<open>Whatever is stored for a node, the list read back names the node and the credential it was
  asked for, grants only known bits, none of them both silently and on confirmation, and on the
  production tier no high-risk bit silently; an unreadable value gives the legacy default.\<close>

theorem normalized_acl_is_bound:
  assumes "acl = normalizeNodeAcl v fallback"
  shows "acl_nodeId acl = li_nodeId fallback \<and> ap_nodeId (acl_peer acl) = li_nodeId fallback \<and>
    ap_credentialId (acl_peer acl) = truthy (li_credentialId fallback) \<and>
    set (ag_allowed (acl_grants acl)) \<subseteq> set relay_capability_bits \<and>
    set (ag_allowed (acl_grants acl)) \<inter> set (ag_requiresConfirmation (acl_grants acl)) = {} \<and>
    (acl_trustTier acl = TierProd \<longrightarrow> set (ag_allowed (acl_grants acl)) \<inter> set high_risk_capabilities = {}) \<and>
    (\<not> is_record v \<longrightarrow> acl_trustTier acl = TierDev \<and>
       set (ag_allowed (acl_grants acl)) = set legacy_default_allowed_capabilities)"
proof -
  define raw where "raw = (if is_record v then stored_raw_acl v fallback
    else legacy_raw_acl (fallback\<lparr>li_trustTier := None, li_supersedes := None\<rparr>))"
  have raw: "acl = applyTrustTierOverlay raw" "acl_nodeId raw = li_nodeId fallback"
    "ap_nodeId (acl_peer raw) = li_nodeId fallback" "ap_credentialId (acl_peer raw) = truthy (li_credentialId fallback)"
    "\<not> is_record v \<Longrightarrow> acl_trustTier raw = TierDev \<and> ag_allowed (acl_grants raw) = legacy_default_allowed_capabilities \<and>
      ag_requiresConfirmation (acl_grants raw) = []"
    by (simp_all add: assms raw_def normalizeNodeAcl_def createLegacyDefaultNodeAcl_def stored_raw_acl_def
        legacy_raw_acl_def Let_def)
  have "set legacy_default_allowed_capabilities \<subseteq> set relay_capability_bits"
    by (simp add: legacy_default_allowed_capabilities_def relay_capability_bits_def)
  with raw show ?thesis
    by (auto simp: set_overlay_allowed set_overlay_confirm promoted_def)
qed

theorem normalized_acl_is_bound_witness:
  "acl_nodeId (normalizeNodeAcl (JObj [(''node'', JObj [(''nodeId'', JStr ''evil''), (''trustTier'', JStr ''prod'')])])
     \<lparr>li_nodeId = ''n1'', li_credentialId = None, li_displayName = None, li_trustTier = None, li_createdAt = ''t'',
      li_supersedes = None\<rparr>) = ''n1''"
  using normalized_acl_is_bound [OF refl, of "JObj [(''node'', JObj [(''nodeId'', JStr ''evil''), (''trustTier'', JStr ''prod'')])]"
      "\<lparr>li_nodeId = ''n1'', li_credentialId = None, li_displayName = None, li_trustTier = None, li_createdAt = ''t'',
      li_supersedes = None\<rparr>"]
  by simp

end
