(* ===== verification/Posix_Path.thy ===== *)
theory Posix_Path
  imports Relay_Prelude
begin

text \<open>
  The part of Node's \<open>path.posix\<close> the sources use: \<open>normalize\<close>, \<open>isAbsolute\<close> and \<open>resolve\<close> on strings, and
  the parts of a path between its slashes, by which the component theories say what place a path denotes.
\<close>

section \<open>Paths\<close>

text \<open>\<open>path.posix.normalize\<close>: the segments between slashes, with empty and single-dot ones left out
  and a double dot taking back the segment before it; above the root of an absolute path it is
  dropped, in a relative path it stays.\<close>

fun split_slash :: "string \<Rightarrow> string list" where
  "split_slash [] = [[]]"
| "split_slash (c # s) =
     (if c = CHR ''/'' then [] # split_slash s
      else case split_slash s of seg # segs \<Rightarrow> (c # seg) # segs | [] \<Rightarrow> [[c]])"

definition push_segment :: "bool \<Rightarrow> string list \<Rightarrow> string \<Rightarrow> string list" where
  "push_segment allowAboveRoot stack seg =
     (if seg = [] \<or> seg = ''.'' then stack
      else if seg = ''..'' then
        (if stack \<noteq> [] \<and> last stack \<noteq> ''..'' then butlast stack
         else if allowAboveRoot then stack @ [''..''] else stack)
      else stack @ [seg])"

definition normal_segments :: "bool \<Rightarrow> string \<Rightarrow> string list" where
  "normal_segments allowAboveRoot p = foldl (push_segment allowAboveRoot) [] (split_slash p)"

fun join_slash :: "string list \<Rightarrow> string" where
  "join_slash [] = []"
| "join_slash [s] = s"
| "join_slash (s # t # ss) = s @ ''/'' @ join_slash (t # ss)"

definition is_absolute :: "string \<Rightarrow> bool" where
  "is_absolute p \<longleftrightarrow> starts_with p ''/''"

definition posix_normalize :: "string \<Rightarrow> string" where
  "posix_normalize p =
     (if p = [] then ''.''
      else
        let absolute = is_absolute p; trailing = ends_with p ''/'';
            body = join_slash (normal_segments (\<not> absolute) p) in
        if body = [] then (if absolute then ''/'' else if trailing then ''./'' else ''.'')
        else (if absolute then ''/'' else []) @ body @ (if trailing then ''/'' else []))"

text \<open>\<open>path.resolve\<close> of a directory and a path below it: the last absolute one of the working directory, the
  directory and the path, followed by the ones after it, with all dot segments resolved.\<close>

definition posix_resolve :: "string \<Rightarrow> string list \<Rightarrow> string" where
  "posix_resolve workdir ps =
     ''/'' @ join_slash (normal_segments False
       (foldl (\<lambda>acc p. if p = [] then acc else if is_absolute p then p else acc @ ''/'' @ p) workdir ps))"

section \<open>Parts\<close>

definition plain_segment :: "string \<Rightarrow> bool" where
  "plain_segment s \<longleftrightarrow> s \<noteq> [] \<and> CHR ''/'' \<notin> set s \<and> s \<noteq> ''.'' \<and> s \<noteq> ''..''"

lemma split_slash_no_slash: "seg \<in> set (split_slash s) \<Longrightarrow> CHR ''/'' \<notin> set seg"
  by (induction s arbitrary: seg rule: split_slash.induct) (auto split: if_splits list.splits)

lemma split_slash_nonempty: "split_slash s \<noteq> []"
  by (induction s rule: split_slash.induct) (auto split: list.splits)

lemma split_slash_append: "split_slash (a @ CHR ''/'' # b) = split_slash a @ split_slash b"
  by (induction a) (auto split: list.splits simp: split_slash_nonempty)

lemma split_slash_single: "CHR ''/'' \<notin> set s \<Longrightarrow> split_slash s = [s]"
  by (induction s) auto

definition path_parts :: "string \<Rightarrow> string list" where
  "path_parts s = filter (\<lambda>seg. seg \<noteq> []) (split_slash s)"

lemma path_parts_append: "path_parts (a @ CHR ''/'' # b) = path_parts a @ path_parts b"
  by (simp add: path_parts_def split_slash_append)

lemma path_parts_join: "list_all plain_segment segs \<Longrightarrow> path_parts (join_slash segs) = segs"
proof (induction segs rule: join_slash.induct)
  case 1
  then show ?case by (simp add: path_parts_def)
next
  case (2 s)
  then show ?case by (simp add: path_parts_def split_slash_single plain_segment_def)
next
  case (3 s t ss)
  have "path_parts s = [s]" using 3(2) by (simp add: path_parts_def split_slash_single plain_segment_def)
  with 3 path_parts_append [of s "join_slash (t # ss)"] show ?case by simp
qed

definition solid_segment :: "string \<Rightarrow> bool" where
  "solid_segment s \<longleftrightarrow> s \<noteq> [] \<and> CHR ''/'' \<notin> set s"

lemma normal_segments_solid: "list_all solid_segment (normal_segments up p)"
proof -
  have "list_all solid_segment (push_segment up stack seg)"
    if "list_all solid_segment stack" "seg \<in> set (split_slash p)" for stack seg
    using that split_slash_no_slash [OF that(2)]
    by (auto simp: push_segment_def solid_segment_def list_all_iff dest: in_set_butlastD)
  then show ?thesis
    unfolding normal_segments_def by (intro foldl_invariant [where P = "list_all solid_segment"]) simp_all
qed

lemma is_absolute_iff: "is_absolute p \<longleftrightarrow> p \<noteq> [] \<and> hd p = CHR ''/''"
  by (cases p) (auto simp: is_absolute_def starts_with_def)

lemma join_slash_head:
  assumes "list_all solid_segment segs"
  shows "join_slash segs = [] \<or> hd (join_slash segs) \<noteq> CHR ''/''"
proof (cases segs)
  case (Cons s ss)
  then have s: "s \<noteq> []" "CHR ''/'' \<notin> set s" using assms by (auto simp: solid_segment_def)
  then have "hd s \<noteq> CHR ''/''" by (metis hd_in_set)
  moreover have "hd (join_slash segs) = hd s" using s(1) Cons by (cases ss) simp_all
  ultimately show ?thesis by simp
qed simp

lemma normal_segments_plain: "list_all plain_segment (normal_segments False p)"
proof -
  have "list_all plain_segment (push_segment False stack seg)"
    if "list_all plain_segment stack" "seg \<in> set (split_slash p)" for stack seg
    using that split_slash_no_slash [OF that(2)]
    by (auto simp: push_segment_def plain_segment_def list_all_iff dest: in_set_butlastD)
  then show ?thesis
    unfolding normal_segments_def by (intro foldl_invariant [where P = "list_all plain_segment"]) simp_all
qed

end
