(* ===== verification/Hub_Policy.thy ===== *)
theory Hub_Policy
  imports Security_Policy Posix_Path
begin

text \<open>
  The hub's policy evaluation of a routed operation (\<open>server/hub-policy-evaluator.ts\<close>): the guards in
  the order of the code, the decision on the required capability bits, the audit of a decision and
  its failing closed, the scope test with POSIX path normalisation.

  \<open>Date.parse\<close> of an arbitrary string is left to the implementation by the language, so the parser is
  an argument (\<open>dateParse\<close>, \<open>None\<close> for NaN); the properties hold for every such function. The audit
  sink is outside the model but for whether its \<open>append\<close> throws.
\<close>

section \<open>Inputs and decisions\<close>

datatype hub_decision_kind = HubAllow | HubDeny | HubChallenge | HubRevoke

datatype hub_reason =
    POLICY_ALLOWED | POLICY_CHALLENGE_REQUIRED | POLICY_NODE_NOT_PAIRED | POLICY_NODE_REVOKED
  | POLICY_NODE_ID_MISMATCH | POLICY_PEER_NODE_MISMATCH | POLICY_PEER_CREDENTIAL_MISMATCH
  | POLICY_SCOPE_NODE_MISMATCH | POLICY_SCOPE_DENIED | POLICY_ACL_MISSING | POLICY_ACL_REVOKED
  | POLICY_SESSION_EXPIRED | POLICY_SESSION_REVOKED | POLICY_UNKNOWN_CAPABILITY
  | POLICY_CAPABILITY_DENIED | POLICY_AUDIT_WRITE_FAILED_CLOSED | POLICY_LOCAL_COMPATIBILITY_ALLOWED

datatype hub_peer_kind = PeerHub | PeerNode | PeerLocalUser | PeerSystem

record hub_peer =
  hp_kind :: hub_peer_kind
  hp_nodeId :: "string option"
  hp_credentialId :: "string option"
  hp_displayName :: "string option"

record hub_intent =
  hi_action :: string
  hi_target :: "string option"

datatype hub_scope_kind = HsLocalCompatibility | HsPolicy policy_scope_kind | HsNodeCwd | HsWorktree

record hub_scope =
  hs_kind :: hub_scope_kind
  hs_nodeId :: string
  hs_cwd :: "string option"
  hs_path :: "string option"
  hs_workspaceId :: "string option"
  hs_repoId :: "string option"
  hs_repoPath :: "string option"
  hs_worktreePath :: "string option option"

text \<open>The fields of \<open>HubNodeSummary\<close> the evaluator reads; the tier of a node is a string of the wire.\<close>

record hub_node =
  hn_nodeId :: string
  hn_status :: string
  hn_credentialState :: string
  hn_credentialId :: "string option"
  hn_trustTier :: "string option"
  hn_policy :: "acl_summary option"

record hub_policy_input =
  in_peer :: hub_peer
  in_node :: "hub_node option"
  in_nodeId :: string
  in_intent :: hub_intent
  in_scope :: hub_scope
  in_requiredCapabilities :: "string list"
  in_nowMs :: int
  in_expiresAt :: "string option"
  in_revokedAt :: "string option"
  in_sessionId :: "string option"
  in_correlationId :: "string option"
  in_params :: "json option"

record hub_policy_decision =
  hd_decision :: hub_decision_kind
  hd_reasonCode :: hub_reason
  hd_message :: string
  hd_nodeId :: string
  hd_peer :: hub_peer
  hd_intent :: hub_intent
  hd_scope :: hub_scope
  hd_trustTier :: "trust_tier option"
  hd_aclRef :: "string option"
  hd_policyVersion :: "string option"
  hd_requiredBits :: "string list"
  hd_grantedBits :: "string list"
  hd_deniedBits :: "string list"
  hd_challengeBits :: "string list"
  hd_unknownBits :: "string list"
  hd_sessionId :: "string option"
  hd_correlationId :: "string option"
  hd_params :: "json option"

section \<open>Capabilities of an intent\<close>

definition sessionCreateCapability :: string where
  "sessionCreateCapability = ''session:create:terminal''"

definition sessionCreateCapabilities :: "string list" where
  "sessionCreateCapabilities = [sessionCreateCapability]"

definition requiredCapabilitiesForRpcIntent :: "string \<Rightarrow> string list" where
  "requiredCapabilitiesForRpcIntent action =
     (if action = ''sessions.interventions.read'' then [''session:read'', ''tab:intervention:read'']
      else if action = ''sessions.kill'' then [''session:control:kill'']
      else if action = ''sessions.create.terminal'' then [''session:create:terminal'']
      else if action = ''sessions.attach'' then [''session:attach'']
      else if action = ''sessions.renew'' then [''session:attach'']
      else if action = ''sessions.read'' then [''session:read'']
      else if action = ''rpc.fs.list'' then [''rpc:fs:list'']
      else if action = ''rpc.fs.stat'' then [''rpc:fs:read'']
      else if action = ''rpc.fs.read'' then [''rpc:fs:read'']
      else if action = ''rpc.fs.tail'' then [''rpc:fs:tail'']
      else if action = ''rpc.fs.write'' then [''rpc:fs:write'']
      else if action = ''rpc.fs.delete'' then [''rpc:fs:delete'']
      else if action = ''logs.tail'' then [''logs:read'']
      else if action = ''rpc.git.read'' then [''rpc:git:read'']
      else if action = ''rpc.git.write'' then [''rpc:git:write'']
      else if action = ''pty.exec.arbitrary'' then [''pty:exec:arbitrary'']
      else if action = ''preview.port-forward'' then [''preview:port-forward'']
      else [''rpc:unknown:'' @ action])"

definition known_bit :: "string \<Rightarrow> bool" where
  "known_bit b = isRelayCapabilityBit (JStr b)"

definition required_step :: "string list \<times> string list \<times> string set \<Rightarrow> string \<Rightarrow> string list \<times> string list \<times> string set" where
  "required_step acc b =
     (case acc of (known, unknown, seen) \<Rightarrow>
        if b \<in> seen then acc
        else if known_bit b then (known @ [b], unknown, insert b seen)
        else (known, unknown @ [b], insert b seen))"

definition normalizeRequiredCapabilities :: "string list \<Rightarrow> string list \<times> string list" where
  "normalizeRequiredCapabilities required =
     (case foldl required_step ([], [], {}) required of (known, unknown, seen) \<Rightarrow> (known, unknown))"

section \<open>Scopes\<close>

definition canonicalPolicyPath :: "string \<Rightarrow> string option" where
  "canonicalPolicyPath v =
     (let trimmed = trim v in
      if trimmed = [] \<or> CHR 0x00 \<in> set trimmed then None
      else
        let normalized = posix_normalize trimmed in
        if \<not> is_absolute normalized then None else Some normalized)"

definition pathWithinPrefix :: "string \<Rightarrow> string \<Rightarrow> bool" where
  "pathWithinPrefix candidate prefix =
     (case (canonicalPolicyPath candidate, canonicalPolicyPath prefix) of
        (Some c, Some p) \<Rightarrow> c = p \<or> starts_with c (p @ ''/'')
      | _ \<Rightarrow> False)"

definition in_opt :: "string \<Rightarrow> string list option \<Rightarrow> bool" where
  "in_opt x xs = (case xs of None \<Rightarrow> False | Some l \<Rightarrow> x \<in> set l)"

definition truthy_in :: "string option \<Rightarrow> string list option \<Rightarrow> bool" where
  "truthy_in x xs = (case truthy x of None \<Rightarrow> False | Some v \<Rightarrow> in_opt v xs)"

definition scopeMatchesPolicy :: "policy_scope \<Rightarrow> hub_scope \<Rightarrow> bool" where
  "scopeMatchesPolicy policy scope =
     (if hs_kind scope = HsLocalCompatibility then True
      else case ps_kind policy of
        ScopeNode \<Rightarrow> True
      | ScopeWorkspace \<Rightarrow> truthy_in (hs_workspaceId scope) (ps_workspaceIds policy)
      | ScopeRepo \<Rightarrow> truthy_in (hs_repoId scope) (ps_repoIds policy) \<or>
          truthy_in (hs_repoPath scope) (ps_repoIds policy)
      | ScopePath \<Rightarrow>
          (case truthy (nullish (hs_path scope) (nullish (Option.bind (hs_worktreePath scope) id)
              (nullish (hs_repoPath scope) (hs_cwd scope)))) of
             None \<Rightarrow> False
           | Some requestedPath \<Rightarrow>
               (case ps_pathPrefixes policy of None \<Rightarrow> False
                | Some prefixes \<Rightarrow> list_ex (pathWithinPrefix requestedPath) prefixes)))"

section \<open>Evaluation\<close>

definition isExpired :: "(string \<Rightarrow> int option) \<Rightarrow> string option \<Rightarrow> int \<Rightarrow> bool" where
  "isExpired dateParse expiresAt nowMs =
     (case truthy expiresAt of
        None \<Rightarrow> False
      | Some e \<Rightarrow> (case dateParse e of None \<Rightarrow> True | Some ms \<Rightarrow> ms \<le> nowMs))"

definition baseDecision :: "hub_policy_input \<Rightarrow> string list \<Rightarrow> string list \<Rightarrow> hub_policy_decision" where
  "baseDecision inp requiredBits unknownBits =
     \<lparr>hd_decision = HubDeny, hd_reasonCode = POLICY_CAPABILITY_DENIED, hd_message = ''policy denied'',
      hd_nodeId = in_nodeId inp, hd_peer = in_peer inp, hd_intent = in_intent inp, hd_scope = in_scope inp,
      hd_trustTier = None, hd_aclRef = None, hd_policyVersion = None, hd_requiredBits = requiredBits,
      hd_grantedBits = [], hd_deniedBits = requiredBits, hd_challengeBits = [], hd_unknownBits = unknownBits,
      hd_sessionId = truthy (in_sessionId inp), hd_correlationId = truthy (in_correlationId inp),
      hd_params = in_params inp\<rparr>"

definition tier_of_string :: "string \<Rightarrow> trust_tier option" where
  "tier_of_string s = (if isRelayTrustTier (JStr s) then Some (tier_of_json (JStr s)) else None)"

definition withPolicy :: "hub_policy_decision \<Rightarrow> hub_node \<Rightarrow> hub_policy_decision" where
  "withPolicy d node =
     (let tier = (case hn_policy node of Some p \<Rightarrow> Some (as_trustTier p)
                  | None \<Rightarrow> Option.bind (hn_trustTier node) tier_of_string);
          d1 = (case tier of None \<Rightarrow> d | Some t \<Rightarrow> d\<lparr>hd_trustTier := Some t\<rparr>)
      in case hn_policy node of None \<Rightarrow> d1
         | Some p \<Rightarrow> d1\<lparr>hd_aclRef := Some (as_ref p), hd_policyVersion := Some (as_policyVersion p)\<rparr>)"

definition deny :: "hub_policy_decision \<Rightarrow> hub_reason \<Rightarrow> string \<Rightarrow> hub_policy_decision" where
  "deny d reason message = d\<lparr>hd_decision := HubDeny, hd_reasonCode := reason, hd_message := message\<rparr>"

definition revoke :: "hub_policy_decision \<Rightarrow> hub_node \<Rightarrow> hub_reason \<Rightarrow> string \<Rightarrow> hub_policy_decision" where
  "revoke d node reason message =
     (withPolicy d node)\<lparr>hd_decision := HubRevoke, hd_reasonCode := reason, hd_message := message\<rparr>"

text \<open>The last part: every required bit is challenged, granted or denied.\<close>

definition decideBits :: "hub_policy_input \<Rightarrow> hub_policy_decision \<Rightarrow> acl_summary \<Rightarrow> string list \<Rightarrow> hub_policy_decision" where
  "decideBits inp d policy known =
     (let challengeBits = filter (\<lambda>b. b \<in> set (as_requiresConfirmation policy)) known;
          grantedBits = filter (\<lambda>b. b \<notin> set (as_requiresConfirmation policy) \<and> b \<in> set (as_allowed policy)) known;
          deniedBits = filter (\<lambda>b. b \<notin> set (as_requiresConfirmation policy) \<and> b \<notin> set (as_allowed policy)) known;
          withBits = d\<lparr>hd_grantedBits := grantedBits, hd_challengeBits := challengeBits, hd_deniedBits := deniedBits\<rparr>
      in if length deniedBits > 0 then
           deny withBits POLICY_CAPABILITY_DENIED ''node ACL does not grant a required capability''
         else if length challengeBits > 0 then
           withBits\<lparr>hd_decision := HubChallenge, hd_reasonCode := POLICY_CHALLENGE_REQUIRED,
             hd_message := ''node ACL requires confirmation for this capability''\<rparr>
         else withBits\<lparr>hd_decision := HubAllow,
             hd_reasonCode := (if hs_kind (in_scope inp) = HsLocalCompatibility
               then POLICY_LOCAL_COMPATIBILITY_ALLOWED else POLICY_ALLOWED),
             hd_message := ''policy allowed''\<rparr>)"

definition evaluateHubPolicy :: "(string \<Rightarrow> int option) \<Rightarrow> hub_policy_input \<Rightarrow> hub_policy_decision" where
  "evaluateHubPolicy dateParse inp =
     (case normalizeRequiredCapabilities (in_requiredCapabilities inp) of (known, unknown) \<Rightarrow>
      let base = baseDecision inp known unknown in
      case in_node inp of
        None \<Rightarrow> deny base POLICY_NODE_NOT_PAIRED ''node is not paired''
      | Some node \<Rightarrow>
        if hn_status node = ''revoked'' \<or> hn_credentialState node = ''revoked'' then
          revoke base node POLICY_NODE_REVOKED ''node credential was revoked''
        else if hn_nodeId node \<noteq> in_nodeId inp then
          deny (withPolicy base node) POLICY_NODE_ID_MISMATCH ''policy node does not match requested node''
        else if hp_kind (in_peer inp) = PeerNode \<and> hp_nodeId (in_peer inp) \<noteq> Some (in_nodeId inp) then
          deny (withPolicy base node) POLICY_PEER_NODE_MISMATCH ''node credential cannot act as a different node''
        else if hp_kind (in_peer inp) = PeerNode \<and> is_truthy (hp_credentialId (in_peer inp)) \<and>
            hp_credentialId (in_peer inp) \<noteq> hn_credentialId node then
          deny (withPolicy base node) POLICY_PEER_CREDENTIAL_MISMATCH
            ''node credential does not match the active credential for this node''
        else if hs_nodeId (in_scope inp) \<noteq> in_nodeId inp then
          deny (withPolicy base node) POLICY_SCOPE_NODE_MISMATCH ''requested scope belongs to a different node''
        else if is_truthy (in_revokedAt inp) then
          revoke (withPolicy base node) node POLICY_SESSION_REVOKED ''scoped session has been revoked''
        else if isExpired dateParse (in_expiresAt inp) (in_nowMs inp) then
          revoke (withPolicy base node) node POLICY_SESSION_EXPIRED ''scoped session has expired''
        else case hn_policy node of
          None \<Rightarrow> deny (withPolicy base node) POLICY_ACL_MISSING ''node ACL policy is missing''
        | Some policy \<Rightarrow>
          if is_truthy (as_revokedAt policy) \<or> is_truthy (as_supersededBy policy) then
            revoke (withPolicy base node) node POLICY_ACL_REVOKED ''node ACL is revoked or superseded''
          else if \<not> scopeMatchesPolicy (as_scope policy) (in_scope inp) then
            deny (withPolicy base node) POLICY_SCOPE_DENIED ''requested scope is outside the node ACL''
          else if length unknown > 0 then
            deny (withPolicy base node) POLICY_UNKNOWN_CAPABILITY
              ''required capability is unknown to this policy version''
          else decideBits inp (withPolicy base node) policy known)"

section \<open>Errors and audit\<close>

definition policyDecisionErrorCode :: "hub_policy_decision \<Rightarrow> string" where
  "policyDecisionErrorCode d = (case hd_reasonCode d of
     POLICY_NODE_NOT_PAIRED \<Rightarrow> ''NOT_FOUND''
   | POLICY_NODE_REVOKED \<Rightarrow> ''NODE_REVOKED''
   | POLICY_ACL_REVOKED \<Rightarrow> ''NODE_REVOKED''
   | POLICY_SESSION_EXPIRED \<Rightarrow> ''SESSION_EXPIRED''
   | POLICY_SESSION_REVOKED \<Rightarrow> ''SESSION_REVOKED''
   | POLICY_SCOPE_NODE_MISMATCH \<Rightarrow> ''SESSION_MISMATCH''
   | POLICY_AUDIT_WRITE_FAILED_CLOSED \<Rightarrow> ''INTERNAL''
   | _ \<Rightarrow> if hd_decision d = HubChallenge then ''UNSUPPORTED_CAPABILITY'' else ''UNAUTHORIZED'')"

record relay_policy_error =
  re_code :: string
  re_message :: string
  re_retryable :: bool
  re_reasonCode :: hub_reason
  re_decision :: hub_decision_kind
  re_requiredBits :: "string list"
  re_grantedBits :: "string list"
  re_deniedBits :: "string list"
  re_challengeBits :: "string list"
  re_unknownBits :: "string list"
  re_aclRef :: "string option"
  re_policyVersion :: "string option"

definition policyDecisionToRelayError :: "hub_policy_decision \<Rightarrow> relay_policy_error" where
  "policyDecisionToRelayError d =
     \<lparr>re_code = policyDecisionErrorCode d, re_message = hd_message d, re_retryable = False,
      re_reasonCode = hd_reasonCode d, re_decision = hd_decision d, re_requiredBits = hd_requiredBits d,
      re_grantedBits = hd_grantedBits d, re_deniedBits = hd_deniedBits d,
      re_challengeBits = hd_challengeBits d, re_unknownBits = hd_unknownBits d,
      re_aclRef = hd_aclRef d, re_policyVersion = hd_policyVersion d\<rparr>"

datatype audit_event_type = AuditGrant | AuditChallenge | AuditRevocation | AuditDenial

definition auditEventType :: "hub_policy_decision \<Rightarrow> audit_event_type" where
  "auditEventType d = (case hd_decision d of
     HubAllow \<Rightarrow> AuditGrant | HubChallenge \<Rightarrow> AuditChallenge | HubRevoke \<Rightarrow> AuditRevocation | HubDeny \<Rightarrow> AuditDenial)"

datatype audit_decision = AudAllow | AudRequiresConfirmation | AudRevoked | AudDeny

definition auditDecision :: "hub_policy_decision \<Rightarrow> audit_decision" where
  "auditDecision d = (case hd_decision d of
     HubAllow \<Rightarrow> AudAllow | HubChallenge \<Rightarrow> AudRequiresConfirmation | HubRevoke \<Rightarrow> AudRevoked | HubDeny \<Rightarrow> AudDeny)"

record audit_peer_ref =
  apr_kind :: string
  apr_nodeId :: "string option"
  apr_credentialId :: "string option"
  apr_displayName :: "string option"

definition auditPeer :: "hub_peer \<Rightarrow> audit_peer_ref" where
  "auditPeer peer = (case hp_kind peer of
     PeerNode \<Rightarrow> \<lparr>apr_kind = ''node'', apr_nodeId = truthy (hp_nodeId peer),
       apr_credentialId = truthy (hp_credentialId peer), apr_displayName = truthy (hp_displayName peer)\<rparr>
   | PeerLocalUser \<Rightarrow> \<lparr>apr_kind = ''user'', apr_nodeId = None, apr_credentialId = None,
       apr_displayName = truthy (hp_displayName peer)\<rparr>
   | PeerHub \<Rightarrow> \<lparr>apr_kind = ''hub'', apr_nodeId = None, apr_credentialId = None, apr_displayName = None\<rparr>
   | PeerSystem \<Rightarrow> \<lparr>apr_kind = ''system'', apr_nodeId = None, apr_credentialId = None, apr_displayName = None\<rparr>)"

definition knownDeniedUnknowns :: "hub_policy_decision \<Rightarrow> string list" where
  "knownDeniedUnknowns d = filter known_bit (hd_unknownBits d)"

record policy_audit_entry =
  pa_eventType :: audit_event_type
  pa_decision :: audit_decision
  pa_reasonCode :: hub_reason
  pa_peer :: audit_peer_ref
  pa_nodeId :: string
  pa_trustTier :: "trust_tier option"
  pa_sessionId :: "string option"
  pa_intent :: hub_intent
  pa_scope :: "json + hub_scope"
  pa_params :: "json option"
  pa_requiredBits :: "string list"
  pa_grantedBits :: "string list"
  pa_deniedBits :: "string list"
  pa_aclRef :: "string option"
  pa_policyVersion :: string
  pa_correlationId :: "string option"

text \<open>The material, when given, replaces the scope and the parameters of the decision.\<close>

definition auditEntryForPolicyDecision ::
  "hub_policy_decision \<Rightarrow> json option \<Rightarrow> json option \<Rightarrow> policy_audit_entry" where
  "auditEntryForPolicyDecision d materialScope materialParams =
     \<lparr>pa_eventType = auditEventType d, pa_decision = auditDecision d, pa_reasonCode = hd_reasonCode d,
      pa_peer = auditPeer (hd_peer d), pa_nodeId = hd_nodeId d, pa_trustTier = hd_trustTier d,
      pa_sessionId = truthy (hd_sessionId d), pa_intent = hd_intent d,
      pa_scope = (case materialScope of Some s \<Rightarrow> Inl s | None \<Rightarrow> Inr (hd_scope d)),
      pa_params = nullish materialParams (hd_params d),
      pa_requiredBits = hd_requiredBits d, pa_grantedBits = hd_grantedBits d,
      pa_deniedBits = hd_deniedBits d @ knownDeniedUnknowns d, pa_aclRef = truthy (hd_aclRef d),
      pa_policyVersion = (case hd_policyVersion d of Some v \<Rightarrow> v | None \<Rightarrow> relay_security_policy_version),
      pa_correlationId = truthy (hd_correlationId d)\<rparr>"

text \<open>A sink: the entries appended so far, or \<open>None\<close> when there is none; \<open>throws\<close> says whether
  \<open>append\<close> fails on an entry.\<close>

definition appendPolicyAudit ::
  "policy_audit_entry list option \<Rightarrow> (policy_audit_entry \<Rightarrow> bool) \<Rightarrow> hub_policy_decision \<Rightarrow>
   json option \<Rightarrow> json option \<Rightarrow> hub_policy_decision \<times> policy_audit_entry list option" where
  "appendPolicyAudit sink throws d materialScope materialParams =
     (case sink of
        None \<Rightarrow> (d, None)
      | Some entries \<Rightarrow>
          let entry = auditEntryForPolicyDecision d materialScope materialParams in
          if \<not> throws entry then (d, Some (entries @ [entry]))
          else case classifySecurityAuditWriteFailure (hd_trustTier d) (hd_requiredBits d) of
            (FailClosed, message) \<Rightarrow>
              (deny (d\<lparr>hd_grantedBits := [], hd_deniedBits := hd_requiredBits d, hd_challengeBits := []\<rparr>)
                 POLICY_AUDIT_WRITE_FAILED_CLOSED message, Some entries)
          | (Degraded, message) \<Rightarrow> (d, Some entries))"

section \<open>The guards\<close>

lemma required_step_eq:
  "required_step (known, unknown, seen) b =
    (if b \<in> seen then (known, unknown, seen)
     else if known_bit b then (known @ [b], unknown, insert b seen)
     else (known, unknown @ [b], insert b seen))"
  by (simp add: required_step_def)

lemma required_foldl:
  "foldl required_step (known, unknown, seen) bits = (known', unknown', seen') \<Longrightarrow>
    set known' = set known \<union> {b \<in> set bits - seen. known_bit b} \<and>
    set unknown' = set unknown \<union> {b \<in> set bits - seen. \<not> known_bit b}"
proof (induction bits arbitrary: known unknown seen)
  case (Cons b bits)
  consider "b \<in> seen" | "b \<notin> seen" "known_bit b" | "b \<notin> seen" "\<not> known_bit b" by blast
  then show ?case
  proof cases
    case 1
    with Cons.prems have "foldl required_step (known, unknown, seen) bits = (known', unknown', seen')"
      by (simp add: required_step_eq)
    from Cons.IH [OF this] 1 show ?thesis by auto
  next
    case 2
    with Cons.prems have "foldl required_step (known @ [b], unknown, insert b seen) bits = (known', unknown', seen')"
      by (simp add: required_step_eq)
    from Cons.IH [OF this] 2 show ?thesis by auto
  next
    case 3
    with Cons.prems have "foldl required_step (known, unknown @ [b], insert b seen) bits = (known', unknown', seen')"
      by (simp add: required_step_eq)
    from Cons.IH [OF this] 3 show ?thesis by auto
  qed
qed simp

lemma required_sets:
  assumes "normalizeRequiredCapabilities bits = (known, unknown)"
  shows "set known = {b \<in> set bits. known_bit b}" and "set unknown = {b \<in> set bits. \<not> known_bit b}"
  using assms required_foldl [of "[]" "[]" "{}" bits]
  by (auto simp: normalizeRequiredCapabilities_def split: prod.splits)

text \<open>What a request has to meet before its capabilities are looked at.\<close>

definition request_ok :: "(string \<Rightarrow> int option) \<Rightarrow> hub_policy_input \<Rightarrow> hub_node \<Rightarrow> acl_summary \<Rightarrow> bool" where
  "request_ok dateParse inp node policy \<longleftrightarrow>
     in_node inp = Some node \<and> hn_status node \<noteq> ''revoked'' \<and> hn_credentialState node \<noteq> ''revoked'' \<and>
     hn_nodeId node = in_nodeId inp \<and>
     (hp_kind (in_peer inp) = PeerNode \<longrightarrow> hp_nodeId (in_peer inp) = Some (in_nodeId inp) \<and>
        (is_truthy (hp_credentialId (in_peer inp)) \<longrightarrow> hp_credentialId (in_peer inp) = hn_credentialId node)) \<and>
     hs_nodeId (in_scope inp) = in_nodeId inp \<and> \<not> is_truthy (in_revokedAt inp) \<and>
     \<not> isExpired dateParse (in_expiresAt inp) (in_nowMs inp) \<and> hn_policy node = Some policy \<and>
     \<not> is_truthy (as_revokedAt policy) \<and> \<not> is_truthy (as_supersededBy policy) \<and>
     scopeMatchesPolicy (as_scope policy) (in_scope inp)"

lemma refusals [simp]:
  "hd_decision (deny d r m) = HubDeny" "hd_decision (revoke d n r m) = HubRevoke"
  by (simp_all add: deny_def revoke_def)

lemma evaluate_passed:
  assumes "request_ok dateParse inp node policy"
    and "normalizeRequiredCapabilities (in_requiredCapabilities inp) = (known, unknown)"
  shows "evaluateHubPolicy dateParse inp =
    (if unknown \<noteq> [] then deny (withPolicy (baseDecision inp known unknown) node) POLICY_UNKNOWN_CAPABILITY
        ''required capability is unknown to this policy version''
     else decideBits inp (withPolicy (baseDecision inp known unknown) node) policy known)"
  using assms unfolding evaluateHubPolicy_def request_ok_def Let_def
  by (simp only: prod.case option.case if_False simp_thms not_True_eq_False length_greater_0_conv) auto

lemma evaluate_refused:
  assumes "\<nexists>node policy. request_ok dateParse inp node policy"
  shows "hd_decision (evaluateHubPolicy dateParse inp) = HubDeny \<or> hd_decision (evaluateHubPolicy dateParse inp) = HubRevoke"
  using assms unfolding evaluateHubPolicy_def request_ok_def Let_def
  by (simp split: prod.splits option.splits) blast

lemma decideBits_decision:
  "hd_decision (decideBits inp d policy known) =
    (if \<exists>b\<in>set known. b \<notin> set (as_requiresConfirmation policy) \<and> b \<notin> set (as_allowed policy) then HubDeny
     else if \<exists>b\<in>set known. b \<in> set (as_requiresConfirmation policy) then HubChallenge else HubAllow)"
  by (auto simp: decideBits_def Let_def filter_empty_conv)

lemma known_bit_iff: "known_bit b \<longleftrightarrow> b \<in> set relay_capability_bits"
  by (simp add: known_bit_def isRelayCapabilityBit_def str_sat_def)

lemma evaluate_decision:
  assumes "request_ok dateParse inp node policy"
  shows "hd_decision (evaluateHubPolicy dateParse inp) =
    (let req = set (in_requiredCapabilities inp) in
     if \<not> req \<subseteq> set relay_capability_bits \<or>
        \<not> req \<subseteq> set (as_requiresConfirmation policy) \<union> set (as_allowed policy) then HubDeny
     else if req \<inter> set (as_requiresConfirmation policy) \<noteq> {} then HubChallenge else HubAllow)"
proof -
  obtain known unknown where n: "normalizeRequiredCapabilities (in_requiredCapabilities inp) = (known, unknown)"
    by force
  note k = required_sets [OF n]
  show ?thesis
  proof (cases "set (in_requiredCapabilities inp) \<subseteq> set relay_capability_bits")
    case True
    then have "set unknown = {}" "set known = set (in_requiredCapabilities inp)"
      using k by (auto simp: known_bit_iff)
    then have "unknown = []" "set known = set (in_requiredCapabilities inp)" by simp_all
    with evaluate_passed [OF assms n] True show ?thesis
      by (auto simp: decideBits_decision Let_def)
  next
    case False
    then have "unknown \<noteq> []" using k(2) by (auto simp: known_bit_iff)
    with evaluate_passed [OF assms n] False show ?thesis by (simp add: Let_def)
  qed
qed

text \<open>C3: The hub lets an operation through exactly when every guard holds: the node is paired, not
  revoked and the one addressed, a node peer acts for itself with its active credential, the session
  is neither revoked nor expired, the access-control list exists, is live and covers the scope, and
  every required capability is a known bit the list grants without confirmation.\<close>

theorem hub_allows_exactly:
  "hd_decision (evaluateHubPolicy dateParse inp) = HubAllow \<longleftrightarrow>
    (\<exists>node policy. request_ok dateParse inp node policy \<and>
      set (in_requiredCapabilities inp) \<subseteq> set relay_capability_bits \<inter> set (as_allowed policy) - set (as_requiresConfirmation policy))"
proof (cases "\<exists>node policy. request_ok dateParse inp node policy")
  case True
  then obtain node policy where ok: "request_ok dateParse inp node policy" by blast
  have unique: "policy' = policy" if "request_ok dateParse inp node' policy'" for node' policy'
    using that ok by (auto simp: request_ok_def)
  then have "(\<exists>node policy. request_ok dateParse inp node policy \<and> P policy) \<longleftrightarrow> P policy" for P
    using ok by blast
  then show ?thesis
    unfolding evaluate_decision [OF ok] Let_def by auto
next
  case False
  with evaluate_refused [OF False] show ?thesis by auto
qed

lemma summary_fields [simp]:
  "as_allowed (summarizeAcl acl) = ag_allowed (acl_grants (applyTrustTierOverlay acl))"
  "as_requiresConfirmation (summarizeAcl acl) = ag_requiresConfirmation (acl_grants (applyTrustTierOverlay acl))"
  "is_truthy (as_revokedAt (summarizeAcl acl)) \<longleftrightarrow> is_truthy (al_revokedAt (acl_lifecycle acl))"
  "is_truthy (as_supersededBy (summarizeAcl acl)) \<longleftrightarrow> is_truthy (al_supersededBy (acl_lifecycle acl))"
  "as_scope (summarizeAcl acl) = acl_scope acl"
  by (simp_all add: summarizeAcl_def Let_def is_truthy_def truthy_def split: option.split)

text \<open>For a single capability and a node whose policy is the summary of an access-control list, the
  hub's decision is the list's own resolution: allow, challenge and refusal agree.\<close>

theorem hub_decision_agrees_with_acl:
  assumes "request_ok dateParse inp node (summarizeAcl acl)" and "in_requiredCapabilities inp = [c]"
  shows "hd_decision (evaluateHubPolicy dateParse inp) =
    (case ar_decision (resolveAclCapability acl c) of
       AclAllow \<Rightarrow> HubAllow | AclRequiresConfirmation \<Rightarrow> HubChallenge | AclDeny \<Rightarrow> HubDeny)"
proof -
  have "\<not> is_truthy (al_revokedAt (acl_lifecycle acl))"
    using assms(1) by (simp add: request_ok_def)
  then show ?thesis
    unfolding evaluate_decision [OF assms(1)] assms(2)
    by (simp add: Let_def resolve_unfold)
qed

definition sample_acl :: "trust_tier \<Rightarrow> node_acl" where
  "sample_acl tier = createLegacyDefaultNodeAcl \<lparr>li_nodeId = ''n1'', li_credentialId = None, li_displayName = None,
     li_trustTier = Some tier, li_createdAt = ''t'', li_supersedes = None\<rparr>"

definition sample_request :: "trust_tier \<Rightarrow> string list \<Rightarrow> hub_policy_input" where
  "sample_request tier bits =
     \<lparr>in_peer = \<lparr>hp_kind = PeerHub, hp_nodeId = None, hp_credentialId = None, hp_displayName = None\<rparr>,
      in_node = Some \<lparr>hn_nodeId = ''n1'', hn_status = ''online'', hn_credentialState = ''active'', hn_credentialId = None,
        hn_trustTier = None, hn_policy = Some (summarizeAcl (sample_acl tier))\<rparr>,
      in_nodeId = ''n1'', in_intent = \<lparr>hi_action = ''sessions.kill'', hi_target = None\<rparr>,
      in_scope = \<lparr>hs_kind = HsNodeCwd, hs_nodeId = ''n1'', hs_cwd = Some ''/w'', hs_path = None, hs_workspaceId = None,
        hs_repoId = None, hs_repoPath = None, hs_worktreePath = None\<rparr>,
      in_requiredCapabilities = bits, in_nowMs = 0, in_expiresAt = None, in_revokedAt = None, in_sessionId = None,
      in_correlationId = None, in_params = None\<rparr>"

lemma sample_request_ok:
  "request_ok (\<lambda>_. None) (sample_request tier bits) (the (in_node (sample_request tier bits))) (summarizeAcl (sample_acl tier))"
  by (simp add: request_ok_def sample_request_def sample_acl_def summarizeAcl_def createLegacyDefaultNodeAcl_def
      legacy_raw_acl_def is_truthy_def truthy_def isExpired_def scopeMatchesPolicy_def Let_def)

theorem hub_decision_agrees_with_acl_witness:
  "hd_decision (evaluateHubPolicy (\<lambda>_. None) (sample_request TierProd [''session:control:kill''])) = HubChallenge"
proof -
  have "ar_decision (resolveAclCapability (sample_acl TierProd) ''session:control:kill'') = AclRequiresConfirmation"
    by code_simp
  with hub_decision_agrees_with_acl [OF sample_request_ok, of TierProd "[''session:control:kill'']" "''session:control:kill''"]
  show ?thesis by (simp add: sample_request_def)
qed

text \<open>An intent without a capability of its own is never let through and never only challenged: its
  placeholder capability is unknown to every policy.\<close>

theorem unknown_intent_is_refused:
  assumes "requiredCapabilitiesForRpcIntent action = [''rpc:unknown:'' @ action]"
    and "in_requiredCapabilities inp = requiredCapabilitiesForRpcIntent action"
  shows "hd_decision (evaluateHubPolicy dateParse inp) = HubDeny \<or> hd_decision (evaluateHubPolicy dateParse inp) = HubRevoke"
proof (cases "\<exists>node policy. request_ok dateParse inp node policy")
  case True
  have "''rpc:unknown:'' @ action \<notin> set relay_capability_bits"
    by (simp add: relay_capability_bits_def)
  with True assms show ?thesis by (auto simp: evaluate_decision)
qed (rule evaluate_refused)

theorem unknown_intent_is_refused_witness:
  "hd_decision (evaluateHubPolicy (\<lambda>_. None) (sample_request TierDev (requiredCapabilitiesForRpcIntent ''rpc.fs.chmod''))) \<noteq> HubAllow"
  using unknown_intent_is_refused [of "''rpc.fs.chmod''" "sample_request TierDev (requiredCapabilitiesForRpcIntent ''rpc.fs.chmod'')" "\<lambda>_. None"]
  by (auto simp: requiredCapabilitiesForRpcIntent_def sample_request_def)

text \<open>C39: Auditing fails closed. With a sink present, a decision that still allows has been recorded as
  it is, unless the node is below the production tier and no required bit is high-risk; and when the
  write fails otherwise, the operation is denied with every required bit.\<close>

theorem audit_fails_closed:
  assumes "appendPolicyAudit (Some entries) throws d ms mp = (d', sink')"
  shows "(hd_decision d' = HubAllow \<longrightarrow>
      sink' = Some (entries @ [auditEntryForPolicyDecision d ms mp]) \<and> d' = d \<or>
      hd_trustTier d \<noteq> Some TierProd \<and> set (hd_requiredBits d) \<inter> set high_risk_capabilities = {}) \<and>
    (throws (auditEntryForPolicyDecision d ms mp) \<and>
       (hd_trustTier d = Some TierProd \<or> set (hd_requiredBits d) \<inter> set high_risk_capabilities \<noteq> {}) \<longrightarrow>
      hd_decision d' = HubDeny \<and> hd_grantedBits d' = [] \<and> hd_deniedBits d' = hd_requiredBits d \<and>
      policyDecisionErrorCode d' = ''INTERNAL'')"
  using assms
  by (auto simp: appendPolicyAudit_def classifySecurityAuditWriteFailure_def Let_def deny_def list_ex_iff
      policyDecisionErrorCode_def split: if_splits)

theorem audit_fails_closed_witness:
  "let d = evaluateHubPolicy (\<lambda>_. None) (sample_request TierDev [''session:control:kill''])
   in hd_decision (fst (appendPolicyAudit (Some []) (\<lambda>_. True) d None None)) = HubDeny"
proof -
  let ?d = "evaluateHubPolicy (\<lambda>_. None) (sample_request TierDev [''session:control:kill''])"
  have "set (hd_requiredBits ?d) \<inter> set high_risk_capabilities \<noteq> {}" by code_simp
  moreover obtain d' s' where "appendPolicyAudit (Some []) (\<lambda>_. True) ?d None None = (d', s')" by force
  ultimately show ?thesis using audit_fails_closed [of "[]" "\<lambda>_. True" ?d None None d' s'] by (simp add: Let_def)
qed

section \<open>Paths stay inside their prefix\<close>

text \<open>The place an absolute path denotes.\<close>

definition resolved :: "string \<Rightarrow> string list" where
  "resolved p = normal_segments False (trim p)"

lemma canonical_parts:
  assumes "canonicalPolicyPath p = Some c"
  shows "path_parts c = resolved p"
proof -
  let ?t = "trim p"
  from assms have ne: "?t \<noteq> []" and c: "c = posix_normalize ?t" and abs: "is_absolute c"
    by (auto simp: canonicalPolicyPath_def Let_def split: if_splits)
  have at: "is_absolute ?t"
  proof (rule ccontr)
    assume rel: "\<not> is_absolute ?t"
    let ?body = "join_slash (normal_segments True ?t)"
    have "?body = [] \<or> hd ?body \<noteq> CHR ''/''"
      by (rule join_slash_head [OF normal_segments_solid])
    moreover have "c = (if ?body = [] then (if ends_with ?t ''/'' then ''./'' else ''.'')
        else ?body @ (if ends_with ?t ''/'' then ''/'' else []))"
      using rel c ne by (simp add: posix_normalize_def Let_def)
    ultimately have "hd c \<noteq> CHR ''/''" by (auto simp: hd_append)
    with abs show False by (simp add: is_absolute_iff)
  qed
  let ?segs = "normal_segments False ?t"
  have parts: "path_parts (join_slash ?segs) = ?segs" by (rule path_parts_join [OF normal_segments_plain])
  have c': "c = (if join_slash ?segs = [] then ''/'' else ''/'' @ join_slash ?segs @ (if ends_with ?t ''/'' then ''/'' else []))"
    using c ne at by (simp add: posix_normalize_def Let_def)
  show ?thesis
    unfolding c' resolved_def
    using parts path_parts_append [of "[]" "join_slash ?segs"]
      path_parts_append [of "''/'' @ join_slash ?segs" "[]"] path_parts_append [of "[]" "[]"]
    by (auto simp: path_parts_def)
qed

text \<open>A path the scope test accepts under a prefix denotes a place at or below the place the prefix
  denotes, after all dot segments are resolved; a path cannot climb out of the prefix.\<close>

theorem path_scope_is_contained:
  assumes "pathWithinPrefix candidate prefix"
  shows "\<exists>rest. resolved candidate = resolved prefix @ rest \<and> ''..'' \<notin> set (resolved candidate)"
proof -
  from assms obtain c p where cp: "canonicalPolicyPath candidate = Some c" "canonicalPolicyPath prefix = Some p"
    and "c = p \<or> starts_with c (p @ ''/'')"
    by (auto simp: pathWithinPrefix_def split: option.splits)
  then obtain u where "c = p \<or> c = p @ CHR ''/'' # u" by (auto simp: starts_with_iff)
  then have "path_parts c = path_parts p @ (if c = p then [] else path_parts u)"
    using path_parts_append by auto
  moreover have "''..'' \<notin> set (resolved candidate)"
    using normal_segments_plain [of "trim candidate"] by (auto simp: resolved_def list_all_iff plain_segment_def)
  ultimately show ?thesis
    unfolding canonical_parts [OF cp(1)] canonical_parts [OF cp(2)] by blast
qed

theorem path_scope_is_contained_witness:
  "pathWithinPrefix ''/repo/./src/../lib'' ''/repo'' \<and>
   (\<exists>rest. resolved ''/repo/./src/../lib'' = resolved ''/repo'' @ rest)"
proof -
  have "pathWithinPrefix ''/repo/./src/../lib'' ''/repo''" by code_simp
  with path_scope_is_contained [OF this] show ?thesis by blast
qed

text \<open>A prefix that ends in a slash, the root included, covers nothing below it, although the same
  prefix without the slash does: normalisation keeps the trailing slash and the test then looks for
  two of them.\<close>

theorem trailing_slash_prefix_covers_nothing:
  "pathWithinPrefix ''/repo/src'' ''/repo'' \<and> \<not> pathWithinPrefix ''/repo/src'' ''/repo/'' \<and>
   \<not> pathWithinPrefix ''/repo/src'' ''/'' \<and> \<not> pathWithinPrefix ''/repo/../etc'' ''/repo''"
  by code_simp

end
