(* ===== verification/Identity.thy ===== *)
theory Identity
  imports Relay_Prelude
begin

text \<open>
  Node-scoped ids (\<open>shared/identity.ts\<close>): a node id and a local id, each percent-encoded, joined by a
  colon. Ids travel through \<open>encodeURIComponent\<close> and \<open>decodeURIComponent\<close>, which work on Unicode
  text, so strings are lists of code points here (a lone surrogate is a code point between 55296 and
  57343); where the colon stands relative to the ends of a string does not depend on whether units or
  points are counted. The encoded id is plain ASCII and of type \<^typ>\<open>string\<close>.

  The properties: what is created can be parsed back to exactly the two parts, so two different pairs
  never share an id and no id of one node can be taken for an id of another.
\<close>

type_synonym code_points = "nat list"

section \<open>Percent encoding\<close>

definition is_surrogate :: "nat \<Rightarrow> bool" where
  "is_surrogate c \<longleftrightarrow> 55296 \<le> c \<and> c \<le> 57343"

text \<open>The characters \<open>encodeURIComponent\<close> leaves alone: letters, digits and \<open>- _ . ! ~ * ' ( )\<close>.\<close>

definition uri_unreserved :: "nat \<Rightarrow> bool" where
  "uri_unreserved c \<longleftrightarrow> (65 \<le> c \<and> c \<le> 90) \<or> (97 \<le> c \<and> c \<le> 122) \<or> (48 \<le> c \<and> c \<le> 57) \<or>
     c \<in> {45, 95, 46, 33, 126, 42, 39, 40, 41}"

definition utf8_encode :: "nat \<Rightarrow> nat list" where
  "utf8_encode c =
     (if c < 128 then [c]
      else if c < 2048 then [192 + c div 64, 128 + c mod 64]
      else if c < 65536 then [224 + c div 4096, 128 + (c div 64) mod 64, 128 + c mod 64]
      else [240 + c div 262144, 128 + (c div 4096) mod 64, 128 + (c div 64) mod 64, 128 + c mod 64])"

definition hex_digit :: "nat \<Rightarrow> nat" where
  "hex_digit n = (if n < 10 then 48 + n else 55 + n)"

definition percent_byte :: "nat \<Rightarrow> code_points" where
  "percent_byte b = [37, hex_digit (b div 16), hex_digit (b mod 16)]"

text \<open>\<open>None\<close> is the \<open>URIError\<close> of a lone surrogate.\<close>

fun encodeURIComponent :: "code_points \<Rightarrow> code_points option" where
  "encodeURIComponent [] = Some []"
| "encodeURIComponent (c # s) =
     (if is_surrogate c \<or> c > 1114111 then None
      else map_option (append (if uri_unreserved c then [c] else concat (map percent_byte (utf8_encode c))))
        (encodeURIComponent s))"

section \<open>Percent decoding\<close>

definition hex_value :: "nat \<Rightarrow> nat option" where
  "hex_value c =
     (if 48 \<le> c \<and> c \<le> 57 then Some (c - 48)
      else if 65 \<le> c \<and> c \<le> 70 then Some (c - 55)
      else if 97 \<le> c \<and> c \<le> 102 then Some (c - 87) else None)"

text \<open>One percent escape at the head: its byte and the rest.\<close>

definition take_percent :: "code_points \<Rightarrow> (nat \<times> code_points) option" where
  "take_percent s = (case s of
     p # h # l # rest \<Rightarrow>
       (if p \<noteq> 37 then None
        else case (hex_value h, hex_value l) of (Some a, Some b) \<Rightarrow> Some (16 * a + b, rest) | _ \<Rightarrow> None)
   | _ \<Rightarrow> None)"

text \<open>\<open>n\<close> continuation bytes, each an escape of a byte from 128 to 191; their six low bits are appended
  to the accumulator.\<close>

fun take_continuations :: "nat \<Rightarrow> nat \<Rightarrow> code_points \<Rightarrow> (nat \<times> code_points) option" where
  "take_continuations 0 acc s = Some (acc, s)"
| "take_continuations (Suc n) acc s =
     (case take_percent s of
        Some (b, rest) \<Rightarrow>
          (if 128 \<le> b \<and> b < 192 then take_continuations n (64 * acc + (b - 128)) rest else None)
      | None \<Rightarrow> None)"

text \<open>A code point from the escape at the head: the lead byte tells the number of continuation bytes;
  an overlong form, a surrogate and a value above U+10FFFF are refused.\<close>

definition take_encoded :: "code_points \<Rightarrow> (nat \<times> code_points) option" where
  "take_encoded s =
     (case take_percent s of
        None \<Rightarrow> None
      | Some (b, rest) \<Rightarrow>
          if b < 128 then Some (b, rest)
          else
            let (n, bits, least) =
              (if 192 \<le> b \<and> b < 224 then (1, b - 192, 128)
               else if 224 \<le> b \<and> b < 240 then (2, b - 224, 2048)
               else if 240 \<le> b \<and> b < 248 then (3, b - 240, 65536) else (0, 0, 1)) in
            case take_continuations n bits rest of
              None \<Rightarrow> None
            | Some (c, rest') \<Rightarrow>
                if c < least \<or> is_surrogate c \<or> c > 1114111 then None else Some (c, rest'))"

lemma take_percent_shorter: "take_percent s = Some (b, r) \<Longrightarrow> length r < length s"
  by (auto simp: take_percent_def split: list.splits option.splits if_splits)

lemma take_continuations_shorter: "take_continuations n a s = Some (c, r) \<Longrightarrow> length r \<le> length s"
proof (induction n arbitrary: a s)
  case (Suc n)
  then obtain b t where t: "take_percent s = Some (b, t)"
    "take_continuations n (64 * a + (b - 128)) t = Some (c, r)" by (auto split: option.splits if_splits)
  from Suc.IH [OF t(2)] take_percent_shorter [OF t(1)] show ?case by simp
qed simp

lemma take_encoded_shorter: "take_encoded s = Some (c, r) \<Longrightarrow> length r < length s"
  by (auto simp: take_encoded_def Let_def split: option.splits if_splits
      dest!: take_percent_shorter take_continuations_shorter)

text \<open>\<open>None\<close> is the \<open>URIError\<close> of a malformed escape.\<close>

function decodeURIComponent :: "code_points \<Rightarrow> code_points option" where
  "decodeURIComponent s =
     (case s of
        [] \<Rightarrow> Some []
      | c # t \<Rightarrow>
          if c \<noteq> 37 then map_option (Cons c) (decodeURIComponent t)
          else (case take_encoded s of
                  None \<Rightarrow> None
                | Some (d, rest) \<Rightarrow> map_option (Cons d) (decodeURIComponent rest)))"
  by pat_completeness auto
termination
  by (relation "measure length") (auto dest: take_encoded_shorter)

declare decodeURIComponent.simps [simp del]

section \<open>Scoped ids\<close>

text \<open>The white space of \<open>trim\<close>.\<close>

definition is_ws_point :: "nat \<Rightarrow> bool" where
  "is_ws_point c \<longleftrightarrow> c \<in> {9, 10, 11, 12, 13, 32, 160, 5760, 8232, 8233, 8239, 8287, 12288, 65279} \<or>
     (8192 \<le> c \<and> c \<le> 8202)"

definition hasValue :: "code_points \<Rightarrow> bool" where
  "hasValue v \<longleftrightarrow> list_ex (\<lambda>c. \<not> is_ws_point c) v"

datatype scoped_id_error = NodeIdRequired | LocalIdRequired string | IdUriError

definition createScopedId ::
  "code_points \<Rightarrow> code_points \<Rightarrow> string \<Rightarrow> scoped_id_error + code_points" where
  "createScopedId nodeId localId localIdName =
     (if \<not> hasValue nodeId then Inl NodeIdRequired
      else if \<not> hasValue localId then Inl (LocalIdRequired localIdName)
      else case (encodeURIComponent nodeId, encodeURIComponent localId) of
        (Some n, Some l) \<Rightarrow> Inr (n @ 58 # l)
      | _ \<Rightarrow> Inl IdUriError)"

definition parseScopedId :: "code_points \<Rightarrow> (code_points \<times> code_points) option" where
  "parseScopedId scopedId =
     (case index_of 58 scopedId of
        None \<Rightarrow> None
      | Some separator \<Rightarrow>
          if separator = 0 \<or> separator = length scopedId - 1 \<or> 58 \<in> set (drop (separator + 1) scopedId) then None
          else case (decodeURIComponent (take separator scopedId), decodeURIComponent (drop (separator + 1) scopedId)) of
            (Some nodeId, Some localId) \<Rightarrow>
              if \<not> hasValue nodeId \<or> \<not> hasValue localId then None else Some (nodeId, localId)
          | _ \<Rightarrow> None)"

definition createGlobalSessionId :: "code_points \<Rightarrow> code_points \<Rightarrow> scoped_id_error + code_points" where
  "createGlobalSessionId nodeId localSessionId = createScopedId nodeId localSessionId ''localSessionId''"

definition parseGlobalSessionId :: "code_points \<Rightarrow> (code_points \<times> code_points) option" where
  "parseGlobalSessionId globalSessionId = parseScopedId globalSessionId"

definition createRepoInstanceId :: "code_points \<Rightarrow> code_points \<Rightarrow> scoped_id_error + code_points" where
  "createRepoInstanceId nodeId localPath = createScopedId nodeId localPath ''localPath''"

definition parseRepoInstanceId :: "code_points \<Rightarrow> (code_points \<times> code_points) option" where
  "parseRepoInstanceId repoInstanceId = parseScopedId repoInstanceId"

definition createWorktreeInstanceId :: "code_points \<Rightarrow> code_points \<Rightarrow> scoped_id_error + code_points" where
  "createWorktreeInstanceId nodeId localPath = createScopedId nodeId localPath ''localPath''"

definition parseWorktreeInstanceId :: "code_points \<Rightarrow> (code_points \<times> code_points) option" where
  "parseWorktreeInstanceId worktreeInstanceId = parseScopedId worktreeInstanceId"

section \<open>Decoding undoes encoding\<close>

lemma hex_value_digit: "n < 16 \<Longrightarrow> hex_value (hex_digit n) = Some n"
  by (auto simp: hex_value_def hex_digit_def)

lemma take_percent_byte: "b < 256 \<Longrightarrow> take_percent (percent_byte b @ rest) = Some (b, rest)"
  by (simp add: take_percent_def percent_byte_def hex_value_digit)

lemma six_bits:
  fixes c :: nat
  shows "64 * (c div 4096) + (c div 64) mod 64 = c div 64" "64 * (c div 262144) + (c div 4096) mod 64 = c div 4096"
    "64 * (c div 64) + c mod 64 = c"
proof -
  have "c div 4096 = c div 64 div 64" "c div 262144 = c div 4096 div 64" by (simp_all add: div_mult2_eq [symmetric])
  then show "64 * (c div 4096) + (c div 64) mod 64 = c div 64" "64 * (c div 262144) + (c div 4096) mod 64 = c div 4096"
    "64 * (c div 64) + c mod 64 = c" by simp_all
qed

lemma take_continuations_step:
  "n < 64 \<Longrightarrow> take_continuations (Suc k) acc (percent_byte (128 + n) @ rest) = take_continuations k (64 * acc + n) rest"
  by (simp add: take_percent_byte)

lemma take_encoded_utf8:
  assumes "c \<le> 1114111" and "\<not> is_surrogate c"
  shows "take_encoded (concat (map percent_byte (utf8_encode c)) @ rest) = Some (c, rest)"
proof -
  have m: "n mod 64 < 64" for n :: nat by simp
  consider "c < 128" | "128 \<le> c" "c < 2048" | "2048 \<le> c" "c < 65536" | "65536 \<le> c" by linarith
  then show ?thesis
  proof cases
    case 1
    then show ?thesis by (simp add: utf8_encode_def take_encoded_def take_percent_byte)
  next
    case 2
    then have "c div 64 < 32" by (simp add: less_mult_imp_div_less)
    moreover have "take_continuations 1 (c div 64) (percent_byte (128 + c mod 64) @ rest) = Some (c, rest)"
      using take_continuations_step [OF m, of 0] six_bits(3) [of c] by (simp del: take_continuations.simps(2))
    ultimately show ?thesis
      using 2 assms by (simp add: utf8_encode_def take_encoded_def take_percent_byte Let_def del: take_continuations.simps)
  next
    case 3
    then have "c div 4096 < 16" by (simp add: less_mult_imp_div_less)
    moreover have "take_continuations 2 (c div 4096)
        (percent_byte (128 + c div 64 mod 64) @ percent_byte (128 + c mod 64) @ rest) = Some (c, rest)"
      using take_continuations_step [OF m, of 1] take_continuations_step [OF m, of 0] six_bits [of c]
      by (simp add: numeral_2_eq_2 del: take_continuations.simps(2))
    ultimately show ?thesis
      using 3 assms by (simp add: utf8_encode_def take_encoded_def take_percent_byte Let_def del: take_continuations.simps)
  next
    case 4
    then have "c div 262144 < 5" using assms(1) by (simp add: less_mult_imp_div_less)
    moreover have "take_continuations 3 (c div 262144)
        (percent_byte (128 + c div 4096 mod 64) @ percent_byte (128 + c div 64 mod 64) @ percent_byte (128 + c mod 64) @ rest)
        = Some (c, rest)"
      using take_continuations_step [OF m, of 2] take_continuations_step [OF m, of 1]
        take_continuations_step [OF m, of 0] six_bits [of c]
      by (simp add: numeral_3_eq_3 numeral_2_eq_2 del: take_continuations.simps(2))
    ultimately show ?thesis
      using 4 assms by (simp add: utf8_encode_def take_encoded_def take_percent_byte Let_def del: take_continuations.simps)
  qed
qed

lemma decode_plain: "c \<noteq> 37 \<Longrightarrow> decodeURIComponent (c # s) = map_option (Cons c) (decodeURIComponent s)"
  by (subst decodeURIComponent.simps) simp

lemma percent_head: "\<exists>t. concat (map percent_byte (utf8_encode c)) @ s = 37 # t"
  by (simp add: utf8_encode_def percent_byte_def)

lemma decode_escape:
  assumes "c \<le> 1114111" and "\<not> is_surrogate c"
  shows "decodeURIComponent (concat (map percent_byte (utf8_encode c)) @ s) = map_option (Cons c) (decodeURIComponent s)"
proof -
  let ?w = "concat (map percent_byte (utf8_encode c)) @ s"
  obtain t where w: "?w = 37 # t" using percent_head by blast
  have enc: "take_encoded ?w = Some (c, s)" by (rule take_encoded_utf8 [OF assms])
  show ?thesis by (subst decodeURIComponent.simps) (use w enc in auto)
qed

lemma decode_encode: "encodeURIComponent s = Some e \<Longrightarrow> decodeURIComponent e = Some s"
proof (induction s arbitrary: e)
  case Nil
  then show ?case by (simp add: decodeURIComponent.simps)
next
  case (Cons c s)
  then obtain t where t: "encodeURIComponent s = Some t" and c: "\<not> is_surrogate c" "c \<le> 1114111"
    and e: "e = (if uri_unreserved c then [c] else concat (map percent_byte (utf8_encode c))) @ t"
    by (auto split: if_splits)
  have "uri_unreserved c \<Longrightarrow> c \<noteq> 37" by (auto simp: uri_unreserved_def)
  with e c Cons.IH [OF t] decode_escape [of c t] decode_plain [of c t] show ?case by auto
qed

lemma hex_digit_not_colon: "n < 16 \<Longrightarrow> hex_digit n \<noteq> 58"
  by (auto simp: hex_digit_def)

lemma utf8_bytes: "c \<le> 1114111 \<Longrightarrow> b \<in> set (utf8_encode c) \<Longrightarrow> b < 256"
proof -
  assume c: "c \<le> 1114111" and b: "b \<in> set (utf8_encode c)"
  have "c < 2048 \<Longrightarrow> c div 64 < 32" "c < 65536 \<Longrightarrow> c div 4096 < 16" "c div 262144 < 5"
    using c by (simp_all add: less_mult_imp_div_less)
  moreover have "x mod 64 < 64" for x :: nat by simp
  ultimately show "b < 256" using b
    by (auto simp: utf8_encode_def split: if_splits)
qed

lemma encode_no_colon: "encodeURIComponent s = Some e \<Longrightarrow> 58 \<notin> set e"
proof (induction s arbitrary: e)
  case (Cons c s)
  then obtain t where t: "encodeURIComponent s = Some t" and c: "c \<le> 1114111"
    and e: "e = (if uri_unreserved c then [c] else concat (map percent_byte (utf8_encode c))) @ t"
    by (auto split: if_splits)
  have "58 \<notin> set (percent_byte b)" if "b \<in> set (utf8_encode c)" for b
    using utf8_bytes [OF c that] hex_digit_not_colon [of "b div 16"] hex_digit_not_colon [of "b mod 16"]
    by (auto simp: percent_byte_def less_mult_imp_div_less)
  moreover have "\<not> uri_unreserved 58" by (simp add: uri_unreserved_def)
  ultimately show ?case using e Cons.IH [OF t] by auto
qed simp

lemma encode_Nil_iff: "encodeURIComponent s = Some [] \<longleftrightarrow> s = []"
proof (cases s)
  case (Cons c t)
  then show ?thesis using percent_head [of c "[]"] by (auto simp: utf8_encode_def percent_byte_def)
qed simp

lemma create_parse:
  assumes "createScopedId n l what = Inr i"
  shows "parseScopedId i = Some (n, l)"
proof -
  from assms obtain en el where v: "hasValue n" "hasValue l" and e: "encodeURIComponent n = Some en"
    "encodeURIComponent l = Some el" and i: "i = en @ 58 # el"
    by (auto simp: createScopedId_def split: if_splits option.splits)
  have "n \<noteq> []" "l \<noteq> []" using v by (auto simp: hasValue_def)
  then have ne: "en \<noteq> []" "el \<noteq> []" using e encode_Nil_iff [of n] encode_Nil_iff [of l] by auto
  have "index_of 58 i = Some (length en)" unfolding i by (rule index_of_append [OF encode_no_colon [OF e(1)]])
  moreover have "take (length en) i = en" "drop (length en + 1) i = el" "length en \<noteq> 0" "length en \<noteq> length i - 1"
    using ne i by simp_all
  ultimately show ?thesis
    using encode_no_colon [OF e(2)] decode_encode [OF e(1)] decode_encode [OF e(2)] v
    unfolding parseScopedId_def by simp
qed

lemma encode_ascii: "encodeURIComponent s = Some e \<Longrightarrow> c \<in> set e \<Longrightarrow> c < 128"
proof (induction s arbitrary: e)
  case (Cons d s)
  then obtain t where t: "encodeURIComponent s = Some t" and d: "d \<le> 1114111"
    and e: "e = (if uri_unreserved d then [d] else concat (map percent_byte (utf8_encode d))) @ t"
    by (auto split: if_splits)
  have "x < 128" if "b \<in> set (utf8_encode d)" "x \<in> set (percent_byte b)" for b x
  proof -
    have "b div 16 < 16" using utf8_bytes [OF d that(1)] by (simp add: less_mult_imp_div_less)
    then show ?thesis using that(2) by (auto simp: percent_byte_def hex_digit_def)
  qed
  moreover have "uri_unreserved d \<Longrightarrow> d < 128" by (auto simp: uri_unreserved_def)
  ultimately show ?case using Cons.prems(2) e Cons.IH [OF t] by (auto split: if_splits)
qed simp

lemma createGlobalSessionId_ascii:
  assumes "createGlobalSessionId n l = Inr i"
  shows "\<forall>c\<in>set i. c < 128"
  using assms encode_ascii
  by (auto simp: createGlobalSessionId_def createScopedId_def split: if_splits option.splits)



text \<open>Scoped ids do not collide: two pairs of a node id and a local id with the same scoped id are
  the same pair.\<close>

theorem scoped_ids_do_not_collide:
  assumes "createGlobalSessionId n l = Inr i" and "createGlobalSessionId n' l' = Inr i"
  shows "n = n' \<and> l = l'"
  using create_parse [OF assms(1) [unfolded createGlobalSessionId_def]]
    create_parse [OF assms(2) [unfolded createGlobalSessionId_def]] by simp

theorem scoped_ids_do_not_collide_witness:
  "createGlobalSessionId [97] [98] = Inr [97, 58, 98] \<and> (\<forall>n l. createGlobalSessionId n l = Inr [97, 58, 98] \<longrightarrow> n = [97] \<and> l = [98])"
proof -
  have "createGlobalSessionId [97] [98] = Inr [97, 58, 98]"
    by (simp add: createGlobalSessionId_def createScopedId_def hasValue_def is_ws_point_def is_surrogate_def uri_unreserved_def)
  with scoped_ids_do_not_collide [OF this] show ?thesis by metis
qed

end
