(* ===== verification/Session_Envelope.thy ===== *)
theory Session_Envelope
  imports Identity
begin

text \<open>
  Session envelopes (\<open>shared/session-envelope.ts\<close>): why a session exists, its scope, its peer, its
  expiry, and the normalisation of a stored or received value. The current time, where a function
  takes \<open>new Date().toISOString()\<close>, is an argument.
\<close>

section \<open>Data\<close>

datatype session_intent_kind = IntentLocalCompatibility | IntentRoutedNode

record session_intent =
  si_kind :: session_intent_kind
  si_description :: string

datatype session_scope_kind = SkLocalCompatibility | SkNodeCwd | SkRepo | SkWorktree

text \<open>\<open>worktreePath?: string | null\<close>: absent, null or a path.\<close>

record session_scope =
  ss_kind :: session_scope_kind
  ss_nodeId :: string
  ss_cwd :: string
  ss_repoPath :: "string option"
  ss_worktreePath :: "string option option"

datatype session_peer =
    PeerLocal (pl_id: string) (pl_displayName: "string option")
  | PeerRelay (pr_nodeId: string) (pr_credentialId: "string option") (pr_displayName: "string option")
  | PeerAgent (pa_id: string) (pa_adapter: string) (pa_displayName: "string option") (pa_credentialId: "string option")
  | PeerUnknown (pu_id: "string option") (pu_displayName: "string option")

record session_envelope =
  se_sessionId :: string
  se_globalSessionId :: string
  se_nodeId :: string
  se_intent :: session_intent
  se_scope :: session_scope
  se_issuedAt :: string
  se_expiresAt :: "string option"
  se_revocable :: bool
  se_peerIdentity :: session_peer
  se_correlationId :: "string option"
  se_auditId :: "string option"

record envelope_fallback =
  fb_sessionId :: string
  fb_nodeId :: "string option"
  fb_globalSessionId :: "string option"
  fb_cwd :: string
  fb_repoPath :: "string option"
  fb_worktreePath :: "string option option"
  fb_issuedAt :: "string option"
  fb_expiresAt :: "string option"
  fb_revocable :: "bool option"
  fb_peerIdentity :: "session_peer option"
  fb_correlationId :: "string option"
  fb_auditId :: "string option"

section \<open>Validation\<close>

definition isIntent :: "json \<Rightarrow> bool" where
  "isIntent v \<longleftrightarrow> is_record v \<and>
     (fld v ''kind'' = JStr ''local-dev-compatibility'' \<or> fld v ''kind'' = JStr ''routed-node-session'') \<and>
     is_str (fld v ''description'')"

definition isScope :: "json \<Rightarrow> bool" where
  "isScope v \<longleftrightarrow> is_record v \<and>
     (fld v ''kind'' = JStr ''local-compatibility'' \<or> fld v ''kind'' = JStr ''node-cwd'' \<or>
      fld v ''kind'' = JStr ''repo'' \<or> fld v ''kind'' = JStr ''worktree'') \<and>
     is_str (fld v ''nodeId'') \<and> is_str (fld v ''cwd'') \<and>
     opt_sat is_str (fld v ''repoPath'') \<and> opt_sat (null_sat is_str) (fld v ''worktreePath'')"

definition isPeerIdentity :: "json \<Rightarrow> bool" where
  "isPeerIdentity v =
     (if \<not> is_record v then False
      else if fld v ''kind'' = JStr ''local-user'' then is_str (fld v ''id'')
      else if fld v ''kind'' = JStr ''relay-node'' then is_str (fld v ''nodeId'')
      else if fld v ''kind'' = JStr ''agent'' then is_str (fld v ''id'') \<and> is_str (fld v ''adapter'')
      else fld v ''kind'' = JStr ''unknown'')"

definition isSessionEnvelope :: "json \<Rightarrow> bool" where
  "isSessionEnvelope v \<longleftrightarrow> is_record v \<and> is_str (fld v ''sessionId'') \<and>
     is_str (fld v ''globalSessionId'') \<and> is_str (fld v ''nodeId'') \<and>
     isIntent (fld v ''intent'') \<and> isScope (fld v ''scope'') \<and> is_str (fld v ''issuedAt'') \<and>
     null_sat is_str (fld v ''expiresAt'') \<and> is_bool (fld v ''revocable'') \<and>
     isPeerIdentity (fld v ''peerIdentity'') \<and>
     opt_sat is_str (fld v ''correlationId'') \<and> opt_sat is_str (fld v ''auditId'')"

text \<open>The typed value of a validated one.\<close>

definition opt_string :: "json \<Rightarrow> string option" where
  "opt_string v = (case v of JStr s \<Rightarrow> Some s | _ \<Rightarrow> None)"

definition intent_of_json :: "json \<Rightarrow> session_intent" where
  "intent_of_json v =
     \<lparr>si_kind = (if fld v ''kind'' = JStr ''routed-node-session'' then IntentRoutedNode else IntentLocalCompatibility),
      si_description = the_str (fld v ''description'')\<rparr>"

definition scope_of_json :: "json \<Rightarrow> session_scope" where
  "scope_of_json v =
     \<lparr>ss_kind = (if fld v ''kind'' = JStr ''node-cwd'' then SkNodeCwd
        else if fld v ''kind'' = JStr ''repo'' then SkRepo
        else if fld v ''kind'' = JStr ''worktree'' then SkWorktree else SkLocalCompatibility),
      ss_nodeId = the_str (fld v ''nodeId''), ss_cwd = the_str (fld v ''cwd''),
      ss_repoPath = opt_string (fld v ''repoPath''),
      ss_worktreePath = (case fld v ''worktreePath'' of JUndef \<Rightarrow> None | JStr s \<Rightarrow> Some (Some s) | _ \<Rightarrow> Some None)\<rparr>"

definition peer_of_json :: "json \<Rightarrow> session_peer" where
  "peer_of_json v =
     (if fld v ''kind'' = JStr ''local-user'' then PeerLocal (the_str (fld v ''id'')) (opt_string (fld v ''displayName''))
      else if fld v ''kind'' = JStr ''relay-node'' then
        PeerRelay (the_str (fld v ''nodeId'')) (opt_string (fld v ''credentialId'')) (opt_string (fld v ''displayName''))
      else if fld v ''kind'' = JStr ''agent'' then
        PeerAgent (the_str (fld v ''id'')) (the_str (fld v ''adapter'')) (opt_string (fld v ''displayName''))
          (opt_string (fld v ''credentialId''))
      else PeerUnknown (opt_string (fld v ''id'')) (opt_string (fld v ''displayName'')))"

definition envelope_of_json :: "json \<Rightarrow> session_envelope" where
  "envelope_of_json v =
     \<lparr>se_sessionId = the_str (fld v ''sessionId''), se_globalSessionId = the_str (fld v ''globalSessionId''),
      se_nodeId = the_str (fld v ''nodeId''), se_intent = intent_of_json (fld v ''intent''),
      se_scope = scope_of_json (fld v ''scope''), se_issuedAt = the_str (fld v ''issuedAt''),
      se_expiresAt = opt_string (fld v ''expiresAt''), se_revocable = (fld v ''revocable'' = JBool True),
      se_peerIdentity = peer_of_json (fld v ''peerIdentity''),
      se_correlationId = opt_string (fld v ''correlationId''), se_auditId = opt_string (fld v ''auditId'')\<rparr>"

section \<open>Creation and normalisation\<close>

definition default_local_node_id :: string where
  "default_local_node_id = ''local''"

abbreviation points :: "string \<Rightarrow> code_points" where
  "points s \<equiv> map of_char s"

text \<open>\<open>createGlobalSessionId\<close> on strings below U+0100; its result is ASCII.\<close>

definition global_session_id :: "string \<Rightarrow> string \<Rightarrow> scoped_id_error + string" where
  "global_session_id nodeId sessionId =
     map_sum id (map char_of) (createGlobalSessionId (points nodeId) (points sessionId))"

definition fallback_node :: "envelope_fallback \<Rightarrow> string" where
  "fallback_node fb = (case fb_nodeId fb of Some n \<Rightarrow> n | None \<Rightarrow> default_local_node_id)"

definition compatibilityScope :: "envelope_fallback \<Rightarrow> session_scope" where
  "compatibilityScope fb =
     \<lparr>ss_kind = SkLocalCompatibility, ss_nodeId = fallback_node fb, ss_cwd = fb_cwd fb,
      ss_repoPath = truthy (fb_repoPath fb), ss_worktreePath = fb_worktreePath fb\<rparr>"

definition routedScope :: "envelope_fallback \<Rightarrow> session_scope" where
  "routedScope fb =
     \<lparr>ss_kind = (if is_truthy (Option.bind (fb_worktreePath fb) id) then SkWorktree
        else if is_truthy (fb_repoPath fb) then SkRepo else SkNodeCwd),
      ss_nodeId = fallback_node fb, ss_cwd = fb_cwd fb,
      ss_repoPath = truthy (fb_repoPath fb), ss_worktreePath = fb_worktreePath fb\<rparr>"

text \<open>What the two constructors share; \<open>createGlobalSessionId\<close> is called, and may throw, only when the
  fallback has no global id.\<close>

definition fallback_envelope ::
  "string \<Rightarrow> envelope_fallback \<Rightarrow> session_intent \<Rightarrow> session_scope \<Rightarrow> session_peer \<Rightarrow> scoped_id_error + session_envelope" where
  "fallback_envelope nowIso fb intent scope peer =
     (case (case fb_globalSessionId fb of Some g \<Rightarrow> Inr g | None \<Rightarrow> global_session_id (fallback_node fb) (fb_sessionId fb)) of
        Inl e \<Rightarrow> Inl e
      | Inr g \<Rightarrow> Inr
          \<lparr>se_sessionId = fb_sessionId fb, se_globalSessionId = g, se_nodeId = fallback_node fb,
           se_intent = intent, se_scope = scope,
           se_issuedAt = (case fb_issuedAt fb of Some t \<Rightarrow> t | None \<Rightarrow> nowIso),
           se_expiresAt = fb_expiresAt fb,
           se_revocable = (case fb_revocable fb of Some b \<Rightarrow> b | None \<Rightarrow> True),
           se_peerIdentity = (case fb_peerIdentity fb of Some p \<Rightarrow> p | None \<Rightarrow> peer),
           se_correlationId = truthy (fb_correlationId fb), se_auditId = truthy (fb_auditId fb)\<rparr>)"

definition createLocalCompatibilitySessionEnvelope ::
  "string \<Rightarrow> envelope_fallback \<Rightarrow> scoped_id_error + session_envelope" where
  "createLocalCompatibilitySessionEnvelope nowIso fb =
     fallback_envelope nowIso fb
       \<lparr>si_kind = IntentLocalCompatibility, si_description = ''legacy local/single-node Relay session compatibility''\<rparr>
       (compatibilityScope fb) (PeerLocal ''local-dev'' None)"

definition createRoutedNodeSessionEnvelope ::
  "string \<Rightarrow> envelope_fallback \<Rightarrow> scoped_id_error + session_envelope" where
  "createRoutedNodeSessionEnvelope nowIso fb =
     fallback_envelope nowIso fb
       \<lparr>si_kind = IntentRoutedNode, si_description = ''hub-routed node session''\<rparr>
       (routedScope (fb\<lparr>fb_nodeId := Some (fallback_node fb)\<rparr>)) (PeerRelay (fallback_node fb) None None)"

definition normalizeSessionEnvelope ::
  "string \<Rightarrow> json \<Rightarrow> envelope_fallback \<Rightarrow> session_intent_kind \<Rightarrow> scoped_id_error + session_envelope" where
  "normalizeSessionEnvelope nowIso v fb intentKind =
     (if isSessionEnvelope v then
        let value = envelope_of_json v;
            normalizedNodeId = (case fb_nodeId fb of Some n \<Rightarrow> n | None \<Rightarrow> se_nodeId value);
            normalizedGlobalSessionId = (case fb_globalSessionId fb of Some g \<Rightarrow> g | None \<Rightarrow> se_globalSessionId value)
        in Inr (value\<lparr>se_nodeId := normalizedNodeId, se_globalSessionId := normalizedGlobalSessionId,
             se_scope := (se_scope value)\<lparr>ss_nodeId := normalizedNodeId\<rparr>\<rparr>)
      else if intentKind = IntentRoutedNode then createRoutedNodeSessionEnvelope nowIso fb
      else createLocalCompatibilitySessionEnvelope nowIso fb)"

definition sessionEnvelopeKey :: "session_envelope \<Rightarrow> string" where
  "sessionEnvelopeKey e = se_globalSessionId e"

section \<open>Properties\<close>

text \<open>A normalised envelope is bound to the node it was asked for: its node and the node of its
  scope are the same, and both are the requested node when one is given; an envelope made from the
  fallback without a global id carries the scoped id of exactly that node and session.\<close>

theorem normalized_envelope_is_bound:
  assumes "normalizeSessionEnvelope nowIso v fb kind = Inr e"
  shows "(\<forall>n. fb_nodeId fb = Some n \<longrightarrow> se_nodeId e = n \<and> ss_nodeId (se_scope e) = n) \<and>
    (\<not> isSessionEnvelope v \<longrightarrow> se_nodeId e = ss_nodeId (se_scope e) \<and>
      (fb_globalSessionId fb = None \<longrightarrow>
        parseGlobalSessionId (points (se_globalSessionId e)) = Some (points (se_nodeId e), points (fb_sessionId fb))))"
proof (cases "isSessionEnvelope v")
  case True
  with assms show ?thesis by (auto simp: normalizeSessionEnvelope_def Let_def)
next
  case False
  obtain intent scope peer where e: "fallback_envelope nowIso fb intent scope peer = Inr e"
    and node: "ss_nodeId scope = fallback_node fb"
    using assms False
    by (auto simp: normalizeSessionEnvelope_def createRoutedNodeSessionEnvelope_def
        createLocalCompatibilitySessionEnvelope_def compatibilityScope_def routedScope_def fallback_node_def
        split: if_splits)
  have fields: "se_nodeId e = fallback_node fb" "se_scope e = scope"
    using e by (auto simp: fallback_envelope_def split: sum.splits)
  have "parseGlobalSessionId (points (se_globalSessionId e)) = Some (points (fallback_node fb), points (fb_sessionId fb))"
    if none: "fb_globalSessionId fb = None"
  proof -
    from e none obtain i where i: "createGlobalSessionId (points (fallback_node fb)) (points (fb_sessionId fb)) = Inr i"
      and g: "se_globalSessionId e = map char_of i"
      by (cases "createGlobalSessionId (points (fallback_node fb)) (points (fb_sessionId fb))")
        (auto simp: fallback_envelope_def global_session_id_def)
    have "i = points (map char_of i)"
    proof -
      have "\<forall>c\<in>set i. c < 256" using createGlobalSessionId_ascii [OF i] by auto
      then show ?thesis by (simp add: map_idI)
    qed
    with g create_parse [OF i [unfolded createGlobalSessionId_def]] show ?thesis
      by (simp add: parseGlobalSessionId_def)
  qed
  with fields node False show ?thesis by (auto simp: fallback_node_def)
qed

definition sample_fallback :: "string \<Rightarrow> string \<Rightarrow> envelope_fallback" where
  "sample_fallback n i =
     \<lparr>fb_sessionId = i, fb_nodeId = Some n, fb_globalSessionId = None, fb_cwd = ''/w'', fb_repoPath = None,
      fb_worktreePath = None, fb_issuedAt = Some ''t0'', fb_expiresAt = None, fb_revocable = None,
      fb_peerIdentity = None, fb_correlationId = None, fb_auditId = None\<rparr>"

theorem normalized_envelope_is_bound_witness:
  "\<exists>e. normalizeSessionEnvelope ''t'' JNull (sample_fallback ''n1'' ''s1'') IntentRoutedNode = Inr e \<and>
    se_nodeId e = ''n1'' \<and> ss_nodeId (se_scope e) = ''n1'' \<and>
    parseGlobalSessionId (points (se_globalSessionId e)) = Some (points ''n1'', points ''s1'')"
proof -
  have "global_session_id ''n1'' ''s1'' = Inr ''n1:s1''"
    by (simp add: global_session_id_def createGlobalSessionId_def createScopedId_def hasValue_def is_ws_point_def
        is_surrogate_def uri_unreserved_def char_of_def bit_0)
  then obtain e where e: "normalizeSessionEnvelope ''t'' JNull (sample_fallback ''n1'' ''s1'') IntentRoutedNode = Inr e"
    by (simp add: normalizeSessionEnvelope_def isSessionEnvelope_def is_record_def createRoutedNodeSessionEnvelope_def
        fallback_envelope_def sample_fallback_def fallback_node_def)
  from normalized_envelope_is_bound [OF e] e show ?thesis
    by (intro exI [of _ e]) (simp add: sample_fallback_def isSessionEnvelope_def is_record_def)
qed

text \<open>Normalisation takes the requested node but keeps the global id the value brings: a value with
  the global id of another node's session is stored under that other node's key.\<close>

theorem normalized_envelope_may_keep_foreign_key:
  "\<exists>v fb e. normalizeSessionEnvelope ''t'' v fb IntentRoutedNode = Inr e \<and> fb_nodeId fb = Some ''b'' \<and>
     se_nodeId e = ''b'' \<and> parseGlobalSessionId (points (sessionEnvelopeKey e)) = Some (points ''a'', points ''s'')"
proof -
  let ?v = "JObj [(''sessionId'', JStr ''s''), (''globalSessionId'', JStr ''a:s''), (''nodeId'', JStr ''a''),
     (''intent'', JObj [(''kind'', JStr ''routed-node-session''), (''description'', JStr [])]),
     (''scope'', JObj [(''kind'', JStr ''node-cwd''), (''nodeId'', JStr ''a''), (''cwd'', JStr ''/w'')]),
     (''issuedAt'', JStr ''t''), (''expiresAt'', JNull), (''revocable'', JBool True),
     (''peerIdentity'', JObj [(''kind'', JStr ''unknown'')])]"
  have "isSessionEnvelope ?v" "se_globalSessionId (envelope_of_json ?v) = ''a:s''" by code_simp+
  moreover have "parseGlobalSessionId (points ''a:s'') = Some (points ''a'', points ''s'')"
    by (simp add: parseGlobalSessionId_def parseScopedId_def decodeURIComponent.simps hasValue_def is_ws_point_def)
  ultimately show ?thesis
    by (intro exI [of _ ?v] exI [of _ "sample_fallback ''b'' ''s''"])
      (simp add: normalizeSessionEnvelope_def sample_fallback_def sessionEnvelopeKey_def Let_def)
qed

end
