(* ===== verification/Session_Registry.thy ===== *)
theory Session_Registry
  imports Session_Envelope
begin

text \<open>
  The hub's registry of scoped sessions (\<open>server/session-envelope-registry.ts\<close>): records by global
  session id, their lifecycle, and the operations create, upsert, read, list, revoke, validate, renew
  and delete. A record is an object the code mutates in place; here an operation that changes one
  stores it again under its own key.

  Times are milliseconds. \<open>Date.parse\<close> and \<open>toISOString\<close> are arguments (\<open>dp\<close> with \<open>None\<close> for NaN, and
  \<open>toIso\<close>), as is \<open>localeCompare\<close>; where a property needs that a printed time is read back, or that it is
  not the empty string, that is a hypothesis.
\<close>

section \<open>Records\<close>

datatype lifecycle_state = LsActive | LsExpired | LsRevoked

record session_record =
  rec_envelope :: session_envelope
  rec_revokedAt :: "string option"
  rec_revokeReason :: "string option"

record session_summary =
  sm_sessionId :: string
  sm_globalSessionId :: string
  sm_nodeId :: string
  sm_intent :: session_intent
  sm_scope :: session_scope
  sm_peerIdentity :: session_peer
  sm_issuedAt :: string
  sm_expiresAt :: "string option"
  sm_revocable :: bool
  sm_status :: lifecycle_state
  sm_revokedAt :: "string option"
  sm_revokeReason :: "string option"
  sm_expired :: bool
  sm_expiresInMs :: "int option"
  sm_correlationId :: "string option"
  sm_auditId :: "string option"

record session_error =
  err_code :: string
  err_reasonCode :: string
  err_message :: string
  err_details :: "(string \<times> json) list"

text \<open>No expiry, a time, or minus infinity for an expiry that is no date.\<close>

datatype expiry = NoExpiry | ExpiryMs int | ExpiryNever

definition parseExpiryMs :: "(string \<Rightarrow> int option) \<Rightarrow> string option \<Rightarrow> expiry" where
  "parseExpiryMs dp expiresAt =
     (case truthy expiresAt of
        None \<Rightarrow> NoExpiry
      | Some e \<Rightarrow> (case dp e of Some ms \<Rightarrow> ExpiryMs ms | None \<Rightarrow> ExpiryNever))"

definition lifecycleState :: "(string \<Rightarrow> int option) \<Rightarrow> session_record \<Rightarrow> int \<Rightarrow> lifecycle_state" where
  "lifecycleState dp r now =
     (if is_truthy (rec_revokedAt r) then LsRevoked
      else case parseExpiryMs dp (se_expiresAt (rec_envelope r)) of
        NoExpiry \<Rightarrow> LsActive
      | ExpiryMs ms \<Rightarrow> if ms \<le> now then LsExpired else LsActive
      | ExpiryNever \<Rightarrow> LsExpired)"

definition relaySessionError :: "string \<Rightarrow> string \<Rightarrow> string \<Rightarrow> (string \<times> json) list \<Rightarrow> session_error" where
  "relaySessionError code reasonCode message details =
     \<lparr>err_code = code, err_reasonCode = reasonCode, err_message = message, err_details = details\<rparr>"

text \<open>\<open>encodeURIComponent\<close> on strings below U+0100, where it never throws.\<close>

definition uri_encode :: "string \<Rightarrow> string" where
  "uri_encode s = (case encodeURIComponent (points s) of Some e \<Rightarrow> map char_of e | None \<Rightarrow> [])"

definition expectedGlobalId :: "string \<Rightarrow> string \<Rightarrow> string" where
  "expectedGlobalId nodeId sessionId = uri_encode nodeId @ '':'' @ uri_encode sessionId"

definition lifecycleSummary :: "(string \<Rightarrow> int option) \<Rightarrow> session_record \<Rightarrow> int \<Rightarrow> session_summary" where
  "lifecycleSummary dp r now =
     (let e = rec_envelope r;
          remaining = (case parseExpiryMs dp (se_expiresAt e) of
            NoExpiry \<Rightarrow> None | ExpiryMs ms \<Rightarrow> Some (max 0 (ms - now)) | ExpiryNever \<Rightarrow> Some 0);
          status = lifecycleState dp r now
      in \<lparr>sm_sessionId = se_sessionId e, sm_globalSessionId = se_globalSessionId e, sm_nodeId = se_nodeId e,
          sm_intent = se_intent e, sm_scope = se_scope e, sm_peerIdentity = se_peerIdentity e,
          sm_issuedAt = se_issuedAt e, sm_expiresAt = se_expiresAt e, sm_revocable = se_revocable e,
          sm_status = status, sm_revokedAt = rec_revokedAt r, sm_revokeReason = rec_revokeReason r,
          sm_expired = (status = LsExpired), sm_expiresInMs = remaining,
          sm_correlationId = truthy (se_correlationId e), sm_auditId = truthy (se_auditId e)\<rparr>)"

definition revokeRecord :: "(int \<Rightarrow> string) \<Rightarrow> session_record \<Rightarrow> string option \<Rightarrow> int \<Rightarrow> session_record" where
  "revokeRecord toIso r reason now =
     r\<lparr>rec_revokedAt := nullish (rec_revokedAt r) (Some (toIso now)),
       rec_revokeReason := nullish reason (nullish (rec_revokeReason r) (Some ''operator-revoked''))\<rparr>"

definition samePeerAuthority :: "session_peer \<Rightarrow> session_peer \<Rightarrow> bool" where
  "samePeerAuthority previous incoming =
     (case (previous, incoming) of
        (PeerLocal i _, PeerLocal i' _) \<Rightarrow> i = i'
      | (PeerRelay n c _, PeerRelay n' c' _) \<Rightarrow> n = n' \<and> c = c'
      | (PeerAgent i a _ c, PeerAgent i' a' _ c') \<Rightarrow> i = i' \<and> a = a' \<and> c = c'
      | (PeerUnknown i _, PeerUnknown i' _) \<Rightarrow> i = i'
      | _ \<Rightarrow> False)"

text \<open>\<open>(left ?? undefined) === (right ?? undefined)\<close>: null counts as absent.\<close>

definition sameOptionalPath :: "string option option \<Rightarrow> string option option \<Rightarrow> bool" where
  "sameOptionalPath left right \<longleftrightarrow> Option.bind left id = Option.bind right id"

definition sameAuthorityForExpiryPreservation :: "session_envelope \<Rightarrow> session_envelope \<Rightarrow> bool" where
  "sameAuthorityForExpiryPreservation previous incoming \<longleftrightarrow>
     se_sessionId previous = se_sessionId incoming \<and> se_globalSessionId previous = se_globalSessionId incoming \<and>
     se_nodeId previous = se_nodeId incoming \<and> se_issuedAt previous = se_issuedAt incoming \<and>
     se_revocable previous = se_revocable incoming \<and>
     si_kind (se_intent previous) = si_kind (se_intent incoming) \<and>
     ss_kind (se_scope previous) = ss_kind (se_scope incoming) \<and>
     ss_nodeId (se_scope previous) = ss_nodeId (se_scope incoming) \<and>
     ss_cwd (se_scope previous) = ss_cwd (se_scope incoming) \<and>
     ss_repoPath (se_scope previous) = ss_repoPath (se_scope incoming) \<and>
     sameOptionalPath (ss_worktreePath (se_scope previous)) (ss_worktreePath (se_scope incoming)) \<and>
     samePeerAuthority (se_peerIdentity previous) (se_peerIdentity incoming)"

definition preserveRenewedExpiry ::
  "(string \<Rightarrow> int option) \<Rightarrow> session_envelope \<Rightarrow> session_envelope \<Rightarrow> session_envelope" where
  "preserveRenewedExpiry dp previous incoming =
     (if \<not> sameAuthorityForExpiryPreservation previous incoming then incoming
      else if \<not> is_truthy (se_expiresAt previous) \<or> \<not> is_truthy (se_expiresAt incoming) then incoming
      else case (dp (the (se_expiresAt previous)), dp (the (se_expiresAt incoming))) of
        (Some previousMs, Some incomingMs) \<Rightarrow>
          if previousMs > incomingMs then incoming\<lparr>se_expiresAt := se_expiresAt previous\<rparr> else incoming
      | _ \<Rightarrow> incoming)"

section \<open>The registry\<close>

type_synonym registry = "(string, session_record) jsmap"

record create_input =
  ci_fallback :: envelope_fallback
  ci_envelope :: json
  ci_intentKind :: "session_intent_kind option"

definition reg_create ::
  "string \<Rightarrow> registry \<Rightarrow> create_input \<Rightarrow> registry \<times> (scoped_id_error + session_envelope)" where
  "reg_create nowIso records input =
     (case normalizeSessionEnvelope nowIso (ci_envelope input) (ci_fallback input)
         (case ci_intentKind input of Some k \<Rightarrow> k | None \<Rightarrow> IntentLocalCompatibility) of
        Inl e \<Rightarrow> (records, Inl e)
      | Inr envelope \<Rightarrow>
          (jm_set records (sessionEnvelopeKey envelope)
             \<lparr>rec_envelope = envelope, rec_revokedAt = None, rec_revokeReason = None\<rparr>, Inr envelope))"

definition reg_upsert :: "(string \<Rightarrow> int option) \<Rightarrow> registry \<Rightarrow> session_envelope \<Rightarrow> registry \<times> session_envelope" where
  "reg_upsert dp records envelope =
     (let key = sessionEnvelopeKey envelope; previous = jm_get records key;
          stored = (case previous of Some p \<Rightarrow> preserveRenewedExpiry dp (rec_envelope p) envelope | None \<Rightarrow> envelope)
      in (jm_set records key
            \<lparr>rec_envelope = stored, rec_revokedAt = Option.bind previous rec_revokedAt,
             rec_revokeReason = Option.bind previous rec_revokeReason\<rparr>, stored))"

definition readRecord :: "registry \<Rightarrow> string \<Rightarrow> string option \<Rightarrow> session_record option" where
  "readRecord records i nodeId =
     (case truthy nodeId of
        Some n \<Rightarrow>
          (case jm_get records (expectedGlobalId n i) of
             Some r \<Rightarrow> Some r
           | None \<Rightarrow> List.find (\<lambda>r. se_nodeId (rec_envelope r) = n \<and>
               (se_sessionId (rec_envelope r) = i \<or> se_globalSessionId (rec_envelope r) = i)) (jm_values records))
      | None \<Rightarrow>
          (case jm_get records i of
             Some r \<Rightarrow> Some r
           | None \<Rightarrow> List.find (\<lambda>r. se_sessionId (rec_envelope r) = i) (jm_values records)))"

definition reg_read :: "registry \<Rightarrow> string \<Rightarrow> string option \<Rightarrow> session_envelope option" where
  "reg_read records i nodeId = map_option rec_envelope (readRecord records i nodeId)"

text \<open>A stable sort by a comparison, \<open>Array.prototype.sort\<close>.\<close>

fun insert_by :: "('a \<Rightarrow> 'a \<Rightarrow> int) \<Rightarrow> 'a \<Rightarrow> 'a list \<Rightarrow> 'a list" where
  "insert_by cmp x [] = [x]"
| "insert_by cmp x (y # ys) = (if cmp x y \<le> 0 then x # y # ys else y # insert_by cmp x ys)"

definition sort_by :: "('a \<Rightarrow> 'a \<Rightarrow> int) \<Rightarrow> 'a list \<Rightarrow> 'a list" where
  "sort_by cmp xs = foldr (insert_by cmp) xs []"

record list_options =
  lo_now :: int
  lo_includeRevoked :: "bool option"
  lo_includeExpired :: "bool option"

definition reg_list ::
  "(string \<Rightarrow> int option) \<Rightarrow> (string \<Rightarrow> string \<Rightarrow> int) \<Rightarrow> registry \<Rightarrow> list_options \<Rightarrow> session_record list" where
  "reg_list dp localeCompare records opts =
     (let includeRevoked = (lo_includeRevoked opts = Some True);
          includeExpired = (lo_includeExpired opts \<noteq> Some False) in
      sort_by (\<lambda>a b. localeCompare (se_issuedAt (rec_envelope b)) (se_issuedAt (rec_envelope a)))
        (filter (\<lambda>r. case lifecycleState dp r (lo_now opts) of
            LsRevoked \<Rightarrow> includeRevoked | LsExpired \<Rightarrow> includeExpired | LsActive \<Rightarrow> True)
          (jm_values records)))"

definition reg_listActive ::
  "(string \<Rightarrow> int option) \<Rightarrow> (string \<Rightarrow> string \<Rightarrow> int) \<Rightarrow> registry \<Rightarrow> int \<Rightarrow> session_envelope list" where
  "reg_listActive dp lc records now =
     map rec_envelope (reg_list dp lc records
       \<lparr>lo_now = now, lo_includeRevoked = Some False, lo_includeExpired = Some False\<rparr>)"

definition reg_listSummaries ::
  "(string \<Rightarrow> int option) \<Rightarrow> (string \<Rightarrow> string \<Rightarrow> int) \<Rightarrow> registry \<Rightarrow> list_options \<Rightarrow> session_summary list" where
  "reg_listSummaries dp lc records opts =
     map (\<lambda>r. lifecycleSummary dp r (lo_now opts)) (reg_list dp lc records opts)"

definition hasGlobalSessionId :: "registry \<Rightarrow> string \<Rightarrow> bool" where
  "hasGlobalSessionId records g \<longleftrightarrow> jm_get records g \<noteq> None"

definition countLocalSessionId :: "registry \<Rightarrow> string \<Rightarrow> nat" where
  "countLocalSessionId records i =
     length (filter (\<lambda>r. se_sessionId (rec_envelope r) = i) (jm_values records))"

text \<open>Storing a changed record in place.\<close>

definition put_record :: "registry \<Rightarrow> session_record \<Rightarrow> registry" where
  "put_record records r = jm_set records (sessionEnvelopeKey (rec_envelope r)) r"

definition reg_revoke ::
  "(string \<Rightarrow> int option) \<Rightarrow> (int \<Rightarrow> string) \<Rightarrow> registry \<Rightarrow> string \<Rightarrow> string option \<Rightarrow> string option \<Rightarrow> int \<Rightarrow>
   registry \<times> session_summary option" where
  "reg_revoke dp toIso records i nodeId reason now =
     (case (if is_truthy nodeId then readRecord records i nodeId else jm_get records i) of
        None \<Rightarrow> (records, None)
      | Some r \<Rightarrow>
          let r' = revokeRecord toIso r reason now in
          (put_record records r', Some (lifecycleSummary dp r' now)))"

definition reg_revokeForNode ::
  "(string \<Rightarrow> int option) \<Rightarrow> (int \<Rightarrow> string) \<Rightarrow> registry \<Rightarrow> string \<Rightarrow> string option \<Rightarrow> int \<Rightarrow>
   registry \<times> session_summary list" where
  "reg_revokeForNode dp toIso records nodeId reason now =
     foldl (\<lambda>(rs, revoked) r.
         if se_nodeId (rec_envelope r) \<noteq> nodeId then (rs, revoked)
         else if lifecycleState dp r now \<noteq> LsActive then (rs, revoked)
         else let r' = revokeRecord toIso r reason now in
           (put_record rs r', revoked @ [lifecycleSummary dp r' now]))
       (records, []) (jm_values records)"

record validate_context =
  vc_sessionId :: string
  vc_nodeId :: "string option"
  vc_globalSessionId :: "string option"
  vc_now :: int

datatype validation =
    ValidationOk session_record session_summary
  | ValidationError session_error "(session_record \<times> session_summary) option"

definition jstr_opt :: "string option \<Rightarrow> json" where
  "jstr_opt s = (case s of Some x \<Rightarrow> JStr x | None \<Rightarrow> JNull)"

definition node_mismatch :: "string \<Rightarrow> string option \<Rightarrow> session_error" where
  "node_mismatch expected actual = relaySessionError ''SESSION_MISMATCH'' ''SESSION_NODE_MISMATCH''
     ''scoped session node does not match the routed node''
     [(''expectedNodeId'', JStr expected), (''actualNodeId'', jstr_opt actual)]"

definition reg_validate :: "(string \<Rightarrow> int option) \<Rightarrow> registry \<Rightarrow> validate_context \<Rightarrow> validation" where
  "reg_validate dp records ctx =
     (let now = vc_now ctx; localMatches = countLocalSessionId records (vc_sessionId ctx) in
      if \<not> is_truthy (vc_nodeId ctx) \<and> jm_get records (vc_sessionId ctx) = None \<and> localMatches > 1 then
        ValidationError (relaySessionError ''INVALID_REQUEST'' ''AMBIGUOUS_LOCAL_SESSION_ID''
          ''nodeId is required when addressing a scoped session by node-local session id''
          [(''sessionId'', JStr (vc_sessionId ctx)), (''matches'', JNum (IntNum (int localMatches)))]) None
      else case readRecord records (vc_sessionId ctx) (vc_nodeId ctx) of
        None \<Rightarrow>
          (case (if is_truthy (vc_nodeId ctx) then readRecord records (vc_sessionId ctx) None else None) of
             Some m \<Rightarrow> ValidationError (node_mismatch (se_nodeId (rec_envelope m)) (vc_nodeId ctx))
               (Some (m, lifecycleSummary dp m now))
           | None \<Rightarrow> ValidationError (relaySessionError ''NOT_FOUND'' ''SESSION_ENVELOPE_NOT_FOUND''
               ''scoped session envelope was not found''
               [(''sessionId'', JStr (vc_sessionId ctx)), (''nodeId'', jstr_opt (vc_nodeId ctx)),
                (''globalSessionId'', jstr_opt (vc_globalSessionId ctx))]) None)
      | Some r \<Rightarrow>
          let summary = lifecycleSummary dp r now; e = rec_envelope r in
          if is_truthy (vc_nodeId ctx) \<and> Some (se_nodeId e) \<noteq> vc_nodeId ctx then
            ValidationError (node_mismatch (se_nodeId e) (vc_nodeId ctx)) (Some (r, summary))
          else if se_sessionId e \<noteq> vc_sessionId ctx then
            ValidationError (relaySessionError ''SESSION_MISMATCH'' ''SESSION_ID_MISMATCH''
              ''scoped session id does not match the routed session''
              [(''expectedSessionId'', JStr (se_sessionId e)), (''actualSessionId'', JStr (vc_sessionId ctx))])
              (Some (r, summary))
          else if is_truthy (vc_globalSessionId ctx) \<and> Some (se_globalSessionId e) \<noteq> vc_globalSessionId ctx then
            ValidationError (relaySessionError ''SESSION_MISMATCH'' ''SESSION_GLOBAL_ID_MISMATCH''
              ''scoped global session id does not match the routed session''
              [(''expectedGlobalSessionId'', JStr (se_globalSessionId e)),
               (''actualGlobalSessionId'', jstr_opt (vc_globalSessionId ctx))]) (Some (r, summary))
          else if sm_status summary = LsRevoked then
            ValidationError (relaySessionError ''SESSION_REVOKED'' ''SESSION_REVOKED''
              ''scoped session has been revoked''
              [(''revokedAt'', jstr_opt (sm_revokedAt summary)), (''revokeReason'', jstr_opt (sm_revokeReason summary))])
              (Some (r, summary))
          else if sm_status summary = LsExpired then
            ValidationError (relaySessionError ''SESSION_EXPIRED'' ''SESSION_EXPIRED'' ''scoped session has expired''
              [(''expiresAt'', jstr_opt (sm_expiresAt summary))]) (Some (r, summary))
          else ValidationOk r summary)"

record renew_input =
  rn_sessionId :: string
  rn_nodeId :: "string option"
  rn_expiresAt :: string
  rn_now :: int

datatype renewal =
    RenewOk session_record session_summary session_summary
  | RenewError session_error "(session_record \<times> session_summary) option"

definition reg_renew ::
  "(string \<Rightarrow> int option) \<Rightarrow> (int \<Rightarrow> string) \<Rightarrow> registry \<Rightarrow> renew_input \<Rightarrow> registry \<times> renewal" where
  "reg_renew dp toIso records inp =
     (case reg_validate dp records \<lparr>vc_sessionId = rn_sessionId inp, vc_nodeId = truthy (rn_nodeId inp),
         vc_globalSessionId = None, vc_now = rn_now inp\<rparr> of
        ValidationError e x \<Rightarrow> (records, RenewError e x)
      | ValidationOk r summary \<Rightarrow>
          if \<not> se_revocable (rec_envelope r) then
            (records, RenewError (relaySessionError ''SESSION_NON_RENEWABLE'' ''SESSION_NON_RENEWABLE''
              ''scoped session is not renewable''
              [(''sessionId'', JStr (sm_sessionId summary)), (''nodeId'', JStr (sm_nodeId summary))]) (Some (r, summary)))
          else case dp (rn_expiresAt inp) of
            Some expiryMs \<Rightarrow>
              if expiryMs > rn_now inp then
                let r' = r\<lparr>rec_envelope := (rec_envelope r)\<lparr>se_expiresAt := Some (toIso expiryMs)\<rparr>\<rparr> in
                (put_record records r', RenewOk r' summary (lifecycleSummary dp r' (rn_now inp)))
              else (records, RenewError (relaySessionError ''SESSION_EXPIRED'' ''SESSION_RENEWAL_EXPIRES_IN_PAST''
                ''renewed scoped session expiry must be in the future'' [(''expiresAt'', JStr (rn_expiresAt inp))])
                (Some (r, summary)))
          | None \<Rightarrow> (records, RenewError (relaySessionError ''SESSION_EXPIRED'' ''SESSION_RENEWAL_EXPIRES_IN_PAST''
                ''renewed scoped session expiry must be in the future'' [(''expiresAt'', JStr (rn_expiresAt inp))])
                (Some (r, summary))))"

definition reg_delete :: "registry \<Rightarrow> string \<Rightarrow> string option \<Rightarrow> registry \<times> bool" where
  "reg_delete records i nodeId =
     (case readRecord records i nodeId of
        None \<Rightarrow> (records, False)
      | Some found \<Rightarrow>
          let key = sessionEnvelopeKey (rec_envelope found) in
          (jm_delete records key, jm_get records key \<noteq> None))"

definition reg_clear :: "registry \<Rightarrow> registry" where
  "reg_clear records = []"

section \<open>The registry as a state machine\<close>

datatype reg_event =
    RegCreate string create_input
  | RegUpsert session_envelope
  | RegRevoke string "string option" "string option" int
  | RegRevokeForNode string "string option" int
  | RegRenew renew_input
  | RegDelete string "string option"
  | RegClear

fun reg_step :: "(string \<Rightarrow> int option) \<Rightarrow> (int \<Rightarrow> string) \<Rightarrow> registry \<Rightarrow> reg_event \<Rightarrow> registry" where
  "reg_step dp toIso records (RegCreate nowIso input) = fst (reg_create nowIso records input)"
| "reg_step dp toIso records (RegUpsert e) = fst (reg_upsert dp records e)"
| "reg_step dp toIso records (RegRevoke i nodeId reason now) = fst (reg_revoke dp toIso records i nodeId reason now)"
| "reg_step dp toIso records (RegRevokeForNode nodeId reason now) = fst (reg_revokeForNode dp toIso records nodeId reason now)"
| "reg_step dp toIso records (RegRenew inp) = fst (reg_renew dp toIso records inp)"
| "reg_step dp toIso records (RegDelete i nodeId) = fst (reg_delete records i nodeId)"
| "reg_step dp toIso records RegClear = reg_clear records"

abbreviation rec_key :: "session_record \<Rightarrow> string" where
  "rec_key r \<equiv> sessionEnvelopeKey (rec_envelope r)"

text \<open>Every record stands under its own global id.\<close>

definition reg_inv :: "registry \<Rightarrow> bool" where
  "reg_inv records \<longleftrightarrow> jm_wf records \<and> list_all (\<lambda>(k, r). rec_key r = k) records"

lemma reg_inv_wf: "reg_inv records \<Longrightarrow> jm_wf records"
  by (simp add: reg_inv_def)

lemma reg_inv_get: "reg_inv records \<Longrightarrow> jm_get records k = Some r \<longleftrightarrow> r \<in> set (jm_values records) \<and> rec_key r = k"
  by (force simp: reg_inv_def jm_wf_def jm_get_def jm_values_def list_all_iff image_iff)

lemma reg_inv_keys: "reg_inv records \<Longrightarrow> map rec_key (jm_values records) = map fst records"
  by (auto simp: reg_inv_def jm_values_def list_all_iff)

lemma jm_set_entries: "(k', r') \<in> set (jm_set m k r) \<Longrightarrow> (k', r') = (k, r) \<or> (k', r') \<in> set m"
  by (induction m k r rule: jm_set.induct) (auto split: if_splits)

lemma reg_inv_set: "reg_inv records \<Longrightarrow> rec_key r = k \<Longrightarrow> reg_inv (jm_set records k r)"
  by (auto simp: reg_inv_def jm_wf_set list_all_iff dest!: jm_set_entries)

lemma reg_inv_put: "reg_inv records \<Longrightarrow> reg_inv (put_record records r)"
  by (simp add: put_record_def reg_inv_set)

lemma reg_inv_delete: "reg_inv records \<Longrightarrow> reg_inv (jm_delete records k)"
  by (simp add: reg_inv_def jm_wf_delete) (auto simp: jm_delete_def list_all_iff)

lemma get_put: "reg_inv records \<Longrightarrow>
    jm_get (put_record records r) k = (if k = rec_key r then Some r else jm_get records k)"
  unfolding put_record_def by (rule jm.get_set [OF reg_inv_wf])

lemma readRecord_stored:
  assumes "reg_inv records" and "readRecord records i nodeId = Some r"
  shows "jm_get records (rec_key r) = Some r"
proof -
  have "r \<in> set (jm_values records)"
    using assms(2) jm_get_in_values find_Some_in
    by (fastforce simp: readRecord_def split: option.splits)
  then show ?thesis using reg_inv_get [OF assms(1)] by blast
qed

text \<open>Changing some of the records in place, one after the other.\<close>

lemma foldl_put:
  assumes "\<And>r. rec_key (f r) = rec_key r"
  shows "reg_inv m \<Longrightarrow> distinct (map rec_key vs) \<Longrightarrow>
    reg_inv (fst (foldl (\<lambda>(m, acc) r. if P r then (put_record m (f r), acc @ [g r]) else (m, acc)) (m, acc) vs)) \<and>
    snd (foldl (\<lambda>(m, acc) r. if P r then (put_record m (f r), acc @ [g r]) else (m, acc)) (m, acc) vs)
      = acc @ map g (filter P vs) \<and>
    jm_get (fst (foldl (\<lambda>(m, acc) r. if P r then (put_record m (f r), acc @ [g r]) else (m, acc)) (m, acc) vs)) k =
    (case List.find (\<lambda>r. rec_key r = k) vs of
       Some r \<Rightarrow> if P r then Some (f r) else jm_get m k | None \<Rightarrow> jm_get m k)"
proof (induction vs arbitrary: m acc)
  case (Cons v vs)
  have none: "List.find (\<lambda>r. rec_key r = k) vs = None" if "rec_key v = k"
    using Cons.prems(2) that by (auto simp: find_None_all) (metis imageI)
  show ?case
  proof (cases "P v")
    case True
    from Cons.IH [OF reg_inv_put [OF Cons.prems(1), of "f v"], of "acc @ [g v]"] Cons.prems True none
    show ?thesis by (auto simp: get_put assms split: option.splits)
  next
    case False
    from Cons.IH [OF Cons.prems(1), of acc] Cons.prems False none show ?thesis by auto
  qed
qed simp

lemma revokeForNode_eq:
  "reg_revokeForNode dp toIso records nodeId reason now =
    foldl (\<lambda>(m, acc) r. if se_nodeId (rec_envelope r) = nodeId \<and> lifecycleState dp r now = LsActive
        then (put_record m (revokeRecord toIso r reason now), acc @ [lifecycleSummary dp (revokeRecord toIso r reason now) now])
        else (m, acc)) (records, []) (jm_values records)"
proof -
  have "(\<lambda>(rs, revoked) r. if se_nodeId (rec_envelope r) \<noteq> nodeId then (rs, revoked)
         else if lifecycleState dp r now \<noteq> LsActive then (rs, revoked)
         else let r' = revokeRecord toIso r reason now in (put_record rs r', revoked @ [lifecycleSummary dp r' now]))
    = (\<lambda>(m, acc) r. if se_nodeId (rec_envelope r) = nodeId \<and> lifecycleState dp r now = LsActive
        then (put_record m (revokeRecord toIso r reason now), acc @ [lifecycleSummary dp (revokeRecord toIso r reason now) now])
        else (m, acc))"
    by (intro ext) (simp add: Let_def split: prod.splits)
  then show ?thesis by (simp only: reg_revokeForNode_def)
qed

lemma revokeRecord_key [simp]: "rec_envelope (revokeRecord toIso r reason now) = rec_envelope r"
  by (simp add: revokeRecord_def)

lemma revokeForNode_spec:
  assumes "reg_inv records"
  shows "reg_inv (fst (reg_revokeForNode dp toIso records nodeId reason now))"
    and "jm_get (fst (reg_revokeForNode dp toIso records nodeId reason now)) k =
      map_option (\<lambda>r. if se_nodeId (rec_envelope r) = nodeId \<and> lifecycleState dp r now = LsActive
        then revokeRecord toIso r reason now else r) (jm_get records k)"
    and "snd (reg_revokeForNode dp toIso records nodeId reason now) =
      map (\<lambda>r. lifecycleSummary dp (revokeRecord toIso r reason now) now)
        (filter (\<lambda>r. se_nodeId (rec_envelope r) = nodeId \<and> lifecycleState dp r now = LsActive) (jm_values records))"
proof -
  have d: "distinct (map rec_key (jm_values records))"
    using assms by (simp add: reg_inv_keys) (simp add: reg_inv_def jm_wf_def)
  note fold = foldl_put [OF _ assms d, where f = "\<lambda>r. revokeRecord toIso r reason now"
      and P = "\<lambda>r. se_nodeId (rec_envelope r) = nodeId \<and> lifecycleState dp r now = LsActive"
      and g = "\<lambda>r. lifecycleSummary dp (revokeRecord toIso r reason now) now" and acc = "[]", simplified]
  from fold show "reg_inv (fst (reg_revokeForNode dp toIso records nodeId reason now))"
    "snd (reg_revokeForNode dp toIso records nodeId reason now) =
      map (\<lambda>r. lifecycleSummary dp (revokeRecord toIso r reason now) now)
        (filter (\<lambda>r. se_nodeId (rec_envelope r) = nodeId \<and> lifecycleState dp r now = LsActive) (jm_values records))"
    by (simp_all add: revokeForNode_eq)
  show "jm_get (fst (reg_revokeForNode dp toIso records nodeId reason now)) k =
      map_option (\<lambda>r. if se_nodeId (rec_envelope r) = nodeId \<and> lifecycleState dp r now = LsActive
        then revokeRecord toIso r reason now else r) (jm_get records k)"
  proof (cases "List.find (\<lambda>r. rec_key r = k) (jm_values records)")
    case None
    then have "jm_get records k = None" using reg_inv_get [OF assms, of k] by (auto simp: find_None_all) (metis option.exhaust)
    with None fold show ?thesis by (simp add: revokeForNode_eq)
  next
    case (Some r)
    then have "jm_get records k = Some r" using reg_inv_get [OF assms, of k r] find_Some_in [OF Some] by simp
    with Some fold show ?thesis by (simp add: revokeForNode_eq)
  qed
qed

lemma preserveRenewedExpiry_key: "sessionEnvelopeKey (preserveRenewedExpiry dp p e) = sessionEnvelopeKey e"
  by (simp add: preserveRenewedExpiry_def sessionEnvelopeKey_def split: option.splits)

lemma reg_step_inv: "reg_inv records \<Longrightarrow> reg_inv (reg_step dp toIso records e)"
proof (cases e)
  case (RegCreate nowIso input)
  assume "reg_inv records"
  with RegCreate show ?thesis by (auto simp: reg_create_def intro!: reg_inv_set split: sum.splits)
next
  case (RegUpsert env)
  assume "reg_inv records"
  with RegUpsert show ?thesis
    by (auto simp: reg_upsert_def Let_def preserveRenewedExpiry_key intro!: reg_inv_set split: option.splits)
next
  case RegRevokeForNode
  assume "reg_inv records"
  with RegRevokeForNode show ?thesis by (simp add: revokeForNode_spec)
qed (auto simp: reg_revoke_def reg_renew_def reg_delete_def reg_clear_def Let_def reg_inv_put reg_inv_delete
    reg_inv_def [of "[]"] jm_wf_def [of "[]"] split: option.splits validation.splits if_splits)

interpretation registry: state_machine "reg_step dp toIso" "\<lambda>_ _. True" reg_inv for dp toIso
  by unfold_locales (rule reg_step_inv)

lemma registry_reachable_inv: "reachable (reg_step dp toIso) (\<lambda>_ _. True) [] records \<Longrightarrow> reg_inv records"
proof -
  have "reg_inv []" by (simp add: reg_inv_def jm_wf_def)
  then show "reachable (reg_step dp toIso) (\<lambda>_ _. True) [] records \<Longrightarrow> reg_inv records"
    by (rule registry.reachable_inv [rotated])
qed

section \<open>Revocation\<close>

lemma validate_ok:
  assumes "reg_validate dp records ctx = ValidationOk r summary"
  shows "readRecord records (vc_sessionId ctx) (vc_nodeId ctx) = Some r"
    and "se_sessionId (rec_envelope r) = vc_sessionId ctx"
    and "is_truthy (vc_nodeId ctx) \<Longrightarrow> Some (se_nodeId (rec_envelope r)) = vc_nodeId ctx"
    and "is_truthy (vc_globalSessionId ctx) \<Longrightarrow> Some (se_globalSessionId (rec_envelope r)) = vc_globalSessionId ctx"
    and "lifecycleState dp r (vc_now ctx) = LsActive"
  using assms unfolding reg_validate_def Let_def
  by (auto simp: lifecycleSummary_def Let_def split: if_splits option.splits)
    (cases "lifecycleState dp r (vc_now ctx)", auto)+

definition is_revoked :: "registry \<Rightarrow> string \<Rightarrow> bool" where
  "is_revoked records k \<longleftrightarrow> (\<exists>r. jm_get records k = Some r \<and> is_truthy (rec_revokedAt r))"

text \<open>The operations that end a record or start a new one.\<close>

fun forgets :: "reg_event \<Rightarrow> bool" where
  "forgets (RegCreate _ _) = True"
| "forgets (RegDelete _ _) = True"
| "forgets RegClear = True"
| "forgets _ = False"

lemma revoked_put:
  assumes "reg_inv records" and "is_revoked records k"
    and "jm_get records (rec_key r) = Some r" and "rec_key r' = rec_key r"
    and "is_truthy (rec_revokedAt r) \<Longrightarrow> is_truthy (rec_revokedAt r')"
  shows "is_revoked (put_record records r') k"
  using assms by (auto simp: is_revoked_def get_put)

lemma step_keeps_revoked:
  assumes inv: "reg_inv records" and rev: "is_revoked records k" and "\<not> forgets e"
  shows "is_revoked (reg_step dp toIso records e) k"
proof (cases e)
  case (RegUpsert env)
  have "jm_get (reg_step dp toIso records e) k = (if k = sessionEnvelopeKey env
      then Some \<lparr>rec_envelope = (case jm_get records k of Some p \<Rightarrow> preserveRenewedExpiry dp (rec_envelope p) env | None \<Rightarrow> env),
        rec_revokedAt = Option.bind (jm_get records k) rec_revokedAt,
        rec_revokeReason = Option.bind (jm_get records k) rec_revokeReason\<rparr>
      else jm_get records k)"
    using RegUpsert inv by (simp add: reg_upsert_def Let_def jm.get_set reg_inv_wf)
  with rev show ?thesis by (auto simp: is_revoked_def)
next
  case (RegRevoke i nodeId reason now)
  show ?thesis
  proof (cases "if is_truthy nodeId then readRecord records i nodeId else jm_get records i")
    case None
    with RegRevoke rev show ?thesis by (simp add: reg_revoke_def)
  next
    case (Some r)
    have "jm_get records (rec_key r) = Some r"
      using Some readRecord_stored [OF inv] reg_inv_get [OF inv] by (auto split: if_splits)
    then have "is_revoked (put_record records (revokeRecord toIso r reason now)) k"
      by (rule revoked_put [OF inv rev]) (auto simp: revokeRecord_def nullish_def is_truthy_iff)
    with RegRevoke Some show ?thesis by (simp add: reg_revoke_def Let_def)
  qed
next
  case (RegRevokeForNode nodeId reason now)
  with rev show ?thesis
    by (auto simp: is_revoked_def revokeForNode_spec [OF inv] lifecycleState_def)
next
  case (RegRenew inp)
  show ?thesis
  proof (cases "reg_step dp toIso records e = records")
    case False
    with RegRenew obtain r summary ms where ok: "reg_validate dp records \<lparr>vc_sessionId = rn_sessionId inp,
        vc_nodeId = truthy (rn_nodeId inp), vc_globalSessionId = None, vc_now = rn_now inp\<rparr> = ValidationOk r summary"
      and st: "reg_step dp toIso records e =
        put_record records (r\<lparr>rec_envelope := (rec_envelope r)\<lparr>se_expiresAt := Some (toIso ms)\<rparr>\<rparr>)"
      by (auto simp: reg_renew_def Let_def split: validation.splits option.splits if_splits)
    have "jm_get records (rec_key r) = Some r" by (rule readRecord_stored [OF inv validate_ok(1) [OF ok]])
    then show ?thesis
      unfolding st by (rule revoked_put [OF inv rev]) (auto simp: sessionEnvelopeKey_def)
  qed (use rev in simp)
qed (use assms(3) in simp_all)

lemma run_keeps_revoked:
  "reg_inv records \<Longrightarrow> is_revoked records k \<Longrightarrow> \<not> list_ex forgets es \<Longrightarrow> is_revoked (run (reg_step dp toIso) records es) k"
proof (induction es arbitrary: records)
  case (Cons e es)
  then have "is_revoked (reg_step dp toIso records e) k" by (intro step_keeps_revoked) auto
  with Cons reg_step_inv [OF Cons.prems(1)] show ?case by simp
qed simp

lemma run_inv_registry: "reg_inv records \<Longrightarrow> reg_inv (run (reg_step dp toIso) records es)"
  by (rule registry.run_inv) simp_all

text \<open>C4: A revocation holds. Once a session is revoked, no sequence of upserts, renewals and further
  revocations brings it back: its record stays revoked, and no validation, at any time and however it
  is addressed, accepts it.\<close>

theorem revocation_is_permanent:
  assumes "reachable (reg_step dp toIso) (\<lambda>_ _. True) [] records" and "is_revoked records k"
    and "\<not> list_ex forgets es" and "records' = run (reg_step dp toIso) records es"
  shows "is_revoked records' k \<and> (\<forall>ctx r summary. reg_validate dp records' ctx = ValidationOk r summary \<longrightarrow> rec_key r \<noteq> k)"
proof -
  have inv: "reg_inv records'" unfolding assms(4) by (intro run_inv_registry registry_reachable_inv [OF assms(1)])
  have rev: "is_revoked records' k"
    unfolding assms(4) by (rule run_keeps_revoked [OF registry_reachable_inv [OF assms(1)] assms(2,3)])
  have "rec_key r \<noteq> k" if "reg_validate dp records' ctx = ValidationOk r summary" for ctx r summary
  proof
    assume "rec_key r = k"
    with readRecord_stored [OF inv validate_ok(1) [OF that]] rev have "is_truthy (rec_revokedAt r)"
      by (auto simp: is_revoked_def)
    with validate_ok(5) [OF that] show False by (simp add: lifecycleState_def)
  qed
  with rev show ?thesis by blast
qed

definition sample_envelope :: "string \<Rightarrow> string \<Rightarrow> string option \<Rightarrow> session_envelope" where
  "sample_envelope n i expires =
     \<lparr>se_sessionId = i, se_globalSessionId = n @ '':'' @ i, se_nodeId = n,
      se_intent = \<lparr>si_kind = IntentRoutedNode, si_description = []\<rparr>,
      se_scope = \<lparr>ss_kind = SkNodeCwd, ss_nodeId = n, ss_cwd = ''/w'', ss_repoPath = None, ss_worktreePath = None\<rparr>,
      se_issuedAt = ''t'', se_expiresAt = expires, se_revocable = True, se_peerIdentity = PeerUnknown None None,
      se_correlationId = None, se_auditId = None\<rparr>"

theorem revocation_is_permanent_witness:
  "let es = [RegUpsert (sample_envelope ''n'' ''s'' None), RegRevoke ''n:s'' None None 5];
       records = run (reg_step (\<lambda>_. None) (\<lambda>_. ''now'')) [] es
   in is_revoked (run (reg_step (\<lambda>_. None) (\<lambda>_. ''now'')) records [RegUpsert (sample_envelope ''n'' ''s'' None)]) ''n:s''"
proof -
  let ?st = "reg_step (\<lambda>_. None) (\<lambda>_. ''now'')"
  let ?records = "?st (?st [] (RegUpsert (sample_envelope ''n'' ''s'' None))) (RegRevoke ''n:s'' None None 5)"
  have "reachable ?st (\<lambda>_ _. True) [] ?records" by (intro reach_step reach_init) simp_all
  moreover have "is_revoked ?records ''n:s''"
    by (simp add: is_revoked_def reg_upsert_def reg_revoke_def sample_envelope_def sessionEnvelopeKey_def Let_def
        jm_get_def put_record_def revokeRecord_def nullish_def is_truthy_def truthy_def)
  ultimately show ?thesis
    using revocation_is_permanent [of "\<lambda>_. None" "\<lambda>_. ''now''" ?records "''n:s''" "[RegUpsert (sample_envelope ''n'' ''s'' None)]"]
    by (simp add: Let_def)
qed

text \<open>Creating a session again under the key of a revoked one forgets the revocation, unlike an
  upsert of the same envelope.\<close>

theorem create_forgets_revocation:
  "\<exists>records input k. reg_inv records \<and> is_revoked records k \<and>
     \<not> is_revoked (fst (reg_create ''t'' records input)) k \<and> hasGlobalSessionId (fst (reg_create ''t'' records input)) k"
proof -
  let ?r = "\<lparr>rec_envelope = sample_envelope ''n'' ''s'' None, rec_revokedAt = Some ''x'', rec_revokeReason = None\<rparr>"
  let ?in = "\<lparr>ci_fallback = (sample_fallback ''n'' ''s'')\<lparr>fb_globalSessionId := Some ''n:s''\<rparr>, ci_envelope = JNull, ci_intentKind = None\<rparr>"
  show ?thesis
    by (intro exI [of _ "[(''n:s'', ?r)]"] exI [of _ ?in] exI [of _ "''n:s''"])
      (simp add: reg_inv_def jm_wf_def is_revoked_def jm_get_def sessionEnvelopeKey_def sample_envelope_def is_truthy_def
        truthy_def reg_create_def normalizeSessionEnvelope_def isSessionEnvelope_def is_record_def hasGlobalSessionId_def
        createLocalCompatibilitySessionEnvelope_def fallback_envelope_def sample_fallback_def)
qed

text \<open>A revocation time in the registry is a printed date, never the empty string.\<close>

definition no_blank :: "registry \<Rightarrow> bool" where
  "no_blank records \<longleftrightarrow> (\<forall>k r. jm_get records k = Some r \<longrightarrow> rec_revokedAt r \<noteq> Some [])"

lemma no_blank_put:
  "reg_inv records \<Longrightarrow> no_blank records \<Longrightarrow> rec_revokedAt r \<noteq> Some [] \<Longrightarrow> no_blank (put_record records r)"
  by (simp add: no_blank_def get_put)

lemma revokeRecord_no_blank:
  "\<forall>t. toIso t \<noteq> [] \<Longrightarrow> rec_revokedAt r \<noteq> Some [] \<Longrightarrow> rec_revokedAt (revokeRecord toIso r reason now) \<noteq> Some []"
  by (auto simp: revokeRecord_def nullish_def split: option.splits)

lemma read_no_blank:
  "reg_inv records \<Longrightarrow> no_blank records \<Longrightarrow> readRecord records i nodeId = Some r \<Longrightarrow> rec_revokedAt r \<noteq> Some []"
  using readRecord_stored unfolding no_blank_def by blast

lemma step_no_blank:
  assumes inv: "reg_inv records" and nb: "no_blank records" and "\<forall>t. toIso t \<noteq> []"
  shows "no_blank (reg_step dp toIso records e)"
proof (cases e)
  case (RegCreate nowIso input)
  with nb inv show ?thesis
    by (auto simp: no_blank_def reg_create_def jm.get_set reg_inv_wf split: sum.splits if_splits)
next
  case (RegUpsert env)
  with nb inv show ?thesis
    by (auto simp: no_blank_def reg_upsert_def Let_def jm.get_set reg_inv_wf split: if_splits)
      (metis bind_eq_Some_conv)
next
  case (RegRevoke i nodeId reason now)
  show ?thesis
  proof (cases "if is_truthy nodeId then readRecord records i nodeId else jm_get records i")
    case (Some r)
    then have "rec_revokedAt r \<noteq> Some []"
      using read_no_blank [OF inv nb] nb by (auto simp: no_blank_def split: if_splits)
    then have "no_blank (put_record records (revokeRecord toIso r reason now))"
      by (intro no_blank_put [OF inv nb] revokeRecord_no_blank [OF assms(3)])
    with RegRevoke Some show ?thesis by (simp add: reg_revoke_def Let_def)
  qed (use RegRevoke nb in \<open>simp add: reg_revoke_def\<close>)
next
  case (RegRevokeForNode nodeId reason now)
  with nb assms(3) show ?thesis
    by (auto simp: no_blank_def revokeForNode_spec [OF inv] revokeRecord_no_blank)
next
  case (RegRenew inp)
  with nb show ?thesis
    by (auto simp: reg_renew_def Let_def split: validation.splits option.splits
        intro!: no_blank_put [OF inv] dest!: validate_ok(1) read_no_blank [OF inv nb])
next
  case (RegDelete i nodeId)
  with nb inv show ?thesis
    by (auto simp: no_blank_def reg_delete_def Let_def jm.get_delete reg_inv_wf split: option.splits if_splits)
qed (simp add: no_blank_def reg_clear_def jm_get_def)

lemma registry_no_blank:
  assumes "reachable (reg_step dp toIso) (\<lambda>_ _. True) [] records" and "\<forall>t. toIso t \<noteq> []"
  shows "no_blank records"
  using assms(1)
proof (induction rule: reachable.induct)
  case reach_init
  then show ?case by (simp add: no_blank_def jm_get_def)
next
  case (reach_step records e)
  then show ?case by (intro step_no_blank registry_reachable_inv) (use assms(2) in auto)
qed

lemma revoke_active_is_revoked:
  assumes "reachable (reg_step dp toIso) (\<lambda>_ _. True) [] records" and "\<forall>t. toIso t \<noteq> []"
    and "r \<in> set (jm_values records)" and "lifecycleState dp r now = LsActive"
  shows "is_truthy (rec_revokedAt (revokeRecord toIso r reason now))"
proof -
  have "jm_get records (rec_key r) = Some r"
    using reg_inv_get [OF registry_reachable_inv [OF assms(1)]] assms(3) by blast
  then have "rec_revokedAt r \<noteq> Some []" using registry_no_blank [OF assms(1,2)] by (auto simp: no_blank_def)
  then show ?thesis using assms(2) by (auto simp: revokeRecord_def nullish_def is_truthy_iff split: option.splits)
qed

lemma revoked_node_not_valid:
  assumes "reachable (reg_step dp toIso) (\<lambda>_ _. True) [] records" and "\<forall>t. toIso t \<noteq> []"
    and "reg_revokeForNode dp toIso records nodeId reason now = (records', summaries)"
    and "vc_now ctx \<ge> now" and ok: "reg_validate dp records' ctx = ValidationOk r summary"
  shows "se_nodeId (rec_envelope r) \<noteq> nodeId"
proof
  note inv = registry_reachable_inv [OF assms(1)]
  note spec = revokeForNode_spec [OF inv, of dp toIso nodeId reason now, unfolded assms(3), simplified]
  assume n: "se_nodeId (rec_envelope r) = nodeId"
  have "jm_get records' (rec_key r) = Some r" by (rule readRecord_stored [OF spec(1) validate_ok(1) [OF ok]])
  then have "map_option (\<lambda>r. if se_nodeId (rec_envelope r) = nodeId \<and> lifecycleState dp r now = LsActive
      then revokeRecord toIso r reason now else r) (jm_get records (rec_key r)) = Some r"
    using spec(2) [of "rec_key r"] by simp
  then obtain q where q: "jm_get records (rec_key r) = Some q"
    and r: "r = (if se_nodeId (rec_envelope q) = nodeId \<and> lifecycleState dp q now = LsActive
      then revokeRecord toIso q reason now else q)" by (cases "jm_get records (rec_key r)") auto
  have active: "lifecycleState dp r (vc_now ctx) = LsActive" by (rule validate_ok(5) [OF ok])
  show False
  proof (cases "lifecycleState dp q now = LsActive")
    case True
    with r n have "r = revokeRecord toIso q reason now" by (auto split: if_splits)
    moreover have "rec_revokedAt q \<noteq> Some []" using registry_no_blank [OF assms(1,2)] q by (auto simp: no_blank_def)
    ultimately have "is_truthy (rec_revokedAt r)"
      using assms(2) by (auto simp: revokeRecord_def nullish_def is_truthy_iff split: option.splits)
    with active show False by (simp add: lifecycleState_def)
  next
    case False
    with r active assms(4) show False
      by (auto simp: lifecycleState_def split: if_splits expiry.splits)
  qed
qed

text \<open>Revoking a node's sessions is complete: afterwards no session of that node is valid then or at
  any later time, the summaries returned are those of the sessions that were active, in the registry's
  order, and the sessions of other nodes are untouched.\<close>

theorem node_revocation_is_complete:
  assumes "reachable (reg_step dp toIso) (\<lambda>_ _. True) [] records" and "\<forall>t. toIso t \<noteq> []"
    and "reg_revokeForNode dp toIso records nodeId reason now = (records', summaries)"
  shows "(\<forall>ctx r summary. vc_now ctx \<ge> now \<and> reg_validate dp records' ctx = ValidationOk r summary \<longrightarrow>
      se_nodeId (rec_envelope r) \<noteq> nodeId) \<and>
    summaries = map (\<lambda>r. lifecycleSummary dp (revokeRecord toIso r reason now) now)
      (filter (\<lambda>r. se_nodeId (rec_envelope r) = nodeId \<and> lifecycleState dp r now = LsActive) (jm_values records)) \<and>
    (\<forall>k r. jm_get records k = Some r \<and> se_nodeId (rec_envelope r) \<noteq> nodeId \<longrightarrow> jm_get records' k = Some r)"
proof -
  note inv = registry_reachable_inv [OF assms(1)]
  note spec = revokeForNode_spec [OF inv, of dp toIso nodeId reason now, unfolded assms(3), simplified]
  note valid = revoked_node_not_valid [OF assms]
  have "jm_get records' k = Some r" if "jm_get records k = Some r" "se_nodeId (rec_envelope r) \<noteq> nodeId" for k r
    using spec(2) [of k] that by simp
  then show ?thesis using spec(3) valid by blast
qed

theorem node_revocation_is_complete_witness:
  "let st = reg_step (\<lambda>_. None) (\<lambda>_. ''now''); records = st [] (RegUpsert (sample_envelope ''n'' ''s'' None));
       records' = fst (reg_revokeForNode (\<lambda>_. None) (\<lambda>_. ''now'') records ''n'' None 5)
   in \<forall>ctx r summary. vc_now ctx \<ge> 5 \<and> reg_validate (\<lambda>_. None) records' ctx = ValidationOk r summary \<longrightarrow>
        se_nodeId (rec_envelope r) \<noteq> ''n''"
proof -
  let ?st = "reg_step (\<lambda>_. None) (\<lambda>_. ''now'')"
  let ?records = "?st [] (RegUpsert (sample_envelope ''n'' ''s'' None))"
  obtain records' summaries where r: "reg_revokeForNode (\<lambda>_. None) (\<lambda>_. ''now'') ?records ''n'' None 5 = (records', summaries)"
    by force
  have "reachable ?st (\<lambda>_ _. True) [] ?records" by (intro reach_step reach_init) simp_all
  from node_revocation_is_complete [OF this _ r] show ?thesis unfolding Let_def r fst_conv by blast
qed

section \<open>Validation, renewal and upsert\<close>

text \<open>A validation that succeeds returns a record of the registry whose session id, and node and
  global id when given, are the ones asked for, and which is neither revoked nor expired at that
  time.\<close>

theorem validation_is_sound:
  assumes "reachable (reg_step dp toIso) (\<lambda>_ _. True) [] records"
    and "reg_validate dp records ctx = ValidationOk r summary"
  shows "jm_get records (rec_key r) = Some r \<and> se_sessionId (rec_envelope r) = vc_sessionId ctx \<and>
    (is_truthy (vc_nodeId ctx) \<longrightarrow> Some (se_nodeId (rec_envelope r)) = vc_nodeId ctx) \<and>
    (is_truthy (vc_globalSessionId ctx) \<longrightarrow> Some (se_globalSessionId (rec_envelope r)) = vc_globalSessionId ctx) \<and>
    \<not> is_truthy (rec_revokedAt r) \<and>
    (\<forall>e. truthy (se_expiresAt (rec_envelope r)) = Some e \<longrightarrow> (\<exists>ms. dp e = Some ms \<and> vc_now ctx < ms))"
proof -
  have "jm_get records (rec_key r) = Some r"
    by (rule readRecord_stored [OF registry_reachable_inv [OF assms(1)] validate_ok(1) [OF assms(2)]])
  with validate_ok [OF assms(2)] show ?thesis
    by (auto simp: lifecycleState_def parseExpiryMs_def split: if_splits option.splits)
qed

theorem validation_is_sound_witness:
  "let records = reg_step (\<lambda>_. None) (\<lambda>_. []) [] (RegUpsert (sample_envelope ''n'' ''s'' None));
       ctx = \<lparr>vc_sessionId = ''s'', vc_nodeId = None, vc_globalSessionId = None, vc_now = 0\<rparr>
   in \<exists>r summary. reg_validate (\<lambda>_. None) records ctx = ValidationOk r summary \<and> \<not> is_truthy (rec_revokedAt r)"
proof -
  let ?records = "reg_step (\<lambda>_. None) (\<lambda>_. []) [] (RegUpsert (sample_envelope ''n'' ''s'' None))"
  let ?ctx = "\<lparr>vc_sessionId = ''s'', vc_nodeId = None, vc_globalSessionId = None, vc_now = 0\<rparr>"
  have reach: "reachable (reg_step (\<lambda>_. None) (\<lambda>_. [])) (\<lambda>_ _. True) [] ?records" by (intro reach_step reach_init) simp_all
  obtain r summary where ok: "reg_validate (\<lambda>_. None) ?records ?ctx = ValidationOk r summary"
    by (simp add: reg_validate_def reg_upsert_def sample_envelope_def sessionEnvelopeKey_def Let_def jm_get_def
        is_truthy_def truthy_def countLocalSessionId_def jm_values_def readRecord_def lifecycleSummary_def
        lifecycleState_def parseExpiryMs_def)
  from validation_is_sound [OF reach ok] ok show ?thesis unfolding Let_def by blast
qed

lemma find_map_invariant:
  "(\<And>x. P (g x) = P x) \<Longrightarrow> List.find P (map g xs) = map_option g (List.find P xs)"
  by (induction xs) auto

lemma values_put:
  assumes "reg_inv records" and "jm_get records (rec_key r) \<noteq> None"
  shows "jm_values (put_record records r) = map (\<lambda>x. if rec_key x = rec_key r then r else x) (jm_values records)"
proof -
  have "k \<in> fst ` set m \<Longrightarrow> distinct (map fst m) \<Longrightarrow> list_all (\<lambda>(k, r). rec_key r = k) m \<Longrightarrow>
    map snd (jm_set m k r) = map (\<lambda>x. if rec_key x = k then r else x) (map snd m)" for m k
  proof (induction m k r rule: jm_set.induct)
    case (2 k' v' m k v)
    show ?case
    proof (cases "k' = k")
      case True
      then have "map (\<lambda>x. if rec_key x = k then v else x) (map snd m) = map snd m"
        using 2(3,4) by (intro map_idI) (force simp: list_all_iff)
      with True 2(4) show ?thesis by simp
    next
      case False
      with 2 show ?thesis by auto
    qed
  qed simp
  moreover have "rec_key r \<in> fst ` set records"
    using assms(2) by (auto simp: jm_get_def map_of_eq_None_iff)
  ultimately show ?thesis
    using assms(1) by (simp add: put_record_def jm_values_def reg_inv_def jm_wf_def)
qed

lemma readRecord_put:
  assumes inv: "reg_inv records" and "readRecord records i nodeId = Some r"
    and "rec_key r' = rec_key r" and "se_nodeId (rec_envelope r') = se_nodeId (rec_envelope r)"
    and "se_sessionId (rec_envelope r') = se_sessionId (rec_envelope r)"
  shows "readRecord (put_record records r') i nodeId = Some r'"
proof -
  note stored = readRecord_stored [OF inv assms(2)]
  let ?g = "\<lambda>x. if rec_key x = rec_key r' then r' else x"
  have same: "x = r" if "x \<in> set (jm_values records)" "rec_key x = rec_key r" for x
    using that stored reg_inv_get [OF inv, of "rec_key r"] by (metis option.inject)
  have vals: "jm_values (put_record records r') = map ?g (jm_values records)"
    using values_put [OF inv, of r'] stored assms(3) by simp
  have find: "List.find P (map ?g (jm_values records)) = Some r'"
    if "List.find P (jm_values records) = Some r" "P r' = P r" for P
  proof -
    have "List.find P (map ?g xs) = map_option ?g (List.find P xs)" if "set xs \<subseteq> set (jm_values records)" for xs
      using that \<open>P r' = P r\<close> same assms(3) by (induction xs) auto
    with that(1) assms(3) show ?thesis by simp
  qed
  have get: "jm_get (put_record records r') k = (if k = rec_key r then Some r' else jm_get records k)" for k
    using get_put [OF inv, of r' k] assms(3) by simp
  have key: "k = rec_key r" if "jm_get records k = Some r" for k using that reg_inv_get [OF inv] by simp
  show ?thesis
    using assms(2) find assms(3-5) key
    by (auto simp: readRecord_def vals get sessionEnvelopeKey_def split: option.splits)
qed

lemma count_put:
  assumes "reg_inv records" and "jm_get records (rec_key r') = Some r"
    and "se_sessionId (rec_envelope r') = se_sessionId (rec_envelope r)"
  shows "countLocalSessionId (put_record records r') i = countLocalSessionId records i"
proof -
  have same: "x = r" if "x \<in> set (jm_values records)" "rec_key x = rec_key r'" for x
    using that assms(2) reg_inv_get [OF assms(1), of "rec_key r'"] by (metis option.inject)
  have "length (filter (\<lambda>x. se_sessionId (rec_envelope x) = i) (map (\<lambda>x. if rec_key x = rec_key r' then r' else x) xs)) =
      length (filter (\<lambda>x. se_sessionId (rec_envelope x) = i) xs)" if "set xs \<subseteq> set (jm_values records)" for xs
    using that same assms(3) by (induction xs) auto
  then show ?thesis using values_put [OF assms(1), of r'] assms(2) by (simp add: countLocalSessionId_def)
qed

lemma validate_put:
  assumes inv: "reg_inv records" and ok: "reg_validate dp records ctx = ValidationOk r summary"
    and "rec_key r' = rec_key r" and "se_nodeId (rec_envelope r') = se_nodeId (rec_envelope r)"
    and "se_sessionId (rec_envelope r') = se_sessionId (rec_envelope r)"
    and "se_globalSessionId (rec_envelope r') = se_globalSessionId (rec_envelope r)"
    and "lifecycleState dp r' t = LsActive"
  shows "reg_validate dp (put_record records r') (ctx\<lparr>vc_now := t\<rparr>) = ValidationOk r' (lifecycleSummary dp r' t)"
proof -
  note v = validate_ok [OF ok]
  have stored: "jm_get records (rec_key r') = Some r" using readRecord_stored [OF inv v(1)] assms(3) by simp
  have get: "jm_get (put_record records r') k = None \<longleftrightarrow> jm_get records k = None" for k
    using get_put [OF inv, of r' k] stored by auto
  have "\<not> (\<not> is_truthy (vc_nodeId ctx) \<and> jm_get records (vc_sessionId ctx) = None \<and>
      countLocalSessionId records (vc_sessionId ctx) > 1)"
    using ok by (auto simp: reg_validate_def Let_def)
  with v(2-4) readRecord_put [OF inv v(1) assms(3-5)] count_put [OF inv stored assms(5)] get assms(4-7)
  show ?thesis by (auto simp: reg_validate_def Let_def lifecycleSummary_def)
qed

text \<open>A renewed session is valid until its new expiry and not after: at every time before the expiry,
  validating with the ids of the renewal succeeds with the renewed record, and from the expiry on the
  record counts as expired. The printed expiry is assumed to be non-empty and read back as the same
  time.\<close>

theorem renewal_extends_validity:
  assumes "reachable (reg_step dp toIso) (\<lambda>_ _. True) [] records"
    and "dp (toIso ms) = Some ms" and "toIso ms \<noteq> []"
    and "reg_renew dp toIso records inp = (records', RenewOk r' previous summary)"
    and "dp (rn_expiresAt inp) = Some ms"
  shows "rn_now inp < ms \<and>
    (\<forall>t. ms \<le> t \<longrightarrow> lifecycleState dp r' t = LsExpired) \<and>
    (\<forall>t. t < ms \<longrightarrow> reg_validate dp records' \<lparr>vc_sessionId = rn_sessionId inp,
        vc_nodeId = truthy (rn_nodeId inp), vc_globalSessionId = None, vc_now = t\<rparr> =
      ValidationOk r' (lifecycleSummary dp r' t))"
proof -
  note inv = registry_reachable_inv [OF assms(1)]
  obtain r where ok: "reg_validate dp records \<lparr>vc_sessionId = rn_sessionId inp,
      vc_nodeId = truthy (rn_nodeId inp), vc_globalSessionId = None, vc_now = rn_now inp\<rparr> = ValidationOk r previous"
    and r': "r' = r\<lparr>rec_envelope := (rec_envelope r)\<lparr>se_expiresAt := Some (toIso ms)\<rparr>\<rparr>"
    and st: "records' = put_record records r'" and ms: "rn_now inp < ms"
    using assms(4,5) by (auto simp: reg_renew_def Let_def split: validation.splits if_splits)
  note v = validate_ok [OF ok, simplified]
  have "\<not> is_truthy (rec_revokedAt r)" using v(5) by (auto simp: lifecycleState_def split: if_splits)
  then have state: "lifecycleState dp r' t = (if t < ms then LsActive else LsExpired)" for t
    using assms(2,3) by (simp add: r' lifecycleState_def parseExpiryMs_def truthy_def)
  have "reg_validate dp records' \<lparr>vc_sessionId = rn_sessionId inp,
        vc_nodeId = truthy (rn_nodeId inp), vc_globalSessionId = None, vc_now = t\<rparr> =
      ValidationOk r' (lifecycleSummary dp r' t)" if "t < ms" for t
    using validate_put [OF inv ok, of r' t] state [of t] that
    unfolding st by (simp add: r' sessionEnvelopeKey_def)
  then show ?thesis using ms state by simp
qed

theorem renewal_extends_validity_witness:
  "let dp = (\<lambda>s. if s = ''nine'' then Some 9 else None); toIso = (\<lambda>_. ''nine'');
       records = reg_step dp toIso [] (RegUpsert (sample_envelope ''n'' ''s'' None));
       inp = \<lparr>rn_sessionId = ''s'', rn_nodeId = Some ''n'', rn_expiresAt = ''nine'', rn_now = 2\<rparr>
   in \<exists>records' r' previous summary. reg_renew dp toIso records inp = (records', RenewOk r' previous summary) \<and>
        lifecycleState dp r' 9 = LsExpired"
proof -
  let ?dp = "\<lambda>s. if s = ''nine'' then Some 9 else None"
  let ?toIso = "\<lambda>_. ''nine''"
  let ?records = "reg_step ?dp ?toIso [] (RegUpsert (sample_envelope ''n'' ''s'' None))"
  let ?inp = "\<lparr>rn_sessionId = ''s'', rn_nodeId = Some ''n'', rn_expiresAt = ''nine'', rn_now = 2\<rparr>"
  have reach: "reachable (reg_step ?dp ?toIso) (\<lambda>_ _. True) [] ?records" by (intro reach_step reach_init) simp_all
  have "\<exists>records' r' previous summary. reg_renew ?dp ?toIso ?records ?inp = (records', RenewOk r' previous summary)"
    by (simp add: reg_renew_def reg_validate_def reg_upsert_def sample_envelope_def sessionEnvelopeKey_def Let_def jm_get_def
        is_truthy_def truthy_def countLocalSessionId_def jm_values_def readRecord_def lifecycleSummary_def
        lifecycleState_def parseExpiryMs_def)
  then obtain records' r' previous summary
    where ok: "reg_renew ?dp ?toIso ?records ?inp = (records', RenewOk r' previous summary)" by blast
  have "lifecycleState ?dp r' 9 = LsExpired"
    using renewal_extends_validity [OF reach _ _ ok, of 9] by simp
  with ok show ?thesis unfolding Let_def by blast
qed

text \<open>An upsert of the same session never takes back a renewal: when the envelope that is stored and
  the one that arrives name the same session, node, scope and peer, and both expire, the stored expiry
  is the later of the two; and the revocation of the record is kept in every case.\<close>

theorem upsert_keeps_renewal:
  assumes "jm_wf records" and "jm_get records (sessionEnvelopeKey e) = Some p"
    and "reg_upsert dp records e = (records', stored)"
  shows "\<exists>q. jm_get records' (sessionEnvelopeKey e) = Some q \<and> rec_envelope q = stored \<and>
    rec_revokedAt q = rec_revokedAt p \<and> rec_revokeReason q = rec_revokeReason p \<and>
    (sameAuthorityForExpiryPreservation (rec_envelope p) e \<longrightarrow>
      (\<forall>a b x y. se_expiresAt (rec_envelope p) = Some a \<and> se_expiresAt e = Some b \<and> a \<noteq> [] \<and> b \<noteq> [] \<and>
         dp a = Some x \<and> dp b = Some y \<longrightarrow> parseExpiryMs dp (se_expiresAt stored) = ExpiryMs (max x y)))"
  using assms
  by (auto simp: reg_upsert_def Let_def jm.get_set preserveRenewedExpiry_def parseExpiryMs_def is_truthy_def
      truthy_def max_def)

theorem upsert_keeps_renewal_witness:
  "let dp = (\<lambda>s. if s = ''late'' then Some 9 else Some (3 :: int));
       records = [(''n:s'', \<lparr>rec_envelope = sample_envelope ''n'' ''s'' (Some ''late''), rec_revokedAt = None, rec_revokeReason = None\<rparr>)]
   in \<exists>q. jm_get (fst (reg_upsert dp records (sample_envelope ''n'' ''s'' (Some ''soon'')))) ''n:s'' = Some q \<and>
        parseExpiryMs dp (se_expiresAt (rec_envelope q)) = ExpiryMs 9"
proof -
  let ?dp = "\<lambda>s. if s = ''late'' then Some 9 else Some (3 :: int)"
  let ?p = "\<lparr>rec_envelope = sample_envelope ''n'' ''s'' (Some ''late''), rec_revokedAt = None, rec_revokeReason = None\<rparr>"
  let ?e = "sample_envelope ''n'' ''s'' (Some ''soon'')"
  obtain records' stored where u: "reg_upsert ?dp [(''n:s'', ?p)] ?e = (records', stored)" by force
  have key: "sessionEnvelopeKey ?e = ''n:s''" by (simp add: sample_envelope_def sessionEnvelopeKey_def)
  have "sameAuthorityForExpiryPreservation (rec_envelope ?p) ?e"
    by (simp add: sameAuthorityForExpiryPreservation_def sample_envelope_def sameOptionalPath_def samePeerAuthority_def)
  moreover have "se_expiresAt (rec_envelope ?p) = Some ''late''" "se_expiresAt ?e = Some ''soon''"
    by (simp_all add: sample_envelope_def)
  ultimately obtain q where "jm_get records' ''n:s'' = Some q" "parseExpiryMs ?dp (se_expiresAt (rec_envelope q)) = ExpiryMs (max 9 3)"
    using upsert_keeps_renewal [OF _ _ u, of ?p] by (auto simp: jm_wf_def jm_get_def key)
  then show ?thesis by (simp add: u Let_def)
qed

end
