(* ===== verification/Policy_Revocation.thy ===== *)
theory Policy_Revocation
  imports Hub_Policy Session_Registry
begin

text \<open>
  Revocation after a policy change, the function \<open>revokePolicyAffectedSessions\<close> of
  \<open>src/server/hub-policy-evaluator.ts\<close>: the session registry revokes the active sessions of a node, each
  of them is evaluated again under the node's policy, and a revocation is written to the audit sink for
  it. The theory joins the registry with the policy evaluator; the clock's printer and parser are the
  arguments \<open>toIso\<close> and \<open>dp\<close>, as in the registry.
\<close>

fun hub_scope_kind_of :: "session_scope_kind \<Rightarrow> hub_scope_kind" where
  "hub_scope_kind_of SkLocalCompatibility = HsLocalCompatibility"
| "hub_scope_kind_of SkNodeCwd = HsNodeCwd"
| "hub_scope_kind_of SkRepo = HsPolicy ScopeRepo"
| "hub_scope_kind_of SkWorktree = HsWorktree"

definition revalidation_input :: "hub_node option \<Rightarrow> string \<Rightarrow> int \<Rightarrow> session_summary \<Rightarrow> hub_policy_input" where
  "revalidation_input node nodeId now s =
     \<lparr>in_peer = \<lparr>hp_kind = PeerSystem, hp_nodeId = None, hp_credentialId = None, hp_displayName = None\<rparr>,
      in_node = node, in_nodeId = nodeId,
      in_intent = \<lparr>hi_action = ''sessions.revalidate'', hi_target = Some nodeId\<rparr>,
      in_scope = \<lparr>hs_kind = hub_scope_kind_of (ss_kind (sm_scope s)), hs_nodeId = sm_nodeId s,
        hs_cwd = Some (ss_cwd (sm_scope s)), hs_path = None, hs_workspaceId = None, hs_repoId = None,
        hs_repoPath = truthy (ss_repoPath (sm_scope s)),
        hs_worktreePath = ss_worktreePath (sm_scope s)\<rparr>,
      in_requiredCapabilities = [''session:attach''], in_nowMs = now, in_expiresAt = sm_expiresAt s,
      in_revokedAt = sm_revokedAt s, in_sessionId = Some (sm_sessionId s),
      in_correlationId = truthy (sm_correlationId s), in_params = None\<rparr>"

definition revocation_decision ::
  "(string \<Rightarrow> int option) \<Rightarrow> hub_node option \<Rightarrow> string \<Rightarrow> int \<Rightarrow> session_summary \<Rightarrow> hub_policy_decision" where
  "revocation_decision dp node nodeId now s =
     (evaluateHubPolicy dp (revalidation_input node nodeId now s))
       \<lparr>hd_decision := HubRevoke, hd_reasonCode := POLICY_SESSION_REVOKED,
        hd_message := ''session permission revoked after policy change''\<rparr>"

text \<open>The sink is the list of the entries written so far, and \<open>throws\<close> says for which entry its append
  raises, as in the model of \<open>appendPolicyAudit\<close>.\<close>

definition revokePolicyAffectedSessions ::
  "(string \<Rightarrow> int option) \<Rightarrow> (int \<Rightarrow> string) \<Rightarrow> registry \<Rightarrow> string \<Rightarrow> hub_node option \<Rightarrow> string option \<Rightarrow> int \<Rightarrow>
   policy_audit_entry list option \<Rightarrow> (policy_audit_entry \<Rightarrow> bool) \<Rightarrow>
   registry \<times> session_summary list \<times> policy_audit_entry list option" where
  "revokePolicyAffectedSessions dp toIso envelopes nodeId node reason now sink throws =
     (let (envelopes', summaries) = reg_revokeForNode dp toIso envelopes nodeId
            (Some (case reason of Some r \<Rightarrow> r | None \<Rightarrow> ''policy-revoked'')) now;
          sink' = foldl (\<lambda>sk s. snd (appendPolicyAudit sk throws (revocation_decision dp node nodeId now s) None None))
            sink summaries
      in (envelopes', summaries, sink'))"

section \<open>What the audit sees\<close>

lemma append_audit_sink:
  "snd (appendPolicyAudit sink throws d ms mp) =
     map_option (\<lambda>es. if throws (auditEntryForPolicyDecision d ms mp) then es
       else es @ [auditEntryForPolicyDecision d ms mp]) sink"
  by (auto simp: appendPolicyAudit_def Let_def split: option.splits prod.splits audit_failure_mode.splits)

lemma append_audit_fold:
  "foldl (\<lambda>sk s. snd (appendPolicyAudit sk throws (f s) None None)) (Some entries) summaries =
     Some (entries @ filter (\<lambda>e. \<not> throws e) (map (\<lambda>s. auditEntryForPolicyDecision (f s) None None) summaries))"
  by (induction summaries arbitrary: entries) (simp_all add: append_audit_sink)

lemma revocation_entry:
  "pa_eventType (auditEntryForPolicyDecision (revocation_decision dp node nodeId now s) ms mp) = AuditRevocation"
  "pa_decision (auditEntryForPolicyDecision (revocation_decision dp node nodeId now s) ms mp) = AudRevoked"
  "pa_reasonCode (auditEntryForPolicyDecision (revocation_decision dp node nodeId now s) ms mp) = POLICY_SESSION_REVOKED"
  by (simp_all add: auditEntryForPolicyDecision_def revocation_decision_def auditEventType_def auditDecision_def)

lemma revoked_session_grants_nothing:
  assumes "is_truthy (in_revokedAt inp)"
  shows "hd_grantedBits (evaluateHubPolicy dp inp) = []"
  using assms
  by (auto simp: evaluateHubPolicy_def baseDecision_def deny_def revoke_def withPolicy_def Let_def
      split: prod.splits option.splits)

lemma base_frame:
  "hd_sessionId (baseDecision inp known unknown) = truthy (in_sessionId inp)"
  "hd_nodeId (baseDecision inp known unknown) = in_nodeId inp"
  by (simp_all add: baseDecision_def)

lemma withPolicy_frame:
  "hd_sessionId (withPolicy d node) = hd_sessionId d"
  "hd_nodeId (withPolicy d node) = hd_nodeId d"
  by (simp_all add: withPolicy_def Let_def split: option.split)

lemma deny_frame:
  "hd_sessionId (deny d reason message) = hd_sessionId d"
  "hd_nodeId (deny d reason message) = hd_nodeId d"
  by (simp_all add: deny_def)

lemma revoke_frame:
  "hd_sessionId (revoke d node reason message) = hd_sessionId d"
  "hd_nodeId (revoke d node reason message) = hd_nodeId d"
  by (simp_all add: revoke_def withPolicy_frame)

lemma decideBits_frame:
  "hd_sessionId (decideBits inp d policy known) = hd_sessionId d"
  "hd_nodeId (decideBits inp d policy known) = hd_nodeId d"
  by (simp_all add: decideBits_def Let_def deny_def)

lemmas frame_simps = base_frame withPolicy_frame deny_frame revoke_frame decideBits_frame

lemma decision_frame:
  "hd_sessionId (evaluateHubPolicy dp inp) = truthy (in_sessionId inp)"
  "hd_nodeId (evaluateHubPolicy dp inp) = in_nodeId inp"
  by (simp_all add: evaluateHubPolicy_def Let_def frame_simps split: prod.split option.split)

section \<open>A policy revocation is complete and audited\<close>

text \<open>C5: After the sessions of a node have been revoked for a policy change, no session of that node
  validates any more, whatever the audit sink does; and a sink that does not raise has received, after
  what it held, exactly one entry for each session that was active on the node, in the registry's order:
  a revocation that names the session and the node and grants no capability.\<close>

theorem policy_revocation_is_audited:
  assumes "reachable (reg_step dp toIso) (\<lambda>_ _. True) [] records" and "\<forall>t. toIso t \<noteq> []"
    and "revokePolicyAffectedSessions dp toIso records nodeId node reason now (Some entries) throws =
      (records', summaries, sink')"
  shows "(\<forall>ctx r summary. vc_now ctx \<ge> now \<and> reg_validate dp records' ctx = ValidationOk r summary \<longrightarrow>
      se_nodeId (rec_envelope r) \<noteq> nodeId) \<and>
    ((\<forall>e. \<not> throws e) \<longrightarrow> (\<exists>new. sink' = Some (entries @ new) \<and>
      map pa_sessionId new = map (\<lambda>r. truthy (Some (se_sessionId (rec_envelope r))))
        (filter (\<lambda>r. se_nodeId (rec_envelope r) = nodeId \<and> lifecycleState dp r now = LsActive) (jm_values records)) \<and>
      (\<forall>e \<in> set new. pa_eventType e = AuditRevocation \<and> pa_decision e = AudRevoked \<and> pa_nodeId e = nodeId \<and>
         pa_grantedBits e = [])))"
proof -
  define why where "why = Some (case reason of Some r \<Rightarrow> r | None \<Rightarrow> ''policy-revoked'')"
  let ?entry = "\<lambda>s. auditEntryForPolicyDecision (revocation_decision dp node nodeId now s) None None"
  have r: "reg_revokeForNode dp toIso records nodeId why now = (records', summaries)"
    and sink: "sink' = Some (entries @ filter (\<lambda>e. \<not> throws e) (map ?entry summaries))"
    using assms(3) by (auto simp: revokePolicyAffectedSessions_def why_def append_audit_fold split: prod.splits)
  note spec = revokeForNode_spec(3) [OF registry_reachable_inv [OF assms(1)], of dp toIso nodeId why now, unfolded r snd_conv]
  have "pa_eventType (?entry s) = AuditRevocation \<and> pa_decision (?entry s) = AudRevoked \<and>
      pa_nodeId (?entry s) = nodeId \<and> pa_grantedBits (?entry s) = []" if s: "s \<in> set summaries" for s
  proof -
    from s obtain q where q: "q \<in> set (jm_values records)" "lifecycleState dp q now = LsActive"
      "s = lifecycleSummary dp (revokeRecord toIso q why now) now" by (auto simp: spec)
    then have "is_truthy (sm_revokedAt s)"
      using revoke_active_is_revoked [OF assms(1,2) q(1,2)] by (simp add: lifecycleSummary_def Let_def)
    then have "hd_grantedBits (revocation_decision dp node nodeId now s) = []"
      by (simp add: revocation_decision_def revoked_session_grants_nothing revalidation_input_def)
    then show ?thesis
      by (simp add: revocation_entry) (simp add: auditEntryForPolicyDecision_def revocation_decision_def decision_frame
          revalidation_input_def)
  qed
  moreover have "map (\<lambda>s. pa_sessionId (?entry s)) summaries = map (\<lambda>r. truthy (Some (se_sessionId (rec_envelope r))))
      (filter (\<lambda>r. se_nodeId (rec_envelope r) = nodeId \<and> lifecycleState dp r now = LsActive) (jm_values records))"
    by (auto simp: spec auditEntryForPolicyDecision_def revocation_decision_def decision_frame revalidation_input_def
        lifecycleSummary_def Let_def revokeRecord_def truthy_def)
  ultimately have "(\<forall>e. \<not> throws e) \<longrightarrow> (\<exists>new. sink' = Some (entries @ new) \<and>
      map pa_sessionId new = map (\<lambda>r. truthy (Some (se_sessionId (rec_envelope r))))
        (filter (\<lambda>r. se_nodeId (rec_envelope r) = nodeId \<and> lifecycleState dp r now = LsActive) (jm_values records)) \<and>
      (\<forall>e \<in> set new. pa_eventType e = AuditRevocation \<and> pa_decision e = AudRevoked \<and> pa_nodeId e = nodeId \<and>
         pa_grantedBits e = []))"
    by (intro impI exI [of _ "map ?entry summaries"]) (auto simp: sink o_def)
  with revoked_node_not_valid [OF assms(1,2) r] show ?thesis by blast
qed

theorem policy_revocation_is_audited_witness:
  "let records = reg_step (\<lambda>_. None) (\<lambda>_. ''now'') [] (RegUpsert (sample_envelope ''n'' ''s'' None))
   in \<exists>entry. snd (snd (revokePolicyAffectedSessions (\<lambda>_. None) (\<lambda>_. ''now'') records ''n'' None None 5 (Some []) (\<lambda>_. False))) =
        Some [entry] \<and> pa_sessionId entry = Some ''s'' \<and> pa_eventType entry = AuditRevocation"
proof -
  let ?records = "reg_step (\<lambda>_. None) (\<lambda>_. ''now'') [] (RegUpsert (sample_envelope ''n'' ''s'' None))"
  obtain records' summaries sink' where r: "revokePolicyAffectedSessions (\<lambda>_. None) (\<lambda>_. ''now'') ?records ''n'' None None 5
      (Some []) (\<lambda>_. False) = (records', summaries, sink')" by (metis surj_pair)
  have reach: "reachable (reg_step (\<lambda>_. None) (\<lambda>_. ''now'')) (\<lambda>_ _. True) [] ?records"
    by (intro reach_step reach_init) simp_all
  have active: "filter (\<lambda>r. se_nodeId (rec_envelope r) = ''n'' \<and> lifecycleState (\<lambda>_. None) r 5 = LsActive) (jm_values ?records) =
      [\<lparr>rec_envelope = sample_envelope ''n'' ''s'' None, rec_revokedAt = None, rec_revokeReason = None\<rparr>]"
    by (simp add: reg_upsert_def sample_envelope_def sessionEnvelopeKey_def Let_def jm_get_def jm_values_def
        lifecycleState_def parseExpiryMs_def is_truthy_def truthy_def)
  obtain new where new: "sink' = Some ([] @ new)" "map pa_sessionId new = [Some ''s'']"
      "\<forall>e \<in> set new. pa_eventType e = AuditRevocation"
    using policy_revocation_is_audited [OF reach _ r, unfolded active]
    by (auto simp: sample_envelope_def truthy_def)
  then obtain entry where "new = [entry]" "pa_sessionId entry = Some ''s''" by auto
  with new show ?thesis unfolding Let_def r snd_conv by auto
qed

end
