(* ===== verification/Stable_Json.thy ===== *)
theory Stable_Json
  imports Relay_Prelude
begin

text \<open>
  The canonical serialisation of values (\<open>shared/stable-json.ts\<close>), which every hash of parameters, scopes
  and approval contracts is taken of: the members of objects sorted by key, then \<open>JSON.stringify\<close>. The
  rendering of finite numbers is the argument \<open>numstr\<close>. The result is shown to depend on a value only up
  to the order of members, undefined members and the values JSON prints as \<open>null\<close>, and to determine it up
  to these: nothing else can change under an equal serialisation.
\<close>

section \<open>JSON.stringify\<close>

text \<open>The quotation mark, the backslash and the control characters are escaped.\<close>

definition json_hex :: "nat \<Rightarrow> char" where
  "json_hex n = (if n < 10 then char_of (48 + n) else char_of (87 + n))"

definition json_escape :: "char \<Rightarrow> string" where
  "json_escape c = (let n = (of_char c :: nat) in
     if n = 34 then [CHR 0x5C, CHR 0x22] else if n = 92 then [CHR 0x5C, CHR 0x5C]
     else if n = 8 then [CHR 0x5C, CHR ''b''] else if n = 12 then [CHR 0x5C, CHR ''f'']
     else if n = 10 then [CHR 0x5C, CHR ''n''] else if n = 13 then [CHR 0x5C, CHR ''r'']
     else if n = 9 then [CHR 0x5C, CHR ''t'']
     else if n < 32 then [CHR 0x5C, CHR ''u'', CHR ''0'', CHR ''0'', json_hex (n div 16), json_hex (n mod 16)]
     else [c])"

definition json_quote :: "string \<Rightarrow> string" where
  "json_quote s = CHR 0x22 # concat (map json_escape s) @ [CHR 0x22]"

fun commas :: "string list \<Rightarrow> string" where
  "commas [] = []"
| "commas [s] = s"
| "commas (s # t # ss) = s @ '','' @ commas (t # ss)"

text \<open>An undefined member of an object is left out; elsewhere undefined is printed as \<open>null\<close>, as are the
  numbers that are not finite.\<close>

fun json_stringify :: "(js_number \<Rightarrow> string) \<Rightarrow> json \<Rightarrow> string" where
  "json_stringify numstr JUndef = ''null''"
| "json_stringify numstr JNull = ''null''"
| "json_stringify numstr (JBool b) = (if b then ''true'' else ''false'')"
| "json_stringify numstr (JNum n) = (case n of NaNNum \<Rightarrow> ''null'' | InfNum _ \<Rightarrow> ''null'' | _ \<Rightarrow> numstr n)"
| "json_stringify numstr (JStr s) = json_quote s"
| "json_stringify numstr (JArr xs) = ''['' @ commas (map (json_stringify numstr) xs) @ '']''"
| "json_stringify numstr (JObj kvs) =
     ''{'' @ commas (map (\<lambda>kv. json_quote (fst kv) @ '':'' @ json_stringify numstr (snd kv))
       (filter (\<lambda>kv. snd kv \<noteq> JUndef) kvs)) @ ''}''"

section \<open>Sorting the members\<close>

text \<open>A plain object lists its array-index keys first, in numerical order, and the others in the order
  they were added.\<close>

definition dec_value :: "string \<Rightarrow> nat" where
  "dec_value s = foldl (\<lambda>n c. 10 * n + (of_char c - 48)) 0 s"

definition is_index_key :: "string \<Rightarrow> bool" where
  "is_index_key k \<longleftrightarrow> k \<noteq> [] \<and> list_all is_digit k \<and> (hd k \<noteq> CHR ''0'' \<or> length k = 1) \<and> dec_value k < 4294967295"

definition js_object :: "(string \<times> 'a) list \<Rightarrow> (string \<times> 'a) list" where
  "js_object kvs = sort_key (\<lambda>kv. dec_value (fst kv)) (filter (\<lambda>kv. is_index_key (fst kv)) kvs) @
     filter (\<lambda>kv. \<not> is_index_key (fst kv)) kvs"

text \<open>\<open>compareJsonKeys\<close> is the order of strings by code units.\<close>

fun sortForJson :: "json \<Rightarrow> json" where
  "sortForJson (JArr xs) = JArr (map sortForJson xs)"
| "sortForJson (JObj kvs) =
     JObj (js_object (filter (\<lambda>kv. snd kv \<noteq> JUndef)
       (sort_key fst (map (\<lambda>kv. (fst kv, sortForJson (snd kv))) kvs))))"
| "sortForJson v = v"

definition stableStringify :: "(js_number \<Rightarrow> string) \<Rightarrow> json \<Rightarrow> string" where
  "stableStringify numstr v = json_stringify numstr (sortForJson v)"

definition stableJsonEquals :: "(js_number \<Rightarrow> string) \<Rightarrow> json \<Rightarrow> json \<Rightarrow> bool" where
  "stableJsonEquals numstr l r \<longleftrightarrow> stableStringify numstr l = stableStringify numstr r"

section \<open>A printed value can be read back\<close>

text \<open>A printer is uniquely readable when what it prints ends where the text goes on with something that
  is not part of it.\<close>

definition delimited :: "string \<Rightarrow> bool" where
  "delimited r \<longleftrightarrow> (case r of [] \<Rightarrow> True | c # _ \<Rightarrow> c \<in> {CHR '','', CHR '']'', CHR ''}''})"

definition readable :: "('a \<Rightarrow> string) \<Rightarrow> 'a \<Rightarrow> 'a \<Rightarrow> bool" where
  "readable pr x y \<longleftrightarrow> (\<forall>r r'. delimited r \<and> delimited r' \<and> pr x @ r = pr y @ r' \<longrightarrow> x = y \<and> r = r')"

lemma readableD:
  "readable pr x y \<Longrightarrow> pr x @ r = pr y @ r' \<Longrightarrow> delimited r \<Longrightarrow> delimited r' \<Longrightarrow> x = y \<and> r = r'"
  by (auto simp: readable_def)

lemma delimited_simps [simp]:
  "delimited []" "delimited (CHR '','' # r)" "delimited (CHR '']'' # r)" "delimited (CHR ''}'' # r)"
  by (simp_all add: delimited_def)

lemma json_hex_code: "n < 16 \<Longrightarrow> (of_char (json_hex n) :: nat) = (if n < 10 then 48 + n else 87 + n)"
  by (simp add: json_hex_def)

lemma json_hex_inj: "m < 16 \<Longrightarrow> n < 16 \<Longrightarrow> json_hex m = json_hex n \<Longrightarrow> m = n"
proof -
  assume a: "m < 16" "n < 16" "json_hex m = json_hex n"
  then have "(if m < 10 then 48 + m else 87 + m) = (if n < 10 then 48 + n else 87 + n)"
    using json_hex_code by metis
  then show "m = n" by (simp split: if_splits)
qed

lemma json_escape_cases:
  "json_escape c = [c] \<and> c \<noteq> CHR 0x22 \<and> c \<noteq> CHR 0x5C \<or> (\<exists>d. json_escape c = [CHR 0x5C, d] \<and> d \<noteq> CHR ''u'') \<or>
   (of_char c :: nat) < 32 \<and> json_escape c = [CHR 0x5C, CHR ''u'', CHR ''0'', CHR ''0'',
     json_hex (of_char c div 16), json_hex (of_char c mod 16)]"
proof -
  have "c \<noteq> CHR 0x22" if "(of_char c :: nat) \<noteq> 34" using that by auto
  moreover have "c \<noteq> CHR 0x5C" if "(of_char c :: nat) \<noteq> 92" using that by auto
  ultimately show ?thesis by (simp add: json_escape_def Let_def)
qed

lemma json_escape_inj: "json_escape c = json_escape d \<Longrightarrow> c = d"
proof -
  assume e: "json_escape c = json_escape d"
  have "(of_char c :: nat) = of_char d"
  proof (cases "(of_char c :: nat) < 32 \<and> (of_char d :: nat) < 32 \<and> length (json_escape c) = 6")
    case True
    with e json_escape_cases [of c] json_escape_cases [of d]
    have "json_hex (of_char c div 16) = json_hex (of_char d div 16)" "json_hex (of_char c mod 16) = json_hex (of_char d mod 16)"
      by auto
    then have "(of_char c :: nat) div 16 = of_char d div 16" "(of_char c :: nat) mod 16 = of_char d mod 16"
      using True by (auto intro!: json_hex_inj)
    then show ?thesis by (metis div_mult_mod_eq)
  next
    case False
    with e show ?thesis by (auto simp: json_escape_def Let_def simp del: of_char_eq_iff split: if_splits)
  qed
  then show "c = d" by simp
qed

lemma json_escape_prefix:
  "json_escape c @ x = json_escape d @ y \<Longrightarrow> c = d \<and> x = y"
proof -
  assume e: "json_escape c @ x = json_escape d @ y"
  have "length (json_escape c) = length (json_escape d)"
    using e json_escape_cases [of c] json_escape_cases [of d] by auto
  with e have "json_escape c = json_escape d" "x = y" by simp_all
  with json_escape_inj show ?thesis by blast
qed

lemma json_escape_no_quote: "json_escape c @ x \<noteq> CHR 0x22 # y"
  using json_escape_cases [of c] by auto

lemma json_quote_prefix: "json_quote s @ r = json_quote t @ r' \<Longrightarrow> s = t \<and> r = r'"
proof -
  have "concat (map json_escape s) @ CHR 0x22 # r = concat (map json_escape t) @ CHR 0x22 # r' \<Longrightarrow> s = t \<and> r = r'"
  proof (induction s arbitrary: t)
    case Nil
    then show ?case using json_escape_no_quote [of _ _ r] by (cases t) (auto dest: sym)
  next
    case (Cons c s)
    then obtain d t' where t: "t = d # t'" using json_escape_no_quote [of c] by (cases t) auto
    with Cons.prems have "c = d" "concat (map json_escape s) @ CHR 0x22 # r = concat (map json_escape t') @ CHR 0x22 # r'"
      using json_escape_prefix [of c "concat (map json_escape s) @ CHR 0x22 # r" d] by auto
    with Cons.IH t show ?case by blast
  qed
  then show "json_quote s @ r = json_quote t @ r' \<Longrightarrow> s = t \<and> r = r'" by (simp add: json_quote_def)
qed

lemma commas_Cons: "commas (s # ss) = s @ (if ss = [] then [] else '','' @ commas ss)"
  by (cases ss) simp_all

lemma commas_readable:
  assumes "\<forall>x \<in> set xs. \<forall>y \<in> set ys. readable pr x y" and c: "c \<in> {CHR '']'', CHR ''}''}"
    and "\<forall>z \<in> set xs \<union> set ys. \<forall>u w. pr z @ u \<noteq> c # w"
    and "commas (map pr xs) @ c # r = commas (map pr ys) @ c # r'"
  shows "xs = ys \<and> r = r'"
  using assms(1,3,4)
proof (induction xs arbitrary: ys)
  case Nil
  then show ?case by (cases ys) (auto simp: commas_Cons dest: sym)
next
  case (Cons x xs)
  then obtain y ys' where ys: "ys = y # ys'" by (cases ys) (auto simp: commas_Cons)
  let ?rest = "\<lambda>zs s. (if zs = [] then [] else '','' @ commas (map pr zs)) @ c # s"
  have "pr x @ ?rest xs r = pr y @ ?rest ys' r'" using Cons.prems(3) by (simp add: ys commas_Cons)
  moreover have "delimited (?rest zs s)" for zs s using c by auto
  moreover have "readable pr x y" using Cons.prems(1) ys by simp
  ultimately have xy: "x = y" and rest: "?rest xs r = ?rest ys' r'" using readableD by metis+
  from rest c have nil: "xs = [] \<longleftrightarrow> ys' = []" by (auto split: if_splits)
  show ?case
  proof (cases "xs = []")
    case True
    with nil rest xy ys show ?thesis by simp
  next
    case False
    with nil rest have "commas (map pr xs) @ c # r = commas (map pr ys') @ c # r'" by simp
    then have "xs = ys' \<and> r = r'" using Cons.IH [of ys'] Cons.prems(1,2) ys by auto
    with xy ys show ?thesis by simp
  qed
qed

text \<open>What is assumed of the rendering of numbers: distinct finite numbers are rendered differently, with
  the characters of JSON numbers.\<close>

definition finite_num :: "js_number \<Rightarrow> bool" where
  "finite_num n = (case n of IntNum _ \<Rightarrow> True | FracNum _ \<Rightarrow> True | _ \<Rightarrow> False)"

definition number_char :: "char \<Rightarrow> bool" where
  "number_char c \<longleftrightarrow> is_digit c \<or> c \<in> set ''+-.e''"

definition num_printer :: "(js_number \<Rightarrow> string) \<Rightarrow> bool" where
  "num_printer numstr \<longleftrightarrow>
     (\<forall>n. finite_num n \<longrightarrow> numstr n \<noteq> [] \<and> list_all number_char (numstr n) \<and>
       (\<forall>m. finite_num m \<and> numstr m = numstr n \<longrightarrow> m = n))"

text \<open>Values without anything that is printed as \<open>null\<close> or left out.\<close>

fun clean_json :: "json \<Rightarrow> bool" where
  "clean_json JUndef = False"
| "clean_json (JNum n) = finite_num n"
| "clean_json (JArr xs) = list_all clean_json xs"
| "clean_json (JObj kvs) = list_all (\<lambda>kv. clean_json (snd kv)) kvs"
| "clean_json v = True"

fun json_kind :: "json \<Rightarrow> nat" where
  "json_kind (JBool _) = 1" | "json_kind (JNum _) = 2" | "json_kind (JStr _) = 3" | "json_kind (JArr _) = 4"
| "json_kind (JObj _) = 5" | "json_kind v = 0"

definition start_kind :: "char \<Rightarrow> nat" where
  "start_kind c = (if c \<in> {CHR ''t'', CHR ''f''} then 1 else if number_char c then 2 else if c = CHR 0x22 then 3
     else if c = CHR ''['' then 4 else if c = CHR ''{'' then 5 else 0)"

lemma stringify_start:
  assumes "num_printer numstr" and "clean_json v"
  shows "json_stringify numstr v \<noteq> [] \<and> start_kind (hd (json_stringify numstr v)) = json_kind v"
proof (cases v)
  case (JNum n)
  with assms have "numstr n \<noteq> []" "list_all number_char (numstr n)" "json_stringify numstr v = numstr n"
    by (auto simp: num_printer_def finite_num_def split: js_number.splits)
  moreover from this have "number_char (hd (numstr n))" by (cases "numstr n") auto
  ultimately show ?thesis using JNum by (auto simp: start_kind_def number_char_def is_digit_def)
qed (use assms in \<open>auto simp: start_kind_def number_char_def is_digit_def json_quote_def\<close>)

lemma stringify_not_close:
  assumes "num_printer numstr" and "clean_json v" and "c \<in> {CHR '']'', CHR ''}''}"
  shows "json_stringify numstr v @ u \<noteq> c # w"
proof
  assume "json_stringify numstr v @ u = c # w"
  with stringify_start [OF assms(1,2)] have "start_kind c = json_kind v" "hd (json_stringify numstr v) = c"
    by (cases "json_stringify numstr v"; simp)+
  moreover have "json_stringify numstr v = ''null''" if "json_kind v = 0" using that assms(2) by (cases v) auto
  ultimately show False using assms(3) by (auto simp: start_kind_def number_char_def is_digit_def)
qed

lemma stringify_num: "finite_num n \<Longrightarrow> json_stringify numstr (JNum n) = numstr n"
  by (simp add: finite_num_def split: js_number.splits)

lemma kind_eq:
  assumes "num_printer numstr" and "clean_json v" and "clean_json w"
  shows "json_stringify numstr v @ r = json_stringify numstr w @ r' \<Longrightarrow> json_kind v = json_kind w"
  using stringify_start [OF assms(1,2)] stringify_start [OF assms(1,3)]
  by (cases "json_stringify numstr v"; cases "json_stringify numstr w") auto

lemma number_readable:
  assumes "num_printer numstr" and "finite_num m" and "finite_num n" and "numstr m @ r = numstr n @ r'"
    and "delimited r" and "delimited r'"
  shows "m = n \<and> r = r'"
proof -
  have stop: "takeWhile number_char (numstr k @ s) = numstr k" if "finite_num k" "delimited s" for k s
  proof -
    have "list_all number_char (numstr k)" using assms(1) that(1) by (simp add: num_printer_def)
    moreover have "takeWhile number_char s = []" using that(2) by (cases s) (auto simp: delimited_def number_char_def is_digit_def)
    ultimately show ?thesis by (simp add: list_all_iff takeWhile_append)
  qed
  have "numstr m = numstr n" using stop assms(2-6) by metis
  with assms(1-4) show ?thesis by (auto simp: num_printer_def)
qed

lemma stringify_object_clean:
  "list_all (\<lambda>kv. clean_json (snd kv)) kvs \<Longrightarrow> json_stringify numstr (JObj kvs) =
     ''{'' @ commas (map (\<lambda>kv. json_quote (fst kv) @ '':'' @ json_stringify numstr (snd kv)) kvs) @ ''}''"
proof -
  assume "list_all (\<lambda>kv. clean_json (snd kv)) kvs"
  then have "filter (\<lambda>kv. snd kv \<noteq> JUndef) kvs = kvs" by (auto simp: list_all_iff filter_id_conv)
  then show ?thesis by simp
qed

lemma json_readable:
  assumes num: "num_printer numstr"
  shows "clean_json v \<Longrightarrow> clean_json w \<Longrightarrow> readable (json_stringify numstr) v w"
proof (induction v arbitrary: w)
  case (JArr xs)
  show ?case unfolding readable_def
  proof (intro allI impI)
    fix r r' assume a: "delimited r \<and> delimited r' \<and> json_stringify numstr (JArr xs) @ r = json_stringify numstr w @ r'"
    then obtain ys where w: "w = JArr ys" using kind_eq [OF num JArr.prems] by (cases w) auto
    have "xs = ys \<and> r = r'"
    proof (rule commas_readable [where pr = "json_stringify numstr" and c = "CHR '']''"])
      show "\<forall>x\<in>set xs. \<forall>y\<in>set ys. readable (json_stringify numstr) x y"
        using JArr w by (auto simp: list_all_iff)
      show "\<forall>z\<in>set xs \<union> set ys. \<forall>u w. json_stringify numstr z @ u \<noteq> CHR '']'' # w"
        using JArr.prems w stringify_not_close [OF num] by (auto simp: list_all_iff)
    qed (use a w in auto)
    with w show "JArr xs = w \<and> r = r'" by simp
  qed
next
  case (JObj kvs)
  let ?pr = "\<lambda>kv. json_quote (fst kv) @ '':'' @ json_stringify numstr (snd kv)"
  show ?case unfolding readable_def
  proof (intro allI impI)
    fix r r' assume a: "delimited r \<and> delimited r' \<and> json_stringify numstr (JObj kvs) @ r = json_stringify numstr w @ r'"
    then obtain lvs where w: "w = JObj lvs" using kind_eq [OF num JObj.prems] by (cases w) auto
    have member: "readable ?pr x y" if "x \<in> set kvs" "y \<in> set lvs" for x y
    proof -
      have "readable (json_stringify numstr) (snd x) (snd y)"
        using JObj that w by (auto simp: list_all_iff) (metis prod.collapse prod_set_simps(2) singletonI snd_conv)
      then show ?thesis
        unfolding readable_def by (auto dest!: json_quote_prefix simp: prod_eq_iff)
    qed
    have "kvs = lvs \<and> r = r'"
    proof (rule commas_readable [where pr = ?pr and c = "CHR ''}''"])
      show "\<forall>x\<in>set kvs. \<forall>y\<in>set lvs. readable ?pr x y" using member by blast
      show "\<forall>z\<in>set kvs \<union> set lvs. \<forall>u w. ?pr z @ u \<noteq> CHR ''}'' # w" by (simp add: json_quote_def)
    qed (use a w JObj.prems stringify_object_clean [of kvs numstr] stringify_object_clean [of lvs numstr] in auto)
    with w show "JObj kvs = w \<and> r = r'" by simp
  qed
next
  case (JStr s)
  then show ?case unfolding readable_def using kind_eq [OF num JStr.prems]
    by (cases w) (auto dest: json_quote_prefix)
next
  case (JNum n)
  show ?case unfolding readable_def
  proof (intro allI impI)
    fix r r' assume a: "delimited r \<and> delimited r' \<and> json_stringify numstr (JNum n) @ r = json_stringify numstr w @ r'"
    then obtain m where w: "w = JNum m" using kind_eq [OF num JNum.prems] by (cases w) auto
    with JNum.prems have "finite_num n" "finite_num m" by simp_all
    with a w show "JNum n = w \<and> r = r'"
      using number_readable [OF num, of n m r r'] by (simp add: stringify_num del: json_stringify.simps)
  qed
next
  case (JBool b)
  then show ?case unfolding readable_def using kind_eq [OF num JBool.prems]
    by (cases w) (auto split: if_splits)
next
  case JNull
  then show ?case unfolding readable_def using kind_eq [OF num JNull.prems]
    by (cases w) auto
qed simp

section \<open>What a stable serialisation determines\<close>

fun denull :: "json \<Rightarrow> json" where
  "denull JUndef = JNull"
| "denull (JNum n) = (if finite_num n then JNum n else JNull)"
| "denull (JArr xs) = JArr (map denull xs)"
| "denull (JObj kvs) = JObj (map (\<lambda>kv. (fst kv, denull (snd kv))) (filter (\<lambda>kv. snd kv \<noteq> JUndef) kvs))"
| "denull v = v"

lemma denull_clean: "clean_json (denull v)"
proof (induction v)
  case (JObj kvs)
  then show ?case by (fastforce simp: list_all_iff)
qed (auto simp: list_all_iff)

lemma denull_not_undef [simp]: "denull v \<noteq> JUndef"
  by (cases v) auto

lemma denull_stringify: "json_stringify numstr (denull v) = json_stringify numstr v"
proof (induction v)
  case (JNum n)
  then show ?case by (cases n) (simp_all add: finite_num_def)
next
  case (JArr xs)
  then show ?case by (simp cong: map_cong)
next
  case (JObj kvs)
  have "json_stringify numstr (denull (snd kv)) = json_stringify numstr (snd kv)" if "kv \<in> set kvs" for kv
    using JObj [OF that, of "snd kv"] by (cases kv) simp
  then have "map (\<lambda>kv. json_quote (fst kv) @ CHR '':'' # json_stringify numstr (denull (snd kv))) (filter (\<lambda>kv. snd kv \<noteq> JUndef) kvs) =
      map (\<lambda>kv. json_quote (fst kv) @ CHR '':'' # json_stringify numstr (snd kv)) (filter (\<lambda>kv. snd kv \<noteq> JUndef) kvs)"
    (is "?l = ?r") by (intro map_cong) auto
  moreover have "json_stringify numstr (denull (JObj kvs)) = ''{'' @ commas ?l @ ''}''" by (simp add: filter_map o_def)
  moreover have "json_stringify numstr (JObj kvs) = ''{'' @ commas ?r @ ''}''" by simp
  ultimately show ?case by metis
qed simp_all

abbreviation canon :: "json \<Rightarrow> json" where
  "canon v \<equiv> denull (sortForJson v)"

lemma stable_eq:
  assumes "num_printer numstr"
  shows "stableStringify numstr v = stableStringify numstr w \<longleftrightarrow> canon v = canon w"
proof
  assume "stableStringify numstr v = stableStringify numstr w"
  then have "json_stringify numstr (canon v) @ [] = json_stringify numstr (canon w) @ []"
    by (simp add: stableStringify_def denull_stringify)
  then show "canon v = canon w"
    using readableD [OF json_readable [OF assms denull_clean denull_clean]] by (metis delimited_simps(1))
next
  assume "canon v = canon w"
  then show "stableStringify numstr v = stableStringify numstr w"
    unfolding stableStringify_def by (metis denull_stringify)
qed

definition defined_members :: "(string \<times> json) list \<Rightarrow> (string \<times> json) list" where
  "defined_members kvs = filter (\<lambda>kv. snd kv \<noteq> JUndef) kvs"

definition arranged :: "(string \<times> 'a) list \<Rightarrow> (string \<times> 'a) list" where
  "arranged kvs = js_object (sort_key fst kvs)"

lemma insort_key_map: "insort_key f (g x) (map g xs) = map g (insort_key (f \<circ> g) x xs)"
  by (induction xs) auto

lemma sort_key_map: "sort_key f (map g xs) = map g (sort_key (f \<circ> g) xs)"
  by (induction xs) (auto simp: insort_key_map [unfolded o_def] o_def)

lemma arranged_map: "arranged (map (\<lambda>kv. (fst kv, h (snd kv))) kvs) = map (\<lambda>kv. (fst kv, h (snd kv))) (arranged kvs)"
  by (simp add: arranged_def js_object_def sort_key_map filter_map o_def)

lemma filter_js_object: "filter P (js_object kvs) = js_object (filter P kvs)"
  by (simp add: js_object_def filter_sort conj_commute)

lemma set_arranged [simp]: "set (arranged kvs) = set kvs"
  by (auto simp: arranged_def js_object_def)

lemma sort_key_eq:
  assumes "distinct (map f xs)" and "mset xs = mset ys"
  shows "sort_key f xs = sort_key f ys"
proof (rule sort_key_inj_key_eq)
  show "mset xs = mset (sort_key f ys)" using assms(2) by simp
  show "inj_on f (set xs)" using assms(1) by (simp add: distinct_map)
qed simp

lemma arranged_eq_iff:
  assumes "distinct (map fst kvs)" and "distinct (map fst lvs)"
  shows "arranged kvs = arranged lvs \<longleftrightarrow> map_of kvs = map_of lvs"
proof
  assume "arranged kvs = arranged lvs"
  then have "set kvs = set lvs" by (metis set_arranged)
  with assms show "map_of kvs = map_of lvs" by (simp add: map_of_inject_set)
next
  assume "map_of kvs = map_of lvs"
  with assms have "set kvs = set lvs" by (simp add: map_of_inject_set)
  with assms have "mset kvs = mset lvs" by (simp add: distinct_map set_eq_iff_mset_eq_distinct)
  with assms(1) show "arranged kvs = arranged lvs" by (simp add: arranged_def sort_key_eq)
qed

lemma sortForJson_undef [simp]: "sortForJson v = JUndef \<longleftrightarrow> v = JUndef"
  by (cases v) auto

lemma canon_object:
  "canon (JObj kvs) = JObj (arranged (map (\<lambda>kv. (fst kv, canon (snd kv))) (defined_members kvs)))"
proof -
  have "canon (JObj kvs) = JObj (map (\<lambda>kv. (fst kv, denull (snd kv))) (js_object (filter (\<lambda>kv. snd kv \<noteq> JUndef)
      (sort_key fst (map (\<lambda>kv. (fst kv, sortForJson (snd kv))) kvs)))))"
    by (simp add: filter_js_object)
  also have "\<dots> = JObj (map (\<lambda>kv. (fst kv, denull (snd kv))) (arranged (map (\<lambda>kv. (fst kv, sortForJson (snd kv))) (defined_members kvs))))"
    by (simp add: arranged_def defined_members_def filter_sort filter_map o_def)
  also have "\<dots> = JObj (arranged (map (\<lambda>kv. (fst kv, canon (snd kv))) (defined_members kvs)))"
    by (simp add: arranged_map [of sortForJson] arranged_map [of canon] o_def)
  finally show ?thesis .
qed

lemma map_of_values: "map_of (map (\<lambda>kv. (fst kv, h (snd kv))) kvs) = (\<lambda>k. map_option h (map_of kvs k))"
  by (induction kvs) auto

lemma canon_objects_eq:
  assumes "distinct (map fst fs)" and "distinct (map fst gs)"
  shows "canon (JObj fs) = canon (JObj gs) \<longleftrightarrow>
    (\<forall>k. map_option canon (map_of (defined_members fs) k) = map_option canon (map_of (defined_members gs) k))"
proof -
  have "distinct (map fst (defined_members fs))" "distinct (map fst (defined_members gs))"
    using assms by (simp_all add: defined_members_def distinct_map_filter)
  then show ?thesis
    unfolding canon_object by (simp add: arranged_eq_iff map_of_values [of canon] o_def fun_eq_iff)
qed

text \<open>Objects with the same serialisation agree member by member.\<close>

lemma canon_member:
  assumes "num_printer numstr" "stableStringify numstr (JObj fs) = stableStringify numstr (JObj gs)"
    and "distinct (map fst fs)" "distinct (map fst gs)"
  shows "map_option canon (map_of (defined_members fs) k) = map_option canon (map_of (defined_members gs) k)"
  using assms canon_objects_eq [OF assms(3,4)] by (simp add: stable_eq)

definition present :: "json \<Rightarrow> json option" where
  "present v = (if v = JUndef then None else Some v)"

definition member :: "(string \<times> json) list \<Rightarrow> string \<Rightarrow> json" where
  "member kvs k = (case map_of kvs k of Some v \<Rightarrow> v | None \<Rightarrow> JUndef)"

lemma member_simps: "member [] k = JUndef" "member ((l, v) # kvs) k = (if l = k then v else member kvs k)"
  by (simp_all add: member_def)

lemma map_of_defined:
  "distinct (map fst kvs) \<Longrightarrow> map_of (filter (\<lambda>kv. snd kv \<noteq> JUndef) kvs) k = present (member kvs k)"
proof (induction kvs)
  case (Cons kv kvs)
  have "map_of kvs (fst kv) = None" using Cons.prems by (simp add: map_of_eq_None_iff)
  with Cons show ?case by (cases kv) (auto simp: member_simps present_def member_def)
qed (simp add: present_def member_def)

lemma canon_kind: "json_kind (canon (JArr xs)) = 4" "json_kind (canon (JObj fs)) = 5" "json_kind (canon (JStr s)) = 3"
  by simp_all


lemma digit_value: "n < 10 \<Longrightarrow> of_char (char_of (48 + n :: nat)) = 48 + n"
  by simp

lemma dec_value_snoc: "dec_value (s @ [c]) = 10 * dec_value s + (of_char c - 48)"
  by (simp add: dec_value_def)

lemma dec_value_nat_to_dec: "dec_value (nat_to_dec n) = n"
proof (induction n rule: nat_to_dec.induct)
  case (1 n)
  show ?case
  proof (cases "n < 10")
    case True
    then show ?thesis by (subst nat_to_dec.simps) (simp add: dec_value_def)
  next
    case False
    with 1 show ?thesis by (subst nat_to_dec.simps) (simp add: dec_value_snoc)
  qed
qed

lemma nat_to_dec_digits: "nat_to_dec n \<noteq> [] \<and> list_all is_digit (nat_to_dec n)"
proof (induction n rule: nat_to_dec.induct)
  case (1 n)
  have "is_digit (char_of (48 + k))" if "k < 10" for k :: nat using that by (simp add: is_digit_def)
  with 1 show ?case by (subst (1 2) nat_to_dec.simps) auto
qed

text \<open>A printer of numbers that meets the assumption: integers in decimal, other finite values marked.\<close>

definition sample_numstr :: "js_number \<Rightarrow> string" where
  "sample_numstr n = (case n of IntNum i \<Rightarrow> int_to_dec i | FracNum f \<Rightarrow> int_to_dec f @ ''.5'' | _ \<Rightarrow> [])"

lemma nat_to_dec_chars: "c \<in> set (nat_to_dec n) \<Longrightarrow> is_digit c"
  using nat_to_dec_digits [of n] by (simp add: list_all_iff)

lemma digit_number_char: "is_digit c \<Longrightarrow> number_char c"
  by (simp add: number_char_def)

lemma nat_to_dec_inj: "nat_to_dec m = nat_to_dec n \<Longrightarrow> m = n"
  by (metis dec_value_nat_to_dec)

lemma int_to_dec_inj: "int_to_dec i = int_to_dec j \<Longrightarrow> i = j"
proof -
  have no_minus: "nat_to_dec n \<noteq> CHR ''-'' # s" for n s
    using nat_to_dec_chars [of "CHR ''-''" n] by (auto simp: is_digit_def)
  assume "int_to_dec i = int_to_dec j"
  then show "i = j"
    using nat_to_dec_inj [of "nat (- i)" "nat (- j)"] nat_to_dec_inj [of "nat i" "nat j"] no_minus
    by (auto simp: int_to_dec_def split: if_splits dest: sym)
qed

lemma int_to_dec_chars: "c \<in> set (int_to_dec i) \<Longrightarrow> is_digit c \<or> c = CHR ''-''"
  by (auto simp: int_to_dec_def dest: nat_to_dec_chars split: if_splits)

lemma sample_num_printer: "num_printer sample_numstr"
proof -
  have dot: "int_to_dec i \<noteq> int_to_dec j @ ''.5''" for i j
    using int_to_dec_chars [of "CHR ''.''" i] by (auto simp: is_digit_def)
  have chars: "list_all number_char (int_to_dec i)" for i
    using int_to_dec_chars digit_number_char by (fastforce simp: list_all_iff number_char_def)
  have ne: "int_to_dec i \<noteq> []" for i using nat_to_dec_digits by (auto simp: int_to_dec_def)
  show ?thesis
    unfolding num_printer_def
  proof (intro allI impI)
    fix n assume n: "finite_num n"
    have "m = n" if "finite_num m" "sample_numstr m = sample_numstr n" for m
      using n that dot int_to_dec_inj
      by (cases m; cases n) (auto simp: finite_num_def sample_numstr_def, metis+)
    with n chars ne show "sample_numstr n \<noteq> [] \<and> list_all number_char (sample_numstr n) \<and>
        (\<forall>m. finite_num m \<and> sample_numstr m = sample_numstr n \<longrightarrow> m = n)"
      by (cases n) (auto simp: finite_num_def sample_numstr_def number_char_def is_digit_def)
  qed
qed


end
