(* ===== verification/High_Risk.thy ===== *)
theory High_Risk
  imports Hub_Policy Stable_Json
begin

text \<open>
  High-risk operations (\<open>server/high-risk-approvals.ts\<close>): the classification of an operation into denied,
  approval required and silently allowed, the tests that requester and approver of an approval are the same
  party, and the approval contract with its hash. SHA-256 is the argument \<open>sha\<close>; the rendering of numbers is
  the argument \<open>numstr\<close> of the stable serialisation.
\<close>

section \<open>Data\<close>

datatype hr_outcome =
    HrChallengeCreated | HrApproved | HrDenied | HrExpired | HrRedeemed | HrReuseDenied | HrMismatchDenied
  | HrApprovalTargetInvalid | HrAuditWriteFailed

datatype hr_decision = HrApprovalRequired | HrSilentAllow | HrDeny

datatype hr_reason =
    CrossNodeControl | CapabilityEscalation | ShellExec | FileBoundaryMutation | CredentialExport | NodeLifecycle
  | DestructiveSessionControl | GenericHighRisk | LowRiskRefOnly | LowRiskRead | UnknownCapability | UnknownOperation

record hr_input =
  hi_opAction :: string
  hi_targetNodeId :: "string option"
  hi_sourceNodeId :: "string option"
  hi_trustTier :: "trust_tier option"
  hi_scopeKind :: "string option"
  hi_boundaryCrossing :: "bool option"
  hi_requiredCapabilities :: "string list"

record hr_classification =
  hc_decision :: hr_decision
  hc_riskReason :: hr_reason
  hc_requiredBits :: "string list"
  hc_unknownBits :: "string list"

datatype hr_actor_kind = AkBrowserSession | AkScopedActor | AkHuman | AkNode | AkSystem

record hr_approver =
  ha_kind :: hr_actor_kind
  ha_actorType :: "string option"
  ha_actorId :: "string option"
  ha_credentialId :: "string option"
  ha_credentialJti :: "string option"
  ha_nodeId :: "string option"
  ha_sessionId :: "string option"
  ha_workContextId :: "string option"
  ha_displayName :: "string option"

text \<open>A requester is an approver's identity with the hash of its auth session.\<close>

record hr_requester =
  hq_identity :: hr_approver
  hq_authSessionHash :: string

datatype hr_target_kind = TkHuman | TkOperator | TkSession | TkExternal

record hr_target =
  ht_kind :: hr_target_kind
  ht_id :: "string option"
  ht_sessionId :: "string option"
  ht_displayName :: "string option"

section \<open>Classification\<close>

definition low_risk_read_actions :: "string list" where
  "low_risk_read_actions = [''sessions.read'', ''sessions.interventions.read'', ''rpc.fs.list'', ''rpc.fs.stat'',
     ''rpc.fs.read'', ''rpc.fs.tail'', ''rpc.git.read'', ''logs.tail'']"

definition low_risk_ref_only_actions :: "string list" where
  "low_risk_ref_only_actions = [''context.read'', ''context.write'', ''inbox.read'', ''inbox.write'']"

definition known_actions :: "string list" where
  "known_actions = low_risk_read_actions @ low_risk_ref_only_actions @
     [''sessions.create'', ''sessions.create.terminal'', ''sessions.attach'', ''sessions.kill'', ''pty.exec.arbitrary'',
      ''preview.port-forward'', ''rpc.fs.write'', ''rpc.fs.delete'', ''rpc.git.write'', ''nodes.acl.widen'',
      ''capabilities.grant'', ''credentials.export'', ''secrets.export'', ''nodes.revoke'', ''nodes.rotate'',
      ''nodes.repair'', ''nodes.re-pair'', ''nodes.destroy'']"

text \<open>\<open>normalizeRequiredBits\<close> splits the required capabilities as the evaluator's
  \<open>normalizeRequiredCapabilities\<close> does.\<close>

definition normalizeRequiredBits :: "string list \<Rightarrow> string list \<times> string list" where
  "normalizeRequiredBits required =
     (case foldl required_step ([], [], {}) required of (known, unknown, seen) \<Rightarrow> (known, unknown))"

definition isCrossNodeControl :: "hr_input \<Rightarrow> bool" where
  "isCrossNodeControl inp \<longleftrightarrow> is_truthy (hi_sourceNodeId inp) \<and> is_truthy (hi_targetNodeId inp) \<and>
     hi_sourceNodeId inp \<noteq> hi_targetNodeId inp \<and>
     (starts_with (hi_opAction inp) ''sessions.'' \<or> starts_with (hi_opAction inp) ''nodes.'')"

definition isCapabilityEscalation :: "hr_input \<Rightarrow> bool" where
  "isCapabilityEscalation inp \<longleftrightarrow> hi_opAction inp = ''nodes.acl.widen'' \<or> hi_opAction inp = ''capabilities.grant'' \<or>
     ''node:acl:widen'' \<in> set (hi_requiredCapabilities inp)"

definition isShellExec :: "hr_input \<Rightarrow> bool" where
  "isShellExec inp \<longleftrightarrow> hi_opAction inp = ''pty.exec.arbitrary'' \<or>
     (hi_trustTier inp = Some TierProd \<and> ''pty:exec:arbitrary'' \<in> set (hi_requiredCapabilities inp))"

definition isFileBoundaryMutation :: "hr_input \<Rightarrow> bool" where
  "isFileBoundaryMutation inp \<longleftrightarrow> hi_opAction inp = ''rpc.fs.write'' \<or> hi_opAction inp = ''rpc.fs.delete'' \<or>
     hi_boundaryCrossing inp = Some True \<or> ''rpc:fs:write'' \<in> set (hi_requiredCapabilities inp) \<or>
     ''rpc:fs:delete'' \<in> set (hi_requiredCapabilities inp)"

definition isCredentialExport :: "hr_input \<Rightarrow> bool" where
  "isCredentialExport inp \<longleftrightarrow> hi_opAction inp = ''credentials.export'' \<or> hi_opAction inp = ''secrets.export'' \<or>
     ''credential:export'' \<in> set (hi_requiredCapabilities inp)"

definition isNodeLifecycle :: "hr_input \<Rightarrow> bool" where
  "isNodeLifecycle inp \<longleftrightarrow>
     hi_opAction inp \<in> set [''nodes.revoke'', ''nodes.rotate'', ''nodes.repair'', ''nodes.re-pair'', ''nodes.destroy''] \<or>
     ''node:lifecycle:destructive'' \<in> set (hi_requiredCapabilities inp)"

definition isDestructiveSessionControl :: "hr_input \<Rightarrow> bool" where
  "isDestructiveSessionControl inp \<longleftrightarrow> hi_opAction inp = ''sessions.kill'' \<or>
     ''session:control:kill'' \<in> set (hi_requiredCapabilities inp)"

definition classified :: "hr_decision \<Rightarrow> hr_reason \<Rightarrow> string list \<times> string list \<Rightarrow> hr_classification" where
  "classified d r bits = \<lparr>hc_decision = d, hc_riskReason = r, hc_requiredBits = fst bits, hc_unknownBits = snd bits\<rparr>"

definition classifyHighRiskOperation :: "hr_input \<Rightarrow> hr_classification" where
  "classifyHighRiskOperation inp =
     (let required = normalizeRequiredBits (hi_requiredCapabilities inp) in
      if length (snd required) > 0 then classified HrDeny UnknownCapability required
      else if hi_opAction inp \<notin> set known_actions then classified HrDeny UnknownOperation required
      else if isCrossNodeControl inp then classified HrApprovalRequired CrossNodeControl required
      else if isCapabilityEscalation inp then classified HrApprovalRequired CapabilityEscalation required
      else if isShellExec inp then classified HrApprovalRequired ShellExec required
      else if isFileBoundaryMutation inp then classified HrApprovalRequired FileBoundaryMutation required
      else if isCredentialExport inp then classified HrApprovalRequired CredentialExport required
      else if isNodeLifecycle inp then classified HrApprovalRequired NodeLifecycle required
      else if isDestructiveSessionControl inp then classified HrApprovalRequired DestructiveSessionControl required
      else if list_ex (\<lambda>b. b \<in> set high_risk_capabilities) (fst required) then
        classified HrApprovalRequired GenericHighRisk required
      else if hi_opAction inp \<in> set low_risk_ref_only_actions then classified HrSilentAllow LowRiskRefOnly required
      else classified HrSilentAllow LowRiskRead required)"

section \<open>The same party\<close>

definition hashIdentity :: "(string \<Rightarrow> string) \<Rightarrow> string \<Rightarrow> string" where
  "hashIdentity sha v = sha (''relay-high-risk-approval:'' @ v)"

definition same_hashed :: "(string \<Rightarrow> string) \<Rightarrow> string option \<Rightarrow> string option \<Rightarrow> bool" where
  "same_hashed sha a b = (case (truthy a, truthy b) of
     (Some x, Some y) \<Rightarrow> hashIdentity sha x = hashIdentity sha y | _ \<Rightarrow> False)"

definition sameHighRiskActor :: "(string \<Rightarrow> string) \<Rightarrow> hr_requester option \<Rightarrow> hr_approver option \<Rightarrow> bool" where
  "sameHighRiskActor sha requester approver = (case (requester, approver) of
     (Some q, Some a) \<Rightarrow> ha_actorType (hq_identity q) = ha_actorType a \<and>
       same_hashed sha (ha_actorId (hq_identity q)) (ha_actorId a)
   | _ \<Rightarrow> False)"

definition sameHighRiskCredential :: "(string \<Rightarrow> string) \<Rightarrow> hr_requester option \<Rightarrow> hr_approver option \<Rightarrow> bool" where
  "sameHighRiskCredential sha requester approver = (case (requester, approver) of
     (Some q, Some a) \<Rightarrow> same_hashed sha (ha_credentialId (hq_identity q)) (ha_credentialId a) | _ \<Rightarrow> False)"

definition sameHighRiskSession :: "(string \<Rightarrow> string) \<Rightarrow> hr_requester option \<Rightarrow> hr_approver option \<Rightarrow> bool" where
  "sameHighRiskSession sha requester approver = (case (requester, approver) of
     (Some q, Some a) \<Rightarrow> same_hashed sha (ha_sessionId (hq_identity q)) (ha_sessionId a) | _ \<Rightarrow> False)"

section \<open>The approval contract\<close>

record hr_safe_identity =
  hs_actorKind :: hr_actor_kind
  hs_actorType :: "string option"
  hs_actorIdHash :: "string option"
  hs_credentialIdHash :: "string option"
  hs_credentialJtiHash :: "string option"
  hs_actorNodeId :: "string option"
  hs_actorSessionId :: "string option"
  hs_workContextId :: "string option"
  hs_displayName :: "string option"

record hr_safe_target =
  st_kind :: hr_target_kind
  st_idHash :: "string option"
  st_sessionId :: "string option"
  st_displayName :: "string option"

definition safeApprover :: "(string \<Rightarrow> string) \<Rightarrow> hr_approver \<Rightarrow> hr_safe_identity" where
  "safeApprover sha a = \<lparr>hs_actorKind = ha_kind a, hs_actorType = truthy (ha_actorType a),
     hs_actorIdHash = map_option (hashIdentity sha) (truthy (ha_actorId a)),
     hs_credentialIdHash = map_option (hashIdentity sha) (truthy (ha_credentialId a)),
     hs_credentialJtiHash = map_option (hashIdentity sha) (truthy (ha_credentialJti a)),
     hs_actorNodeId = truthy (ha_nodeId a), hs_actorSessionId = truthy (ha_sessionId a),
     hs_workContextId = truthy (ha_workContextId a), hs_displayName = truthy (ha_displayName a)\<rparr>"

definition safeRequester :: "(string \<Rightarrow> string) \<Rightarrow> hr_requester \<Rightarrow> hr_safe_identity \<times> string" where
  "safeRequester sha q = (safeApprover sha (hq_identity q), hq_authSessionHash q)"

definition safeTarget :: "(string \<Rightarrow> string) \<Rightarrow> hr_target \<Rightarrow> hr_safe_target" where
  "safeTarget sha t = \<lparr>st_kind = ht_kind t, st_idHash = map_option (hashIdentity sha) (truthy (ht_id t)),
     st_sessionId = truthy (ht_sessionId t), st_displayName = truthy (ht_displayName t)\<rparr>"

record hr_operation =
  ho_action :: string
  ho_nodeId :: string
  ho_target :: "string option"
  ho_sessionId :: "string option"
  ho_workContextId :: "string option"

record hr_policy =
  hp_aclRef :: "string option"
  hp_policyVersion :: "string option"
  hp_trustTier :: "trust_tier option"
  hp_requiredBits :: "string list"
  hp_challengeBits :: "string list"
  hp_scopeHash :: string

record hr_contract =
  hk_challengeId :: string
  hk_outcome :: hr_outcome
  hk_correlationId :: string
  hk_operation :: hr_operation
  hk_risk :: "hr_decision \<times> hr_reason \<times> string list"
  hk_policy :: hr_policy
  hk_requester :: "hr_safe_identity \<times> string"
  hk_approver :: "hr_safe_identity option"
  hk_approvalTarget :: hr_safe_target
  hk_paramsHash :: string
  hk_createdAt :: string
  hk_expiresAt :: string
  hk_redemptionNonceHash :: "string option"
  hk_contractHash :: string

text \<open>The values the serialisation sees. An optional member that is absent is not listed.\<close>

fun tier_name :: "trust_tier \<Rightarrow> string" where
  "tier_name TierSandbox = ''sandbox''" | "tier_name TierDev = ''dev''" | "tier_name TierProd = ''prod''"

fun policy_scope_name :: "policy_scope_kind \<Rightarrow> string" where
  "policy_scope_name ScopeNode = ''node''" | "policy_scope_name ScopeWorkspace = ''workspace''"
| "policy_scope_name ScopeRepo = ''repo''" | "policy_scope_name ScopePath = ''path''"

fun hub_scope_name :: "hub_scope_kind \<Rightarrow> string" where
  "hub_scope_name HsLocalCompatibility = ''local-compatibility''" | "hub_scope_name HsNodeCwd = ''node-cwd''"
| "hub_scope_name HsWorktree = ''worktree''" | "hub_scope_name (HsPolicy k) = policy_scope_name k"

fun outcome_name :: "hr_outcome \<Rightarrow> string" where
  "outcome_name HrChallengeCreated = ''challenge_created''" | "outcome_name HrApproved = ''approved''"
| "outcome_name HrDenied = ''denied''" | "outcome_name HrExpired = ''expired''" | "outcome_name HrRedeemed = ''redeemed''"
| "outcome_name HrReuseDenied = ''reuse_denied''" | "outcome_name HrMismatchDenied = ''mismatch_denied''"
| "outcome_name HrApprovalTargetInvalid = ''approval_target_invalid''"
| "outcome_name HrAuditWriteFailed = ''audit_write_failed''"

fun hr_decision_name :: "hr_decision \<Rightarrow> string" where
  "hr_decision_name HrApprovalRequired = ''approvalRequired''"
| "hr_decision_name HrSilentAllow = ''silentAllowIfPolicyAllows''" | "hr_decision_name HrDeny = ''deny''"

fun hr_reason_name :: "hr_reason \<Rightarrow> string" where
  "hr_reason_name CrossNodeControl = ''cross-node control high-risk''"
| "hr_reason_name CapabilityEscalation = ''capability escalation high-risk''"
| "hr_reason_name ShellExec = ''shell exec high-risk''"
| "hr_reason_name FileBoundaryMutation = ''file boundary mutation high-risk''"
| "hr_reason_name CredentialExport = ''credential export high-risk''"
| "hr_reason_name NodeLifecycle = ''node lifecycle high-risk''"
| "hr_reason_name DestructiveSessionControl = ''destructive session control high-risk''"
| "hr_reason_name GenericHighRisk = ''generic high-risk capability''"
| "hr_reason_name LowRiskRefOnly = ''low_risk_ref_only''" | "hr_reason_name LowRiskRead = ''low_risk_read''"
| "hr_reason_name UnknownCapability = ''unknown_capability''" | "hr_reason_name UnknownOperation = ''unknown_operation''"

fun actor_kind_name :: "hr_actor_kind \<Rightarrow> string" where
  "actor_kind_name AkBrowserSession = ''browser-session''" | "actor_kind_name AkScopedActor = ''scoped-actor''"
| "actor_kind_name AkHuman = ''human''" | "actor_kind_name AkNode = ''node''" | "actor_kind_name AkSystem = ''system''"

fun target_kind_name :: "hr_target_kind \<Rightarrow> string" where
  "target_kind_name TkHuman = ''human''" | "target_kind_name TkOperator = ''operator''"
| "target_kind_name TkSession = ''session''" | "target_kind_name TkExternal = ''external''"

definition opt_member :: "string \<Rightarrow> string option \<Rightarrow> (string \<times> json) list" where
  "opt_member k v = (case v of None \<Rightarrow> [] | Some s \<Rightarrow> [(k, JStr s)])"

definition str_list :: "string list \<Rightarrow> json" where
  "str_list xs = JArr (map JStr xs)"

definition scope_json :: "hub_scope \<Rightarrow> json" where
  "scope_json sc = JObj ([(''kind'', JStr (hub_scope_name (hs_kind sc))), (''nodeId'', JStr (hs_nodeId sc))] @
     opt_member ''cwd'' (hs_cwd sc) @ opt_member ''path'' (hs_path sc) @ opt_member ''workspaceId'' (hs_workspaceId sc) @
     opt_member ''repoId'' (hs_repoId sc) @ opt_member ''repoPath'' (hs_repoPath sc) @
     (case hs_worktreePath sc of None \<Rightarrow> [] | Some None \<Rightarrow> [(''worktreePath'', JNull)]
      | Some (Some p) \<Rightarrow> [(''worktreePath'', JStr p)]))"

definition scope_hash :: "(js_number \<Rightarrow> string) \<Rightarrow> (string \<Rightarrow> string) \<Rightarrow> hub_scope \<Rightarrow> string" where
  "scope_hash numstr sha sc = sha (stableStringify numstr (scope_json sc))"

definition safe_identity_members :: "hr_safe_identity \<Rightarrow> (string \<times> json) list" where
  "safe_identity_members i = [(''kind'', JStr (actor_kind_name (hs_actorKind i)))] @ opt_member ''actorType'' (hs_actorType i) @
     opt_member ''actorIdHash'' (hs_actorIdHash i) @ opt_member ''credentialIdHash'' (hs_credentialIdHash i) @
     opt_member ''credentialJtiHash'' (hs_credentialJtiHash i) @ opt_member ''nodeId'' (hs_actorNodeId i) @
     opt_member ''sessionId'' (hs_actorSessionId i) @ opt_member ''workContextId'' (hs_workContextId i) @
     opt_member ''displayName'' (hs_displayName i)"

definition contract_payload :: "hr_contract \<Rightarrow> json" where
  "contract_payload k = JObj ([(''schemaVersion'', JNum (IntNum 1)),
     (''challengeKind'', JStr ''exact-operation-high-risk-approval''), (''challengeId'', JStr (hk_challengeId k)),
     (''outcome'', JStr (outcome_name (hk_outcome k))), (''correlationId'', JStr (hk_correlationId k)),
     (''operation'', JObj ([(''action'', JStr (ho_action (hk_operation k))), (''nodeId'', JStr (ho_nodeId (hk_operation k)))] @
        opt_member ''target'' (ho_target (hk_operation k)) @ opt_member ''sessionId'' (ho_sessionId (hk_operation k)) @
        opt_member ''workContextId'' (ho_workContextId (hk_operation k)))),
     (''risk'', case hk_risk k of (d, r, unknown) \<Rightarrow> JObj [(''decision'', JStr (hr_decision_name d)),
        (''riskReason'', JStr (hr_reason_name r)), (''unknownBits'', str_list unknown)]),
     (''policy'', JObj (opt_member ''aclRef'' (hp_aclRef (hk_policy k)) @ opt_member ''policyVersion'' (hp_policyVersion (hk_policy k)) @
        opt_member ''trustTier'' (map_option tier_name (hp_trustTier (hk_policy k))) @
        [(''requiredBits'', str_list (hp_requiredBits (hk_policy k))), (''challengeBits'', str_list (hp_challengeBits (hk_policy k))),
         (''scopeHash'', JStr (hp_scopeHash (hk_policy k)))])),
     (''requester'', JObj (safe_identity_members (fst (hk_requester k)) @ [(''authSessionHash'', JStr (snd (hk_requester k)))]))] @
     (case hk_approver k of None \<Rightarrow> [] | Some a \<Rightarrow> [(''approver'', JObj (safe_identity_members a))]) @
     [(''approvalTarget'', JObj ([(''kind'', JStr (target_kind_name (st_kind (hk_approvalTarget k))))] @
        opt_member ''idHash'' (st_idHash (hk_approvalTarget k)) @ opt_member ''sessionId'' (st_sessionId (hk_approvalTarget k)) @
        opt_member ''displayName'' (st_displayName (hk_approvalTarget k)))),
      (''paramsHash'', JStr (hk_paramsHash k)), (''createdAt'', JStr (hk_createdAt k)), (''expiresAt'', JStr (hk_expiresAt k))] @
     opt_member ''redemptionNonceHash'' (hk_redemptionNonceHash k))"

record contract_input =
  ci_challengeId :: string
  ci_decision :: hub_policy_decision
  ci_canonicalParams :: json
  ci_createdAt :: string
  ci_expiresAt :: string
  ci_requester :: hr_requester
  ci_approvalTarget :: "hr_target option"
  ci_approver :: "hr_approver option"
  ci_redemptionNonce :: "string option"
  ci_redemptionNonceHash :: "string option"
  ci_outcome :: "hr_outcome option"

definition classificationInputFromDecision :: "hub_policy_decision \<Rightarrow> hr_input" where
  "classificationInputFromDecision d =
     \<lparr>hi_opAction = hi_action (hd_intent d), hi_targetNodeId = Some (hd_nodeId d),
      hi_sourceNodeId = (if hp_kind (hd_peer d) = PeerNode then truthy (hp_nodeId (hd_peer d)) else None),
      hi_trustTier = hd_trustTier d, hi_scopeKind = Some (hub_scope_name (hs_kind (hd_scope d))),
      hi_boundaryCrossing = None, hi_requiredCapabilities = hd_requiredBits d\<rparr>"

definition default_target :: hr_target where
  "default_target = \<lparr>ht_kind = TkHuman, ht_id = None, ht_sessionId = None, ht_displayName = None\<rparr>"

definition createHighRiskApprovalContract ::
  "(js_number \<Rightarrow> string) \<Rightarrow> (string \<Rightarrow> string) \<Rightarrow> contract_input \<Rightarrow> hr_contract" where
  "createHighRiskApprovalContract numstr sha inp =
     (let d = ci_decision inp;
          c = classifyHighRiskOperation (classificationInputFromDecision d);
          workContextId = nullish (ha_workContextId (hq_identity (ci_requester inp))) (hs_workspaceId (hd_scope d));
          nonceHash = (case truthy (ci_redemptionNonce inp) of
             Some n \<Rightarrow> Some (sha (''relay-approval-nonce:'' @ n)) | None \<Rightarrow> ci_redemptionNonceHash inp);
          payload = \<lparr>hk_challengeId = ci_challengeId inp,
            hk_outcome = (case ci_outcome inp of Some out \<Rightarrow> out | None \<Rightarrow> HrChallengeCreated),
            hk_correlationId = (case hd_correlationId d of Some i \<Rightarrow> i | None \<Rightarrow> ci_challengeId inp),
            hk_operation = \<lparr>ho_action = hi_action (hd_intent d), ho_nodeId = hd_nodeId d,
              ho_target = truthy (hi_target (hd_intent d)), ho_sessionId = truthy (hd_sessionId d),
              ho_workContextId = truthy workContextId\<rparr>,
            hk_risk = (hc_decision c, hc_riskReason c, hc_unknownBits c),
            hk_policy = \<lparr>hp_aclRef = truthy (hd_aclRef d), hp_policyVersion = truthy (hd_policyVersion d),
              hp_trustTier = hd_trustTier d, hp_requiredBits = hd_requiredBits d, hp_challengeBits = hd_challengeBits d,
              hp_scopeHash = scope_hash numstr sha (hd_scope d)\<rparr>,
            hk_requester = safeRequester sha (ci_requester inp),
            hk_approver = map_option (safeApprover sha) (ci_approver inp),
            hk_approvalTarget = safeTarget sha (case ci_approvalTarget inp of Some t \<Rightarrow> t | None \<Rightarrow> default_target),
            hk_paramsHash = sha (stableStringify numstr (ci_canonicalParams inp)),
            hk_createdAt = ci_createdAt inp, hk_expiresAt = ci_expiresAt inp,
            hk_redemptionNonceHash = truthy nonceHash, hk_contractHash = []\<rparr>
      in payload\<lparr>hk_contractHash := sha (stableStringify numstr (contract_payload payload))\<rparr>)"

section \<open>The classification is exact\<close>

definition guarded_actions :: "string list" where
  "guarded_actions = [''nodes.acl.widen'', ''capabilities.grant'', ''pty.exec.arbitrary'', ''rpc.fs.write'', ''rpc.fs.delete'',
     ''credentials.export'', ''secrets.export'', ''nodes.revoke'', ''nodes.rotate'', ''nodes.repair'', ''nodes.re-pair'',
     ''nodes.destroy'', ''sessions.kill'']"

lemma normalizeRequiredBits_sets:
  "normalizeRequiredBits bits = (known, unknown) \<Longrightarrow>
    set known = set bits \<inter> set relay_capability_bits \<and> set unknown = set bits - set relay_capability_bits"
  unfolding normalizeRequiredBits_def using required_sets [of bits known unknown]
  by (auto simp: normalizeRequiredCapabilities_def known_bit_iff)

text \<open>An operation is classified for what it is: it is denied exactly when it needs an unknown
  capability or is itself unknown; it passes silently exactly when it is known, needs no high-risk
  capability, is none of the guarded actions, crosses no boundary and does not control another node; and
  it needs an approval in all other cases.\<close>

theorem high_risk_classification_exact:
  "hc_decision (classifyHighRiskOperation inp) =
    (if \<not> set (hi_requiredCapabilities inp) \<subseteq> set relay_capability_bits \<or> hi_opAction inp \<notin> set known_actions then HrDeny
     else if set (hi_requiredCapabilities inp) \<inter> set high_risk_capabilities = {} \<and> hi_opAction inp \<notin> set guarded_actions \<and>
        hi_boundaryCrossing inp \<noteq> Some True \<and> \<not> isCrossNodeControl inp then HrSilentAllow
     else HrApprovalRequired)"
proof -
  obtain known unknown where n: "normalizeRequiredBits (hi_requiredCapabilities inp) = (known, unknown)" by force
  note sets = normalizeRequiredBits_sets [OF n]
  have unknown: "unknown = [] \<longleftrightarrow> set (hi_requiredCapabilities inp) \<subseteq> set relay_capability_bits"
    using sets by (metis Diff_eq_empty_iff set_empty2)
  have high: "{''node:acl:widen'', ''pty:exec:arbitrary'', ''rpc:fs:write'', ''rpc:fs:delete'', ''credential:export'',
      ''node:lifecycle:destructive'', ''session:control:kill''} \<subseteq> set high_risk_capabilities"
    by (simp add: high_risk_capabilities_def)
  let ?guard = "isCapabilityEscalation inp \<or> isShellExec inp \<or> isFileBoundaryMutation inp \<or> isCredentialExport inp \<or>
    isNodeLifecycle inp \<or> isDestructiveSessionControl inp"
  have guards: "?guard \<Longrightarrow> hi_opAction inp \<in> set guarded_actions \<or> hi_boundaryCrossing inp = Some True \<or>
      set (hi_requiredCapabilities inp) \<inter> set high_risk_capabilities \<noteq> {}"
    using high unfolding isCapabilityEscalation_def isShellExec_def isFileBoundaryMutation_def isCredentialExport_def
      isNodeLifecycle_def isDestructiveSessionControl_def guarded_actions_def by auto
  have guarded: "hi_opAction inp \<in> set guarded_actions \<or> hi_boundaryCrossing inp = Some True \<Longrightarrow> ?guard"
    unfolding isCapabilityEscalation_def isShellExec_def isFileBoundaryMutation_def isCredentialExport_def
      isNodeLifecycle_def isDestructiveSessionControl_def guarded_actions_def by auto
  have some: "list_ex (\<lambda>b. b \<in> set high_risk_capabilities) known \<longleftrightarrow>
      set (hi_requiredCapabilities inp) \<inter> set high_risk_capabilities \<noteq> {}" if "unknown = []"
    using sets that unknown by (auto simp: list_ex_iff)
  show ?thesis
    using guards guarded some unknown
    by (simp add: classifyHighRiskOperation_def classified_def n Let_def) blast
qed

definition sample_hr_input :: "string \<Rightarrow> string list \<Rightarrow> hr_input" where
  "sample_hr_input action bits = \<lparr>hi_opAction = action, hi_targetNodeId = Some ''n1'', hi_sourceNodeId = Some ''n1'',
     hi_trustTier = None, hi_scopeKind = None, hi_boundaryCrossing = None, hi_requiredCapabilities = bits\<rparr>"

theorem high_risk_classification_exact_witness:
  "hc_decision (classifyHighRiskOperation (sample_hr_input ''rpc.git.read'' [''rpc:git:read''])) = HrSilentAllow \<and>
   hc_decision (classifyHighRiskOperation (sample_hr_input ''rpc.fs.write'' [''rpc:fs:write''])) = HrApprovalRequired \<and>
   hc_decision (classifyHighRiskOperation (sample_hr_input ''rpc.git.push'' [])) = HrDeny"
  unfolding high_risk_classification_exact by (intro conjI; code_simp)

end
