(* ===== verification/Confirmation.thy ===== *)
theory Confirmation
  imports High_Risk
begin

text \<open>
  Confirmation challenges (\<open>server/confirmation-challenges.ts\<close>): a policy decision that asks for
  confirmation becomes a challenge; a second authenticated party approves it, which issues a token; the
  requester redeems the token once, for exactly the operation that was approved. The store is the state,
  every function of it an operation; the clock, the random ids and tokens are arguments of the operations,
  and what the functions close over (time to live, limits, \<open>Date.parse\<close>, \<open>toISOString\<close>, SHA-256, the
  rendering of numbers) is the record \<open>conf_env\<close>.
\<close>

section \<open>Data\<close>

datatype conf_decision = DecApprove | DecDeny | DecDenyRevoke

datatype conf_status = CsPending | CsApproved | CsDenied | CsRevoked | CsExpired | CsRedeemed | CsInvalidated

datatype conf_reason =
    CONFIRMATION_REQUIRED | CONFIRMATION_APPROVED | CONFIRMATION_DENIED | CONFIRMATION_DENIED_REVOKE
  | CONFIRMATION_EXPIRED | CONFIRMATION_ALREADY_USED | CONFIRMATION_SAME_SESSION | CONFIRMATION_PARAM_MISMATCH
  | CONFIRMATION_NOT_FOUND | CONFIRMATION_NOT_APPROVED | CONFIRMATION_TOKEN_INVALID
  | CONFIRMATION_REQUESTER_MISMATCH | CONFIRMATION_CONTEXT_MISMATCH | CONFIRMATION_SAME_ACTOR
  | CONFIRMATION_SAME_CREDENTIAL | CONFIRMATION_APPROVAL_TARGET_INVALID

record challenge =
  cc_challengeId :: string
  cc_status :: conf_status
  cc_requesterAuthSessionHash :: string
  cc_requesterDisplayName :: "string option"
  cc_approverAuthSessionHash :: "string option"
  cc_approverDisplayName :: "string option"
  cc_nodeId :: string
  cc_intent :: hub_intent
  cc_requiredBits :: "string list"
  cc_challengeBits :: "string list"
  cc_sessionId :: "string option"
  cc_canonicalParams :: json
  cc_canonicalParamsHash :: string
  cc_scopeHash :: string
  cc_decision :: hub_policy_decision
  cc_createdAt :: string
  cc_expiresAt :: string
  cc_approvedAt :: "string option"
  cc_tokenExpiresAt :: "string option"
  cc_tokenHash :: "string option"
  cc_requesterToken :: "string option"
  cc_redeemedAt :: "string option"
  cc_failedRedemptions :: nat
  cc_maxFailedRedemptions :: int
  cc_reasonCode :: conf_reason
  cc_message :: string
  cc_outcome :: hr_outcome
  cc_requester :: hr_requester
  cc_approver :: "hr_approver option"
  cc_approvalTarget :: hr_target
  cc_contract :: hr_contract

datatype conf_event_type =
    EvSameSessionAttempt | EvDenial | EvRevocation | EvApproval | EvFailedRedemption | EvGrant | EvExpiry

datatype conf_audit_decision = CadDeny | CadRevoked | CadApproved | CadFailed | CadAllow | CadExpired

record conf_audit =
  ca_eventType :: conf_event_type
  ca_decision :: conf_audit_decision
  ca_reasonCode :: conf_reason
  ca_principalHash :: string
  ca_displayName :: "string option"
  ca_nodeId :: string
  ca_trustTier :: "trust_tier option"
  ca_sessionId :: "string option"
  ca_intent :: hub_intent
  ca_scope :: hub_scope
  ca_params :: json
  ca_requiredBits :: "string list"
  ca_grantedBits :: "string list"
  ca_deniedBits :: "string list"
  ca_aclRef :: "string option"
  ca_policyVersion :: "string option"
  ca_correlationId :: "string option"

text \<open>The challenge and the audit entry of a result are optional in a failure.\<close>

datatype conf_result =
    ConfFailure (cr_reason: conf_reason) (cr_message: string) (cr_challenge: "challenge option") (cr_audit: "conf_audit option")
  | ConfSuccess (cr_message: string) (cr_done: challenge) (cr_token: "string option") (cr_audit: "conf_audit option")

record conf_env =
  ce_dp :: "string \<Rightarrow> int option"
  ce_toIso :: "int \<Rightarrow> string"
  ce_numstr :: "js_number \<Rightarrow> string"
  ce_sha :: "string \<Rightarrow> string"
  ce_challengeTtlMs :: int
  ce_tokenTtlMs :: int
  ce_maxFailedRedemptions :: int
  ce_maxChallenges :: int

type_synonym conf_store = "(string, challenge) jsmap"

section \<open>Helpers\<close>

definition hashCanonicalParams :: "conf_env \<Rightarrow> json \<Rightarrow> string" where
  "hashCanonicalParams env v = ce_sha env (stableStringify (ce_numstr env) v)"

definition hashToken :: "conf_env \<Rightarrow> string \<Rightarrow> string" where
  "hashToken env token = ce_sha env (''relay-confirmation-token:'' @ token)"

definition isTerminalChallengeStatus :: "conf_status \<Rightarrow> bool" where
  "isTerminalChallengeStatus s \<longleftrightarrow> s \<noteq> CsPending \<and> s \<noteq> CsApproved"

fun status_name :: "conf_status \<Rightarrow> string" where
  "status_name CsPending = ''pending''" | "status_name CsApproved = ''approved''" | "status_name CsDenied = ''denied''"
| "status_name CsRevoked = ''revoked''" | "status_name CsExpired = ''expired''" | "status_name CsRedeemed = ''redeemed''"
| "status_name CsInvalidated = ''invalidated''"

definition requiresStructuredApprover :: "challenge \<Rightarrow> bool" where
  "requiresStructuredApprover c \<longleftrightarrow> ha_kind (hq_identity (cc_requester c)) = AkScopedActor \<or>
     is_truthy (ha_actorId (hq_identity (cc_requester c))) \<or> is_truthy (ha_credentialId (hq_identity (cc_requester c)))"

definition approverSatisfiesTarget :: "hr_approver \<Rightarrow> hr_target \<Rightarrow> bool" where
  "approverSatisfiesTarget a t = (case ht_kind t of
     TkHuman \<Rightarrow> ha_kind a = AkHuman \<and> (\<not> is_truthy (ht_id t) \<or> ha_actorId a = ht_id t)
   | TkOperator \<Rightarrow> ha_kind a = AkHuman \<and> (\<not> is_truthy (ht_id t) \<or> ha_actorId a = ht_id t)
   | TkSession \<Rightarrow> is_truthy (ht_sessionId t) \<and> ha_sessionId a = ht_sessionId t
   | TkExternal \<Rightarrow> True)"

text \<open>\<open>new Date(s).toISOString()\<close> for a string printed by \<open>toISOString\<close>.\<close>

definition reprint_date :: "conf_env \<Rightarrow> string \<Rightarrow> string" where
  "reprint_date env s = (case ce_dp env s of Some t \<Rightarrow> ce_toIso env t | None \<Rightarrow> s)"

definition updatedContract :: "conf_env \<Rightarrow> challenge \<Rightarrow> hr_outcome \<Rightarrow> string option \<Rightarrow> hr_approver option \<Rightarrow> hr_contract" where
  "updatedContract env c outcome nonce approver =
     createHighRiskApprovalContract (ce_numstr env) (ce_sha env)
       \<lparr>ci_challengeId = cc_challengeId c, ci_decision = cc_decision c, ci_canonicalParams = cc_canonicalParams c,
        ci_createdAt = reprint_date env (cc_createdAt c), ci_expiresAt = reprint_date env (cc_expiresAt c),
        ci_requester = cc_requester c, ci_approvalTarget = Some (cc_approvalTarget c),
        ci_approver = nullish approver (cc_approver c), ci_redemptionNonce = truthy nonce,
        ci_redemptionNonceHash = (if is_truthy nonce then None else truthy (hk_redemptionNonceHash (cc_contract c))),
        ci_outcome = Some outcome\<rparr>"

text \<open>The peer of an audit entry: the one whose approval was attempted, the approver, or the requester.\<close>

definition auditPeerForChallenge ::
  "challenge \<Rightarrow> conf_event_type \<Rightarrow> (string \<times> string option) option \<Rightarrow> string \<times> string option" where
  "auditPeerForChallenge c ev attempted =
     (let useAttempted = ev \<in> {EvSameSessionAttempt, EvDenial} \<and> is_truthy (map_option fst attempted);
          useApprover = \<not> useAttempted \<and> ev \<in> {EvApproval, EvDenial, EvRevocation} \<and> is_truthy (cc_approverAuthSessionHash c)
      in if useAttempted then (fst (the attempted), truthy (snd (the attempted)))
         else if useApprover then (the (cc_approverAuthSessionHash c), truthy (cc_approverDisplayName c))
         else (cc_requesterAuthSessionHash c, truthy (cc_requesterDisplayName c)))"

definition auditForChallenge ::
  "challenge \<Rightarrow> conf_event_type \<Rightarrow> conf_audit_decision \<Rightarrow> conf_reason \<Rightarrow> json option \<Rightarrow> (string \<times> string option) option \<Rightarrow> conf_audit" where
  "auditForChallenge c ev d reason params attempted =
     (let peer = auditPeerForChallenge c ev attempted; policy = cc_decision c in
      \<lparr>ca_eventType = ev, ca_decision = d, ca_reasonCode = reason, ca_principalHash = fst peer, ca_displayName = snd peer,
       ca_nodeId = cc_nodeId c, ca_trustTier = hd_trustTier policy, ca_sessionId = truthy (cc_sessionId c),
       ca_intent = cc_intent c, ca_scope = hd_scope policy,
       ca_params = (case params of Some p \<Rightarrow> if p = JNull \<or> p = JUndef then cc_canonicalParams c else p | None \<Rightarrow> cc_canonicalParams c),
       ca_requiredBits = cc_requiredBits c,
       ca_grantedBits = (if d = CadAllow \<or> d = CadApproved then cc_requiredBits c else []),
       ca_deniedBits = (if d = CadDeny \<or> d = CadFailed then cc_requiredBits c else []),
       ca_aclRef = truthy (hd_aclRef policy), ca_policyVersion = truthy (hd_policyVersion policy),
       ca_correlationId = truthy (hd_correlationId policy)\<rparr>)"

definition expireIfNeeded :: "conf_env \<Rightarrow> challenge \<Rightarrow> int \<Rightarrow> bool \<Rightarrow> challenge \<times> conf_result option" where
  "expireIfNeeded env c now includeToken =
     (if isTerminalChallengeStatus (cc_status c) then (c, None)
      else
        let challengeExpired = (case ce_dp env (cc_expiresAt c) of Some t \<Rightarrow> t \<le> now | None \<Rightarrow> False);
            tokenExpired = includeToken \<and> (case truthy (cc_tokenExpiresAt c) of
              Some e \<Rightarrow> (case ce_dp env e of Some t \<Rightarrow> t \<le> now | None \<Rightarrow> False) | None \<Rightarrow> False)
        in if \<not> challengeExpired \<and> \<not> tokenExpired then (c, None)
           else
             let c1 = c\<lparr>cc_status := CsExpired, cc_reasonCode := CONFIRMATION_EXPIRED, cc_outcome := HrExpired\<rparr>;
                 c2 = c1\<lparr>cc_contract := updatedContract env c1 HrExpired None None, cc_requesterToken := None,
                   cc_message := (if tokenExpired then ''confirmation token expired'' else ''confirmation challenge expired'')\<rparr>
             in (c2, Some (ConfFailure CONFIRMATION_EXPIRED (cc_message c2) (Some c2)
                  (Some (auditForChallenge c2 EvExpiry CadExpired CONFIRMATION_EXPIRED None None)))))"

definition challengeContextMatches :: "conf_env \<Rightarrow> challenge \<Rightarrow> hub_policy_decision \<Rightarrow> bool" where
  "challengeContextMatches env c d \<longleftrightarrow>
     cc_nodeId c = hd_nodeId d \<and> hi_action (cc_intent c) = hi_action (hd_intent d) \<and>
     hi_target (cc_intent c) = hi_target (hd_intent d) \<and> cc_sessionId c = hd_sessionId d \<and>
     stableStringify (ce_numstr env) (str_list (cc_requiredBits c)) = stableStringify (ce_numstr env) (str_list (hd_requiredBits d)) \<and>
     stableStringify (ce_numstr env) (str_list (cc_challengeBits c)) = stableStringify (ce_numstr env) (str_list (hd_challengeBits d)) \<and>
     cc_scopeHash c = scope_hash (ce_numstr env) (ce_sha env) (hd_scope d)"

definition failChallenge ::
  "conf_env \<Rightarrow> challenge \<Rightarrow> conf_reason \<Rightarrow> string \<Rightarrow> conf_event_type \<Rightarrow> conf_audit_decision \<Rightarrow> hr_outcome option \<Rightarrow>
   (string \<times> string option \<times> hr_approver option) option \<Rightarrow> challenge \<times> conf_result" where
  "failChallenge env c reason message ev d outcome attempted =
     (let c1 = c\<lparr>cc_reasonCode := reason, cc_message := message\<rparr>;
          c2 = (case outcome of None \<Rightarrow> c1
                | Some out \<Rightarrow> let c' = c1\<lparr>cc_outcome := out\<rparr> in
                    c'\<lparr>cc_contract := updatedContract env c' out None (Option.bind attempted (\<lambda>(_, _, a). a))\<rparr>)
      in (c2, ConfFailure reason message (Some c2)
           (Some (auditForChallenge c2 ev d reason None (map_option (\<lambda>(h, n, _). (h, n)) attempted)))))"

definition invalidateRedemptionChallenge ::
  "conf_env \<Rightarrow> challenge \<Rightarrow> conf_reason \<Rightarrow> string \<Rightarrow> json \<Rightarrow> challenge \<times> conf_result" where
  "invalidateRedemptionChallenge env c reason message params =
     (let c1 = c\<lparr>cc_failedRedemptions := cc_failedRedemptions c + 1, cc_status := CsInvalidated, cc_reasonCode := reason,
             cc_message := message, cc_outcome := HrMismatchDenied\<rparr>;
          c2 = c1\<lparr>cc_contract := updatedContract env c1 HrMismatchDenied None None, cc_tokenExpiresAt := None,
             cc_tokenHash := None, cc_requesterToken := None\<rparr>
      in (c2, ConfFailure reason message (Some c2)
           (Some (auditForChallenge c2 EvFailedRedemption CadFailed reason (if params = JUndef then None else Some params) None))))"

section \<open>The store\<close>

text \<open>\<open>pruneExpired\<close> expires every challenge and its token where due.\<close>

definition pruneExpired :: "conf_env \<Rightarrow> conf_store \<Rightarrow> int \<Rightarrow> conf_store" where
  "pruneExpired env store now = map (\<lambda>(k, c). (k, fst (expireIfNeeded env c now True))) store"

definition terminalRetentionMs :: "conf_env \<Rightarrow> int" where
  "terminalRetentionMs env = max (max (ce_challengeTtlMs env) (ce_tokenTtlMs env)) 1"

definition finishedAt :: "conf_env \<Rightarrow> challenge \<Rightarrow> int option" where
  "finishedAt env c = ce_dp env (case nullish (cc_redeemedAt c) (cc_approvedAt c) of Some t \<Rightarrow> t | None \<Rightarrow> cc_expiresAt c)"

definition stale :: "conf_env \<Rightarrow> challenge \<Rightarrow> int \<Rightarrow> bool" where
  "stale env c now \<longleftrightarrow> isTerminalChallengeStatus (cc_status c) \<and>
     (case finishedAt env c of Some t \<Rightarrow> t < now - terminalRetentionMs env | None \<Rightarrow> False)"

text \<open>The eviction loops delete the first terminal challenge while the store holds more than \<open>limit\<close>.
  Every round deletes one, so as many rounds as there are challenges are enough.\<close>

fun evict_terminal :: "nat \<Rightarrow> int \<Rightarrow> conf_store \<Rightarrow> conf_store" where
  "evict_terminal 0 limit store = store"
| "evict_terminal (Suc rounds) limit store =
     (if int (length store) \<le> limit then store
      else case List.find (\<lambda>c. isTerminalChallengeStatus (cc_status c)) (jm_values store) of
        None \<Rightarrow> store
      | Some c \<Rightarrow> evict_terminal rounds limit (jm_delete store (cc_challengeId c)))"

definition maxChallenges :: "conf_env \<Rightarrow> int" where
  "maxChallenges env = max 1 (ce_maxChallenges env)"

definition pruneStoredChallenges :: "conf_env \<Rightarrow> conf_store \<Rightarrow> int \<Rightarrow> conf_store" where
  "pruneStoredChallenges env store now =
     (let store1 = filter (\<lambda>(k, c). \<not> stale env c now) (pruneExpired env store now)
      in evict_terminal (length store1) (maxChallenges env) store1)"

text \<open>\<open>None\<close> is the \<open>ConfirmationChallengeCapacityError\<close>.\<close>

definition ensureCapacityForNewChallenge :: "conf_env \<Rightarrow> conf_store \<Rightarrow> conf_store \<times> bool" where
  "ensureCapacityForNewChallenge env store =
     (let store1 = evict_terminal (length store) (maxChallenges env - 1) store
      in (store1, int (length store1) < maxChallenges env))"

record conf_request =
  rq_decision :: hub_policy_decision
  rq_requesterAuthSessionHash :: string
  rq_requesterDisplayName :: "string option"
  rq_requester :: "hr_requester option"
  rq_approvalTarget :: "hr_target option"
  rq_canonicalParams :: json

definition browser_requester :: "conf_request \<Rightarrow> hr_requester" where
  "browser_requester rq = \<lparr>hq_identity = \<lparr>ha_kind = AkBrowserSession, ha_actorType = None, ha_actorId = None,
       ha_credentialId = None, ha_credentialJti = None, ha_nodeId = None, ha_sessionId = None, ha_workContextId = None,
       ha_displayName = truthy (rq_requesterDisplayName rq)\<rparr>, hq_authSessionHash = rq_requesterAuthSessionHash rq\<rparr>"

definition new_challenge :: "conf_env \<Rightarrow> conf_request \<Rightarrow> int \<Rightarrow> string \<Rightarrow> challenge" where
  "new_challenge env rq now i =
     (let d = rq_decision rq; created = ce_toIso env now; expires = ce_toIso env (now + ce_challengeTtlMs env);
          requester = (case rq_requester rq of Some q \<Rightarrow> q | None \<Rightarrow> browser_requester rq);
          target = (case rq_approvalTarget rq of Some t \<Rightarrow> t | None \<Rightarrow> default_target)
      in \<lparr>cc_challengeId = i, cc_status = CsPending, cc_requesterAuthSessionHash = rq_requesterAuthSessionHash rq,
          cc_requesterDisplayName = truthy (rq_requesterDisplayName rq), cc_approverAuthSessionHash = None,
          cc_approverDisplayName = None, cc_nodeId = hd_nodeId d, cc_intent = hd_intent d,
          cc_requiredBits = hd_requiredBits d, cc_challengeBits = hd_challengeBits d, cc_sessionId = truthy (hd_sessionId d),
          cc_canonicalParams = rq_canonicalParams rq, cc_canonicalParamsHash = hashCanonicalParams env (rq_canonicalParams rq),
          cc_scopeHash = scope_hash (ce_numstr env) (ce_sha env) (hd_scope d), cc_decision = d, cc_createdAt = created,
          cc_expiresAt = expires, cc_approvedAt = None, cc_tokenExpiresAt = None, cc_tokenHash = None,
          cc_requesterToken = None, cc_redeemedAt = None, cc_failedRedemptions = 0,
          cc_maxFailedRedemptions = ce_maxFailedRedemptions env, cc_reasonCode = CONFIRMATION_REQUIRED,
          cc_message = ''confirmation required before Relay routes this operation to the node'',
          cc_outcome = HrChallengeCreated, cc_requester = requester, cc_approver = None, cc_approvalTarget = target,
          cc_contract = createHighRiskApprovalContract (ce_numstr env) (ce_sha env)
            \<lparr>ci_challengeId = i, ci_decision = d, ci_canonicalParams = rq_canonicalParams rq, ci_createdAt = created,
             ci_expiresAt = expires, ci_requester = requester, ci_approvalTarget = Some target, ci_approver = None,
             ci_redemptionNonce = None, ci_redemptionNonceHash = None, ci_outcome = None\<rparr>\<rparr>)"

definition createChallenge :: "conf_env \<Rightarrow> conf_store \<Rightarrow> conf_request \<Rightarrow> int \<Rightarrow> string \<Rightarrow> conf_store \<times> challenge option" where
  "createChallenge env store rq now i =
     (case ensureCapacityForNewChallenge env (pruneStoredChallenges env store now) of (store1, ok) \<Rightarrow>
        if ok then (jm_set store1 i (new_challenge env rq now i), Some (new_challenge env rq now i))
        else (store1, None))"

record conf_approval =
  ap_challengeId :: string
  ap_approverAuthSessionHash :: string
  ap_approverDisplayName :: "string option"
  ap_approver :: "hr_approver option"
  ap_decision :: conf_decision

definition deny_challenge :: "conf_env \<Rightarrow> challenge \<Rightarrow> conf_approval \<Rightarrow> int \<Rightarrow> challenge \<times> conf_result" where
  "deny_challenge env c ap now =
     (let plain = (ap_decision ap = DecDeny);
          reason = (if plain then CONFIRMATION_DENIED else CONFIRMATION_DENIED_REVOKE);
          message = (if plain then ''confirmation challenge was denied by a distinct authenticated session''
                     else ''confirmation challenge was denied and the grant should be revoked'');
          c1 = c\<lparr>cc_status := (if plain then CsDenied else CsRevoked), cc_reasonCode := reason, cc_message := message,
             cc_approverAuthSessionHash := Some (ap_approverAuthSessionHash ap),
             cc_approver := nullish (ap_approver ap) (cc_approver c),
             cc_approverDisplayName := nullish (truthy (ap_approverDisplayName ap)) (cc_approverDisplayName c),
             cc_approvedAt := Some (ce_toIso env now), cc_outcome := HrDenied\<rparr>;
          c2 = c1\<lparr>cc_contract := updatedContract env c1 HrDenied None (ap_approver ap)\<rparr>
      in (c2, ConfFailure reason message (Some c2)
           (Some (auditForChallenge c2 (if plain then EvDenial else EvRevocation)
              (if plain then CadDeny else CadRevoked) reason None None))))"

definition grant_challenge :: "conf_env \<Rightarrow> challenge \<Rightarrow> conf_approval \<Rightarrow> int \<Rightarrow> string \<Rightarrow> challenge \<times> conf_result" where
  "grant_challenge env c ap now token =
     (let message = ''confirmation challenge approved by a distinct authenticated session'';
          c1 = c\<lparr>cc_status := CsApproved, cc_reasonCode := CONFIRMATION_APPROVED, cc_message := message,
             cc_approverAuthSessionHash := Some (ap_approverAuthSessionHash ap),
             cc_approver := nullish (ap_approver ap) (cc_approver c),
             cc_approverDisplayName := nullish (truthy (ap_approverDisplayName ap)) (cc_approverDisplayName c),
             cc_approvedAt := Some (ce_toIso env now), cc_tokenExpiresAt := Some (ce_toIso env (now + ce_tokenTtlMs env)),
             cc_tokenHash := Some (hashToken env token), cc_requesterToken := Some token, cc_outcome := HrApproved\<rparr>;
          c2 = c1\<lparr>cc_contract := updatedContract env c1 HrApproved (Some token) (ap_approver ap)\<rparr>
      in (c2, ConfSuccess message c2 (Some token)
           (Some (auditForChallenge c2 EvApproval CadApproved CONFIRMATION_APPROVED None None))))"

text \<open>The guards of an approval in the order of the code.\<close>

definition decide_challenge :: "conf_env \<Rightarrow> challenge \<Rightarrow> conf_approval \<Rightarrow> int \<Rightarrow> string \<Rightarrow> challenge \<times> conf_result" where
  "decide_challenge env c ap now token =
     (let approver = ap_approver ap; sha = ce_sha env;
          attempted = Some (ap_approverAuthSessionHash ap, truthy (ap_approverDisplayName ap), approver)
      in if cc_status c \<noteq> CsPending then
           (c, ConfFailure CONFIRMATION_NOT_APPROVED (''confirmation challenge is '' @ status_name (cc_status c)) (Some c) None)
         else if cc_requesterAuthSessionHash c = ap_approverAuthSessionHash ap then
           failChallenge env c CONFIRMATION_SAME_SESSION
             ''the requesting browser/auth session cannot approve its own challenge'' EvSameSessionAttempt CadDeny None attempted
         else if requiresStructuredApprover c \<and> approver = None then
           failChallenge env c CONFIRMATION_APPROVAL_TARGET_INVALID
             ''approval requires a distinct human/operator approver identity'' EvDenial CadDeny
             (Some HrApprovalTargetInvalid) attempted
         else if sameHighRiskActor sha (Some (cc_requester c)) approver then
           failChallenge env c CONFIRMATION_SAME_ACTOR
             ''the requesting autonomous actor cannot approve its own high-risk challenge'' EvSameSessionAttempt CadDeny
             (Some HrApprovalTargetInvalid) attempted
         else if sameHighRiskCredential sha (Some (cc_requester c)) approver then
           failChallenge env c CONFIRMATION_SAME_CREDENTIAL
             ''the requesting scoped credential cannot approve its own high-risk challenge'' EvSameSessionAttempt CadDeny
             (Some HrApprovalTargetInvalid) attempted
         else if sameHighRiskSession sha (Some (cc_requester c)) approver then
           failChallenge env c CONFIRMATION_SAME_SESSION
             ''the requesting session cannot approve its own high-risk challenge'' EvSameSessionAttempt CadDeny
             (Some HrApprovalTargetInvalid) attempted
         else if (case approver of Some a \<Rightarrow> \<not> approverSatisfiesTarget a (cc_approvalTarget c) | None \<Rightarrow> False) then
           failChallenge env c CONFIRMATION_APPROVAL_TARGET_INVALID
             ''approver does not match the challenge approval target'' EvDenial CadDeny
             (Some HrApprovalTargetInvalid) attempted
         else if ap_decision ap = DecDeny \<or> ap_decision ap = DecDenyRevoke then deny_challenge env c ap now
         else grant_challenge env c ap now token)"

text \<open>A challenge that is found is expired first when due; what an operation makes of it is stored back.\<close>

definition on_challenge ::
  "conf_env \<Rightarrow> conf_store \<Rightarrow> challenge \<Rightarrow> int \<Rightarrow> bool \<Rightarrow> (challenge \<Rightarrow> challenge \<times> conf_result) \<Rightarrow> conf_store \<times> conf_result" where
  "on_challenge env store c now includeToken act =
     (case expireIfNeeded env c now includeToken of
        (c1, Some failure) \<Rightarrow> (jm_set store (cc_challengeId c) c1, failure)
      | (c1, None) \<Rightarrow> (case act c of (c2, r) \<Rightarrow> (jm_set store (cc_challengeId c) c2, r)))"

definition approveChallenge :: "conf_env \<Rightarrow> conf_store \<Rightarrow> conf_approval \<Rightarrow> int \<Rightarrow> string \<Rightarrow> conf_store \<times> conf_result" where
  "approveChallenge env store ap now token =
     (case jm_get store (ap_challengeId ap) of
        None \<Rightarrow> (store, ConfFailure CONFIRMATION_NOT_FOUND ''confirmation challenge not found'' None None)
      | Some c \<Rightarrow> on_challenge env store c now False (\<lambda>c. decide_challenge env c ap now token))"

record conf_redemption =
  rd_token :: string
  rd_requesterAuthSessionHash :: string
  rd_decision :: hub_policy_decision
  rd_canonicalParams :: json

definition redeem_challenge :: "conf_env \<Rightarrow> challenge \<Rightarrow> conf_redemption \<Rightarrow> int \<Rightarrow> challenge \<times> conf_result" where
  "redeem_challenge env c rd now =
     (if cc_status c = CsRedeemed then
        (let c1 = c\<lparr>cc_outcome := HrReuseDenied\<rparr>; c2 = c1\<lparr>cc_contract := updatedContract env c1 HrReuseDenied None None\<rparr>
         in (c2, ConfFailure CONFIRMATION_ALREADY_USED ''confirmation token was already used'' (Some c2)
              (Some (auditForChallenge c2 EvFailedRedemption CadFailed CONFIRMATION_ALREADY_USED None None))))
      else if cc_status c \<noteq> CsApproved then
        (c, ConfFailure CONFIRMATION_NOT_APPROVED (''confirmation challenge is '' @ status_name (cc_status c)) (Some c) None)
      else if cc_requesterAuthSessionHash c \<noteq> rd_requesterAuthSessionHash rd then
        failChallenge env c CONFIRMATION_REQUESTER_MISMATCH
          ''confirmation token can only be redeemed by the original requesting auth session'' EvFailedRedemption CadFailed None None
      else if cc_approverAuthSessionHash c = Some (rd_requesterAuthSessionHash rd) then
        failChallenge env c CONFIRMATION_SAME_SESSION
          ''the approving browser/auth session cannot redeem its own approval'' EvSameSessionAttempt CadDeny None None
      else if \<not> challengeContextMatches env c (rd_decision rd) then
        invalidateRedemptionChallenge env c CONFIRMATION_CONTEXT_MISMATCH
          ''confirmation token context drift invalidated the approved challenge'' (rd_canonicalParams rd)
      else if cc_canonicalParamsHash c \<noteq> hashCanonicalParams env (rd_canonicalParams rd) then
        invalidateRedemptionChallenge env c CONFIRMATION_PARAM_MISMATCH
          ''confirmation token parameter drift invalidated the approved challenge'' (rd_canonicalParams rd)
      else
        (let c1 = c\<lparr>cc_status := CsRedeemed, cc_redeemedAt := Some (ce_toIso env now), cc_reasonCode := CONFIRMATION_APPROVED,
               cc_message := ''confirmation token redeemed'', cc_outcome := HrRedeemed\<rparr>;
             c2 = c1\<lparr>cc_contract := updatedContract env c1 HrRedeemed None None, cc_requesterToken := None\<rparr>
         in (c2, ConfSuccess (cc_message c2) c2 None
              (Some (auditForChallenge c2 EvGrant CadAllow CONFIRMATION_APPROVED None None)))))"

definition redeemToken :: "conf_env \<Rightarrow> conf_store \<Rightarrow> conf_redemption \<Rightarrow> int \<Rightarrow> conf_store \<times> conf_result" where
  "redeemToken env store rd now =
     (case List.find (\<lambda>c. cc_tokenHash c = Some (hashToken env (rd_token rd))) (jm_values store) of
        None \<Rightarrow> (store, ConfFailure CONFIRMATION_TOKEN_INVALID ''confirmation token is invalid'' None None)
      | Some c \<Rightarrow> on_challenge env store c now True (\<lambda>c. redeem_challenge env c rd now))"

definition pick_up_token :: "challenge \<Rightarrow> string \<Rightarrow> conf_result" where
  "pick_up_token c requesterHash =
     (if cc_requesterAuthSessionHash c \<noteq> requesterHash then
        ConfFailure CONFIRMATION_REQUESTER_MISMATCH
          ''confirmation token can only be picked up by the original requesting auth session'' (Some c) None
      else if cc_status c = CsRedeemed then
        ConfFailure CONFIRMATION_ALREADY_USED ''confirmation token was already used'' (Some c) None
      else if cc_status c \<noteq> CsApproved then
        ConfFailure CONFIRMATION_NOT_APPROVED (''confirmation challenge is '' @ status_name (cc_status c)) (Some c) None
      else case truthy (cc_requesterToken c) of
        None \<Rightarrow> ConfFailure CONFIRMATION_TOKEN_INVALID ''confirmation token is no longer available'' (Some c) None
      | Some token \<Rightarrow> ConfSuccess ''confirmation token available to original requester'' c (Some token) None)"

definition getRequesterToken :: "conf_env \<Rightarrow> conf_store \<Rightarrow> string \<Rightarrow> string \<Rightarrow> int \<Rightarrow> conf_store \<times> conf_result" where
  "getRequesterToken env store i requesterHash now =
     (case jm_get store i of
        None \<Rightarrow> (store, ConfFailure CONFIRMATION_NOT_FOUND ''confirmation challenge not found'' None None)
      | Some c \<Rightarrow> on_challenge env store c now True (\<lambda>c. (c, pick_up_token c requesterHash)))"

definition invalidateChallenge :: "conf_env \<Rightarrow> conf_store \<Rightarrow> string \<Rightarrow> conf_reason \<Rightarrow> string \<Rightarrow> int \<Rightarrow> conf_store \<times> challenge option" where
  "invalidateChallenge env store i reason message now =
     (case jm_get store i of
        None \<Rightarrow> (store, None)
      | Some c \<Rightarrow>
          let outcome = (if includes_sub message ''audit write failed'' then HrAuditWriteFailed else HrMismatchDenied);
              c1 = c\<lparr>cc_status := CsInvalidated, cc_reasonCode := reason, cc_message := message, cc_outcome := outcome\<rparr>;
              c2 = c1\<lparr>cc_contract := updatedContract env c1 outcome None None, cc_approvedAt := Some (ce_toIso env now),
                cc_tokenExpiresAt := None, cc_tokenHash := None, cc_requesterToken := None\<rparr>
          in (jm_set store i c2, Some c2))"

definition getChallenge :: "conf_env \<Rightarrow> conf_store \<Rightarrow> string \<Rightarrow> int \<Rightarrow> conf_store \<times> challenge option" where
  "getChallenge env store i now = (let store1 = pruneStoredChallenges env store now in (store1, jm_get store1 i))"

end
