(* ===== verification/Confirmation_Safety.thy ===== *)
theory Confirmation_Safety
  imports Confirmation
begin

text \<open>
  What the confirmation store guarantees: the operations are the events of a state machine, every challenge
  after an event is an evolution of the one before, the grant of a pending one, or new; from this follow
  single use of tokens, the authority behind a redemption and the capacity bound.
\<close>

section \<open>The state machine\<close>

datatype conf_op =
    OpCreate conf_request int string
  | OpApprove conf_approval int string
  | OpRedeem conf_redemption int
  | OpGetToken string string int
  | OpInvalidate string conf_reason string int
  | OpGet string int

fun conf_step :: "conf_env \<Rightarrow> conf_store \<Rightarrow> conf_op \<Rightarrow> conf_store" where
  "conf_step env store (OpCreate rq now i) = fst (createChallenge env store rq now i)"
| "conf_step env store (OpApprove ap now token) = fst (approveChallenge env store ap now token)"
| "conf_step env store (OpRedeem rd now) = fst (redeemToken env store rd now)"
| "conf_step env store (OpGetToken i requesterHash now) = fst (getRequesterToken env store i requesterHash now)"
| "conf_step env store (OpInvalidate i reason message now) = fst (invalidateChallenge env store i reason message now)"
| "conf_step env store (OpGet i now) = fst (getChallenge env store i now)"

text \<open>The random tokens are new: none hashes to the token hash of a stored challenge.\<close>

fun conf_op_ok :: "conf_env \<Rightarrow> conf_store \<Rightarrow> conf_op \<Rightarrow> bool" where
  "conf_op_ok env store (OpApprove ap now token) =
     list_all (\<lambda>c. cc_tokenHash c \<noteq> Some (hashToken env token)) (jm_values store)"
| "conf_op_ok env store _ = True"

section \<open>How a challenge changes\<close>

text \<open>What is fixed when a challenge is created.\<close>

definition same_core :: "challenge \<Rightarrow> challenge \<Rightarrow> bool" where
  "same_core c c' \<longleftrightarrow> cc_challengeId c' = cc_challengeId c \<and>
     cc_requesterAuthSessionHash c' = cc_requesterAuthSessionHash c \<and> cc_requester c' = cc_requester c \<and>
     cc_approvalTarget c' = cc_approvalTarget c \<and> cc_nodeId c' = cc_nodeId c \<and> cc_intent c' = cc_intent c \<and>
     cc_requiredBits c' = cc_requiredBits c \<and> cc_challengeBits c' = cc_challengeBits c \<and>
     cc_sessionId c' = cc_sessionId c \<and> cc_canonicalParams c' = cc_canonicalParams c \<and>
     cc_canonicalParamsHash c' = cc_canonicalParamsHash c \<and> cc_scopeHash c' = cc_scopeHash c \<and>
     cc_decision c' = cc_decision c \<and> cc_expiresAt c' = cc_expiresAt c"

definition evolves :: "challenge \<Rightarrow> challenge \<Rightarrow> bool" where
  "evolves c c' \<longleftrightarrow> same_core c c' \<and> cc_tokenHash c' \<in> {cc_tokenHash c, None} \<and>
     (cc_status c' = CsPending \<longrightarrow> cc_status c = CsPending \<and> cc_approver c' = cc_approver c) \<and>
     (cc_status c' = CsApproved \<longrightarrow> cc_status c = CsApproved \<and> cc_tokenHash c' = cc_tokenHash c \<and>
        cc_approverAuthSessionHash c' = cc_approverAuthSessionHash c \<and> cc_approver c' = cc_approver c)"

lemma evolves_refl [simp, intro]: "evolves c c"
  by (simp add: evolves_def same_core_def)

lemma evolves_trans: "evolves a b \<Longrightarrow> evolves b c \<Longrightarrow> evolves a c"
  by (auto simp: evolves_def same_core_def)

lemma expire_evolves: "evolves c (fst (expireIfNeeded env c now b))"
  by (simp add: expireIfNeeded_def Let_def evolves_def same_core_def)

lemma fail_evolves: "evolves c (fst (failChallenge env c reason message ev d out attempted))"
  by (auto simp: failChallenge_def Let_def evolves_def same_core_def split: option.splits)

lemma invalidate_evolves: "evolves c (fst (invalidateRedemptionChallenge env c reason message params))"
  by (simp add: invalidateRedemptionChallenge_def Let_def evolves_def same_core_def)

lemma deny_evolves: "evolves c (fst (deny_challenge env c ap now))"
  by (simp add: deny_challenge_def Let_def evolves_def same_core_def)

lemma redeem_evolves: "evolves c (fst (redeem_challenge env c rd now))"
proof -
  have "evolves c (c\<lparr>cc_outcome := x, cc_contract := k\<rparr>)" for x k by (simp add: evolves_def same_core_def)
  moreover have "evolves c (c\<lparr>cc_status := CsRedeemed, cc_redeemedAt := at, cc_reasonCode := r,
      cc_message := m, cc_outcome := x, cc_contract := k, cc_requesterToken := t\<rparr>)" for t at r m x k by (simp add: evolves_def same_core_def)
  ultimately show ?thesis
    by (simp add: redeem_challenge_def Let_def fail_evolves invalidate_evolves)
qed

lemmas evolves_intros = expire_evolves fail_evolves invalidate_evolves deny_evolves redeem_evolves

text \<open>When an approval is granted.\<close>

definition grantable :: "conf_env \<Rightarrow> challenge \<Rightarrow> conf_approval \<Rightarrow> bool" where
  "grantable env c ap \<longleftrightarrow> cc_status c = CsPending \<and> ap_decision ap = DecApprove \<and>
     cc_requesterAuthSessionHash c \<noteq> ap_approverAuthSessionHash ap \<and>
     (requiresStructuredApprover c \<longrightarrow> ap_approver ap \<noteq> None) \<and>
     (\<forall>a. ap_approver ap = Some a \<longrightarrow>
        \<not> sameHighRiskActor (ce_sha env) (Some (cc_requester c)) (Some a) \<and>
        \<not> sameHighRiskCredential (ce_sha env) (Some (cc_requester c)) (Some a) \<and>
        \<not> sameHighRiskSession (ce_sha env) (Some (cc_requester c)) (Some a) \<and>
        approverSatisfiesTarget a (cc_approvalTarget c))"

lemma not_same_None [simp]:
  "\<not> sameHighRiskActor sha q None" "\<not> sameHighRiskCredential sha q None" "\<not> sameHighRiskSession sha q None"
  by (simp_all add: sameHighRiskActor_def sameHighRiskCredential_def sameHighRiskSession_def split: option.split)

lemma decide_cases:
  "evolves c (fst (decide_challenge env c ap now token)) \<and>
     (\<exists>r m x a. snd (decide_challenge env c ap now token) = ConfFailure r m x a) \<or>
   grantable env c ap \<and> decide_challenge env c ap now token = grant_challenge env c ap now token"
proof (cases "grantable env c ap")
  case True
  then have "decide_challenge env c ap now token = grant_challenge env c ap now token"
    unfolding grantable_def by (cases "ap_approver ap") (simp_all add: decide_challenge_def Let_def)
  with True show ?thesis by blast
next
  case False
  have fails: "\<exists>r m x a. snd (failChallenge env c reason message ev d out attempted) = ConfFailure r m x a"
    for reason message ev d out attempted by (simp add: failChallenge_def Let_def)
  have denies: "\<exists>r m x a. snd (deny_challenge env c ap now) = ConfFailure r m x a"
    by (simp add: deny_challenge_def Let_def)
  from False show ?thesis
    unfolding grantable_def
    by (cases "ap_approver ap"; cases "ap_decision ap")
      (simp_all add: decide_challenge_def Let_def fail_evolves deny_evolves fails denies)
qed

section \<open>Where the challenges of a state come from\<close>

lemma set_jm_set: "jm_wf m \<Longrightarrow> set (jm_set m k v) = insert (k, v) {e \<in> set m. fst e \<noteq> k}"
  by (induction m k v rule: jm_set.induct) (auto simp: jm_wf_def rev_image_eqI)

lemma set_jm_set_subset: "set (jm_set m k v) \<subseteq> insert (k, v) (set m)"
  by (induction m k v rule: jm_set.induct) auto

lemma length_jm_set_le: "length (jm_set m k v) \<le> Suc (length m)"
  by (induction m k v rule: jm_set.induct) auto

lemma length_jm_set_same: "k \<in> set (map fst m) \<Longrightarrow> length (jm_set m k v) = length m"
  by (induction m k v rule: jm_set.induct) auto

lemma jm_get_set: "jm_get m k = Some v \<Longrightarrow> (k, v) \<in> set m"
  by (simp add: jm_get_def map_of_SomeD)

definition keyed :: "conf_store \<Rightarrow> bool" where
  "keyed store \<longleftrightarrow> jm_wf store \<and> (\<forall>e\<in>set store. fst e = cc_challengeId (snd e))"

lemma keyedD: "keyed store \<Longrightarrow> e \<in> set store \<Longrightarrow> fst e = cc_challengeId (snd e)"
  by (simp add: keyed_def)

lemma keyed_set: "keyed store \<Longrightarrow> cc_challengeId c = i \<Longrightarrow> keyed (jm_set store i c)"
  unfolding keyed_def using set_jm_set_subset [of store i c] by (auto simp: jm_wf_set)

lemma keyed_filter: "keyed store \<Longrightarrow> keyed (filter P store)"
  by (auto simp: keyed_def jm_wf_filter)

lemma same_core_id: "evolves c c' \<Longrightarrow> cc_challengeId c' = cc_challengeId c"
  by (simp add: evolves_def same_core_def)

lemma keys_pruneExpired: "map fst (pruneExpired env store now) = map fst store"
  by (induction store) (auto simp: pruneExpired_def)

lemma keyed_pruneExpired: "keyed store \<Longrightarrow> keyed (pruneExpired env store now)"
  unfolding keyed_def jm_wf_def keys_pruneExpired
  by (auto simp: pruneExpired_def same_core_id [OF expire_evolves])

lemma evict_is_filter: "\<exists>P. evict_terminal n limit store = filter P store \<and>
    (\<forall>e\<in>set store. \<not> isTerminalChallengeStatus (cc_status (snd e)) \<longrightarrow> keyed store \<longrightarrow> P e)"
proof (induction n limit store rule: evict_terminal.induct)
  case (1 limit store)
  have "evict_terminal 0 limit store = filter (\<lambda>_. True) store" by simp
  then show ?case by blast
next
  case (2 rounds limit store)
  have self: "store = filter (\<lambda>_. True) store" by simp
  show ?case
  proof (cases "int (length store) \<le> limit \<or> List.find (\<lambda>c. isTerminalChallengeStatus (cc_status c)) (jm_values store) = None")
    case True
    then have "evict_terminal (Suc rounds) limit store = filter (\<lambda>_. True) store" by (auto split: option.split)
    then show ?thesis by blast
  next
    case False
    then obtain c where c: "List.find (\<lambda>c. isTerminalChallengeStatus (cc_status c)) (jm_values store) = Some c"
      and big: "\<not> int (length store) \<le> limit" by auto
    have tc: "c \<in> snd ` set store" "isTerminalChallengeStatus (cc_status c)"
      using find_Some_in [OF c] by (simp_all add: jm_values_def)
    obtain P where P: "evict_terminal rounds limit (jm_delete store (cc_challengeId c)) = filter P (jm_delete store (cc_challengeId c))"
      "\<forall>e\<in>set (jm_delete store (cc_challengeId c)). \<not> isTerminalChallengeStatus (cc_status (snd e)) \<longrightarrow>
        keyed (jm_delete store (cc_challengeId c)) \<longrightarrow> P e"
      using "2.IH" [OF big c] by blast
    let ?Q = "\<lambda>e. P e \<and> fst e \<noteq> cc_challengeId c"
    have eq: "evict_terminal (Suc rounds) limit store = filter ?Q store"
      using big c P(1) by (simp add: jm_delete_def conj_commute)
    have "?Q e" if e: "e \<in> set store" "\<not> isTerminalChallengeStatus (cc_status (snd e))" "keyed store" for e
    proof -
      obtain k where k: "(k, c) \<in> set store" using tc(1) by auto
      have "fst e \<noteq> cc_challengeId c"
      proof
        assume same: "fst e = cc_challengeId c"
        with k e(3) have "fst e = fst (k, c)" by (auto simp: keyed_def)
        with e(1,3) k have "snd e = c" unfolding keyed_def jm_wf_def
          by (metis eq_key_imp_eq_value fst_conv prod.collapse)
        with tc(2) e(2) show False by simp
      qed
      moreover have "keyed (jm_delete store (cc_challengeId c))"
        using e(3) by (simp add: jm_delete_def keyed_filter)
      ultimately show ?thesis using e P(2) by (cases e) (auto simp: jm_delete_def)
    qed
    with eq show ?thesis by blast
  qed
qed

lemma set_evict: "set (evict_terminal n limit store) \<subseteq> set store"
  using evict_is_filter [of n limit store] by auto

lemma keyed_evict: "keyed store \<Longrightarrow> keyed (evict_terminal n limit store)"
  using evict_is_filter [of n limit store] by (auto simp: keyed_filter)

lemma evict_keeps_live:
  "keyed store \<Longrightarrow> e \<in> set store \<Longrightarrow> \<not> isTerminalChallengeStatus (cc_status (snd e)) \<Longrightarrow>
    e \<in> set (evict_terminal n limit store)"
  using evict_is_filter [of n limit store] by auto

text \<open>\<open>derived env op store c'\<close>: the event makes \<open>c'\<close> from a stored challenge, by a grant, or new.\<close>

inductive derived :: "conf_env \<Rightarrow> conf_op \<Rightarrow> conf_store \<Rightarrow> challenge \<Rightarrow> bool"
  for env :: conf_env and op :: conf_op and store :: conf_store where
  der_evolve: "e \<in> set store \<Longrightarrow> evolves (snd e) c' \<Longrightarrow> derived env op store c'"
| der_grant: "op = OpApprove ap now token \<Longrightarrow> (ap_challengeId ap, c) \<in> set store \<Longrightarrow> grantable env c ap \<Longrightarrow>
    derived env op store (fst (grant_challenge env c ap now token))"
| der_new: "op = OpCreate rq now i \<Longrightarrow> derived env op store (new_challenge env rq now i)"

lemma derived_set_jm_set:
  "e \<in> set (jm_set store i c') \<Longrightarrow> derived env op store c' \<Longrightarrow> derived env op store (snd e)"
  using set_jm_set_subset [of store i c'] der_evolve [of e store "snd e" env op] by auto

lemma expire_None: "snd (expireIfNeeded env c now b) = None \<Longrightarrow> fst (expireIfNeeded env c now b) = c"
  by (auto simp: expireIfNeeded_def Let_def)

lemma on_challenge_fst:
  "fst (on_challenge env store c now b act) = jm_set store (cc_challengeId c)
     (case snd (expireIfNeeded env c now b) of Some _ \<Rightarrow> fst (expireIfNeeded env c now b) | None \<Rightarrow> fst (act c))"
  using expire_None [of env c now b]
  by (cases "expireIfNeeded env c now b") (auto simp: on_challenge_def split: option.split prod.split)

lemma on_challenge_derived:
  assumes "keyed store" "(i, c) \<in> set store" "snd (expireIfNeeded env c now b) = None \<Longrightarrow> derived env op store (fst (act c))"
    and "e \<in> set (fst (on_challenge env store c now b act))"
  shows "derived env op store (snd e)"
proof -
  have "derived env op store (case snd (expireIfNeeded env c now b) of
      Some _ \<Rightarrow> fst (expireIfNeeded env c now b) | None \<Rightarrow> fst (act c))"
    using assms(2,3) der_evolve [OF assms(2), of "fst (expireIfNeeded env c now b)" env op] expire_evolves
    by (auto split: option.split)
  with assms(4) show ?thesis unfolding on_challenge_fst by (rule derived_set_jm_set)
qed

lemma pruned_derived:
  assumes "e \<in> set (pruneStoredChallenges env store now)"
  shows "\<exists>d\<in>set store. evolves (snd d) (snd e)"
proof -
  have "e \<in> set (pruneExpired env store now)"
    using assms set_evict by (fastforce simp: pruneStoredChallenges_def Let_def)
  then obtain k c where kc: "(k, c) \<in> set store" "e = (k, fst (expireIfNeeded env c now True))"
    by (auto simp: pruneExpired_def)
  with expire_evolves [of c env now True] show ?thesis by (intro bexI [of _ "(k, c)"]) simp_all
qed

lemma keyed_pruned: "keyed store \<Longrightarrow> keyed (pruneStoredChallenges env store now)"
  by (simp add: pruneStoredChallenges_def Let_def keyed_evict keyed_filter keyed_pruneExpired)

lemma create_store:
  "fst (createChallenge env store rq now i) = (let s1 = evict_terminal (length (pruneStoredChallenges env store now))
     (maxChallenges env - 1) (pruneStoredChallenges env store now) in
     if int (length s1) < maxChallenges env then jm_set s1 i (new_challenge env rq now i) else s1)"
  by (simp add: createChallenge_def ensureCapacityForNewChallenge_def Let_def)

lemma invalidate_challenge_evolves:
  "jm_get store i = Some c \<Longrightarrow> \<exists>c'. fst (invalidateChallenge env store i reason message now) = jm_set store i c' \<and> evolves c c'"
  by (auto simp: invalidateChallenge_def Let_def evolves_def same_core_def)

lemma find_stored: "List.find P (jm_values store) = Some c \<Longrightarrow> \<exists>i. (i, c) \<in> set store \<and> P c"
  using find_Some_in [of P "jm_values store" c] by (auto simp: jm_values_def)

lemma step_derived:
  assumes "keyed store" and "e \<in> set (conf_step env store op)"
  shows "derived env op store (snd e)"
proof (cases op)
  case (OpCreate rq now i)
  define s1 where "s1 = evict_terminal (length (pruneStoredChallenges env store now)) (maxChallenges env - 1)
      (pruneStoredChallenges env store now)"
  from assms(2) have "e \<in> set s1 \<or> snd e = new_challenge env rq now i"
    using set_jm_set_subset [of s1 i "new_challenge env rq now i"]
    by (auto simp: OpCreate create_store s1_def [symmetric] Let_def split: if_splits)
  moreover have "set s1 \<subseteq> set (pruneStoredChallenges env store now)" unfolding s1_def by (rule set_evict)
  ultimately show ?thesis
    using pruned_derived [of e env store now] der_new [OF OpCreate, of env store] by (auto intro: der_evolve)
next
  case (OpApprove ap now token)
  show ?thesis
  proof (cases "jm_get store (ap_challengeId ap)")
    case None
    with assms(2) show ?thesis by (auto simp: OpApprove approveChallenge_def intro: der_evolve)
  next
    case (Some c)
    note kc = jm_get_set [OF Some]
    have "derived env op store (fst (decide_challenge env c ap now token))"
      using decide_cases [of c env ap now token] der_grant [OF OpApprove kc, of env] der_evolve [OF kc, of _ env op] by auto
    with assms(1) kc show ?thesis
      using assms(2) by (rule_tac on_challenge_derived) (auto simp: OpApprove approveChallenge_def Some)
  qed
next
  case (OpRedeem rd now)
  show ?thesis
  proof (cases "List.find (\<lambda>c. cc_tokenHash c = Some (hashToken env (rd_token rd))) (jm_values store)")
    case None
    with assms(2) show ?thesis by (auto simp: OpRedeem redeemToken_def intro: der_evolve)
  next
    case (Some c)
    obtain i where kc: "(i, c) \<in> set store" using find_stored [OF Some] by blast
    have "derived env op store (fst (redeem_challenge env c rd now))"
      using der_evolve [OF kc] redeem_evolves by simp
    with assms(1) kc show ?thesis
      using assms(2) by (rule_tac on_challenge_derived) (auto simp: OpRedeem redeemToken_def Some)
  qed
next
  case (OpGetToken i h now)
  show ?thesis
  proof (cases "jm_get store i")
    case None
    with assms(2) show ?thesis by (auto simp: OpGetToken getRequesterToken_def intro: der_evolve)
  next
    case (Some c)
    note kc = jm_get_set [OF Some]
    have "derived env op store c" using der_evolve [OF kc] by simp
    with assms(1) kc show ?thesis
      using assms(2) by (rule_tac on_challenge_derived) (auto simp: OpGetToken getRequesterToken_def Some)
  qed
next
  case (OpInvalidate i reason message now)
  show ?thesis
  proof (cases "jm_get store i")
    case None
    with assms(2) show ?thesis by (auto simp: OpInvalidate invalidateChallenge_def intro: der_evolve)
  next
    case (Some c)
    with invalidate_challenge_evolves [OF Some, of env reason message now] obtain c'
      where "fst (invalidateChallenge env store i reason message now) = jm_set store i c'" "evolves c c'" by blast
    with assms(2) der_evolve [OF jm_get_set [OF Some], of c' env op] show ?thesis
      by (simp add: OpInvalidate derived_set_jm_set)
  qed
next
  case (OpGet i now)
  with assms(2) pruned_derived [of e env store now] show ?thesis
    by (auto simp: getChallenge_def Let_def intro: der_evolve)
qed

lemma redeemed_id: "cc_challengeId (fst (redeem_challenge env c rd now)) = cc_challengeId c"
  using same_core_id [OF redeem_evolves] .

lemma grant_id: "cc_challengeId (fst (grant_challenge env c ap now token)) = cc_challengeId c"
  by (simp add: grant_challenge_def Let_def)

lemma decide_id: "cc_challengeId (fst (decide_challenge env c ap now token)) = cc_challengeId c"
  using decide_cases [of c env ap now token] by (auto simp: same_core_id grant_id)

lemma keyed_on_challenge:
  "keyed store \<Longrightarrow> cc_challengeId (fst (act c)) = cc_challengeId c \<Longrightarrow> keyed (fst (on_challenge env store c now b act))"
  unfolding on_challenge_fst by (rule keyed_set) (auto simp: same_core_id [OF expire_evolves] split: option.split)

lemma length_on_challenge:
  "keyed store \<Longrightarrow> (i, c) \<in> set store \<Longrightarrow> length (fst (on_challenge env store c now b act)) = length store"
  unfolding on_challenge_fst by (rule length_jm_set_same) (force simp: keyed_def)

lemma keyed_step: "keyed store \<Longrightarrow> keyed (conf_step env store op)"
proof (induction op)
  case (OpCreate rq now i)
  then show ?case
    by (auto simp: create_store Let_def intro!: keyed_set keyed_evict keyed_pruned)
      (simp add: new_challenge_def Let_def)
next
  case (OpInvalidate i reason message now)
  then show ?case using jm_get_set [of store i]
    by (cases "jm_get store i") (auto simp: invalidateChallenge_def Let_def dest: keyedD intro!: keyed_set)
next
  case (OpGet i now)
  then show ?case by (simp add: getChallenge_def Let_def keyed_pruned)
qed (auto simp: approveChallenge_def redeemToken_def getRequesterToken_def keyed_on_challenge decide_id redeemed_id
    split: option.split)

section \<open>The invariant\<close>

text \<open>What a challenge stands for is fixed by the decision and the parameters it was made from; an approved one
  carries a token and was granted by an authenticated party other than the requester.\<close>

definition bound_to_decision :: "conf_env \<Rightarrow> challenge \<Rightarrow> bool" where
  "bound_to_decision env c \<longleftrightarrow> cc_canonicalParamsHash c = hashCanonicalParams env (cc_canonicalParams c) \<and>
     cc_nodeId c = hd_nodeId (cc_decision c) \<and> cc_intent c = hd_intent (cc_decision c) \<and>
     cc_requiredBits c = hd_requiredBits (cc_decision c) \<and> cc_challengeBits c = hd_challengeBits (cc_decision c) \<and>
     cc_scopeHash c = scope_hash (ce_numstr env) (ce_sha env) (hd_scope (cc_decision c))"

definition distinctly_approved :: "conf_env \<Rightarrow> challenge \<Rightarrow> bool" where
  "distinctly_approved env c \<longleftrightarrow> (\<exists>h. cc_approverAuthSessionHash c = Some h \<and> h \<noteq> cc_requesterAuthSessionHash c) \<and>
     (requiresStructuredApprover c \<longrightarrow> cc_approver c \<noteq> None) \<and>
     (\<forall>a. cc_approver c = Some a \<longrightarrow>
        \<not> sameHighRiskActor (ce_sha env) (Some (cc_requester c)) (Some a) \<and>
        \<not> sameHighRiskCredential (ce_sha env) (Some (cc_requester c)) (Some a) \<and>
        \<not> sameHighRiskSession (ce_sha env) (Some (cc_requester c)) (Some a) \<and>
        approverSatisfiesTarget a (cc_approvalTarget c))"

definition challenge_ok :: "conf_env \<Rightarrow> challenge \<Rightarrow> bool" where
  "challenge_ok env c \<longleftrightarrow> bound_to_decision env c \<and>
     (cc_status c = CsPending \<longrightarrow> cc_tokenHash c = None \<and> cc_approver c = None) \<and>
     (cc_status c = CsApproved \<longrightarrow> cc_tokenHash c \<noteq> None \<and> distinctly_approved env c)"

definition conf_inv :: "conf_env \<Rightarrow> conf_store \<Rightarrow> bool" where
  "conf_inv env store \<longleftrightarrow> keyed store \<and> (\<forall>e\<in>set store. challenge_ok env (snd e)) \<and>
     (\<forall>e\<in>set store. \<forall>d\<in>set store. \<forall>h. cc_tokenHash (snd e) = Some h \<longrightarrow> cc_tokenHash (snd d) = Some h \<longrightarrow> fst e = fst d) \<and>
     int (length store) \<le> maxChallenges env"

lemma requires_core: "same_core c c' \<Longrightarrow> requiresStructuredApprover c' = requiresStructuredApprover c"
  by (simp add: same_core_def requiresStructuredApprover_def)

lemma challenge_ok_evolves:
  assumes "challenge_ok env c" "evolves c c'"
  shows "challenge_ok env c'"
proof -
  have "bound_to_decision env c'"
    using assms(1,2) by (simp add: challenge_ok_def bound_to_decision_def evolves_def same_core_def)
  moreover have "cc_status c' = CsPending \<longrightarrow> cc_tokenHash c' = None \<and> cc_approver c' = None"
    using assms(1,2) by (auto simp: challenge_ok_def evolves_def)
  moreover have "cc_status c' = CsApproved \<longrightarrow> cc_tokenHash c' \<noteq> None \<and> distinctly_approved env c'"
    using assms(1,2) requires_core [of c c']
    by (auto simp: challenge_ok_def evolves_def distinctly_approved_def same_core_def)
  ultimately show ?thesis by (simp add: challenge_ok_def)
qed

lemma challenge_ok_new: "challenge_ok env (new_challenge env rq now i)"
  by (simp add: challenge_ok_def bound_to_decision_def new_challenge_def Let_def)

lemma challenge_ok_grant:
  assumes "challenge_ok env c" "grantable env c ap"
  shows "challenge_ok env (fst (grant_challenge env c ap now token))"
  using assms
  by (auto simp: challenge_ok_def bound_to_decision_def grantable_def distinctly_approved_def grant_challenge_def Let_def
      requiresStructuredApprover_def nullish_def split: option.splits)

lemma challenge_ok_derived:
  "derived env op store c' \<Longrightarrow> (\<forall>e\<in>set store. challenge_ok env (snd e)) \<Longrightarrow> challenge_ok env c'"
  by (induction rule: derived.induct) (force intro: challenge_ok_evolves challenge_ok_new challenge_ok_grant)+

text \<open>A token hash of a derived challenge is the one of its origin or of the token just granted.\<close>

lemma derived_token:
  assumes "derived env op store c'" "cc_tokenHash c' = Some h"
  shows "(\<exists>e\<in>set store. evolves (snd e) c' \<and> cc_tokenHash (snd e) = Some h) \<or>
    (\<exists>ap now token. op = OpApprove ap now token \<and> h = hashToken env token \<and> ap_challengeId ap \<in> fst ` set store \<and>
      (keyed store \<longrightarrow> cc_challengeId c' = ap_challengeId ap))"
  using assms
proof (induction rule: derived.induct)
  case (der_evolve e c')
  then show ?case by (auto simp: evolves_def)
next
  case (der_grant ap now token c)
  then show ?case
    by (auto simp: grant_challenge_def Let_def dest: keyedD intro!: rev_image_eqI [of "(ap_challengeId ap, c)"])
qed (simp add: new_challenge_def Let_def)

lemma tokens_unique_step:
  assumes inv: "conf_inv env store" and ok: "conf_op_ok env store op"
    and e: "e \<in> set (conf_step env store op)" "cc_tokenHash (snd e) = Some h"
    and d: "d \<in> set (conf_step env store op)" "cc_tokenHash (snd d) = Some h"
  shows "fst e = fst d"
proof -
  have keyed: "keyed store" "keyed (conf_step env store op)" using inv by (simp_all add: conf_inv_def keyed_step)
  have stored: "cc_challengeId (snd a) = cc_challengeId (snd b)"
    if "a \<in> set store" "b \<in> set store" "cc_tokenHash (snd a) = Some h" "cc_tokenHash (snd b) = Some h" for a b
    using inv that keyedD [OF keyed(1)] by (metis conf_inv_def)
  have fresh: "cc_tokenHash (snd a) \<noteq> Some (hashToken env token)" if "a \<in> set store" "op = OpApprove ap now token" for a ap now token
    using ok that by (auto simp: list_all_iff jm_values_def)
  let ?old = "\<lambda>c. \<exists>a\<in>set store. cc_challengeId c = cc_challengeId (snd a) \<and> cc_tokenHash (snd a) = Some h"
  let ?granted = "\<lambda>c. \<exists>ap now token. op = OpApprove ap now token \<and> h = hashToken env token \<and>
    cc_challengeId c = ap_challengeId ap"
  have origin: "?old (snd a) \<or> ?granted (snd a)" if "a \<in> set (conf_step env store op)" "cc_tokenHash (snd a) = Some h" for a
    using derived_token [OF step_derived [OF keyed(1) that(1)] that(2)] keyed(1) same_core_id by blast
  have excl: "\<not> (?old c \<and> ?granted c')" for c c' using fresh by blast
  have "cc_challengeId (snd e) = cc_challengeId (snd d)"
  proof (cases "?old (snd e)")
    case True
    with origin [OF d] excl have "?old (snd d)" by blast
    with True stored show ?thesis by metis
  next
    case False
    with origin [OF e] have "?granted (snd e)" by blast
    moreover from this origin [OF d] excl have "?granted (snd d)" by blast
    ultimately show ?thesis by (elim exE conjE) simp
  qed
  then show ?thesis using keyedD [OF keyed(2)] e(1) d(1) by simp
qed

lemma length_pruneExpired [simp]: "length (pruneExpired env store now) = length store"
  by (simp add: pruneExpired_def)

lemma length_evict_le: "length (evict_terminal n limit store) \<le> length store"
  using evict_is_filter [of n limit store] length_filter_le by metis

lemma length_pruned_le: "length (pruneStoredChallenges env store now) \<le> length store"
  unfolding pruneStoredChallenges_def Let_def
  by (rule order.trans [OF length_evict_le]) (rule order.trans [OF length_filter_le], simp)

lemma size_step:
  assumes "keyed store" "int (length store) \<le> maxChallenges env"
  shows "int (length (conf_step env store op)) \<le> maxChallenges env"
proof (cases op)
  case (OpCreate rq now i)
  define s1 where "s1 = evict_terminal (length (pruneStoredChallenges env store now)) (maxChallenges env - 1)
      (pruneStoredChallenges env store now)"
  have "length s1 \<le> length store"
    unfolding s1_def using length_evict_le length_pruned_le le_trans by blast
  with assms(2) length_jm_set_le [of s1 i "new_challenge env rq now i"] show ?thesis
    by (auto simp: OpCreate create_store s1_def [symmetric] Let_def)
next
  case (OpApprove ap now token)
  with assms length_on_challenge [OF assms(1) jm_get_set] show ?thesis
    by (auto simp: approveChallenge_def split: option.split)
next
  case (OpRedeem rd now)
  with assms length_on_challenge [OF assms(1)] show ?thesis
    by (auto simp: redeemToken_def split: option.split dest!: find_stored)
next
  case (OpGetToken i h now)
  with assms length_on_challenge [OF assms(1) jm_get_set] show ?thesis
    by (auto simp: getRequesterToken_def split: option.split)
next
  case (OpInvalidate i reason message now)
  have "i \<in> set (map fst store)" if "jm_get store i = Some c" for c using jm_get_set [OF that] by force
  with assms OpInvalidate show ?thesis
    by (auto simp: invalidateChallenge_def Let_def length_jm_set_same split: option.split)
next
  case (OpGet i now)
  with assms(2) length_pruned_le [of env store now] show ?thesis by (simp add: getChallenge_def Let_def)
qed

lemma conf_inv_step: "conf_inv env store \<Longrightarrow> conf_op_ok env store op \<Longrightarrow> conf_inv env (conf_step env store op)"
  unfolding conf_inv_def [of env "conf_step env store op"]
proof (intro conjI ballI allI impI)
  assume inv: "conf_inv env store" and "conf_op_ok env store op"
  then show "keyed (conf_step env store op)" "int (length (conf_step env store op)) \<le> maxChallenges env"
    by (simp_all add: conf_inv_def keyed_step size_step)
  show "challenge_ok env (snd e)" if "e \<in> set (conf_step env store op)" for e
    using challenge_ok_derived [OF step_derived [OF _ that]] inv unfolding conf_inv_def by blast
next
  fix e d h
  assume "conf_inv env store" "conf_op_ok env store op" "e \<in> set (conf_step env store op)" "cc_tokenHash (snd e) = Some h"
    "d \<in> set (conf_step env store op)" "cc_tokenHash (snd d) = Some h"
  then show "fst e = fst d" by (rule tokens_unique_step [of env store op e h d])
qed

lemma conf_inv_empty: "conf_inv env []"
  by (simp add: conf_inv_def keyed_def jm_wf_def maxChallenges_def)

interpretation confirmation: state_machine "conf_step env" "conf_op_ok env" "conf_inv env" for env
  by unfold_locales (rule conf_inv_step)

section \<open>What a redemption proves\<close>

lemma stable_str_list:
  "num_printer numstr \<Longrightarrow> stableStringify numstr (str_list xs) = stableStringify numstr (str_list ys) \<longleftrightarrow> xs = ys"
proof -
  assume p: "num_printer numstr"
  have "map (canon \<circ> JStr) xs = map JStr xs" for xs by (induction xs) simp_all
  then show ?thesis using p by (auto simp: stable_eq str_list_def inj_map_eq_map inj_def o_def)
qed

lemma hub_scope_name_inj [simp]: "hub_scope_name k = hub_scope_name l \<longleftrightarrow> k = l"
proof -
  have "policy_scope_name a = policy_scope_name b \<longleftrightarrow> a = b" for a b
    by (cases a; cases b) simp_all
  moreover have "policy_scope_name a \<noteq> ''local-compatibility''" "''local-compatibility'' \<noteq> policy_scope_name a"
    "policy_scope_name a \<noteq> ''node-cwd''" "''node-cwd'' \<noteq> policy_scope_name a"
    "policy_scope_name a \<noteq> ''worktree''" "''worktree'' \<noteq> policy_scope_name a" for a
    by (cases a; simp)+
  ultimately show ?thesis by (cases k; cases l) simp_all
qed

lemma scope_json_object:
  "scope_json sc = JObj (case scope_json sc of JObj kvs \<Rightarrow> kvs | _ \<Rightarrow> [])"
  by (simp add: scope_json_def)

lemma stable_scope_inj:
  assumes "num_printer numstr" "stableStringify numstr (scope_json a) = stableStringify numstr (scope_json b)"
  shows "a = b"
proof -
  define fs where "fs sc = (case scope_json sc of JObj kvs \<Rightarrow> kvs | _ \<Rightarrow> [])" for sc
  have keys: "distinct (map fst (fs sc))" for sc
    by (auto simp: fs_def scope_json_def opt_member_def split: option.split)
  have "canon (JObj (fs a)) = canon (JObj (fs b))"
    using assms by (simp add: stable_eq fs_def scope_json_object [symmetric])
  then have member: "map_option canon (map_of (defined_members (fs a)) k) = map_option canon (map_of (defined_members (fs b)) k)" for k
    using canon_objects_eq [OF keys keys] by blast
  let ?get = "\<lambda>sc k. map_option canon (map_of (defined_members (fs sc)) k)"
  note unf = fs_def scope_json_def opt_member_def defined_members_def
  have o: "map_of (filter (\<lambda>kv. snd kv \<noteq> JUndef) (opt_member k v)) k' = (if k' = k then map_option JStr v else None)"
    "map_of (opt_member k v) k' = (if k' = k then map_option JStr v else None)" for k k' v
    by (simp_all add: opt_member_def split: option.split)
  have w: "map_of (filter (\<lambda>kv. snd kv \<noteq> JUndef) (case v of None \<Rightarrow> [] | Some None \<Rightarrow> [(''worktreePath'', JNull)]
      | Some (Some p) \<Rightarrow> [(''worktreePath'', JStr p)])) k' =
      (if k' = ''worktreePath'' then map_option (\<lambda>w. case w of None \<Rightarrow> JNull | Some p \<Rightarrow> JStr p) v else None)" for v k'
    by (auto split: option.split)
  have c: "canon (case x of None \<Rightarrow> JNull | Some p \<Rightarrow> JStr p) = (case x of None \<Rightarrow> JNull | Some p \<Rightarrow> JStr p)" for x
    by (cases x) simp_all
  have gets: "?get sc ''kind'' = Some (JStr (hub_scope_name (hs_kind sc)))" "?get sc ''nodeId'' = Some (JStr (hs_nodeId sc))"
    "?get sc ''cwd'' = map_option JStr (hs_cwd sc)" "?get sc ''path'' = map_option JStr (hs_path sc)"
    "?get sc ''workspaceId'' = map_option JStr (hs_workspaceId sc)" "?get sc ''repoId'' = map_option JStr (hs_repoId sc)"
    "?get sc ''repoPath'' = map_option JStr (hs_repoPath sc)"
    "?get sc ''worktreePath'' = map_option (\<lambda>w. case w of None \<Rightarrow> JNull | Some p \<Rightarrow> JStr p) (hs_worktreePath sc)" for sc
    by (auto simp: fs_def scope_json_def defined_members_def map_add_def o w c option.map_comp o_def split: option.split)
  have str: "map_option JStr v = map_option JStr w \<longleftrightarrow> v = w" for v w
    by (cases v; cases w) simp_all
  have wt: "map_option (\<lambda>w. case w of None \<Rightarrow> JNull | Some p \<Rightarrow> JStr p) v =
      map_option (\<lambda>w. case w of None \<Rightarrow> JNull | Some p \<Rightarrow> JStr p) u \<longleftrightarrow> v = u" for v u
    by (cases v; cases u) (auto split: option.splits)
  show ?thesis
    using member [of "''kind''"] member [of "''nodeId''"] member [of "''cwd''"] member [of "''path''"]
      member [of "''workspaceId''"] member [of "''repoId''"] member [of "''repoPath''"] member [of "''worktreePath''"]
    unfolding gets str wt by (intro hub_scope.equality) simp_all
qed

text \<open>A success of \<open>redeemToken\<close> comes from an approved challenge that passed every guard.\<close>

lemma redeem_success:
  assumes "snd (redeem_challenge env c rd now) = ConfSuccess m c' t a"
  shows "cc_status c = CsApproved \<and> cc_requesterAuthSessionHash c = rd_requesterAuthSessionHash rd \<and>
    challengeContextMatches env c (rd_decision rd) \<and>
    cc_canonicalParamsHash c = hashCanonicalParams env (rd_canonicalParams rd) \<and>
    cc_status (fst (redeem_challenge env c rd now)) = CsRedeemed"
  using assms
  by (auto simp: redeem_challenge_def failChallenge_def invalidateRedemptionChallenge_def Let_def split: if_splits)

lemma on_challenge_success:
  assumes "snd (on_challenge env store c now b act) = ConfSuccess m c' t a"
  shows "expireIfNeeded env c now b = (c, None) \<and> snd (act c) = ConfSuccess m c' t a \<and>
    fst (on_challenge env store c now b act) = jm_set store (cc_challengeId c) (fst (act c))"
proof (cases "expireIfNeeded env c now b")
  case (Pair c1 f)
  with assms expire_None [of env c now b] show ?thesis
    by (cases f) (auto simp: on_challenge_def expireIfNeeded_def Let_def split: prod.splits if_splits)
qed

lemma not_expired:
  "expireIfNeeded env c now True = (c, None) \<Longrightarrow> \<not> isTerminalChallengeStatus (cc_status c) \<Longrightarrow>
    ce_dp env (cc_expiresAt c) = Some t \<Longrightarrow> now < t"
  by (auto simp: expireIfNeeded_def Let_def split: if_splits)

lemma redeemToken_success:
  assumes "snd (redeemToken env store rd now) = ConfSuccess m c' t a"
  obtains i c where "(i, c) \<in> set store" "cc_tokenHash c = Some (hashToken env (rd_token rd))"
    "expireIfNeeded env c now True = (c, None)" "snd (redeem_challenge env c rd now) = ConfSuccess m c' t a"
    "fst (redeemToken env store rd now) = jm_set store (cc_challengeId c) (fst (redeem_challenge env c rd now))"
proof -
  obtain c where c: "List.find (\<lambda>c. cc_tokenHash c = Some (hashToken env (rd_token rd))) (jm_values store) = Some c"
    using assms by (auto simp: redeemToken_def split: option.splits)
  with assms have "snd (on_challenge env store c now True (\<lambda>c. redeem_challenge env c rd now)) = ConfSuccess m c' t a"
    by (simp add: redeemToken_def)
  from on_challenge_success [OF this] find_stored [OF c] that c show ?thesis
    by (auto simp: redeemToken_def)
qed

text \<open>C6: A token is redeemed only with full authority: in every reachable store, a redemption that succeeds comes
  from a stored challenge that is approved, not expired and holds the hash of the token; that was approved from another auth
  session and, where the approver is known, by a different actor, credential and session that satisfies the target;
  and that was created by the redeeming auth session for a decision on the same node, action, target, session, bits
  and scope and for parameters with the same stable serialisation. SHA-256 is taken without collisions.\<close>

theorem redemption_is_authorised:
  assumes "reachable (conf_step env) (conf_op_ok env) [] store"
    and "num_printer (ce_numstr env)" and "inj (ce_sha env)"
    and "snd (redeemToken env store rd now) = ConfSuccess m c' t a"
  shows "\<exists>c \<in> set (jm_values store).
    cc_status c = CsApproved \<and> cc_tokenHash c = Some (hashToken env (rd_token rd)) \<and>
    (\<forall>e. ce_dp env (cc_expiresAt c) = Some e \<longrightarrow> now < e) \<and> distinctly_approved env c \<and>
    cc_requesterAuthSessionHash c = rd_requesterAuthSessionHash rd \<and>
    hd_nodeId (cc_decision c) = hd_nodeId (rd_decision rd) \<and>
    hi_action (hd_intent (cc_decision c)) = hi_action (hd_intent (rd_decision rd)) \<and>
    hi_target (hd_intent (cc_decision c)) = hi_target (hd_intent (rd_decision rd)) \<and>
    cc_sessionId c = hd_sessionId (rd_decision rd) \<and>
    hd_requiredBits (cc_decision c) = hd_requiredBits (rd_decision rd) \<and>
    hd_challengeBits (cc_decision c) = hd_challengeBits (rd_decision rd) \<and>
    hd_scope (cc_decision c) = hd_scope (rd_decision rd) \<and>
    stableStringify (ce_numstr env) (cc_canonicalParams c) = stableStringify (ce_numstr env) (rd_canonicalParams rd)"
proof -
  have inv: "conf_inv env store"
    using confirmation.reachable_inv [OF assms(1) conf_inv_empty] .
  from redeemToken_success [OF assms(4)] obtain i c where c: "(i, c) \<in> set store"
      "cc_tokenHash c = Some (hashToken env (rd_token rd))" "expireIfNeeded env c now True = (c, None)"
      "snd (redeem_challenge env c rd now) = ConfSuccess m c' t a" by metis
  note ok = redeem_success [OF c(4)]
  have cok: "challenge_ok env c" using inv c(1) by (force simp: conf_inv_def)
  have live: "\<not> isTerminalChallengeStatus (cc_status c)" using ok by (simp add: isTerminalChallengeStatus_def)
  have bound: "bound_to_decision env c" and other: "distinctly_approved env c"
    using cok ok by (simp_all add: challenge_ok_def)
  have "stableStringify (ce_numstr env) (scope_json (hd_scope (cc_decision c))) =
      stableStringify (ce_numstr env) (scope_json (hd_scope (rd_decision rd)))"
    using ok bound assms(3) by (simp add: challengeContextMatches_def bound_to_decision_def scope_hash_def inj_eq)
  then have scope: "hd_scope (cc_decision c) = hd_scope (rd_decision rd)" by (rule stable_scope_inj [OF assms(2)])
  have params: "stableStringify (ce_numstr env) (cc_canonicalParams c) = stableStringify (ce_numstr env) (rd_canonicalParams rd)"
    using ok bound assms(3) by (simp add: bound_to_decision_def hashCanonicalParams_def inj_eq)
  have "c \<in> set (jm_values store)" using c(1) by (force simp: jm_values_def)
  then show ?thesis
    using ok bound other scope params c(2) not_expired [OF c(3) live]
    by (intro bexI [of _ c]) (auto simp: challengeContextMatches_def bound_to_decision_def stable_str_list [OF assms(2)])
qed

text \<open>No challenge that can still be redeemed has the token hash \<open>h\<close>.\<close>

definition spent :: "string \<Rightarrow> conf_store \<Rightarrow> bool" where
  "spent h store \<longleftrightarrow> keyed store \<and> (\<forall>e\<in>set store. cc_tokenHash (snd e) = Some h \<longrightarrow> cc_status (snd e) \<noteq> CsApproved)"

text \<open>Events that do not issue a token with that hash.\<close>

fun issues_other :: "conf_env \<Rightarrow> string \<Rightarrow> conf_op \<Rightarrow> bool" where
  "issues_other env h (OpApprove ap now token) = (hashToken env token \<noteq> h)"
| "issues_other env h _ = True"

lemma spent_step: "spent h store \<Longrightarrow> issues_other env h op \<Longrightarrow> spent h (conf_step env store op)"
  unfolding spent_def [of h "conf_step env store op"]
proof (intro conjI ballI impI)
  assume s: "spent h store" and i: "issues_other env h op"
  then show "keyed (conf_step env store op)" by (simp add: spent_def keyed_step)
  fix e assume e: "e \<in> set (conf_step env store op)" "cc_tokenHash (snd e) = Some h"
  have "keyed store" using s by (simp add: spent_def)
  from step_derived [OF this e(1)] e(2) i s show "cc_status (snd e) \<noteq> CsApproved"
    by (induction rule: derived.induct) (auto simp: grant_challenge_def Let_def new_challenge_def evolves_def spent_def)
qed

interpretation spent_token: state_machine "conf_step env" "\<lambda>_. issues_other env h" "spent h" for env h
  by unfold_locales (rule spent_step)

text \<open>C24: A token is good for one redemption: after it has been redeemed in a reachable store, no sequence of
  events in which no token of the same hash is issued anew lets it be redeemed again, by anyone and at any time.\<close>

theorem token_is_single_use:
  assumes "reachable (conf_step env) (conf_op_ok env) [] store"
    and "snd (redeemToken env store rd now) = ConfSuccess m c t a"
    and "list_all (issues_other env (hashToken env (rd_token rd))) ops"
    and "rd_token rd' = rd_token rd"
  shows "\<exists>r m' c' a'. snd (redeemToken env (run (conf_step env) (fst (redeemToken env store rd now)) ops) rd' now') =
    ConfFailure r m' c' a'"
proof -
  let ?h = "hashToken env (rd_token rd)"
  have inv: "conf_inv env store"
    using confirmation.reachable_inv [OF assms(1) conf_inv_empty] .
  then have keyed: "keyed store" by (simp add: conf_inv_def)
  from redeemToken_success [OF assms(2)] obtain i d where d: "(i, d) \<in> set store" "cc_tokenHash d = Some ?h"
      "snd (redeem_challenge env d rd now) = ConfSuccess m c t a"
      "fst (redeemToken env store rd now) = jm_set store (cc_challengeId d) (fst (redeem_challenge env d rd now))" by metis
  have "fst e = i" if "e \<in> set store" "cc_tokenHash (snd e) = Some ?h" for e
    using inv that d(1,2) unfolding conf_inv_def by (metis fst_conv snd_conv)
  moreover have "i = cc_challengeId d" using keyedD [OF keyed d(1)] by simp
  ultimately have "spent ?h (fst (redeemToken env store rd now))"
    using keyed redeem_success [OF d(3)]
    by (auto simp: spent_def d(4) set_jm_set keyed_def redeemed_id jm_wf_set)
  moreover have "all_ok (conf_step env) (\<lambda>_. issues_other env ?h) s ops" for s
    using assms(3) by (induction ops arbitrary: s) simp_all
  ultimately have end_spent: "spent ?h (run (conf_step env) (fst (redeemToken env store rd now)) ops)"
    by (rule spent_token.run_inv)
  show ?thesis
  proof (cases "snd (redeemToken env (run (conf_step env) (fst (redeemToken env store rd now)) ops) rd' now')")
    case (ConfSuccess m' c' t' a')
    from redeemToken_success [OF this] obtain j f where "(j, f) \<in> set (run (conf_step env) (fst (redeemToken env store rd now)) ops)"
      "cc_tokenHash f = Some ?h" "snd (redeem_challenge env f rd' now') = ConfSuccess m' c' t' a'" unfolding assms(4) by metis
    with redeem_success [OF this(3)] end_spent show ?thesis by (force simp: spent_def)
  qed auto
qed

section \<open>Capacity\<close>

abbreviation live :: "challenge \<Rightarrow> bool" where
  "live c \<equiv> \<not> isTerminalChallengeStatus (cc_status c)"

lemma expire_live: "live (fst (expireIfNeeded env c now b)) \<Longrightarrow> fst (expireIfNeeded env c now b) = c"
proof -
  have "cc_status (fst (expireIfNeeded env c now b)) = CsExpired \<or> fst (expireIfNeeded env c now b) = c"
    by (simp add: expireIfNeeded_def Let_def)
  then show "live (fst (expireIfNeeded env c now b)) \<Longrightarrow> ?thesis" by (auto simp: isTerminalChallengeStatus_def)
qed

lemma filter_absorb: "\<forall>x\<in>set xs. Q x \<longrightarrow> P x \<Longrightarrow> filter Q (filter P xs) = filter Q xs"
  by (induction xs) auto

lemma evict_live:
  assumes "keyed store"
  shows "filter (\<lambda>e. live (snd e)) (evict_terminal n limit store) = filter (\<lambda>e. live (snd e)) store"
proof -
  obtain P where P: "evict_terminal n limit store = filter P store" "\<forall>e\<in>set store. live (snd e) \<longrightarrow> P e"
    using evict_is_filter [of n limit store] assms by blast
  then show ?thesis by (simp only: filter_absorb)
qed

text \<open>With one round per challenge the loop ends below the limit or with live challenges only.\<close>

lemma evict_enough:
  "keyed store \<Longrightarrow> length store \<le> n \<Longrightarrow> int (length (evict_terminal n limit store)) \<le> limit \<or>
    (\<forall>e\<in>set (evict_terminal n limit store). live (snd e))"
proof (induction n arbitrary: store)
  case (Suc n)
  show ?case
  proof (cases "List.find (\<lambda>c. isTerminalChallengeStatus (cc_status c)) (jm_values store)")
    case None
    then have "evict_terminal (Suc n) limit store = store" by simp
    with None show ?thesis by (simp only: find_None_all) (simp add: jm_values_def)
  next
    case (Some c)
    obtain k where k: "(k, c) \<in> set store" using find_stored [OF Some] by blast
    have "length (jm_delete store (cc_challengeId c)) < length store"
      unfolding jm_delete_def by (rule length_filter_less [OF k]) (use keyedD [OF Suc.prems(1) k] in simp)
    then have "length (jm_delete store (cc_challengeId c)) \<le> n" using Suc.prems(2) by linarith
    with Suc.IH [of "jm_delete store (cc_challengeId c)"] Suc.prems(1) Some show ?thesis
      by (auto simp: jm_delete_def keyed_filter)
  qed
qed simp

definition live_at :: "conf_env \<Rightarrow> conf_store \<Rightarrow> int \<Rightarrow> conf_store" where
  "live_at env store now = filter (\<lambda>e. live (fst (expireIfNeeded env (snd e) now True))) store"

lemma pruned_live:
  assumes "keyed store"
  shows "filter (\<lambda>e. live (snd e)) (pruneStoredChallenges env store now) = live_at env store now"
proof -
  have "filter (\<lambda>e. live (snd e)) (pruneStoredChallenges env store now) =
      filter (\<lambda>e. live (snd e)) (pruneExpired env store now)"
    unfolding pruneStoredChallenges_def Let_def evict_live [OF keyed_filter [OF keyed_pruneExpired [OF assms]]]
    by (rule filter_absorb) (simp add: stale_def split_def)
  also have "\<dots> = live_at env store now"
    unfolding pruneExpired_def live_at_def filter_map o_def by (rule map_idI [THEN trans]) (auto simp: expire_live split_def)
  finally show ?thesis .
qed

text \<open>The store never outgrows its limit, and the limit never costs a live challenge: in every reachable store a
  new challenge is refused exactly when the challenges that are live at that time already fill the store, and whether
  it is refused or not, each of them is kept as it is.\<close>

theorem capacity_spares_live_challenges:
  assumes "reachable (conf_step env) (conf_op_ok env) [] store"
  shows "int (length store) \<le> maxChallenges env \<and>
    (snd (createChallenge env store rq now i) = None \<longleftrightarrow> maxChallenges env \<le> int (length (live_at env store now))) \<and>
    (\<forall>e \<in> set (live_at env store now). fst e \<noteq> i \<longrightarrow>
       jm_get (fst (createChallenge env store rq now i)) (fst e) = Some (snd e))"
proof -
  have inv: "conf_inv env store"
    using confirmation.reachable_inv [OF assms conf_inv_empty] .
  then have keyed: "keyed store" by (simp add: conf_inv_def)
  define s0 where "s0 = pruneStoredChallenges env store now"
  define s1 where "s1 = evict_terminal (length s0) (maxChallenges env - 1) s0"
  have k: "keyed s0" "keyed s1" unfolding s1_def s0_def by (simp_all add: keyed keyed_pruned keyed_evict)
  have l: "filter (\<lambda>e. live (snd e)) s1 = live_at env store now"
    unfolding s1_def evict_live [OF k(1)] unfolding s0_def by (rule pruned_live [OF keyed])
  have fits: "int (length s1) < maxChallenges env \<longleftrightarrow> int (length (live_at env store now)) < maxChallenges env"
  proof
    assume "int (length s1) < maxChallenges env"
    then show "int (length (live_at env store now)) < maxChallenges env"
      using length_filter_le [of "\<lambda>e. live (snd e)" s1] unfolding l by linarith
  next
    assume few: "int (length (live_at env store now)) < maxChallenges env"
    from evict_enough [OF k(1) order.refl, of "maxChallenges env - 1"]
    show "int (length s1) < maxChallenges env"
    proof
      assume "\<forall>e\<in>set (evict_terminal (length s0) (maxChallenges env - 1) s0). live (snd e)"
      then have "filter (\<lambda>e. live (snd e)) s1 = s1" by (simp add: s1_def)
      with l few show ?thesis by simp
    qed (simp add: s1_def)
  qed
  have create: "createChallenge env store rq now i = (if int (length s1) < maxChallenges env
      then (jm_set s1 i (new_challenge env rq now i), Some (new_challenge env rq now i)) else (s1, None))"
    by (simp add: createChallenge_def ensureCapacityForNewChallenge_def Let_def s0_def s1_def)
  have stored: "jm_get s1 (fst e) = Some (snd e)" if "e \<in> set (live_at env store now)" for e
  proof -
    from that have "e \<in> set (filter (\<lambda>e. live (snd e)) s1)" by (simp only: l)
    then have "(fst e, snd e) \<in> set s1" by simp
    moreover have "distinct (map fst s1)" using k(2) by (simp only: keyed_def jm_wf_def)
    ultimately show ?thesis unfolding jm_get_def by (rule map_of_is_SomeI [rotated])
  qed
  have kept: "fst e \<noteq> i \<longrightarrow> jm_get (fst (createChallenge env store rq now i)) (fst e) = Some (snd e)"
    if "e \<in> set (live_at env store now)" for e
    using stored [OF that] k(2) by (simp add: create jm.get_set keyed_def)
  show ?thesis using inv fits kept by (auto simp: create conf_inv_def)
qed

section \<open>The way through\<close>

lemma jm_set_same: "jm_get m k = Some v \<Longrightarrow> jm_set m k v = m"
  unfolding jm_get_def by (induction m k v rule: jm_set.induct) (simp_all split: if_splits)

lemma find_unique:
  "x \<in> set xs \<Longrightarrow> P x \<Longrightarrow> \<forall>y\<in>set xs. P y \<longrightarrow> y = x \<Longrightarrow> List.find P xs = Some x"
  using find_None_all [of P xs] find_Some_in [of P xs] by (cases "List.find P xs") blast+

lemma find_token:
  assumes "conf_inv env store" "jm_get store i = Some c" "cc_tokenHash c = Some h"
  shows "List.find (\<lambda>c. cc_tokenHash c = Some h) (jm_values store) = Some c"
proof (rule find_unique)
  note c = jm_get_set [OF assms(2)]
  then show "c \<in> set (jm_values store)" by (force simp: jm_values_def)
  show "\<forall>d\<in>set (jm_values store). cc_tokenHash d = Some h \<longrightarrow> d = c"
  proof (intro ballI impI)
  fix d assume "d \<in> set (jm_values store)" "cc_tokenHash d = Some h"
  then obtain k where d: "(k, d) \<in> set store" "cc_tokenHash d = Some h" by (auto simp: jm_values_def)
  have "k = i" using assms(1,3) c d unfolding conf_inv_def by (metis fst_conv snd_conv)
  with c d(1) assms(1) show "d = c"
    unfolding conf_inv_def keyed_def jm_wf_def by (metis eq_key_imp_eq_value)
  qed
qed (rule assms(3))

lemma expire_not_due:
  assumes "\<forall>t. ce_dp env (ce_toIso env t) = Some t" "cc_expiresAt c = ce_toIso env e" "now < e"
    and "b \<longrightarrow> (\<forall>x. truthy (cc_tokenExpiresAt c) = Some x \<longrightarrow> (\<exists>t. x = ce_toIso env t \<and> now < t))"
  shows "expireIfNeeded env c now b = (c, None)"
  using assms by (auto simp: expireIfNeeded_def Let_def split: option.split)

lemma approval_steps:
  assumes "reachable (conf_step env) (conf_op_ok env) [] store"
    and iso: "\<forall>t. ce_dp env (ce_toIso env t) = Some t"
    and created: "createChallenge env store rq t0 i = (s1, Some c)"
    and approver: "ap_challengeId ap = i" "grantable env c ap"
    and token: "conf_op_ok env s1 (OpApprove ap t1 token)" "token \<noteq> []"
    and times: "t1 < t0 + ce_challengeTtlMs env" "max t2 t3 < min (t0 + ce_challengeTtlMs env) (t1 + ce_tokenTtlMs env)"
    and session: "hd_sessionId (rq_decision rq) \<noteq> Some []"
  shows "\<exists>s2 m c2 a. approveChallenge env s1 ap t1 token = (s2, ConfSuccess m c2 (Some token) a) \<and>
    (\<exists>m. getRequesterToken env s2 i (rq_requesterAuthSessionHash rq) t2 = (s2, ConfSuccess m c2 (Some token) None)) \<and>
    (\<exists>m c3 a. snd (redeemToken env s2 \<lparr>rd_token = token, rd_requesterAuthSessionHash = rq_requesterAuthSessionHash rq,
        rd_decision = rq_decision rq, rd_canonicalParams = rq_canonicalParams rq\<rparr> t3) = ConfSuccess m c3 None a \<and>
      cc_status c3 = CsRedeemed)"
proof -
  have inv: "conf_inv env store"
    using confirmation.reachable_inv [OF assms(1) conf_inv_empty] .
  have s1: "s1 = conf_step env store (OpCreate rq t0 i)" using created by simp
  have inv1: "conf_inv env s1" unfolding s1 by (rule conf_inv_step [OF inv]) simp
  have c: "c = new_challenge env rq t0 i" and "\<exists>s. s1 = jm_set s i c \<and> jm_wf s"
    using created inv keyed_evict [OF keyed_pruned [of store env t0]]
    by (auto simp: createChallenge_def ensureCapacityForNewChallenge_def Let_def conf_inv_def keyed_def split: if_splits)
  then have get1: "jm_get s1 i = Some c" by (auto simp: jm.get_set)
  have fresh: "expireIfNeeded env c t1 False = (c, None)"
    by (rule expire_not_due [OF iso _ times(1)]) (simp_all add: c new_challenge_def Let_def)
  define g where "g = fst (grant_challenge env c ap t1 token)"
  define s2 where "s2 = jm_set s1 i g"
  have gid: "cc_challengeId g = i" "cc_challengeId c = i" by (simp_all add: g_def grant_id c) (simp_all add: new_challenge_def Let_def)
  from approver(2) have dec: "decide_challenge env c ap t1 token = grant_challenge env c ap t1 token"
    unfolding grantable_def by (cases "ap_approver ap") (simp_all add: decide_challenge_def Let_def)
  have ap: "approveChallenge env s1 ap t1 token = (s2, snd (grant_challenge env c ap t1 token))"
    by (simp add: approveChallenge_def approver get1 on_challenge_def fresh dec s2_def g_def gid split: prod.split)
  then have s2: "s2 = conf_step env s1 (OpApprove ap t1 token)" by simp
  have inv2: "conf_inv env s2" unfolding s2 by (rule conf_inv_step [OF inv1 token(1)])
  have get2: "jm_get s2 i = Some g" using inv1 by (simp add: s2_def jm.get_set conf_inv_def keyed_def)
  have gs: "cc_status g = CsApproved" "cc_tokenHash g = Some (hashToken env token)" "cc_requesterToken g = Some token"
      "cc_requesterAuthSessionHash g = rq_requesterAuthSessionHash rq" "cc_expiresAt g = ce_toIso env (t0 + ce_challengeTtlMs env)"
      "cc_tokenExpiresAt g = Some (ce_toIso env (t1 + ce_tokenTtlMs env))"
      "cc_approverAuthSessionHash g = Some (ap_approverAuthSessionHash ap)"
    by (simp_all add: g_def grant_challenge_def Let_def c) (simp_all add: new_challenge_def Let_def)
  have gctx: "challengeContextMatches env g (rq_decision rq)"
      "cc_canonicalParamsHash g = hashCanonicalParams env (rq_canonicalParams rq)"
    using session by (simp_all add: g_def grant_challenge_def Let_def c challengeContextMatches_def)
      (simp_all add: new_challenge_def Let_def truthy_def split: option.split)
  have due: "expireIfNeeded env g t True = (g, None)" if "t \<le> max t2 t3" for t
    using times(2) that by (intro expire_not_due [OF iso gs(5)]) (auto simp: gs(6) truthy_def split: if_splits)
  have pick: "getRequesterToken env s2 i (rq_requesterAuthSessionHash rq) t2 =
      (s2, ConfSuccess ''confirmation token available to original requester'' g (Some token) None)"
    using token(2) by (simp add: getRequesterToken_def get2 on_challenge_def due gid jm_set_same pick_up_token_def gs truthy_def)
  have "rq_requesterAuthSessionHash rq \<noteq> ap_approverAuthSessionHash ap"
    using approver(2) by (simp add: grantable_def c) (simp add: new_challenge_def Let_def)
  then have "\<exists>m c3 a. snd (redeemToken env s2 \<lparr>rd_token = token, rd_requesterAuthSessionHash = rq_requesterAuthSessionHash rq,
        rd_decision = rq_decision rq, rd_canonicalParams = rq_canonicalParams rq\<rparr> t3) = ConfSuccess m c3 None a \<and>
      cc_status c3 = CsRedeemed"
    by (simp add: redeemToken_def find_token [OF inv2 get2 gs(2)] on_challenge_def due redeem_challenge_def gs gctx Let_def)
  moreover have "\<exists>m a. snd (grant_challenge env c ap t1 token) = ConfSuccess m g (Some token) a"
    by (simp add: g_def grant_challenge_def Let_def)
  ultimately show ?thesis using ap pick by auto
qed

text \<open>C31: An approval goes through: a new challenge that a distinct party entitled to it approves in time gives its
  requester the token, and the requester, redeeming it before challenge and token expire for the decision and the
  parameters it asked for, succeeds.\<close>

theorem approval_goes_through:
  assumes "reachable (conf_step env) (conf_op_ok env) [] store"
    and iso: "\<forall>t. ce_dp env (ce_toIso env t) = Some t"
    and created: "createChallenge env store rq t0 i = (s1, Some c)"
    and approver: "ap_challengeId ap = i" "grantable env c ap"
    and token: "conf_op_ok env s1 (OpApprove ap t1 token)" "token \<noteq> []"
    and times: "t1 < t0 + ce_challengeTtlMs env" "max t2 t3 < min (t0 + ce_challengeTtlMs env) (t1 + ce_tokenTtlMs env)"
    and session: "hd_sessionId (rq_decision rq) \<noteq> Some []"
  shows "\<exists>s2 m c2 a. approveChallenge env s1 ap t1 token = (s2, ConfSuccess m c2 (Some token) a) \<and>
    (\<exists>m. getRequesterToken env s2 i (rq_requesterAuthSessionHash rq) t2 = (s2, ConfSuccess m c2 (Some token) None)) \<and>
    (\<exists>m c3 a. snd (redeemToken env s2 \<lparr>rd_token = token, rd_requesterAuthSessionHash = rq_requesterAuthSessionHash rq,
        rd_decision = rq_decision rq, rd_canonicalParams = rq_canonicalParams rq\<rparr> t3) = ConfSuccess m c3 None a \<and>
      cc_status c3 = CsRedeemed)"
  using assms by (rule approval_steps)

section \<open>An example\<close>

definition sample_env :: conf_env where
  "sample_env = \<lparr>ce_dp = \<lambda>s. Some (case s of [] \<Rightarrow> 0 | c # r \<Rightarrow> if c = CHR ''-'' then - int (length r) else int (length s)),
     ce_toIso = \<lambda>t. if t < 0 then CHR ''-'' # replicate (nat (- t)) CHR ''i'' else replicate (nat t) CHR ''i'',
     ce_numstr = sample_numstr, ce_sha = \<lambda>s. s, ce_challengeTtlMs = 5, ce_tokenTtlMs = 3,
     ce_maxFailedRedemptions = 3, ce_maxChallenges = 2\<rparr>"

definition sample_decision :: hub_policy_decision where
  "sample_decision = evaluateHubPolicy (\<lambda>_. None) (sample_request TierProd [''rpc:fs:write''])"

definition sample_rq :: conf_request where
  "sample_rq = \<lparr>rq_decision = sample_decision, rq_requesterAuthSessionHash = ''requester'', rq_requesterDisplayName = None,
     rq_requester = None, rq_approvalTarget = None, rq_canonicalParams = JObj [(''path'', JStr ''/srv/a'')]\<rparr>"

definition sample_ap :: conf_approval where
  "sample_ap = \<lparr>ap_challengeId = ''c1'', ap_approverAuthSessionHash = ''approver'', ap_approverDisplayName = None,
     ap_approver = None, ap_decision = DecApprove\<rparr>"

definition sample_rd :: conf_redemption where
  "sample_rd = \<lparr>rd_token = ''tok'', rd_requesterAuthSessionHash = ''requester'', rd_decision = sample_decision,
     rd_canonicalParams = JObj [(''path'', JStr ''/srv/a'')]\<rparr>"

definition sample_pending :: conf_store where
  "sample_pending = fst (createChallenge sample_env [] sample_rq 0 ''c1'')"

definition sample_approved :: conf_store where
  "sample_approved = fst (approveChallenge sample_env sample_pending sample_ap 1 ''tok'')"

lemma sample_iso: "\<forall>t. ce_dp sample_env (ce_toIso sample_env t) = Some t"
proof
  fix t :: int
  consider "t < 0" | "t = 0" | "t > 0" by linarith
  then show "ce_dp sample_env (ce_toIso sample_env t) = Some t"
  proof cases
    case 3
    then obtain n where "nat t = Suc n" "t = int (Suc n)" by (metis gr0_implies_Suc nat_0_le order_less_imp_le zero_less_nat_eq)
    then show ?thesis by (simp add: sample_env_def)
  qed (simp_all add: sample_env_def)
qed

lemma sample_create: "createChallenge sample_env [] rq t i = ([(i, new_challenge sample_env rq t i)], Some (new_challenge sample_env rq t i))"
  by (simp add: createChallenge_def ensureCapacityForNewChallenge_def pruneStoredChallenges_def pruneExpired_def
      maxChallenges_def sample_env_def)

lemma sample_session: "hd_sessionId sample_decision = None"
  by (simp add: sample_decision_def) code_simp

lemma sample_expires: "cc_expiresAt (new_challenge sample_env rq t i) = ce_toIso sample_env (t + 5)"
  by (simp add: new_challenge_def Let_def sample_env_def)

lemma sample_not_due: "t' < t + 5 \<Longrightarrow>
    expireIfNeeded sample_env (new_challenge sample_env rq t i) t' b = (new_challenge sample_env rq t i, None)"
  by (rule expire_not_due [OF sample_iso sample_expires]) (simp_all add: new_challenge_def Let_def truthy_def)

lemma sample_grantable: "grantable sample_env (new_challenge sample_env sample_rq 0 ''c1'') sample_ap"
  by (simp add: grantable_def new_challenge_def Let_def sample_ap_def sample_rq_def requiresStructuredApprover_def
      browser_requester_def is_truthy_def truthy_def)

lemma sample_fresh: "conf_op_ok sample_env sample_pending (OpApprove sample_ap 1 ''tok'')"
  by (simp add: sample_pending_def sample_create jm_values_def) (simp add: new_challenge_def Let_def)

lemma sample_reachable: "reachable (conf_step sample_env) (conf_op_ok sample_env) [] sample_pending"
    "reachable (conf_step sample_env) (conf_op_ok sample_env) [] sample_approved"
proof -
  have "reachable (conf_step sample_env) (conf_op_ok sample_env) [] (conf_step sample_env [] (OpCreate sample_rq 0 ''c1''))"
    by (rule reach_step [OF reach_init]) simp
  then show p: "reachable (conf_step sample_env) (conf_op_ok sample_env) [] sample_pending" by (simp add: sample_pending_def)
  from reach_step [where e = "OpApprove sample_ap 1 ''tok''", OF p sample_fresh]
  show "reachable (conf_step sample_env) (conf_op_ok sample_env) [] sample_approved" by (simp add: sample_approved_def)
qed

lemma sample_success:
  "\<exists>m c3 a. snd (redeemToken sample_env sample_approved sample_rd 2) = ConfSuccess m c3 None a \<and> cc_status c3 = CsRedeemed"
proof -
  have p: "[(''c1'', new_challenge sample_env sample_rq 0 ''c1'')] = sample_pending" by (simp add: sample_pending_def sample_create)
  from approval_steps [OF reach_init sample_iso sample_create [of sample_rq 0 "''c1''"] _ sample_grantable
      sample_fresh [folded p], of 2 2]
  obtain s2 m c2 a where "approveChallenge sample_env sample_pending sample_ap 1 ''tok'' = (s2, ConfSuccess m c2 (Some ''tok'') a)"
    "\<exists>m c3 a. snd (redeemToken sample_env s2 \<lparr>rd_token = ''tok'', rd_requesterAuthSessionHash = rq_requesterAuthSessionHash sample_rq,
        rd_decision = rq_decision sample_rq, rd_canonicalParams = rq_canonicalParams sample_rq\<rparr> 2) = ConfSuccess m c3 None a \<and>
      cc_status c3 = CsRedeemed"
    by (auto simp: p sample_ap_def sample_session) (auto simp: sample_env_def sample_rq_def sample_session)
  then show ?thesis by (simp add: sample_approved_def sample_rd_def sample_rq_def)
qed

lemma sample_inj: "inj (ce_sha sample_env)"
  by (simp add: sample_env_def inj_def)

theorem redemption_is_authorised_witness:
  "\<exists>c \<in> set (jm_values sample_approved). cc_status c = CsApproved \<and> distinctly_approved sample_env c \<and>
     cc_requesterAuthSessionHash c = ''requester''"
proof -
  obtain m c3 a where ok: "snd (redeemToken sample_env sample_approved sample_rd 2) = ConfSuccess m c3 None a"
    using sample_success by blast
  have "num_printer (ce_numstr sample_env)" by (simp add: sample_env_def sample_num_printer)
  from redemption_is_authorised [OF sample_reachable(2) this sample_inj ok] show ?thesis
    by (auto simp: sample_rd_def)
qed

theorem token_is_single_use_witness:
  "\<exists>r m c a. snd (redeemToken sample_env (run (conf_step sample_env) (fst (redeemToken sample_env sample_approved sample_rd 2))
     [OpGet ''c1'' 3]) sample_rd 3) = ConfFailure r m c a"
proof -
  obtain m c3 a where ok: "snd (redeemToken sample_env sample_approved sample_rd 2) = ConfSuccess m c3 None a"
    using sample_success by blast
  show ?thesis by (rule token_is_single_use [OF sample_reachable(2) ok]) simp_all
qed

theorem approval_goes_through_witness:
  "\<exists>m. getRequesterToken sample_env sample_approved ''c1'' ''requester'' 2 = (sample_approved, m) \<and> cr_token m = Some ''tok''"
proof -
  have p: "[(''c1'', new_challenge sample_env sample_rq 0 ''c1'')] = sample_pending" by (simp add: sample_pending_def sample_create)
  from approval_goes_through [OF reach_init sample_iso sample_create [of sample_rq 0 "''c1''"] _ sample_grantable
      sample_fresh [folded p], of 2 2]
  obtain s2 m c2 a m' where "approveChallenge sample_env sample_pending sample_ap 1 ''tok'' = (s2, ConfSuccess m c2 (Some ''tok'') a)"
    "getRequesterToken sample_env s2 ''c1'' (rq_requesterAuthSessionHash sample_rq) 2 = (s2, ConfSuccess m' c2 (Some ''tok'') None)"
    by (auto simp: p sample_ap_def sample_session) (auto simp: sample_env_def sample_rq_def sample_session)
  then show ?thesis by (simp add: sample_approved_def sample_rq_def)
qed

text \<open>A store with room for two refuses a third challenge while both are live.\<close>

definition sample_full :: conf_store where
  "sample_full = fst (createChallenge sample_env sample_pending sample_rq 1 ''c2'')"

lemma sample_full: "sample_full = [(''c1'', new_challenge sample_env sample_rq 0 ''c1''), (''c2'', new_challenge sample_env sample_rq 1 ''c2'')]"
proof -
  have "\<not> stale sample_env (new_challenge sample_env sample_rq 0 ''c1'') 1"
    by (simp add: stale_def isTerminalChallengeStatus_def) (simp add: new_challenge_def Let_def)
  then have "pruneStoredChallenges sample_env sample_pending 1 = sample_pending"
    by (simp add: pruneStoredChallenges_def pruneExpired_def sample_pending_def sample_create sample_not_due maxChallenges_def)
  then show ?thesis
    by (simp add: sample_full_def createChallenge_def ensureCapacityForNewChallenge_def maxChallenges_def)
      (simp add: sample_pending_def sample_create, simp add: sample_env_def)
qed

theorem capacity_spares_live_challenges_witness:
  "snd (createChallenge sample_env sample_full sample_rq 2 ''c3'') = None"
proof -
  have "reachable (conf_step sample_env) (conf_op_ok sample_env) [] sample_full"
    using reach_step [where e = "OpCreate sample_rq 1 ''c2''", OF sample_reachable(1)] by (simp add: sample_full_def)
  moreover have "live_at sample_env sample_full 2 = sample_full"
    by (simp add: live_at_def sample_full sample_not_due) (simp add: isTerminalChallengeStatus_def new_challenge_def Let_def)
  ultimately show ?thesis
    using capacity_spares_live_challenges [of sample_env sample_full sample_rq 2 "''c3''"]
    by (simp add: maxChallenges_def) (simp add: sample_full sample_env_def)
qed

end
