(* ===== verification/Confirmation_Params.thy ===== *)
theory Confirmation_Params
  imports Confirmation
begin

text \<open>
  What a confirmation binds (\<open>canonicalConfirmationParams\<close> of \<open>server/confirmation-challenges.ts\<close>): the
  parameters of an operation are reduced to the fields that matter, long or secret ones by their hash; and the
  public view of a challenge. Parameters are JSON values, so the file contents of a write come as a string
  (\<open>contentBase64\<close>, or one of the older names). The arguments are the rendering of numbers, SHA-256 of the UTF-8
  bytes of a string, SHA-256 of bytes and the decoder of base64; bytes are characters.
\<close>

record params_env =
  pe_numstr :: "js_number \<Rightarrow> string"
  pe_sha :: "string \<Rightarrow> string"
  pe_shaBytes :: "string \<Rightarrow> string"
  pe_fromBase64 :: "string \<Rightarrow> string"

section \<open>Helpers\<close>

definition asRecord :: "json \<Rightarrow> json option" where
  "asRecord v = (if is_record v then Some v else None)"

text \<open>\<open>record?.[key]\<close>\<close>

definition field :: "json option \<Rightarrow> string \<Rightarrow> json" where
  "field r k = (case r of None \<Rightarrow> JUndef | Some v \<Rightarrow> fld v k)"

definition stringField :: "json option \<Rightarrow> string \<Rightarrow> json" where
  "stringField r k = (if is_str (field r k) then field r k else JUndef)"

definition hashOptional :: "params_env \<Rightarrow> json \<Rightarrow> json" where
  "hashOptional env v = (if v = JUndef then JUndef else JStr (pe_sha env (stableStringify (pe_numstr env) v)))"

definition has_any :: "string \<Rightarrow> string list \<Rightarrow> bool" where
  "has_any s ps \<longleftrightarrow> list_ex (includes_sub s) ps"

text \<open>The regular expressions of \<open>commandClasses\<close> are character classes and alternatives of fixed words, tested
  without regard to case.\<close>

definition secret_words :: "string list" where
  "secret_words = [''authorization'', ''bearer'', ''token'', ''secret'', ''password'', ''apikey'', ''api_key'', ''api-key'',
     ''ghp_'', ''gho_'', ''ghu_'', ''ghs_'', ''ghr_'', ''sk-'', ''relay-'']"

definition commandClasses :: "string \<Rightarrow> string list" where
  "commandClasses command =
     (if list_ex (\<lambda>c. of_char c \<in> {13, 10 :: nat}) command then [''multiline''] else []) @
     (if list_ex (\<lambda>c. c \<in> set '';&|`$<>()[]{}*?~!'') command then [''shell-metacharacters''] else []) @
     (if has_any (to_lower command) [''http://'', ''https://''] then [''url''] else []) @
     (if has_any (to_lower command) secret_words then [''secret-looking''] else []) @
     (if list_ex (\<lambda>c. of_char c < (32 :: nat) \<or> 126 < (of_char c :: nat)) command then [''non-ascii''] else [])"

text \<open>\<open>Buffer.from\<close> of a string: its UTF-8 bytes.\<close>

definition utf8_bytes :: "string \<Rightarrow> string" where
  "utf8_bytes s = concat (map (\<lambda>c. let n = (of_char c :: nat) in
     if n < 128 then [c] else [char_of (192 + n div 64), char_of (128 + n mod 64)]) s)"

definition first_present :: "json option \<Rightarrow> string list \<Rightarrow> json" where
  "first_present r ks = (case List.find (\<lambda>k. field r k \<noteq> JUndef \<and> field r k \<noteq> JNull) ks of
     Some k \<Rightarrow> field r k | None \<Rightarrow> JUndef)"

definition bytesFromFileWrite :: "params_env \<Rightarrow> json option \<Rightarrow> string" where
  "bytesFromFileWrite env r =
     (case field r ''contentBase64'' of
        JStr s \<Rightarrow> pe_fromBase64 env s
      | _ \<Rightarrow> (case first_present r [''content'', ''bytes'', ''data''] of JStr s \<Rightarrow> utf8_bytes s | _ \<Rightarrow> []))"

text \<open>\<open>stripUndefined\<close> and the generic parameters keep the members that are defined.\<close>

definition stripUndefined :: "string \<Rightarrow> (string \<times> json) list \<Rightarrow> json" where
  "stripUndefined action kvs = JObj ((''action'', JStr action) # filter (\<lambda>kv. snd kv \<noteq> JUndef) kvs)"

definition generic_members :: "json option \<Rightarrow> string list \<Rightarrow> (string \<times> json) list" where
  "generic_members r ks = filter (\<lambda>kv. snd kv \<noteq> JUndef) (map (\<lambda>k. (k, field r k)) ks)"

definition canonicalGenericParams :: "string \<Rightarrow> json option \<Rightarrow> string list \<Rightarrow> json" where
  "canonicalGenericParams action r ks = JObj ((''action'', JStr action) # generic_members r ks)"

definition or_null :: "json option \<Rightarrow> json" where
  "or_null r = (case r of Some v \<Rightarrow> v | None \<Rightarrow> JNull)"

definition canonicalSessionParams :: "params_env \<Rightarrow> string \<Rightarrow> json option \<Rightarrow> string list \<Rightarrow> json" where
  "canonicalSessionParams env action r ks =
     JObj ((''action'', JStr action) # generic_members r ks @
       [(''paramsHash'', JStr (pe_sha env (stableStringify (pe_numstr env) (or_null r))))])"

section \<open>Canonical parameters\<close>

text \<open>\<open>Boolean(value)\<close>\<close>

fun json_truthy :: "json \<Rightarrow> bool" where
  "json_truthy JUndef = False"
| "json_truthy JNull = False"
| "json_truthy (JBool b) = b"
| "json_truthy (JNum n) = (n \<noteq> IntNum 0 \<and> n \<noteq> NaNNum)"
| "json_truthy (JStr s) = (s \<noteq> [])"
| "json_truthy (JArr xs) = True"
| "json_truthy (JObj kvs) = True"

definition exec_params :: "params_env \<Rightarrow> string \<Rightarrow> json option \<Rightarrow> json" where
  "exec_params env action r =
     (let cmd = stringField r ''command''; of_cmd = (\<lambda>f. case cmd of JStr s \<Rightarrow> f s | _ \<Rightarrow> JUndef) in
      stripUndefined action
        [(''cwd'', stringField r ''cwd''),
         (''commandHash'', of_cmd (\<lambda>s. JStr (pe_sha env s))),
         (''commandByteCount'', of_cmd (\<lambda>s. JNum (IntNum (int (utf8_length s))))),
         (''commandCharCount'', of_cmd (\<lambda>s. JNum (IntNum (int (length s))))),
         (''commandClasses'', of_cmd (\<lambda>s. JArr (map JStr (commandClasses s)))),
         (''envHash'', hashOptional env (field r ''env''))])"

definition write_params :: "params_env \<Rightarrow> string \<Rightarrow> json option \<Rightarrow> json" where
  "write_params env action r =
     (let bytes = bytesFromFileWrite env r in
      stripUndefined action
        [(''path'', stringField r ''path''), (''mode'', stringField r ''mode''),
         (''expectedHash'', stringField r ''expectedHash''),
         (''size'', JNum (IntNum (int (length bytes)))), (''sha256'', JStr (pe_shaBytes env bytes))])"

definition canonicalConfirmationParams :: "params_env \<Rightarrow> string \<Rightarrow> json \<Rightarrow> json" where
  "canonicalConfirmationParams env action params =
     (let r = asRecord params in
      if action = ''pty.exec.arbitrary'' then exec_params env action r
      else if action = ''rpc.fs.write'' then write_params env action r
      else if action = ''rpc.fs.delete'' then
        stripUndefined action [(''cwd'', stringField r ''cwd''), (''path'', stringField r ''path''),
          (''recursive'', JBool (json_truthy (field r ''recursive'')))]
      else if action = ''rpc.git.write'' then
        stripUndefined action [(''cwd'', stringField r ''cwd''),
          (''verb'', if stringField r ''verb'' = JUndef then stringField r ''gitVerb'' else stringField r ''verb''),
          (''refSpec'', stringField r ''refSpec''), (''remote'', stringField r ''remote'')]
      else if action \<in> {''sessions.create'', ''sessions.kill'', ''sessions.create.terminal''} then
        canonicalSessionParams env action r [''type'', ''cwd'', ''repoPath'', ''worktreePath'', ''sessionId'', ''method'']
      else if starts_with action ''rpc.fs.'' then
        canonicalGenericParams action r [''cwd'', ''path'', ''root'', ''maxBytes'', ''maxLines'', ''maxEntries'', ''recursive'']
      else JObj [(''action'', JStr action), (''paramsHash'', JStr (pe_sha env (stableStringify (pe_numstr env)
        (if params = JUndef then JNull else params))))])"

section \<open>The public view\<close>

record public_view =
  pv_challengeId :: string
  pv_status :: conf_status
  pv_nodeId :: string
  pv_intent :: hub_intent
  pv_requiredBits :: "string list"
  pv_challengeBits :: "string list"
  pv_sessionId :: "string option"
  pv_canonicalParams :: json
  pv_canonicalParamsHash :: string
  pv_requesterDisplayName :: "string option"
  pv_approverDisplayName :: "string option"
  pv_createdAt :: string
  pv_expiresAt :: string
  pv_approvedAt :: "string option"
  pv_tokenExpiresAt :: "string option"
  pv_failedRedemptions :: nat
  pv_maxFailedRedemptions :: int
  pv_reasonCode :: conf_reason
  pv_message :: string
  pv_outcome :: hr_outcome
  pv_contract :: hr_contract

definition publicChallenge :: "challenge \<Rightarrow> public_view" where
  "publicChallenge c =
     \<lparr>pv_challengeId = cc_challengeId c, pv_status = cc_status c, pv_nodeId = cc_nodeId c, pv_intent = cc_intent c,
      pv_requiredBits = cc_requiredBits c, pv_challengeBits = cc_challengeBits c, pv_sessionId = truthy (cc_sessionId c),
      pv_canonicalParams = cc_canonicalParams c, pv_canonicalParamsHash = cc_canonicalParamsHash c,
      pv_requesterDisplayName = truthy (cc_requesterDisplayName c), pv_approverDisplayName = truthy (cc_approverDisplayName c),
      pv_createdAt = cc_createdAt c, pv_expiresAt = cc_expiresAt c, pv_approvedAt = truthy (cc_approvedAt c),
      pv_tokenExpiresAt = truthy (cc_tokenExpiresAt c), pv_failedRedemptions = cc_failedRedemptions c,
      pv_maxFailedRedemptions = cc_maxFailedRedemptions c, pv_reasonCode = cc_reasonCode c, pv_message = cc_message c,
      pv_outcome = cc_outcome c, pv_contract = cc_contract c\<rparr>"

definition listChallenges :: "conf_env \<Rightarrow> conf_store \<Rightarrow> int \<Rightarrow> conf_store \<times> public_view list" where
  "listChallenges env store now =
     (let store1 = pruneStoredChallenges env store now in (store1, map publicChallenge (jm_values store1)))"

section \<open>Binding\<close>

lemma stripped_members:
  assumes "num_printer numstr"
    and "stableStringify numstr (stripUndefined action fs) = stableStringify numstr (stripUndefined action gs)"
    and "distinct (''action'' # map fst fs)" "distinct (''action'' # map fst gs)" "k \<noteq> ''action''"
  shows "map_option canon (present (member fs k)) = map_option canon (present (member gs k))"
proof -
  have "defined_members ((''action'', JStr action) # filter (\<lambda>kv. snd kv \<noteq> JUndef) hs) =
      filter (\<lambda>kv. snd kv \<noteq> JUndef) ((''action'', JStr action) # hs)" for hs
    by (simp add: defined_members_def)
  moreover have "distinct (map fst ((''action'', JStr action) # filter (\<lambda>kv. snd kv \<noteq> JUndef) fs))"
    "distinct (map fst ((''action'', JStr action) # filter (\<lambda>kv. snd kv \<noteq> JUndef) gs))"
    using assms(3,4) by (auto simp: distinct_map_filter)
  ultimately have "map_option canon (map_of (filter (\<lambda>kv. snd kv \<noteq> JUndef) ((''action'', JStr action) # fs)) k) =
      map_option canon (map_of (filter (\<lambda>kv. snd kv \<noteq> JUndef) ((''action'', JStr action) # gs)) k)"
    using canon_member [OF assms(1) assms(2) [unfolded stripUndefined_def], of k] by simp
  with assms(3-5) show ?thesis by (simp add: map_of_defined)
qed

lemma stringField_cases: "stringField r k = JUndef \<or> (\<exists>s. stringField r k = JStr s)"
  by (auto simp: stringField_def is_str_def split: json.split)

lemma present_str: "map_option canon (present (stringField r k)) = map_option canon (present (stringField q l)) \<longleftrightarrow>
    stringField r k = stringField q l"
  using stringField_cases [of r k] stringField_cases [of q l] by (auto simp: present_def)

lemma exec_params_bind:
  assumes "num_printer (pe_numstr env)" "inj (pe_sha env)"
    and "stableStringify (pe_numstr env) (exec_params env action r) = stableStringify (pe_numstr env) (exec_params env action q)"
  shows "stringField r ''command'' = stringField q ''command'' \<and> stringField r ''cwd'' = stringField q ''cwd''"
proof -
  note m = stripped_members [OF assms(1) assms(3) [unfolded exec_params_def Let_def]]
  have "map_option canon (present (stringField r ''cwd'')) = map_option canon (present (stringField q ''cwd''))"
    using m [of "''cwd''"] by (simp add: member_simps)
  moreover have "map_option canon (present (case stringField r ''command'' of JStr s \<Rightarrow> JStr (pe_sha env s) | _ \<Rightarrow> JUndef)) =
      map_option canon (present (case stringField q ''command'' of JStr s \<Rightarrow> JStr (pe_sha env s) | _ \<Rightarrow> JUndef))"
    using m [of "''commandHash''"] by (simp add: member_simps)
  ultimately show ?thesis
    using stringField_cases [of r "''command''"] stringField_cases [of q "''command''"] assms(2)
    unfolding present_str by (auto simp: present_def inj_eq)
qed

lemma write_params_bind:
  assumes "num_printer (pe_numstr env)" "inj (pe_shaBytes env)"
    and "stableStringify (pe_numstr env) (write_params env action r) = stableStringify (pe_numstr env) (write_params env action q)"
  shows "bytesFromFileWrite env r = bytesFromFileWrite env q \<and> stringField r ''path'' = stringField q ''path'' \<and>
    stringField r ''mode'' = stringField q ''mode'' \<and> stringField r ''expectedHash'' = stringField q ''expectedHash''"
proof -
  note m = stripped_members [OF assms(1) assms(3) [unfolded write_params_def Let_def]]
  show ?thesis
    using m [of "''path''"] m [of "''mode''"] m [of "''expectedHash''"] m [of "''sha256''"] assms(2)
    by (simp add: member_simps present_str inj_eq) (simp add: present_def inj_eq)
qed

text \<open>The hash at the end of the session parameters is a member of its own.\<close>

lemma hash_member:
  assumes "num_printer numstr"
    and "stableStringify numstr (JObj ((''action'', a) # fs @ [(''paramsHash'', JStr x)])) =
      stableStringify numstr (JObj ((''action'', a) # gs @ [(''paramsHash'', JStr y)]))"
    and "distinct (map fst fs)" "distinct (map fst gs)" "set (map fst fs) \<union> set (map fst gs) \<subseteq> - {''action'', ''paramsHash''}"
  shows "x = y"
proof -
  have none: "map_of (filter (\<lambda>kv. snd kv \<noteq> JUndef) hs) ''paramsHash'' = None" if "''paramsHash'' \<notin> set (map fst hs)" for hs
    using that by (force simp: map_of_eq_None_iff)
  have get: "map_of (defined_members ((''action'', a) # hs @ [(''paramsHash'', JStr z)])) ''paramsHash'' = Some (JStr z)"
    if "''paramsHash'' \<notin> set (map fst hs)" for hs z
    using none [OF that] by (simp add: defined_members_def map_add_def)
  have "map_option canon (map_of (defined_members ((''action'', a) # fs @ [(''paramsHash'', JStr x)])) ''paramsHash'') =
      map_option canon (map_of (defined_members ((''action'', a) # gs @ [(''paramsHash'', JStr y)])) ''paramsHash'')"
    using assms by (intro canon_member [OF assms(1,2)]) auto
  moreover have "''paramsHash'' \<notin> set (map fst fs)" "''paramsHash'' \<notin> set (map fst gs)" using assms(5) by blast+
  ultimately show ?thesis by (simp add: get)
qed

lemma generic_keys: "distinct ks \<Longrightarrow> distinct (map fst (generic_members r ks))" "set (map fst (generic_members r ks)) \<subseteq> set ks"
  by (auto simp: generic_members_def distinct_map_filter o_def)

lemma session_params_bind:
  assumes "num_printer (pe_numstr env)" "inj (pe_sha env)" "distinct ks" "''action'' \<notin> set ks" "''paramsHash'' \<notin> set ks"
    and "stableStringify (pe_numstr env) (canonicalSessionParams env action r ks) =
      stableStringify (pe_numstr env) (canonicalSessionParams env action q ks)"
  shows "stableStringify (pe_numstr env) (or_null r) = stableStringify (pe_numstr env) (or_null q)"
proof -
  have "pe_sha env (stableStringify (pe_numstr env) (or_null r)) = pe_sha env (stableStringify (pe_numstr env) (or_null q))"
    using generic_keys(1) [OF assms(3)] generic_keys(2) [of _ ks] assms(4,5)
    by (intro hash_member [OF assms(1) assms(6) [unfolded canonicalSessionParams_def]]) blast+
  with assms(2) show ?thesis by (simp add: inj_eq)
qed

text \<open>C30: A confirmation binds what it approves: when the canonical parameters of two requests for the same action have the
  same stable serialisation, then for the session operations and every action without a rule of its own the whole
  parameters have; two writes have the same bytes, path, mode and expected hash; and two commands the same text
  and directory. The hashes are taken without collisions.\<close>

theorem canonical_params_bind:
  assumes "num_printer (pe_numstr env)" "inj (pe_sha env)" "inj (pe_shaBytes env)"
    and "stableStringify (pe_numstr env) (canonicalConfirmationParams env action v) =
      stableStringify (pe_numstr env) (canonicalConfirmationParams env action w)"
  shows "(action \<in> {''sessions.create'', ''sessions.kill'', ''sessions.create.terminal''} \<longrightarrow>
      stableStringify (pe_numstr env) (or_null (asRecord v)) = stableStringify (pe_numstr env) (or_null (asRecord w))) \<and>
    (\<not> starts_with action ''rpc.fs.'' \<and> action \<notin> {''sessions.create'', ''sessions.kill'', ''sessions.create.terminal'',
        ''pty.exec.arbitrary'', ''rpc.git.write''} \<longrightarrow>
      stableStringify (pe_numstr env) (if v = JUndef then JNull else v) =
      stableStringify (pe_numstr env) (if w = JUndef then JNull else w)) \<and>
    (action = ''rpc.fs.write'' \<longrightarrow> bytesFromFileWrite env (asRecord v) = bytesFromFileWrite env (asRecord w) \<and>
      stringField (asRecord v) ''path'' = stringField (asRecord w) ''path'' \<and>
      stringField (asRecord v) ''mode'' = stringField (asRecord w) ''mode'' \<and>
      stringField (asRecord v) ''expectedHash'' = stringField (asRecord w) ''expectedHash'') \<and>
    (action = ''pty.exec.arbitrary'' \<longrightarrow>
      stringField (asRecord v) ''command'' = stringField (asRecord w) ''command'' \<and>
      stringField (asRecord v) ''cwd'' = stringField (asRecord w) ''cwd'')"
proof (intro conjI impI)
  note same = assms(4) [unfolded canonicalConfirmationParams_def Let_def]
  {
    assume "action \<in> {''sessions.create'', ''sessions.kill'', ''sessions.create.terminal''}"
    then show "stableStringify (pe_numstr env) (or_null (asRecord v)) = stableStringify (pe_numstr env) (or_null (asRecord w))"
    proof -
      assume "action \<in> {''sessions.create'', ''sessions.kill'', ''sessions.create.terminal''}"
      then have d: "canonicalConfirmationParams env action x = canonicalSessionParams env action (asRecord x)
          [''type'', ''cwd'', ''repoPath'', ''worktreePath'', ''sessionId'', ''method'']" for x
        unfolding canonicalConfirmationParams_def Let_def by (elim insertE) simp_all
      show ?thesis by (rule session_params_bind [OF assms(1,2) _ _ _ assms(4) [unfolded d]]) simp_all
    qed
  next
    assume a: "\<not> starts_with action ''rpc.fs.'' \<and> action \<notin> {''sessions.create'', ''sessions.kill'', ''sessions.create.terminal'',
        ''pty.exec.arbitrary'', ''rpc.git.write''}"
    have "starts_with ''rpc.fs.write'' ''rpc.fs.''" "starts_with ''rpc.fs.delete'' ''rpc.fs.''"
      by (simp_all add: starts_with_def)
    with a have "action \<noteq> ''rpc.fs.write''" "action \<noteq> ''rpc.fs.delete''" by blast+
    with a have d: "canonicalConfirmationParams env action x = JObj ((''action'', JStr action) # [] @
        [(''paramsHash'', JStr (pe_sha env (stableStringify (pe_numstr env) (if x = JUndef then JNull else x))))])" for x
      by (simp add: canonicalConfirmationParams_def Let_def)
    have "pe_sha env (stableStringify (pe_numstr env) (if v = JUndef then JNull else v)) =
        pe_sha env (stableStringify (pe_numstr env) (if w = JUndef then JNull else w))"
      by (rule hash_member [OF assms(1) assms(4) [unfolded d]]) simp_all
    with assms(2) show "stableStringify (pe_numstr env) (if v = JUndef then JNull else v) =
        stableStringify (pe_numstr env) (if w = JUndef then JNull else w)" by (simp only: inj_eq)
  next
    assume a: "action = ''rpc.fs.write''"
    note b = write_params_bind [OF assms(1,3), of action "asRecord v" "asRecord w"]
    show "bytesFromFileWrite env (asRecord v) = bytesFromFileWrite env (asRecord w)"
      "stringField (asRecord v) ''path'' = stringField (asRecord w) ''path''"
      "stringField (asRecord v) ''mode'' = stringField (asRecord w) ''mode''"
      "stringField (asRecord v) ''expectedHash'' = stringField (asRecord w) ''expectedHash''"
      using b same by (simp_all add: a)
  next
    assume a: "action = ''pty.exec.arbitrary''"
    show "stringField (asRecord v) ''command'' = stringField (asRecord w) ''command''"
      "stringField (asRecord v) ''cwd'' = stringField (asRecord w) ''cwd''"
      using exec_params_bind [OF assms(1,2), of action "asRecord v" "asRecord w"] same by (simp_all add: a)
  }
qed

definition sample_params_env :: params_env where
  "sample_params_env = \<lparr>pe_numstr = sample_numstr, pe_sha = \<lambda>s. s, pe_shaBytes = \<lambda>s. s, pe_fromBase64 = \<lambda>s. s\<rparr>"

theorem canonical_params_bind_witness:
  "canonicalConfirmationParams sample_params_env ''pty.exec.arbitrary'' (JObj [(''command'', JStr ''rm -r a'')]) \<noteq>
   canonicalConfirmationParams sample_params_env ''pty.exec.arbitrary'' (JObj [(''command'', JStr ''rm -r b'')])"
proof
  assume same: "canonicalConfirmationParams sample_params_env ''pty.exec.arbitrary'' (JObj [(''command'', JStr ''rm -r a'')]) =
    canonicalConfirmationParams sample_params_env ''pty.exec.arbitrary'' (JObj [(''command'', JStr ''rm -r b'')])"
  have "num_printer (pe_numstr sample_params_env)" "inj (pe_sha sample_params_env)" "inj (pe_shaBytes sample_params_env)"
    by (simp_all add: sample_params_env_def sample_num_printer inj_def)
  from canonical_params_bind [OF this arg_cong [OF same, of "stableStringify (pe_numstr sample_params_env)"]] show False
    by (simp add: asRecord_def is_record_def stringField_def field_def fld_def is_str_def)
qed

end
