(* ===== verification/Delivery_Contract.thy ===== *)
theory Delivery_Contract
  imports Posix_Path
begin

text \<open>
  Delivery contracts of channel messages: the parser of expectations (\<open>shared/channel-delivery-contract.ts\<close>)
  and their evaluation when a run ends (\<open>server/channel-delivery-contract-evaluator.ts\<close>). Whether a pattern
  compiles and the bounded regular-expression test of \<open>safeRegexTest\<close> are arguments, as are the probes of
  git, pull requests and files; within one evaluation a probe gives the same answer when asked again. Errors
  of the parser are values of \<open>contract_error\<close>, one constructor per message.
\<close>

section \<open>Expectations\<close>

datatype expectation =
    ExPr "string option"
  | ExCommit
  | ExPush
  | ExFile string
  | ExText string

datatype contract_error =
    RegexBackreference string string
  | RegexNestedQuantifier string string
  | PartEmpty string string
  | SpecEmpty string
  | FileAbsolute string string
  | FileEmpty string string
  | FileEscapes string string
  | RegexInvalid string string
  | UnknownKind string string
  | SpecsEmpty "string list"

record delivery_terms =
  dt_expect :: "string list"
  dt_parsed :: "expectation list"

definition isQuantifierChar :: "char \<Rightarrow> bool" where
  "isQuantifierChar c \<longleftrightarrow> c = CHR ''*'' \<or> c = CHR ''+'' \<or> c = CHR ''?''"

section \<open>Safe patterns\<close>

text \<open>\<open>assertNoBackreferences\<close> as a scan that is true when the assertion throws; the flag is \<open>inClass\<close>.\<close>

fun has_backreference :: "bool \<Rightarrow> string \<Rightarrow> bool" where
  "has_backreference inClass [] = False"
| "has_backreference inClass (c # s) =
     (if c = CHR 0x5C then
        (case s of
           [] \<Rightarrow> False
         | d # r \<Rightarrow> \<not> inClass \<and> (is_digit d \<and> d \<noteq> CHR ''0'' \<or> d = CHR ''k'' \<and> starts_with r ''<'') \<or>
             has_backreference inClass r)
      else if c = CHR ''['' then has_backreference True s
      else if c = CHR '']'' \<and> inClass then has_backreference False s
      else has_backreference inClass s)"

text \<open>The rest of the pattern after a counted quantifier whose opening brace has just been read.\<close>

definition after_brace :: "string \<Rightarrow> string option" where
  "after_brace s = (case index_of (CHR ''}'') s of None \<Rightarrow> None | Some i \<Rightarrow> Some (drop (i + 1) s))"

lemma after_brace_length: "after_brace s = Some r \<Longrightarrow> length r < length s"
  by (auto simp: after_brace_def split: option.splits dest!: index_of_less)

definition mark_top :: "bool \<Rightarrow> bool list \<Rightarrow> bool list" where
  "mark_top b stack = (case stack of [] \<Rightarrow> [] | t # st \<Rightarrow> (t \<or> b) # st)"

text \<open>\<open>assertNoNestedQuantifiers\<close> as a scan that is true when the assertion throws. The stack has the
  \<open>hasQuantifier\<close> flags of the open groups, the innermost first.\<close>

function nested_quantifier :: "bool list \<Rightarrow> bool \<Rightarrow> string \<Rightarrow> bool" where
  "nested_quantifier stack inClass [] = False"
| "nested_quantifier stack inClass (c # s) =
     (if c = CHR 0x5C then nested_quantifier stack inClass (drop 1 s)
      else if c = CHR ''['' then nested_quantifier stack True s
      else if c = CHR '']'' \<and> inClass then nested_quantifier stack False s
      else if inClass then nested_quantifier stack inClass s
      else if c = CHR ''('' then nested_quantifier (False # stack) inClass s
      else if c = CHR '')'' then
        (let done = (case stack of [] \<Rightarrow> False | d # _ \<Rightarrow> d); stack' = mark_top done (drop 1 stack) in
         case s of
           [] \<Rightarrow> False
         | n # r \<Rightarrow>
             if isQuantifierChar n then done \<or> nested_quantifier stack' inClass r
             else if n = CHR ''{'' then
               (case after_brace r of
                  None \<Rightarrow> nested_quantifier stack' inClass s
                | Some r' \<Rightarrow> done \<or> nested_quantifier stack' inClass r')
             else nested_quantifier stack' inClass s)
      else if isQuantifierChar c then nested_quantifier (mark_top True stack) inClass s
      else if c = CHR ''{'' then
        nested_quantifier (mark_top True stack) inClass (case after_brace s of None \<Rightarrow> s | Some r \<Rightarrow> r)
      else nested_quantifier stack inClass s)"
  by pat_completeness auto
termination
  by (relation "measure (\<lambda>(stack, inClass, s). length s)")
    (auto split: option.splits dest: after_brace_length)

definition assertSafeTextRegex :: "string \<Rightarrow> string \<Rightarrow> contract_error option" where
  "assertSafeTextRegex pattern spec =
     (if has_backreference False pattern then Some (RegexBackreference spec pattern)
      else if nested_quantifier [False] False pattern then Some (RegexNestedQuantifier spec pattern)
      else None)"

section \<open>The parser\<close>

definition ensureNonEmpty :: "string \<Rightarrow> string \<Rightarrow> string \<Rightarrow> contract_error + string" where
  "ensureNonEmpty v label spec = (if trim v = [] then Inl (PartEmpty label spec) else Inr (trim v))"

definition parse_file :: "string \<Rightarrow> string \<Rightarrow> contract_error + expectation" where
  "parse_file spec rel =
     (if is_absolute rel then Inl (FileAbsolute spec rel)
      else
        let normalized = posix_normalize rel in
        if normalized = [] \<or> normalized = ''.'' \<or> normalized = ''/'' then Inl (FileEmpty spec rel)
        else if ''..'' \<in> set (split_slash normalized) then Inl (FileEscapes spec rel)
        else Inr (ExFile normalized))"

definition parse_text :: "(string \<Rightarrow> bool) \<Rightarrow> string \<Rightarrow> string \<Rightarrow> contract_error + expectation" where
  "parse_text compiles spec pattern =
     (case assertSafeTextRegex pattern spec of
        Some e \<Rightarrow> Inl e
      | None \<Rightarrow> if compiles pattern then Inr (ExText pattern) else Inl (RegexInvalid spec pattern))"

definition bind_sum :: "'e + 'a \<Rightarrow> ('a \<Rightarrow> 'e + 'b) \<Rightarrow> 'e + 'b" where
  "bind_sum r f = (case r of Inl e \<Rightarrow> Inl e | Inr x \<Rightarrow> f x)"

definition parseChannelDeliveryExpectation :: "(string \<Rightarrow> bool) \<Rightarrow> string \<Rightarrow> contract_error + expectation" where
  "parseChannelDeliveryExpectation compiles rawSpec =
     (let spec = trim rawSpec in
      if spec = [] then Inl (SpecEmpty rawSpec)
      else if spec = ''commit'' then Inr ExCommit
      else if spec = ''push'' then Inr ExPush
      else if spec = ''pr'' then Inr (ExPr None)
      else if starts_with spec ''pr:'' then
        bind_sum (ensureNonEmpty (drop 3 spec) ''pr branch'' spec) (\<lambda>b. Inr (ExPr (Some b)))
      else if starts_with spec ''file:'' then
        bind_sum (ensureNonEmpty (drop 5 spec) ''file path'' spec) (parse_file spec)
      else if starts_with spec ''text:'' then
        bind_sum (ensureNonEmpty (drop 5 spec) ''text regex'' spec) (parse_text compiles spec)
      else Inl (UnknownKind spec (takeWhile (\<lambda>c. c \<noteq> CHR '':'') spec)))"

fun parse_all :: "(string \<Rightarrow> bool) \<Rightarrow> string list \<Rightarrow> contract_error + expectation list" where
  "parse_all compiles [] = Inr []"
| "parse_all compiles (s # ss) =
     bind_sum (parseChannelDeliveryExpectation compiles s) (\<lambda>e. bind_sum (parse_all compiles ss) (\<lambda>es. Inr (e # es)))"

definition parseChannelDeliveryContract ::
  "(string \<Rightarrow> bool) \<Rightarrow> string list option \<Rightarrow> contract_error + delivery_terms option" where
  "parseChannelDeliveryContract compiles expect =
     (case expect of
        None \<Rightarrow> Inr None
      | Some specs \<Rightarrow>
          if specs = [] then Inr None
          else
            let cleaned = map trim specs in
            if list_ex (\<lambda>s. s = []) cleaned then Inl (SpecsEmpty specs)
            else bind_sum (parse_all compiles cleaned)
              (\<lambda>es. Inr (Some \<lparr>dt_expect = cleaned, dt_parsed = es\<rparr>)))"

section \<open>What is told of an unmet expectation\<close>

fun intent_of :: "expectation \<Rightarrow> string" where
  "intent_of ExCommit = ''no new commit''"
| "intent_of ExPush = ''nothing pushed to the branch''"
| "intent_of (ExPr _) = ''no pull request opened/updated for this branch''"
| "intent_of (ExFile _) = ''expected artifact missing''"
| "intent_of (ExText _) = ''no closing message''"

definition deliveryContractUnmetIntent :: "(string \<Rightarrow> bool) \<Rightarrow> string \<Rightarrow> string" where
  "deliveryContractUnmetIntent compiles spec =
     (let trimmed = trim spec in
      if trimmed = ''commit'' then ''no new commit''
      else if trimmed = ''push'' then ''nothing pushed to the branch''
      else if trimmed = ''pr'' \<or> starts_with trimmed ''pr:'' then ''no pull request opened/updated for this branch''
      else if starts_with trimmed ''file:'' then ''expected artifact missing''
      else if starts_with trimmed ''text:'' then ''no closing message''
      else case parseChannelDeliveryExpectation compiles trimmed of
        Inr e \<Rightarrow> intent_of e
      | Inl _ \<Rightarrow> ''unmet delivery expectation'')"

fun join_comma :: "string list \<Rightarrow> string" where
  "join_comma [] = []"
| "join_comma [s] = s"
| "join_comma (s # t # ss) = s @ '', '' @ join_comma (t # ss)"

definition formatDeliveryContractUnmetIntents :: "(string \<Rightarrow> bool) \<Rightarrow> string list \<Rightarrow> string" where
  "formatDeliveryContractUnmetIntents compiles specs = join_comma (map (deliveryContractUnmetIntent compiles) specs)"

section \<open>Evaluation\<close>

datatype 'a outcome = OkOutcome 'a | UnknownOutcome string

text \<open>The optional probes are optional; \<open>upstreamRefInfo\<close> is not used by the evaluator.\<close>

record git_probe =
  gp_currentBranch :: "string option outcome"
  gp_aheadCount :: "js_number outcome"
  gp_headSha :: "string option outcome option"
  gp_upstreamRef :: "string option outcome option"
  gp_lsRemoteBranchSha :: "(string \<Rightarrow> string \<Rightarrow> string option outcome) option"
  gp_upstreamSha :: "string option outcome option"
  gp_commitsBetween :: "(string \<Rightarrow> string \<Rightarrow> js_number outcome) option"

record open_pr =
  pr_number :: int
  pr_headSha :: "string option"

record pr_probe =
  pp_hasOpenPrForBranch :: "string \<Rightarrow> bool outcome"
  pp_getOpenPrForBranch :: "(string \<Rightarrow> open_pr option outcome) option"

datatype ref_source = RefUpstream | RefOriginHead | RefTrackingOtherBranch

text \<open>The source of the upstream reference is missing, null or one of three.\<close>

record baseline =
  bl_headSha :: string
  bl_upstreamRef :: "string option"
  bl_upstreamRefSource :: "ref_source option option"
  bl_upstreamSha :: "string option"
  bl_prNumber :: "int option"
  bl_prHeadSha :: "string option"
  bl_cwd :: "string option"

record delivery_input =
  di_expect :: "string list"
  di_cwd :: string
  di_baseline :: "baseline option"
  di_finalAssistantText :: string
  di_finalAssistantTextIsClosing :: "bool option"

text \<open>What the evaluation uses besides its input: the probes, the working directory and \<open>existsSync\<close> of the default
  file probe, and the regular-expression engine.\<close>

record delivery_world =
  dw_git :: git_probe
  dw_pr :: pr_probe
  dw_fs :: "(string \<Rightarrow> bool outcome) option"
  dw_workdir :: string
  dw_existsSync :: "string \<Rightarrow> bool"
  dw_compiles :: "string \<Rightarrow> bool"
  dw_regexTest :: "string \<Rightarrow> string \<Rightarrow> bool outcome"

definition bind_outcome :: "'a outcome \<Rightarrow> ('a \<Rightarrow> 'b outcome) \<Rightarrow> 'b outcome" where
  "bind_outcome r f = (case r of UnknownOutcome reason \<Rightarrow> UnknownOutcome reason | OkOutcome x \<Rightarrow> f x)"

text \<open>\<open>Number.isFinite(n) && n >= 1\<close>\<close>

definition at_least_one :: "js_number \<Rightarrow> bool" where
  "at_least_one n = (case n of IntNum i \<Rightarrow> 1 \<le> i | FracNum i \<Rightarrow> 1 \<le> i | _ \<Rightarrow> False)"

definition delta_met :: "js_number outcome \<Rightarrow> bool outcome" where
  "delta_met d = bind_outcome d (\<lambda>n. OkOutcome (at_least_one n))"

definition max_text_bytes :: nat where "max_text_bytes = 64 * 1024"

definition default_exists :: "delivery_world \<Rightarrow> delivery_input \<Rightarrow> string \<Rightarrow> bool outcome" where
  "default_exists w inp rel =
     (let cwd = posix_resolve (dw_workdir w) [di_cwd inp]; target = posix_resolve (dw_workdir w) [cwd, rel];
          prefix = (if ends_with cwd ''/'' then cwd else cwd @ ''/'')
      in if target \<noteq> cwd \<and> \<not> starts_with target prefix then UnknownOutcome ''file expectation escapes routing cwd''
         else OkOutcome (dw_existsSync w target))"

definition other_cwd :: "delivery_input \<Rightarrow> baseline \<Rightarrow> bool" where
  "other_cwd inp b \<longleftrightarrow> is_truthy (bl_cwd b) \<and> bl_cwd b \<noteq> Some (di_cwd inp)"

definition evalCommit :: "delivery_world \<Rightarrow> delivery_input \<Rightarrow> bool outcome" where
  "evalCommit w inp =
     (case di_baseline inp of
        None \<Rightarrow> delta_met (gp_aheadCount (dw_git w))
      | Some b \<Rightarrow>
          if other_cwd inp b then UnknownOutcome ''baseline captured in a different cwd''
          else case (gp_headSha (dw_git w), gp_commitsBetween (dw_git w)) of
            (Some head, Some between) \<Rightarrow>
              bind_outcome head (\<lambda>h. let headSha = (case h of Some s \<Rightarrow> trim s | None \<Rightarrow> []) in
                if headSha = [] then UnknownOutcome ''unable to resolve HEAD sha''
                else delta_met (between (bl_headSha b) headSha))
          | _ \<Rightarrow> UnknownOutcome ''git probes missing for commit delta evaluation'')"

text \<open>The remote of a reference is what stands before its first slash.\<close>

definition remote_of :: "string option \<Rightarrow> string" where
  "remote_of ref = (case truthy ref of
     None \<Rightarrow> ''origin''
   | Some r \<Rightarrow> (let remote = takeWhile (\<lambda>c. c \<noteq> CHR ''/'') r in if remote = [] then ''origin'' else remote))"

definition push_other_branch :: "delivery_world \<Rightarrow> baseline \<Rightarrow> bool outcome" where
  "push_other_branch w b =
     (case gp_lsRemoteBranchSha (dw_git w) of
        None \<Rightarrow> UnknownOutcome ''git probes missing for push delta evaluation''
      | Some lsRemote \<Rightarrow>
          bind_outcome (gp_currentBranch (dw_git w)) (\<lambda>branch.
            case truthy (map_option trim branch) of
              None \<Rightarrow> UnknownOutcome ''unable to resolve current branch''
            | Some br \<Rightarrow>
                bind_outcome (lsRemote (remote_of (bl_upstreamRef b)) br) (\<lambda>sha.
                  case truthy (map_option trim sha) of
                    None \<Rightarrow> OkOutcome False
                  | Some current \<Rightarrow>
                      if \<not> is_truthy (bl_upstreamSha b) then OkOutcome True
                      else OkOutcome (bl_upstreamSha b \<noteq> Some current))))"

definition push_upstream :: "delivery_world \<Rightarrow> baseline \<Rightarrow> bool outcome" where
  "push_upstream w b =
     (case truthy (bl_upstreamRef b) of
        None \<Rightarrow> UnknownOutcome ''no upstream ref baseline available''
      | Some ref \<Rightarrow>
          (case truthy (bl_upstreamSha b) of
             None \<Rightarrow> UnknownOutcome ''no upstream baseline available''
           | Some base \<Rightarrow>
               (case (gp_upstreamRef (dw_git w), gp_upstreamSha (dw_git w), gp_commitsBetween (dw_git w)) of
                  (Some upRef, Some upSha, Some between) \<Rightarrow>
                    bind_outcome upRef (\<lambda>current. case truthy current of
                      None \<Rightarrow> UnknownOutcome ''no upstream/base reference available''
                    | Some cur \<Rightarrow>
                        if cur \<noteq> ref then UnknownOutcome (''upstream ref changed ('' @ ref @ '' -> '' @ cur @ '')'')
                        else bind_outcome upSha (\<lambda>sha. case truthy sha of
                            None \<Rightarrow> UnknownOutcome ''no upstream/base reference available''
                          | Some s \<Rightarrow> delta_met (between base s)))
                | _ \<Rightarrow> UnknownOutcome ''git probes missing for push delta evaluation'')))"

definition evalPush :: "delivery_world \<Rightarrow> delivery_input \<Rightarrow> bool outcome" where
  "evalPush w inp =
     (case di_baseline inp of
        None \<Rightarrow> UnknownOutcome ''baseline unavailable''
      | Some b \<Rightarrow>
          if other_cwd inp b then UnknownOutcome ''baseline captured in a different cwd''
          else case bl_upstreamRefSource b of
            None \<Rightarrow> UnknownOutcome ''upstream ref source unavailable''
          | Some None \<Rightarrow> UnknownOutcome ''upstream ref source unavailable''
          | Some (Some RefOriginHead) \<Rightarrow>
              UnknownOutcome ''push delta unavailable when upstream ref came from origin/HEAD fallback''
          | Some (Some RefTrackingOtherBranch) \<Rightarrow> push_other_branch w b
          | Some (Some RefUpstream) \<Rightarrow> push_upstream w b)"

definition resolvePrBranch :: "delivery_world \<Rightarrow> string option \<Rightarrow> string outcome" where
  "resolvePrBranch w branch =
     (case truthy (map_option trim branch) of
        Some b \<Rightarrow> OkOutcome b
      | None \<Rightarrow> bind_outcome (gp_currentBranch (dw_git w)) (\<lambda>current.
          case truthy (map_option trim current) of
            None \<Rightarrow> UnknownOutcome ''unable to resolve current branch''
          | Some b \<Rightarrow> OkOutcome b))"

definition pr_delta :: "baseline \<Rightarrow> (string \<Rightarrow> string \<Rightarrow> js_number outcome) \<Rightarrow> open_pr option \<Rightarrow> bool outcome" where
  "pr_delta b between pr =
     (case pr of
        None \<Rightarrow> OkOutcome False
      | Some p \<Rightarrow>
          if bl_prNumber b = None then OkOutcome True
          else if bl_prNumber b \<noteq> Some (pr_number p) then OkOutcome True
          else case (truthy (bl_prHeadSha b), truthy (pr_headSha p)) of
            (Some base, Some head) \<Rightarrow> delta_met (between base head)
          | _ \<Rightarrow> UnknownOutcome ''unable to resolve PR head sha for delta evaluation'')"

definition evalPr :: "delivery_world \<Rightarrow> delivery_input \<Rightarrow> string option \<Rightarrow> bool outcome" where
  "evalPr w inp branch =
     bind_outcome (resolvePrBranch w branch) (\<lambda>br.
       case di_baseline inp of
         None \<Rightarrow> pp_hasOpenPrForBranch (dw_pr w) br
       | Some b \<Rightarrow>
           if other_cwd inp b then UnknownOutcome ''baseline captured in a different cwd''
           else case (pp_getOpenPrForBranch (dw_pr w), gp_commitsBetween (dw_git w)) of
             (Some getPr, Some between) \<Rightarrow> bind_outcome (getPr br) (pr_delta b between)
           | _ \<Rightarrow> pp_hasOpenPrForBranch (dw_pr w) br)"

fun evaluateOne :: "delivery_world \<Rightarrow> delivery_input \<Rightarrow> expectation \<Rightarrow> bool outcome" where
  "evaluateOne w inp ExCommit = evalCommit w inp"
| "evaluateOne w inp ExPush = evalPush w inp"
| "evaluateOne w inp (ExFile p) = (case dw_fs w of Some exists \<Rightarrow> exists p | None \<Rightarrow> default_exists w inp p)"
| "evaluateOne w inp (ExText regex) =
     (if di_finalAssistantTextIsClosing inp = Some False then OkOutcome False
      else dw_regexTest w regex (take max_text_bytes (di_finalAssistantText inp)))"
| "evaluateOne w inp (ExPr branch) = evalPr w inp branch"

record delivery_verdict =
  dv_met :: bool
  dv_unmet :: "string list"
  dv_unknown :: "(string \<times> string) list"

fun judge_spec ::
  "delivery_world \<Rightarrow> delivery_input \<Rightarrow> string list \<times> (string \<times> string) list \<Rightarrow> string \<Rightarrow>
   string list \<times> (string \<times> string) list" where
  "judge_spec w inp (unmet, unknown) raw =
     (let spec = trim raw in
      if spec = [] then (unmet, unknown)
      else case parseChannelDeliveryExpectation (dw_compiles w) spec of
        Inl _ \<Rightarrow> (unmet @ [spec], unknown)
      | Inr e \<Rightarrow> (case evaluateOne w inp e of
          OkOutcome b \<Rightarrow> if b then (unmet, unknown) else (unmet @ [spec], unknown)
        | UnknownOutcome reason \<Rightarrow> (unmet, unknown @ [(spec, reason)])))"

definition evaluateDeliveryContract :: "delivery_world \<Rightarrow> delivery_input \<Rightarrow> delivery_verdict" where
  "evaluateDeliveryContract w inp =
     (case foldl (judge_spec w inp) ([], []) (di_expect inp) of (unmet, unknown) \<Rightarrow>
        \<lparr>dv_met = (unmet = [] \<and> unknown = []), dv_unmet = unmet, dv_unknown = unknown\<rparr>)"

end
