(* ===== verification/Delivery_Safety.thy ===== *)
theory Delivery_Safety
  imports Delivery_Contract
begin

text \<open>
  What the parser of delivery contracts guarantees and what the evaluation says: accepted contracts are
  stable and screened, an accepted file stays inside the routing directory, the verdict accounts for every
  expectation, and a repository in which nothing happened satisfies none of them.
\<close>

section \<open>Accepted contracts\<close>

lemma bind_sum_Inr: "bind_sum r f = Inr y \<longleftrightarrow> (\<exists>x. r = Inr x \<and> f x = Inr y)"
  by (cases r) (simp_all add: bind_sum_def)

lemma parse_all_Inr:
  "parse_all compiles ss = Inr es \<longleftrightarrow> list_all2 (\<lambda>s e. parseChannelDeliveryExpectation compiles s = Inr e) ss es"
  by (induction ss arbitrary: es) (auto simp: bind_sum_Inr list_all2_Cons1)

text \<open>What an accepted expectation is known to be.\<close>

fun expectation_ok :: "(string \<Rightarrow> bool) \<Rightarrow> expectation \<Rightarrow> bool" where
  "expectation_ok compiles ExCommit = True"
| "expectation_ok compiles ExPush = True"
| "expectation_ok compiles (ExPr b) = (case b of None \<Rightarrow> True | Some br \<Rightarrow> br \<noteq> [] \<and> trim br = br)"
| "expectation_ok compiles (ExFile p) =
     (p \<noteq> [] \<and> \<not> is_absolute p \<and> ''..'' \<notin> set (split_slash p))"
| "expectation_ok compiles (ExText r) =
     (r \<noteq> [] \<and> compiles r \<and> \<not> has_backreference False r \<and> \<not> nested_quantifier [False] False r)"

lemma normalize_relative:
  assumes "\<not> is_absolute p"
  shows "\<not> is_absolute (posix_normalize p)"
proof -
  have "join_slash (normal_segments True p) = [] \<or> hd (join_slash (normal_segments True p)) \<noteq> CHR ''/''"
    by (rule join_slash_head [OF normal_segments_solid])
  then show ?thesis using assms by (auto simp: posix_normalize_def Let_def is_absolute_iff hd_append)
qed

lemma ensureNonEmpty_Inr: "ensureNonEmpty v l spec = Inr x \<longleftrightarrow> x = trim v \<and> x \<noteq> []"
  by (auto simp: ensureNonEmpty_def)

lemma parse_file_ok: "parse_file spec rel = Inr e \<Longrightarrow> expectation_ok compiles e"
  by (auto simp: parse_file_def Let_def normalize_relative split: if_splits)

lemma parse_text_ok: "p \<noteq> [] \<Longrightarrow> parse_text compiles spec p = Inr e \<Longrightarrow> expectation_ok compiles e"
  by (auto simp: parse_text_def assertSafeTextRegex_def split: if_splits option.splits)

lemma parsed_ok: "parseChannelDeliveryExpectation compiles s = Inr e \<Longrightarrow> expectation_ok compiles e"
  unfolding parseChannelDeliveryExpectation_def Let_def
  by (auto simp: bind_sum_Inr ensureNonEmpty_Inr parse_file_ok parse_text_ok split: if_splits)

lemma parse_trim [simp]: "parseChannelDeliveryExpectation compiles (trim s) = Inr e \<longleftrightarrow>
    parseChannelDeliveryExpectation compiles s = Inr e"
  by (auto simp: parseChannelDeliveryExpectation_def Let_def split: if_splits)

lemma contract_Inr:
  "parseChannelDeliveryContract compiles (Some specs) = Inr (Some t) \<longleftrightarrow>
    specs \<noteq> [] \<and> dt_expect t = map trim specs \<and> [] \<notin> set (dt_expect t) \<and>
    list_all2 (\<lambda>s e. parseChannelDeliveryExpectation compiles s = Inr e) (dt_expect t) (dt_parsed t)"
  by (cases t) (auto simp: parseChannelDeliveryContract_def Let_def bind_sum_Inr parse_all_Inr list_ex_iff)

text \<open>An accepted contract is stable and screened: its specs are the trimmed ones, none is empty, each parses to the
  expectation stored beside it, and parsing the stored specs again gives the same contract; a branch is trimmed and
  not empty, a file path is relative and has no double dot, and a pattern compiles and has neither
  a back reference nor a nested quantifier that the scans recognise.\<close>

theorem accepted_contract_is_stable:
  assumes "parseChannelDeliveryContract compiles (Some specs) = Inr (Some t)"
  shows "dt_expect t = map trim specs \<and> length (dt_parsed t) = length specs \<and>
    parseChannelDeliveryContract compiles (Some (dt_expect t)) = Inr (Some t) \<and>
    list_all (\<lambda>s. s \<noteq> []) (dt_expect t) \<and> list_all (expectation_ok compiles) (dt_parsed t)"
proof -
  have t: "specs \<noteq> []" "dt_expect t = map trim specs" "[] \<notin> set (dt_expect t)"
    "list_all2 (\<lambda>s e. parseChannelDeliveryExpectation compiles s = Inr e) (dt_expect t) (dt_parsed t)"
    using assms unfolding contract_Inr by blast+
  have "list_all (expectation_ok compiles) (dt_parsed t)"
    using t(4) parsed_ok by (fastforce simp: list_all_iff list_all2_iff in_set_conv_nth set_zip)
  moreover have "parseChannelDeliveryContract compiles (Some (dt_expect t)) = Inr (Some t)"
    using t(1,3,4) unfolding contract_Inr t(2) by (simp add: o_def)
  moreover have "length (dt_parsed t) = length specs" using list_all2_lengthD [OF t(4)] t(2) by simp
  moreover have "list_all (\<lambda>s. s \<noteq> []) (dt_expect t)" using t(3) unfolding list_all_iff by metis
  ultimately show ?thesis using t(2) by blast
qed

theorem accepted_contract_is_stable_witness:
  "parseChannelDeliveryContract (\<lambda>_. True) (Some [''file:doc/a.md'', ''text:done'']) =
     Inr (Some \<lparr>dt_expect = [''file:doc/a.md'', ''text:done''], dt_parsed = [ExFile ''doc/a.md'', ExText ''done'']\<rparr>)"
proof -
  have "parseChannelDeliveryContract (\<lambda>_. True) (Some ['' file: ./doc//a.md '', ''text:done'']) =
     Inr (Some \<lparr>dt_expect = [''file: ./doc//a.md'', ''text:done''], dt_parsed = [ExFile ''doc/a.md'', ExText ''done'']\<rparr>)"
    by code_simp
  from accepted_contract_is_stable [OF this] show ?thesis by code_simp
qed

section \<open>Files stay inside the routing directory\<close>

lemma split_join:
  "list_all plain_segment segs \<Longrightarrow> segs \<noteq> [] \<Longrightarrow> split_slash (join_slash segs) = segs"
proof (induction segs rule: join_slash.induct)
  case (3 s t ss)
  have "split_slash (s @ CHR ''/'' # join_slash (t # ss)) = split_slash s @ split_slash (join_slash (t # ss))"
    by (rule split_slash_append)
  with 3 show ?case by (simp add: split_slash_single plain_segment_def)
qed (simp_all add: split_slash_single plain_segment_def)

lemma push_plain: "list_all plain_segment segs \<Longrightarrow> foldl (push_segment up) stack segs = stack @ segs"
  by (induction segs arbitrary: stack) (simp_all add: push_segment_def plain_segment_def)

lemma push_downward: "''..'' \<notin> set segs \<Longrightarrow>
    foldl (push_segment up) stack segs = stack @ filter (\<lambda>s. s \<noteq> [] \<and> s \<noteq> ''.'') segs"
  by (induction segs arbitrary: stack) (auto simp: push_segment_def)

lemma normal_segments_below:
  assumes "list_all plain_segment segs" "''..'' \<notin> set (split_slash p)"
  shows "normal_segments False ((''/'' @ join_slash segs) @ ''/'' @ p) =
    segs @ filter (\<lambda>s. s \<noteq> [] \<and> s \<noteq> ''.'') (split_slash p)"
proof -
  have "split_slash (CHR ''/'' # join_slash segs) = [] # split_slash (join_slash segs)" by simp
  moreover have "foldl (push_segment False) [] (split_slash (join_slash segs)) = segs"
    using assms(1) push_plain [of segs False "[]"] by (cases "segs = []") (simp_all add: split_join push_segment_def)
  ultimately have "foldl (push_segment False) [] (split_slash (CHR ''/'' # join_slash segs)) = segs"
    by (simp add: push_segment_def)
  with push_downward [OF assms(2), of False segs] show ?thesis
    using split_slash_append [of "CHR ''/'' # join_slash segs" p] by (simp add: normal_segments_def)
qed

lemma join_append: "a \<noteq> [] \<Longrightarrow> b \<noteq> [] \<Longrightarrow> join_slash (a @ b) = join_slash a @ ''/'' @ join_slash b"
proof (induction a rule: join_slash.induct)
  case (2 s)
  then show ?case by (cases b) simp_all
qed simp_all

lemma join_plain_end: "list_all plain_segment segs \<Longrightarrow> segs \<noteq> [] \<Longrightarrow> \<not> ends_with (''/'' @ join_slash segs) ''/''"
proof -
  assume segs: "list_all plain_segment segs" "segs \<noteq> []"
  then have "join_slash segs \<noteq> [] \<and> last (join_slash segs) \<noteq> CHR ''/''"
  proof (induction segs rule: join_slash.induct)
    case (2 s)
    then show ?case by (auto simp: plain_segment_def) (metis last_in_set)
  qed simp_all
  then show ?thesis by (auto simp: ends_with_iff) (metis last_snoc append_Cons append_is_Nil_conv last_ConsR)
qed

lemma resolve_dir: "is_absolute wd \<Longrightarrow> \<exists>segs. posix_resolve wd ps = ''/'' @ join_slash segs \<and> list_all plain_segment segs"
  by (auto simp: posix_resolve_def normal_segments_plain)

text \<open>C34: A file expectation cannot look outside the routing directory: when one is accepted, the default file probe
  never finds that it escapes but asks for the existence of one absolute path whose parts, all dots resolved, begin with those of the
  directory.\<close>

theorem file_expectation_stays_inside:
  assumes "parseChannelDeliveryExpectation compiles spec = Inr (ExFile p)" and "dw_fs w = None" and "is_absolute (dw_workdir w)"
  shows "\<exists>target rest. evaluateOne w inp (ExFile p) = OkOutcome (dw_existsSync w target) \<and> is_absolute target \<and>
    path_parts target = path_parts (posix_resolve (dw_workdir w) [di_cwd inp]) @ rest \<and> ''..'' \<notin> set (path_parts target)"
proof -
  define cwd where "cwd = posix_resolve (dw_workdir w) [di_cwd inp]"
  obtain segs where segs: "cwd = ''/'' @ join_slash segs" "list_all plain_segment segs"
    unfolding cwd_def using resolve_dir [OF assms(3)] by blast
  have p: "p \<noteq> []" "\<not> is_absolute p" "''..'' \<notin> set (split_slash p)" using parsed_ok [OF assms(1)] by auto
  define rest where "rest = filter (\<lambda>s. s \<noteq> [] \<and> s \<noteq> ''.'') (split_slash p)"
  have abs: "is_absolute cwd" by (simp add: segs is_absolute_def starts_with_def)
  have target: "posix_resolve (dw_workdir w) [cwd, p] = ''/'' @ join_slash (segs @ rest)"
    using p abs normal_segments_below [OF segs(2) p(3)] by (simp add: posix_resolve_def rest_def segs(1) is_absolute_def starts_with_def)
  have "list_all plain_segment rest"
    using p(3) split_slash_no_slash by (auto simp: rest_def list_all_iff plain_segment_def)
  with segs(2) have plain: "list_all plain_segment (segs @ rest)" by simp
  have parts: "path_parts (''/'' @ join_slash ss) = ss" if "list_all plain_segment ss" for ss
    using path_parts_join [OF that] by (simp add: path_parts_def)
  have inside: "''/'' @ join_slash (segs @ rest) = cwd \<or>
      starts_with (''/'' @ join_slash (segs @ rest)) (if ends_with cwd ''/'' then cwd else cwd @ ''/'')"
  proof (cases "rest = [] \<or> segs = []")
    case True
    then show ?thesis by (auto simp: segs(1) starts_with_iff ends_with_iff)
  next
    case False
    with join_plain_end [OF segs(2)] have "\<not> ends_with cwd ''/''" by (simp add: segs(1))
    with False show ?thesis by (simp add: segs(1) join_append starts_with_iff)
  qed
  have "evaluateOne w inp (ExFile p) = OkOutcome (dw_existsSync w (''/'' @ join_slash (segs @ rest)))"
    using inside by (simp add: assms(2) default_exists_def Let_def cwd_def [symmetric] target)
  moreover have "''..'' \<notin> set (segs @ rest)" using plain by (auto simp: list_all_iff plain_segment_def)
  ultimately show ?thesis
    using parts [OF plain] parts [OF segs(2)]
    by (intro exI [of _ "''/'' @ join_slash (segs @ rest)"] exI [of _ rest])
      (simp add: cwd_def [symmetric] segs(1), simp add: is_absolute_def starts_with_def)
qed

theorem file_expectation_stays_inside_witness:
  "\<exists>target rest. path_parts target = [''repo'', ''web''] @ rest \<and> is_absolute target"
proof -
  define w where "w = \<lparr>dw_git = undefined, dw_pr = undefined, dw_fs = None, dw_workdir = ''/srv'', dw_existsSync = (\<lambda>_. True),
    dw_compiles = (\<lambda>_. True), dw_regexTest = (\<lambda>_ _. OkOutcome True)\<rparr>"
  define inp where "inp = \<lparr>di_expect = [], di_cwd = ''/repo/web'', di_baseline = None, di_finalAssistantText = [],
    di_finalAssistantTextIsClosing = None\<rparr>"
  have p: "parseChannelDeliveryExpectation (\<lambda>_. True) ''file:src/../a.ts'' = Inr (ExFile ''a.ts'')" by code_simp
  have abs: "dw_fs w = None" "is_absolute (dw_workdir w)" by (simp_all add: w_def is_absolute_def starts_with_def)
  have cwd: "path_parts (posix_resolve (dw_workdir w) [di_cwd inp]) = [''repo'', ''web'']"
    by (simp add: w_def inp_def) code_simp
  from file_expectation_stays_inside [OF p abs, of inp] show ?thesis unfolding cwd by blast
qed

text \<open>The routing directory itself is accepted as a file when it is written with a slash at the end, although it is
  refused without.\<close>

lemma directory_accepted_as_file:
  "parseChannelDeliveryExpectation (\<lambda>_. True) ''file:src/../'' = Inr (ExFile ''./'') \<and>
   parseChannelDeliveryExpectation (\<lambda>_. True) ''file:src/..'' = Inl (FileEmpty ''file:src/..'' ''src/..'')"
  by code_simp

text \<open>A group repeated as a whole is not marked in the group around it, so a nested quantifier is missed when the inner
  repetition is that of a group.\<close>

lemma nested_group_quantifier_missed:
  "nested_quantifier [False] False ''(a+)+'' \<and> nested_quantifier [False] False ''((a+)b)+'' \<and>
   \<not> nested_quantifier [False] False ''((a)+)+'' \<and> \<not> nested_quantifier [False] False ''((a|b)*)*''"
  by code_simp

section \<open>The verdict\<close>

definition specs_with :: "(expectation \<Rightarrow> bool outcome) \<Rightarrow> bool outcome \<Rightarrow> (string \<times> expectation) list \<Rightarrow> string list" where
  "specs_with eval r ses = map fst (filter (\<lambda>(s, e). eval e = r) ses)"

definition undecided :: "(expectation \<Rightarrow> bool outcome) \<Rightarrow> (string \<times> expectation) list \<Rightarrow> (string \<times> string) list" where
  "undecided eval ses = concat (map (\<lambda>(s, e). case eval e of UnknownOutcome reason \<Rightarrow> [(s, reason)] | OkOutcome _ \<Rightarrow> []) ses)"

lemma judge_foldl:
  assumes "list_all2 (\<lambda>s e. parseChannelDeliveryExpectation (dw_compiles w) s = Inr e) ss es"
    and "\<forall>s\<in>set ss. s \<noteq> [] \<and> trim s = s"
  shows "foldl (judge_spec w inp) (unmet, unknown) ss =
    (unmet @ specs_with (evaluateOne w inp) (OkOutcome False) (zip ss es), unknown @ undecided (evaluateOne w inp) (zip ss es))"
  using assms
proof (induction ss es arbitrary: unmet unknown rule: list_all2_induct)
  case (Cons s ss e es)
  then show ?case
    by (cases "evaluateOne w inp e") (auto simp: Let_def specs_with_def undecided_def)
qed (simp add: specs_with_def undecided_def)

text \<open>The verdict on an accepted contract accounts for each expectation once: the contract is met exactly when every expectation
  evaluates to true; the unmet specs are those that evaluate to false and the unknown ones those without an answer, each
  with its reason, in the order of the contract.\<close>

theorem delivery_verdict_exact:
  assumes "parseChannelDeliveryContract (dw_compiles w) (Some specs) = Inr (Some t)" and "di_expect inp = dt_expect t"
  defines "v \<equiv> evaluateDeliveryContract w inp"
  shows "(dv_met v \<longleftrightarrow> list_all (\<lambda>e. evaluateOne w inp e = OkOutcome True) (dt_parsed t)) \<and>
    dv_unmet v = map fst (filter (\<lambda>(s, e). evaluateOne w inp e = OkOutcome False) (zip (dt_expect t) (dt_parsed t))) \<and>
    dv_unknown v = concat (map (\<lambda>(s, e). case evaluateOne w inp e of UnknownOutcome reason \<Rightarrow> [(s, reason)] | OkOutcome _ \<Rightarrow> [])
      (zip (dt_expect t) (dt_parsed t)))"
proof -
  have t: "dt_expect t = map trim specs" "[] \<notin> set (dt_expect t)"
    "list_all2 (\<lambda>s e. parseChannelDeliveryExpectation (dw_compiles w) s = Inr e) (dt_expect t) (dt_parsed t)"
    using assms(1) unfolding contract_Inr by blast+
  have "\<forall>s\<in>set (dt_expect t). s \<noteq> []" using t(2) by metis
  moreover have "\<forall>s\<in>set (dt_expect t). trim s = s" using t(1) by auto
  ultimately have "\<forall>s\<in>set (dt_expect t). s \<noteq> [] \<and> trim s = s" by blast
  note fold = judge_foldl [OF t(3) this, of inp "[]" "[]", folded assms(2)]
  have met: "specs_with ev (OkOutcome False) (zip ss es) = [] \<and> undecided ev (zip ss es) = [] \<longleftrightarrow>
      list_all (\<lambda>e. ev e = OkOutcome True) es" if "list_all2 P ss es" for P ev and ss es
    using that
  proof (induction ss es rule: list_all2_induct)
    case (Cons s ss e es)
    then show ?case by (cases "ev e") (auto simp: specs_with_def undecided_def)
  qed (simp add: specs_with_def undecided_def)
  show ?thesis
    unfolding v_def evaluateDeliveryContract_def fold
    using met [OF t(3), of "evaluateOne w inp"] by (simp add: assms(2) specs_with_def undecided_def)
qed

section \<open>No work, no credit\<close>

text \<open>Every probe reports the state in which the baseline was taken.\<close>

definition unchanged_since :: "delivery_world \<Rightarrow> baseline \<Rightarrow> bool" where
  "unchanged_since w b \<longleftrightarrow>
     gp_headSha (dw_git w) = Some (OkOutcome (Some (bl_headSha b))) \<and> trim (bl_headSha b) = bl_headSha b \<and>
     gp_upstreamRef (dw_git w) = Some (OkOutcome (bl_upstreamRef b)) \<and>
     gp_upstreamSha (dw_git w) = Some (OkOutcome (bl_upstreamSha b)) \<and>
     (\<exists>ls. gp_lsRemoteBranchSha (dw_git w) = Some ls \<and> (\<forall>r br. ls r br = OkOutcome (bl_upstreamSha b))) \<and>
     map_option trim (bl_upstreamSha b) = bl_upstreamSha b \<and>
     (\<exists>between. gp_commitsBetween (dw_git w) = Some between \<and> (\<forall>x. between x x = OkOutcome (IntNum 0))) \<and>
     (\<exists>get. pp_getOpenPrForBranch (dw_pr w) = Some get \<and>
        (\<forall>br. get br = OkOutcome (map_option (\<lambda>n. \<lparr>pr_number = n, pr_headSha = bl_prHeadSha b\<rparr>) (bl_prNumber b))))"

lemma truthy_SomeD: "truthy x = Some v \<Longrightarrow> x = Some v"
  by (auto simp: truthy_def split: option.splits if_splits)

text \<open>No work, no credit: when nothing has changed since the baseline was taken, no expectation of a commit, a push or a
  pull request is met, whatever branch it names.\<close>

theorem unchanged_repository_earns_nothing:
  assumes "di_baseline inp = Some b" and "unchanged_since w b"
  shows "evaluateOne w inp ExCommit \<noteq> OkOutcome True \<and> evaluateOne w inp ExPush \<noteq> OkOutcome True \<and>
    evaluateOne w inp (ExPr branch) \<noteq> OkOutcome True"
proof (intro conjI)
  note u = assms(2) [unfolded unchanged_since_def]
  obtain between where between: "gp_commitsBetween (dw_git w) = Some between" "\<And>x. between x x = OkOutcome (IntNum 0)" using u by blast
  have none: "delta_met (OkOutcome (IntNum 0)) = OkOutcome False" by (simp add: delta_met_def bind_outcome_def at_least_one_def)
  show "evaluateOne w inp ExCommit \<noteq> OkOutcome True"
    using u by (auto simp: evalCommit_def assms(1) between none bind_outcome_def Let_def)
  have "push_upstream w b \<noteq> OkOutcome True"
    using u by (auto simp: push_upstream_def between none bind_outcome_def split: option.split)
  moreover have "push_other_branch w b \<noteq> OkOutcome True"
    using u by (auto simp: push_other_branch_def bind_outcome_def is_truthy_def split: option.split outcome.split dest: truthy_SomeD)
  ultimately show "evaluateOne w inp ExPush \<noteq> OkOutcome True"
    by (auto simp: evalPush_def assms(1) split: option.split ref_source.split)
  obtain get where get: "pp_getOpenPrForBranch (dw_pr w) = Some get"
    "\<And>br. get br = OkOutcome (map_option (\<lambda>n. \<lparr>pr_number = n, pr_headSha = bl_prHeadSha b\<rparr>) (bl_prNumber b))" using u by blast
  have "pr_delta b between (map_option (\<lambda>n. \<lparr>pr_number = n, pr_headSha = bl_prHeadSha b\<rparr>) (bl_prNumber b)) \<noteq> OkOutcome True"
    by (auto simp: pr_delta_def between none split: option.split)
  then show "evaluateOne w inp (ExPr branch) \<noteq> OkOutcome True"
    by (auto simp: evalPr_def assms(1) between get bind_outcome_def split: outcome.split)
qed

definition sample_world :: delivery_world where
  "sample_world = \<lparr>dw_git = \<lparr>gp_currentBranch = OkOutcome (Some ''main''), gp_aheadCount = OkOutcome (IntNum 2),
       gp_headSha = Some (OkOutcome (Some ''c1'')), gp_upstreamRef = Some (OkOutcome (Some ''origin/main'')),
       gp_lsRemoteBranchSha = Some (\<lambda>_ _. OkOutcome (Some ''c0'')), gp_upstreamSha = Some (OkOutcome (Some ''c0'')),
       gp_commitsBetween = Some (\<lambda>a b. OkOutcome (IntNum (if a = b then 0 else 1)))\<rparr>,
     dw_pr = \<lparr>pp_hasOpenPrForBranch = \<lambda>_. OkOutcome True,
       pp_getOpenPrForBranch = Some (\<lambda>_. OkOutcome (Some \<lparr>pr_number = 7, pr_headSha = Some ''c1''\<rparr>))\<rparr>,
     dw_fs = None, dw_workdir = ''/srv'', dw_existsSync = \<lambda>p. p = ''/repo/a.md'', dw_compiles = \<lambda>_. True,
     dw_regexTest = \<lambda>_ _. OkOutcome True\<rparr>"

definition sample_baseline :: baseline where
  "sample_baseline = \<lparr>bl_headSha = ''c1'', bl_upstreamRef = Some ''origin/main'', bl_upstreamRefSource = Some (Some RefUpstream),
     bl_upstreamSha = Some ''c0'', bl_prNumber = Some 7, bl_prHeadSha = Some ''c1'', bl_cwd = None\<rparr>"

definition sample_delivery :: "string list \<Rightarrow> delivery_input" where
  "sample_delivery expect = \<lparr>di_expect = expect, di_cwd = ''/repo'', di_baseline = Some sample_baseline,
     di_finalAssistantText = ''done'', di_finalAssistantTextIsClosing = Some True\<rparr>"

theorem unchanged_repository_earns_nothing_witness:
  "evaluateOne sample_world (sample_delivery []) (ExPr None) \<noteq> OkOutcome True"
proof -
  have "unchanged_since sample_world sample_baseline"
    by (auto simp: unchanged_since_def sample_world_def sample_baseline_def) code_simp+
  with unchanged_repository_earns_nothing [of "sample_delivery []" sample_baseline sample_world None] show ?thesis
    by (simp add: sample_delivery_def)
qed

theorem delivery_verdict_exact_witness:
  "dv_unmet (evaluateDeliveryContract sample_world (sample_delivery [''file:a.md'', ''commit''])) = [''commit'']"
proof -
  have p: "parseChannelDeliveryContract (dw_compiles sample_world) (Some [''file:a.md'', '' commit'']) =
      Inr (Some \<lparr>dt_expect = [''file:a.md'', ''commit''], dt_parsed = [ExFile ''a.md'', ExCommit]\<rparr>)"
    by (simp add: sample_world_def) code_simp
  have e: "evaluateOne sample_world (sample_delivery [''file:a.md'', ''commit'']) (ExFile ''a.md'') = OkOutcome True"
    "evaluateOne sample_world (sample_delivery [''file:a.md'', ''commit'']) ExCommit = OkOutcome False"
    by code_simp+
  from delivery_verdict_exact [OF p, of "sample_delivery [''file:a.md'', ''commit'']"] e show ?thesis
    by (simp add: sample_delivery_def)
qed

text \<open>The catch-all branch at the end of \<open>deliveryContractUnmetIntent\<close> parses only what cannot be parsed.\<close>

lemma unmet_intent_fallback:
  assumes "trim spec \<noteq> ''commit''" "trim spec \<noteq> ''push''" "trim spec \<noteq> ''pr''" "\<not> starts_with (trim spec) ''pr:''"
    "\<not> starts_with (trim spec) ''file:''" "\<not> starts_with (trim spec) ''text:''"
  shows "deliveryContractUnmetIntent compiles spec = ''unmet delivery expectation''"
  using assms by (simp add: deliveryContractUnmetIntent_def parseChannelDeliveryExpectation_def Let_def)

end
