(* ===== verification/Control_State.thy ===== *)
theory Control_State
  imports High_Risk
begin

text \<open>
  The control state of a tab (\<open>shared/control-state.ts\<close>): who drives it, how fresh that is known to be, and the
  last intervention. A stored summary is a value of type \<open>unknown\<close>; the normaliser reads it or falls back to
  the legacy summary. \<open>summary_json\<close> is the summary as the object it is.
\<close>

section \<open>Data\<close>

datatype control_mode = AgentDriven | HumanDriven | CoDriven

datatype control_freshness = FreshState | StaleState | UnknownState

datatype control_actor_kind = CaAgent | CaHuman | CaSystem

record control_actor =
  ca_kind :: control_actor_kind
  ca_id :: "string option"
  ca_label :: "string option"
  ca_node :: "string option"
  ca_session :: "string option"

record control_summary =
  cs_controlMode :: control_mode
  cs_activeActors :: "control_actor list"
  cs_lastInterventionAt :: "string option"
  cs_lastInterventionBy :: "control_actor option"
  cs_lastInterventionEventId :: "string option"
  cs_controlFreshness :: control_freshness
  cs_controlReason :: "string option"

definition legacy_control_actor :: control_actor where
  "legacy_control_actor = \<lparr>ca_kind = CaHuman, ca_id = Some ''local-user'', ca_label = Some ''Local user'', ca_node = None, ca_session = None\<rparr>"

definition createLegacyControlStateSummary :: "string \<Rightarrow> control_summary" where
  "createLegacyControlStateSummary reason =
     \<lparr>cs_controlMode = HumanDriven, cs_activeActors = [legacy_control_actor], cs_lastInterventionAt = None,
      cs_lastInterventionBy = None, cs_lastInterventionEventId = None, cs_controlFreshness = UnknownState,
      cs_controlReason = Some reason\<rparr>"

section \<open>Guards\<close>

fun control_mode_name :: "control_mode \<Rightarrow> string" where
  "control_mode_name AgentDriven = ''agent-driven''" | "control_mode_name HumanDriven = ''human-driven''"
| "control_mode_name CoDriven = ''co-driven''"

fun freshness_name :: "control_freshness \<Rightarrow> string" where
  "freshness_name FreshState = ''fresh''" | "freshness_name StaleState = ''stale''" | "freshness_name UnknownState = ''unknown''"

fun control_kind_name :: "control_actor_kind \<Rightarrow> string" where
  "control_kind_name CaAgent = ''agent''" | "control_kind_name CaHuman = ''human''" | "control_kind_name CaSystem = ''system''"

text \<open>A guard of the source is the success of the reader of the same name.\<close>

definition isControlMode :: "json \<Rightarrow> control_mode option" where
  "isControlMode v = List.find (\<lambda>m. v = JStr (control_mode_name m)) [AgentDriven, HumanDriven, CoDriven]"

definition isControlFreshness :: "json \<Rightarrow> control_freshness option" where
  "isControlFreshness v = List.find (\<lambda>f. v = JStr (freshness_name f)) [FreshState, StaleState, UnknownState]"

definition isControlActorKind :: "json \<Rightarrow> control_actor_kind option" where
  "isControlActorKind v = List.find (\<lambda>k. v = JStr (control_kind_name k)) [CaAgent, CaHuman, CaSystem]"

section \<open>Normalisation\<close>

text \<open>\<open>optionalString\<close> and \<open>optionalNullableString\<close>: a string with something besides white space, trimmed.\<close>

definition optionalString :: "json \<Rightarrow> string option" where
  "optionalString v = (case v of JStr s \<Rightarrow> truthy (Some (trim s)) | _ \<Rightarrow> None)"

definition normalizeControlActor :: "json \<Rightarrow> control_actor option" where
  "normalizeControlActor v =
     (if \<not> is_record v then None
      else case isControlActorKind (fld v ''kind'') of
        None \<Rightarrow> None
      | Some k \<Rightarrow> Some \<lparr>ca_kind = k, ca_id = optionalString (fld v ''id''), ca_label = optionalString (fld v ''displayName''),
          ca_node = optionalString (fld v ''nodeId''), ca_session = optionalString (fld v ''sessionId'')\<rparr>)"

definition or_null_str :: "string option \<Rightarrow> json" where
  "or_null_str s = (case s of None \<Rightarrow> JNull | Some x \<Rightarrow> JStr x)"

text \<open>The key holds no number, so the rendering of numbers does not matter.\<close>

definition controlActorIdentityKey :: "control_actor \<Rightarrow> string" where
  "controlActorIdentityKey a = json_stringify (\<lambda>_. [])
     (JArr [JStr (control_kind_name (ca_kind a)), or_null_str (ca_id a), or_null_str (ca_node a), or_null_str (ca_session a)])"

fun distinct_actors :: "string set \<Rightarrow> json list \<Rightarrow> control_actor list" where
  "distinct_actors seen [] = []"
| "distinct_actors seen (v # vs) =
     (case normalizeControlActor v of
        None \<Rightarrow> distinct_actors seen vs
      | Some a \<Rightarrow> if controlActorIdentityKey a \<in> seen then distinct_actors seen vs
          else a # distinct_actors (insert (controlActorIdentityKey a) seen) vs)"

definition normalizeControlActors :: "json \<Rightarrow> control_actor list" where
  "normalizeControlActors v = (case v of JArr vs \<Rightarrow> distinct_actors {} vs | _ \<Rightarrow> [])"

definition normalizeControlStateSummary :: "json \<Rightarrow> string \<Rightarrow> control_summary" where
  "normalizeControlStateSummary v fallbackReason =
     (if \<not> is_record v then createLegacyControlStateSummary fallbackReason
      else
        case (isControlMode (fld v ''controlMode''), normalizeControlActors (fld v ''activeActors''),
              isControlFreshness (fld v ''controlFreshness'')) of
          (Some mode, a # as, Some fresh) \<Rightarrow>
            \<lparr>cs_controlMode = mode, cs_activeActors = a # as,
             cs_lastInterventionAt = optionalString (fld v ''lastInterventionAt''),
             cs_lastInterventionBy = normalizeControlActor (fld v ''lastInterventionBy''),
             cs_lastInterventionEventId = optionalString (fld v ''lastInterventionEventId''),
             cs_controlFreshness = fresh, cs_controlReason = optionalString (fld v ''controlReason'')\<rparr>
        | _ \<Rightarrow> createLegacyControlStateSummary fallbackReason)"

definition isControlStateSummary :: "json \<Rightarrow> bool" where
  "isControlStateSummary v \<longleftrightarrow> is_record v \<and> isControlMode (fld v ''controlMode'') \<noteq> None \<and>
     normalizeControlActors (fld v ''activeActors'') \<noteq> [] \<and> isControlFreshness (fld v ''controlFreshness'') \<noteq> None \<and>
     fld v ''activeWorker'' = JUndef \<and>
     (fld v ''lastInterventionBy'' = JNull \<or> normalizeControlActor (fld v ''lastInterventionBy'') \<noteq> None) \<and>
     (fld v ''lastInterventionAt'' = JNull \<or> is_str (fld v ''lastInterventionAt'')) \<and>
     (fld v ''lastInterventionEventId'' = JNull \<or> is_str (fld v ''lastInterventionEventId'')) \<and>
     opt_sat is_str (fld v ''controlReason'')"

section \<open>Summaries as objects\<close>

definition actor_json :: "control_actor \<Rightarrow> json" where
  "actor_json a = JObj ([(''kind'', JStr (control_kind_name (ca_kind a)))] @ opt_member ''id'' (ca_id a) @
     opt_member ''displayName'' (ca_label a) @ opt_member ''nodeId'' (ca_node a) @ opt_member ''sessionId'' (ca_session a))"

definition summary_json :: "control_summary \<Rightarrow> json" where
  "summary_json s = JObj ([(''controlMode'', JStr (control_mode_name (cs_controlMode s))),
      (''activeActors'', JArr (map actor_json (cs_activeActors s))),
      (''lastInterventionAt'', or_null_str (cs_lastInterventionAt s)),
      (''lastInterventionBy'', case cs_lastInterventionBy s of None \<Rightarrow> JNull | Some a \<Rightarrow> actor_json a),
      (''lastInterventionEventId'', or_null_str (cs_lastInterventionEventId s)),
      (''controlFreshness'', JStr (freshness_name (cs_controlFreshness s)))] @
     opt_member ''controlReason'' (cs_controlReason s))"

section \<open>Reading back\<close>

definition tidy :: "string option \<Rightarrow> bool" where
  "tidy s \<longleftrightarrow> (case s of None \<Rightarrow> True | Some x \<Rightarrow> x \<noteq> [] \<and> trim x = x)"

definition actor_tidy :: "control_actor \<Rightarrow> bool" where
  "actor_tidy a \<longleftrightarrow> tidy (ca_id a) \<and> tidy (ca_label a) \<and> tidy (ca_node a) \<and> tidy (ca_session a)"

definition summary_tidy :: "control_summary \<Rightarrow> bool" where
  "summary_tidy s \<longleftrightarrow> cs_activeActors s \<noteq> [] \<and> list_all actor_tidy (cs_activeActors s) \<and>
     distinct (map controlActorIdentityKey (cs_activeActors s)) \<and>
     tidy (cs_lastInterventionAt s) \<and> tidy (cs_lastInterventionEventId s) \<and> tidy (cs_controlReason s) \<and>
     (case cs_lastInterventionBy s of None \<Rightarrow> True | Some a \<Rightarrow> actor_tidy a)"

lemma tidy_optionalString [simp]: "tidy (optionalString v)"
  by (auto simp: tidy_def optionalString_def truthy_def split: json.split)

lemma optionalString_tidy: "tidy s \<Longrightarrow> optionalString (or_null_str s) = s"
  by (auto simp: tidy_def optionalString_def truthy_def or_null_str_def split: option.splits)

lemma mode_back [simp]: "isControlMode (JStr (control_mode_name m)) = Some m"
  by (cases m) (simp_all add: isControlMode_def)

lemma freshness_back [simp]: "isControlFreshness (JStr (freshness_name f)) = Some f"
  by (cases f) (simp_all add: isControlFreshness_def)

lemma kind_back [simp]: "isControlActorKind (JStr (control_kind_name k)) = Some k"
  by (cases k) (simp_all add: isControlActorKind_def)

definition str_or_undef :: "string option \<Rightarrow> json" where
  "str_or_undef s = (case s of None \<Rightarrow> JUndef | Some x \<Rightarrow> JStr x)"

lemma map_of_opt_member [simp]: "map_of (opt_member k v) k' = (if k' = k then map_option JStr v else None)"
  by (simp add: opt_member_def split: option.split)

lemma optionalString_member: "tidy s \<Longrightarrow>
    optionalString (str_or_undef s) = s"
  by (auto simp: str_or_undef_def tidy_def optionalString_def truthy_def split: option.splits)

lemma actor_fields:
  "fld (actor_json a) ''kind'' = JStr (control_kind_name (ca_kind a))"
  "fld (actor_json a) ''id'' = str_or_undef (ca_id a)"
  "fld (actor_json a) ''displayName'' = str_or_undef (ca_label a)"
  "fld (actor_json a) ''nodeId'' = str_or_undef (ca_node a)"
  "fld (actor_json a) ''sessionId'' = str_or_undef (ca_session a)"
  by (auto simp: str_or_undef_def fld_def actor_json_def map_add_def split: option.split)

lemma actor_back: "actor_tidy a \<Longrightarrow> normalizeControlActor (actor_json a) = Some a"
  by (cases a) (simp add: normalizeControlActor_def actor_fields actor_tidy_def optionalString_member, simp add: actor_json_def is_record_def)

lemma normalized_actor_tidy: "normalizeControlActor v = Some a \<Longrightarrow> actor_tidy a"
  by (auto simp: normalizeControlActor_def actor_tidy_def split: if_splits option.splits)

lemma distinct_actors_wf:
  "list_all actor_tidy (distinct_actors seen vs) \<and> distinct (map controlActorIdentityKey (distinct_actors seen vs)) \<and>
   controlActorIdentityKey ` set (distinct_actors seen vs) \<inter> seen = {}"
  by (induction seen vs rule: distinct_actors.induct) (auto simp: normalized_actor_tidy split: option.splits)

lemma actors_back:
  "list_all actor_tidy as \<Longrightarrow> distinct (map controlActorIdentityKey as) \<Longrightarrow> controlActorIdentityKey ` set as \<inter> seen = {} \<Longrightarrow>
    distinct_actors seen (map actor_json as) = as"
  by (induction as arbitrary: seen) (auto simp: actor_back)

lemma control_summary_fields:
  "fld (summary_json s) ''controlMode'' = JStr (control_mode_name (cs_controlMode s))"
  "fld (summary_json s) ''activeActors'' = JArr (map actor_json (cs_activeActors s))"
  "fld (summary_json s) ''lastInterventionAt'' = or_null_str (cs_lastInterventionAt s)"
  "fld (summary_json s) ''lastInterventionBy'' = (case cs_lastInterventionBy s of None \<Rightarrow> JNull | Some a \<Rightarrow> actor_json a)"
  "fld (summary_json s) ''lastInterventionEventId'' = or_null_str (cs_lastInterventionEventId s)"
  "fld (summary_json s) ''controlFreshness'' = JStr (freshness_name (cs_controlFreshness s))"
  "fld (summary_json s) ''controlReason'' = str_or_undef (cs_controlReason s)"
  "fld (summary_json s) ''activeWorker'' = JUndef"
  by (auto simp: str_or_undef_def fld_def summary_json_def map_add_def split: option.split)

lemma summary_back: "summary_tidy s \<Longrightarrow> normalizeControlStateSummary (summary_json s) r = s"
proof -
  assume t: "summary_tidy s"
  have rec: "is_record (summary_json s)" by (simp add: summary_json_def is_record_def)
  have "normalizeControlActors (JArr (map actor_json (cs_activeActors s))) = cs_activeActors s"
    using t by (simp add: normalizeControlActors_def summary_tidy_def actors_back)
  moreover have "normalizeControlActor (case cs_lastInterventionBy s of None \<Rightarrow> JNull | Some a \<Rightarrow> actor_json a) = cs_lastInterventionBy s"
    using t by (cases "cs_lastInterventionBy s")
      (simp_all add: summary_tidy_def actor_back, simp add: normalizeControlActor_def is_record_def)
  ultimately show ?thesis
    using t rec by (cases "cs_activeActors s")
      (auto simp: normalizeControlStateSummary_def control_summary_fields optionalString_tidy optionalString_member summary_tidy_def)
qed

lemma legacy_tidy: "r \<noteq> [] \<Longrightarrow> trim r = r \<Longrightarrow> summary_tidy (createLegacyControlStateSummary r)"
  by (simp add: summary_tidy_def createLegacyControlStateSummary_def legacy_control_actor_def tidy_def actor_tidy_def) code_simp

lemma normalized_tidy:
  assumes "r \<noteq> []" "trim r = r"
  shows "summary_tidy (normalizeControlStateSummary v r)"
proof -
  have "summary_tidy \<lparr>cs_controlMode = m, cs_activeActors = as, cs_lastInterventionAt = optionalString x1,
      cs_lastInterventionBy = normalizeControlActor x2, cs_lastInterventionEventId = optionalString x3,
      cs_controlFreshness = f, cs_controlReason = optionalString x4\<rparr>" if "normalizeControlActors w = as" "as \<noteq> []" for m as x1 x2 x3 f x4 w
  proof -
    have "list_all actor_tidy as \<and> distinct (map controlActorIdentityKey as)"
      using that distinct_actors_wf [of "{}"] by (auto simp: normalizeControlActors_def split: json.splits)
    moreover have "case normalizeControlActor x2 of None \<Rightarrow> True | Some a \<Rightarrow> actor_tidy a"
      by (simp add: normalized_actor_tidy split: option.split)
    ultimately show ?thesis using that(2) by (simp add: summary_tidy_def)
  qed
  then show ?thesis
    using legacy_tidy [OF assms] by (auto simp: normalizeControlStateSummary_def split: option.split list.split)
qed

text \<open>Normalising a control state is idempotent: whatever was stored, the summary read from it has at least one actor, no two with
  the same identity, no blank or untrimmed string, passes its own guard, and is read back unchanged whatever the fallback.\<close>

theorem control_state_normal_form:
  fixes v :: json and r r' :: string
  assumes "r \<noteq> []" and "trim r = r"
  defines "s \<equiv> normalizeControlStateSummary v r"
  shows "normalizeControlStateSummary (summary_json s) r' = s \<and> isControlStateSummary (summary_json s) \<and>
    cs_activeActors s \<noteq> [] \<and> distinct (map controlActorIdentityKey (cs_activeActors s)) \<and> summary_tidy s"
proof -
  have t: "summary_tidy s" unfolding s_def by (rule normalized_tidy [OF assms(1,2)])
  have "normalizeControlActors (JArr (map actor_json (cs_activeActors s))) = cs_activeActors s"
    using t by (simp add: normalizeControlActors_def summary_tidy_def actors_back)
  moreover have "is_record (summary_json s)" by (simp add: summary_json_def is_record_def)
  ultimately have "isControlStateSummary (summary_json s)"
    using t by (auto simp: isControlStateSummary_def control_summary_fields summary_tidy_def actor_back or_null_str_def is_str_def opt_sat_def str_or_undef_def
        split: option.splits)
  with t summary_back [OF t] show ?thesis by (simp add: summary_tidy_def)
qed

theorem control_state_normal_form_witness:
  "normalizeControlStateSummary (summary_json (normalizeControlStateSummary (JObj [(''controlMode'', JStr ''co-driven''),
     (''activeActors'', JArr [JObj [(''kind'', JStr ''agent''), (''id'', JStr '' a ''), (''displayName'', JStr '' '')]]),
     (''controlFreshness'', JStr ''fresh'')]) ''legacy-backfill'')) ''x'' =
   \<lparr>cs_controlMode = CoDriven, cs_activeActors = [\<lparr>ca_kind = CaAgent, ca_id = Some ''a'', ca_label = None, ca_node = None, ca_session = None\<rparr>],
    cs_lastInterventionAt = None, cs_lastInterventionBy = None, cs_lastInterventionEventId = None,
    cs_controlFreshness = FreshState, cs_controlReason = None\<rparr>"
proof -
  have r: "''legacy-backfill'' \<noteq> []" "trim ''legacy-backfill'' = ''legacy-backfill''" by code_simp+
  show ?thesis
    by (subst control_state_normal_form [OF r, THEN conjunct1]) code_simp
qed

end
