(* ===== verification/Control_Engine.thy ===== *)
theory Control_Engine
  imports Control_State Session_Envelope
begin

text \<open>
  The control engine (\<open>server/control-engine.ts\<close>): what a human types into a terminal that an agent drives is gathered into
  bursts and logged, redacted, as interventions; a supervisor's action is logged after the burst before it. Sessions
  are objects, so the state has them by address; the pending bursts, the log and the emitted events are the rest of
  the state. The timer of a burst is the event \<open>flushBurst\<close>, which the scheduler may run while the burst is
  pending; clearing a timer is its removal. The clock, the ids and SHA-256 are arguments; the writer of the log
  and the emitter are taken not to throw.
\<close>

section \<open>Redaction\<close>

datatype redaction_class = ControlSequence | SecretLike | Paste | PlainText

record redaction =
  rx_redacted :: bool
  rx_byteCount :: nat
  rx_charCount :: nat
  rx_lineCount :: nat
  rx_hashSha256 :: string
  rx_classes :: "redaction_class list"

definition max_preview_chars :: nat where "max_preview_chars = 96"

text \<open>\<open>split(/\r\n|\r|\n/).length\<close>\<close>

fun line_breaks :: "string \<Rightarrow> nat" where
  "line_breaks [] = 0"
| "line_breaks (c # s) =
     (if c = CHR 0x0D then (case s of [] \<Rightarrow> 1 | d # r \<Rightarrow> if d = CHR 0x0A then Suc (line_breaks r) else Suc (line_breaks s))
      else if c = CHR 0x0A then Suc (line_breaks s) else line_breaks s)"

definition countLines :: "string \<Rightarrow> nat" where
  "countLines s = (if s = [] then 0 else Suc (line_breaks s))"

definition isUnsafeControlCode :: "nat \<Rightarrow> bool" where
  "isUnsafeControlCode code \<longleftrightarrow> code = 0x1b \<or> code = 0x7f \<or> (code < 0x20 \<and> code \<noteq> 9 \<and> code \<noteq> 10 \<and> code \<noteq> 13)"

definition hasUnsafeControlSequence :: "string \<Rightarrow> bool" where
  "hasUnsafeControlSequence s \<longleftrightarrow> list_ex (\<lambda>c. isUnsafeControlCode (of_char c)) s"

text \<open>The secret patterns without regard to case, as tests of the lower-case text from a position on. What \<open>\s+\<close> and the
  character classes take is maximal: none of the classes contains what follows it, and the words in the class of the key
  header end it.\<close>

definition word_class :: "string \<Rightarrow> char \<Rightarrow> bool" where
  "word_class extra c \<longleftrightarrow> is_lower c \<or> is_digit c \<or> c \<in> set extra"

definition run_of :: "string \<Rightarrow> nat \<Rightarrow> string \<Rightarrow> bool" where
  "run_of extra n s \<longleftrightarrow> n \<le> length (takeWhile (word_class extra) s)"

definition bearer_at :: "string \<Rightarrow> bool" where
  "bearer_at s \<longleftrightarrow> starts_with s ''bearer'' \<and> (let r = drop 6 s in
     r \<noteq> [] \<and> is_ws (hd r) \<and> run_of ''._~+/=-'' 12 (dropWhile is_ws r))"

definition github_at :: "string \<Rightarrow> bool" where
  "github_at s \<longleftrightarrow> list_ex (starts_with s) [''ghp_'', ''gho_'', ''ghu_'', ''ghs_'', ''ghr_''] \<and> run_of ''_'' 20 (drop 4 s)"

definition private_key_at :: "string \<Rightarrow> bool" where
  "private_key_at s \<longleftrightarrow> starts_with s ''-----begin '' \<and> (let r = drop 11 s; inner = (\<lambda>c. is_lower c \<or> c = CHR '' '') in
     ends_with (takeWhile inner r) ''private key'' \<and> starts_with (dropWhile inner r) ''-----'')"

definition secret_at :: "string \<Rightarrow> bool" where
  "secret_at s \<longleftrightarrow>
     list_ex (starts_with s) [''password'', ''passwd'', ''secret'', ''token'', ''apikey'', ''api_key'', ''api-key'', ''authorization''] \<or>
     bearer_at s \<or> github_at s \<or> (starts_with s ''sk-'' \<and> run_of ''_-'' 20 (drop 3 s)) \<or> private_key_at s \<or> run_of ''+/'' 48 s"

fun somewhere :: "(string \<Rightarrow> bool) \<Rightarrow> string \<Rightarrow> bool" where
  "somewhere P [] = P []"
| "somewhere P (c # s) = (P (c # s) \<or> somewhere P s)"

definition hasSecretLikeContent :: "string \<Rightarrow> bool" where
  "hasSecretLikeContent s \<longleftrightarrow> somewhere secret_at (to_lower s)"

text \<open>The replacement character for an unsafe code is above U+00FF; the character 26 stands for it here. The preview
  is only shown of payloads without unsafe codes.\<close>

definition printable_char :: "char \<Rightarrow> string" where
  "printable_char c = (if c = CHR 0x0D then [CHR 0x5C, CHR ''r''] else if c = CHR 0x0A then [CHR 0x5C, CHR ''n'']
     else if c = CHR 0x09 then [CHR 0x5C, CHR ''t''] else if isUnsafeControlCode (of_char c) then [CHR 0x1A] else [c])"

definition printablePreview :: "string \<Rightarrow> string" where
  "printablePreview s = take max_preview_chars (concat (map printable_char s))"

fun class_name :: "redaction_class \<Rightarrow> string" where
  "class_name ControlSequence = ''control-sequence''" | "class_name SecretLike = ''secret-like''"
| "class_name Paste = ''paste''" | "class_name PlainText = ''plain-text''"

fun join_with :: "string \<Rightarrow> string list \<Rightarrow> string" where
  "join_with sep [] = []"
| "join_with sep [s] = s"
| "join_with sep (s # t # ss) = s @ sep @ join_with sep (t # ss)"

definition redaction_classes :: "string \<Rightarrow> redaction_class list" where
  "redaction_classes s =
     (let cs = (if hasUnsafeControlSequence s then [ControlSequence] else []) @
            (if hasSecretLikeContent s then [SecretLike] else []) @
            (if CHR 0x0D \<in> set s \<or> CHR 0x0A \<in> set s \<or> max_preview_chars < length s then [Paste] else [])
      in if cs = [] then [PlainText] else cs)"

definition redaction_of :: "(string \<Rightarrow> string) \<Rightarrow> string \<Rightarrow> redaction" where
  "redaction_of sha s =
     \<lparr>rx_redacted = (hasUnsafeControlSequence s \<or> hasSecretLikeContent s), rx_byteCount = utf8_length s, rx_charCount = length s,
      rx_lineCount = countLines s, rx_hashSha256 = sha s, rx_classes = redaction_classes s\<rparr>"

text \<open>The preview comes first, the metadata second.\<close>

definition redactInterventionPayload :: "(string \<Rightarrow> string) \<Rightarrow> string \<Rightarrow> string \<times> redaction" where
  "redactInterventionPayload sha s =
     (let r = redaction_of sha s in
      (if rx_redacted r then ''[redacted:'' @ join_with '','' (map class_name (rx_classes r)) @ ''] bytes='' @
           nat_to_dec (rx_byteCount r) @ '' sha256='' @ take 12 (rx_hashSha256 r)
       else printablePreview s, r))"

section \<open>Data\<close>

datatype transport_mode = TransportPty | TransportWeb

record control_session =
  se_id :: string
  se_node :: "string option"
  se_cwd :: string
  se_repoPath :: "string option"
  se_worktreePath :: "string option option"
  se_repoName :: "string option"
  se_branchName :: "string option"
  se_mode :: transport_mode
  se_controlState :: json

record tab_identity =
  ti_nodeId :: string
  ti_sessionId :: string
  ti_globalSessionId :: "string option"
  ti_cwd :: string
  ti_repoPath :: "string option"
  ti_worktreePath :: "string option option"
  ti_repoName :: "string option"
  ti_branchName :: "string option"

datatype intervention_source = PtyInput | SupervisorAction

datatype intervention_kind = HumanInput | SupervisorSendText | SupervisorSendKey | SupervisorSubmit

record intervention =
  iv_id :: string
  iv_sessionId :: string
  iv_tabId :: string
  iv_nodeId :: string
  iv_globalSessionId :: "string option"
  iv_cwd :: string
  iv_timestamp :: string
  iv_author :: control_actor
  iv_source :: intervention_source
  iv_kind :: intervention_kind
  iv_payloadPreview :: "string option"
  iv_redaction :: redaction
  iv_modeBefore :: control_mode
  iv_modeAfter :: "control_mode option"
  iv_ackedBy :: "control_actor option"
  iv_ackedAt :: "string option"

record intervention_event =
  ie_eventId :: string
  ie_occurredAt :: string
  ie_identity :: tab_identity
  ie_actor :: control_actor
  ie_activeActors :: "control_actor list"
  ie_reason :: string
  ie_controlMode :: control_mode
  ie_intervention :: intervention

record burst =
  bu_session :: nat
  bu_chunks :: "string list"
  bu_record :: intervention

record engine =
  en_sessions :: "nat \<Rightarrow> control_session"
  en_pending :: "(string, burst) jsmap"
  en_log :: "intervention list"
  en_events :: "intervention_event list"

section \<open>Operations\<close>

definition node_of :: "control_session \<Rightarrow> string" where
  "node_of s = (case se_node s of Some n \<Rightarrow> n | None \<Rightarrow> default_local_node_id)"

definition humanActor :: "control_session \<Rightarrow> control_actor" where
  "humanActor s = legacy_control_actor\<lparr>ca_node := Some (node_of s), ca_session := Some (se_id s)\<rparr>"

text \<open>The global id of an identity is the value \<open>createGlobalSessionId\<close> returns; the operations below check first that
  it returns one.\<close>

definition identityForSession :: "control_session \<Rightarrow> tab_identity" where
  "identityForSession s =
     \<lparr>ti_nodeId = node_of s, ti_sessionId = se_id s,
      ti_globalSessionId = (case global_session_id (node_of s) (se_id s) of Inr g \<Rightarrow> Some g | Inl _ \<Rightarrow> None),
      ti_cwd = se_cwd s, ti_repoPath = truthy (se_repoPath s), ti_worktreePath = se_worktreePath s,
      ti_repoName = truthy (se_repoName s), ti_branchName = truthy (se_branchName s)\<rparr>"

definition pendingBurstKey :: "control_session \<Rightarrow> scoped_id_error + string" where
  "pendingBurstKey s = global_session_id (node_of s) (se_id s)"

definition buildRecord ::
  "(string \<Rightarrow> string) \<Rightarrow> control_session \<Rightarrow> control_actor \<Rightarrow> intervention_source \<Rightarrow> intervention_kind \<Rightarrow> string \<Rightarrow>
   control_mode \<Rightarrow> bool \<Rightarrow> bool \<Rightarrow> string \<Rightarrow> string \<Rightarrow> intervention" where
  "buildRecord sha s actor source kind payload modeBefore acked includePreview now i =
     (let identity = identityForSession s; red = redactInterventionPayload sha payload in
      \<lparr>iv_id = i, iv_sessionId = ti_sessionId identity,
       iv_tabId = (case ti_globalSessionId identity of Some g \<Rightarrow> g | None \<Rightarrow> ti_sessionId identity),
       iv_nodeId = ti_nodeId identity, iv_globalSessionId = ti_globalSessionId identity, iv_cwd = ti_cwd identity,
       iv_timestamp = now, iv_author = actor, iv_source = source, iv_kind = kind,
       iv_payloadPreview = (if includePreview then truthy (Some (fst red)) else None),
       iv_redaction = snd red, iv_modeBefore = modeBefore, iv_modeAfter = Some HumanDriven,
       iv_ackedBy = (if acked then Some actor else None), iv_ackedAt = (if acked then Some now else None)\<rparr>)"

definition updateControlState :: "(nat \<Rightarrow> control_session) \<Rightarrow> nat \<Rightarrow> control_actor \<Rightarrow> string \<Rightarrow> string \<Rightarrow> string \<Rightarrow> nat \<Rightarrow> control_session" where
  "updateControlState heap p actor eventId occurredAt reason =
     heap(p := (heap p)\<lparr>se_controlState := summary_json
       \<lparr>cs_controlMode = HumanDriven, cs_activeActors = [humanActor (heap p)], cs_lastInterventionAt = Some occurredAt,
        cs_lastInterventionBy = Some actor, cs_lastInterventionEventId = Some eventId,
        cs_controlFreshness = FreshState, cs_controlReason = Some reason\<rparr>\<rparr>)"

definition legacy_reason :: string where "legacy_reason = ''legacy-backfill''"

definition emitIntervention :: "control_session \<Rightarrow> control_actor \<Rightarrow> control_mode \<Rightarrow> intervention \<Rightarrow> string \<Rightarrow> intervention_event" where
  "emitIntervention s actor mode r reason =
     \<lparr>ie_eventId = iv_id r, ie_occurredAt = iv_timestamp r, ie_identity = identityForSession s, ie_actor = actor,
      ie_activeActors = cs_activeActors (normalizeControlStateSummary (se_controlState s) legacy_reason),
      ie_reason = reason, ie_controlMode = mode, ie_intervention = r\<rparr>"

definition flushBurst :: "(string \<Rightarrow> string) \<Rightarrow> engine \<Rightarrow> string \<Rightarrow> string \<Rightarrow> engine" where
  "flushBurst sha st key now =
     (case jm_get (en_pending st) key of
        None \<Rightarrow> st
      | Some b \<Rightarrow>
          let red = redactInterventionPayload sha (concat (bu_chunks b));
              r = (bu_record b)\<lparr>iv_payloadPreview := truthy (Some (fst red)), iv_redaction := snd red, iv_timestamp := now\<rparr>;
              heap = updateControlState (en_sessions st) (bu_session b) (iv_author r) (iv_id r) now ''human input''
          in \<lparr>en_sessions = heap, en_pending = jm_delete (en_pending st) key, en_log = en_log st @ [r],
              en_events = en_events st @ [emitIntervention (heap (bu_session b)) (iv_author r) HumanDriven r ''human input'']\<rparr>)"

definition recordHumanPtyInput :: "(string \<Rightarrow> string) \<Rightarrow> engine \<Rightarrow> nat \<Rightarrow> string \<Rightarrow> string \<Rightarrow> string \<Rightarrow> scoped_id_error + engine" where
  "recordHumanPtyInput sha st p data now i =
     (let s = en_sessions st p in
      if se_mode s \<noteq> TransportPty \<or> data = [] then Inr st
      else case pendingBurstKey s of
        Inl e \<Rightarrow> Inl e
      | Inr key \<Rightarrow>
          (case jm_get (en_pending st) key of
             Some b \<Rightarrow>
               Inr (st\<lparr>en_pending := jm_set (en_pending st) key (b\<lparr>bu_chunks := bu_chunks b @ [data]\<rparr>),
                 en_sessions := updateControlState (en_sessions st) (bu_session b) (iv_author (bu_record b))
                   (iv_id (bu_record b)) now ''human input''\<rparr>)
           | None \<Rightarrow>
               let before = normalizeControlStateSummary (se_controlState s) legacy_reason; actor = humanActor s;
                   r = buildRecord sha s actor PtyInput HumanInput data (cs_controlMode before) False True now i
               in Inr (st\<lparr>en_sessions := updateControlState (en_sessions st) p actor i now ''human input'',
                    en_pending := jm_set (en_pending st) key \<lparr>bu_session = p, bu_chunks = [data], bu_record = r\<rparr>\<rparr>)))"

datatype supervisor_action = SendText | SendKey | SubmitAction

fun supervisor_kind :: "supervisor_action \<Rightarrow> intervention_kind" where
  "supervisor_kind SendText = SupervisorSendText" | "supervisor_kind SendKey = SupervisorSendKey"
| "supervisor_kind SubmitAction = SupervisorSubmit"

fun supervisor_name :: "supervisor_action \<Rightarrow> string" where
  "supervisor_name SendText = ''sendText''" | "supervisor_name SendKey = ''sendKey''" | "supervisor_name SubmitAction = ''submit''"

definition recordSupervisorAction ::
  "(string \<Rightarrow> string) \<Rightarrow> engine \<Rightarrow> nat \<Rightarrow> supervisor_action \<Rightarrow> control_actor \<Rightarrow> string \<Rightarrow> string \<Rightarrow> string \<Rightarrow> string \<Rightarrow>
   scoped_id_error + engine" where
  "recordSupervisorAction sha st p action actor payload flushNow now i =
     (case pendingBurstKey (en_sessions st p) of
        Inl e \<Rightarrow> Inl e
      | Inr key \<Rightarrow>
          let st1 = flushBurst sha st key flushNow; s = en_sessions st1 p;
              before = normalizeControlStateSummary (se_controlState s) legacy_reason;
              r = buildRecord sha s actor SupervisorAction (supervisor_kind action) payload (cs_controlMode before) True False now i;
              reason = ''supervisor '' @ supervisor_name action;
              heap = updateControlState (en_sessions st1) p actor i now reason
          in Inr (st1\<lparr>en_log := en_log st1 @ [r], en_sessions := heap,
               en_events := en_events st1 @ [emitIntervention (heap p) actor HumanDriven r reason]\<rparr>))"

end
