(* ===== verification/Control_Safety.thy ===== *)
theory Control_Safety
  imports Control_Engine
begin

text \<open>
  What the control engine guarantees: the preview of an intervention shows nothing of a payload that looks like a
  secret or holds control codes; whatever is typed is logged exactly once, in order and before the supervisor's action
  that follows it; every logged intervention is announced once.
\<close>

section \<open>Redaction\<close>



lemma printable_safe:
  assumes "\<not> isUnsafeControlCode (of_char c)"
  shows "list_all (\<lambda>d. 32 \<le> (of_char d :: nat) \<and> (of_char d :: nat) \<noteq> 127) (printable_char c)"
proof -
  consider "c \<in> {CHR 0x0D, CHR 0x0A, CHR 0x09}" | "c \<notin> {CHR 0x0D, CHR 0x0A, CHR 0x09}" by blast
  then show ?thesis
  proof cases
    case 2
    have "(of_char c :: nat) \<noteq> of_char (CHR 0x0D)" "(of_char c :: nat) \<noteq> of_char (CHR 0x0A)" "(of_char c :: nat) \<noteq> of_char (CHR 0x09)"
      using 2 unfolding of_char_eq_iff by blast+
    then have "(of_char c :: nat) \<notin> {9, 10, 13}" by simp
    with 2 assms show ?thesis by (auto simp: printable_char_def isUnsafeControlCode_def)
  qed (auto simp: printable_char_def)
qed

lemma list_all_concat: "list_all P (concat xss) \<longleftrightarrow> list_all (list_all P) xss"
  by (induction xss) simp_all

lemma list_all_take: "list_all P xs \<Longrightarrow> list_all P (take n xs)"
  by (auto simp: list_all_iff dest: in_set_takeD)

text \<open>The preview of an intervention gives nothing away: payloads that hold control codes or look like a secret are always
  redacted, and two redacted payloads of the same classes, the same number of bytes and the same first twelve digits of the hash have the
  same preview; a preview that is shown has at most 96 characters, none of them a control code.\<close>

theorem redaction_hides_payload:
  "(hasUnsafeControlSequence s \<or> hasSecretLikeContent s \<longleftrightarrow> rx_redacted (snd (redactInterventionPayload sha s))) \<and>
   (rx_redacted (redaction_of sha s) \<and> rx_redacted (redaction_of sha t) \<and> redaction_classes s = redaction_classes t \<and>
      utf8_length s = utf8_length t \<and> take 12 (sha s) = take 12 (sha t) \<longrightarrow>
      fst (redactInterventionPayload sha s) = fst (redactInterventionPayload sha t)) \<and>
   (\<not> rx_redacted (redaction_of sha s) \<longrightarrow>
      length (fst (redactInterventionPayload sha s)) \<le> 96 \<and>
      list_all (\<lambda>c. 32 \<le> (of_char c :: nat) \<and> (of_char c :: nat) \<noteq> 127) (fst (redactInterventionPayload sha s)))"
proof (intro conjI impI)
  assume "\<not> rx_redacted (redaction_of sha s)"
  then have plain: "\<not> hasUnsafeControlSequence s" by (simp add: redaction_of_def)
  then have "list_all (list_all (\<lambda>c. 32 \<le> (of_char c :: nat) \<and> (of_char c :: nat) \<noteq> 127)) (map printable_char s)"
    by (auto simp: list_all_iff hasUnsafeControlSequence_def list_ex_iff dest!: printable_safe)
  then show "list_all (\<lambda>c. 32 \<le> (of_char c :: nat) \<and> (of_char c :: nat) \<noteq> 127) (fst (redactInterventionPayload sha s))"
    using \<open>\<not> rx_redacted (redaction_of sha s)\<close>
    by (simp add: redactInterventionPayload_def Let_def printablePreview_def list_all_take list_all_concat)
  show "length (fst (redactInterventionPayload sha s)) \<le> 96"
    using \<open>\<not> rx_redacted (redaction_of sha s)\<close>
    by (simp add: redactInterventionPayload_def Let_def printablePreview_def max_preview_chars_def)
qed (auto simp: redactInterventionPayload_def redaction_of_def Let_def)

theorem redaction_hides_payload_witness:
  "rx_redacted (snd (redactInterventionPayload (\<lambda>_. ''0'') ''export TOKEN=abc'')) \<and>
   length (fst (redactInterventionPayload (\<lambda>_. ''0'') ''ls'')) \<le> 96"
proof
  have "hasSecretLikeContent ''export TOKEN=abc''" by code_simp
  with redaction_hides_payload [of "''export TOKEN=abc''" "\<lambda>_. ''0''" "[]"]
  show "rx_redacted (snd (redactInterventionPayload (\<lambda>_. ''0'') ''export TOKEN=abc''))" by blast
  have "\<not> rx_redacted (redaction_of (\<lambda>_. ''0'') ''ls'')" by code_simp
  with redaction_hides_payload [of "''ls''" "\<lambda>_. ''0''" "[]"]
  show "length (fst (redactInterventionPayload (\<lambda>_. ''0'') ''ls'')) \<le> 96" by blast
qed

section \<open>The engine as a state machine\<close>

datatype engine_op =
    OpInput nat string string string
  | OpFlush string string
  | OpSupervise nat supervisor_action control_actor string string string string

definition settled :: "engine \<Rightarrow> scoped_id_error + engine \<Rightarrow> engine" where
  "settled st r = (case r of Inl _ \<Rightarrow> st | Inr st' \<Rightarrow> st')"

fun engine_step :: "(string \<Rightarrow> string) \<Rightarrow> engine \<Rightarrow> engine_op \<Rightarrow> engine" where
  "engine_step sha st (OpInput p data now i) = settled st (recordHumanPtyInput sha st p data now i)"
| "engine_step sha st (OpFlush key now) = flushBurst sha st key now"
| "engine_step sha st (OpSupervise p action actor payload fnow now i) =
     settled st (recordSupervisorAction sha st p action actor payload fnow now i)"

text \<open>What is typed into the sessions with a given key; the key and the transport of a session never change.\<close>

definition keyed_as :: "(nat \<Rightarrow> control_session) \<Rightarrow> string \<Rightarrow> nat \<Rightarrow> bool" where
  "keyed_as heap key p \<longleftrightarrow> se_mode (heap p) = TransportPty \<and> pendingBurstKey (heap p) = Inr key"

fun typed :: "(nat \<Rightarrow> control_session) \<Rightarrow> string \<Rightarrow> engine_op list \<Rightarrow> string list" where
  "typed heap key [] = []"
| "typed heap key (OpInput p data now i # ops) =
     (if keyed_as heap key p \<and> data \<noteq> [] then data # typed heap key ops else typed heap key ops)"
| "typed heap key (_ # ops) = typed heap key ops"

definition waiting :: "engine \<Rightarrow> string \<Rightarrow> string list" where
  "waiting st key = (case jm_get (en_pending st) key of None \<Rightarrow> [] | Some b \<Rightarrow> bu_chunks b)"

definition human_records :: "string \<Rightarrow> intervention list \<Rightarrow> intervention list" where
  "human_records key rs = filter (\<lambda>r. iv_kind r = HumanInput \<and> iv_tabId r = key) rs"

definition engine_inv :: "engine \<Rightarrow> bool" where
  "engine_inv st \<longleftrightarrow> jm_wf (en_pending st) \<and>
     (\<forall>key b. jm_get (en_pending st) key = Some b \<longrightarrow>
        iv_tabId (bu_record b) = key \<and> iv_kind (bu_record b) = HumanInput \<and> bu_chunks b \<noteq> []) \<and>
     map ie_intervention (en_events st) = en_log st"

lemma update_frame [simp]:
  "se_mode (updateControlState heap q actor i now reason p) = se_mode (heap p)"
  "pendingBurstKey (updateControlState heap q actor i now reason p) = pendingBurstKey (heap p)"
  by (simp_all add: updateControlState_def pendingBurstKey_def node_of_def)

lemma keyed_as_update [simp]: "keyed_as (updateControlState heap q actor i now reason) key p = keyed_as heap key p"
  by (simp add: keyed_as_def)

lemma build_fields [simp]:
  "iv_kind (buildRecord sha s actor source kind payload m acked pv now i) = kind"
  "pendingBurstKey s = Inr key \<Longrightarrow> iv_tabId (buildRecord sha s actor source kind payload m acked pv now i) = key"
  by (simp_all add: buildRecord_def Let_def identityForSession_def pendingBurstKey_def)

lemma redact_snd [simp]: "snd (redactInterventionPayload sha s) = redaction_of sha s"
  by (simp add: redactInterventionPayload_def Let_def)

text \<open>The effect of a flush.\<close>

lemma flush_pending: "jm_wf (en_pending st) \<Longrightarrow>
    jm_get (en_pending (flushBurst sha st key now)) k = (if k = key then None else jm_get (en_pending st) k)"
  by (auto simp: flushBurst_def Let_def jm.get_delete split: option.split)

lemma flush_inv: "engine_inv st \<Longrightarrow> engine_inv (flushBurst sha st key now)"
  unfolding engine_inv_def
proof (intro conjI allI impI, goal_cases)
  case 1
  then show ?case by (auto simp: flushBurst_def Let_def jm.invar_delete split: option.split)
next
  case (2 k b)
  then show ?case by (simp add: flush_pending split: if_splits)
next
  case (3 k b)
  then show ?case by (simp add: flush_pending split: if_splits)
next
  case (4 k b)
  then show ?case by (simp add: flush_pending split: if_splits)
next
  case 5
  then show ?case by (auto simp: flushBurst_def Let_def emitIntervention_def split: option.split)
qed

lemma flush_waiting: "engine_inv st \<Longrightarrow> waiting (flushBurst sha st key now) k = (if k = key then [] else waiting st k)"
  by (simp add: waiting_def flush_pending engine_inv_def)

lemma flush_records:
  assumes "engine_inv st"
  shows "map iv_redaction (human_records k (en_log (flushBurst sha st key now))) =
    map iv_redaction (human_records k (en_log st)) @
    (if k = key \<and> waiting st key \<noteq> [] then [redaction_of sha (concat (waiting st key))] else [])"
  using assms by (auto simp: flushBurst_def Let_def waiting_def human_records_def engine_inv_def split: option.splits)

lemma flush_heap [simp]: "keyed_as (en_sessions (flushBurst sha st key now)) k p = keyed_as (en_sessions st) k p"
  "pendingBurstKey (en_sessions (flushBurst sha st key now) p) = pendingBurstKey (en_sessions st p)"
  by (simp_all add: flushBurst_def Let_def split: option.split)

lemma input_cases:
  assumes "recordHumanPtyInput sha st p data now i = Inr st'" "engine_inv st"
  shows "engine_inv st' \<and> en_log st' = en_log st \<and>
    waiting st' k = waiting st k @ (if keyed_as (en_sessions st) k p \<and> data \<noteq> [] then [data] else [])"
proof -
  have wf: "jm_wf (en_pending st)" using assms(2) by (simp add: engine_inv_def)
  show ?thesis
  proof (cases "se_mode (en_sessions st p) \<noteq> TransportPty \<or> data = []")
    case True
    with assms show ?thesis by (auto simp: recordHumanPtyInput_def Let_def keyed_as_def)
  next
    case False
    then obtain key where key: "pendingBurstKey (en_sessions st p) = Inr key"
      using assms(1) by (auto simp: recordHumanPtyInput_def Let_def split: sum.splits)
    show ?thesis
    proof (cases "jm_get (en_pending st) key")
      case None
      with assms False key wf show ?thesis
        by (auto simp: recordHumanPtyInput_def Let_def engine_inv_def waiting_def keyed_as_def jm.get_set jm.invar_set split: if_splits)
    next
      case (Some b)
      with assms False key wf show ?thesis
        by (auto simp: recordHumanPtyInput_def Let_def engine_inv_def waiting_def keyed_as_def jm.get_set jm.invar_set split: if_splits)
    qed
  qed
qed

lemma supervise_cases:
  assumes "recordSupervisorAction sha st p action actor payload fnow now i = Inr st'" "engine_inv st"
  obtains key where "pendingBurstKey (en_sessions st p) = Inr key" "engine_inv st'"
    "en_pending st' = en_pending (flushBurst sha st key fnow)"
    "\<exists>r. en_log st' = en_log (flushBurst sha st key fnow) @ [r] \<and> iv_kind r = supervisor_kind action \<and> iv_tabId r = key \<and>
      iv_redaction r = redaction_of sha payload"
proof -
  obtain key where key: "pendingBurstKey (en_sessions st p) = Inr key"
    using assms(1) by (auto simp: recordSupervisorAction_def split: sum.splits)
  have "engine_inv (flushBurst sha st key fnow)" using assms(2) by (rule flush_inv)
  with assms(1) key show ?thesis
    by (intro that [OF key])
      (auto simp: recordSupervisorAction_def Let_def engine_inv_def emitIntervention_def, simp add: buildRecord_def Let_def)
qed

lemma supervisor_not_human [simp]: "supervisor_kind action \<noteq> HumanInput"
  by (cases action) simp_all

lemma step_heap: "keyed_as (en_sessions (engine_step sha st op)) k p = keyed_as (en_sessions st) k p"
  by (cases op)
    (auto simp: settled_def recordHumanPtyInput_def recordSupervisorAction_def Let_def split: sum.split option.split)

lemma typed_heap: "(\<And>p. keyed_as heap key p = keyed_as heap' key p) \<Longrightarrow> typed heap key ops = typed heap' key ops"
  by (induction heap key ops rule: typed.induct) auto

text \<open>One step moves what waits into one more record, or adds to what waits.\<close>

lemma step_inv: "engine_inv st \<Longrightarrow> engine_inv (engine_step sha st op)"
  by (cases op) (auto simp: settled_def flush_inv split: sum.split dest: input_cases elim: supervise_cases)

interpretation control: state_machine "engine_step sha" "\<lambda>_ _. True" engine_inv for sha
  by unfold_locales (rule step_inv)

lemma step_accounts:
  assumes inv: "engine_inv st"
  shows "\<exists>gs. map iv_redaction (human_records key (en_log (engine_step sha st op))) =
      map iv_redaction (human_records key (en_log st)) @ map (\<lambda>g. redaction_of sha (concat g)) gs \<and>
    list_all (\<lambda>g. g \<noteq> []) gs \<and>
    concat gs @ waiting (engine_step sha st op) key = waiting st key @ typed (en_sessions st) key [op]"
proof (cases op)
  case (OpInput p data now i)
  show ?thesis
  proof (cases "recordHumanPtyInput sha st p data now i")
    case (Inl e)
    then have "\<not> keyed_as (en_sessions st) key p \<or> data = []"
      by (auto simp: recordHumanPtyInput_def Let_def keyed_as_def split: if_splits sum.splits option.splits)
    with Inl OpInput show ?thesis by (intro exI [of _ "[]"]) (auto simp: settled_def)
  next
    case (Inr st')
    from input_cases [OF Inr inv, of key] OpInput Inr show ?thesis
      by (intro exI [of _ "[]"]) (auto simp: settled_def)
  qed
next
  case (OpFlush k now)
  then show ?thesis
    using flush_records [OF inv, of key sha k now] flush_waiting [OF inv, of sha k now key]
    by (intro exI [of _ "if key = k \<and> waiting st k \<noteq> [] then [waiting st k] else []"]) auto
next
  case (OpSupervise p action actor payload fnow now i)
  show ?thesis
  proof (cases "recordSupervisorAction sha st p action actor payload fnow now i")
    case (Inl e)
    with OpSupervise show ?thesis by (intro exI [of _ "[]"]) (auto simp: settled_def)
  next
    case (Inr st')
    from supervise_cases [OF Inr inv] obtain k r where k: "en_pending st' = en_pending (flushBurst sha st k fnow)"
      "en_log st' = en_log (flushBurst sha st k fnow) @ [r]" "iv_kind r = supervisor_kind action" by metis
    then have "waiting st' key = waiting (flushBurst sha st k fnow) key"
      "human_records key (en_log st') = human_records key (en_log (flushBurst sha st k fnow))"
      by (simp_all add: waiting_def human_records_def)
    with OpSupervise Inr show ?thesis
      using flush_records [OF inv, of key sha k fnow] flush_waiting [OF inv, of sha k fnow key]
      by (intro exI [of _ "if key = k \<and> waiting st k \<noteq> [] then [waiting st k] else []"]) (auto simp: settled_def)
  qed
qed

lemma typed_append: "typed heap key (ops @ ops') = typed heap key ops @ typed heap key ops'"
  by (induction heap key ops rule: typed.induct) auto

lemma run_accounts:
  assumes "engine_inv st"
  shows "\<exists>gs. map iv_redaction (human_records key (en_log (run (engine_step sha) st ops))) =
      map iv_redaction (human_records key (en_log st)) @ map (\<lambda>g. redaction_of sha (concat g)) gs \<and>
    list_all (\<lambda>g. g \<noteq> []) gs \<and>
    concat gs @ waiting (run (engine_step sha) st ops) key = waiting st key @ typed (en_sessions st) key ops"
  using assms
proof (induction ops arbitrary: st)
  case Nil
  show ?case by (intro exI [of _ "[]"]) simp
next
  case (Cons op ops)
  let ?st = "engine_step sha st op"
  obtain gs where gs: "map iv_redaction (human_records key (en_log ?st)) =
      map iv_redaction (human_records key (en_log st)) @ map (\<lambda>g. redaction_of sha (concat g)) gs"
    "list_all (\<lambda>g. g \<noteq> []) gs" "concat gs @ waiting ?st key = waiting st key @ typed (en_sessions st) key [op]"
    using step_accounts [OF Cons.prems, of key sha op] by blast
  obtain hs where hs: "map iv_redaction (human_records key (en_log (run (engine_step sha) ?st ops))) =
      map iv_redaction (human_records key (en_log ?st)) @ map (\<lambda>g. redaction_of sha (concat g)) hs"
    "list_all (\<lambda>g. g \<noteq> []) hs"
    "concat hs @ waiting (run (engine_step sha) ?st ops) key = waiting ?st key @ typed (en_sessions ?st) key ops"
    using Cons.IH [OF step_inv [OF Cons.prems]] by blast
  have "typed (en_sessions ?st) key ops = typed (en_sessions st) key ops"
    by (rule typed_heap) (rule step_heap)
  with hs(3) gs(3) have "concat (gs @ hs) @ waiting (run (engine_step sha) ?st ops) key =
      waiting st key @ typed (en_sessions st) key (op # ops)"
    using typed_append [of "en_sessions st" key "[op]" ops] by (simp flip: append_assoc) (simp add: append_assoc)
  with gs(1,2) hs(1,2) show ?case by (intro exI [of _ "gs @ hs"]) simp
qed

text \<open>C33: Typed input is recorded exactly once: however typing, timers and supervisor actions interleave, the chunks typed into a
  terminal are, in order, those of the human interventions logged for it followed by those still waiting; each such
  intervention carries the redaction of the text of its own, non-empty run of chunks; and every logged intervention
  has been announced exactly once, in the order of the log.\<close>

theorem typed_input_recorded_once:
  fixes sha :: "string \<Rightarrow> string" and st :: engine
  assumes "en_pending st = []" and "en_log st = []" and "en_events st = []"
  defines "st' ops \<equiv> run (engine_step sha) st ops"
  shows "(\<exists>gs. concat gs @ waiting (st' ops) key = typed (en_sessions st) key ops \<and> list_all (\<lambda>g. g \<noteq> []) gs \<and>
      map iv_redaction (human_records key (en_log (st' ops))) = map (\<lambda>g. redaction_of sha (concat g)) gs) \<and>
    map ie_intervention (en_events (st' ops)) = en_log (st' ops)"
proof -
  have inv: "engine_inv st" using assms(1-3) by (simp add: engine_inv_def jm_wf_def jm_get_def)
  have "engine_inv (st' ops)" unfolding st'_def by (rule control.run_inv [OF inv]) simp
  moreover have "waiting st key = []" "human_records key (en_log st) = []"
    using assms(1,2) by (simp_all add: waiting_def jm_get_def human_records_def)
  ultimately show ?thesis
    using run_accounts [OF inv, of key sha ops] by (auto simp: st'_def engine_inv_def)
qed

text \<open>A supervisor's action comes after what was typed before it: it leaves nothing waiting in its tab, and the log gains the
  intervention of what was waiting, if anything, and then exactly one for the action.\<close>

theorem supervisor_flushes_first:
  assumes "engine_inv st" and "recordSupervisorAction sha st p action actor payload fnow now i = Inr st'"
    and "pendingBurstKey (en_sessions st p) = Inr key"
  shows "waiting st' key = [] \<and>
    map iv_redaction (drop (length (en_log st)) (en_log st')) =
      (if waiting st key = [] then [] else [redaction_of sha (concat (waiting st key))]) @ [redaction_of sha payload]"
proof -
  from supervise_cases [OF assms(2,1)] assms(3) obtain r where k: "en_pending st' = en_pending (flushBurst sha st key fnow)"
    "en_log st' = en_log (flushBurst sha st key fnow) @ [r]" "iv_redaction r = redaction_of sha payload" by (metis sum.inject(2))
  have "waiting st' key = []" using k(1) flush_waiting [OF assms(1), of sha key fnow key] by (simp add: waiting_def)
  moreover have "map iv_redaction (drop (length (en_log st)) (en_log (flushBurst sha st key fnow))) =
      (if waiting st key = [] then [] else [redaction_of sha (concat (waiting st key))])" and
    "length (en_log st) \<le> length (en_log (flushBurst sha st key fnow))"
    using assms(1) by (auto simp: flushBurst_def Let_def waiting_def engine_inv_def split: option.split)
  ultimately show ?thesis using k(2,3) by simp
qed

definition sample_session :: control_session where
  "sample_session = \<lparr>se_id = ''s1'', se_node = Some ''n1'', se_cwd = ''/w'', se_repoPath = None, se_worktreePath = None,
     se_repoName = None, se_branchName = None, se_mode = TransportPty, se_controlState = JUndef\<rparr>"

definition sample_engine :: engine where
  "sample_engine = \<lparr>en_sessions = (\<lambda>_. sample_session), en_pending = [], en_log = [], en_events = []\<rparr>"

lemma sample_key: "pendingBurstKey sample_session = Inr ''n1:s1''"
  by (simp add: pendingBurstKey_def node_of_def sample_session_def global_session_id_def createGlobalSessionId_def
      createScopedId_def hasValue_def is_ws_point_def is_surrogate_def uri_unreserved_def char_of_def bit_0)

lemma sample_typed: "typed (\<lambda>_. sample_session) ''n1:s1'' [OpInput 0 ''l'' ''t'' ''a'', OpInput 1 ''s'' ''t'' ''b''] = [''l'', ''s'']"
  by (simp add: keyed_as_def sample_key) (simp add: sample_session_def)

theorem typed_input_recorded_once_witness:
  "\<exists>gs. concat gs @ waiting (run (engine_step (\<lambda>s. s)) sample_engine [OpInput 0 ''l'' ''t'' ''a'', OpInput 1 ''s'' ''t'' ''b'']) ''n1:s1'' =
     [''l'', ''s'']"
proof -
  have e: "en_pending sample_engine = []" "en_log sample_engine = []" "en_events sample_engine = []"
    "en_sessions sample_engine = (\<lambda>_. sample_session)" by (simp_all add: sample_engine_def)
  from typed_input_recorded_once [OF e(1-3), of "\<lambda>s. s" "[OpInput 0 ''l'' ''t'' ''a'', OpInput 1 ''s'' ''t'' ''b'']" "''n1:s1''"]
  show ?thesis unfolding e(4) sample_typed by blast
qed

theorem supervisor_flushes_first_witness:
  "\<exists>st'. recordSupervisorAction (\<lambda>s. s) sample_engine 0 SubmitAction legacy_control_actor ''go'' ''t'' ''t'' ''a'' = Inr st' \<and>
     map iv_redaction (en_log st') = [redaction_of (\<lambda>s. s) ''go'']"
proof -
  have inv: "engine_inv sample_engine" by (simp add: engine_inv_def sample_engine_def jm_wf_def jm_get_def)
  have key: "pendingBurstKey (en_sessions sample_engine 0) = Inr ''n1:s1''" by (simp add: sample_engine_def sample_key)
  obtain st' where st': "recordSupervisorAction (\<lambda>s. s) sample_engine 0 SubmitAction legacy_control_actor ''go'' ''t'' ''t'' ''a'' = Inr st'"
    by (simp add: recordSupervisorAction_def key Let_def)
  from supervisor_flushes_first [OF inv st' key] st' show ?thesis
    by (intro exI [of _ st']) (simp add: sample_engine_def waiting_def jm_get_def)
qed

end
