(* ===== verification/Js_Object.thy ===== *)
theory Js_Object
  imports Relay_Prelude
begin

text \<open>
  Objects whose fields the sources address by name at run time: spreading, setting and deleting members of
  a \<open>json\<close> object, and arrays as lists. A member set to \<open>undefined\<close> reads like one that is absent.
\<close>

definition members :: "json \<Rightarrow> (string \<times> json) list" where
  "members v = (case v of JObj kvs \<Rightarrow> kvs | _ \<Rightarrow> [])"

text \<open>\<open>{ ...v, [k]: x }\<close> and \<open>{ ...v, ...w }\<close>\<close>

definition obj_set :: "json \<Rightarrow> string \<Rightarrow> json \<Rightarrow> json" where
  "obj_set v k x = JObj (jm_set (members v) k x)"

definition obj_spread :: "json \<Rightarrow> json \<Rightarrow> json" where
  "obj_spread v w = foldl (\<lambda>acc kv. obj_set acc (fst kv) (snd kv)) (JObj (members v)) (members w)"

definition obj_delete :: "json \<Rightarrow> string \<Rightarrow> json" where
  "obj_delete v k = JObj (jm_delete (members v) k)"

definition elements :: "json \<Rightarrow> json list" where
  "elements v = (case v of JArr xs \<Rightarrow> xs | _ \<Rightarrow> [])"

definition arr :: "json \<Rightarrow> string \<Rightarrow> json list" where
  "arr v k = elements (fld v k)"

text \<open>An object literal with optional members: those that are \<open>undefined\<close> are left out.\<close>

definition js_obj :: "(string \<times> json) list \<Rightarrow> json" where
  "js_obj kvs = JObj (filter (\<lambda>kv. snd kv \<noteq> JUndef) kvs)"

text \<open>\<open>a ?? b\<close> and \<open>a || b\<close> on values.\<close>

definition js_nullish :: "json \<Rightarrow> json \<Rightarrow> json" where
  "js_nullish a b = (if a = JUndef \<or> a = JNull then b else a)"

fun js_truthy :: "json \<Rightarrow> bool" where
  "js_truthy JUndef = False"
| "js_truthy JNull = False"
| "js_truthy (JBool b) = b"
| "js_truthy (JNum n) = (n \<noteq> IntNum 0 \<and> n \<noteq> NaNNum)"
| "js_truthy (JStr s) = (s \<noteq> [])"
| "js_truthy (JArr xs) = True"
| "js_truthy (JObj kvs) = True"

definition js_or :: "json \<Rightarrow> json \<Rightarrow> json" where
  "js_or a b = (if js_truthy a then a else b)"

lemma fld_obj_set: "fld (obj_set v k x) l = (if l = k then x else fld v l)"
  by (cases v) (simp_all add: fld_def obj_set_def members_def map_of_jm_set)

lemma obj_keys_members: "obj_keys v = map fst (members v)"
  by (cases v) (simp_all add: obj_keys_def members_def)

lemma fld_in_keys: "fld v k \<noteq> JUndef \<Longrightarrow> k \<in> set (obj_keys v)"
  by (cases v) (auto simp: fld_def obj_keys_def split: option.splits intro: rev_image_eqI dest!: map_of_SomeD)

lemma is_record_JObj: "is_record (JObj kvs)"
  by (simp add: is_record_def)

lemma fld_JObj: "fld (JObj kvs) k = (case map_of kvs k of Some x \<Rightarrow> x | None \<Rightarrow> JUndef)"
  by (simp add: fld_def)

lemma fld_same [simp]: "fld (obj_set v k x) k = x"
  by (simp add: fld_obj_set)

lemma fld_other [simp]: "l \<noteq> k \<Longrightarrow> fld (obj_set v k x) l = fld v l"
  by (simp add: fld_obj_set)

lemma is_record_obj_set [simp]: "is_record (obj_set v k x)"
  by (simp add: is_record_def obj_set_def)

lemma is_record_spread [simp]: "is_record (obj_spread v w)"
proof -
  have "is_record acc \<Longrightarrow> is_record (foldl (\<lambda>acc kv. obj_set acc (fst kv) (snd kv)) acc kvs)" for acc kvs
    by (induction kvs arbitrary: acc) simp_all
  then show ?thesis by (simp add: obj_spread_def is_record_def)
qed

lemma fld_spread:
  "distinct (map fst (members w)) \<Longrightarrow>
    fld (obj_spread v w) k = (if k \<in> set (map fst (members w)) then fld w k else fld v k)"
proof -
  have step: "distinct (map fst kvs) \<Longrightarrow> fld (foldl (\<lambda>acc kv. obj_set acc (fst kv) (snd kv)) acc kvs) k =
      (case map_of kvs k of Some x \<Rightarrow> x | None \<Rightarrow> fld acc k)" for acc kvs
  proof (induction kvs arbitrary: acc)
    case (Cons kv kvs)
    then have none: "map_of kvs (fst kv) = None" by (simp add: map_of_eq_None_iff)
    show ?case
    proof (cases "k = fst kv")
      case True
      with Cons none show ?thesis by (cases kv) simp
    next
      case False
      with Cons show ?thesis by (cases kv) (simp split: option.split)
    qed
  qed simp
  assume d: "distinct (map fst (members w))"
  have "fld w k = (case map_of (members w) k of Some x \<Rightarrow> x | None \<Rightarrow> JUndef)" by (cases w) (simp_all add: fld_def members_def)
  moreover have "fld (JObj (members v)) k = fld v k" by (cases v) (simp_all add: fld_def members_def)
  moreover have "map_of (members w) k = None \<longleftrightarrow> k \<notin> set (map fst (members w))" by (simp add: map_of_eq_None_iff)
  ultimately show ?thesis using step [OF d, of "JObj (members v)"]
    by (auto simp: obj_spread_def split: option.splits)
qed

lemma fld_delete: "fld (obj_delete v k) l = (if l = k then JUndef else fld v l)"
  by (cases v) (simp_all add: fld_def obj_delete_def members_def jm_delete_def map_of_filter_key)

lemma elements_JArr [simp]: "elements (JArr xs) = xs"
  by (simp add: elements_def)

lemma arr_obj_set [simp]: "arr (obj_set v k (JArr xs)) k = xs" "l \<noteq> k \<Longrightarrow> arr (obj_set v k x) l = arr v l"
  by (simp_all add: arr_def)

lemma is_record_js_obj [simp]: "is_record (js_obj kvs)"
  by (simp add: is_record_def js_obj_def)

lemma fld_js_obj: "fld (js_obj kvs) k = (case map_of (filter (\<lambda>kv. snd kv \<noteq> JUndef) kvs) k of Some x \<Rightarrow> x | None \<Rightarrow> JUndef)"
  by (simp add: fld_def js_obj_def)

end
