(* ===== verification/Agent_Chat_Wire.thy ===== *)
theory Agent_Chat_Wire
  imports Js_Object
begin

text \<open>
  The runtime guards of the agent chat protocol (\<open>shared/agent-chat-protocol-v2.ts\<close>): sessions, turns, items, cards, live
  states and patches as values of type \<open>unknown\<close>.
\<close>

section \<open>Values\<close>

definition patch_types :: "string list" where
  "patch_types = [''agent-session-snapshot-v2'', ''agent-session-updated-v2'', ''agent-live-state-updated-v2'',
     ''agent-turn-started-v2'', ''agent-item-started-v2'', ''agent-item-delta-v2'', ''agent-item-updated-v2'',
     ''agent-turn-completed-v2'', ''agent-error-v2'']"

definition turn_statuses :: "string list" where
  "turn_statuses = [''queued'', ''running'', ''waiting'', ''completed'', ''interrupted'', ''failed'']"

definition turn_completion_statuses :: "string list" where
  "turn_completion_statuses = [''completed'', ''interrupted'', ''failed'']"

definition live_statuses :: "string list" where
  "live_statuses = [''idle'', ''working'', ''waiting'', ''error'', ''disconnected'']"

definition waiting_on_values :: "string list" where
  "waiting_on_values = [''approval'', ''question'', ''plan'', ''tool'', ''network'']"

definition delta_string_fields :: "string list" where
  "delta_string_fields = [''text'', ''output'', ''summary'', ''detail'', ''patch'', ''content'']"

definition detail_card_kinds :: "string list" where
  "detail_card_kinds = [''message'', ''thought'', ''tool_call'', ''output'', ''diff'']"

definition detail_card_statuses :: "string list" where
  "detail_card_statuses = [''pending'', ''running'', ''completed'', ''failed'', ''cancelled'']"

definition str_in :: "string list \<Rightarrow> json \<Rightarrow> bool" where
  "str_in xs v \<longleftrightarrow> str_sat (\<lambda>s. s \<in> set xs) v"

definition arr_of :: "(json \<Rightarrow> bool) \<Rightarrow> json \<Rightarrow> bool" where
  "arr_of P v \<longleftrightarrow> arr_sat (list_all P) v"

section \<open>Cards and items\<close>

definition isDetailCard :: "json \<Rightarrow> bool" where
  "isDetailCard v \<longleftrightarrow> is_record v \<and> str_in detail_card_kinds (fld v ''kind'') \<and> is_str (fld v ''title'') \<and>
     str_in detail_card_statuses (fld v ''status'') \<and> opt_sat is_str (fld v ''content'') \<and>
     opt_sat is_str (fld v ''language'') \<and> opt_sat is_str (fld v ''command'') \<and> opt_sat is_str (fld v ''path'') \<and>
     opt_sat is_num (fld v ''additions'') \<and> opt_sat is_num (fld v ''deletions'') \<and> opt_sat is_num (fld v ''sizeBytes'')"

definition item_validators :: "(string \<times> (json \<Rightarrow> bool)) list" where
  "item_validators =
     [(''userMessage'', \<lambda>v. is_str (fld v ''text'')),
      (''assistantMessage'', \<lambda>v. is_str (fld v ''text'')),
      (''reasoning'', \<lambda>v. is_str (fld v ''summary'')),
      (''plan'', \<lambda>v. is_str (fld v ''text'')),
      (''commandExecution'', \<lambda>v. is_str (fld v ''command'') \<and> is_str (fld v ''output'')),
      (''fileChange'', \<lambda>v. arr_of (\<lambda>p. is_record p \<and> is_str (fld p ''path'')) (fld v ''paths'')),
      (''mcpToolCall'', \<lambda>v. is_str (fld v ''server'') \<and> is_str (fld v ''tool'')),
      (''dynamicToolCall'', \<lambda>v. is_str (fld v ''namespace'') \<and> is_str (fld v ''tool'')),
      (''approval'', \<lambda>v. is_str (fld v ''requestId'') \<and> is_str (fld v ''kind'') \<and> is_str (fld v ''description'') \<and>
         is_str (fld v ''target'')),
      (''question'', \<lambda>v. is_str (fld v ''requestId'') \<and> is_str (fld v ''question'')),
      (''compaction'', \<lambda>v. is_str (fld v ''summary'')),
      (''sessionBreak'', \<lambda>v. fld v ''reason'' = JStr ''continue-here''),
      (''webSearch'', \<lambda>v. is_str (fld v ''query'')),
      (''imageView'', \<lambda>v. is_str (fld v ''source'')),
      (''imageGeneration'', \<lambda>v. is_str (fld v ''prompt'')),
      (''hookPrompt'', \<lambda>v. is_str (fld v ''prompt'')),
      (''providerExtension'', \<lambda>v. is_str (fld v ''namespace'') \<and> is_record (fld v ''payload'')),
      (''errorMessage'', \<lambda>v. is_str (fld v ''message'') \<and>
         (fld v ''source'' = JStr ''agent'' \<or> fld v ''source'' = JStr ''client''))]"

definition item_valid :: "string \<Rightarrow> json \<Rightarrow> bool" where
  "item_valid ty v = (case map_of item_validators ty of Some P \<Rightarrow> P v | None \<Rightarrow> False)"

definition isItem :: "json \<Rightarrow> bool" where
  "isItem v \<longleftrightarrow> is_record v \<and> is_str (fld v ''id'') \<and> is_str (fld v ''type'') \<and>
     item_valid (the_str (fld v ''type'')) v \<and> opt_sat isDetailCard (fld v ''card'')"

definition isTurn :: "json \<Rightarrow> bool" where
  "isTurn v \<longleftrightarrow> is_record v \<and> is_str (fld v ''id'') \<and> str_in turn_statuses (fld v ''status'') \<and>
     is_str (fld v ''inputMessageId'') \<and> arr_of isItem (fld v ''items'') \<and> is_str (fld v ''startedAt'')"

section \<open>Sessions\<close>

definition isProviderSession :: "json \<Rightarrow> bool" where
  "isProviderSession v \<longleftrightarrow> is_record v \<and> list_all (\<lambda>kv. is_str (snd kv)) (members v)"

definition isPartialSessionConfig :: "json \<Rightarrow> bool" where
  "isPartialSessionConfig v \<longleftrightarrow> is_record v \<and> ''cwd'' \<notin> set (obj_keys v) \<and> opt_sat is_str (fld v ''model'') \<and>
     opt_sat (null_sat is_str) (fld v ''effort'') \<and> opt_sat is_str (fld v ''permissionMode'') \<and>
     opt_sat (arr_of is_str) (fld v ''additionalDirectories'') \<and> opt_sat is_record (fld v ''providerOptions'')"

definition isSlashCommand :: "json \<Rightarrow> bool" where
  "isSlashCommand v \<longleftrightarrow> is_record v \<and> is_str (fld v ''name'') \<and>
     list_all (\<lambda>k. opt_sat is_str (fld v k))
       [''id'', ''description'', ''argumentHint'', ''source'', ''sourceLabel'', ''namespace'', ''path'', ''collisionKey''] \<and>
     opt_sat (arr_of is_str) (fld v ''aliases'') \<and>
     opt_sat (str_in [''agent'', ''relay-control'', ''client'']) (fld v ''dispatch'') \<and>
     opt_sat (str_in [''/'', ''$'']) (fld v ''nativePrefix'') \<and>
     opt_sat (arr_of (\<lambda>a. is_record a \<and> is_str (fld a ''value'') \<and> opt_sat is_str (fld a ''label'') \<and>
       opt_sat is_str (fld a ''description''))) (fld v ''args'') \<and>
     opt_sat is_bool (fld v ''destructive'')"

definition isSlashCommandArray :: "json \<Rightarrow> bool" where
  "isSlashCommandArray v \<longleftrightarrow> arr_of isSlashCommand v"

definition isLiveState :: "json \<Rightarrow> bool" where
  "isLiveState v \<longleftrightarrow> is_record v \<and> str_in live_statuses (fld v ''status'') \<and> null_sat is_str (fld v ''activeTurnId'') \<and>
     null_sat (str_in waiting_on_values) (fld v ''waitingOn'') \<and> arr_of is_str (fld v ''activeRequestIds'') \<and>
     null_sat is_str (fld v ''proposedPlanItemId'') \<and> is_num (fld v ''queueLength'') \<and>
     is_bool (fld v ''fastModeAvailable'') \<and> null_sat is_str (fld v ''error'')"

definition isPartialLiveState :: "json \<Rightarrow> bool" where
  "isPartialLiveState v \<longleftrightarrow> is_record v \<and> opt_sat (str_in live_statuses) (fld v ''status'') \<and>
     opt_sat (null_sat is_str) (fld v ''activeTurnId'') \<and> opt_sat (null_sat (str_in waiting_on_values)) (fld v ''waitingOn'') \<and>
     opt_sat (arr_of is_str) (fld v ''activeRequestIds'') \<and> opt_sat (null_sat is_str) (fld v ''proposedPlanItemId'') \<and>
     opt_sat is_num (fld v ''queueLength'') \<and> opt_sat is_bool (fld v ''fastModeAvailable'') \<and>
     opt_sat (null_sat is_str) (fld v ''error'')"

definition isSession :: "json \<Rightarrow> bool" where
  "isSession v \<longleftrightarrow> is_record v \<and> is_str (fld v ''id'') \<and> is_str (fld v ''provider'') \<and> is_record (fld v ''capabilities'') \<and>
     is_record (fld v ''config'') \<and> is_str (fld (fld v ''config'') ''cwd'') \<and> isLiveState (fld v ''live'') \<and>
     arr_of isTurn (fld v ''turns'') \<and> opt_sat isProviderSession (fld v ''providerSession'') \<and>
     opt_sat isSlashCommandArray (fld v ''slashCommands'')"

section \<open>Patches\<close>

definition isDelta :: "json \<Rightarrow> bool" where
  "isDelta v \<longleftrightarrow> is_record v \<and>
     list_all (\<lambda>k. k \<notin> set (obj_keys v) \<or> is_str (fld v k)) delta_string_fields \<and>
     opt_sat (str_in detail_card_statuses) (fld v ''status'') \<and> opt_sat is_str (fld v ''error'') \<and>
     opt_sat (null_sat is_num) (fld v ''exitCode'') \<and> opt_sat is_num (fld v ''durationMs'') \<and>
     opt_sat (\<lambda>c. is_record c \<and> opt_sat is_num (fld c ''additions'') \<and> opt_sat is_num (fld c ''deletions'')) (fld v ''card'') \<and>
     (list_ex (\<lambda>k. is_str (fld v k)) delta_string_fields \<or> fld v ''status'' \<noteq> JUndef \<or> fld v ''error'' \<noteq> JUndef \<or>
      fld v ''exitCode'' \<noteq> JUndef \<or> fld v ''durationMs'' \<noteq> JUndef \<or> fld v ''card'' \<noteq> JUndef)"

definition isAgentPatchV2 :: "json \<Rightarrow> bool" where
  "isAgentPatchV2 v \<longleftrightarrow> is_record v \<and> str_in patch_types (fld v ''type'') \<and> is_str (fld v ''sessionId'') \<and>
     is_str (fld v ''timestamp'') \<and>
     (let ty = the_str (fld v ''type'') in
      if ty = ''agent-session-snapshot-v2'' then isSession (fld v ''session'')
      else if ty = ''agent-session-updated-v2'' then
        opt_sat isProviderSession (fld v ''providerSession'') \<and> opt_sat is_record (fld v ''capabilities'') \<and>
        opt_sat isPartialSessionConfig (fld v ''config'') \<and> opt_sat isSlashCommandArray (fld v ''slashCommands'')
      else if ty = ''agent-live-state-updated-v2'' then isPartialLiveState (fld v ''live'')
      else if ty = ''agent-turn-started-v2'' then isTurn (fld v ''turn'')
      else if ty = ''agent-item-started-v2'' then is_str (fld v ''turnId'') \<and> isItem (fld v ''item'')
      else if ty = ''agent-item-delta-v2'' then
        is_str (fld v ''turnId'') \<and> is_str (fld v ''itemId'') \<and> opt_sat (str_in [''append'', ''replace'']) (fld v ''mode'') \<and>
        isDelta (fld v ''delta'')
      else if ty = ''agent-item-updated-v2'' then is_str (fld v ''turnId'') \<and> isItem (fld v ''item'')
      else if ty = ''agent-turn-completed-v2'' then
        is_str (fld v ''turnId'') \<and> str_in turn_completion_statuses (fld v ''status'')
      else is_str (fld v ''message''))"

end
