(* ===== verification/Agent_Cards.thy ===== *)
theory Agent_Cards
  imports Agent_Chat_Wire Stable_Json
begin

text \<open>
  Detail cards (\<open>agentDetailCardForItem\<close> of \<open>shared/agent-chat-protocol-v2.ts\<close>): the framework-neutral view of an
  item. Texts here may hold the horizontal ellipsis U+2026, which the code appends to what it cuts; it takes the place
  of the control character U+0085 in the characters below 256, so \<open>encoded_length\<close> gives it three bytes.
\<close>

section \<open>Text\<close>

definition ellipsis :: char where "ellipsis = CHR 0x85"

definition encoded_length :: "string \<Rightarrow> nat" where
  "encoded_length s = sum_list (map (\<lambda>c. if c = ellipsis then 3 else if (of_char c :: nat) < 128 then 1 else 2) s)"

text \<open>\<open>JSON.stringify(value, null, 2)\<close>\<close>

fun lines_of :: "string list \<Rightarrow> string" where
  "lines_of [] = []"
| "lines_of [s] = s"
| "lines_of (s # t # ss) = s @ '','' @ [CHR 0x0A] @ lines_of (t # ss)"

function json_pretty :: "(js_number \<Rightarrow> string) \<Rightarrow> string \<Rightarrow> json \<Rightarrow> string" where
  "json_pretty numstr indent (JArr xs) =
     (if xs = [] then ''[]'' else ''['' @ [CHR 0x0A] @ lines_of (map (\<lambda>x. indent @ ''  '' @ json_pretty numstr (indent @ ''  '') x) xs) @
        [CHR 0x0A] @ indent @ '']'')"
| "json_pretty numstr indent (JObj kvs) =
     (let shown = filter (\<lambda>kv. snd kv \<noteq> JUndef) kvs in
      if shown = [] then ''{}'' else ''{'' @ [CHR 0x0A] @
        lines_of (map (\<lambda>kv. indent @ ''  '' @ json_quote (fst kv) @ '': '' @ json_pretty numstr (indent @ ''  '') (snd kv)) shown) @
        [CHR 0x0A] @ indent @ ''}'')"
| "json_pretty numstr indent JUndef = ''null''"
| "json_pretty numstr indent JNull = ''null''"
| "json_pretty numstr indent (JBool b) = json_stringify numstr (JBool b)"
| "json_pretty numstr indent (JNum n) = json_stringify numstr (JNum n)"
| "json_pretty numstr indent (JStr s) = json_quote s"
  by pat_completeness auto
termination
proof (relation "measure (\<lambda>(f, i, v). size v)", goal_cases)
  case (2 numstr indent xs x)
  from 2(2) have "size x \<le> size_list size xs" by (rule size_list_estimation' [OF _ order_refl])
  then show ?case by simp
next
  case (3 numstr indent kvs shown kv)
  then have "kv \<in> set kvs" by simp
  then have "size (snd kv) \<le> size_list (size_prod (\<lambda>_. 0) size) kvs" by (induction kvs) (auto split: prod.splits)
  then show ?case by simp
qed simp

definition detailCardText :: "(js_number \<Rightarrow> string) \<Rightarrow> json \<Rightarrow> string" where
  "detailCardText numstr v = (case v of JUndef \<Rightarrow> [] | JNull \<Rightarrow> [] | JStr s \<Rightarrow> s | _ \<Rightarrow> json_pretty numstr [] v)"

definition split_lines :: "string \<Rightarrow> string list" where
  "split_lines s = foldr (\<lambda>c ls. if c = CHR 0x0A then [] # ls else (case ls of l # rest \<Rightarrow> (c # l) # rest | [] \<Rightarrow> [[c]])) s [[]]"

definition diffLineCounts :: "string \<Rightarrow> nat \<times> nat" where
  "diffLineCounts content =
     (length (filter (\<lambda>l. starts_with l ''+'' \<and> \<not> starts_with l ''+++'') (split_lines content)),
      length (filter (\<lambda>l. starts_with l ''-'' \<and> \<not> starts_with l ''---'') (split_lines content)))"

text \<open>\<open>(^|\n)\<close> in front of a fixed text is the start of a line.\<close>

definition some_line :: "string list \<Rightarrow> string \<Rightarrow> bool" where
  "some_line ps content \<longleftrightarrow> list_ex (\<lambda>l. list_ex (starts_with l) ps) (split_lines content)"

definition isUnifiedDiff :: "string \<Rightarrow> bool" where
  "isUnifiedDiff content \<longleftrightarrow> some_line [''diff --git ''] content \<or>
     (some_line [''--- a/'', ''--- /dev/null''] content \<and> some_line [''+++ b/'', ''+++ /dev/null''] content)"

definition nl :: string where "nl = [CHR 0x0A]"

definition toolCardContent :: "(js_number \<Rightarrow> string) \<Rightarrow> json \<Rightarrow> json \<Rightarrow> string" where
  "toolCardContent numstr args output =
     (let inputText = detailCardText numstr args; outputText = detailCardText numstr output in
      if inputText \<noteq> [] \<and> outputText \<noteq> [] then ''input'' @ nl @ inputText @ nl @ nl @ ''output'' @ nl @ outputText
      else if inputText \<noteq> [] then ''input'' @ nl @ inputText
      else if outputText \<noteq> [] then ''output'' @ nl @ outputText
      else [])"

text \<open>\<open>replace(/\s+/g, ' ')\<close>\<close>

fun squeeze_ws :: "bool \<Rightarrow> string \<Rightarrow> string" where
  "squeeze_ws inside [] = []"
| "squeeze_ws inside (c # s) =
     (if is_ws c then (if inside then squeeze_ws True s else CHR '' '' # squeeze_ws True s) else c # squeeze_ws False s)"

definition trim_right :: "string \<Rightarrow> string" where
  "trim_right s = rev (dropWhile is_ws (rev s))"

definition detailCardTitle :: "string \<Rightarrow> string \<Rightarrow> string" where
  "detailCardTitle content fallback =
     (let title = trim (squeeze_ws False content) in
      if title = [] then fallback else if length title \<le> 80 then title else trim_right (take 79 title) @ [ellipsis])"

section \<open>Cards\<close>

definition detailCardStatus :: "json \<Rightarrow> json" where
  "detailCardStatus item = js_nullish (fld item ''status'') (JStr ''pending'')"

definition isTerminalDetailStatus :: "json \<Rightarrow> bool" where
  "isTerminalDetailStatus v \<longleftrightarrow> str_in [''completed'', ''failed'', ''cancelled''] v"

definition num :: "nat \<Rightarrow> json" where "num n = JNum (IntNum (int n))"

text \<open>The content of a card, when there is one, with the fields derived from it at the end of an item.\<close>

definition content_members :: "bool \<Rightarrow> bool \<Rightarrow> json \<Rightarrow> (string \<times> json) list" where
  "content_members derived diff content =
     (if js_truthy content then
        (''content'', content) #
        (if derived then (''sizeBytes'', num (encoded_length (the_str content))) #
           (if diff then [(''additions'', num (fst (diffLineCounts (the_str content)))),
              (''deletions'', num (snd (diffLineCounts (the_str content))))] else [])
         else [])
      else [])"

definition message_card :: "json \<Rightarrow> bool \<Rightarrow> json" where
  "message_card item derived = JObj ([(''kind'', JStr ''message''),
     (''title'', JStr (if fld item ''type'' = JStr ''userMessage'' then ''message'' else ''response'')),
     (''status'', detailCardStatus item)] @ content_members derived False (fld item ''text''))"

definition reasoning_card :: "json \<Rightarrow> bool \<Rightarrow> json" where
  "reasoning_card item derived = JObj ([(''kind'', JStr ''thought''),
     (''title'', JStr (if derived then detailCardTitle (the_str (fld item ''summary'')) ''thinking'' else ''thinking'')),
     (''status'', detailCardStatus item)] @ content_members derived False (js_or (fld item ''detail'') (fld item ''summary'')))"

definition command_card :: "json \<Rightarrow> bool \<Rightarrow> json" where
  "command_card item derived = JObj ([(''kind'', JStr ''output''),
     (''title'', js_or (fld item ''command'') (JStr ''command'')), (''status'', detailCardStatus item),
     (''command'', fld item ''command''), (''language'', JStr ''bash'')] @ content_members derived False (fld item ''output''))"

definition first_path :: "json \<Rightarrow> json" where
  "first_path item = (case arr item ''paths'' of [] \<Rightarrow> JUndef | p # _ \<Rightarrow> fld p ''path'')"

definition file_card :: "json \<Rightarrow> bool \<Rightarrow> json" where
  "file_card item derived =
     (let n = length (arr item ''paths''); path = first_path item in
      JObj ([(''kind'', JStr ''diff''),
        (''title'', js_nullish path (JStr (nat_to_dec n @ '' file'' @ (if n = 1 then [] else ''s'')))),
        (''status'', detailCardStatus item), (''language'', JStr ''diff'')] @
        (if js_truthy path then [(''path'', path)] else []) @
        content_members derived True (js_nullish (fld item ''patch'') (JStr []))))"

definition tool_content :: "(js_number \<Rightarrow> string) \<Rightarrow> json \<Rightarrow> string" where
  "tool_content numstr item =
     (let shown = fld item (if fld item ''type'' = JStr ''dynamicToolCall'' then ''content'' else ''progress'') in
      toolCardContent numstr (fld item ''arguments'')
        (js_or shown (JStr (detailCardText numstr (fld item ''result'')))))"

definition tool_card :: "(js_number \<Rightarrow> string) \<Rightarrow> json \<Rightarrow> bool \<Rightarrow> json" where
  "tool_card numstr item derived =
     (let content = tool_content numstr item;
          isDiff = (fld (fld item ''metadata'') ''contentKind'' = JStr ''diff'' \<or> isUnifiedDiff content) in
      JObj ([(''kind'', JStr (if isDiff then ''diff'' else ''tool_call'')), (''title'', js_or (fld item ''tool'') (JStr ''tool'')),
        (''status'', detailCardStatus item)] @ (if isDiff then [(''language'', JStr ''diff'')] else []) @
        content_members derived isDiff (JStr content)))"

definition agentDetailCardForItem :: "(js_number \<Rightarrow> string) \<Rightarrow> json \<Rightarrow> json option" where
  "agentDetailCardForItem numstr item =
     (let derived = isTerminalDetailStatus (detailCardStatus item); ty = the_str (fld item ''type'') in
      if ty = ''assistantMessage'' \<or> ty = ''userMessage'' then Some (message_card item derived)
      else if ty = ''reasoning'' then Some (reasoning_card item derived)
      else if ty = ''commandExecution'' then Some (command_card item derived)
      else if ty = ''fileChange'' then Some (file_card item derived)
      else if ty = ''dynamicToolCall'' \<or> ty = ''mcpToolCall'' then Some (tool_card numstr item derived)
      else None)"

definition withAgentDetailCard :: "(js_number \<Rightarrow> string) \<Rightarrow> json \<Rightarrow> json" where
  "withAgentDetailCard numstr item =
     (case agentDetailCardForItem numstr item of None \<Rightarrow> item | Some c \<Rightarrow> obj_set item ''card'' c)"

definition withDetailCardsInTurn :: "(js_number \<Rightarrow> string) \<Rightarrow> json \<Rightarrow> json" where
  "withDetailCardsInTurn numstr turn = obj_set turn ''items'' (JArr (map (withAgentDetailCard numstr) (arr turn ''items'')))"

definition withAgentDetailCards :: "(js_number \<Rightarrow> string) \<Rightarrow> json \<Rightarrow> json" where
  "withAgentDetailCards numstr patch =
     (let ty = the_str (fld patch ''type'') in
      if ty = ''agent-session-snapshot-v2'' then
        obj_set patch ''session'' (obj_set (fld patch ''session'') ''turns''
          (JArr (map (withDetailCardsInTurn numstr) (arr (fld patch ''session'') ''turns''))))
      else if ty = ''agent-turn-started-v2'' then obj_set patch ''turn'' (withDetailCardsInTurn numstr (fld patch ''turn''))
      else if ty = ''agent-item-started-v2'' \<or> ty = ''agent-item-updated-v2'' then
        obj_set patch ''item'' (withAgentDetailCard numstr (fld patch ''item''))
      else patch)"

end
