(* ===== verification/Agent_Chat.thy ===== *)
theory Agent_Chat
  imports Agent_Cards "HOL-Library.Word"
begin

unbundle bit_operations_syntax

text \<open>
  The reducer of the agent chat (\<open>applyAgentPatchV2\<close> of \<open>shared/agent-chat-protocol-v2.ts\<close>): a session holds turns, a turn
  holds items, and a patch replaces the session, merges into its settings or live state, starts, updates or completes
  a turn or an item, appends to the text fields of an item, or reports an error.
\<close>

section \<open>Helpers\<close>

definition emptyAgentSessionV2 :: "json \<Rightarrow> json" where
  "emptyAgentSessionV2 input =
     (let session = JObj
        [(''id'', fld input ''id''), (''provider'', fld input ''provider''),
         (''capabilities'', js_nullish (fld input ''capabilities'') (JObj [])),
         (''config'', obj_spread (JObj [(''cwd'', fld input ''cwd'')]) (fld input ''config'')),
         (''live'', JObj [(''status'', JStr ''idle''), (''activeTurnId'', JNull), (''waitingOn'', JNull), (''activeRequestIds'', JArr []),
            (''proposedPlanItemId'', JNull), (''queueLength'', num 0), (''fastModeAvailable'', JBool False), (''error'', JNull)]),
         (''turns'', JArr [])]
      in if fld input ''providerSession'' \<noteq> JUndef then obj_set session ''providerSession'' (fld input ''providerSession'') else session)"

fun upsert_at :: "json \<Rightarrow> json list \<Rightarrow> json list" where
  "upsert_at item [] = [item]"
| "upsert_at item (x # xs) = (if fld x ''id'' = fld item ''id'' then item # xs else x # upsert_at item xs)"

definition upsertById :: "json list \<Rightarrow> json \<Rightarrow> json list" where
  "upsertById items item = upsert_at item items"

definition map_id :: "json \<Rightarrow> (json \<Rightarrow> json) \<Rightarrow> json list \<Rightarrow> json list" where
  "map_id i f xs = map (\<lambda>x. if fld x ''id'' = i then f x else x) xs"

definition updateTurn :: "json \<Rightarrow> json \<Rightarrow> (json \<Rightarrow> json) \<Rightarrow> json" where
  "updateTurn session turnId update = obj_set session ''turns'' (JArr (map_id turnId update (arr session ''turns'')))"

definition update_items :: "(json list \<Rightarrow> json list) \<Rightarrow> json \<Rightarrow> json" where
  "update_items f turn = obj_set turn ''items'' (JArr (f (arr turn ''items'')))"

text \<open>A code unit of the text: the ellipsis is U+2026.\<close>

definition char_code :: "char \<Rightarrow> nat" where
  "char_code c = (if c = ellipsis then 8230 else of_char c)"

definition fnv1a :: "string \<Rightarrow> 32 word" where
  "fnv1a s = foldl (\<lambda>h c. (h XOR of_nat (char_code c)) * 16777619) 2166136261 s"

definition digits36 :: string where
  "digits36 = ''0123456789abcdefghijklmnopqrstuvwxyz''"

fun base36 :: "nat \<Rightarrow> string" where
  "base36 n = (if n < 36 then [digits36 ! n] else base36 (n div 36) @ [digits36 ! (n mod 36)])"

declare base36.simps [simp del]

definition shortHash :: "string \<Rightarrow> string" where
  "shortHash s = base36 (unat (fnv1a s))"

section \<open>Deltas\<close>

definition appendStringField :: "json \<Rightarrow> json \<Rightarrow> string \<Rightarrow> bool \<Rightarrow> json" where
  "appendStringField item delta key replacing =
     (case fld delta key of
        JStr fragment \<Rightarrow>
          if replacing then obj_set item key (JStr fragment)
          else (case fld item key of
             JUndef \<Rightarrow> obj_set item key (JStr fragment)
           | JStr current \<Rightarrow> obj_set item key (JStr (current @ fragment))
           | _ \<Rightarrow> item)
      | _ \<Rightarrow> item)"

definition set_if :: "bool \<Rightarrow> string \<Rightarrow> json \<Rightarrow> json \<Rightarrow> json" where
  "set_if b k x v = (if b then obj_set v k x else v)"

definition is_command :: "json \<Rightarrow> bool" where
  "is_command item \<longleftrightarrow> fld item ''type'' = JStr ''commandExecution''"

definition appendItemDelta :: "json \<Rightarrow> json \<Rightarrow> bool \<Rightarrow> json" where
  "appendItemDelta item delta replacing =
     (let n1 = foldl (\<lambda>n k. appendStringField n delta k replacing) item
            [''text'', ''output'', ''summary'', ''detail'', ''patch'', ''content''];
          n2 = set_if (fld delta ''status'' \<noteq> JUndef) ''status'' (fld delta ''status'') n1;
          n3 = set_if (fld delta ''error'' \<noteq> JUndef) ''error'' (fld delta ''error'') n2;
          n4 = set_if (fld delta ''exitCode'' \<noteq> JUndef \<and> is_command n3) ''exitCode'' (fld delta ''exitCode'') n3
      in set_if (fld delta ''durationMs'' \<noteq> JUndef \<and> is_command n4) ''durationMs'' (fld delta ''durationMs'') n4)"

text \<open>The content of a card that stays open; \<open>next\<close> is the item after the delta.\<close>

definition tool_stream :: "json \<Rightarrow> json \<Rightarrow> string \<Rightarrow> json \<Rightarrow> json" where
  "tool_stream item mode fragment shown =
     (let before = (if js_truthy shown then the_str shown else []);
          hadOutput = (is_str (fld item ''content'') \<and> the_str (fld item ''content'') \<noteq> []);
          separator = (if hadOutput then [] else if js_truthy shown then nl @ nl @ ''output'' @ nl else ''output'' @ nl)
      in JStr (if mode = JStr ''replace'' then (if js_truthy shown then before @ nl @ nl else []) @ ''output'' @ nl @ fragment
               else before @ separator @ fragment))"

definition open_content :: "json \<Rightarrow> json \<Rightarrow> json \<Rightarrow> json" where
  "open_content item patch next =
     (let ty = the_str (fld next ''type''); shown = fld (fld item ''card'') ''content'' in
      if ty = ''reasoning'' then js_or (fld next ''detail'') (fld next ''summary'')
      else if ty = ''commandExecution'' then fld next ''output''
      else if ty = ''fileChange'' then fld next ''patch''
      else if ty = ''dynamicToolCall'' \<and> is_str (fld (fld patch ''delta'') ''content'') then
        tool_stream item (fld patch ''mode'') (the_str (fld (fld patch ''delta'') ''content'')) shown
      else shown)"

definition applyDeltaToItem :: "(js_number \<Rightarrow> string) \<Rightarrow> json \<Rightarrow> json \<Rightarrow> json" where
  "applyDeltaToItem numstr item patch =
     (let delta = fld patch ''delta''; next = appendItemDelta item delta (fld patch ''mode'' = JStr ''replace'');
          shown = fld item ''card'';
          status = js_nullish (fld delta ''status'') (js_nullish (fld shown ''status'') (detailCardStatus next));
          content = open_content item patch next in
      if the_str (fld next ''type'') \<in> {''assistantMessage'', ''userMessage''} then next
      else if isTerminalDetailStatus status then withAgentDetailCard numstr next
      else if \<not> js_truthy shown then next
      else obj_set next ''card''
        (obj_spread (set_if (content \<noteq> JUndef) ''content'' content (obj_set shown ''status'' status))
          (js_nullish (fld delta ''card'') (JObj []))))"

definition applyItemDelta :: "(js_number \<Rightarrow> string) \<Rightarrow> json list \<Rightarrow> json \<Rightarrow> json list" where
  "applyItemDelta numstr items patch =
     (let i = fld patch ''itemId'' in
      if list_ex (\<lambda>x. fld x ''id'' = i) items then map_id i (\<lambda>x. applyDeltaToItem numstr x patch) items
      else if fld (fld patch ''delta'') ''text'' = JUndef then items
      else items @ [JObj [(''type'', JStr ''assistantMessage''), (''id'', i), (''text'', fld (fld patch ''delta'') ''text''),
        (''phase'', JStr ''answer''), (''status'', JStr ''running''), (''startedAt'', fld patch ''timestamp'')]])"

section \<open>Turns and errors\<close>

definition set_defined :: "json \<Rightarrow> string \<Rightarrow> json \<Rightarrow> json" where
  "set_defined patch k v = set_if (fld patch k \<noteq> JUndef) k (fld patch k) v"

definition completeTurn :: "json \<Rightarrow> json \<Rightarrow> json" where
  "completeTurn turn patch =
     set_defined patch ''error'' (set_defined patch ''usage'' (set_defined patch ''durationMs''
       (set_defined patch ''completedAt'' (obj_set turn ''status'' (fld patch ''status'')))))"

definition completeLiveStateForActiveTurn :: "json \<Rightarrow> json \<Rightarrow> json" where
  "completeLiveStateForActiveTurn session patch =
     (let live = fld session ''live'' in
      if fld live ''activeTurnId'' \<noteq> fld patch ''turnId'' then session
      else obj_set session ''live'' (obj_set (obj_set (obj_set live
        ''status'' (JStr (if fld patch ''status'' = JStr ''failed'' then ''error'' else ''idle'')))
        ''activeTurnId'' JNull)
        ''error'' (js_nullish (fld patch ''error'') (fld live ''error''))))"

definition error_item :: "json \<Rightarrow> json" where
  "error_item patch =
     (let ts = the_str (fld patch ''timestamp'') in
      JObj [(''type'', JStr ''errorMessage''),
        (''id'', JStr (''error-'' @ ts @ ''-'' @ shortHash (the_str (fld patch ''sessionId'') @ ''|'' @
           the_str (js_nullish (fld patch ''turnId'') (JStr [])) @ ''|'' @ the_str (fld patch ''message'')))),
        (''message'', fld patch ''message''), (''source'', JStr ''agent''), (''status'', JStr ''completed''),
        (''startedAt'', JStr ts), (''completedAt'', JStr ts)])"

definition add_item :: "json \<Rightarrow> json \<Rightarrow> json" where
  "add_item item turn = update_items (\<lambda>xs. xs @ [item]) turn"

definition error_turns :: "json \<Rightarrow> json \<Rightarrow> json list" where
  "error_turns session patch =
     (let turns = arr session ''turns''; item = error_item patch;
          target = js_nullish (fld patch ''turnId'') (fld (fld session ''live'') ''activeTurnId'') in
      if js_truthy target \<and> list_ex (\<lambda>t. fld t ''id'' = target) turns then map_id target (add_item item) turns
      else if turns \<noteq> [] then upsertById turns (add_item item (last turns))
      else [JObj [(''id'', JStr (''synthetic-'' @ the_str (fld patch ''timestamp''))), (''status'', JStr ''failed''),
        (''startedAt'', fld patch ''timestamp''), (''completedAt'', fld patch ''timestamp''), (''items'', JArr [item]),
        (''inputMessageId'', JStr [])]])"

definition session_updated :: "json \<Rightarrow> json \<Rightarrow> json" where
  "session_updated session patch =
     (let caps = fld patch ''capabilities''; prov = fld patch ''providerSession''; conf = fld patch ''config'';
          s1 = set_if (caps \<noteq> JUndef) ''capabilities'' (obj_spread (fld session ''capabilities'') caps) session;
          s2 = set_if (prov \<noteq> JUndef) ''providerSession''
            (obj_spread (js_nullish (fld session ''providerSession'') (JObj [])) prov) s1;
          s3 = set_if (conf \<noteq> JUndef) ''config'' (obj_spread (fld session ''config'') conf) s2
      in set_defined patch ''slashCommands'' s3)"

text \<open>The reducer. Like the \<open>switch\<close>, it takes the type of the patch for one of the nine.\<close>

definition applyAgentPatchV2 :: "(js_number \<Rightarrow> string) \<Rightarrow> json \<Rightarrow> json \<Rightarrow> json" where
  "applyAgentPatchV2 numstr session patch =
     (let ty = the_str (fld patch ''type''); live = fld session ''live'' in
      if ty = ''agent-session-snapshot-v2'' then fld patch ''session''
      else if ty = ''agent-session-updated-v2'' then session_updated session patch
      else if ty = ''agent-live-state-updated-v2'' then obj_set session ''live'' (obj_spread live (fld patch ''live''))
      else if ty = ''agent-turn-started-v2'' then
        obj_set (obj_set session ''live'' (obj_set (obj_set (obj_set live ''status'' (JStr ''working''))
          ''activeTurnId'' (fld (fld patch ''turn'') ''id'')) ''error'' JNull))
          ''turns'' (JArr (upsertById (arr session ''turns'') (fld patch ''turn'')))
      else if ty = ''agent-item-started-v2'' \<or> ty = ''agent-item-updated-v2'' then
        updateTurn session (fld patch ''turnId'') (update_items (\<lambda>items. upsertById items (fld patch ''item'')))
      else if ty = ''agent-item-delta-v2'' then
        updateTurn session (fld patch ''turnId'') (update_items (\<lambda>items. applyItemDelta numstr items patch))
      else if ty = ''agent-turn-completed-v2'' then
        updateTurn (completeLiveStateForActiveTurn session patch) (fld patch ''turnId'') (\<lambda>turn. completeTurn turn patch)
      else
        obj_set (obj_set session ''live'' (obj_set (obj_set live ''status'' (JStr ''error'')) ''error'' (fld patch ''message'')))
          ''turns'' (JArr (error_turns session patch)))"

end
