(* ===== verification/Agent_Chat_Types.thy ===== *)
theory Agent_Chat_Types
  imports Agent_Chat
begin

text \<open>
  The reducer of the agent chat keeps sessions well-typed. The guards leave some declared fields unchecked
  (\<open>item_typed\<close>, \<open>patch_typed\<close>); when those have their declared types too, a valid patch takes a valid session to a
  valid one, and every card derived from an item is valid.
\<close>

section \<open>Declared types the guards leave open\<close>

definition item_strings :: "string list" where
  "item_strings = [''text'', ''output'', ''summary'', ''detail'', ''patch'', ''content'', ''progress'', ''expandedText'', ''message'']"

definition item_typed :: "json \<Rightarrow> bool" where
  "item_typed v \<longleftrightarrow> isItem v \<and> opt_sat (str_in detail_card_statuses) (fld v ''status'') \<and>
     list_all (\<lambda>k. opt_sat is_str (fld v k)) item_strings"

definition turn_typed :: "json \<Rightarrow> bool" where
  "turn_typed t \<longleftrightarrow> isTurn t \<and> list_all item_typed (arr t ''items'')"

definition session_typed :: "json \<Rightarrow> bool" where
  "session_typed s \<longleftrightarrow> isSession s \<and> list_all turn_typed (arr s ''turns'')"

text \<open>An object as \<open>JSON.parse\<close> gives it: no key twice, no member \<open>undefined\<close>.\<close>

definition parsed_object :: "json \<Rightarrow> bool" where
  "parsed_object v \<longleftrightarrow> distinct (map fst (members v)) \<and> list_all (\<lambda>kv. snd kv \<noteq> JUndef) (members v)"

definition patch_typed :: "json \<Rightarrow> bool" where
  "patch_typed p \<longleftrightarrow> isAgentPatchV2 p \<and>
     (the_str (fld p ''type'') = ''agent-session-snapshot-v2'' \<longrightarrow> session_typed (fld p ''session'')) \<and>
     (the_str (fld p ''type'') = ''agent-turn-started-v2'' \<longrightarrow> turn_typed (fld p ''turn'')) \<and>
     (the_str (fld p ''type'') \<in> {''agent-item-started-v2'', ''agent-item-updated-v2''} \<longrightarrow> item_typed (fld p ''item'')) \<and>
     (the_str (fld p ''type'') = ''agent-item-delta-v2'' \<longrightarrow>
        set (obj_keys (fld (fld p ''delta'') ''card'')) \<subseteq> {''additions'', ''deletions''}) \<and>
     (the_str (fld p ''type'') = ''agent-turn-completed-v2'' \<longrightarrow> opt_sat is_str (fld p ''error'')) \<and>
     parsed_object (fld p ''live'') \<and> parsed_object (fld p ''config'') \<and> parsed_object (fld (fld p ''delta'') ''card'')"

lemma is_str_JStr [simp]: "is_str (JStr s)"
  by (simp add: is_str_def)

lemma opt_sat_simps [simp]: "opt_sat P JUndef" "opt_sat P (JStr s) = P (JStr s)" "opt_sat P (JObj kvs) = P (JObj kvs)"
  by (simp_all add: opt_sat_def)

lemma str_in_JStr [simp]: "str_in xs (JStr s) = (s \<in> set xs)"
  by (simp add: str_in_def str_sat_def)

section \<open>Items\<close>

lemma item_typed_fields:
  assumes "item_typed v"
  shows "isItem v" "opt_sat (str_in detail_card_statuses) (fld v ''status'')" "opt_sat is_str (fld v ''text'')"
    "opt_sat is_str (fld v ''output'')" "opt_sat is_str (fld v ''summary'')" "opt_sat is_str (fld v ''detail'')"
    "opt_sat is_str (fld v ''patch'')" "opt_sat is_str (fld v ''content'')" "opt_sat is_str (fld v ''progress'')"
  using assms by (simp_all add: item_typed_def item_strings_def)

lemma item_string_keys:
  assumes "k \<in> set item_strings"
  shows "k \<noteq> ''id''" "k \<noteq> ''type''" "k \<noteq> ''card''" "k \<noteq> ''status''" "k \<noteq> ''paths''" "k \<noteq> ''reason''" "k \<noteq> ''source''" "k \<noteq> ''payload''"
  using assms by (auto simp: item_strings_def)

lemma set_str_keeps:
  "is_str (fld v l) \<Longrightarrow> is_str (fld (obj_set v k (JStr s)) l)"
  "opt_sat is_str (fld v l) \<Longrightarrow> opt_sat is_str (fld (obj_set v k (JStr s)) l)"
  by (simp_all add: fld_obj_set opt_sat_def is_str_def)

lemma item_valid_string:
  assumes "item_valid ty v" and "k \<in> set item_strings"
  shows "item_valid ty (obj_set v k (JStr s))"
proof -
  note ne = item_string_keys [OF assms(2), symmetric]
  have "\<forall>e\<in>set item_validators. snd e v \<longrightarrow> snd e (obj_set v k (JStr s))"
    unfolding item_validators_def by (simp add: set_str_keeps fld_obj_set [of v k _ "''paths''"] fld_obj_set [of v k _ "''reason''"]
        fld_obj_set [of v k _ "''source''"] fld_obj_set [of v k _ "''payload''"] ne)
  then show ?thesis
    using assms(1) by (auto simp: item_valid_def split: option.splits dest!: map_of_SomeD)
qed

definition validator_fields :: "string list" where
  "validator_fields = [''text'', ''summary'', ''command'', ''output'', ''paths'', ''server'', ''tool'', ''namespace'', ''requestId'', ''kind'',
     ''description'', ''target'', ''question'', ''reason'', ''query'', ''source'', ''prompt'', ''payload'', ''message'']"

lemma item_valid_cong:
  assumes "\<And>l. l \<in> set validator_fields \<Longrightarrow> fld w l = fld v l"
  shows "item_valid ty w = item_valid ty v"
proof -
  have "\<forall>l\<in>set validator_fields. fld w l = fld v l" using assms by blast
  then have "\<forall>e\<in>set item_validators. snd e w = snd e v"
    unfolding item_validators_def validator_fields_def by simp
  then show ?thesis by (auto simp: item_valid_def split: option.split dest!: map_of_SomeD)
qed

lemma item_valid_frame:
  assumes "k \<in> {''status'', ''error'', ''exitCode'', ''durationMs'', ''card'', ''result''}"
  shows "item_valid ty (obj_set v k x) = item_valid ty v"
proof -
  have "k \<notin> set validator_fields" using assms by (auto simp: validator_fields_def)
  then show ?thesis by (intro item_valid_cong) (auto simp: fld_obj_set)
qed

lemma typed_set_string:
  assumes "item_typed v" and "k \<in> set item_strings"
  shows "item_typed (obj_set v k (JStr s))"
proof -
  note ne = item_string_keys [OF assms(2)]
  have "list_all (\<lambda>l. opt_sat is_str (fld (obj_set v k (JStr s)) l)) item_strings"
    using assms(1) set_str_keeps(2) by (simp add: item_typed_def list_all_iff)
  with assms(1) item_valid_string [OF _ assms(2), of "the_str (fld v ''type'')" v s] ne show ?thesis
    by (simp add: item_typed_def isItem_def)
qed

lemma typed_set_other:
  assumes "item_typed v" and "k \<in> {''error'', ''exitCode'', ''durationMs'', ''result''}"
  shows "item_typed (obj_set v k x)"
proof -
  have "k \<noteq> ''id''" "k \<noteq> ''type''" "k \<noteq> ''card''" "k \<noteq> ''status''" "k \<notin> set item_strings"
    using assms(2) by (auto simp: item_strings_def)
  moreover have "item_valid ty (obj_set v k x) = item_valid ty v" for ty
    using assms(2) by (intro item_valid_frame) blast
  moreover have "list_all (\<lambda>l. opt_sat is_str (fld (obj_set v k x) l)) item_strings"
    using assms(1) calculation(5) by (simp add: item_typed_def list_all_iff fld_obj_set)
  ultimately show ?thesis using assms(1) by (simp add: item_typed_def isItem_def)
qed

lemma typed_set_status:
  assumes "item_typed v" and "str_in detail_card_statuses x"
  shows "item_typed (obj_set v ''status'' x)"
  using assms item_valid_frame [of "''status''" "the_str (fld v ''type'')" v x]
  by (simp add: item_typed_def isItem_def item_strings_def opt_sat_def)

lemma typed_set_card:
  assumes "item_typed v" and "isDetailCard x"
  shows "item_typed (obj_set v ''card'' x)"
  using assms item_valid_frame [of "''card''" "the_str (fld v ''type'')" v x]
  by (simp add: item_typed_def isItem_def item_strings_def opt_sat_def)

lemma typed_append_field:
  assumes "item_typed v" and "k \<in> set item_strings"
  shows "item_typed (appendStringField v delta k b)"
  using assms by (simp add: appendStringField_def typed_set_string split: json.split)

lemma typed_set_if: "(b \<Longrightarrow> item_typed (obj_set v k x)) \<Longrightarrow> item_typed v \<Longrightarrow> item_typed (set_if b k x v)"
  by (simp add: set_if_def)

lemma typed_delta:
  assumes "item_typed v" and "isDelta delta"
  shows "item_typed (appendItemDelta v delta b)"
proof -
  have other: "item_typed (set_if c k x w)" if "item_typed w" and "k \<in> {''error'', ''exitCode'', ''durationMs'', ''result''}" for c k x w
    using that by (intro typed_set_if typed_set_other)
  have "item_typed (foldl (\<lambda>n k. appendStringField n delta k b) v
      [''text'', ''output'', ''summary'', ''detail'', ''patch'', ''content''])"
    using assms(1) by (simp add: typed_append_field item_strings_def)
  moreover have "fld delta ''status'' \<noteq> JUndef \<Longrightarrow> str_in detail_card_statuses (fld delta ''status'')"
    using assms(2) by (simp add: isDelta_def opt_sat_def)
  ultimately have "item_typed (set_if (fld delta ''status'' \<noteq> JUndef) ''status'' (fld delta ''status'')
      (foldl (\<lambda>n k. appendStringField n delta k b) v [''text'', ''output'', ''summary'', ''detail'', ''patch'', ''content'']))"
    by (intro typed_set_if typed_set_status)
  then show ?thesis unfolding appendItemDelta_def Let_def by - (rule other, rule other, rule other, assumption, simp_all)
qed

section \<open>Cards\<close>

lemma status_typed: "item_typed v \<Longrightarrow> str_in detail_card_statuses (detailCardStatus v)"
  using item_typed_fields(2) [of v]
  by (auto simp: detailCardStatus_def js_nullish_def opt_sat_def str_in_def str_sat_def detail_card_statuses_def split: json.splits)

lemma content_members_shape:
  "content_members d b c = [] \<or> (js_truthy c \<and>
     (content_members d b c = [(''content'', c)] \<or>
      (\<exists>n. content_members d b c = [(''content'', c), (''sizeBytes'', num n)]) \<or>
      (\<exists>n m l. content_members d b c = [(''content'', c), (''sizeBytes'', num n), (''additions'', num m), (''deletions'', num l)])))"
  unfolding content_members_def by (cases b; cases d) auto

lemma card_ok:
  assumes "str_in detail_card_kinds (fld (JObj kvs) ''kind'')" and "is_str (fld (JObj kvs) ''title'')"
    and "str_in detail_card_statuses (fld (JObj kvs) ''status'')" and "opt_sat is_str (fld (JObj kvs) ''language'')"
    and "opt_sat is_str (fld (JObj kvs) ''command'')" and "opt_sat is_str (fld (JObj kvs) ''path'')"
    and "list_all (\<lambda>kv. fst kv \<notin> {''content'', ''additions'', ''deletions'', ''sizeBytes''}) kvs" and "js_truthy c \<Longrightarrow> is_str c"
  shows "isDetailCard (JObj (kvs @ content_members d b c))"
proof -
  have none: "map_of kvs k = None" if "k \<in> {''content'', ''additions'', ''deletions'', ''sizeBytes''}" for k
    using assms(7) that by (auto simp: map_of_eq_None_iff list_all_iff)
  have old: "fld (JObj (kvs @ content_members d b c)) k = fld (JObj kvs) k"
    if "k \<in> {''kind'', ''title'', ''status'', ''language'', ''command'', ''path''}" for k
    using content_members_shape [of d b c] that
    by (auto simp: fld_JObj map_add_def split: option.split)
  have new: "fld (JObj (kvs @ content_members d b c)) k =
      (case map_of (content_members d b c) k of Some x \<Rightarrow> x | None \<Rightarrow> JUndef)"
    if "k \<in> {''content'', ''additions'', ''deletions'', ''sizeBytes''}" for k
    using none [OF that] by (simp add: fld_JObj map_add_def split: option.split)
  have num: "is_num (num n)" for n by (simp add: num_def is_num_def)
  have "opt_sat is_str (fld (JObj (kvs @ content_members d b c)) ''content'')"
    using content_members_shape [of d b c] assms(8) by (auto simp: new opt_sat_def)
  moreover have "opt_sat is_num (fld (JObj (kvs @ content_members d b c)) k)" if "k \<in> {''additions'', ''deletions'', ''sizeBytes''}" for k
    using content_members_shape [of d b c] that by (auto simp: new opt_sat_def num)
  ultimately show ?thesis
    using assms(1-6) by (simp add: isDetailCard_def old is_record_def)
qed

lemma truthy_opt_str: "opt_sat is_str v \<Longrightarrow> js_truthy v \<Longrightarrow> is_str v"
  by (auto simp: opt_sat_def)

lemma truthy_or_str: "opt_sat is_str v \<Longrightarrow> is_str w \<Longrightarrow> is_str (js_or v w)"
  by (auto simp: js_or_def dest: truthy_opt_str)

lemma derived_card_ok:
  assumes "item_typed v" and "agentDetailCardForItem numstr v = Some c"
  shows "isDetailCard c"
proof -
  note f = item_typed_fields [OF assms(1)]
  note st = status_typed [OF assms(1)]
  have iv: "item_valid (the_str (fld v ''type'')) v" using f(1) by (simp add: isItem_def)
  have undef: "opt_sat is_str JUndef" by (simp add: opt_sat_def)
  note card_simps = fld_JObj detail_card_kinds_def undef
  have str: "is_str (js_or v (JStr s))" if "is_str v" for v s using that by (simp add: js_or_def)
  consider "the_str (fld v ''type'') \<in> {''assistantMessage'', ''userMessage''}" "c = message_card v (isTerminalDetailStatus (detailCardStatus v))"
    | "the_str (fld v ''type'') = ''reasoning''" "c = reasoning_card v (isTerminalDetailStatus (detailCardStatus v))"
    | "the_str (fld v ''type'') = ''commandExecution''" "c = command_card v (isTerminalDetailStatus (detailCardStatus v))"
    | "the_str (fld v ''type'') = ''fileChange''" "c = file_card v (isTerminalDetailStatus (detailCardStatus v))"
    | "the_str (fld v ''type'') \<in> {''dynamicToolCall'', ''mcpToolCall''}"
      "c = tool_card numstr v (isTerminalDetailStatus (detailCardStatus v))"
    using assms(2) by (auto simp: agentDetailCardForItem_def Let_def split: if_split_asm)
  then show ?thesis
  proof cases
    case 1
    have "js_truthy (fld v ''text'') \<Longrightarrow> is_str (fld v ''text'')" using f(3) by (rule truthy_opt_str)
    then show ?thesis unfolding 1(2) message_card_def by (intro card_ok) (use st in \<open>simp_all add: card_simps\<close>)
  next
    case 2
    then have "is_str (fld v ''summary'')" using iv by (simp add: item_valid_def item_validators_def)
    then have "is_str (js_or (fld v ''detail'') (fld v ''summary''))" by (rule truthy_or_str [OF f(6)])
    then show ?thesis unfolding 2(2) reasoning_card_def by (intro card_ok) (use st in \<open>simp_all add: card_simps\<close>)
  next
    case 3
    then have c: "is_str (fld v ''command'')" using iv by (simp add: item_valid_def item_validators_def)
    have "js_truthy (fld v ''output'') \<Longrightarrow> is_str (fld v ''output'')" using f(4) by (rule truthy_opt_str)
    moreover have "is_str (js_or (fld v ''command'') (JStr ''command''))" "opt_sat is_str (fld v ''command'')"
      using c by (simp_all add: str opt_sat_def)
    ultimately show ?thesis unfolding 3(2) command_card_def by (intro card_ok) (use st in \<open>simp_all add: card_simps\<close>)
  next
    case 4
    then have "arr_of (\<lambda>p. is_record p \<and> is_str (fld p ''path'')) (fld v ''paths'')"
      using iv by (simp add: item_valid_def item_validators_def)
    then have p: "opt_sat is_str (first_path v)"
      by (auto simp: arr_of_def arr_sat_def first_path_def arr_def elements_def undef opt_sat_def split: json.splits list.split)
    then have t: "is_str (js_nullish (first_path v) (JStr s))" for s
      by (auto simp: js_nullish_def opt_sat_def)
    have q: "is_str (js_nullish (fld v ''patch'') (JStr []))"
      using f(7) by (auto simp: js_nullish_def opt_sat_def)
    show ?thesis unfolding 4(2) file_card_def Let_def append.assoc [symmetric]
      by (intro card_ok; cases "js_truthy (first_path v)") (use st p t q in \<open>simp_all add: card_simps\<close>)
  next
    case 5
    then have "is_str (fld v ''tool'')" using iv by (auto simp: item_valid_def item_validators_def)
    then have "is_str (js_or (fld v ''tool'') (JStr ''tool''))" by (rule str)
    then show ?thesis unfolding 5(2) tool_card_def Let_def append.assoc [symmetric]
      by (intro card_ok) (use st in \<open>simp_all add: card_simps\<close>)
  qed
qed

lemma typed_with_card: "item_typed v \<Longrightarrow> item_typed (withAgentDetailCard numstr v)"
  by (auto simp: withAgentDetailCard_def typed_set_card derived_card_ok split: option.split)

lemma card_terminal_or_open:
  assumes "item_typed v" and "isDelta (fld p ''delta'')" and "set (obj_keys (fld (fld p ''delta'') ''card'')) \<subseteq> {''additions'', ''deletions''}"
    and "parsed_object (fld (fld p ''delta'') ''card'')" and "js_truthy (fld v ''card'')" and "str_in detail_card_statuses status"
    and "opt_sat is_str content"
  shows "isDetailCard (obj_spread (set_if (content \<noteq> JUndef) ''content'' content (obj_set (fld v ''card'') ''status'' status))
    (js_nullish (fld (fld p ''delta'') ''card'') (JObj [])))"
proof -
  define c where "c = set_if (content \<noteq> JUndef) ''content'' content (obj_set (fld v ''card'') ''status'' status)"
  define d where "d = js_nullish (fld (fld p ''delta'') ''card'') (JObj [])"
  have "isDetailCard (fld v ''card'')"
    using assms(1,5) by (auto simp: item_typed_def isItem_def opt_sat_def)
  then have c: "isDetailCard c"
    using assms(6,7) by (simp add: c_def set_if_def isDetailCard_def fld_obj_set)
  have d: "distinct (map fst (members d)) \<and> set (map fst (members d)) \<subseteq> {''additions'', ''deletions''} \<and>
      opt_sat is_num (fld d ''additions'') \<and> opt_sat is_num (fld d ''deletions'')"
  proof (cases "fld (fld p ''delta'') ''card'' = JUndef \<or> fld (fld p ''delta'') ''card'' = JNull")
    case True
    then show ?thesis by (auto simp: d_def js_nullish_def members_def fld_JObj)
  next
    case False
    then have "d = fld (fld p ''delta'') ''card''" by (simp add: d_def js_nullish_def)
    with False assms(2,3,4) show ?thesis by (simp add: parsed_object_def isDelta_def opt_sat_def obj_keys_members)
  qed
  have "fld (obj_spread c d) k = fld c k" if "k \<notin> {''additions'', ''deletions''}" for k
    using d that by (auto simp: fld_spread)
  moreover have "opt_sat is_num (fld (obj_spread c d) ''additions'')" "opt_sat is_num (fld (obj_spread c d) ''deletions'')"
    using c d by (simp_all add: isDetailCard_def fld_spread)
  ultimately have "isDetailCard (obj_spread c d)"
    using c by (simp add: isDetailCard_def)
  then show ?thesis unfolding c_def d_def .
qed

lemma append_field_frame:
  "k \<noteq> l \<Longrightarrow> fld (appendStringField v d k b) l = fld v l"
  by (simp add: appendStringField_def split: json.split)

lemma set_if_frame: "k \<noteq> l \<Longrightarrow> fld (set_if b k x v) l = fld v l"
  by (simp add: set_if_def)

lemma delta_frame:
  "fld (appendItemDelta v d b) ''id'' = fld v ''id''" "fld (appendItemDelta v d b) ''type'' = fld v ''type''"
  by (simp_all add: appendItemDelta_def Let_def set_if_frame append_field_frame)

lemma open_content_str:
  assumes "item_typed v" and "item_typed next" and "fld next ''type'' = fld v ''type''"
  shows "opt_sat is_str (open_content v p next)"
proof -
  note f = item_typed_fields [OF assms(2)]
  have iv: "item_valid (the_str (fld next ''type'')) next" using f(1) by (simp add: isItem_def)
  have "opt_sat is_str (js_or (fld next ''detail'') (fld next ''summary''))"
    using f(5,6) by (simp add: js_or_def)
  moreover have "opt_sat is_str (fld (fld v ''card'') ''content'')"
    using item_typed_fields(1) [OF assms(1)] by (auto simp: isItem_def opt_sat_def isDetailCard_def fld_def split: json.splits)
  ultimately show ?thesis
    using f by (simp add: open_content_def Let_def tool_stream_def)
qed

lemma status_nullish:
  "opt_sat (str_in xs) v \<Longrightarrow> str_in xs w \<Longrightarrow> str_in xs (js_nullish v w)"
  by (auto simp: opt_sat_def js_nullish_def)

lemma typed_apply_delta:
  assumes "item_typed v" and "isDelta (fld p ''delta'')" and "set (obj_keys (fld (fld p ''delta'') ''card'')) \<subseteq> {''additions'', ''deletions''}"
    and "parsed_object (fld (fld p ''delta'') ''card'')"
  shows "item_typed (applyDeltaToItem numstr v p)"
proof -
  define nx where "nx = appendItemDelta v (fld p ''delta'') (fld p ''mode'' = JStr ''replace'')"
  define status where
    "status = js_nullish (fld (fld p ''delta'') ''status'') (js_nullish (fld (fld v ''card'') ''status'') (detailCardStatus nx))"
  have nxt: "item_typed nx" unfolding nx_def by (rule typed_delta [OF assms(1,2)])
  have "opt_sat (str_in detail_card_statuses) (fld (fld v ''card'') ''status'')"
    using item_typed_fields(1) [OF assms(1)] by (auto simp: isItem_def opt_sat_def isDetailCard_def fld_def split: json.splits)
  then have status: "str_in detail_card_statuses status"
    using assms(2) status_typed [OF nxt] by (simp add: status_def status_nullish isDelta_def)
  have content: "opt_sat is_str (open_content v p nx)"
    using assms(1) nxt by (rule open_content_str) (simp add: nx_def delta_frame)
  show ?thesis
    unfolding applyDeltaToItem_def Let_def nx_def [symmetric] status_def [symmetric]
    using typed_with_card [OF nxt] typed_set_card [OF nxt card_terminal_or_open [OF assms _ status content]] nxt by simp
qed

section \<open>Turns\<close>

lemma turn_typed_fields:
  assumes "turn_typed t"
  shows "is_record t" "is_str (fld t ''id'')" "list_all item_typed (arr t ''items'')"
  using assms by (simp_all add: turn_typed_def isTurn_def)

lemma items_valid: "list_all item_typed xs \<Longrightarrow> arr_of isItem (JArr xs)"
  by (auto simp: arr_of_def arr_sat_def list_all_iff item_typed_def)

lemma typed_update_items:
  assumes "turn_typed t" and "list_all item_typed (f (arr t ''items''))"
  shows "turn_typed (update_items f t)"
  using assms items_valid [OF assms(2)] by (simp add: turn_typed_def isTurn_def update_items_def)

lemma list_all_upsert: "list_all P xs \<Longrightarrow> P x \<Longrightarrow> list_all P (upsertById xs x)"
  unfolding upsertById_def by (induction xs) simp_all

lemma list_all_map_id: "list_all P xs \<Longrightarrow> (\<And>x. P x \<Longrightarrow> P (f x)) \<Longrightarrow> list_all P (map_id i f xs)"
  by (auto simp: map_id_def list_all_iff)

lemma str_in_mono: "str_in xs v \<Longrightarrow> set xs \<subseteq> set ys \<Longrightarrow> str_in ys v"
  by (auto simp: str_in_def str_sat_def split: json.splits)

lemma typed_complete_turn:
  assumes "turn_typed t" and "str_in turn_completion_statuses (fld p ''status'')"
  shows "turn_typed (completeTurn t p)"
proof -
  have "str_in turn_statuses (fld p ''status'')"
    using assms(2) by (rule str_in_mono) (simp add: turn_statuses_def turn_completion_statuses_def)
  with assms(1) show ?thesis
    by (simp add: turn_typed_def isTurn_def completeTurn_def set_defined_def set_if_def arr_def)
qed

lemma typed_new_message:
  assumes "is_str i" and "is_str x" 
  shows "item_typed (JObj [(''type'', JStr ''assistantMessage''), (''id'', i), (''text'', x), (''phase'', JStr ''answer''),
    (''status'', JStr ''running''), (''startedAt'', ts)])"
  using assms by (simp add: item_typed_def isItem_def fld_JObj item_valid_def item_validators_def item_strings_def
      detail_card_statuses_def is_record_def the_str_def opt_sat_def)

lemma typed_error_item:
  assumes "is_str (fld p ''message'')"
  shows "item_typed (error_item p)"
  using assms by (simp add: item_typed_def isItem_def error_item_def Let_def fld_JObj item_valid_def item_validators_def item_strings_def
      detail_card_statuses_def is_record_def the_str_def opt_sat_def)

lemma typed_item_delta:
  assumes "list_all item_typed xs" and "is_str (fld p ''itemId'')" and d: "isDelta (fld p ''delta'')"
    "set (obj_keys (fld (fld p ''delta'') ''card'')) \<subseteq> {''additions'', ''deletions''}" "parsed_object (fld (fld p ''delta'') ''card'')"
  shows "list_all item_typed (applyItemDelta numstr xs p)"
proof -
  have "''text'' \<in> set (obj_keys (fld p ''delta'')) \<Longrightarrow> is_str (fld (fld p ''delta'') ''text'')"
    using d(1) by (simp add: isDelta_def delta_string_fields_def)
  then have "fld (fld p ''delta'') ''text'' \<noteq> JUndef \<Longrightarrow> is_str (fld (fld p ''delta'') ''text'')"
    using fld_in_keys by blast
  then show ?thesis
    using assms(1,2) typed_apply_delta [OF _ d] by (simp add: applyItemDelta_def Let_def list_all_map_id typed_new_message)
qed

section \<open>Sessions\<close>

lemma typed_turns:
  assumes "session_typed s" and "list_all turn_typed ts"
  shows "session_typed (obj_set s ''turns'' (JArr ts))"
proof -
  have "arr_of isTurn (JArr ts)" using assms(2) by (auto simp: arr_of_def arr_sat_def turn_typed_def list_all_iff)
  with assms show ?thesis by (simp add: session_typed_def isSession_def)
qed

lemma typed_live: "session_typed s \<Longrightarrow> isLiveState l \<Longrightarrow> session_typed (obj_set s ''live'' l)"
  by (simp add: session_typed_def isSession_def)

lemma session_live: "session_typed s \<Longrightarrow> isLiveState (fld s ''live'')"
  by (simp add: session_typed_def isSession_def)

lemma session_turns: "session_typed s \<Longrightarrow> list_all turn_typed (arr s ''turns'')"
  by (simp add: session_typed_def)

lemma typed_update_turn:
  assumes "session_typed s" and "\<And>t. turn_typed t \<Longrightarrow> turn_typed (f t)"
  shows "session_typed (updateTurn s i f)"
  using assms by (simp add: updateTurn_def typed_turns list_all_map_id session_turns)

lemma live_set:
  assumes "isLiveState l"
  shows "str_in live_statuses x \<Longrightarrow> isLiveState (obj_set l ''status'' x)"
    and "null_sat is_str x \<Longrightarrow> isLiveState (obj_set l ''activeTurnId'' x)"
    and "null_sat is_str x \<Longrightarrow> isLiveState (obj_set l ''error'' x)"
  using assms by (simp_all add: isLiveState_def)

lemma parsed_defined: "parsed_object w \<Longrightarrow> k \<in> set (map fst (members w)) \<Longrightarrow> fld w k \<noteq> JUndef"
  by (cases w) (auto simp: parsed_object_def members_def fld_def list_all_iff split: option.split dest!: map_of_SomeD)

lemma live_merge:
  assumes "isLiveState l" and "isPartialLiveState w" and "parsed_object w"
  shows "isLiveState (obj_spread l w)"
proof -
  have merged: "P (fld (obj_spread l w) k)" if "P (fld l k)" and "opt_sat P (fld w k)" for P k
    using that assms(3) parsed_defined [OF assms(3), of k] by (auto simp: parsed_object_def opt_sat_def fld_spread)
  show ?thesis
    using assms(1,2) unfolding isLiveState_def isPartialLiveState_def by (simp add: merged)
qed

lemma provider_merge:
  assumes "isProviderSession a" and "isProviderSession b"
  shows "isProviderSession (obj_spread a b)"
proof -
  have set: "list_all (\<lambda>kv. is_str (snd kv)) (members (obj_set v k x))" if "list_all (\<lambda>kv. is_str (snd kv)) (members v)" and "is_str x" for v k x
  proof -
    have "list_all (\<lambda>kv. is_str (snd kv)) m \<Longrightarrow> list_all (\<lambda>kv. is_str (snd kv)) (jm_set m k x)" for m
      using that(2) by (induction m k x rule: jm_set.induct) simp_all
    with that(1) show ?thesis by (simp add: obj_set_def members_def)
  qed
  have "list_all (\<lambda>kv. is_str (snd kv)) (members (foldl (\<lambda>acc kv. obj_set acc (fst kv) (snd kv)) v kvs))"
    if "list_all (\<lambda>kv. is_str (snd kv)) (members v)" and "list_all (\<lambda>kv. is_str (snd kv)) kvs" for v kvs
    using that by (induction kvs arbitrary: v) (simp_all add: set)
  moreover have "members (JObj (members a)) = members a" by (simp add: members_def)
  ultimately have "list_all (\<lambda>kv. is_str (snd kv)) (members (obj_spread a b))"
    using assms by (simp add: obj_spread_def isProviderSession_def)
  then show ?thesis by (simp add: isProviderSession_def)
qed

lemma typed_session_updated:
  assumes "session_typed s" and "opt_sat isProviderSession (fld p ''providerSession'')" and "opt_sat is_record (fld p ''capabilities'')"
    and "opt_sat isPartialSessionConfig (fld p ''config'')" and "opt_sat isSlashCommandArray (fld p ''slashCommands'')"
    and "parsed_object (fld p ''config'')"
  shows "session_typed (session_updated s p)"
proof -
  define s1 where "s1 = set_if (fld p ''capabilities'' \<noteq> JUndef) ''capabilities'' (obj_spread (fld s ''capabilities'') (fld p ''capabilities'')) s"
  define s2 where "s2 = set_if (fld p ''providerSession'' \<noteq> JUndef) ''providerSession''
    (obj_spread (js_nullish (fld s ''providerSession'') (JObj [])) (fld p ''providerSession'')) s1"
  define s3 where "s3 = set_if (fld p ''config'' \<noteq> JUndef) ''config'' (obj_spread (fld s ''config'') (fld p ''config'')) s2"
  have "session_typed s1" using assms(1) by (simp add: s1_def set_if_def session_typed_def isSession_def)
  moreover have "isProviderSession (js_nullish (fld s ''providerSession'') (JObj []))"
    using assms(1) by (auto simp: session_typed_def isSession_def opt_sat_def js_nullish_def isProviderSession_def is_record_def members_def)
  then have "fld p ''providerSession'' \<noteq> JUndef \<Longrightarrow>
      isProviderSession (obj_spread (js_nullish (fld s ''providerSession'') (JObj [])) (fld p ''providerSession''))"
    using assms(2) by (intro provider_merge) (auto simp: opt_sat_def)
  ultimately have s2: "session_typed s2" by (simp add: s2_def set_if_def session_typed_def isSession_def opt_sat_def)
  have "fld p ''config'' \<noteq> JUndef \<Longrightarrow> is_str (fld (obj_spread (fld s ''config'') (fld p ''config'')) ''cwd'')"
    using assms(1,4,6) by (auto simp: session_typed_def isSession_def opt_sat_def isPartialSessionConfig_def obj_keys_members parsed_object_def fld_spread)
  with s2 have "session_typed s3" by (simp add: s3_def set_if_def session_typed_def isSession_def)
  with assms(5) have "session_typed (set_defined p ''slashCommands'' s3)"
    by (simp add: set_defined_def set_if_def session_typed_def isSession_def)
  then show ?thesis by (simp add: session_updated_def Let_def s1_def s2_def s3_def)
qed

lemma typed_error_turns:
  assumes "session_typed s" and "is_str (fld p ''message'')" and "is_str (fld p ''timestamp'')"
  shows "list_all turn_typed (error_turns s p)"
proof -
  have item: "item_typed (error_item p)" using assms(2) by (rule typed_error_item)
  have add: "turn_typed (add_item (error_item p) t)" if "turn_typed t" for t
    unfolding add_item_def by (rule typed_update_items) (use that item turn_typed_fields(3) [OF that] in simp_all)
  have "turn_typed (JObj [(''id'', JStr i), (''status'', JStr ''failed''), (''startedAt'', fld p ''timestamp''),
      (''completedAt'', fld p ''timestamp''), (''items'', JArr [error_item p]), (''inputMessageId'', JStr [])])" for i
    using assms(3) item items_valid [of "[error_item p]"]
    by (simp add: turn_typed_def isTurn_def fld_JObj arr_def is_record_def turn_statuses_def)
  moreover have "turns \<noteq> [] \<Longrightarrow> list_all turn_typed turns \<Longrightarrow> turn_typed (last turns)" for turns
    by (simp add: list_all_iff)
  ultimately show ?thesis
    using session_turns [OF assms(1)] by (simp add: error_turns_def Let_def list_all_map_id list_all_upsert add)
qed

lemma patch_guard:
  "patch_typed p \<Longrightarrow> isAgentPatchV2 p" "patch_typed p \<Longrightarrow> parsed_object (fld p ''live'')" "patch_typed p \<Longrightarrow> parsed_object (fld p ''config'')"
  "patch_typed p \<Longrightarrow> parsed_object (fld (fld p ''delta'') ''card'')"
  by (simp_all add: patch_typed_def)

lemma patch_kinds:
  assumes "isAgentPatchV2 p"
  obtains "the_str (fld p ''type'') = ''agent-session-snapshot-v2''"
  | "the_str (fld p ''type'') = ''agent-session-updated-v2''"
  | "the_str (fld p ''type'') = ''agent-live-state-updated-v2''"
  | "the_str (fld p ''type'') = ''agent-turn-started-v2''"
  | "the_str (fld p ''type'') = ''agent-item-started-v2''"
  | "the_str (fld p ''type'') = ''agent-item-updated-v2''"
  | "the_str (fld p ''type'') = ''agent-item-delta-v2''"
  | "the_str (fld p ''type'') = ''agent-turn-completed-v2''"
  | "the_str (fld p ''type'') = ''agent-error-v2''"
proof -
  have "str_in patch_types (fld p ''type'')" using assms by (simp add: isAgentPatchV2_def)
  then have "the_str (fld p ''type'') \<in> set patch_types"
    by (auto simp: str_in_def str_sat_def the_str_def split: json.splits)
  then show thesis unfolding patch_types_def list.set insert_iff empty_iff using that by blast
qed

lemma typed_item_patch:
  assumes "session_typed s" and "item_typed i"
  shows "session_typed (updateTurn s t (update_items (\<lambda>items. upsertById items i)))"
  using assms(1)
  by (rule typed_update_turn) (auto intro!: typed_update_items list_all_upsert assms(2) dest: turn_typed_fields(3))

lemma typed_step:
  assumes "session_typed s" and "patch_typed p"
  shows "session_typed (applyAgentPatchV2 numstr s p)"
  using patch_guard(1) [OF assms(2)]
proof (cases rule: patch_kinds)
  case 1
  with assms(2) show ?thesis by (simp add: applyAgentPatchV2_def patch_typed_def)
next
  case 2
  with assms(2) have "opt_sat isProviderSession (fld p ''providerSession'')" "opt_sat is_record (fld p ''capabilities'')"
    "opt_sat isPartialSessionConfig (fld p ''config'')" "opt_sat isSlashCommandArray (fld p ''slashCommands'')"
    by (simp_all add: patch_typed_def isAgentPatchV2_def)
  then have "session_typed (session_updated s p)" by (rule typed_session_updated [OF assms(1)]) (rule patch_guard [OF assms(2)])
  with 2 show ?thesis by (simp add: applyAgentPatchV2_def)
next
  case 3
  with assms(2) have "isPartialLiveState (fld p ''live'')" by (simp add: patch_typed_def isAgentPatchV2_def)
  then have "isLiveState (obj_spread (fld s ''live'') (fld p ''live''))"
    using session_live [OF assms(1)] patch_guard(2) [OF assms(2)] by (intro live_merge)
  with 3 show ?thesis using assms(1) by (simp add: applyAgentPatchV2_def typed_live)
next
  case 4
  with assms(2) have t: "turn_typed (fld p ''turn'')" by (simp add: patch_typed_def)
  then have "null_sat is_str (fld (fld p ''turn'') ''id'')" by (simp add: turn_typed_fields null_sat_def)
  then have "isLiveState (obj_set (obj_set (obj_set (fld s ''live'') ''status'' (JStr ''working''))
      ''activeTurnId'' (fld (fld p ''turn'') ''id'')) ''error'' JNull)"
    using session_live [OF assms(1)] by (intro live_set) (simp_all add: live_statuses_def null_sat_def)
  then have "session_typed (obj_set s ''live'' (obj_set (obj_set (obj_set (fld s ''live'') ''status'' (JStr ''working''))
      ''activeTurnId'' (fld (fld p ''turn'') ''id'')) ''error'' JNull))"
    by (rule typed_live [OF assms(1)])
  then show ?thesis
    using 4 t session_turns [OF assms(1)] by (simp add: applyAgentPatchV2_def typed_turns list_all_upsert)
next
  case 5
  with assms(2) have "item_typed (fld p ''item'')" by (simp add: patch_typed_def)
  from typed_item_patch [OF assms(1) this] 5 show ?thesis by (simp add: applyAgentPatchV2_def)
next
  case 6
  with assms(2) have "item_typed (fld p ''item'')" by (simp add: patch_typed_def)
  from typed_item_patch [OF assms(1) this] 6 show ?thesis by (simp add: applyAgentPatchV2_def)
next
  case 7
  with assms(2) have d: "is_str (fld p ''itemId'')" "isDelta (fld p ''delta'')"
    "set (obj_keys (fld (fld p ''delta'') ''card'')) \<subseteq> {''additions'', ''deletions''}" "parsed_object (fld (fld p ''delta'') ''card'')"
    by (simp_all add: patch_typed_def isAgentPatchV2_def)
  have "session_typed (updateTurn s (fld p ''turnId'') (update_items (\<lambda>items. applyItemDelta numstr items p)))"
    using assms(1) by (rule typed_update_turn) (auto intro!: typed_update_items typed_item_delta d dest: turn_typed_fields(3))
  with 7 show ?thesis by (simp add: applyAgentPatchV2_def)
next
  case 8
  with assms(2) have st: "str_in turn_completion_statuses (fld p ''status'')" and err: "opt_sat is_str (fld p ''error'')"
    by (simp_all add: patch_typed_def isAgentPatchV2_def)
  have live: "isLiveState (fld s ''live'')" by (rule session_live [OF assms(1)])
  then have "null_sat is_str (js_nullish (fld p ''error'') (fld (fld s ''live'') ''error''))"
    using err by (auto simp: js_nullish_def opt_sat_def isLiveState_def null_sat_def)
  then have "session_typed (completeLiveStateForActiveTurn s p)"
    using assms(1) live
    by (auto simp: completeLiveStateForActiveTurn_def Let_def live_statuses_def null_sat_def intro!: typed_live live_set)
  then have "session_typed (updateTurn (completeLiveStateForActiveTurn s p) (fld p ''turnId'') (\<lambda>turn. completeTurn turn p))"
    by (rule typed_update_turn) (rule typed_complete_turn [OF _ st])
  with 8 show ?thesis by (simp add: applyAgentPatchV2_def)
next
  case 9
  with assms(2) have m: "is_str (fld p ''message'')" "is_str (fld p ''timestamp'')" by (simp_all add: patch_typed_def isAgentPatchV2_def)
  have "isLiveState (obj_set (obj_set (fld s ''live'') ''status'' (JStr ''error'')) ''error'' (fld p ''message''))"
    using session_live [OF assms(1)] m by (intro live_set) (simp_all add: live_statuses_def null_sat_def)
  then have "session_typed (obj_set s ''live'' (obj_set (obj_set (fld s ''live'') ''status'' (JStr ''error'')) ''error'' (fld p ''message'')))"
    by (rule typed_live [OF assms(1)])
  from typed_turns [OF this typed_error_turns [OF assms(1) m]] 9 show ?thesis by (simp add: applyAgentPatchV2_def)
qed

interpretation agent_types: state_machine "applyAgentPatchV2 numstr" "\<lambda>_. patch_typed" session_typed for numstr
  by unfold_locales (rule typed_step)

definition session_input :: "json \<Rightarrow> bool" where
  "session_input v \<longleftrightarrow> is_str (fld v ''id'') \<and> is_str (fld v ''provider'') \<and> is_str (fld v ''cwd'') \<and>
     opt_sat is_record (fld v ''capabilities'') \<and> opt_sat isProviderSession (fld v ''providerSession'') \<and>
     opt_sat isPartialSessionConfig (fld v ''config'') \<and> parsed_object (fld v ''config'')"

lemma typed_empty:
  assumes "session_input v"
  shows "session_typed (emptyAgentSessionV2 v)"
proof -
  have "isLiveState (JObj [(''status'', JStr ''idle''), (''activeTurnId'', JNull), (''waitingOn'', JNull), (''activeRequestIds'', JArr []),
      (''proposedPlanItemId'', JNull), (''queueLength'', num 0), (''fastModeAvailable'', JBool False), (''error'', JNull)])"
    by (simp add: isLiveState_def fld_JObj is_record_def live_statuses_def null_sat_def arr_of_def arr_sat_def num_def is_num_def is_bool_def)
  moreover have "is_str (fld (obj_spread (JObj [(''cwd'', fld v ''cwd'')]) (fld v ''config'')) ''cwd'')"
    using assms by (auto simp: session_input_def parsed_object_def fld_spread opt_sat_def isPartialSessionConfig_def obj_keys_members
        fld_JObj members_def)
  moreover have "is_record (js_nullish (fld v ''capabilities'') (JObj []))"
    using assms by (auto simp: session_input_def js_nullish_def opt_sat_def is_record_def)
  ultimately show ?thesis
    using assms by (simp add: emptyAgentSessionV2_def Let_def session_typed_def isSession_def session_input_def fld_JObj arr_def
        is_record_JObj arr_of_def arr_sat_def opt_sat_def) blast
qed

section \<open>Properties\<close>

text \<open>C36: From an empty session, whatever patches arrive whose fields have their declared types, the session held always passes its
  own guard: live state, settings, turns, items and detail cards stay well-typed.\<close>

theorem agent_session_stays_valid:
  assumes "session_input input" and "list_all patch_typed ps"
  shows "isSession (run (applyAgentPatchV2 numstr) (emptyAgentSessionV2 input) ps)"
proof -
  have "all_ok (applyAgentPatchV2 numstr) (\<lambda>_. patch_typed) s ps" for s
    using assms(2) by (induction ps arbitrary: s) simp_all
  then have "session_typed (run (applyAgentPatchV2 numstr) (emptyAgentSessionV2 input) ps)"
    by (rule agent_types.run_inv [OF typed_empty [OF assms(1)]])
  then show ?thesis by (simp add: session_typed_def)
qed

definition sample_input :: json where
  "sample_input = JObj [(''id'', JStr ''s''), (''provider'', JStr ''codex''), (''cwd'', JStr ''/w'')]"

definition sample_base :: "string \<Rightarrow> (string \<times> json) list \<Rightarrow> json" where
  "sample_base ty kvs = JObj ([(''type'', JStr ty), (''sessionId'', JStr ''s''), (''timestamp'', JStr ''t'')] @ kvs)"

definition sample_start :: json where
  "sample_start = sample_base ''agent-turn-started-v2'' [(''turn'', JObj [(''id'', JStr ''u''), (''status'', JStr ''running''),
     (''inputMessageId'', JStr ''m''), (''startedAt'', JStr ''t''), (''items'', JArr [])])]"

definition sample_text :: "string \<Rightarrow> json" where
  "sample_text txt = sample_base ''agent-item-delta-v2'' [(''turnId'', JStr ''u''), (''itemId'', JStr ''i''),
     (''delta'', JObj [(''text'', JStr txt)])]"

lemmas sample_defs = sample_base_def sample_start_def sample_text_def sample_input_def

theorem agent_session_stays_valid_witness:
  "isSession (run (applyAgentPatchV2 (\<lambda>_. [])) (emptyAgentSessionV2 sample_input) [sample_start, sample_text ''a''])"
  by (rule agent_session_stays_valid; code_simp)

text \<open>The guards alone do not keep a session valid: \<open>isAgentPatchV2\<close> lets the error of a completed turn be a number, which lands in the
  live state; and it checks only two fields of the card of a delta, all of which are merged into the card of the item.\<close>

lemma guarded_patches_can_break_session:
  defines "s \<equiv> run (applyAgentPatchV2 (\<lambda>_. [])) (emptyAgentSessionV2 sample_input) [sample_start]"
    and "p \<equiv> sample_base ''agent-turn-completed-v2'' [(''turnId'', JStr ''u''), (''status'', JStr ''failed''), (''error'', num 5)]"
  shows "isSession s \<and> isAgentPatchV2 p \<and> \<not> isSession (applyAgentPatchV2 (\<lambda>_. []) s p)"
  unfolding s_def p_def by code_simp

lemma card_of_delta_is_not_checked:
  defines "it \<equiv> JObj [(''id'', JStr ''i''), (''type'', JStr ''reasoning''), (''summary'', JStr ''x''), (''status'', JStr ''running''),
      (''card'', JObj [(''kind'', JStr ''thought''), (''title'', JStr ''x''), (''status'', JStr ''running'')])]"
    and "p \<equiv> sample_base ''agent-item-delta-v2'' [(''turnId'', JStr ''u''), (''itemId'', JStr ''i''),
      (''delta'', JObj [(''card'', JObj [(''title'', num 5)])])]"
  shows "isItem it \<and> isAgentPatchV2 p \<and> \<not> isItem (applyDeltaToItem (\<lambda>_. []) it p)"
  unfolding it_def p_def by code_simp

end
