(* ===== verification/Agent_Chat_Safety.thy ===== *)
theory Agent_Chat_Safety
  imports Agent_Chat_Types
begin

text \<open>
  Identity and streaming in the agent chat: the ids of turns and of the items of a turn stay unique, and the text of
  an item is what was streamed to it, whatever happens around it.
\<close>

section \<open>Ids\<close>

definition ids :: "json list \<Rightarrow> json list" where
  "ids xs = map (\<lambda>x. fld x ''id'') xs"

definition ids_unique :: "json \<Rightarrow> bool" where
  "ids_unique s \<longleftrightarrow> distinct (ids (arr s ''turns'')) \<and> list_all (\<lambda>t. distinct (ids (arr t ''items''))) (arr s ''turns'')"

text \<open>What a patch may bring: a snapshot with unique ids, a turn with unique items, an error whose item is new.\<close>

definition ids_admit :: "json \<Rightarrow> json \<Rightarrow> bool" where
  "ids_admit s p \<longleftrightarrow>
     (let ty = the_str (fld p ''type'') in
      if ty = ''agent-session-snapshot-v2'' then ids_unique (fld p ''session'')
      else if ty = ''agent-turn-started-v2'' then distinct (ids (arr (fld p ''turn'') ''items''))
      else if ty = ''agent-error-v2'' then list_all (\<lambda>t. fld (error_item p) ''id'' \<notin> set (ids (arr t ''items''))) (arr s ''turns'')
      else True)"

lemma ids_simps [simp]: "ids [] = []" "ids (x # xs) = fld x ''id'' # ids xs" "ids (xs @ ys) = ids xs @ ids ys"
  by (simp_all add: ids_def)

lemma ids_upsert: "ids (upsertById xs x) = (if fld x ''id'' \<in> set (ids xs) then ids xs else ids xs @ [fld x ''id''])"
  unfolding upsertById_def by (induction xs) auto

lemma ids_map_id:
  assumes "\<And>x. fld (f x) ''id'' = fld x ''id''"
  shows "ids (map_id i f xs) = ids xs"
  by (induction xs) (simp_all add: map_id_def assms)

lemma ids_empty_iff: "x \<in> set (ids xs) \<longleftrightarrow> list_ex (\<lambda>y. fld y ''id'' = x) xs"
  by (auto simp: ids_def list_ex_iff)

lemma map_id_absent: "i \<notin> set (ids xs) \<Longrightarrow> map_id i f xs = xs"
  by (induction xs) (auto simp: map_id_def)

lemma id_update_items [simp]: "fld (update_items f t) ''id'' = fld t ''id''" "arr (update_items f t) ''items'' = f (arr t ''items'')"
  by (simp_all add: update_items_def)

lemma id_complete_turn: "fld (completeTurn t p) ''id'' = fld t ''id''" "arr (completeTurn t p) ''items'' = arr t ''items''"
  by (simp_all add: completeTurn_def set_defined_def set_if_frame arr_def)

lemma apply_delta_frame:
  assumes "k \<in> {''id'', ''type''}"
  shows "fld (applyDeltaToItem numstr x p) k = fld x k"
  using assms delta_frame [of x]
  by (auto simp: applyDeltaToItem_def Let_def withAgentDetailCard_def split: option.split)

lemma ids_item_delta: "distinct (ids xs) \<Longrightarrow> distinct (ids (applyItemDelta numstr xs p))"
  by (simp add: applyItemDelta_def Let_def ids_map_id apply_delta_frame fld_JObj ids_empty_iff [symmetric])

lemma list_all_map_id': "list_all P xs \<Longrightarrow> (\<And>x. x \<in> set xs \<Longrightarrow> P x \<Longrightarrow> P (f x)) \<Longrightarrow> list_all P (map_id i f xs)"
  by (auto simp: map_id_def list_all_iff)

lemma unique_update_turn:
  assumes "ids_unique s" and "\<And>t. fld (f t) ''id'' = fld t ''id''"
    and "\<And>t. t \<in> set (arr s ''turns'') \<Longrightarrow> distinct (ids (arr t ''items'')) \<Longrightarrow> distinct (ids (arr (f t) ''items''))"
  shows "ids_unique (updateTurn s i f)"
  using assms by (simp add: ids_unique_def updateTurn_def ids_map_id list_all_map_id')

lemma unique_turns: "distinct (ids ts) \<Longrightarrow> list_all (\<lambda>t. distinct (ids (arr t ''items''))) ts \<Longrightarrow> ids_unique (obj_set s ''turns'' (JArr ts))"
  by (simp add: ids_unique_def)

lemma unique_other: "k \<noteq> ''turns'' \<Longrightarrow> ids_unique (obj_set s k x) = ids_unique s"
  by (simp add: ids_unique_def)

lemma unique_error_turns:
  assumes "ids_unique s" and "list_all (\<lambda>t. fld (error_item p) ''id'' \<notin> set (ids (arr t ''items''))) (arr s ''turns'')"
  shows "distinct (ids (error_turns s p)) \<and> list_all (\<lambda>t. distinct (ids (arr t ''items''))) (error_turns s p)"
proof -
  define ts where "ts = arr s ''turns''"
  have u: "distinct (ids ts)" "list_all (\<lambda>t. distinct (ids (arr t ''items''))) ts"
    using assms(1) by (simp_all add: ids_unique_def ts_def)
  have add: "distinct (ids (arr (add_item (error_item p) t) ''items''))" if "t \<in> set ts" for t
    using that u(2) assms(2) by (auto simp: add_item_def list_all_iff ts_def)
  have idt: "fld (add_item x t) ''id'' = fld t ''id''" for x t by (simp add: add_item_def)
  have "list_all (\<lambda>t. distinct (ids (arr t ''items''))) (map_id i (add_item (error_item p)) ts)" for i
    using u(2) by (rule list_all_map_id') (rule add)
  moreover have "distinct (ids (map_id i (add_item (error_item p)) ts))" for i
    using u(1) by (simp add: ids_map_id idt)
  moreover have "distinct (ids (upsertById ts (add_item (error_item p) (last ts)))) \<and>
      list_all (\<lambda>t. distinct (ids (arr t ''items''))) (upsertById ts (add_item (error_item p) (last ts)))" if "ts \<noteq> []"
    using u add [of "last ts"] that by (simp add: ids_upsert list_all_upsert)
  ultimately show ?thesis
    unfolding error_turns_def Let_def ts_def [symmetric] by (simp add: arr_def [of "JObj kvs" k for kvs k] fld_JObj)
qed

lemma unique_step:
  assumes "ids_unique s" and "isAgentPatchV2 p \<and> ids_admit s p"
  shows "ids_unique (applyAgentPatchV2 numstr s p)"
proof -
  have item: "ids_unique (updateTurn s i (update_items (\<lambda>items. upsertById items x)))" for i x
    by (rule unique_update_turn [OF assms(1)]) (simp_all add: ids_upsert)
  note u = assms(1) [unfolded ids_unique_def]
  from assms(2) have "isAgentPatchV2 p" by blast
  then show ?thesis
  proof (cases rule: patch_kinds)
    case 1
    with assms(2) show ?thesis by (simp add: applyAgentPatchV2_def ids_admit_def)
  next
    case 2
    with assms(1) show ?thesis
      by (simp add: applyAgentPatchV2_def session_updated_def Let_def set_defined_def set_if_def unique_other)
  next
    case 3
    with assms(1) show ?thesis by (simp add: applyAgentPatchV2_def unique_other)
  next
    case 4
    with assms(2) have "distinct (ids (arr (fld p ''turn'') ''items''))" by (simp add: ids_admit_def)
    with 4 u show ?thesis by (simp add: applyAgentPatchV2_def unique_turns ids_upsert list_all_upsert)
  next
    case 5
    with item show ?thesis by (simp add: applyAgentPatchV2_def)
  next
    case 6
    with item show ?thesis by (simp add: applyAgentPatchV2_def)
  next
    case 7
    have "ids_unique (updateTurn s (fld p ''turnId'') (update_items (\<lambda>items. applyItemDelta numstr items p)))"
      by (rule unique_update_turn [OF assms(1)]) (simp_all add: ids_item_delta)
    with 7 show ?thesis by (simp add: applyAgentPatchV2_def)
  next
    case 8
    have "ids_unique (completeLiveStateForActiveTurn s p)"
      using assms(1) by (simp add: completeLiveStateForActiveTurn_def Let_def unique_other)
    then have "ids_unique (updateTurn (completeLiveStateForActiveTurn s p) (fld p ''turnId'') (\<lambda>t. completeTurn t p))"
      by (rule unique_update_turn) (simp_all add: id_complete_turn)
    with 8 show ?thesis by (simp add: applyAgentPatchV2_def)
  next
    case 9
    with assms(2) have "list_all (\<lambda>t. fld (error_item p) ''id'' \<notin> set (ids (arr t ''items''))) (arr s ''turns'')"
      by (simp add: ids_admit_def)
    from unique_error_turns [OF assms(1) this] 9 show ?thesis by (simp add: applyAgentPatchV2_def unique_turns)
  qed
qed

interpretation agent_ids: state_machine "applyAgentPatchV2 numstr" "\<lambda>s p. isAgentPatchV2 p \<and> ids_admit s p" ids_unique for numstr
  by unfold_locales (rule unique_step)

section \<open>Streams\<close>

definition with_id :: "json \<Rightarrow> json list \<Rightarrow> json option" where
  "with_id i xs = List.find (\<lambda>x. fld x ''id'' = i) xs"

definition item_of :: "json \<Rightarrow> json \<Rightarrow> json \<Rightarrow> json option" where
  "item_of s t i = Option.bind (with_id t (arr s ''turns'')) (\<lambda>turn. with_id i (arr turn ''items''))"

text \<open>The text shown for an item, and what a patch adds to it.\<close>

definition shown_text :: "json \<Rightarrow> json \<Rightarrow> json \<Rightarrow> string" where
  "shown_text s t i = (case item_of s t i of None \<Rightarrow> [] | Some x \<Rightarrow> the_str (fld x ''text''))"

definition fragment :: "json \<Rightarrow> json \<Rightarrow> json \<Rightarrow> string" where
  "fragment t i p =
     (if the_str (fld p ''type'') = ''agent-item-delta-v2'' \<and> fld p ''turnId'' = t \<and> fld p ''itemId'' = i
      then the_str (fld (fld p ''delta'') ''text'') else [])"

text \<open>A patch leaves the stream of item \<open>i\<close> of turn \<open>t\<close> open: it replaces neither the session, nor the turn, nor the item, nor its
  text.\<close>

definition stream_open :: "json \<Rightarrow> json \<Rightarrow> json \<Rightarrow> bool" where
  "stream_open t i p \<longleftrightarrow>
     (let ty = the_str (fld p ''type'') in
      ty \<noteq> ''agent-session-snapshot-v2'' \<and>
      (ty = ''agent-turn-started-v2'' \<longrightarrow> fld (fld p ''turn'') ''id'' \<noteq> t) \<and>
      (ty \<in> {''agent-item-started-v2'', ''agent-item-updated-v2''} \<longrightarrow> fld p ''turnId'' \<noteq> t \<or> fld (fld p ''item'') ''id'' \<noteq> i) \<and>
      (ty = ''agent-item-delta-v2'' \<longrightarrow> fld p ''mode'' \<noteq> JStr ''replace''))"

lemma with_id_upsert: "with_id i (upsertById xs x) = (if fld x ''id'' = i then Some x else with_id i xs)"
  unfolding upsertById_def with_id_def by (induction xs) auto

lemma with_id_map_id:
  assumes "\<And>x. fld (f x) ''id'' = fld x ''id''"
  shows "with_id i (map_id j f xs) = map_option (\<lambda>x. if i = j then f x else x) (with_id i xs)"
  unfolding with_id_def map_id_def by (induction xs) (auto simp: assms)

lemma with_id_Some: "with_id i xs = Some x \<Longrightarrow> fld x ''id'' = i \<and> x \<in> set xs"
  unfolding with_id_def by (induction xs) (auto split: if_split_asm)

lemma with_id_append: "with_id i (xs @ ys) = (case with_id i xs of None \<Rightarrow> with_id i ys | Some x \<Rightarrow> Some x)"
  unfolding with_id_def by (induction xs) auto

lemma with_id_single: "with_id i [x] = (if fld x ''id'' = i then Some x else None)"
  unfolding with_id_def by simp

lemma with_id_None: "with_id i xs = None \<longleftrightarrow> i \<notin> set (ids xs)"
  unfolding with_id_def by (induction xs) auto

lemma with_id_unique: "distinct (ids xs) \<Longrightarrow> x \<in> set xs \<Longrightarrow> with_id (fld x ''id'') xs = Some x"
  unfolding with_id_def by (induction xs) (auto simp: ids_def)

lemma delta_text:
  assumes "item_typed x" and "fld p ''mode'' \<noteq> JStr ''replace''"
  shows "the_str (fld (applyDeltaToItem numstr x p) ''text'') = the_str (fld x ''text'') @ the_str (fld (fld p ''delta'') ''text'')"
proof -
  define nx where "nx = appendItemDelta x (fld p ''delta'') False"
  have "fld nx ''text'' = fld (appendStringField x (fld p ''delta'') ''text'' False) ''text''"
    by (simp add: nx_def appendItemDelta_def Let_def set_if_frame append_field_frame)
  moreover have "opt_sat is_str (fld x ''text'')" using assms(1) by (rule item_typed_fields(3))
  ultimately have "the_str (fld nx ''text'') = the_str (fld x ''text'') @ the_str (fld (fld p ''delta'') ''text'')"
    by (auto simp: appendStringField_def opt_sat_def is_str_def the_str_def split: json.splits)
  moreover have "fld (applyDeltaToItem numstr x p) ''text'' = fld nx ''text''"
    using assms(2) by (simp add: applyDeltaToItem_def Let_def nx_def withAgentDetailCard_def split: option.split)
  ultimately show ?thesis by simp
qed

lemma shown_text_turns:
  "arr s ''turns'' = arr s' ''turns'' \<Longrightarrow> shown_text s t i = shown_text s' t i"
  by (simp add: shown_text_def item_of_def)

lemma shown_text_update:
  assumes "\<And>t. fld (f t) ''id'' = fld t ''id''"
    and "\<And>turn. with_id t (arr s ''turns'') = Some turn \<Longrightarrow> t = j \<Longrightarrow> with_id i (arr (f turn) ''items'') = with_id i (arr turn ''items'')"
  shows "shown_text (updateTurn s j f) t i = shown_text s t i"
  using assms(2)
  by (cases "with_id t (arr s ''turns'')") (auto simp: shown_text_def item_of_def updateTurn_def with_id_map_id [OF assms(1)])

definition text_in :: "json \<Rightarrow> json list \<Rightarrow> string" where
  "text_in i xs = (case with_id i xs of None \<Rightarrow> [] | Some x \<Rightarrow> the_str (fld x ''text''))"

lemma shown_text_in: "with_id t (arr s ''turns'') = Some turn \<Longrightarrow> shown_text s t i = text_in i (arr turn ''items'')"
  by (simp add: shown_text_def item_of_def text_in_def)

lemma text_in_delta:
  assumes "list_all item_typed xs" and "fld p ''mode'' \<noteq> JStr ''replace''"
  shows "text_in i (applyItemDelta numstr xs p) =
    text_in i xs @ (if fld p ''itemId'' = i then the_str (fld (fld p ''delta'') ''text'') else [])"
proof (cases "fld p ''itemId'' \<in> set (ids xs)")
  case True
  then have "with_id i (applyItemDelta numstr xs p) =
      map_option (\<lambda>x. if i = fld p ''itemId'' then applyDeltaToItem numstr x p else x) (with_id i xs)"
    by (simp add: applyItemDelta_def Let_def ids_empty_iff with_id_map_id apply_delta_frame)
  moreover have "the_str (fld (applyDeltaToItem numstr x p) ''text'') = the_str (fld x ''text'') @ the_str (fld (fld p ''delta'') ''text'')"
    if "with_id i xs = Some x" for x
    using with_id_Some [OF that] assms by (intro delta_text) (simp_all add: list_all_iff)
  moreover have "i = fld p ''itemId'' \<Longrightarrow> with_id i xs \<noteq> None" using True by (simp add: with_id_None)
  ultimately show ?thesis by (auto simp: text_in_def split: option.split)
next
  case False
  then have "with_id (fld p ''itemId'') xs = None" by (simp add: with_id_None)
  with False show ?thesis
    by (auto simp: text_in_def applyItemDelta_def Let_def ids_empty_iff with_id_append with_id_single fld_JObj the_str_def split: option.split)
qed

lemma text_in_error: "text_in i (xs @ [error_item p]) = text_in i xs"
proof -
  have "fld (error_item p) ''text'' = JUndef" by (simp add: error_item_def Let_def fld_JObj)
  then show ?thesis by (simp add: text_in_def with_id_append with_id_single the_str_def split: option.split)
qed

lemma shown_text_error:
  assumes "ids_unique s" and "with_id t (arr s ''turns'') \<noteq> None"
  shows "shown_text (obj_set s' ''turns'' (JArr (error_turns s p))) t i = shown_text s t i \<and> with_id t (error_turns s p) \<noteq> None"
proof -
  define ts where "ts = arr s ''turns''"
  obtain turn where turn: "with_id t ts = Some turn" using assms(2) unfolding ts_def by blast
  have ne: "ts \<noteq> []" using turn by (auto simp: with_id_def)
  have idt: "fld (add_item x w) ''id'' = fld w ''id''" for x w by (simp add: add_item_def)
  have kept: "text_in i (arr (add_item (error_item p) w) ''items'') = text_in i (arr w ''items'')" for w
    by (simp add: add_item_def text_in_error)
  have shown: "shown_text (obj_set s' ''turns'' (JArr us)) t i = (case with_id t us of None \<Rightarrow> [] | Some w \<Rightarrow> text_in i (arr w ''items''))" for us
    by (simp add: shown_text_def item_of_def text_in_def split: option.split)
  have "with_id (fld (last ts) ''id'') ts = Some (last ts)"
    using assms(1) ne by (intro with_id_unique) (simp_all add: ids_unique_def ts_def)
  then have up: "with_id t (upsertById ts (add_item (error_item p) (last ts))) =
      Some (if fld (last ts) ''id'' = t then add_item (error_item p) turn else turn)"
    using turn by (auto simp: with_id_upsert idt)
  show ?thesis
    unfolding error_turns_def Let_def ts_def [symmetric]
    using ne turn by (simp add: shown with_id_map_id idt up kept shown_text_in [OF turn [unfolded ts_def]])
qed

lemma text_step:
  assumes "session_typed s" and "ids_unique s" and "with_id t (arr s ''turns'') \<noteq> None" and "isAgentPatchV2 p" and "stream_open t i p"
  shows "shown_text (applyAgentPatchV2 numstr s p) t i = shown_text s t i @ fragment t i p \<and>
    with_id t (arr (applyAgentPatchV2 numstr s p) ''turns'') \<noteq> None"
proof -
  have upd: "with_id t (arr (updateTurn w j f) ''turns'') \<noteq> None" if "arr w ''turns'' = arr s ''turns''" and "\<And>x. fld (f x) ''id'' = fld x ''id''" for w j f
    using assms(3) that by (auto simp: updateTurn_def with_id_map_id)
  have same: "shown_text (updateTurn s j (update_items f)) t i = shown_text s t i"
    if "t = j \<Longrightarrow> \<forall>xs. with_id i (f xs) = with_id i xs" for j f
    using that by (intro shown_text_update) simp_all
  have item: "shown_text (updateTurn s (fld p ''turnId'') (update_items (\<lambda>items. upsertById items (fld p ''item'')))) t i = shown_text s t i"
    if "fld p ''turnId'' \<noteq> t \<or> fld (fld p ''item'') ''id'' \<noteq> i"
    using that by (intro same) (simp add: with_id_upsert)
  show ?thesis
    using assms(4)
  proof (cases rule: patch_kinds)
    case 1
    with assms(5) show ?thesis by (simp add: stream_open_def)
  next
    case 2
    have "arr (session_updated s p) ''turns'' = arr s ''turns''"
      by (simp add: session_updated_def Let_def set_defined_def set_if_def)
    with 2 assms(3) show ?thesis by (simp add: applyAgentPatchV2_def fragment_def shown_text_turns [of "session_updated s p" s])
  next
    case 3
    with assms(3) show ?thesis by (simp add: applyAgentPatchV2_def fragment_def shown_text_def item_of_def)
  next
    case 4
    with assms(3,5) show ?thesis
      by (simp add: applyAgentPatchV2_def fragment_def shown_text_def item_of_def stream_open_def with_id_upsert)
  next
    case 5
    then have "fld p ''turnId'' \<noteq> t \<or> fld (fld p ''item'') ''id'' \<noteq> i" using assms(5) by (simp add: stream_open_def)
    with item 5 show ?thesis by (simp add: applyAgentPatchV2_def fragment_def upd)
  next
    case 6
    then have "fld p ''turnId'' \<noteq> t \<or> fld (fld p ''item'') ''id'' \<noteq> i" using assms(5) by (simp add: stream_open_def)
    with item 6 show ?thesis by (simp add: applyAgentPatchV2_def fragment_def upd)
  next
    case 7
    obtain turn where turn: "with_id t (arr s ''turns'') = Some turn" using assms(3) by blast
    define f where "f = update_items (\<lambda>items. applyItemDelta numstr items p)"
    have "list_all item_typed (arr turn ''items'')"
      using with_id_Some [OF turn] assms(1) by (auto simp: session_typed_def list_all_iff turn_typed_def)
    moreover have "with_id t (arr (updateTurn s (fld p ''turnId'') f) ''turns'') = Some (if t = fld p ''turnId'' then f turn else turn)"
      using turn by (simp add: updateTurn_def with_id_map_id f_def)
    ultimately have "shown_text (updateTurn s (fld p ''turnId'') f) t i = shown_text s t i @ fragment t i p"
      using 7 assms(5) by (simp add: shown_text_in turn fragment_def stream_open_def f_def text_in_delta)
    with 7 show ?thesis by (simp add: applyAgentPatchV2_def f_def upd)
  next
    case 8
    have turns: "arr (completeLiveStateForActiveTurn s p) ''turns'' = arr s ''turns''"
      by (simp add: completeLiveStateForActiveTurn_def Let_def)
    have "shown_text (updateTurn (completeLiveStateForActiveTurn s p) j (\<lambda>x. completeTurn x p)) t i = shown_text (completeLiveStateForActiveTurn s p) t i" for j
      by (rule shown_text_update) (simp_all add: id_complete_turn)
    with 8 shown_text_turns [OF turns] upd [OF turns] show ?thesis
      by (simp add: applyAgentPatchV2_def fragment_def id_complete_turn)
  next
    case 9
    with shown_text_error [OF assms(2,3)] show ?thesis by (simp add: applyAgentPatchV2_def fragment_def)
  qed
qed

section \<open>Properties\<close>

text \<open>The ids of the turns of a session, and of the items of each turn, stay unique under every sequence of patches that bring no
  duplicates of their own and report no error twice.\<close>

theorem agent_ids_stay_unique:
  assumes "ids_unique s" and "all_ok (applyAgentPatchV2 numstr) (\<lambda>s p. isAgentPatchV2 p \<and> ids_admit s p) s ps"
  shows "ids_unique (run (applyAgentPatchV2 numstr) s ps)"
  using assms by (rule agent_ids.run_inv)


section \<open>Witnesses\<close>

definition sample_session :: json where
  "sample_session = applyAgentPatchV2 (\<lambda>_. []) (emptyAgentSessionV2 sample_input) sample_start"

definition sample_done :: json where
  "sample_done = sample_base ''agent-turn-completed-v2'' [(''turnId'', JStr ''u''), (''status'', JStr ''completed'')]"

theorem agent_ids_stay_unique_witness:
  "ids_unique (run (applyAgentPatchV2 (\<lambda>_. [])) sample_session [sample_text ''a'', sample_done])"
  by (rule agent_ids_stay_unique; code_simp)


text \<open>An error that is reported again appends its item a second time, under the id it had.\<close>

lemma replayed_error_duplicates_item:
  fixes numstr :: "js_number \<Rightarrow> string" and s p t :: json
  assumes "the_str (fld p ''type'') = ''agent-error-v2''" and "js_truthy (fld p ''turnId'')" and "with_id (fld p ''turnId'') (arr s ''turns'') = Some t"
  defines "s' \<equiv> applyAgentPatchV2 numstr s p"
  shows "with_id (fld p ''turnId'') (arr (applyAgentPatchV2 numstr s' p) ''turns'') = Some (add_item (error_item p) (add_item (error_item p) t)) \<and>
    \<not> ids_unique (applyAgentPatchV2 numstr s' p)"
proof -
  have idt: "fld (add_item x w) ''id'' = fld w ''id''" for x w by (simp add: add_item_def)
  have target: "js_nullish (fld p ''turnId'') x = fld p ''turnId''" for x using assms(2) by (auto simp: js_nullish_def)
  have step: "with_id (fld p ''turnId'') (arr (applyAgentPatchV2 numstr w p) ''turns'') = Some (add_item (error_item p) u)"
    if "with_id (fld p ''turnId'') (arr w ''turns'') = Some u" for w u
  proof -
    have "list_ex (\<lambda>t. fld t ''id'' = fld p ''turnId'') (arr w ''turns'')"
      using with_id_Some [OF that] by (auto simp: list_ex_iff)
    then show ?thesis
      using that assms(1,2) by (simp add: applyAgentPatchV2_def error_turns_def Let_def target with_id_map_id idt)
  qed
  have two: "with_id (fld p ''turnId'') (arr (applyAgentPatchV2 numstr s' p) ''turns'') = Some (add_item (error_item p) (add_item (error_item p) t))"
    unfolding s'_def by (intro step assms(3))
  moreover have "\<not> distinct (ids (arr (add_item (error_item p) (add_item (error_item p) t)) ''items''))"
    by (simp add: add_item_def)
  ultimately show ?thesis
    using with_id_Some [OF two] by (auto simp: ids_unique_def list_all_iff)
qed

text \<open>A replacement of the output of a running tool call replaces the content of the item, but the card keeps the output before it.\<close>

lemma replaced_output_stays_on_card:
  defines "it \<equiv> JObj [(''id'', JStr ''i''), (''type'', JStr ''dynamicToolCall''), (''namespace'', JStr ''n''), (''tool'', JStr ''t''),
      (''status'', JStr ''running''), (''content'', JStr ''old''),
      (''card'', JObj [(''kind'', JStr ''tool_call''), (''title'', JStr ''t''), (''status'', JStr ''running''),
        (''content'', JStr (''output'' @ nl @ ''old''))])]"
    and "p \<equiv> sample_base ''agent-item-delta-v2'' [(''turnId'', JStr ''u''), (''itemId'', JStr ''i''), (''mode'', JStr ''replace''),
      (''delta'', JObj [(''content'', JStr ''new'')])]"
  shows "isItem it \<and> isAgentPatchV2 p \<and> fld (applyDeltaToItem (\<lambda>_. []) it p) ''content'' = JStr ''new'' \<and>
    fld (fld (applyDeltaToItem (\<lambda>_. []) it p) ''card'') ''content'' = JStr (''output'' @ nl @ ''old'' @ nl @ nl @ ''output'' @ nl @ ''new'')"
  unfolding it_def p_def by code_simp

end
