(* ===== verification/Transcript_Cap.thy ===== *)
theory Transcript_Cap
  imports Agent_Chat_Safety
begin

text \<open>
  The cap of a transcript (\<open>capAgentSessionTranscriptV2\<close> of \<open>shared/agent-chat-protocol-v2.ts\<close>): oversized items are cut
  first, then the oldest turns go, then the oldest items. The budget of a field is \<open>Math.floor(maxBytes * 0.6)\<close> in
  floating point, an argument \<open>six_tenths\<close>.
\<close>

section \<open>Truncation\<close>

definition max_transcript_bytes :: nat where "max_transcript_bytes = 512000"

definition max_item_bytes :: nat where "max_item_bytes = 128000"

definition jsonByteLength :: "(js_number \<Rightarrow> string) \<Rightarrow> json \<Rightarrow> nat" where
  "jsonByteLength numstr v = (if v = JUndef then 0 else encoded_length (json_stringify numstr v))"

text \<open>The binary search for the longest prefix that fits.\<close>

function longest_fit :: "(nat \<Rightarrow> bool) \<Rightarrow> nat \<Rightarrow> nat \<Rightarrow> nat" where
  "longest_fit fits lo hi =
     (if lo < hi then let mid = (lo + hi + 1) div 2 in if fits mid then longest_fit fits mid hi else longest_fit fits lo (mid - 1)
      else lo)"
  by pat_completeness auto
termination by (relation "measure (\<lambda>(fits, lo, hi). hi - lo)") auto

declare longest_fit.simps [simp del]

definition marker :: "nat \<Rightarrow> string" where
  "marker n = nl @ [ellipsis] @ '' [truncated '' @ nat_to_dec n @ '' bytes]''"

definition truncateToBytes :: "string \<Rightarrow> nat \<Rightarrow> string" where
  "truncateToBytes input maxBytes =
     (if encoded_length input \<le> maxBytes then input
      else let kept = take (longest_fit (\<lambda>n. encoded_length (take n input) \<le> maxBytes - 48) 0 (length input)) input
           in kept @ marker (encoded_length input - encoded_length kept))"

definition truncateUnknownToBytes :: "(js_number \<Rightarrow> string) \<Rightarrow> json \<Rightarrow> nat \<Rightarrow> json" where
  "truncateUnknownToBytes numstr v maxBytes =
     (let asString = (case v of JStr s \<Rightarrow> s | JUndef \<Rightarrow> [] | _ \<Rightarrow> json_stringify numstr v) in
      if encoded_length asString \<le> maxBytes then v else JStr (truncateToBytes asString maxBytes))"

definition cut :: "nat \<Rightarrow> string \<Rightarrow> json \<Rightarrow> json" where
  "cut budget k v = obj_set v k (JStr (truncateToBytes (the_str (fld v k)) budget))"

definition cut_if :: "bool \<Rightarrow> nat \<Rightarrow> string \<Rightarrow> json \<Rightarrow> json" where
  "cut_if b budget k v = (if b then cut budget k v else v)"

definition cut_result :: "(js_number \<Rightarrow> string) \<Rightarrow> nat \<Rightarrow> json \<Rightarrow> json" where
  "cut_result numstr budget v =
     (if fld v ''result'' \<noteq> JUndef then obj_set v ''result'' (truncateUnknownToBytes numstr (fld v ''result'') budget) else v)"

definition cut_card :: "nat \<Rightarrow> json \<Rightarrow> json" where
  "cut_card budget v =
     (if fld (fld v ''card'') ''content'' \<noteq> JUndef then obj_set v ''card'' (cut budget ''content'' (fld v ''card'')) else v)"

definition cut_fields :: "(js_number \<Rightarrow> string) \<Rightarrow> nat \<Rightarrow> json \<Rightarrow> json" where
  "cut_fields numstr budget v =
     (let ty = the_str (fld v ''type'') in
      if ty = ''assistantMessage'' \<or> ty = ''plan'' then cut budget ''text'' v
      else if ty = ''userMessage'' then cut_if (js_truthy (fld v ''expandedText'')) budget ''expandedText'' (cut budget ''text'' v)
      else if ty = ''reasoning'' then cut_if (js_truthy (fld v ''detail'')) budget ''detail'' (cut budget ''summary'' v)
      else if ty = ''commandExecution'' then cut budget ''output'' v
      else if ty = ''fileChange'' then cut_if (js_truthy (fld v ''patch'')) budget ''patch'' v
      else if ty = ''dynamicToolCall'' then cut_result numstr budget (cut_if (is_str (fld v ''content'')) budget ''content'' v)
      else if ty = ''mcpToolCall'' then cut_result numstr budget v
      else if ty = ''compaction'' then cut budget ''summary'' v
      else if ty = ''errorMessage'' then cut budget ''message'' v
      else if ty = ''providerExtension'' then
        obj_set v ''payload'' (JObj [(''truncated'', JBool True), (''namespace'', fld v ''namespace'')])
      else v)"

definition drop_defined :: "string \<Rightarrow> json \<Rightarrow> json" where
  "drop_defined k v = (if fld v k \<noteq> JUndef then obj_delete v k else v)"

definition truncateItemToBudget :: "(js_number \<Rightarrow> string) \<Rightarrow> (nat \<Rightarrow> nat) \<Rightarrow> nat \<Rightarrow> json \<Rightarrow> json" where
  "truncateItemToBudget numstr six_tenths maxBytes item =
     (if jsonByteLength numstr item \<le> maxBytes then item
      else let budget = max 1000 (six_tenths maxBytes); next = cut_fields numstr budget (cut_card budget item) in
        if jsonByteLength numstr next > maxBytes then drop_defined ''metadata'' (drop_defined ''arguments'' next) else next)"

section \<open>First in, first out\<close>

definition transcriptByteLength :: "(js_number \<Rightarrow> string) \<Rightarrow> json list \<Rightarrow> nat" where
  "transcriptByteLength numstr turns = jsonByteLength numstr (JArr turns)"

definition items_of :: "json list \<Rightarrow> json list" where
  "items_of turns = concat (map (\<lambda>t. arr t ''items'') turns)"

text \<open>One round of the loop: the first turn with items loses its first one, and goes when it was its last and \<open>many\<close> turns are left.\<close>

fun shift_item :: "bool \<Rightarrow> json list \<Rightarrow> json list option" where
  "shift_item many [] = None"
| "shift_item many (t # ts) =
     (if arr t ''items'' = [] then map_option ((#) t) (shift_item many ts)
      else if tl (arr t ''items'') = [] \<and> many then Some ts
      else Some (update_items tl t # ts))"

lemma shift_items: "shift_item many ts = Some us \<Longrightarrow> \<exists>x. items_of ts = x # items_of us"
proof (induction many ts arbitrary: us rule: shift_item.induct)
  case (2 many t ts)
  then show ?case
    by (cases "arr t ''items''") (auto simp: items_of_def split: if_split_asm)
qed simp

function trim_loop :: "(js_number \<Rightarrow> string) \<Rightarrow> nat \<Rightarrow> json list \<Rightarrow> json list" where
  "trim_loop numstr maxBytes turns =
     (if length (items_of turns) > 1 \<and> transcriptByteLength numstr turns > maxBytes then
        (case shift_item (length turns > 1) turns of None \<Rightarrow> turns | Some rest \<Rightarrow> trim_loop numstr maxBytes rest)
      else turns)"
  by pat_completeness auto
termination
  by (relation "measure (\<lambda>(f, m, ts). length (items_of ts))") (auto dest: shift_items)

declare trim_loop.simps [simp del]

definition trimItemsFifo :: "(js_number \<Rightarrow> string) \<Rightarrow> nat \<Rightarrow> json list \<Rightarrow> json list" where
  "trimItemsFifo numstr maxBytes turns = trim_loop numstr maxBytes (map (update_items (\<lambda>items. items)) turns)"

text \<open>The oldest turns go until the budget is met, one turn is left, or the active turn is the oldest.\<close>

fun drop_turns :: "(js_number \<Rightarrow> string) \<Rightarrow> json \<Rightarrow> nat \<Rightarrow> json list \<Rightarrow> json list" where
  "drop_turns numstr active maxBytes [] = []"
| "drop_turns numstr active maxBytes (t # ts) =
     (if ts \<noteq> [] \<and> transcriptByteLength numstr (t # ts) > maxBytes \<and> fld t ''id'' \<noteq> active
      then drop_turns numstr active maxBytes ts else t # ts)"

definition truncate_turn :: "(js_number \<Rightarrow> string) \<Rightarrow> (nat \<Rightarrow> nat) \<Rightarrow> nat \<Rightarrow> json \<Rightarrow> json" where
  "truncate_turn numstr six_tenths maxItem turn =
     (if list_ex (\<lambda>x. jsonByteLength numstr x > maxItem) (arr turn ''items'')
      then update_items (map (truncateItemToBudget numstr six_tenths maxItem)) turn else turn)"

definition capAgentSessionTranscriptV2 :: "(js_number \<Rightarrow> string) \<Rightarrow> (nat \<Rightarrow> nat) \<Rightarrow> nat \<Rightarrow> nat \<Rightarrow> json \<Rightarrow> json" where
  "capAgentSessionTranscriptV2 numstr six_tenths maxTranscript maxItem session =
     (let turns = arr session ''turns''; cut_turns = map (truncate_turn numstr six_tenths maxItem) turns;
          mutated = list_ex (\<lambda>x. jsonByteLength numstr x > maxItem) (items_of turns) in
      if transcriptByteLength numstr cut_turns \<le> maxTranscript then
        (if mutated then obj_set session ''turns'' (JArr cut_turns) else session)
      else
        let kept = drop_turns numstr (fld (fld session ''live'') ''activeTurnId'') maxTranscript cut_turns in
        obj_set session ''turns'' (JArr (if transcriptByteLength numstr kept > maxTranscript then trimItemsFifo numstr maxTranscript kept else kept)))"

section \<open>The search\<close>

lemma longest_fit_spec:
  assumes "\<And>m n. m \<le> n \<Longrightarrow> fits n \<Longrightarrow> fits m" and "fits lo" and "lo \<le> hi"
  shows "fits (longest_fit fits lo hi) \<and> longest_fit fits lo hi \<le> hi \<and> (\<forall>n. longest_fit fits lo hi < n \<longrightarrow> n \<le> hi \<longrightarrow> \<not> fits n)"
  using assms
proof (induction fits lo hi rule: longest_fit.induct)
  case (1 fits lo hi)
  define mid where "mid = (lo + hi + 1) div 2"
  show ?case
  proof (cases "lo < hi")
    case less: True
    then have mid: "lo < mid" "mid \<le> hi" by (simp_all add: mid_def)
    show ?thesis
    proof (cases "fits mid")
      case True
      then have "longest_fit fits lo hi = longest_fit fits mid hi"
        using less by (subst longest_fit.simps) (simp add: mid_def Let_def)
      with 1(1) [OF less mid_def True 1(3) True mid(2)] show ?thesis by simp
    next
      case False
      then have eq: "longest_fit fits lo hi = longest_fit fits lo (mid - 1)"
        using less by (subst longest_fit.simps) (simp add: mid_def Let_def)
      have large: "\<not> fits n" if "mid \<le> n" for n using 1(3) [OF that] False by blast
      have le: "lo \<le> mid - 1" using mid(1) by simp
      define r where "r = longest_fit fits lo (mid - 1)"
      have r: "fits r" "r \<le> mid - 1" "\<forall>n. r < n \<longrightarrow> n \<le> mid - 1 \<longrightarrow> \<not> fits n"
        using 1(2) [OF less mid_def False 1(3) 1(4) le] by (simp_all add: r_def)
      have "\<not> fits n" if "r < n" for n using that r(3) large [of n] by (cases "n \<le> mid - 1") auto
      with r(1,2) mid eq show ?thesis by (simp add: r_def)
    qed
  next
    case False
    then have "longest_fit fits lo hi = lo" by (subst longest_fit.simps) simp
    with 1(4,5) False show ?thesis by simp
  qed
qed

lemma encoded_append [simp]: "encoded_length (s @ t) = encoded_length s + encoded_length t"
  by (simp add: encoded_length_def)

lemma encoded_Nil [simp]: "encoded_length [] = 0"
  by (simp add: encoded_length_def)

lemma encoded_take_mono: "m \<le> n \<Longrightarrow> encoded_length (take m s) \<le> encoded_length (take n s)"
  by (metis encoded_append le_add1 min.absorb_iff2 min.commute take_add le_add_diff_inverse)

lemma longest_prefix:
  fixes s :: string and target :: nat
  defines "n \<equiv> longest_fit (\<lambda>n. encoded_length (take n s) \<le> target) 0 (length s)"
  shows "encoded_length (take n s) \<le> target" "n \<le> length s"
    "n < m \<Longrightarrow> m \<le> length s \<Longrightarrow> target < encoded_length (take m s)"
proof -
  have "encoded_length (take n s) \<le> target \<and> n \<le> length s \<and> (\<forall>m. n < m \<longrightarrow> m \<le> length s \<longrightarrow> \<not> encoded_length (take m s) \<le> target)"
    unfolding n_def by (rule longest_fit_spec) (auto intro: le_trans [OF encoded_take_mono])
  then show "encoded_length (take n s) \<le> target" "n \<le> length s"
    "n < m \<Longrightarrow> m \<le> length s \<Longrightarrow> target < encoded_length (take m s)" by auto
qed

lemma dec_length: "n < 10 ^ k \<Longrightarrow> 0 < k \<Longrightarrow> length (nat_to_dec n) \<le> k"
proof (induction k arbitrary: n)
  case (Suc k)
  show ?case
  proof (cases "n < 10")
    case True
    then show ?thesis by (subst nat_to_dec.simps) simp
  next
    case False
    then have "n div 10 < 10 ^ k" "0 < k" using Suc.prems(1) by (auto simp: div_less_iff_less_mult intro: Nat.gr0I)
    with Suc.IH [of "n div 10"] False show ?thesis by (subst nat_to_dec.simps) simp
  qed
qed simp

lemma encoded_digits: "encoded_length (nat_to_dec n) = length (nat_to_dec n)"
proof -
  have "list_all is_digit s \<Longrightarrow> encoded_length s = length s" for s
    by (induction s) (auto simp: encoded_length_def ellipsis_def is_digit_def Let_def)
  then show ?thesis using nat_to_dec_digits by blast
qed

lemma marker_length: "encoded_length (marker n) = 23 + length (nat_to_dec n)"
proof -
  have "encoded_length (c # s) = (if c = ellipsis then 3 else if (of_char c :: nat) < 128 then 1 else 2) + encoded_length s" for c s
    by (simp add: encoded_length_def)
  then show ?thesis by (simp add: marker_def encoded_digits nl_def ellipsis_def)
qed

section \<open>Items that stay\<close>

lemma items_simps [simp]: "items_of [] = []" "items_of (t # ts) = arr t ''items'' @ items_of ts"
  by (simp_all add: items_of_def)

lemma shift_None: "shift_item many ts = None \<Longrightarrow> items_of ts = []"
  by (induction many ts rule: shift_item.induct) (auto split: if_split_asm)

lemma items_copy: "items_of (map (update_items (\<lambda>items. items)) ts) = items_of ts"
  by (induction ts) simp_all

lemma trim_loop_tail: "\<exists>k. items_of (trim_loop numstr b ts) = drop k (items_of ts)"
proof (induction numstr b ts rule: trim_loop.induct)
  case (1 numstr b ts)
  have same: "\<exists>k. items_of ts = drop k (items_of ts)" by (rule exI [of _ 0]) simp
  show ?case
  proof (cases "length (items_of ts) > 1 \<and> transcriptByteLength numstr ts > b")
    case True
    show ?thesis
    proof (cases "shift_item (length ts > 1) ts")
      case None
      with same show ?thesis by (subst trim_loop.simps) simp
    next
      case (Some us)
      obtain k x where "items_of (trim_loop numstr b us) = drop k (items_of us)" "items_of ts = x # items_of us"
        using 1 [OF True Some] shift_items [OF Some] by blast
      then have "items_of (trim_loop numstr b us) = drop (Suc k) (items_of ts)" by simp
      with True Some show ?thesis by (subst trim_loop.simps) auto
    qed
  next
    case False
    with same show ?thesis by (subst trim_loop.simps) auto
  qed
qed

lemma trim_loop_done: "transcriptByteLength numstr (trim_loop numstr b ts) \<le> b \<or> length (items_of (trim_loop numstr b ts)) \<le> 1"
proof (induction numstr b ts rule: trim_loop.induct)
  case (1 numstr b ts)
  show ?case
  proof (cases "length (items_of ts) > 1 \<and> transcriptByteLength numstr ts > b")
    case True
    then obtain us where us: "shift_item (length ts > 1) ts = Some us"
      using shift_None [of "length ts > 1" ts] by (cases "shift_item (length ts > 1) ts") auto
    then have "trim_loop numstr b ts = trim_loop numstr b us" using True by (subst trim_loop.simps) simp
    with 1 [OF True us] show ?thesis by simp
  next
    case False
    then have "trim_loop numstr b ts = ts" by (subst trim_loop.simps) auto
    with False show ?thesis by auto
  qed
qed

lemma drop_turns_suffix: "\<exists>us. ts = us @ drop_turns numstr active b ts"
proof (induction ts)
  case (Cons t ts)
  then obtain us where "ts = us @ drop_turns numstr active b ts" by blast
  then have "t # ts = (t # us) @ drop_turns numstr active b ts" by simp
  moreover have "t # ts = [] @ (t # ts)" by simp
  ultimately show ?case by (metis drop_turns.simps(2))
qed simp

lemma items_append: "items_of (us @ ts) = items_of us @ items_of ts"
  by (simp add: items_of_def)

lemma truncate_within: "jsonByteLength numstr x \<le> b \<Longrightarrow> truncateItemToBudget numstr six b x = x"
  by (simp add: truncateItemToBudget_def)

lemma truncate_turn_items: "arr (truncate_turn numstr six b t) ''items'' = map (truncateItemToBudget numstr six b) (arr t ''items'')"
  by (auto simp: truncate_turn_def list_ex_iff not_less truncate_within intro!: map_idI [symmetric])

lemma truncated_items: "items_of (map (truncate_turn numstr six b) ts) = map (truncateItemToBudget numstr six b) (items_of ts)"
  by (induction ts) (simp_all add: truncate_turn_items)

lemma truncate_none:
  assumes "\<not> list_ex (\<lambda>x. jsonByteLength numstr x > b) (items_of ts)"
  shows "map (truncate_turn numstr six b) ts = ts"
proof -
  have "\<not> list_ex (\<lambda>x. jsonByteLength numstr x > b) (arr t ''items'')" if "t \<in> set ts" for t
    using assms that by (auto simp: items_of_def list_ex_iff)
  then show ?thesis by (intro map_idI) (simp add: truncate_turn_def)
qed

lemma cap_cases:
  fixes numstr :: "js_number \<Rightarrow> string" and six :: "nat \<Rightarrow> nat" and mt mi :: nat and s :: json
  defines "cutt \<equiv> map (truncate_turn numstr six mi) (arr s ''turns'')"
    and "kept \<equiv> drop_turns numstr (fld (fld s ''live'') ''activeTurnId'') mt (map (truncate_turn numstr six mi) (arr s ''turns''))"
  obtains "transcriptByteLength numstr cutt \<le> mt" "\<not> list_ex (\<lambda>x. jsonByteLength numstr x > mi) (items_of (arr s ''turns''))"
      "capAgentSessionTranscriptV2 numstr six mt mi s = s" "cutt = arr s ''turns''"
  | "transcriptByteLength numstr cutt \<le> mt" "list_ex (\<lambda>x. jsonByteLength numstr x > mi) (items_of (arr s ''turns''))"
      "capAgentSessionTranscriptV2 numstr six mt mi s = obj_set s ''turns'' (JArr cutt)"
  | "transcriptByteLength numstr cutt > mt" "transcriptByteLength numstr kept \<le> mt"
      "capAgentSessionTranscriptV2 numstr six mt mi s = obj_set s ''turns'' (JArr kept)"
  | "transcriptByteLength numstr cutt > mt" "transcriptByteLength numstr kept > mt"
      "capAgentSessionTranscriptV2 numstr six mt mi s = obj_set s ''turns'' (JArr (trimItemsFifo numstr mt kept))"
  using truncate_none [of mi numstr "arr s ''turns''" six]
  by (cases "transcriptByteLength numstr cutt \<le> mt"; cases "transcriptByteLength numstr kept \<le> mt";
      cases "list_ex (\<lambda>x. jsonByteLength numstr x > mi) (items_of (arr s ''turns''))")
    (simp_all add: capAgentSessionTranscriptV2_def Let_def cutt_def kept_def not_le)

section \<open>Types\<close>

lemma typed_cut: "item_typed v \<Longrightarrow> k \<in> set item_strings \<Longrightarrow> item_typed (cut b k v)"
  by (simp add: cut_def typed_set_string)

lemma typed_cut_if: "item_typed v \<Longrightarrow> k \<in> set item_strings \<Longrightarrow> item_typed (cut_if c b k v)"
  by (simp add: cut_if_def typed_cut)

lemma typed_cut_result: "item_typed v \<Longrightarrow> item_typed (cut_result numstr b v)"
  by (simp add: cut_result_def typed_set_other)

lemma typed_cut_card:
  assumes "item_typed v"
  shows "item_typed (cut_card b v)"
proof -
  have "isDetailCard (cut b ''content'' (fld v ''card''))" if "fld (fld v ''card'') ''content'' \<noteq> JUndef"
  proof -
    have "fld v ''card'' \<noteq> JUndef" using that by (auto simp: fld_def)
    then have "isDetailCard (fld v ''card'')"
      using item_typed_fields(1) [OF assms] by (auto simp: isItem_def opt_sat_def)
    then show ?thesis by (simp add: isDetailCard_def cut_def)
  qed
  then show ?thesis using assms by (simp add: cut_card_def typed_set_card)
qed

lemma typed_drop:
  assumes "item_typed v" and "k \<in> {''arguments'', ''metadata''}"
  shows "item_typed (drop_defined k v)"
proof -
  have ne: "k \<notin> set validator_fields" "k \<notin> set item_strings" "k \<noteq> ''id''" "k \<noteq> ''type''" "k \<noteq> ''card''" "k \<noteq> ''status''"
    using assms(2) by (auto simp: validator_fields_def item_strings_def)
  then have "item_valid ty (obj_delete v k) = item_valid ty v" for ty
    by (intro item_valid_cong) (auto simp: fld_delete)
  moreover have "list_all (\<lambda>l. opt_sat is_str (fld (obj_delete v k) l)) item_strings"
    using assms(1) by (simp add: item_typed_def list_all_iff fld_delete)
  moreover have "is_record (obj_delete v k)" by (simp add: obj_delete_def is_record_def)
  ultimately show ?thesis using assms(1) ne by (simp add: drop_defined_def item_typed_def isItem_def fld_delete)
qed

lemma typed_payload:
  assumes "item_typed v" and "is_record x"
  shows "item_typed (obj_set v ''payload'' x)"
proof -
  have "\<forall>e\<in>set item_validators. snd e v \<longrightarrow> snd e (obj_set v ''payload'' x)"
    using assms(2) unfolding item_validators_def by simp
  then have "item_valid ty v \<Longrightarrow> item_valid ty (obj_set v ''payload'' x)" for ty
    by (auto simp: item_valid_def split: option.splits dest!: map_of_SomeD)
  moreover have "list_all (\<lambda>l. opt_sat is_str (fld (obj_set v ''payload'' x) l)) item_strings"
    using assms(1) by (simp add: item_typed_def item_strings_def)
  ultimately show ?thesis using assms(1) by (simp add: item_typed_def isItem_def)
qed

lemma typed_cut_fields: "item_typed v \<Longrightarrow> item_typed (cut_fields numstr b v)"
  by (simp add: cut_fields_def Let_def typed_cut typed_cut_if typed_cut_result typed_payload is_record_JObj item_strings_def)

lemma typed_truncate_item: "item_typed v \<Longrightarrow> item_typed (truncateItemToBudget numstr six b v)"
  by (simp add: truncateItemToBudget_def Let_def typed_drop typed_cut_fields typed_cut_card)

lemma typed_truncate_turn:
  assumes "turn_typed t"
  shows "turn_typed (truncate_turn numstr six b t)"
proof -
  have "list_all item_typed (map (truncateItemToBudget numstr six b) (arr t ''items''))"
    using turn_typed_fields(3) [OF assms] by (simp add: list_all_iff typed_truncate_item)
  with assms show ?thesis by (simp add: truncate_turn_def typed_update_items)
qed

lemma typed_shift: "list_all turn_typed ts \<Longrightarrow> shift_item many ts = Some us \<Longrightarrow> list_all turn_typed us"
proof (induction many ts arbitrary: us rule: shift_item.induct)
  case (2 many t ts)
  have "list_all item_typed (tl (arr t ''items''))"
    using turn_typed_fields(3) [of t] 2(2) by (cases "arr t ''items''") simp_all
  then have "turn_typed (update_items tl t)" using 2(2) by (simp add: typed_update_items)
  with 2 show ?case by (auto split: if_split_asm)
qed simp

lemma typed_trim: "list_all turn_typed ts \<Longrightarrow> list_all turn_typed (trim_loop numstr b ts)"
proof (induction numstr b ts rule: trim_loop.induct)
  case (1 numstr b ts)
  show ?case
  proof (cases "length (items_of ts) > 1 \<and> transcriptByteLength numstr ts > b")
    case True
    with 1(1) [OF True _ typed_shift [OF 1(2)]] 1(2) show ?thesis
      by (subst trim_loop.simps) (simp split: option.split)
  next
    case False
    then have "trim_loop numstr b ts = ts" by (subst trim_loop.simps) auto
    with 1(2) show ?thesis by simp
  qed
qed

lemma typed_drop_turns: "list_all turn_typed ts \<Longrightarrow> list_all turn_typed (drop_turns numstr active b ts)"
  by (induction ts) auto

section \<open>Properties\<close>

text \<open>A text over its budget is cut to the longest prefix within the budget less 48 bytes, found by binary search, followed by a
  marker that counts what is gone; for budgets of 48 bytes or more the result is within the budget.\<close>

theorem truncation_exact:
  assumes "b < encoded_length s" and "48 \<le> b" and "encoded_length s < 10 ^ 25"
  shows "(\<exists>k. truncateToBytes s b = take k s @ marker (encoded_length (drop k s)) \<and> encoded_length (take k s) \<le> b - 48 \<and>
      (\<forall>m. k < m \<and> m \<le> length s \<longrightarrow> b - 48 < encoded_length (take m s))) \<and>
    encoded_length (truncateToBytes s b) \<le> b"
proof -
  define k where "k = longest_fit (\<lambda>n. encoded_length (take n s) \<le> b - 48) 0 (length s)"
  have split: "encoded_length s = encoded_length (take k s) + encoded_length (drop k s)"
    by (metis append_take_drop_id encoded_append)
  have eq: "truncateToBytes s b = take k s @ marker (encoded_length (drop k s))"
    using assms(1) split by (simp add: truncateToBytes_def Let_def k_def)
  note p = longest_prefix [of s "b - 48", folded k_def]
  have "length (nat_to_dec (encoded_length (drop k s))) \<le> 25" using split assms(3) by (intro dec_length) simp_all
  then have "encoded_length (truncateToBytes s b) \<le> b" using p(1) assms(2) by (simp add: eq marker_length)
  with eq p(1,3) show ?thesis by blast
qed

text \<open>C37: Capping always ends, and with a transcript within its byte budget or with at most one item left; a session whose transcript
  and items are within their budgets is returned as it is.\<close>

theorem cap_meets_budget:
  fixes numstr :: "js_number \<Rightarrow> string" and six :: "nat \<Rightarrow> nat" and mt mi :: nat and s :: json
  defines "r \<equiv> capAgentSessionTranscriptV2 numstr six mt mi s"
  shows "(transcriptByteLength numstr (arr r ''turns'') \<le> mt \<or> length (items_of (arr r ''turns'')) \<le> 1) \<and>
    (transcriptByteLength numstr (arr s ''turns'') \<le> mt \<and> list_all (\<lambda>x. jsonByteLength numstr x \<le> mi) (items_of (arr s ''turns'')) \<longrightarrow> r = s)"
proof -
  have within: "\<not> list_ex (\<lambda>x. jsonByteLength numstr x > mi) xs" if "list_all (\<lambda>x. jsonByteLength numstr x \<le> mi) xs" for xs
    using that by (auto simp: list_ex_iff list_all_iff)
  show ?thesis
    by (cases rule: cap_cases [of numstr six mi s mt])
      (use within truncate_none [of mi numstr "arr s ''turns''" six] trim_loop_done in \<open>auto simp: r_def trimItemsFifo_def\<close>)
qed

text \<open>Capping keeps the tail: the items left are the last ones of the transcript, each truncated to its budget, in their order, and
  nothing but the turns of the session changes.\<close>

theorem cap_keeps_tail:
  fixes numstr :: "js_number \<Rightarrow> string" and six :: "nat \<Rightarrow> nat" and mt mi :: nat and s :: json
  defines "r \<equiv> capAgentSessionTranscriptV2 numstr six mt mi s"
  shows "(\<exists>k. items_of (arr r ''turns'') = drop k (map (truncateItemToBudget numstr six mi) (items_of (arr s ''turns'')))) \<and>
    (f = ''turns'' \<or> fld r f = fld s f)"
proof (cases rule: cap_cases [of numstr six mi s mt])
  case 1
  with truncated_items [of numstr six mi "arr s ''turns''"] show ?thesis unfolding r_def by (metis drop0)
next
  case 2
  then show ?thesis by (auto simp: r_def truncated_items fld_obj_set intro: exI [of _ 0])
next
  case 3
  obtain us where "map (truncate_turn numstr six mi) (arr s ''turns'') =
      us @ drop_turns numstr (fld (fld s ''live'') ''activeTurnId'') mt (map (truncate_turn numstr six mi) (arr s ''turns''))"
    using drop_turns_suffix by blast
  from arg_cong [OF this, of items_of] 3 show ?thesis
    by (auto simp: r_def truncated_items items_append fld_obj_set intro!: exI [of _ "length (items_of us)"])
next
  case 4
  define kept where "kept = drop_turns numstr (fld (fld s ''live'') ''activeTurnId'') mt (map (truncate_turn numstr six mi) (arr s ''turns''))"
  obtain us where "map (truncate_turn numstr six mi) (arr s ''turns'') = us @ kept"
    using drop_turns_suffix unfolding kept_def by blast
  from arg_cong [OF this, of items_of]
  have "items_of kept = drop (length (items_of us)) (map (truncateItemToBudget numstr six mi) (items_of (arr s ''turns'')))"
    by (simp add: truncated_items items_append)
  moreover obtain k where "items_of (trimItemsFifo numstr mt kept) = drop k (items_of kept)"
    using trim_loop_tail unfolding trimItemsFifo_def by (metis items_copy)
  ultimately have "items_of (trimItemsFifo numstr mt kept) =
      drop (k + length (items_of us)) (map (truncateItemToBudget numstr six mi) (items_of (arr s ''turns'')))" by simp
  with 4 show ?thesis by (auto simp: r_def kept_def [symmetric] fld_obj_set)
qed

text \<open>Capping keeps a session well-typed, so the reducer, the guards and the renderer still accept it.\<close>

theorem capped_session_stays_valid:
  assumes "session_typed s"
  shows "session_typed (capAgentSessionTranscriptV2 numstr six mt mi s) \<and> isSession (capAgentSessionTranscriptV2 numstr six mt mi s)"
proof -
  have cutt: "list_all turn_typed (map (truncate_turn numstr six mi) (arr s ''turns''))"
    using session_turns [OF assms] by (simp add: list_all_iff typed_truncate_turn)
  have copy: "list_all turn_typed (map (update_items (\<lambda>items. items)) ts)" if "list_all turn_typed ts" for ts
    using that turn_typed_fields(3) by (auto simp: list_all_iff intro!: typed_update_items)
  have "session_typed (capAgentSessionTranscriptV2 numstr six mt mi s)"
    by (cases rule: cap_cases [of numstr six mi s mt])
      (simp_all add: assms typed_turns cutt typed_drop_turns trimItemsFifo_def typed_trim copy)
  then show ?thesis by (simp add: session_typed_def)
qed

section \<open>Witnesses\<close>

definition sample_long :: string where
  "sample_long = concat (replicate 16 ''abcdef'')"

theorem truncation_exact_witness:
  "(\<exists>k. truncateToBytes sample_long 60 = take k sample_long @ marker (encoded_length (drop k sample_long)) \<and>
      encoded_length (take k sample_long) \<le> 60 - 48 \<and>
      (\<forall>m. k < m \<and> m \<le> length sample_long \<longrightarrow> 60 - 48 < encoded_length (take m sample_long))) \<and>
    encoded_length (truncateToBytes sample_long 60) \<le> 60"
proof -
  have "encoded_length sample_long = 96" by code_simp
  then show ?thesis by (intro truncation_exact) simp_all
qed

theorem cap_meets_budget_witness:
  "transcriptByteLength (\<lambda>_. []) (arr sample_session ''turns'') \<le> max_transcript_bytes \<and>
    capAgentSessionTranscriptV2 (\<lambda>_. []) (\<lambda>n. n) max_transcript_bytes max_item_bytes sample_session = sample_session"
proof -
  have "transcriptByteLength (\<lambda>_. []) (arr sample_session ''turns'') = 79" "items_of (arr sample_session ''turns'') = []" by code_simp+
  then have "transcriptByteLength (\<lambda>_. []) (arr sample_session ''turns'') \<le> max_transcript_bytes"
    "list_all (\<lambda>x. jsonByteLength (\<lambda>_. []) x \<le> max_item_bytes) (items_of (arr sample_session ''turns''))"
    by (simp_all add: max_transcript_bytes_def)
  then show ?thesis
    using cap_meets_budget [of "\<lambda>_. []" "\<lambda>n. n" max_transcript_bytes max_item_bytes sample_session] by blast
qed

theorem capped_session_stays_valid_witness:
  "isSession (capAgentSessionTranscriptV2 (\<lambda>_. []) (\<lambda>n. n) 10 10 sample_session)"
proof -
  have "session_typed sample_session" by code_simp
  then show ?thesis using capped_session_stays_valid by blast
qed

section \<open>Two notes on the comments\<close>

text \<open>The third pass also runs when the active turn is the oldest of several, and may then remove it, although the header promises that the
  active turn is never dropped.\<close>

definition two_turns :: json where
  "two_turns =
     (let item = (\<lambda>i. JObj [(''id'', JStr i), (''type'', JStr ''plan''), (''text'', JStr ''x'')]);
          turn = (\<lambda>i. JObj [(''id'', JStr i), (''items'', JArr [item i])]) in
      JObj [(''live'', JObj [(''activeTurnId'', JStr ''a'')]), (''turns'', JArr [turn ''a'', turn ''b''])])"

lemma cap_may_drop_active_turn:
  "fld (fld two_turns ''live'') ''activeTurnId'' = JStr ''a'' \<and>
    with_id (JStr ''a'') (arr two_turns ''turns'') \<noteq> None \<and>
    with_id (JStr ''a'') (arr (capAgentSessionTranscriptV2 (\<lambda>_. []) (\<lambda>n. n) 80 1000 two_turns) ''turns'') = None"
  by code_simp

text \<open>On UTF-16 code units, which a string of the language consists of, the search may stop between the two halves of a surrogate
  pair: \<open>TextEncoder\<close> takes three bytes for a lone half and four for the pair, so the text kept can end in half a character.\<close>

fun utf16_bytes :: "nat list \<Rightarrow> nat" where
  "utf16_bytes [] = 0"
| "utf16_bytes [u] = (if u < 128 then 1 else if u < 2048 then 2 else 3)"
| "utf16_bytes (u # v # us) =
     (if 55296 \<le> u \<and> u < 56320 \<and> 56320 \<le> v \<and> v < 57344 then 4 + utf16_bytes us
      else (if u < 128 then 1 else if u < 2048 then 2 else 3) + utf16_bytes (v # us))"

lemma truncation_can_split_a_pair:
  fixes s :: "nat list"
  assumes "s = [97, 55357, 56832, 98]"
  shows "take (longest_fit (\<lambda>n. utf16_bytes (take n s) \<le> 4) 0 (length s)) s = [97, 55357]"
proof -
  define fits where "fits = (\<lambda>n. utf16_bytes (take n s) \<le> 4)"
  have "fits 2" "\<not> fits 3" by (simp_all add: fits_def assms)
  then have "longest_fit fits 0 4 = longest_fit fits 2 4" "longest_fit fits 2 4 = longest_fit fits 2 2"
    by (subst longest_fit.simps, simp add: Let_def)+
  moreover have "longest_fit fits 2 2 = 2" by (subst longest_fit.simps) simp
  moreover have "length s = 4" by (simp add: assms)
  ultimately have "longest_fit fits 0 (length s) = 2" by simp
  then show ?thesis unfolding fits_def by (simp add: assms)
qed

end
