(* ===== verification/Audit_Redaction.thy ===== *)
theory Audit_Redaction
  imports Agent_Cards
begin

text \<open>
  Redaction of audit material (\<open>redactAuditValue\<close> of \<open>shared/security-audit.ts\<close>): members with a sensitive name are
  replaced, and in texts everything the pattern of secrets matches. The pattern is a regular expression; its nine
  alternatives are functions from the text at a position to the length of the match, tried in order, greedy, without
  regard to case. Redacted values are shown to hold no match.
\<close>

section \<open>The pattern\<close>

definition redacted :: string where "redacted = ''[REDACTED]''"

definition alnum_char :: "char \<Rightarrow> bool" where
  "alnum_char c \<longleftrightarrow> is_digit c \<or> (97 \<le> (of_char c :: nat) \<and> (of_char c :: nat) \<le> 122) \<or> (65 \<le> (of_char c :: nat) \<and> (of_char c :: nat) \<le> 90)"

definition word_char :: "char \<Rightarrow> bool" where
  "word_char c \<longleftrightarrow> alnum_char c \<or> c = CHR ''_''"

definition token_char :: "char \<Rightarrow> bool" where
  "token_char c \<longleftrightarrow> alnum_char c \<or> c \<in> set ''._~+/=-''"

text \<open>\<open>text\<close> at a position, and a run of characters of a class behind it.\<close>

definition ci_prefix :: "string \<Rightarrow> string \<Rightarrow> bool" where
  "ci_prefix p s \<longleftrightarrow> length p \<le> length s \<and> to_lower (take (length p) s) = p"

definition run_after :: "string \<Rightarrow> (char \<Rightarrow> bool) \<Rightarrow> (string \<Rightarrow> bool) \<Rightarrow> string \<Rightarrow> nat option" where
  "run_after p P ok s =
     (if ci_prefix p s \<and> ok (takeWhile P (drop (length p) s)) then Some (length p + length (takeWhile P (drop (length p) s))) else None)"

definition some_run :: "string \<Rightarrow> bool" where "some_run r \<longleftrightarrow> r \<noteq> []"

text \<open>\<open>bearer\s+[...]+\<close>\<close>

definition bearer_match :: "string \<Rightarrow> nat option" where
  "bearer_match s =
     (let ws = takeWhile is_ws (drop 6 s); r = takeWhile token_char (drop (6 + length ws) s) in
      if ci_prefix ''bearer'' s \<and> ws \<noteq> [] \<and> r \<noteq> [] then Some (6 + length ws + length r) else None)"

definition cookie_char :: "char \<Rightarrow> bool" where "cookie_char c \<longleftrightarrow> \<not> is_ws c \<and> c \<noteq> CHR '';''"

definition query_char :: "char \<Rightarrow> bool" where "query_char c \<longleftrightarrow> \<not> is_ws c \<and> c \<noteq> CHR ''&'' \<and> c \<noteq> CHR '';''"

definition dash_word :: "char \<Rightarrow> bool" where "dash_word c \<longleftrightarrow> word_char c \<or> c = CHR ''-''"

text \<open>A run splits at a dot with something on both sides; a run holds the given text behind its first character.\<close>

definition dotted :: "string \<Rightarrow> bool" where
  "dotted r \<longleftrightarrow> CHR ''.'' \<in> set (tl (butlast r))"

fun holds_inside :: "string \<Rightarrow> string \<Rightarrow> bool" where
  "holds_inside p [] = False"
| "holds_inside p (c # r) \<longleftrightarrow> (ci_prefix p r \<and> length p < length r) \<or> holds_inside p r"

definition first_some :: "nat option list \<Rightarrow> nat option" where
  "first_some xs = foldr (\<lambda>x y. case x of Some n \<Rightarrow> Some n | None \<Rightarrow> y) xs None"

definition query_names :: "string list" where
  "query_names = [''access_token='', ''accesstoken='', ''refresh_token='', ''refreshtoken='', ''token='']"

text \<open>The alternatives at a position; \<open>boundary\<close> says that no word character stands before it.\<close>

definition alternatives :: "bool \<Rightarrow> (string \<Rightarrow> nat option) list" where
  "alternatives boundary =
     [bearer_match, run_after ''connect.sid='' cookie_char some_run] @
     (if boundary then map (\<lambda>p. run_after p query_char some_run) query_names else []) @
     map (\<lambda>c. run_after [CHR ''g'', CHR ''h'', c, CHR ''_''] word_char some_run) ''pousr'' @
     [run_after ''sk-'' dash_word some_run,
      run_after ''relay-ohg-v1.'' token_char dotted, run_after ''relay-sac-v1.'' token_char dotted,
      run_after ''relay-'' token_char (\<lambda>r. 16 \<le> length r)] @
     (if boundary then [run_after ''pair_'' token_char some_run, run_after ''node_'' token_char (holds_inside ''.secret_'')] else [])"

definition secret_match :: "bool \<Rightarrow> string \<Rightarrow> nat option" where
  "secret_match boundary s = first_some (map (\<lambda>f. f s) (alternatives boundary))"

lemma alternative_cases:
  assumes "f \<in> set (alternatives boundary)"
  obtains "f = bearer_match"
  | "f = run_after ''connect.sid='' cookie_char some_run"
  | p where "boundary" "p \<in> set query_names" "f = run_after p query_char some_run"
  | c where "c \<in> set ''pousr''" "f = run_after [CHR ''g'', CHR ''h'', c, CHR ''_''] word_char some_run"
  | "f = run_after ''sk-'' dash_word some_run"
  | p where "p \<in> {''relay-ohg-v1.'', ''relay-sac-v1.''}" "f = run_after p token_char dotted"
  | "f = run_after ''relay-'' token_char (\<lambda>r. 16 \<le> length r)"
  | "boundary" "f = run_after ''pair_'' token_char some_run"
  | "boundary" "f = run_after ''node_'' token_char (holds_inside ''.secret_'')"
proof -
  from assms have "f = bearer_match \<or> f = run_after ''connect.sid='' cookie_char some_run \<or>
    (boundary \<and> (\<exists>p\<in>set query_names. f = run_after p query_char some_run)) \<or>
    (\<exists>c\<in>set ''pousr''. f = run_after [CHR ''g'', CHR ''h'', c, CHR ''_''] word_char some_run) \<or>
    f = run_after ''sk-'' dash_word some_run \<or> (\<exists>p\<in>{''relay-ohg-v1.'', ''relay-sac-v1.''}. f = run_after p token_char dotted) \<or>
    f = run_after ''relay-'' token_char (\<lambda>r. 16 \<le> length r) \<or> (boundary \<and> f = run_after ''pair_'' token_char some_run) \<or>
    (boundary \<and> f = run_after ''node_'' token_char (holds_inside ''.secret_''))"
    unfolding alternatives_def by (cases boundary) (simp_all, blast+)
  then show thesis using that by blast
qed

lemma ci_prefix_length: "ci_prefix p s \<Longrightarrow> length p \<le> length s"
  by (simp add: ci_prefix_def)

lemma run_after_Some: "run_after p P ok s = Some n \<Longrightarrow> ci_prefix p s \<and> length p \<le> n \<and> n \<le> length s"
proof -
  assume a: "run_after p P ok s = Some n"
  have "length (takeWhile P (drop (length p) s)) \<le> length s - length p"
    using length_takeWhile_le [of P "drop (length p) s"] by simp
  with a show ?thesis by (auto simp: run_after_def ci_prefix_def split: if_split_asm)
qed

lemma first_some_in: "first_some xs = Some n \<Longrightarrow> Some n \<in> set xs"
  by (induction xs) (auto simp: first_some_def split: option.splits)

lemma first_some_None: "first_some xs = None \<longleftrightarrow> set xs \<subseteq> {None}"
  by (induction xs) (auto simp: first_some_def split: option.splits)

lemma secret_match_Some: "secret_match b s = Some n \<Longrightarrow> \<exists>f\<in>set (alternatives b). f s = Some n"
  unfolding secret_match_def by (drule first_some_in) (auto simp: image_iff)

lemma secret_match_None: "secret_match b s = None \<longleftrightarrow> (\<forall>f\<in>set (alternatives b). f s = None)"
  unfolding secret_match_def first_some_None by auto

lemma secret_match_bounds: "secret_match b s = Some n \<Longrightarrow> 0 < n \<and> n \<le> length s"
proof -
  assume "secret_match b s = Some n"
  then obtain f where f: "f \<in> set (alternatives b)" "f s = Some n" using secret_match_Some by blast
  have "bearer_match s = Some n \<or> (\<exists>p P ok. p \<noteq> [] \<and> run_after p P ok s = Some n)"
    using f(1)
  proof (cases rule: alternative_cases)
    case (3 p)
    then have "p \<noteq> []" by (auto simp: query_names_def)
    with 3 f(2) show ?thesis by blast
  next
    case (6 p)
    then have "p \<noteq> []" by auto
    with 6 f(2) show ?thesis by blast
  qed (use f(2) in \<open>metis list.discI\<close>)+
  moreover have "0 < n \<and> n \<le> length s" if "bearer_match s = Some n"
  proof -
    define ws where "ws = takeWhile is_ws (drop 6 s)"
    have "length ws \<le> length s - 6" using length_takeWhile_le [of is_ws "drop 6 s"] by (simp add: ws_def)
    moreover have "length (takeWhile token_char (drop (6 + length ws) s)) \<le> length s - (6 + length ws)"
      using length_takeWhile_le [of token_char "drop (6 + length ws) s"] by simp
    ultimately show ?thesis
      using that by (auto simp: bearer_match_def Let_def ws_def [symmetric] ci_prefix_def split: if_split_asm)
  qed
  ultimately show ?thesis using run_after_Some by (metis length_greater_0_conv less_le_trans)
qed

text \<open>\<open>replace(SENSITIVE_TEXT_PATTERN, REDACTED)\<close>; \<open>prior\<close> is the character before the position.\<close>

function scrub :: "char option \<Rightarrow> string \<Rightarrow> string" where
  "scrub prior s =
     (case s of [] \<Rightarrow> []
      | c # rest \<Rightarrow>
          (case secret_match (case prior of None \<Rightarrow> True | Some b \<Rightarrow> \<not> word_char b) s of
             Some n \<Rightarrow> redacted @ scrub (Some (s ! (n - 1))) (drop n s)
           | None \<Rightarrow> c # scrub (Some c) rest))"
  by pat_completeness auto
termination by (relation "measure (\<lambda>(b, s). length s)") (auto dest: secret_match_bounds)

declare scrub.simps [simp del]

section \<open>Values\<close>

definition max_string_length :: nat where "max_string_length = 512"

definition redact_text :: "string \<Rightarrow> string" where
  "redact_text s =
     (let t = scrub None s in
      if length t > max_string_length then take max_string_length t @ [ellipsis] @ ''[truncated]'' else t)"

definition sensitive_key_terms :: "string list" where
  "sensitive_key_terms = [''authorization'', ''bearer'', ''confirmation_token'', ''confirmationtoken'', ''cookie'', ''credential'', ''env'',
     ''file_bytes'', ''filebytes'', ''password'', ''pair_token'', ''pairtoken'', ''secret'', ''stderr'', ''stdout'', ''terminal'',
     ''terminal_bytes'', ''terminalbytes'', ''token'', ''value'']"

text \<open>The three replacements of \<open>isSensitiveAuditKey\<close>: an underscore between a lower-case letter or digit and a capital, one for
  every run of other characters, none at the ends.\<close>

fun split_camel :: "string \<Rightarrow> string" where
  "split_camel (c # d # s) =
     (if alnum_char c \<and> \<not> is_upper c \<and> is_upper d then c # CHR ''_'' # d # split_camel s else c # split_camel (d # s))"
| "split_camel s = s"

fun underscore_runs :: "bool \<Rightarrow> string \<Rightarrow> string" where
  "underscore_runs inside [] = []"
| "underscore_runs inside (c # s) =
     (if alnum_char c then c # underscore_runs False s
      else if inside then underscore_runs True s else CHR ''_'' # underscore_runs True s)"

definition strip_underscores :: "string \<Rightarrow> string" where
  "strip_underscores s = rev (dropWhile ((=) CHR ''_'') (rev (dropWhile ((=) CHR ''_'') s)))"

fun split_on :: "char \<Rightarrow> string \<Rightarrow> string list" where
  "split_on d [] = [[]]"
| "split_on d (c # s) =
     (if c = d then [] # split_on d s else (case split_on d s of p # ps \<Rightarrow> (c # p) # ps | [] \<Rightarrow> [[c]]))"

definition isSensitiveAuditKey :: "string \<Rightarrow> bool" where
  "isSensitiveAuditKey key \<longleftrightarrow>
     (let normalized = to_lower (strip_underscores (underscore_runs False (split_camel key))) in
      normalized \<in> set sensitive_key_terms \<or> list_ex (\<lambda>p. p \<in> set sensitive_key_terms) (split_on CHR ''_'' normalized))"

text \<open>Values are trees, so no object is met twice and \<open>[Circular]\<close> does not arise.\<close>

function redactAuditValueInner :: "string option \<Rightarrow> json \<Rightarrow> json" where
  "redactAuditValueInner key v =
     (if (case key of None \<Rightarrow> False | Some k \<Rightarrow> k \<noteq> [] \<and> isSensitiveAuditKey k) then JStr redacted
      else case v of
        JStr s \<Rightarrow> JStr (redact_text s)
      | JArr xs \<Rightarrow> JArr (map (redactAuditValueInner None) xs)
      | JObj kvs \<Rightarrow> JObj (js_object (map (\<lambda>kv. (fst kv, redactAuditValueInner (Some (fst kv)) (snd kv))) (sort_key fst kvs)))
      | _ \<Rightarrow> v)"
  by pat_completeness auto
termination
proof (relation "measure (\<lambda>(k, v). size v)", goal_cases)
  case (2 key v xs x)
  then have "size x \<le> size_list size xs" by (metis size_list_estimation' order_refl)
  with 2 show ?case by simp
next
  case (3 key v kvs kv)
  then have "kv \<in> set kvs" by simp
  then have "size (snd kv) \<le> size_list (size_prod (\<lambda>_. 0) size) kvs" by (induction kvs) (auto split: prod.splits)
  with 3 show ?case by simp
qed simp

declare redactAuditValueInner.simps [simp del]

definition redactAuditValue :: "json \<Rightarrow> json" where
  "redactAuditValue v = redactAuditValueInner None v"

definition hashAuditMaterial :: "(js_number \<Rightarrow> string) \<Rightarrow> (string \<Rightarrow> string) \<Rightarrow> json \<Rightarrow> string" where
  "hashAuditMaterial numstr sha v = sha (stableStringify numstr (redactAuditValue v))"

section \<open>What is left holds no secret\<close>

definition at_boundary :: "char option \<Rightarrow> bool" where
  "at_boundary prior \<longleftrightarrow> (case prior of None \<Rightarrow> True | Some b \<Rightarrow> \<not> word_char b)"

text \<open>No alternative matches at any position.\<close>

fun secret_free :: "char option \<Rightarrow> string \<Rightarrow> bool" where
  "secret_free prior [] = True"
| "secret_free prior (c # s) \<longleftrightarrow> secret_match (at_boundary prior) (c # s) = None \<and> secret_free (Some c) s"

text \<open>The output is the input with stretches, each beginning with a letter, replaced.\<close>

inductive masked :: "string \<Rightarrow> string \<Rightarrow> bool" where
  masked_Nil: "masked [] []"
| masked_keep: "masked s t \<Longrightarrow> masked (c # s) (c # t)"
| masked_cut: "masked s t \<Longrightarrow> u \<noteq> [] \<Longrightarrow> alnum_char (hd u) \<Longrightarrow> masked (u @ s) (redacted @ t)"

lemma ci_prefix_simps [simp]:
  "ci_prefix [] s" "\<not> ci_prefix (x # p) []" "ci_prefix (x # p) (c # s) \<longleftrightarrow> lower_char c = x \<and> ci_prefix p s"
  by (auto simp: ci_prefix_def to_lower_def)

lemma run_after_None: "\<not> ci_prefix p s \<Longrightarrow> run_after p P ok s = None"
  by (simp add: run_after_def)

lemma masked_Cons: "masked s (c # t) \<Longrightarrow> c \<noteq> CHR ''['' \<Longrightarrow> \<exists>s'. s = c # s' \<and> masked s' t"
  by (erule masked.cases) (auto simp: redacted_def)

lemma masked_prefix:
  "masked s t \<Longrightarrow> k \<le> length t \<Longrightarrow> CHR ''['' \<notin> set (take k t) \<Longrightarrow> take k s = take k t \<and> k \<le> length s \<and> masked (drop k s) (drop k t)"
proof (induction k arbitrary: s t)
  case (Suc k)
  then obtain c t' where t: "t = c # t'" by (cases t) auto
  with Suc.prems have "masked s (c # t')" "c \<noteq> CHR ''[''" by auto
  then obtain s' where "s = c # s'" "masked s' t'" using masked_Cons by blast
  with Suc t show ?case by auto
qed simp

lemma masked_run:
  assumes "masked s t" and "\<not> P (CHR ''['')"
  shows "\<exists>r. takeWhile P s = takeWhile P t @ r"
  using assms(1)
proof (induction rule: masked.induct)
  case (masked_cut s t u)
  then show ?case using assms(2) by (simp add: redacted_def)
qed auto

lemma masked_first:
  assumes "masked s t" and "\<And>c. alnum_char c \<Longrightarrow> P c" and "takeWhile P t \<noteq> []"
  shows "takeWhile P s \<noteq> []"
  using assms(1,3)
proof (cases rule: masked.cases)
  case (masked_cut s' t' u)
  then show ?thesis using assms(2) by (cases u) auto
qed (auto split: if_split_asm)

lemma ci_prefix_take: "ci_prefix p t \<Longrightarrow> CHR ''['' \<notin> set p \<Longrightarrow> CHR ''['' \<notin> set (take (length p) t)"
proof (induction p arbitrary: t)
  case (Cons x p)
  then obtain c t' where "t = c # t'" by (cases t) auto
  with Cons show ?case by (auto simp: lower_char_def)
qed simp

lemma ci_prefix_masked:
  assumes "masked s t" and "ci_prefix p t" and "CHR ''['' \<notin> set p"
  shows "ci_prefix p s \<and> masked (drop (length p) s) (drop (length p) t)"
  using masked_prefix [OF assms(1) ci_prefix_length [OF assms(2)] ci_prefix_take [OF assms(2,3)]] assms(2)
  by (simp add: ci_prefix_def)

lemma run_after_masked:
  assumes "masked s t" and "run_after p P ok t \<noteq> None" and "CHR ''['' \<notin> set p" and "\<not> P (CHR ''['')" and "\<And>r r'. ok r \<Longrightarrow> ok (r @ r')"
  shows "run_after p P ok s \<noteq> None"
proof -
  have t: "ci_prefix p t" "ok (takeWhile P (drop (length p) t))" using assms(2) by (simp_all add: run_after_def split: if_split_asm)
  note s = ci_prefix_masked [OF assms(1) t(1) assms(3)]
  obtain r where "takeWhile P (drop (length p) s) = takeWhile P (drop (length p) t) @ r"
    using masked_run [OF s [THEN conjunct2], of P] assms(4) by blast
  with s t(2) assms(5) show ?thesis by (simp add: run_after_def)
qed

lemma run_after_masked_open:
  assumes "masked s t" and "run_after p P some_run t \<noteq> None" and "CHR ''['' \<notin> set p" and "\<And>c. alnum_char c \<Longrightarrow> P c"
  shows "run_after p P some_run s \<noteq> None"
proof -
  have t: "ci_prefix p t" "takeWhile P (drop (length p) t) \<noteq> []"
    using assms(2) by (simp_all add: run_after_def some_run_def split: if_split_asm)
  note s = ci_prefix_masked [OF assms(1) t(1) assms(3)]
  with masked_first [of "drop (length p) s" "drop (length p) t" P] assms(4) t(2) show ?thesis
    by (simp add: run_after_def some_run_def)
qed

lemma token_not_ws: "token_char c \<Longrightarrow> \<not> is_ws c"
  by (auto simp: token_char_def alnum_char_def is_ws_def is_digit_def Let_def)

lemma bracket: "\<not> token_char (CHR ''['')" "\<not> is_ws (CHR ''['')" "\<not> word_char (CHR ''['')" "\<not> dash_word (CHR ''['')" "\<not> word_char (CHR '']'')"
  by (simp_all add: token_char_def alnum_char_def is_ws_def is_digit_def word_char_def dash_word_def)

lemma bearer_masked:
  assumes "masked s t" and "bearer_match t \<noteq> None"
  shows "bearer_match s \<noteq> None"
proof -
  define ws where "ws = takeWhile is_ws (drop 6 t)"
  define u where "u = drop (6 + length ws) t"
  have t: "ci_prefix ''bearer'' t" "ws \<noteq> []" "takeWhile token_char u \<noteq> []"
    using assms(2) by (simp_all add: bearer_match_def Let_def ws_def u_def split: if_split_asm)
  have six: "masked (drop 6 s) (drop 6 t)" "ci_prefix ''bearer'' s"
    using ci_prefix_masked [OF assms(1) t(1)] by (simp_all add: eval_nat_numeral)
  have split: "drop 6 t = ws @ u"
    using takeWhile_dropWhile_id [of is_ws "drop 6 t"] dropWhile_eq_drop [of is_ws "drop 6 t"] by (simp add: ws_def u_def add.commute)
  obtain c u' where u: "u = c # u'" "token_char c" using t(3) by (cases u) (auto split: if_split_asm)
  have "CHR ''['' \<notin> set (take (Suc (length ws)) (drop 6 t))"
    using bracket(1,2) u(2) unfolding split u(1) by (auto simp: ws_def dest: set_takeWhileD)
  from masked_prefix [OF six(1) _ this] have s: "take (Suc (length ws)) (drop 6 s) = ws @ [c]"
    using split u(1) by simp
  then obtain v where v: "drop 6 s = ws @ c # v" by (metis append_take_drop_id append.assoc append_Cons append_Nil)
  have "\<forall>x\<in>set ws. is_ws x" by (auto simp: ws_def dest: set_takeWhileD)
  then have "takeWhile is_ws (drop 6 s) = ws" using token_not_ws [OF u(2)] by (simp add: v takeWhile_append)
  moreover have "drop (6 + length ws) s = c # v" using v by (metis add.commute append_eq_conv_conj drop_drop)
  ultimately show ?thesis using six(2) t(2) u(2) by (simp add: bearer_match_def Let_def)
qed

lemma dotted_append: "dotted r \<Longrightarrow> dotted (r @ r')"
  by (cases r; cases r' rule: rev_cases) (auto simp: dotted_def butlast_append split: if_split_asm dest: in_set_butlastD)

lemma holds_inside_append: "holds_inside p r \<Longrightarrow> holds_inside p (r @ r')"
  by (induction p r rule: holds_inside.induct) (auto simp: ci_prefix_def)

lemma cookie_alnum: "alnum_char c \<Longrightarrow> cookie_char c \<and> query_char c \<and> word_char c \<and> dash_word c \<and> token_char c"
  by (auto simp: cookie_char_def query_char_def word_char_def dash_word_def token_char_def alnum_char_def is_ws_def is_digit_def Let_def)

text \<open>A match in the output is a match in the input.\<close>

lemma secret_match_masked:
  assumes "masked s t" and "secret_match b t \<noteq> None"
  shows "secret_match b s \<noteq> None"
proof -
  note open_run = run_after_masked_open [OF assms(1)] cookie_alnum
  note closed_run = run_after_masked [OF assms(1)]
  have some: "some_run (r @ r')" if "some_run r" for r r' using that by (simp add: some_run_def)
  have q: "run_after p query_char some_run s \<noteq> None" if "p \<in> set query_names" "run_after p query_char some_run t \<noteq> None" for p
    using that(1) by (intro run_after_masked_open [OF assms(1) that(2)]) (auto simp: query_names_def cookie_alnum)
  have g: "run_after [CHR ''g'', CHR ''h'', c, CHR ''_''] word_char some_run s \<noteq> None"
    if "c \<in> set ''pousr''" "run_after [CHR ''g'', CHR ''h'', c, CHR ''_''] word_char some_run t \<noteq> None" for c
    using that(1) by (intro closed_run [OF that(2)]) (auto simp: bracket some)
  have c: "run_after ''connect.sid='' cookie_char some_run s \<noteq> None" if "run_after ''connect.sid='' cookie_char some_run t \<noteq> None"
    by (rule run_after_masked_open [OF assms(1) that]) (auto simp: cookie_alnum)
  have sk: "run_after ''sk-'' dash_word some_run s \<noteq> None" if "run_after ''sk-'' dash_word some_run t \<noteq> None"
    by (rule closed_run [OF that]) (auto simp: bracket some)
  have r1: "run_after p token_char dotted s \<noteq> None" if "p \<in> {''relay-ohg-v1.'', ''relay-sac-v1.''}" "run_after p token_char dotted t \<noteq> None" for p
    using that(1) by (intro closed_run [OF that(2)]) (auto simp: bracket dotted_append)
  have r2: "run_after ''relay-'' token_char (\<lambda>r. 16 \<le> length r) s \<noteq> None" if "run_after ''relay-'' token_char (\<lambda>r. 16 \<le> length r) t \<noteq> None"
    by (rule closed_run [OF that]) (auto simp: bracket)
  have pr: "run_after ''pair_'' token_char some_run s \<noteq> None" if "run_after ''pair_'' token_char some_run t \<noteq> None"
    by (rule closed_run [OF that]) (auto simp: bracket some)
  have nd: "run_after ''node_'' token_char (holds_inside ''.secret_'') s \<noteq> None"
    if "run_after ''node_'' token_char (holds_inside ''.secret_'') t \<noteq> None"
    by (rule closed_run [OF that]) (auto simp: bracket holds_inside_append)
  have "f s \<noteq> None" if "f \<in> set (alternatives b)" "f t \<noteq> None" for f
    using that(1)
  proof (cases rule: alternative_cases)
    case 1
    with bearer_masked [OF assms(1)] that(2) show ?thesis by blast
  next
    case 2
    with c that(2) show ?thesis by blast
  next
    case (3 p)
    with q that(2) show ?thesis by blast
  next
    case (4 c)
    with g that(2) show ?thesis by blast
  next
    case 5
    with sk that(2) show ?thesis by blast
  next
    case (6 p)
    with r1 that(2) show ?thesis by blast
  next
    case 7
    with r2 that(2) show ?thesis by blast
  next
    case 8
    with pr that(2) show ?thesis by blast
  next
    case 9
    with nd that(2) show ?thesis by blast
  qed
  with assms(2) show ?thesis unfolding secret_match_None by blast
qed

definition match_heads :: "string list" where
  "match_heads = [''bea'', ''con'', ''acc'', ''ref'', ''tok'', ''gh'', ''sk-'', ''rel'', ''pai'', ''nod'']"

lemma ci_prefix_append: "ci_prefix (p @ q) s \<Longrightarrow> ci_prefix p s"
proof (induction p arbitrary: s)
  case (Cons x p)
  then show ?case by (cases s) simp_all
qed simp

lemma run_after_head: "run_after (p @ q) P ok s = Some n \<Longrightarrow> ci_prefix p s"
  using run_after_Some ci_prefix_append by blast

text \<open>A match begins with one of few letter sequences, ends before a character that is no word character, and only alternatives
  without \<open>\b\<close> begin behind a word character.\<close>

lemma match_head:
  assumes "secret_match b s \<noteq> None"
  shows "\<exists>h\<in>set match_heads. ci_prefix h s"
proof -
  from assms obtain f where f: "f \<in> set (alternatives b)" "f s \<noteq> None" unfolding secret_match_None by blast
  have run: "ci_prefix h s" if "f = run_after (h @ q) P ok" for h q P ok
    using f(2) run_after_head that by blast
  have heads: "\<And>p. p \<in> set query_names \<Longrightarrow> \<exists>h\<in>set match_heads. \<exists>q. p = h @ q"
    "\<exists>h\<in>set match_heads. \<exists>q. ''connect.sid='' = h @ q" "\<exists>h\<in>set match_heads. \<exists>q. ''sk-'' = h @ q"
    "\<exists>h\<in>set match_heads. \<exists>q. ''relay-'' = h @ q" "\<exists>h\<in>set match_heads. \<exists>q. ''pair_'' = h @ q"
    "\<exists>h\<in>set match_heads. \<exists>q. ''node_'' = h @ q" "\<exists>h\<in>set match_heads. \<exists>q. ''bearer'' = h @ q"
    "\<And>p. p \<in> {''relay-ohg-v1.'', ''relay-sac-v1.''} \<Longrightarrow> \<exists>h\<in>set match_heads. \<exists>q. p = h @ q"
    "\<And>c. \<exists>h\<in>set match_heads. \<exists>q. [CHR ''g'', CHR ''h'', c, CHR ''_''] = h @ q"
    by (auto simp: match_heads_def query_names_def)
  show ?thesis
    using f(1)
  proof (cases rule: alternative_cases)
    case 1
    then have "ci_prefix ''bearer'' s" using f(2) by (simp add: bearer_match_def Let_def split: if_split_asm)
    then show ?thesis using heads(7) ci_prefix_append by metis
  next
    case (3 p)
    then show ?thesis using heads(1) run by metis
  next
    case (4 c)
    then show ?thesis using heads(9) run by metis
  next
    case (6 p)
    then show ?thesis using heads(8) run by metis
  qed (use heads run in metis)+
qed

lemma lower_letter:
  assumes "lower_char c \<in> set ''bcatrgspn''"
  shows "alnum_char c"
proof (rule ccontr)
  assume "\<not> alnum_char c"
  then have other: "\<not> (65 \<le> (of_char c :: nat) \<and> (of_char c :: nat) \<le> 90)" by (simp add: alnum_char_def)
  have "(of_char (lower_char c) :: nat) \<in> of_char ` set ''bcatrgspn''" using assms by (rule imageI)
  then have small: "(of_char (lower_char c) :: nat) \<le> 122" by auto
  have "lower_char c = c"
  proof (cases "192 \<le> (of_char c :: nat) \<and> (of_char c :: nat) \<le> 222 \<and> of_char c \<noteq> (215 :: nat)")
    case True
    then have "(of_char (lower_char c) :: nat) = (of_char c + 32) mod 256" by (simp add: lower_char_def Let_def)
    with True small show ?thesis by simp
  next
    case False
    with other show ?thesis by (auto simp: lower_char_def Let_def)
  qed
  with assms \<open>\<not> alnum_char c\<close> show False by (auto simp: alnum_char_def)
qed

lemma match_head_letter:
  assumes "secret_match b s \<noteq> None"
  shows "s \<noteq> [] \<and> alnum_char (hd s)"
proof -
  obtain h where "h \<in> set match_heads" "ci_prefix h s" using match_head [OF assms] by blast
  then have "s \<noteq> [] \<and> lower_char (hd s) \<in> set ''bcatrgspn''" by (cases s) (auto simp: match_heads_def)
  then show ?thesis using lower_letter by blast
qed

lemma run_after_end:
  assumes "run_after p P ok s = Some n" and "n < length s" and "\<And>c. word_char c \<Longrightarrow> P c"
  shows "\<not> word_char (s ! n)"
proof -
  define d where "d = drop (length p) s"
  have p: "length p \<le> length s" and n: "n = length p + length (takeWhile P d)"
    using assms(1) by (auto simp: run_after_def d_def ci_prefix_def split: if_split_asm)
  then have "length (takeWhile P d) < length d" using assms(2) by (simp add: d_def)
  then have "\<not> P (d ! length (takeWhile P d))" by (rule nth_length_takeWhile)
  moreover have "d ! length (takeWhile P d) = s ! n" using p by (simp add: d_def n)
  ultimately show ?thesis using assms(3) by auto
qed

lemma word_classes: "word_char c \<Longrightarrow> cookie_char c \<and> query_char c \<and> dash_word c \<and> token_char c"
  using cookie_alnum [of c] by (auto simp: word_char_def cookie_char_def query_char_def dash_word_def token_char_def is_ws_def)

lemma match_end:
  assumes "secret_match b s = Some n" and "n < length s"
  shows "\<not> word_char (s ! n)"
proof -
  from secret_match_Some [OF assms(1)] obtain f where f: "f \<in> set (alternatives b)" "f s = Some n" by blast
  have "bearer_match s = Some n \<or> (\<exists>p P ok. run_after p P ok s = Some n \<and> (\<forall>c. word_char c \<longrightarrow> P c))"
    using f(1) by (cases rule: alternative_cases) (use f(2) word_classes in metis)+
  then show ?thesis
  proof
    assume a: "bearer_match s = Some n"
    define ws where "ws = takeWhile is_ws (drop 6 s)"
    define d where "d = drop (6 + length ws) s"
    have n: "n = 6 + length ws + length (takeWhile token_char d)"
      using a by (simp add: bearer_match_def Let_def ws_def d_def split: if_split_asm)
    then have "length (takeWhile token_char d) < length d" using assms(2) by (simp add: d_def)
    then have "\<not> token_char (d ! length (takeWhile token_char d))" by (rule nth_length_takeWhile)
    moreover have "d ! length (takeWhile token_char d) = s ! n" using assms(2) by (simp add: d_def n)
    ultimately show ?thesis using word_classes by auto
  qed (use run_after_end [OF _ assms(2)] in blast)
qed

lemma no_boundary_needed:
  assumes "secret_match False s = None" and "s = [] \<or> \<not> word_char (hd s)"
  shows "secret_match b s = None"
proof (rule ccontr)
  assume a: "secret_match b s \<noteq> None"
  then have "s \<noteq> []" "word_char (hd s)" using match_head_letter by (auto simp: word_char_def)
  with assms(2) show False by simp
qed

lemma scrub_masked: "masked s (scrub b s)"
proof (induction b s rule: scrub.induct)
  case (1 b s)
  show ?case
  proof (cases s)
    case (Cons c rest)
    show ?thesis
    proof (cases "secret_match (at_boundary b) s")
      case None
      then have "scrub b s = c # scrub (Some c) rest"
        by (subst scrub.simps) (simp add: Cons at_boundary_def)
      with 1(1) [OF Cons None [unfolded at_boundary_def]] show ?thesis by (simp add: Cons masked_keep)
    next
      case (Some n)
      then have "scrub b s = redacted @ scrub (Some (s ! (n - 1))) (drop n s)"
        by (subst scrub.simps) (simp add: Cons at_boundary_def)
      moreover have "masked (drop n s) (scrub (Some (s ! (n - 1))) (drop n s))"
        using 1(2) [OF Cons Some [unfolded at_boundary_def]] by simp
      moreover have "take n s \<noteq> []" "alnum_char (hd (take n s))"
        using secret_match_bounds [OF Some] match_head_letter [of "at_boundary b" s] Some by (auto simp: Cons)
      ultimately show ?thesis using masked_cut [of "drop n s" _ "take n s"] by simp
    qed
  qed (simp add: scrub.simps masked_Nil)
qed

lemma lower_redacted:
  "map lower_char ''[REDACT]'' = ''[redact]''"
  by code_simp

lemma redacted_inside:
  assumes "secret_free (Some (CHR '']'')) t"
  shows "secret_free b (redacted @ t)"
proof -
  have none: "secret_match x s = None" if "\<And>h. h \<in> set match_heads \<Longrightarrow> \<not> ci_prefix h s" for x s
    using match_head [of x s] that by blast
  have "secret_match x (CHR ''['' # CHR ''R'' # u) = None" "secret_match x (CHR ''R'' # CHR ''E'' # CHR ''D'' # u) = None"
    "secret_match x (CHR ''E'' # CHR ''D'' # u) = None" "secret_match x (CHR ''D'' # CHR ''A'' # u) = None"
    "secret_match x (CHR ''A'' # CHR ''C'' # CHR ''T'' # u) = None" "secret_match x (CHR ''C'' # CHR ''T'' # u) = None"
    "secret_match x (CHR ''T'' # CHR ''E'' # u) = None" "secret_match x (CHR ''D'' # CHR '']'' # u) = None"
    "secret_match x (CHR '']'' # u) = None" for x u
    using lower_redacted by (intro none; auto simp: match_heads_def)+
  with assms show ?thesis by (simp add: redacted_def)
qed

text \<open>\<open>b'\<close> is what stands before the position in the output.\<close>

lemma scrub_free:
  "b' = b \<or> b' = Some (CHR '']'') \<and> (s = [] \<or> \<not> word_char (hd s)) \<Longrightarrow> secret_free b' (scrub b s)"
proof (induction b s arbitrary: b' rule: scrub.induct)
  case (1 b s b')
  show ?case
  proof (cases s)
    case (Cons c rest)
    show ?thesis
    proof (cases "secret_match (at_boundary b) s")
      case None
      then have eq: "scrub b s = c # scrub (Some c) rest"
        by (subst scrub.simps) (simp add: Cons at_boundary_def)
      have "secret_free (Some c) (scrub (Some c) rest)" using 1(1) [OF Cons None [unfolded at_boundary_def]] by simp
      moreover have "secret_match (at_boundary b') s = None"
        using None 1(3) no_boundary_needed [of s] by (cases "at_boundary b") (auto simp: Cons at_boundary_def bracket)
      then have "secret_match (at_boundary b') (scrub b s) = None"
        using secret_match_masked [OF scrub_masked] by blast
      ultimately show ?thesis by (simp add: eq)
    next
      case (Some n)
      then have eq: "scrub b s = redacted @ scrub (Some (s ! (n - 1))) (drop n s)"
        by (subst scrub.simps) (simp add: Cons at_boundary_def)
      have "drop n s = [] \<or> \<not> word_char (hd (drop n s))"
        using match_end [OF Some] by (cases "n < length s") (auto simp: hd_drop_conv_nth)
      then have "secret_free (Some (CHR '']'')) (scrub (Some (s ! (n - 1))) (drop n s))"
        using 1(2) [OF Cons Some [unfolded at_boundary_def]] by simp
      then show ?thesis unfolding eq by (rule redacted_inside)
    qed
  qed (simp add: scrub.simps)
qed

text \<open>A redacted value: every text is free of matches, or the cut of such a text; sensitive members hold the replacement.\<close>

definition clean_text :: "string \<Rightarrow> bool" where
  "clean_text s \<longleftrightarrow> secret_free None s \<or> (\<exists>t. secret_free None t \<and> max_string_length < length t \<and> s = take max_string_length t @ [ellipsis] @ ''[truncated]'')"

fun clean_value :: "json \<Rightarrow> bool" where
  "clean_value (JStr s) \<longleftrightarrow> clean_text s"
| "clean_value (JArr xs) \<longleftrightarrow> (\<forall>x\<in>set xs. clean_value x)"
| "clean_value (JObj kvs) \<longleftrightarrow> (\<forall>kv\<in>set kvs. (fst kv \<noteq> [] \<and> isSensitiveAuditKey (fst kv) \<longrightarrow> snd kv = JStr redacted) \<and> clean_value (snd kv))"
| "clean_value v = True"

lemma scrubbed_text: "secret_free None (scrub None s)"
  by (rule scrub_free) simp

lemma redact_text_clean: "clean_text (redact_text s)"
  using scrubbed_text [of s] by (auto simp: clean_text_def redact_text_def Let_def)

lemma redacted_clean: "clean_text redacted"
proof -
  have "secret_free None (redacted @ [])" by (rule redacted_inside) simp
  then show ?thesis by (simp add: clean_text_def)
qed

lemma set_js_object: "set (js_object kvs) = set kvs"
  by (auto simp: js_object_def)

lemma redacted_value_clean: "clean_value (redactAuditValueInner key v)"
proof (induction key v rule: redactAuditValueInner.induct)
  case (1 key v)
  show ?case
  proof (cases "case key of None \<Rightarrow> False | Some k \<Rightarrow> k \<noteq> [] \<and> isSensitiveAuditKey k")
    case True
    then have "redactAuditValueInner key v = JStr redacted" by (subst redactAuditValueInner.simps) simp
    then show ?thesis by (simp add: redacted_clean)
  next
    case False
    note rest = redactAuditValueInner.simps [of key v, unfolded if_not_P [OF False]]
    show ?thesis
    proof (cases v)
      case (JArr xs)
      have "clean_value (redactAuditValueInner None x)" if "x \<in> set xs" for x
        using 1(1) [OF False JArr] that by blast
      with JArr rest show ?thesis by simp
    next
      case (JObj kvs)
      have "clean_value (redactAuditValueInner (Some (fst kv)) (snd kv))" if "kv \<in> set kvs" for kv
        using 1(2) [OF False JObj] that by simp
      moreover have "redactAuditValueInner (Some k) w = JStr redacted" if "k \<noteq> []" "isSensitiveAuditKey k" for k w
        using that by (subst redactAuditValueInner.simps) simp
      ultimately show ?thesis using JObj rest by (auto simp: set_js_object)
    next
      case (JStr s)
      with rest show ?thesis by (simp add: redact_text_clean)
    qed (use rest in simp_all)
  qed
qed

text \<open>A text with nothing to hide is kept as it is.\<close>

lemma scrub_nothing: "secret_free prior s \<Longrightarrow> scrub prior s = s"
proof (induction s arbitrary: prior)
  case (Cons c s)
  then show ?case by (subst scrub.simps) (simp add: at_boundary_def)
qed (simp add: scrub.simps)

lemma harmless_text_kept: "secret_free None s \<Longrightarrow> length s \<le> max_string_length \<Longrightarrow> redact_text s = s"
  by (simp add: redact_text_def scrub_nothing Let_def)

text \<open>C9: Redaction leaves no secret: whatever the value, in its redacted form every text, at any depth, is free of everything the
  pattern of secrets matches (bearer tokens, session cookies, token parameters, GitHub and API keys, relay grants and credentials,
  pairing tokens, node secrets), or is the first 512 characters of such a text with the mark of truncation, and every member with
  a sensitive name holds the replacement. Masking one secret never uncovers another.\<close>

theorem audit_redaction_is_clean:
  "clean_value (redactAuditValue v)"
  unfolding redactAuditValue_def by (rule redacted_value_clean)

end
