(* ===== verification/Audit_Entry.thy ===== *)
theory Audit_Entry
  imports Audit_Redaction Control_Engine Security_Policy
begin

text \<open>
  Entries of the security audit log (\<open>shared/security-audit.ts\<close>): their normalisation from what a caller supplies, the hash over
  everything they hold, and the entries made of the events of the control engine. The clock, random ids, SHA-256 and the
  rendering of numbers are arguments.
\<close>

section \<open>Entries\<close>

definition security_audit_event_types :: "string list" where
  "security_audit_event_types = [''grant'', ''denial'', ''challenge'', ''approval'', ''expiry'', ''revocation'', ''rotation'',
     ''failed_redemption'', ''same_session_approval_attempt'', ''bridge_event'']"

record audit_peer =
  pe_kind :: string
  pe_nodeId :: "string option"
  pe_credentialId :: "string option"
  pe_displayName :: "string option"
  pe_principalHash :: "string option"

record audit_node =
  an_nodeId :: "string option"
  an_trustTier :: "string option"

record audit_input =
  ai_eventId :: "string option"
  ai_timestamp :: "string option"
  ai_eventType :: string
  ai_decision :: string
  ai_reasonCode :: string
  ai_peer :: audit_peer
  ai_node :: "audit_node option"
  ai_sessionId :: "string option"
  ai_action :: string
  ai_target :: "string option"
  ai_scope :: json
  ai_params :: json
  ai_requiredBits :: "string list option"
  ai_grantedBits :: "string list option"
  ai_deniedBits :: "string list option"
  ai_aclRef :: "string option"
  ai_policyVersion :: "string option"
  ai_sourceDiagnostics :: json
  ai_correlationId :: "string option"

text \<open>An entry as it is read from a row, too: the nested parts are values.\<close>

record audit_entry =
  ae_eventId :: string
  ae_timestamp :: string
  ae_sequence :: int
  ae_schemaVersion :: int
  ae_eventType :: string
  ae_decision :: string
  ae_reasonCode :: string
  ae_peer :: json
  ae_node :: json
  ae_sessionId :: "string option"
  ae_intent :: json
  ae_scopeHash :: string
  ae_paramsHash :: string
  ae_requiredBits :: json
  ae_grantedBits :: json
  ae_deniedBits :: json
  ae_aclRef :: "string option"
  ae_policyVersion :: "string option"
  ae_sourceDiagnostics :: json
  ae_correlationId :: string
  ae_prevHash :: "string option"
  ae_entryHash :: string

definition entry_members :: "audit_entry \<Rightarrow> (string \<times> json) list" where
  "entry_members e =
     [(''eventId'', JStr (ae_eventId e)), (''timestamp'', JStr (ae_timestamp e)), (''sequence'', JNum (IntNum (ae_sequence e))),
      (''schemaVersion'', JNum (IntNum (ae_schemaVersion e))), (''eventType'', JStr (ae_eventType e)),
      (''decision'', JStr (ae_decision e)), (''reasonCode'', JStr (ae_reasonCode e)), (''peer'', ae_peer e), (''node'', ae_node e),
      (''sessionId'', str_or_undef (ae_sessionId e)), (''intent'', ae_intent e), (''scopeHash'', JStr (ae_scopeHash e)),
      (''paramsHash'', JStr (ae_paramsHash e)), (''requiredBits'', ae_requiredBits e), (''grantedBits'', ae_grantedBits e),
      (''deniedBits'', ae_deniedBits e), (''aclRef'', str_or_undef (ae_aclRef e)),
      (''policyVersion'', str_or_undef (ae_policyVersion e)), (''sourceDiagnostics'', ae_sourceDiagnostics e),
      (''correlationId'', JStr (ae_correlationId e)), (''prevHash'', or_null_str (ae_prevHash e))]"

text \<open>Everything but the hash itself is hashed.\<close>

definition entryHashPayload :: "(js_number \<Rightarrow> string) \<Rightarrow> audit_entry \<Rightarrow> string" where
  "entryHashPayload numstr e = stableStringify numstr (JObj (entry_members e))"

definition computeSecurityAuditEntryHash :: "(js_number \<Rightarrow> string) \<Rightarrow> (string \<Rightarrow> string) \<Rightarrow> audit_entry \<Rightarrow> string" where
  "computeSecurityAuditEntryHash numstr sha e = sha (entryHashPayload numstr e)"

definition verifySecurityAuditEntryHash :: "(js_number \<Rightarrow> string) \<Rightarrow> (string \<Rightarrow> string) \<Rightarrow> audit_entry \<Rightarrow> bool" where
  "verifySecurityAuditEntryHash numstr sha e \<longleftrightarrow> computeSecurityAuditEntryHash numstr sha e = ae_entryHash e"

definition normalizePeer :: "audit_peer \<Rightarrow> json" where
  "normalizePeer p = js_obj [(''kind'', JStr (pe_kind p)), (''nodeId'', str_or_undef (truthy (pe_nodeId p))),
     (''credentialId'', str_or_undef (truthy (pe_credentialId p))), (''displayName'', str_or_undef (truthy (pe_displayName p))),
     (''principalHash'', str_or_undef (truthy (pe_principalHash p)))]"

definition normalizeNode :: "audit_node option \<Rightarrow> json" where
  "normalizeNode n = (case n of None \<Rightarrow> JObj []
     | Some x \<Rightarrow> js_obj [(''nodeId'', str_or_undef (truthy (an_nodeId x))), (''trustTier'', str_or_undef (truthy (an_trustTier x)))])"

definition bits_json :: "string list option \<Rightarrow> json" where
  "bits_json b = JArr (map JStr (case b of None \<Rightarrow> [] | Some xs \<Rightarrow> xs))"

definition or_value :: "string option \<Rightarrow> string \<Rightarrow> string" where
  "or_value a d = (case a of Some s \<Rightarrow> s | None \<Rightarrow> d)"

datatype audit_error = UnknownEventType | CheckpointMissing | CheckpointMismatch | ConstraintFailed | BadCursor

text \<open>\<open>ids\<close> are the random ids of the event and of the correlation.\<close>

definition normalizeSecurityAuditEntry ::
  "(js_number \<Rightarrow> string) \<Rightarrow> (string \<Rightarrow> string) \<Rightarrow> string \<Rightarrow> string \<times> string \<Rightarrow> audit_input \<Rightarrow> int \<Rightarrow> string option \<Rightarrow>
   audit_error + audit_entry" where
  "normalizeSecurityAuditEntry numstr sha now ids i seq prev =
     (if ai_eventType i \<notin> set security_audit_event_types then Inl UnknownEventType
      else let base =
        \<lparr>ae_eventId = or_value (ai_eventId i) (fst ids), ae_timestamp = or_value (ai_timestamp i) now, ae_sequence = seq,
         ae_schemaVersion = 1, ae_eventType = ai_eventType i, ae_decision = ai_decision i, ae_reasonCode = ai_reasonCode i,
         ae_peer = normalizePeer (ai_peer i), ae_node = normalizeNode (ai_node i), ae_sessionId = truthy (ai_sessionId i),
         ae_intent = js_obj [(''action'', JStr (ai_action i)), (''target'', str_or_undef (truthy (ai_target i)))],
         ae_scopeHash = hashAuditMaterial numstr sha (js_nullish (ai_scope i) JNull),
         ae_paramsHash = hashAuditMaterial numstr sha (js_nullish (ai_params i) JNull),
         ae_requiredBits = bits_json (ai_requiredBits i), ae_grantedBits = bits_json (ai_grantedBits i),
         ae_deniedBits = bits_json (ai_deniedBits i), ae_aclRef = truthy (ai_aclRef i), ae_policyVersion = truthy (ai_policyVersion i),
         ae_sourceDiagnostics = (if js_truthy (ai_sourceDiagnostics i) then ai_sourceDiagnostics i else JUndef),
         ae_correlationId = or_value (ai_correlationId i) (snd ids), ae_prevHash = prev, ae_entryHash = []\<rparr>
      in Inr (base\<lparr>ae_entryHash := computeSecurityAuditEntryHash numstr sha base\<rparr>))"

text \<open>What browser clients see of a peer.\<close>

definition redactPeerForBrowser :: "json \<Rightarrow> json" where
  "redactPeerForBrowser p = obj_delete p ''credentialId''"

section \<open>Entries of control events\<close>

record mode_event =
  me_eventId :: string
  me_occurredAt :: string
  me_identity :: tab_identity
  me_actor :: control_actor
  me_reason :: "string option"
  me_previous :: control_mode
  me_mode :: control_mode

datatype tab_control_event = TabModeChanged mode_event | TabIntervention intervention_event

definition hash_some :: "(string \<Rightarrow> string) \<Rightarrow> string option \<Rightarrow> string option" where
  "hash_some sha a = map_option sha (truthy a)"

definition auditPeerFromControlActor :: "(string \<Rightarrow> string) \<Rightarrow> control_actor \<Rightarrow> audit_peer" where
  "auditPeerFromControlActor sha a =
     \<lparr>pe_kind = (case ca_kind a of CaHuman \<Rightarrow> ''user'' | CaAgent \<Rightarrow> if is_truthy (ca_node a) then ''node'' else ''system''
        | CaSystem \<Rightarrow> ''system''),
      pe_nodeId = truthy (ca_node a), pe_credentialId = None, pe_displayName = truthy (ca_label a),
      pe_principalHash = hash_some sha (ca_id a)\<rparr>"

definition controlEventAuditScope :: "tab_identity \<Rightarrow> json" where
  "controlEventAuditScope t = JObj
     [(''nodeId'', JStr (ti_nodeId t)), (''sessionId'', JStr (ti_sessionId t)), (''globalSessionId'', or_null_str (ti_globalSessionId t)),
      (''cwd'', JStr (ti_cwd t)), (''repoPath'', or_null_str (ti_repoPath t)),
      (''worktreePath'', or_null_str (case ti_worktreePath t of None \<Rightarrow> None | Some w \<Rightarrow> w))]"

definition controlActorAuditSummary :: "(string \<Rightarrow> string) \<Rightarrow> control_actor \<Rightarrow> json" where
  "controlActorAuditSummary sha a = JObj
     [(''kind'', JStr (control_kind_name (ca_kind a))), (''idHash'', or_null_str (hash_some sha (ca_id a))),
      (''displayName'', or_null_str (ca_label a)), (''nodeId'', or_null_str (ca_node a)), (''sessionId'', or_null_str (ca_session a))]"

fun intervention_kind_name :: "intervention_kind \<Rightarrow> string" where
  "intervention_kind_name HumanInput = ''human-input''"
| "intervention_kind_name SupervisorSendText = ''supervisor-send-text''"
| "intervention_kind_name SupervisorSendKey = ''supervisor-send-key''"
| "intervention_kind_name SupervisorSubmit = ''supervisor-submit''"

fun intervention_source_name :: "intervention_source \<Rightarrow> string" where
  "intervention_source_name PtyInput = ''pty-input''"
| "intervention_source_name SupervisorAction = ''supervisor-action''"

fun event_type_name :: "tab_control_event \<Rightarrow> string" where
  "event_type_name (TabModeChanged e) = ''tab.mode-changed''"
| "event_type_name (TabIntervention e) = ''tab.intervention''"

fun event_parts :: "tab_control_event \<Rightarrow> string \<times> string \<times> tab_identity \<times> control_actor \<times> string option" where
  "event_parts (TabModeChanged e) = (me_eventId e, me_occurredAt e, me_identity e, me_actor e, me_reason e)"
| "event_parts (TabIntervention e) = (ie_eventId e, ie_occurredAt e, ie_identity e, ie_actor e, Some (ie_reason e))"

fun event_details :: "tab_control_event \<Rightarrow> (string \<times> json) list" where
  "event_details (TabModeChanged e) =
     [(''modeBefore'', JStr (control_mode_name (me_previous e))), (''modeAfter'', JStr (control_mode_name (me_mode e)))]"
| "event_details (TabIntervention e) =
     (let r = ie_intervention e; x = iv_redaction r in
      [(''interventionId'', JStr (iv_id r)), (''interventionKind'', JStr (intervention_kind_name (iv_kind r))),
       (''interventionSource'', JStr (intervention_source_name (iv_source r))),
       (''payload'', JObj [(''hashSha256'', JStr (rx_hashSha256 x)), (''byteCount'', JNum (IntNum (int (rx_byteCount x)))),
          (''charCount'', JNum (IntNum (int (rx_charCount x)))), (''lineCount'', JNum (IntNum (int (rx_lineCount x)))),
          (''classes'', JArr (map (JStr \<circ> class_name) (rx_classes x))), (''redacted'', JBool (rx_redacted x))]),
       (''modeBefore'', JStr (control_mode_name (iv_modeBefore r))),
       (''modeAfter'', JStr (control_mode_name (case iv_modeAfter r of Some m \<Rightarrow> m | None \<Rightarrow> ie_controlMode e))),
       (''acked'', JBool (iv_ackedAt r \<noteq> None))])"

definition controlEventAuditParams :: "(string \<Rightarrow> string) \<Rightarrow> tab_control_event \<Rightarrow> json" where
  "controlEventAuditParams sha ev =
     (case event_parts ev of (eventId, occurredAt, identity, actor, reason) \<Rightarrow>
        JObj ([(''sourceEventId'', JStr eventId), (''kind'', JStr (event_type_name ev)), (''reason'', or_null_str reason),
           (''author'', controlActorAuditSummary sha actor)] @ event_details ev))"

fun controlEventRequiredBits :: "tab_control_event \<Rightarrow> string list" where
  "controlEventRequiredBits (TabModeChanged e) = []"
| "controlEventRequiredBits (TabIntervention e) =
     (case iv_kind (ie_intervention e) of
        SupervisorSendText \<Rightarrow> [''session:attach'', ''tab:intervention:send-text'']
      | SupervisorSendKey \<Rightarrow> [''session:attach'', ''tab:intervention:send-key'']
      | SupervisorSubmit \<Rightarrow> [''session:attach'', ''tab:intervention:submit'']
      | HumanInput \<Rightarrow> [])"

definition securityAuditEntryForTabControlEvent :: "(string \<Rightarrow> string) \<Rightarrow> tab_control_event \<Rightarrow> audit_input" where
  "securityAuditEntryForTabControlEvent sha ev =
     (case event_parts ev of (eventId, occurredAt, identity, actor, reason) \<Rightarrow>
      \<lparr>ai_eventId = Some eventId, ai_timestamp = Some occurredAt, ai_eventType = ''bridge_event'', ai_decision = ''recorded'',
       ai_reasonCode = (case ev of TabModeChanged _ \<Rightarrow> ''TAB_CONTROL_MODE_CHANGED'' | TabIntervention _ \<Rightarrow> ''TAB_INTERVENTION_RECORDED''),
       ai_peer = auditPeerFromControlActor sha actor, ai_node = Some \<lparr>an_nodeId = Some (ti_nodeId identity), an_trustTier = None\<rparr>,
       ai_sessionId = Some (ti_sessionId identity), ai_action = event_type_name ev,
       ai_target = Some (or_value (ti_globalSessionId identity) (ti_sessionId identity)),
       ai_scope = controlEventAuditScope identity, ai_params = controlEventAuditParams sha ev,
       ai_requiredBits = Some (controlEventRequiredBits ev), ai_grantedBits = Some (controlEventRequiredBits ev), ai_deniedBits = Some [],
       ai_aclRef = None, ai_policyVersion = Some relay_security_policy_version, ai_sourceDiagnostics = JUndef,
       ai_correlationId = Some eventId\<rparr>)"

end
