(* ===== verification/Audit_Chain.thy ===== *)
theory Audit_Chain
  imports Audit_Entry
begin

text \<open>
  The hash chain of audit entries kept in a database (\<open>server/security-audit-log.ts\<close>), with its checkpoint, paging and
  verification. Rows are in the order of their sequence numbers, the primary key; a column of JSON is what \<open>JSON.parse\<close> makes of
  its text, \<open>None\<close> for a text that is none, so writing \<open>JSON.stringify(v)\<close> stores \<open>denull v\<close>. A log written through
  \<open>append\<close> is shown to verify.
\<close>

section \<open>The database\<close>

record audit_row =
  ar_sequence :: int
  ar_event_id :: string
  ar_occurred_at :: string
  ar_schema_version :: int
  ar_event_type :: string
  ar_decision :: string
  ar_reason_code :: string
  ar_peer_json :: "json option"
  ar_node_json :: "json option"
  ar_session_id :: "string option"
  ar_intent_json :: "json option"
  ar_scope_hash :: string
  ar_params_hash :: string
  ar_required_bits_json :: "json option"
  ar_granted_bits_json :: "json option"
  ar_denied_bits_json :: "json option"
  ar_acl_ref :: "string option"
  ar_policy_version :: "string option"
  ar_correlation_id :: string
  ar_prev_hash :: "string option"
  ar_entry_hash :: string

record audit_db =
  adb_rows :: "audit_row list"
  adb_checkpoint :: "(int \<times> string option) option"

definition row_of_entry :: "audit_entry \<Rightarrow> audit_row" where
  "row_of_entry e =
     \<lparr>ar_sequence = ae_sequence e, ar_event_id = ae_eventId e, ar_occurred_at = ae_timestamp e, ar_schema_version = ae_schemaVersion e,
      ar_event_type = ae_eventType e, ar_decision = ae_decision e, ar_reason_code = ae_reasonCode e,
      ar_peer_json = Some (denull (ae_peer e)), ar_node_json = Some (denull (ae_node e)), ar_session_id = ae_sessionId e,
      ar_intent_json = Some (denull (ae_intent e)), ar_scope_hash = ae_scopeHash e, ar_params_hash = ae_paramsHash e,
      ar_required_bits_json = Some (denull (ae_requiredBits e)), ar_granted_bits_json = Some (denull (ae_grantedBits e)),
      ar_denied_bits_json = Some (denull (ae_deniedBits e)), ar_acl_ref = ae_aclRef e, ar_policy_version = ae_policyVersion e,
      ar_correlation_id = ae_correlationId e, ar_prev_hash = ae_prevHash e, ar_entry_hash = ae_entryHash e\<rparr>"

definition rowToEntry :: "audit_row \<Rightarrow> audit_entry option" where
  "rowToEntry r =
     (case (ar_peer_json r, ar_node_json r, ar_intent_json r, ar_required_bits_json r, ar_granted_bits_json r, ar_denied_bits_json r) of
        (Some peer, Some node, Some intent, Some required, Some granted, Some denied) \<Rightarrow> Some
          \<lparr>ae_eventId = ar_event_id r, ae_timestamp = ar_occurred_at r, ae_sequence = ar_sequence r,
           ae_schemaVersion = ar_schema_version r, ae_eventType = ar_event_type r, ae_decision = ar_decision r,
           ae_reasonCode = ar_reason_code r, ae_peer = peer, ae_node = node, ae_sessionId = truthy (ar_session_id r),
           ae_intent = intent, ae_scopeHash = ar_scope_hash r, ae_paramsHash = ar_params_hash r, ae_requiredBits = required,
           ae_grantedBits = granted, ae_deniedBits = denied, ae_aclRef = truthy (ar_acl_ref r),
           ae_policyVersion = truthy (ar_policy_version r), ae_sourceDiagnostics = JUndef, ae_correlationId = ar_correlation_id r,
           ae_prevHash = ar_prev_hash r, ae_entryHash = ar_entry_hash r\<rparr>
      | _ \<Rightarrow> None)"

text \<open>The last row, and the checkpoint made when there is none.\<close>

definition audit_tail :: "audit_db \<Rightarrow> int \<times> string option" where
  "audit_tail db = (if adb_rows db = [] then (0, None) else (ar_sequence (last (adb_rows db)), Some (ar_entry_hash (last (adb_rows db)))))"

definition ensureSecurityAuditCheckpoint :: "audit_db \<Rightarrow> audit_db" where
  "ensureSecurityAuditCheckpoint db =
     (case adb_checkpoint db of Some _ \<Rightarrow> db | None \<Rightarrow> db\<lparr>adb_checkpoint := Some (audit_tail db)\<rparr>)"

definition assertCheckpointMatchesTail :: "audit_db \<Rightarrow> audit_error + unit" where
  "assertCheckpointMatchesTail db =
     (case adb_checkpoint db of None \<Rightarrow> Inl CheckpointMissing
      | Some c \<Rightarrow> if c = audit_tail db then Inr () else Inl CheckpointMismatch)"

text \<open>The trigger behind an insertion moves the checkpoint when the new row follows it.\<close>

definition checkpoint_after_insert :: "audit_row \<Rightarrow> int \<times> string option \<Rightarrow> int \<times> string option" where
  "checkpoint_after_insert r c =
     (if fst c = ar_sequence r - 1 \<and> snd c = ar_prev_hash r then (ar_sequence r, Some (ar_entry_hash r)) else c)"

definition insert_audit_row :: "audit_db \<Rightarrow> audit_row \<Rightarrow> audit_error + audit_db" where
  "insert_audit_row db r =
     (if ar_event_id r \<in> ar_event_id ` set (adb_rows db) \<or> ar_sequence r \<in> ar_sequence ` set (adb_rows db) then Inl ConstraintFailed
      else Inr \<lparr>adb_rows = insort_key ar_sequence r (adb_rows db),
        adb_checkpoint = map_option (checkpoint_after_insert r) (adb_checkpoint db)\<rparr>)"

text \<open>A transaction: nothing is changed when a step throws.\<close>

definition audit_append ::
  "(js_number \<Rightarrow> string) \<Rightarrow> (string \<Rightarrow> string) \<Rightarrow> string \<Rightarrow> string \<times> string \<Rightarrow> audit_db \<Rightarrow> audit_input \<Rightarrow>
   audit_error + (audit_db \<times> audit_entry)" where
  "audit_append numstr sha now ids db i =
     (case assertCheckpointMatchesTail db of Inl e \<Rightarrow> Inl e
      | Inr _ \<Rightarrow>
        case normalizeSecurityAuditEntry numstr sha now ids i (if adb_rows db = [] then 1 else ar_sequence (last (adb_rows db)) + 1)
               (snd (audit_tail db)) of Inl e \<Rightarrow> Inl e
        | Inr entry \<Rightarrow> case insert_audit_row db (row_of_entry entry) of Inl e \<Rightarrow> Inl e | Inr db1 \<Rightarrow> Inr (db1, entry))"

definition audit_head :: "audit_db \<Rightarrow> int \<times> string option" where
  "audit_head db = (case adb_checkpoint db of None \<Rightarrow> (0, None) | Some c \<Rightarrow> c)"

text \<open>A page of entries from the newest; \<open>cursor\<close> is the sequence number to go on below.\<close>

definition somes :: "'a option list \<Rightarrow> 'a list" where
  "somes xs = map the (filter (\<lambda>x. x \<noteq> None) xs)"

definition listBefore :: "audit_db \<Rightarrow> int option \<Rightarrow> int \<Rightarrow> audit_error + (audit_entry list \<times> int option)" where
  "listBefore db cursor limit =
     (let capped = max 1 (min (if limit = 0 then 50 else limit) 200);
          candidates = (case cursor of None \<Rightarrow> rev (adb_rows db)
            | Some c \<Rightarrow> if c = 0 then rev (adb_rows db) else rev (filter (\<lambda>r. ar_sequence r < c) (adb_rows db)));
          rows = somes (map rowToEntry (take (nat capped) candidates))
      in if (case cursor of Some c \<Rightarrow> c < 0 | None \<Rightarrow> False) then Inl BadCursor
         else Inr (rows, if rows = [] then None else Some (ae_sequence (last rows))))"

section \<open>Verification\<close>

datatype break_reason = StorageCorrupt | MalformedRow | SequenceGap | PrevHashMismatch | EntryHashMismatch | TailCheckpointMismatch

record audit_break =
  ab_sequence :: int
  ab_eventId :: "string option"
  ab_reason :: break_reason
  ab_expected :: json
  ab_actual :: json

record audit_verification =
  av_ok :: bool
  av_entriesVerified :: int
  av_lastHash :: "string option"
  av_break :: "audit_break option"

definition broken_at :: "int \<Rightarrow> string option \<Rightarrow> audit_break \<Rightarrow> audit_verification" where
  "broken_at n h b = \<lparr>av_ok = False, av_entriesVerified = n, av_lastHash = h, av_break = Some b\<rparr>"

definition storageCorruptBreak :: "string \<Rightarrow> audit_verification" where
  "storageCorruptBreak message =
     broken_at 0 None \<lparr>ab_sequence = 0, ab_eventId = None, ab_reason = StorageCorrupt, ab_expected = JUndef, ab_actual = JStr message\<rparr>"

definition verify_tail :: "int \<times> string option \<Rightarrow> string option \<Rightarrow> int \<Rightarrow> audit_verification" where
  "verify_tail checkpoint prev n =
     (if fst checkpoint \<noteq> n then broken_at n prev \<lparr>ab_sequence = n + 1, ab_eventId = None, ab_reason = TailCheckpointMismatch,
        ab_expected = JNum (IntNum (fst checkpoint)), ab_actual = JNum (IntNum n)\<rparr>
      else if snd checkpoint \<noteq> prev then broken_at n prev \<lparr>ab_sequence = n, ab_eventId = None, ab_reason = TailCheckpointMismatch,
        ab_expected = or_null_str (snd checkpoint), ab_actual = or_null_str prev\<rparr>
      else \<lparr>av_ok = True, av_entriesVerified = n, av_lastHash = prev, av_break = None\<rparr>)"

fun verifyAuditRows ::
  "(js_number \<Rightarrow> string) \<Rightarrow> (string \<Rightarrow> string) \<Rightarrow> int \<times> string option \<Rightarrow> int \<Rightarrow> string option \<Rightarrow> int \<Rightarrow> audit_row list \<Rightarrow>
   audit_verification" where
  "verifyAuditRows numstr sha checkpoint expected prev n [] = verify_tail checkpoint prev n"
| "verifyAuditRows numstr sha checkpoint expected prev n (row # rows) =
     (if ar_sequence row \<noteq> expected then broken_at n prev \<lparr>ab_sequence = expected, ab_eventId = Some (ar_event_id row),
        ab_reason = SequenceGap, ab_expected = JNum (IntNum expected), ab_actual = JNum (IntNum (ar_sequence row))\<rparr>
      else case rowToEntry row of
        None \<Rightarrow> broken_at n prev \<lparr>ab_sequence = ar_sequence row, ab_eventId = Some (ar_event_id row), ab_reason = MalformedRow,
          ab_expected = JUndef, ab_actual = JUndef\<rparr>
      | Some entry \<Rightarrow>
          if ae_prevHash entry \<noteq> prev then broken_at n prev \<lparr>ab_sequence = ae_sequence entry, ab_eventId = Some (ae_eventId entry),
            ab_reason = PrevHashMismatch, ab_expected = or_null_str prev, ab_actual = or_null_str (ae_prevHash entry)\<rparr>
          else if \<not> verifySecurityAuditEntryHash numstr sha entry then broken_at n prev \<lparr>ab_sequence = ae_sequence entry,
            ab_eventId = Some (ae_eventId entry), ab_reason = EntryHashMismatch,
            ab_expected = JStr (computeSecurityAuditEntryHash numstr sha entry), ab_actual = JStr (ae_entryHash entry)\<rparr>
          else verifyAuditRows numstr sha checkpoint (expected + 1) (Some (ae_entryHash entry)) (n + 1) rows)"

text \<open>\<open>integrity\<close> is what SQLite's integrity check answers.\<close>

definition verifySecurityAuditDatabase :: "(js_number \<Rightarrow> string) \<Rightarrow> (string \<Rightarrow> string) \<Rightarrow> string \<Rightarrow> audit_db \<Rightarrow> audit_verification" where
  "verifySecurityAuditDatabase numstr sha integrity db =
     (if integrity \<noteq> ''ok'' then storageCorruptBreak integrity
      else case adb_checkpoint db of None \<Rightarrow> storageCorruptBreak ''missing audit checkpoint''
      | Some c \<Rightarrow> verifyAuditRows numstr sha c 1 None 0 (adb_rows db))"

section \<open>A verified log\<close>

text \<open>What verification checks of the rows, and the hash the chain ends with.\<close>

fun chained :: "(js_number \<Rightarrow> string) \<Rightarrow> (string \<Rightarrow> string) \<Rightarrow> int \<Rightarrow> string option \<Rightarrow> audit_row list \<Rightarrow> bool" where
  "chained numstr sha expected prev [] = True"
| "chained numstr sha expected prev (row # rows) =
     (case rowToEntry row of None \<Rightarrow> False
      | Some e \<Rightarrow> ae_sequence e = expected \<and> ae_prevHash e = prev \<and> verifySecurityAuditEntryHash numstr sha e \<and>
          chained numstr sha (expected + 1) (Some (ae_entryHash e)) rows)"

definition chain_head :: "string option \<Rightarrow> audit_row list \<Rightarrow> string option" where
  "chain_head prev rows = (if rows = [] then prev else Some (ar_entry_hash (last rows)))"

lemma row_entry:
  assumes "rowToEntry r = Some e"
  shows "ae_sequence e = ar_sequence r" "ae_entryHash e = ar_entry_hash r" "ae_prevHash e = ar_prev_hash r" "ae_eventId e = ar_event_id r"
  using assms by (auto simp: rowToEntry_def split: option.splits)

lemma verify_tail_ok: "av_ok (verify_tail c prev n) \<longleftrightarrow> c = (n, prev)"
  by (cases c) (simp add: verify_tail_def broken_at_def)

lemma broken_not_ok [simp]: "\<not> av_ok (broken_at n h b)"
  by (simp add: broken_at_def)

lemma verify_rows_ok:
  "av_ok (verifyAuditRows numstr sha c expected prev n rows) \<longleftrightarrow>
    chained numstr sha expected prev rows \<and> c = (n + int (length rows), chain_head prev rows)"
proof (induction rows arbitrary: expected prev n)
  case Nil
  then show ?case by (simp add: verify_tail_ok chain_head_def)
next
  case (Cons r rows)
  show ?case
  proof (cases "rowToEntry r")
    case (Some e)
    show ?thesis
      using Cons [of "expected + 1" "Some (ae_entryHash e)" "n + 1"] row_entry [OF Some]
      by (auto simp: Some chain_head_def algebra_simps)
  qed simp
qed

lemma verify_rows_result:
  "av_ok (verifyAuditRows numstr sha c expected prev n rows) \<Longrightarrow>
    verifyAuditRows numstr sha c expected prev n rows =
      \<lparr>av_ok = True, av_entriesVerified = n + int (length rows), av_lastHash = chain_head prev rows, av_break = None\<rparr>"
proof (induction rows arbitrary: expected prev n)
  case Nil
  then have "c = (n, prev)" by (simp add: verify_tail_ok)
  then show ?case by (simp add: verify_tail_def chain_head_def)
next
  case (Cons r rows)
  then obtain e where e: "rowToEntry r = Some e" by (cases "rowToEntry r") (auto split: if_splits)
  with Cons.prems have "av_ok (verifyAuditRows numstr sha c (expected + 1) (Some (ae_entryHash e)) (n + 1) rows)"
    by (auto split: if_splits)
  from Cons.IH [OF this] Cons.prems show ?case
    using row_entry [OF e] by (auto simp: e chain_head_def split: if_splits)
qed

lemma chained_snoc:
  "chained numstr sha expected prev (rows @ [r]) \<longleftrightarrow>
    chained numstr sha expected prev rows \<and> chained numstr sha (expected + int (length rows)) (chain_head prev rows) [r]"
proof (induction rows arbitrary: expected prev)
  case (Cons q rows)
  show ?case
  proof (cases "rowToEntry q")
    case (Some e)
    show ?thesis
      using Cons [of "expected + 1" "Some (ae_entryHash e)"] row_entry [OF Some]
      by (auto simp: Some chain_head_def algebra_simps simp del: chained.simps(2)) (simp_all add: Some algebra_simps)
  qed simp
qed (simp add: chain_head_def)

lemma chained_sequences:
  "chained numstr sha expected prev rows \<Longrightarrow> map ar_sequence rows = map (\<lambda>i. expected + int i) [0..<length rows]"
proof (induction rows arbitrary: expected prev)
  case (Cons r rows)
  from Cons.prems obtain e where e: "rowToEntry r = Some e" "ae_sequence e = expected"
    "chained numstr sha (expected + 1) (Some (ae_entryHash e)) rows"
    by (auto split: option.splits)
  have "map ar_sequence rows = map (\<lambda>i. expected + 1 + int i) [0..<length rows]" by (rule Cons.IH [OF e(3)])
  moreover have "map (\<lambda>i. expected + int i) [0..<Suc (length rows)] = expected # map (\<lambda>i. expected + 1 + int i) [0..<length rows]"
    by (simp only: upt_conv_Cons map_Suc_upt [symmetric]) (simp add: o_def add.assoc)
  ultimately show ?case using e row_entry(1) [OF e(1)] by simp
qed simp

section \<open>Appending\<close>

lemma truthy_truthy [simp]: "truthy (truthy a) = truthy a"
  by (simp add: truthy_def split: option.split)

lemma denull_str [simp]: "denull (str_or_undef a) = (case a of None \<Rightarrow> JNull | Some s \<Rightarrow> JStr s)"
  by (simp add: str_or_undef_def split: option.split)

lemma str_undef [simp]: "str_or_undef a = JUndef \<longleftrightarrow> a = None"
  by (simp add: str_or_undef_def split: option.split)

definition text_members :: "(string \<times> json) list \<Rightarrow> bool" where
  "text_members kvs \<longleftrightarrow> (\<forall>kv\<in>set kvs. snd kv = JUndef \<or> (\<exists>s. snd kv = JStr s))"

lemma text_members_simps [simp]:
  "text_members []" "text_members ((k, str_or_undef a) # kvs) = text_members kvs" "text_members ((k, JStr s) # kvs) = text_members kvs"
  by (auto simp: text_members_def str_or_undef_def split: option.split)

lemma denull_js_obj: "text_members kvs \<Longrightarrow> denull (js_obj kvs) = js_obj kvs"
  by (induction kvs) (auto simp: js_obj_def text_members_def)

lemma denull_peer: "denull (normalizePeer p) = normalizePeer p"
  by (simp add: normalizePeer_def denull_js_obj)

lemma denull_node: "denull (normalizeNode n) = normalizeNode n"
  by (simp add: normalizeNode_def denull_js_obj split: option.split)

lemma denull_bits: "denull (bits_json b) = bits_json b"
  by (simp add: bits_json_def)

lemma normalized_entry:
  assumes "normalizeSecurityAuditEntry numstr sha now ids i seq prev = Inr e"
  shows "ai_eventType i \<in> set security_audit_event_types" and "ae_sequence e = seq" and "ae_prevHash e = prev"
    and "ae_eventId e = or_value (ai_eventId i) (fst ids)"
    and "ae_entryHash e = computeSecurityAuditEntryHash numstr sha e"
    and "ae_sourceDiagnostics e = (if js_truthy (ai_sourceDiagnostics i) then ai_sourceDiagnostics i else JUndef)"
    and "rowToEntry (row_of_entry e) = Some (e\<lparr>ae_sourceDiagnostics := JUndef\<rparr>)"
  using assms
  by (auto simp: normalizeSecurityAuditEntry_def Let_def rowToEntry_def row_of_entry_def denull_peer denull_node denull_bits denull_js_obj
      computeSecurityAuditEntryHash_def entryHashPayload_def entry_members_def split: if_split_asm)

definition log_inv :: "(js_number \<Rightarrow> string) \<Rightarrow> (string \<Rightarrow> string) \<Rightarrow> audit_db \<Rightarrow> bool" where
  "log_inv numstr sha db \<longleftrightarrow> chained numstr sha 1 None (adb_rows db) \<and>
     adb_checkpoint db = Some (int (length (adb_rows db)), chain_head None (adb_rows db))"

lemma chained_last:
  assumes "chained numstr sha 1 None rows"
  shows "rows \<noteq> [] \<Longrightarrow> ar_sequence (last rows) = int (length rows)"
    and "sorted (map ar_sequence rows)" and "\<And>r. r \<in> set rows \<Longrightarrow> ar_sequence r \<le> int (length rows)"
proof -
  note s = chained_sequences [OF assms]
  have nth: "ar_sequence (rows ! i) = 1 + int i" if "i < length rows" for i
    using arg_cong [OF s, of "\<lambda>xs. xs ! i"] that by simp
  show "rows \<noteq> [] \<Longrightarrow> ar_sequence (last rows) = int (length rows)" by (simp add: last_conv_nth nth of_nat_diff Suc_leI)
  show "sorted (map ar_sequence rows)" by (simp add: s sorted_iff_nth_mono)
  show "ar_sequence r \<le> int (length rows)" if "r \<in> set rows" for r
    using that nth by (fastforce simp: in_set_conv_nth)
qed

lemma log_tail: "log_inv numstr sha db \<Longrightarrow> audit_tail db = (int (length (adb_rows db)), chain_head None (adb_rows db))"
  using chained_last(1) by (auto simp: log_inv_def audit_tail_def chain_head_def)

lemma insort_last: "(\<And>x. x \<in> set xs \<Longrightarrow> f x < f y) \<Longrightarrow> insort_key f y xs = xs @ [y]"
proof (induction xs)
  case (Cons x xs)
  then have "\<not> f y \<le> f x" by (simp add: not_le)
  with Cons show ?case by simp
qed simp

text \<open>On a log that verifies, an entry of a known type with a new id is appended behind the last, and nothing else can go wrong.\<close>

lemma append_exact:
  assumes "log_inv numstr sha db"
  shows "audit_append numstr sha now ids db i =
    (case normalizeSecurityAuditEntry numstr sha now ids i (int (length (adb_rows db)) + 1) (chain_head None (adb_rows db)) of
       Inl e \<Rightarrow> Inl e
     | Inr e \<Rightarrow> if ae_eventId e \<in> ar_event_id ` set (adb_rows db) then Inl ConstraintFailed
         else Inr (\<lparr>adb_rows = adb_rows db @ [row_of_entry e],
           adb_checkpoint = Some (int (length (adb_rows db)) + 1, Some (ae_entryHash e))\<rparr>, e))"
proof -
  have c: "chained numstr sha 1 None (adb_rows db)" using assms by (simp add: log_inv_def)
  have seq: "(if adb_rows db = [] then 1 else ar_sequence (last (adb_rows db)) + 1) = int (length (adb_rows db)) + 1"
    using chained_last(1) [OF c] by simp
  have ok: "assertCheckpointMatchesTail db = Inr ()"
    using assms log_tail [OF assms] by (simp add: assertCheckpointMatchesTail_def log_inv_def)
  note below = chained_last(3) [OF c]
  have "insert_audit_row db (row_of_entry e) =
      (if ae_eventId e \<in> ar_event_id ` set (adb_rows db) then Inl ConstraintFailed
       else Inr \<lparr>adb_rows = adb_rows db @ [row_of_entry e],
         adb_checkpoint = Some (int (length (adb_rows db)) + 1, Some (ae_entryHash e))\<rparr>)"
    if "ae_sequence e = int (length (adb_rows db)) + 1" "ae_prevHash e = chain_head None (adb_rows db)" for e
  proof -
    have r: "ar_sequence (row_of_entry e) = int (length (adb_rows db)) + 1" "ar_event_id (row_of_entry e) = ae_eventId e"
      "ar_prev_hash (row_of_entry e) = chain_head None (adb_rows db)" "ar_entry_hash (row_of_entry e) = ae_entryHash e"
      using that by (simp_all add: row_of_entry_def)
    have "ar_sequence (row_of_entry e) \<notin> ar_sequence ` set (adb_rows db)" using below r(1) by fastforce
    moreover have "insort_key ar_sequence (row_of_entry e) (adb_rows db) = adb_rows db @ [row_of_entry e]"
      using below r(1) by (intro insort_last) fastforce
    ultimately show ?thesis
      using assms by (simp add: insert_audit_row_def r(2) log_inv_def checkpoint_after_insert_def r)
  qed
  then show ?thesis
    using normalized_entry(2,3) log_tail [OF assms]
    by (auto simp: audit_append_def ok seq split: sum.split)
qed

lemma append_keeps:
  assumes "log_inv numstr sha db" and "audit_append numstr sha now ids db i = Inr (db', e)" and "\<not> js_truthy (ai_sourceDiagnostics i)"
  shows "log_inv numstr sha db' \<and> adb_rows db' = adb_rows db @ [row_of_entry e] \<and> rowToEntry (row_of_entry e) = Some e"
proof -
  from assms(1,2) have n: "normalizeSecurityAuditEntry numstr sha now ids i (int (length (adb_rows db)) + 1) (chain_head None (adb_rows db)) = Inr e"
    and db': "db' = \<lparr>adb_rows = adb_rows db @ [row_of_entry e], adb_checkpoint = Some (int (length (adb_rows db)) + 1, Some (ae_entryHash e))\<rparr>"
    by (auto simp: append_exact split: sum.split_asm if_split_asm)
  have "e\<lparr>ae_sourceDiagnostics := JUndef\<rparr> = e" using normalized_entry(6) [OF n] assms(3) by simp
  then have reads: "rowToEntry (row_of_entry e) = Some e" using normalized_entry(7) [OF n] by simp
  have "ar_entry_hash (row_of_entry e) = ae_entryHash e" by (simp add: row_of_entry_def)
  with reads normalized_entry(2,3,5) [OF n] assms(1) show ?thesis
    by (simp add: log_inv_def db' chained_snoc verifySecurityAuditEntryHash_def chain_head_def)
qed

text \<open>A run of appends, with the entries they returned; a call that throws changes nothing.\<close>

type_synonym append_call = "string \<times> (string \<times> string) \<times> audit_input"

definition audit_call ::
  "(js_number \<Rightarrow> string) \<Rightarrow> (string \<Rightarrow> string) \<Rightarrow> audit_db \<times> audit_entry list \<Rightarrow> append_call \<Rightarrow> audit_db \<times> audit_entry list" where
  "audit_call numstr sha st c = (case audit_append numstr sha (fst c) (fst (snd c)) (fst st) (snd (snd c)) of
     Inl _ \<Rightarrow> st | Inr (db, e) \<Rightarrow> (db, snd st @ [e]))"

definition fresh_log :: audit_db where
  "fresh_log = ensureSecurityAuditCheckpoint \<lparr>adb_rows = [], adb_checkpoint = None\<rparr>"

definition audit_run :: "(js_number \<Rightarrow> string) \<Rightarrow> (string \<Rightarrow> string) \<Rightarrow> append_call list \<Rightarrow> audit_db \<times> audit_entry list" where
  "audit_run numstr sha cs = foldl (audit_call numstr sha) (fresh_log, []) cs"

definition plain_call :: "append_call \<Rightarrow> bool" where
  "plain_call c \<longleftrightarrow> \<not> js_truthy (ai_sourceDiagnostics (snd (snd c)))"

lemma audit_run_inv:
  assumes "list_all plain_call cs"
  shows "log_inv numstr sha (fst (audit_run numstr sha cs)) \<and>
    map rowToEntry (adb_rows (fst (audit_run numstr sha cs))) = map Some (snd (audit_run numstr sha cs))"
  using assms
proof (induction cs rule: rev_induct)
  case Nil
  then show ?case
    by (simp add: audit_run_def fresh_log_def ensureSecurityAuditCheckpoint_def audit_tail_def log_inv_def chain_head_def)
next
  case (snoc c cs)
  obtain db es where run: "audit_run numstr sha cs = (db, es)" by force
  have step: "audit_run numstr sha (cs @ [c]) = audit_call numstr sha (db, es) c"
    using run by (simp add: audit_run_def)
  from snoc run have inv: "log_inv numstr sha db" "map rowToEntry (adb_rows db) = map Some es" and plain: "plain_call c" by auto
  show ?case
  proof (cases "audit_append numstr sha (fst c) (fst (snd c)) db (snd (snd c))")
    case (Inl e)
    with inv show ?thesis by (simp add: step audit_call_def)
  next
    case (Inr r)
    obtain db1 e where r: "r = (db1, e)" by force
    with append_keeps [OF inv(1)] Inr plain have "log_inv numstr sha db1" "adb_rows db1 = adb_rows db @ [row_of_entry e]"
      "rowToEntry (row_of_entry e) = Some e" by (auto simp: plain_call_def)
    with Inr r inv(2) show ?thesis by (simp add: step audit_call_def)
  qed
qed

text \<open>C8: A log written only through \<open>append\<close> always verifies: after any calls whose inputs carry no source diagnostics, whatever
  clock and ids they see, verification answers with the number of rows and the hash of the last one, reading the rows back gives
  exactly the entries the calls returned, in order, and the next call can only fail for an unknown event type or an event id
  that is taken.\<close>

theorem audit_log_stays_verifiable:
  assumes "list_all plain_call cs" and "audit_run numstr sha cs = (db, es)"
  shows "verifySecurityAuditDatabase numstr sha ''ok'' db =
      \<lparr>av_ok = True, av_entriesVerified = int (length es), av_lastHash = (if es = [] then None else Some (ae_entryHash (last es))),
       av_break = None\<rparr> \<and>
    map rowToEntry (adb_rows db) = map Some es \<and>
    (if ai_eventType i \<notin> set security_audit_event_types then audit_append numstr sha now ids db i = Inl UnknownEventType
     else if or_value (ai_eventId i) (fst ids) \<in> ae_eventId ` set es then audit_append numstr sha now ids db i = Inl ConstraintFailed
     else (\<exists>db' e. audit_append numstr sha now ids db i = Inr (db', e) \<and> ae_eventId e = or_value (ai_eventId i) (fst ids) \<and>
       ae_sequence e = int (length es) + 1))"
proof -
  have inv: "log_inv numstr sha db" and rows: "map rowToEntry (adb_rows db) = map Some es"
    using audit_run_inv [OF assms(1), of numstr sha] assms(2) by simp_all
  have len: "length (adb_rows db) = length es" using rows by (metis length_map)
  have es: "es = map (\<lambda>r. the (rowToEntry r)) (adb_rows db)"
    using arg_cong [OF rows, of "map the"] by (simp add: o_def)
  have "ar_event_id r = ae_eventId (the (rowToEntry r))" if r: "r \<in> set (adb_rows db)" for r
  proof -
    have "rowToEntry r \<in> set (map rowToEntry (adb_rows db))" using r by simp
    then obtain e where "rowToEntry r = Some e" unfolding rows by auto
    with row_entry(4) show ?thesis by simp
  qed
  then have ids: "ar_event_id ` set (adb_rows db) = ae_eventId ` set es"
    by (simp add: es image_image)
  have ok: "av_ok (verifyAuditRows numstr sha (int (length es), chain_head None (adb_rows db)) 1 None 0 (adb_rows db))"
    using inv len by (simp add: verify_rows_ok log_inv_def)
  have head: "chain_head None (adb_rows db) = (if es = [] then None else Some (ae_entryHash (last es)))"
  proof (cases "es = []")
    case False
    with len have ne: "adb_rows db \<noteq> []" by auto
    have "rowToEntry (last (adb_rows db)) = Some (last es)"
      using arg_cong [OF rows, of last] ne False by (simp add: last_map)
    with False ne row_entry(2) show ?thesis by (simp add: chain_head_def)
  qed (use len in \<open>simp add: chain_head_def\<close>)
  have v: "verifySecurityAuditDatabase numstr sha ''ok'' db =
      \<lparr>av_ok = True, av_entriesVerified = int (length es), av_lastHash = chain_head None (adb_rows db), av_break = None\<rparr>"
    using verify_rows_result [OF ok] inv len by (simp add: verifySecurityAuditDatabase_def log_inv_def)
  show ?thesis
    unfolding v head rows append_exact [OF inv] ids len
    by (auto simp: normalizeSecurityAuditEntry_def Let_def)
qed

definition sample_input :: audit_input where
  "sample_input = \<lparr>ai_eventId = Some ''e1'', ai_timestamp = None, ai_eventType = ''denial'', ai_decision = ''deny'', ai_reasonCode = ''R'',
     ai_peer = \<lparr>pe_kind = ''node'', pe_nodeId = Some ''n1'', pe_credentialId = None, pe_displayName = None, pe_principalHash = None\<rparr>,
     ai_node = None, ai_sessionId = Some [], ai_action = ''x'', ai_target = None, ai_scope = JUndef, ai_params = JUndef,
     ai_requiredBits = Some [''session:read''], ai_grantedBits = None, ai_deniedBits = None, ai_aclRef = None,
     ai_policyVersion = None, ai_sourceDiagnostics = JUndef, ai_correlationId = None\<rparr>"

definition sample_calls :: "append_call list" where
  "sample_calls = [(''t1'', (''u1'', ''u2''), sample_input), (''t2'', (''u3'', ''u4''), sample_input\<lparr>ai_eventId := None\<rparr>)]"

lemma sample_calls_plain: "list_all plain_call sample_calls"
  by (simp add: sample_calls_def plain_call_def sample_input_def)

theorem audit_log_stays_verifiable_witness:
  "av_ok (verifySecurityAuditDatabase sample_numstr id ''ok'' (fst (audit_run sample_numstr id sample_calls)))"
  using audit_log_stays_verifiable [OF sample_calls_plain surjective_pairing] by simp

text \<open>Every event of the control engine can be appended once, whatever it says, and nothing of what was typed but its hash and counts
  reaches the log: two interventions that differ in the preview alone make the same entry.\<close>

lemma control_events_are_recorded:
  assumes "log_inv numstr sha db" and "fst (event_parts ev) \<notin> ar_event_id ` set (adb_rows db)"
  shows "\<exists>db' e. audit_append numstr sha now ids db (securityAuditEntryForTabControlEvent sha ev) = Inr (db', e) \<and>
    log_inv numstr sha db' \<and> ae_eventId e = fst (event_parts ev) \<and> rowToEntry (last (adb_rows db')) = Some e"
proof -
  obtain eventId occurredAt identity actor reason where p: "event_parts ev = (eventId, occurredAt, identity, actor, reason)"
    by (cases "event_parts ev")
  let ?i = "securityAuditEntryForTabControlEvent sha ev"
  have i: "ai_eventType ?i = ''bridge_event''" "ai_eventId ?i = Some eventId" "\<not> js_truthy (ai_sourceDiagnostics ?i)"
    by (simp_all add: securityAuditEntryForTabControlEvent_def p)
  then obtain e where n: "normalizeSecurityAuditEntry numstr sha now ids ?i (int (length (adb_rows db)) + 1) (chain_head None (adb_rows db)) = Inr e"
    by (auto simp: normalizeSecurityAuditEntry_def security_audit_event_types_def Let_def)
  have "ae_eventId e = eventId" using normalized_entry(4) [OF n] i(2) by (simp add: or_value_def)
  with n assms p obtain db' where a: "audit_append numstr sha now ids db ?i = Inr (db', e)" by (simp add: append_exact)
  from append_keeps [OF assms(1) this i(3)] \<open>ae_eventId e = eventId\<close> a p show ?thesis by auto
qed

lemma preview_is_not_recorded:
  "securityAuditEntryForTabControlEvent sha (TabIntervention (e\<lparr>ie_intervention := (ie_intervention e)\<lparr>iv_payloadPreview := p\<rparr>\<rparr>)) =
    securityAuditEntryForTabControlEvent sha (TabIntervention e)"
  by (simp add: securityAuditEntryForTabControlEvent_def controlEventAuditParams_def Let_def split: option.split)

end
