(* ===== verification/Audit_Evidence.thy ===== *)
theory Audit_Evidence
  imports Audit_Chain
begin

text \<open>
  What a verified audit log is evidence of: two logs with the same head hold the same entries, following the cursors reads all of
  them, and what can break the chain or end a listing without anyone changing the log.
\<close>

section \<open>Tamper evidence\<close>

text \<open>Two entries that say the same: the nested values up to the order of members.\<close>

definition same_entry :: "audit_entry \<Rightarrow> audit_entry \<Rightarrow> bool" where
  "same_entry e f \<longleftrightarrow> e\<lparr>ae_peer := canon (ae_peer e), ae_node := canon (ae_node e), ae_intent := canon (ae_intent e),
       ae_requiredBits := canon (ae_requiredBits e), ae_grantedBits := canon (ae_grantedBits e), ae_deniedBits := canon (ae_deniedBits e)\<rparr> =
     f\<lparr>ae_peer := canon (ae_peer f), ae_node := canon (ae_node f), ae_intent := canon (ae_intent f),
       ae_requiredBits := canon (ae_requiredBits f), ae_grantedBits := canon (ae_grantedBits f), ae_deniedBits := canon (ae_deniedBits f)\<rparr>"

lemma distinct_entry_members: "distinct (map fst (entry_members e))"
  by (simp add: entry_members_def)

lemma entry_member:
  assumes "num_printer numstr"
    and "stableStringify numstr (JObj (entry_members e)) = stableStringify numstr (JObj (entry_members f))"
  shows "map_option canon (map_of (defined_members (entry_members e)) k) = map_option canon (map_of (defined_members (entry_members f)) k)"
  using assms canon_objects_eq [OF distinct_entry_members distinct_entry_members] by (simp add: stable_eq)

lemma member_entry:
  "member (entry_members e) ''eventId'' = JStr (ae_eventId e)" "member (entry_members e) ''timestamp'' = JStr (ae_timestamp e)"
  "member (entry_members e) ''sequence'' = JNum (IntNum (ae_sequence e))"
  "member (entry_members e) ''schemaVersion'' = JNum (IntNum (ae_schemaVersion e))"
  "member (entry_members e) ''eventType'' = JStr (ae_eventType e)" "member (entry_members e) ''decision'' = JStr (ae_decision e)"
  "member (entry_members e) ''reasonCode'' = JStr (ae_reasonCode e)" "member (entry_members e) ''peer'' = ae_peer e"
  "member (entry_members e) ''node'' = ae_node e" "member (entry_members e) ''sessionId'' = str_or_undef (ae_sessionId e)"
  "member (entry_members e) ''intent'' = ae_intent e" "member (entry_members e) ''scopeHash'' = JStr (ae_scopeHash e)"
  "member (entry_members e) ''paramsHash'' = JStr (ae_paramsHash e)" "member (entry_members e) ''requiredBits'' = ae_requiredBits e"
  "member (entry_members e) ''grantedBits'' = ae_grantedBits e" "member (entry_members e) ''deniedBits'' = ae_deniedBits e"
  "member (entry_members e) ''aclRef'' = str_or_undef (ae_aclRef e)"
  "member (entry_members e) ''policyVersion'' = str_or_undef (ae_policyVersion e)"
  "member (entry_members e) ''sourceDiagnostics'' = ae_sourceDiagnostics e"
  "member (entry_members e) ''correlationId'' = JStr (ae_correlationId e)"
  "member (entry_members e) ''prevHash'' = or_null_str (ae_prevHash e)"
  by (simp_all add: entry_members_def member_simps)

lemma hashed_members:
  assumes "num_printer numstr" and "entryHashPayload numstr e = entryHashPayload numstr f"
  shows "map_option canon (present (member (entry_members e) k)) = map_option canon (present (member (entry_members f) k))"
proof -
  have "stableStringify numstr (JObj (entry_members e)) = stableStringify numstr (JObj (entry_members f))"
    using assms(2) by (simp add: entryHashPayload_def)
  then show ?thesis
    using entry_member [OF assms(1), of e f k] distinct_entry_members
    by (simp add: defined_members_def map_of_defined)
qed

lemma present_agree:
  "map_option canon (present a) = map_option canon (present b) \<Longrightarrow> canon a = canon b"
  "map_option canon (present (JStr s)) = map_option canon (present (JStr t)) \<Longrightarrow> s = t"
  "map_option canon (present (JNum (IntNum i))) = map_option canon (present (JNum (IntNum j))) \<Longrightarrow> i = j"
  "map_option canon (present (str_or_undef o1)) = map_option canon (present (str_or_undef o2)) \<Longrightarrow> o1 = o2"
  "map_option canon (present (or_null_str o1)) = map_option canon (present (or_null_str o2)) \<Longrightarrow> o1 = o2"
  by (auto simp: present_def str_or_undef_def or_null_str_def finite_num_def split: option.splits if_splits)

lemma entries_agree:
  assumes "num_printer numstr" and "entryHashPayload numstr e = entryHashPayload numstr f"
    and "ae_entryHash e = ae_entryHash f" and "ae_sourceDiagnostics e = ae_sourceDiagnostics f"
  shows "same_entry e f"
proof -
  note k = hashed_members [OF assms(1,2)]
  have str: "a = b" if "member (entry_members e) n = JStr a" "member (entry_members f) n = JStr b" for n a b
    using k [of n] that present_agree(2) by metis
  have num: "a = b" if "member (entry_members e) n = JNum (IntNum a)" "member (entry_members f) n = JNum (IntNum b)" for n a b
    using k [of n] that present_agree(3) by metis
  have val: "canon a = canon b" if "member (entry_members e) n = a" "member (entry_members f) n = b" for n a b
    using k [of n] that present_agree(1) by metis
  have opt: "a = b" if "member (entry_members e) n = str_or_undef a" "member (entry_members f) n = str_or_undef b" for n a b
    using k [of n] that present_agree(4) by metis
  have nul: "a = b" if "member (entry_members e) n = or_null_str a" "member (entry_members f) n = or_null_str b" for n a b
    using k [of n] that present_agree(5) by metis
  show ?thesis
    using assms(3,4)
      str [OF member_entry(1) member_entry(1)] str [OF member_entry(2) member_entry(2)] num [OF member_entry(3) member_entry(3)]
      num [OF member_entry(4) member_entry(4)] str [OF member_entry(5) member_entry(5)] str [OF member_entry(6) member_entry(6)]
      str [OF member_entry(7) member_entry(7)] val [OF member_entry(8) member_entry(8)] val [OF member_entry(9) member_entry(9)]
      opt [OF member_entry(10) member_entry(10)] val [OF member_entry(11) member_entry(11)] str [OF member_entry(12) member_entry(12)]
      str [OF member_entry(13) member_entry(13)] val [OF member_entry(14) member_entry(14)] val [OF member_entry(15) member_entry(15)]
      val [OF member_entry(16) member_entry(16)] opt [OF member_entry(17) member_entry(17)] opt [OF member_entry(18) member_entry(18)]
      str [OF member_entry(20) member_entry(20)] nul [OF member_entry(21) member_entry(21)]
    by (simp add: same_entry_def)
qed

lemma chained_single:
  "chained numstr sha expected prev [r] \<longleftrightarrow>
    (\<exists>e. rowToEntry r = Some e \<and> ae_sequence e = expected \<and> ae_prevHash e = prev \<and> verifySecurityAuditEntryHash numstr sha e)"
  by (simp split: option.split)

lemma no_diagnostics: "rowToEntry r = Some e \<Longrightarrow> ae_sourceDiagnostics e = JUndef"
  by (auto simp: rowToEntry_def split: option.splits)

text \<open>The texts whose hashes the log holds.\<close>

definition hashed_texts :: "(js_number \<Rightarrow> string) \<Rightarrow> audit_row list \<Rightarrow> string set" where
  "hashed_texts numstr rows = (\<lambda>r. entryHashPayload numstr (the (rowToEntry r))) ` set rows"

lemma chains_agree:
  assumes "num_printer numstr"
  shows "chained numstr sha 1 None rows \<Longrightarrow> chained numstr sha 1 None rows' \<Longrightarrow> chain_head None rows = chain_head None rows' \<Longrightarrow>
    inj_on sha (hashed_texts numstr rows \<union> hashed_texts numstr rows') \<Longrightarrow> list_all2 (\<lambda>r r'. same_entry (the (rowToEntry r)) (the (rowToEntry r'))) rows rows'"
proof (induction rows arbitrary: rows' rule: rev_induct)
  case Nil
  then show ?case by (cases "rows' = []") (simp_all add: chain_head_def)
next
  case (snoc r rows)
  then obtain rows2 r2 where rows': "rows' = rows2 @ [r2]" by (cases rows' rule: rev_cases) (simp_all add: chain_head_def)
  from snoc.prems obtain e e2 where c: "chained numstr sha 1 None rows" "chained numstr sha 1 None rows2"
    and e: "rowToEntry r = Some e" "ae_prevHash e = chain_head None rows" "verifySecurityAuditEntryHash numstr sha e"
    and e2: "rowToEntry r2 = Some e2" "ae_prevHash e2 = chain_head None rows2" "verifySecurityAuditEntryHash numstr sha e2"
    unfolding rows' chained_snoc chained_single by blast
  have h: "ae_entryHash e = ae_entryHash e2"
    using snoc.prems(3) row_entry(2) [OF e(1)] row_entry(2) [OF e2(1)] by (simp add: rows' chain_head_def)
  then have "sha (entryHashPayload numstr e) = sha (entryHashPayload numstr e2)"
    using e(3) e2(3) by (simp add: verifySecurityAuditEntryHash_def computeSecurityAuditEntryHash_def)
  then have "entryHashPayload numstr e = entryHashPayload numstr e2"
    by (rule inj_onD [OF snoc.prems(4)]) (simp_all add: rows' hashed_texts_def e(1) e2(1))
  from entries_agree [OF assms this h] no_diagnostics [OF e(1)] no_diagnostics [OF e2(1)]
  have same: "same_entry e e2" by simp
  then have "ae_prevHash e = ae_prevHash e2" by (auto simp: same_entry_def dest: arg_cong [of _ _ ae_prevHash])
  with e(2) e2(2) have "chain_head None rows = chain_head None rows2" by simp
  moreover have "inj_on sha (hashed_texts numstr rows \<union> hashed_texts numstr rows2)"
    using snoc.prems(4) by (rule inj_on_subset) (auto simp: rows' hashed_texts_def)
  ultimately show ?case using snoc.IH [OF c] same by (simp add: rows' e(1) e2(1) list_all2_appendI)
qed




section \<open>What breaks the chain\<close>

text \<open>An entry with source diagnostics is hashed with them, but no column holds them: once it is appended the log never verifies
  again, though nobody has changed it.\<close>

lemma diagnostics_break_the_chain:
  assumes "num_printer numstr" and "inj sha" and "log_inv numstr sha db" and "js_truthy (ai_sourceDiagnostics i)"
    and "audit_append numstr sha now ids db i = Inr (db', e)"
  shows "\<not> av_ok (verifySecurityAuditDatabase numstr sha integrity db')"
proof
  assume "av_ok (verifySecurityAuditDatabase numstr sha integrity db')"
  then obtain c where "av_ok (verifyAuditRows numstr sha c 1 None 0 (adb_rows db'))"
    by (cases "adb_checkpoint db'") (auto simp: verifySecurityAuditDatabase_def storageCorruptBreak_def split: if_splits)
  then have "chained numstr sha 1 None (adb_rows db')" by (simp add: verify_rows_ok)
  moreover from assms(3,5) have n: "normalizeSecurityAuditEntry numstr sha now ids i (int (length (adb_rows db)) + 1) (chain_head None (adb_rows db)) = Inr e"
    and rows: "adb_rows db' = adb_rows db @ [row_of_entry e]"
    by (auto simp: append_exact split: sum.split_asm if_split_asm)
  ultimately have "verifySecurityAuditEntryHash numstr sha (e\<lparr>ae_sourceDiagnostics := JUndef\<rparr>)"
    unfolding rows chained_snoc chained_single normalized_entry(7) [OF n] by simp
  then have "entryHashPayload numstr (e\<lparr>ae_sourceDiagnostics := JUndef\<rparr>) = entryHashPayload numstr e"
    using normalized_entry(5) [OF n] assms(2)
    by (simp add: verifySecurityAuditEntryHash_def computeSecurityAuditEntryHash_def inj_eq)
  from hashed_members [OF assms(1) this, of "''sourceDiagnostics''"] show False
    using normalized_entry(6) [OF n] assms(4) by (auto simp: member_entry present_def split: if_split_asm)
qed

text \<open>A row whose JSON cannot be read is left out of its page; when nothing else is on the page, the listing ends there, whatever
  older entries there are.\<close>

lemma malformed_page_ends_listing:
  assumes "rows \<noteq> []" and "rowToEntry (last rows) = None"
  shows "listBefore \<lparr>adb_rows = rows, adb_checkpoint = c\<rparr> None 1 = Inr ([], None)"
proof -
  have "take 1 (rev rows) = [last rows]" using assms(1) by (simp add: take_Suc hd_rev)
  with assms(2) show ?thesis by (simp add: listBefore_def somes_def)
qed

section \<open>Reading the log page by page\<close>

text \<open>Following the cursors from the newest page.\<close>

fun audit_pages :: "nat \<Rightarrow> audit_db \<Rightarrow> int \<Rightarrow> int option \<Rightarrow> audit_entry list" where
  "audit_pages 0 db limit cursor = []"
| "audit_pages (Suc fuel) db limit cursor =
     (case listBefore db cursor limit of Inl e \<Rightarrow> []
      | Inr (rows, None) \<Rightarrow> rows
      | Inr (rows, Some c) \<Rightarrow> rows @ audit_pages fuel db limit (Some c))"


definition page_size :: "int \<Rightarrow> nat" where
  "page_size limit = nat (max 1 (min (if limit = 0 then 50 else limit) 200))"

lemma page_size_pos: "0 < page_size limit"
  by (simp add: page_size_def)

lemma chained_parsed:
  "chained numstr sha expected prev rows \<Longrightarrow> map rowToEntry rows = map Some (map (\<lambda>r. the (rowToEntry r)) rows)"
proof (induction rows arbitrary: expected prev)
  case (Cons r rows)
  then show ?case by (auto split: option.split_asm)
qed simp

lemma somes_Some [simp]: "somes (map Some xs) = xs"
  by (induction xs) (simp_all add: somes_def)

lemma below_cursor:
  assumes "map ar_sequence rows = map (\<lambda>i. 1 + int i) [0..<length rows]" and "k \<le> length rows"
  shows "filter (\<lambda>r. ar_sequence r < 1 + int k) rows = take k rows"
proof -
  have nth: "ar_sequence (rows ! i) = 1 + int i" if "i < length rows" for i
    using arg_cong [OF assms(1), of "\<lambda>xs. xs ! i"] that by simp
  have "\<forall>r\<in>set (take k rows). ar_sequence r < 1 + int k"
    using nth by (auto simp: in_set_conv_nth)
  moreover have "\<forall>r\<in>set (drop k rows). \<not> ar_sequence r < 1 + int k"
    using nth by (auto simp: in_set_conv_nth)
  ultimately have "filter (\<lambda>r. ar_sequence r < 1 + int k) (take k rows @ drop k rows) = take k rows"
    unfolding filter_append by (simp add: filter_id_conv)
  then show ?thesis by simp
qed

lemma newest_first: "take m (rev (take k es)) = rev (drop (k - m) (take k es))" if "k \<le> length es"
  using that by (simp add: take_rev min_def)

lemma page_below:
  assumes "chained numstr sha 1 None (adb_rows db)" and "k \<le> length (adb_rows db)"
    and "es = map (\<lambda>r. the (rowToEntry r)) (adb_rows db)"
    and "cursor = Some (1 + int k) \<or> cursor = None \<and> k = length (adb_rows db)"
  shows "listBefore db cursor limit = Inr (rev (drop (k - page_size limit) (take k es)),
    if k = 0 then None else Some (1 + int (k - page_size limit)))"
proof -
  note seqs = chained_sequences [OF assms(1)]
  define m where "m = page_size limit"
  have len: "length es = length (adb_rows db)" by (simp add: assms(3))
  have parsed: "map rowToEntry (adb_rows db) = map Some es" using chained_parsed [OF assms(1)] by (simp add: assms(3))
  have cand: "(case cursor of None \<Rightarrow> rev (adb_rows db) | Some c \<Rightarrow> if c = 0 then rev (adb_rows db)
      else rev (filter (\<lambda>r. ar_sequence r < c) (adb_rows db))) = rev (take k (adb_rows db))"
    using assms(4) below_cursor [OF seqs assms(2)] by auto
  have "map rowToEntry (take m (rev (take k (adb_rows db)))) = map Some (take m (rev (take k es)))"
    by (simp add: take_map [symmetric] rev_map [symmetric] parsed)
  then have rows: "somes (map rowToEntry (take m (rev (take k (adb_rows db))))) = rev (drop (k - m) (take k es))"
    using assms(2) by (simp add: newest_first len)
  have "ae_sequence (last (rev (drop (k - m) (take k es)))) = 1 + int (k - m)" if "0 < k"
  proof -
    have lt: "k - m < k" "k - m < length es" using that page_size_pos [of limit] assms(2) len by (simp_all add: m_def)
    then have "last (rev (drop (k - m) (take k es))) = es ! (k - m)" by (simp add: last_rev hd_drop_conv_nth)
    moreover have "ae_sequence (es ! (k - m)) = ar_sequence (adb_rows db ! (k - m))"
    proof -
      have "rowToEntry (adb_rows db ! (k - m)) = Some (es ! (k - m))"
        using arg_cong [OF parsed, of "\<lambda>xs. xs ! (k - m)"] lt len by simp
      then show ?thesis by (rule row_entry(1))
    qed
    moreover have "ar_sequence (adb_rows db ! (k - m)) = 1 + int (k - m)"
      using arg_cong [OF seqs, of "\<lambda>xs. xs ! (k - m)"] lt len by simp
    ultimately show ?thesis by simp
  qed
  moreover have "rev (drop (k - m) (take k es)) = [] \<longleftrightarrow> k = 0"
    using assms(2) len page_size_pos [of limit] by (auto simp: m_def)
  ultimately show ?thesis
    using assms(4) by (auto simp: listBefore_def Let_def cand page_size_def [symmetric] m_def [symmetric] rows)
qed

lemma pages_below:
  assumes "chained numstr sha 1 None (adb_rows db)" and "es = map (\<lambda>r. the (rowToEntry r)) (adb_rows db)"
  shows "k \<le> length (adb_rows db) \<Longrightarrow> k < fuel \<Longrightarrow> cursor = Some (1 + int k) \<or> cursor = None \<and> k = length (adb_rows db) \<Longrightarrow>
    audit_pages fuel db limit cursor = rev (take k es)"
proof (induction fuel arbitrary: k cursor)
  case (Suc fuel)
  note page = page_below [OF assms(1) Suc.prems(1) assms(2) Suc.prems(3), of limit]
  show ?case
  proof (cases "k = 0")
    case False
    define j where "j = k - page_size limit"
    have j: "j < k" "j \<le> length (adb_rows db)" "j < fuel"
      using False page_size_pos [of limit] Suc.prems by (simp_all add: j_def)
    have "take j es @ drop j (take k es) = take k es" using j(1) by (metis append_take_drop_id less_imp_le min.absorb1 take_take)
    then have "rev (drop j (take k es)) @ rev (take j es) = rev (take k es)" by (metis rev_append)
    with Suc.IH [OF j(2,3), of "Some (1 + int j)"] page False show ?thesis by (simp add: j_def)
  qed (use page in simp)
qed simp

text \<open>Reading a log page by page misses nothing and repeats nothing: when it verifies, following the cursors from the newest page,
  whatever the page size asked for, gives every entry exactly once, the newest first, in no more requests than there are entries
  and one.\<close>

theorem audit_pages_cover_the_log:
  assumes "av_ok (verifySecurityAuditDatabase numstr sha ''ok'' db)" and "length (adb_rows db) < fuel"
  shows "map Some (audit_pages fuel db limit None) = rev (map rowToEntry (adb_rows db))"
proof -
  from assms(1) obtain c where "av_ok (verifyAuditRows numstr sha c 1 None 0 (adb_rows db))"
    by (cases "adb_checkpoint db") (simp_all add: verifySecurityAuditDatabase_def storageCorruptBreak_def)
  then have c: "chained numstr sha 1 None (adb_rows db)" by (simp add: verify_rows_ok)
  show ?thesis
    using pages_below [OF c refl order_refl assms(2), of None limit] chained_parsed [OF c] by (simp add: rev_map)
qed

theorem audit_pages_cover_the_log_witness:
  "map Some (audit_pages 3 (fst (audit_run sample_numstr id sample_calls)) 1 None) =
     rev (map rowToEntry (adb_rows (fst (audit_run sample_numstr id sample_calls))))"
proof (rule audit_pages_cover_the_log)
  show "av_ok (verifySecurityAuditDatabase sample_numstr id ''ok'' (fst (audit_run sample_numstr id sample_calls)))"
    using audit_run_inv [OF sample_calls_plain, of sample_numstr id]
    by (simp add: verifySecurityAuditDatabase_def log_inv_def verify_rows_ok)
  have grow: "length (adb_rows (fst (foldl (audit_call sample_numstr sha) st cs))) \<le> length (adb_rows (fst st)) + length cs" for sha st cs
  proof (induction cs arbitrary: st)
    case (Cons c cs)
    have "length (adb_rows (fst (audit_call sample_numstr sha st c))) \<le> Suc (length (adb_rows (fst st)))"
      by (auto simp: audit_call_def audit_append_def insert_audit_row_def split: sum.split if_split_asm)
    with Cons [of "audit_call sample_numstr sha st c"] show ?case by simp
  qed simp
  show "length (adb_rows (fst (audit_run sample_numstr id sample_calls))) < 3"
    using grow [of id "(fresh_log, [])" sample_calls]
    by (simp add: audit_run_def sample_calls_def fresh_log_def ensureSecurityAuditCheckpoint_def)
qed

end
