(* ===== verification/Credential_Scope.thy ===== *)
theory Credential_Scope
  imports Audit_Entry "HOL-Library.Word"
begin

text \<open>
  What scoped actor credentials are made of (\<open>shared/scoped-actor-credentials.ts\<close>): scopes, their normalisation and the test of
  a request against them, tokens, metadata. Scopes and metadata arrive as values of any shape.
\<close>

section \<open>Types and audiences\<close>

definition actor_credential_types :: "string list" where
  "actor_credential_types = [''agent'', ''cli'', ''automation-system'']"

definition actor_credential_audiences :: "string list" where
  "actor_credential_audiences = [''relay:registry-test'', ''relay:cli-gateway:v1'']"

datatype cred_failure =
    MalformedCredential | UnsupportedActorType | UnknownAudience | WrongAudience | ExpiredCredential | RevokedCredential
  | MissingScope | WrongNodeScope | WrongSessionScope | WrongGlobalSessionScope | WrongWorkContextScope | WrongChannelScope
  | WrongRepoScope | WrongPathScope | WrongTaskScope | UnknownCapability | InsufficientCapability

fun failure_name :: "cred_failure \<Rightarrow> string" where
  "failure_name MalformedCredential = ''malformed_credential''"
| "failure_name UnsupportedActorType = ''unsupported_actor_type''"
| "failure_name UnknownAudience = ''unknown_audience''"
| "failure_name WrongAudience = ''wrong_audience''"
| "failure_name ExpiredCredential = ''expired''"
| "failure_name RevokedCredential = ''revoked''"
| "failure_name MissingScope = ''missing_scope''"
| "failure_name WrongNodeScope = ''wrong_node_scope''"
| "failure_name WrongSessionScope = ''wrong_session_scope''"
| "failure_name WrongGlobalSessionScope = ''wrong_global_session_scope''"
| "failure_name WrongWorkContextScope = ''wrong_work_context_scope''"
| "failure_name WrongChannelScope = ''wrong_channel_scope''"
| "failure_name WrongRepoScope = ''wrong_repo_scope''"
| "failure_name WrongPathScope = ''wrong_path_scope''"
| "failure_name WrongTaskScope = ''wrong_task_scope''"
| "failure_name UnknownCapability = ''unknown_capability''"
| "failure_name InsufficientCapability = ''insufficient_capability''"

definition upper_char :: "char \<Rightarrow> char" where
  "upper_char c = (if is_lower c then char_of ((of_char c :: nat) - 32) else c)"

definition validationReasonCode :: "cred_failure \<Rightarrow> string" where
  "validationReasonCode r = ''ACTOR_CREDENTIAL_'' @ map upper_char (failure_name r)"

datatype cred_error =
    UNSUPPORTED_ACTOR_TYPE | UNKNOWN_AUDIENCE | UNKNOWN_CAPABILITY | EXPIRY_REQUIRED | EXPIRY_EXCEEDS_MAX_TTL | SCOPE_REQUIRED
  | INVALID_SECRET_HASH | DUPLICATE_CREDENTIAL_ID | PREPARED_INVALID | INVALID_DATE

section \<open>Scopes\<close>

record cred_scope =
  sp_nodeIds :: "string list option"
  sp_sessionIds :: "string list option"
  sp_globalSessionIds :: "string list option"
  sp_workContextIds :: "string list option"
  sp_channelIds :: "string list option"
  sp_repoIds :: "string list option"
  sp_pathPrefixes :: "string list option"
  sp_taskRefs :: "string list option"

definition add_text :: "string list \<Rightarrow> json \<Rightarrow> string list" where
  "add_text acc v = (case v of JStr s \<Rightarrow> (if trim s = [] \<or> trim s \<in> set acc then acc else acc @ [trim s]) | _ \<Rightarrow> acc)"

definition normalizeStringList :: "json \<Rightarrow> string list" where
  "normalizeStringList v = (case v of JArr xs \<Rightarrow> foldl add_text [] xs | _ \<Rightarrow> [])"

definition scope_dimension :: "json \<Rightarrow> string list option" where
  "scope_dimension v = (let xs = normalizeStringList v in if xs = [] then None else Some xs)"

definition no_scope :: cred_scope where
  "no_scope = \<lparr>sp_nodeIds = None, sp_sessionIds = None, sp_globalSessionIds = None, sp_workContextIds = None, sp_channelIds = None,
     sp_repoIds = None, sp_pathPrefixes = None, sp_taskRefs = None\<rparr>"

definition normalizeCredentialScope :: "json \<Rightarrow> cred_error + cred_scope" where
  "normalizeCredentialScope v =
     (if \<not> is_record v then Inl SCOPE_REQUIRED
      else let s =
        \<lparr>sp_nodeIds = scope_dimension (fld v ''nodeIds''), sp_sessionIds = scope_dimension (fld v ''sessionIds''),
         sp_globalSessionIds = scope_dimension (fld v ''globalSessionIds''),
         sp_workContextIds = scope_dimension (fld v ''workContextIds''), sp_channelIds = scope_dimension (fld v ''channelIds''),
         sp_repoIds = scope_dimension (fld v ''repoIds''), sp_pathPrefixes = scope_dimension (fld v ''pathPrefixes''),
         sp_taskRefs = scope_dimension (fld v ''taskRefs'')\<rparr>
      in if s = no_scope then Inl SCOPE_REQUIRED else Inr s)"

definition texts_json :: "string list option \<Rightarrow> json" where
  "texts_json xs = (case xs of None \<Rightarrow> JUndef | Some ss \<Rightarrow> JArr (map JStr ss))"

definition credential_scope_json :: "cred_scope \<Rightarrow> json" where
  "credential_scope_json s = js_obj
     [(''nodeIds'', texts_json (sp_nodeIds s)), (''sessionIds'', texts_json (sp_sessionIds s)),
      (''globalSessionIds'', texts_json (sp_globalSessionIds s)), (''workContextIds'', texts_json (sp_workContextIds s)),
      (''channelIds'', texts_json (sp_channelIds s)), (''repoIds'', texts_json (sp_repoIds s)),
      (''pathPrefixes'', texts_json (sp_pathPrefixes s)), (''taskRefs'', texts_json (sp_taskRefs s))]"

text \<open>What a request asks for.\<close>

record scope_request =
  rq_nodeId :: "string option"
  rq_sessionId :: "string option"
  rq_globalSessionId :: "string option"
  rq_workContextId :: "string option"
  rq_workContextIds :: "string list option"
  rq_deferWorkContextScope :: "bool option"
  rq_channelId :: "string option"
  rq_channelIds :: "string list option"
  rq_repoId :: "string option"
  rq_path :: "string option"
  rq_taskRef :: "string option"

definition no_request :: scope_request where
  "no_request = \<lparr>rq_nodeId = None, rq_sessionId = None, rq_globalSessionId = None, rq_workContextId = None, rq_workContextIds = None,
     rq_deferWorkContextScope = None, rq_channelId = None, rq_channelIds = None, rq_repoId = None, rq_path = None, rq_taskRef = None\<rparr>"

definition scope_request_json :: "scope_request \<Rightarrow> json" where
  "scope_request_json q = js_obj
     [(''nodeId'', str_or_undef (rq_nodeId q)), (''sessionId'', str_or_undef (rq_sessionId q)),
      (''globalSessionId'', str_or_undef (rq_globalSessionId q)), (''workContextId'', str_or_undef (rq_workContextId q)),
      (''workContextIds'', texts_json (rq_workContextIds q)),
      (''deferWorkContextScope'', case rq_deferWorkContextScope q of None \<Rightarrow> JUndef | Some b \<Rightarrow> JBool b),
      (''channelId'', str_or_undef (rq_channelId q)), (''channelIds'', texts_json (rq_channelIds q)),
      (''repoId'', str_or_undef (rq_repoId q)), (''path'', str_or_undef (rq_path q)), (''taskRef'', str_or_undef (rq_taskRef q))]"

definition singletonScopeValue :: "string option \<Rightarrow> string list option" where
  "singletonScopeValue v = map_option (\<lambda>s. [s]) (truthy v)"

definition normalizedRequestedScopeValues :: "string list option \<Rightarrow> string list option" where
  "normalizedRequestedScopeValues v =
     (let xs = filter (\<lambda>s. trim s \<noteq> []) (case v of None \<Rightarrow> [] | Some ss \<Rightarrow> ss) in if xs = [] then None else Some xs)"

definition pathMatchesCredentialPrefix :: "string \<Rightarrow> string \<Rightarrow> bool" where
  "pathMatchesCredentialPrefix path prefix \<longleftrightarrow>
     path = prefix \<or> starts_with path (if ends_with prefix ''/'' then prefix else prefix @ ''/'')"

definition listIncludesRequestedValue :: "string list \<Rightarrow> string \<Rightarrow> bool" where
  "listIncludesRequestedValue vs v \<longleftrightarrow> v \<in> set vs"

record scope_rule =
  sr_values :: "string list option"
  sr_requested :: "string list option"
  sr_wrong :: cred_failure
  sr_deferred :: bool
  sr_required :: bool
  sr_matches :: "string list \<Rightarrow> string \<Rightarrow> bool"

definition plain_rule :: "string list option \<Rightarrow> string list option \<Rightarrow> cred_failure \<Rightarrow> scope_rule" where
  "plain_rule vs rs wrong = \<lparr>sr_values = vs, sr_requested = rs, sr_wrong = wrong, sr_deferred = False, sr_required = False,
     sr_matches = listIncludesRequestedValue\<rparr>"

definition scope_rules :: "cred_scope \<Rightarrow> scope_request \<Rightarrow> scope_rule list" where
  "scope_rules s q =
     [plain_rule (sp_nodeIds s) (singletonScopeValue (rq_nodeId q)) WrongNodeScope,
      plain_rule (sp_sessionIds s) (singletonScopeValue (rq_sessionId q)) WrongSessionScope,
      plain_rule (sp_globalSessionIds s) (singletonScopeValue (rq_globalSessionId q)) WrongGlobalSessionScope,
      (plain_rule (sp_workContextIds s)
         (normalizedRequestedScopeValues (nullish (rq_workContextIds q) (singletonScopeValue (rq_workContextId q)))) WrongWorkContextScope)
        \<lparr>sr_deferred := rq_deferWorkContextScope q = Some True\<rparr>,
      (plain_rule (sp_channelIds s)
         (normalizedRequestedScopeValues (nullish (rq_channelIds q) (singletonScopeValue (rq_channelId q)))) WrongChannelScope)
        \<lparr>sr_required := True\<rparr>,
      plain_rule (sp_repoIds s) (singletonScopeValue (rq_repoId q)) WrongRepoScope,
      (plain_rule (sp_pathPrefixes s) (singletonScopeValue (rq_path q)) WrongPathScope)
        \<lparr>sr_matches := (\<lambda>prefixes path. list_ex (pathMatchesCredentialPrefix path) prefixes)\<rparr>,
      plain_rule (sp_taskRefs s) (singletonScopeValue (rq_taskRef q)) WrongTaskScope]"

definition some_list :: "'a list option \<Rightarrow> bool" where
  "some_list xs \<longleftrightarrow> (case xs of None \<Rightarrow> False | Some ys \<Rightarrow> ys \<noteq> [])"

definition list_of :: "'a list option \<Rightarrow> 'a list" where
  "list_of xs = (case xs of None \<Rightarrow> [] | Some ys \<Rightarrow> ys)"

fun check_rules :: "scope_rule list \<Rightarrow> cred_failure option" where
  "check_rules [] = None"
| "check_rules (r # rs) =
     (if \<not> some_list (sr_values r) then
        (if some_list (sr_requested r) \<and> sr_required r then Some (sr_wrong r) else check_rules rs)
      else if some_list (sr_requested r) \<and> \<not> list_all (sr_matches r (list_of (sr_values r))) (list_of (sr_requested r))
        then Some (sr_wrong r)
      else check_rules rs)"

definition validateCredentialScope :: "cred_scope \<Rightarrow> scope_request option \<Rightarrow> cred_failure option" where
  "validateCredentialScope s expected =
     (let rules = scope_rules s (case expected of None \<Rightarrow> no_request | Some q \<Rightarrow> q) in
      case check_rules rules of Some f \<Rightarrow> Some f
      | None \<Rightarrow> if list_ex (\<lambda>r. sr_values r \<noteq> None \<and> sr_requested r = None \<and> \<not> sr_deferred r) rules then Some MissingScope else None)"

section \<open>Tokens\<close>

definition to_hex :: "8 word list \<Rightarrow> string" where
  "to_hex bs = concat (map (\<lambda>b. [json_hex (unat b div 16), json_hex (unat b mod 16)]) bs)"

definition hex_value :: "char \<Rightarrow> nat option" where
  "hex_value c = (let n = (of_char c :: nat) in
     if 48 \<le> n \<and> n \<le> 57 then Some (n - 48) else if 97 \<le> n \<and> n \<le> 102 then Some (n - 87)
     else if 65 \<le> n \<and> n \<le> 70 then Some (n - 55) else None)"

text \<open>\<open>Buffer.from(s, 'hex')\<close> stops at the first pair that is not hexadecimal.\<close>

fun from_hex :: "string \<Rightarrow> nat list" where
  "from_hex (a # b # s) = (case (hex_value a, hex_value b) of (Some m, Some n) \<Rightarrow> (16 * m + n) # from_hex s | _ \<Rightarrow> [])"
| "from_hex s = []"

definition sameSecretHash :: "(string \<Rightarrow> string) \<Rightarrow> string \<Rightarrow> string \<Rightarrow> bool" where
  "sameSecretHash sha stored presented \<longleftrightarrow> from_hex stored = from_hex (sha presented)"

definition is_sha_digest :: "string \<Rightarrow> bool" where
  "is_sha_digest s \<longleftrightarrow> length s = 64 \<and> list_all (\<lambda>c. is_digit c \<or> (97 \<le> (of_char c :: nat) \<and> (of_char c :: nat) \<le> 102)) s"

definition token_prefix :: string where "token_prefix = ''relay-sac-v1''"

definition scoped_token :: "string \<Rightarrow> string \<Rightarrow> string" where
  "scoped_token i secret = token_prefix @ ''.'' @ i @ ''.'' @ secret"

definition parseScopedActorToken :: "string \<Rightarrow> (string \<times> string) option" where
  "parseScopedActorToken token =
     (case split_on CHR ''.'' token of
        [p, i, s] \<Rightarrow> if p \<noteq> token_prefix \<or> i = [] \<or> s = [] then None else Some (i, s)
      | _ \<Rightarrow> None)"

definition scopedActorCredentialSecretHash :: "(string \<Rightarrow> string) \<Rightarrow> string \<Rightarrow> string option" where
  "scopedActorCredentialSecretHash sha token = map_option (\<lambda>p. sha (snd p)) (parseScopedActorToken token)"

section \<open>Metadata\<close>

record cred_metadata =
  md_reason :: "string option"
  md_taskRef :: "string option"
  md_refs :: "string list option"

definition redactString :: "json \<Rightarrow> string option" where
  "redactString v = (case v of JStr s \<Rightarrow> (case redactAuditValue v of JStr r \<Rightarrow> truthy (Some (trim r)) | _ \<Rightarrow> None) | _ \<Rightarrow> None)"

definition normalizeCredentialMetadata :: "json \<Rightarrow> cred_metadata option" where
  "normalizeCredentialMetadata v =
     (if \<not> js_truthy v then None
      else let refs = List.map_filter (\<lambda>s. redactString (JStr s)) (normalizeStringList (fld v ''refs''));
          m = \<lparr>md_reason = redactString (fld v ''reason''), md_taskRef = redactString (fld v ''taskRef''),
               md_refs = (if refs = [] then None else Some refs)\<rparr>
        in if m = \<lparr>md_reason = None, md_taskRef = None, md_refs = None\<rparr> then None else Some m)"

definition metadata_json :: "cred_metadata \<Rightarrow> json" where
  "metadata_json m = js_obj [(''reason'', str_or_undef (md_reason m)), (''taskRef'', str_or_undef (md_taskRef m)),
     (''refs'', texts_json (md_refs m))]"

section \<open>Dates and capabilities\<close>

text \<open>A \<open>Date | string\<close>; an invalid date has no time. Times beyond the range of \<open>Date\<close> are invalid.\<close>

datatype date_arg = DateVal "int option" | DateText string

definition max_date_ms :: int where "max_date_ms = 8640000000000000"

definition date_of_ms :: "int \<Rightarrow> int option" where
  "date_of_ms t = (if \<bar>t\<bar> \<le> max_date_ms then Some t else None)"

definition date_ms :: "(string \<Rightarrow> int option) \<Rightarrow> date_arg \<Rightarrow> int option" where
  "date_ms dp d = (case d of DateVal t \<Rightarrow> t | DateText s \<Rightarrow> dp s)"

definition date_given :: "date_arg option \<Rightarrow> date_arg option" where
  "date_given d = (case d of Some (DateText s) \<Rightarrow> if s = [] then None else d | _ \<Rightarrow> d)"

fun normalize_caps :: "string list \<Rightarrow> string list \<Rightarrow> cred_error + string list" where
  "normalize_caps acc [] = Inr acc"
| "normalize_caps acc (c # cs) =
     (if \<not> isRelayCapabilityBit (JStr c) then Inl UNKNOWN_CAPABILITY
      else normalize_caps (if c \<in> set acc then acc else acc @ [c]) cs)"

definition normalizeCredentialCapabilities :: "string list \<Rightarrow> cred_error + string list" where
  "normalizeCredentialCapabilities cs = normalize_caps [] cs"

definition knownDeniedCapabilities :: "string list \<Rightarrow> string list" where
  "knownDeniedCapabilities cs = filter (\<lambda>c. isRelayCapabilityBit (JStr c)) cs"

end
