(* ===== verification/Actor_Credentials.thy ===== *)
theory Actor_Credentials
  imports Credential_Scope
begin

text \<open>
  The registry of scoped actor credentials (\<open>ScopedActorCredentialRegistry\<close> of \<open>shared/scoped-actor-credentials.ts\<close>) with its
  ring of audit events. An operation reads the clock once. Random ids come from a supply \<open>ce_uuid\<close>, of which the state counts how
  many were drawn; SHA-256 and the dates of the language are arguments.
\<close>

section \<open>State\<close>

record cred_actor =
  act_type :: string
  act_id :: string
  act_label :: "string option"

record cred_issuer =
  iss_id :: string
  iss_label :: "string option"

record public_credential =
  cd_id :: string
  cd_actor :: cred_actor
  cd_issuer :: cred_issuer
  cd_grantId :: "string option"
  cd_audience :: string
  cd_capabilities :: "string list"
  cd_scope :: cred_scope
  cd_metadata :: "cred_metadata option"
  cd_issuedAt :: string
  cd_expiresAt :: string
  cd_revokedAt :: "string option"
  cd_revokedBy :: "string option"
  cd_revocationReason :: "string option"
  cd_correlationId :: string

record credential = public_credential +
  cd_secretHash :: string

abbreviation publicCredential :: "credential \<Rightarrow> public_credential" where
  "publicCredential c \<equiv> public_credential.truncate c"

record cred_event =
  ev_action :: string
  ev_decision :: string
  ev_reasonCode :: string
  ev_credentialId :: "string option"
  ev_actor :: "cred_actor option"
  ev_issuer :: "cred_issuer option"
  ev_audience :: "string option"
  ev_scopeHash :: string
  ev_paramsHash :: string
  ev_requiredBits :: "string list"
  ev_grantedBits :: "string list"
  ev_deniedBits :: "string list"
  ev_correlationId :: string
  ev_repeatedCount :: "nat option"

record issue_input =
  ii_id :: "string option"
  ii_actor :: cred_actor
  ii_issuer :: cred_issuer
  ii_grantId :: "string option"
  ii_audience :: string
  ii_capabilities :: "string list"
  ii_scope :: json
  ii_metadata :: json
  ii_expiresAt :: "date_arg option"
  ii_ttlMs :: "int option"
  ii_notAfter :: "date_arg option"
  ii_correlationId :: "string option"

record cred_registry =
  rg_credentials :: "(string, credential) jsmap"
  rg_events :: "cred_event list"
  rg_next :: nat
  rg_dropped :: nat
  rg_correlated :: bool
  rg_prepared :: "(nat, issue_input \<times> int) jsmap"
  rg_handles :: nat
  rg_draws :: nat

definition empty_registry :: cred_registry where
  "empty_registry = \<lparr>rg_credentials = [], rg_events = [], rg_next = 0, rg_dropped = 0, rg_correlated = False, rg_prepared = [],
     rg_handles = 0, rg_draws = 0\<rparr>"

record cred_env =
  ce_numstr :: "js_number \<Rightarrow> string"
  ce_sha :: "string \<Rightarrow> string"
  ce_dp :: "string \<Rightarrow> int option"
  ce_toIso :: "int \<Rightarrow> string"
  ce_uuid :: "nat \<Rightarrow> string"
  ce_maxTtl :: int
  ce_maxAudit :: nat

definition default_max_ttl_ms :: int where "default_max_ttl_ms = 15 * 60 * 1000"

definition default_max_audit_events :: nat where "default_max_audit_events = 1000"

text \<open>\<open>maxAuditEvents\<close> of the constructor: at least one event is kept.\<close>

definition audit_cap :: "js_number option \<Rightarrow> nat" where
  "audit_cap requested = (case requested of None \<Rightarrow> default_max_audit_events
     | Some (IntNum i) \<Rightarrow> nat (max 1 i) | Some (FracNum i) \<Rightarrow> nat (max 1 i) | Some _ \<Rightarrow> default_max_audit_events)"

section \<open>Audit events\<close>

definition isRepeatedAuditEvent :: "cred_event \<Rightarrow> cred_event \<Rightarrow> bool" where
  "isRepeatedAuditEvent p c \<longleftrightarrow>
     ev_action p = ev_action c \<and> ev_decision p = ev_decision c \<and> ev_reasonCode p = ev_reasonCode c \<and>
     ev_credentialId p = ev_credentialId c \<and> ev_audience p = ev_audience c \<and>
     map_option act_type (ev_actor p) = map_option act_type (ev_actor c) \<and>
     map_option act_id (ev_actor p) = map_option act_id (ev_actor c) \<and>
     Option.bind (ev_actor p) act_label = Option.bind (ev_actor c) act_label \<and>
     map_option iss_id (ev_issuer p) = map_option iss_id (ev_issuer c) \<and>
     Option.bind (ev_issuer p) iss_label = Option.bind (ev_issuer c) iss_label \<and>
     ev_scopeHash p = ev_scopeHash c \<and> ev_paramsHash p = ev_paramsHash c \<and> ev_requiredBits p = ev_requiredBits c \<and>
     ev_grantedBits p = ev_grantedBits c \<and> ev_deniedBits p = ev_deniedBits c"

definition newest_index :: "cred_env \<Rightarrow> cred_registry \<Rightarrow> nat option" where
  "newest_index env st =
     (if rg_events st = [] then None
      else if length (rg_events st) < ce_maxAudit env then Some (length (rg_events st) - 1)
      else Some ((rg_next st + ce_maxAudit env - 1) mod ce_maxAudit env))"

definition newestAuditEvent :: "cred_env \<Rightarrow> cred_registry \<Rightarrow> cred_event option" where
  "newestAuditEvent env st = map_option (\<lambda>i. rg_events st ! i) (newest_index env st)"

definition bump :: "cred_event \<Rightarrow> cred_event" where
  "bump e = e\<lparr>ev_repeatedCount := Some ((case ev_repeatedCount e of None \<Rightarrow> 1 | Some n \<Rightarrow> n) + 1)\<rparr>"

definition appendAuditEvent :: "cred_env \<Rightarrow> cred_registry \<Rightarrow> cred_event \<Rightarrow> bool \<Rightarrow> cred_registry" where
  "appendAuditEvent env st event correlated =
     (if \<not> correlated \<and> \<not> rg_correlated st \<and> (case newestAuditEvent env st of None \<Rightarrow> False | Some p \<Rightarrow> isRepeatedAuditEvent p event)
      then (case newest_index env st of None \<Rightarrow> st | Some i \<Rightarrow> st\<lparr>rg_events := (rg_events st)[i := bump (rg_events st ! i)]\<rparr>)
      else if length (rg_events st) < ce_maxAudit env
      then st\<lparr>rg_events := rg_events st @ [event], rg_correlated := correlated\<rparr>
      else st\<lparr>rg_events := (rg_events st)[rg_next st := event], rg_next := (rg_next st + 1) mod ce_maxAudit env,
        rg_dropped := rg_dropped st + 1, rg_correlated := correlated\<rparr>)"

definition listAuditEvents :: "cred_env \<Rightarrow> cred_registry \<Rightarrow> cred_event list" where
  "listAuditEvents env st =
     (if length (rg_events st) < ce_maxAudit env then rg_events st
      else drop (rg_next st) (rg_events st) @ take (rg_next st) (rg_events st))"

definition cred_actor_json :: "cred_actor \<Rightarrow> json" where
  "cred_actor_json a = js_obj [(''type'', JStr (act_type a)), (''id'', JStr (act_id a)), (''displayName'', str_or_undef (act_label a))]"

text \<open>What is recorded about: the bits required, granted and denied, the correlation id of the caller, and the material.\<close>

record audit_note =
  nt_action :: string
  nt_decision :: string
  nt_reasonCode :: string
  nt_credential :: "credential option"
  nt_required :: "string list"
  nt_granted :: "string list"
  nt_denied :: "string list"
  nt_correlationId :: "string option"
  nt_scope :: json
  nt_params :: json

definition recordAudit :: "cred_env \<Rightarrow> cred_registry \<Rightarrow> audit_note \<Rightarrow> cred_registry" where
  "recordAudit env st n =
     (let c = nt_credential n;
          material_scope = redactAuditValue (js_nullish (js_nullish (nt_scope n)
            (case c of None \<Rightarrow> JUndef | Some x \<Rightarrow> credential_scope_json (cd_scope x))) JNull);
          material_params = redactAuditValue (js_nullish (nt_params n) JNull);
          event = \<lparr>ev_action = nt_action n, ev_decision = nt_decision n, ev_reasonCode = nt_reasonCode n,
            ev_credentialId = map_option cd_id c, ev_actor = map_option cd_actor c, ev_issuer = map_option cd_issuer c,
            ev_audience = map_option cd_audience c, ev_scopeHash = hashAuditMaterial (ce_numstr env) (ce_sha env) material_scope,
            ev_paramsHash = hashAuditMaterial (ce_numstr env) (ce_sha env) material_params, ev_requiredBits = nt_required n,
            ev_grantedBits = nt_granted n, ev_deniedBits = nt_denied n,
            ev_correlationId = or_value (nt_correlationId n) (ce_uuid env (rg_draws st)), ev_repeatedCount = None\<rparr>;
          st1 = (if nt_correlationId n = None then st\<lparr>rg_draws := rg_draws st + 1\<rparr> else st)
      in appendAuditEvent env st1 event (nt_correlationId n \<noteq> None))"

section \<open>Issuing\<close>

definition resolveExpiry :: "cred_env \<Rightarrow> issue_input \<Rightarrow> int \<Rightarrow> cred_error + int" where
  "resolveExpiry env i issuedAt =
     (if date_given (ii_expiresAt i) = None \<and> ii_ttlMs i = None then Inl EXPIRY_REQUIRED
      else case (case date_given (ii_expiresAt i) of Some d \<Rightarrow> date_ms (ce_dp env) d
          | None \<Rightarrow> date_of_ms (issuedAt + (case ii_ttlMs i of None \<Rightarrow> 0 | Some t \<Rightarrow> t))) of
        None \<Rightarrow> Inl EXPIRY_REQUIRED
      | Some expiresAt \<Rightarrow>
          if expiresAt - issuedAt > ce_maxTtl env then Inl EXPIRY_EXCEEDS_MAX_TTL
          else case date_given (ii_notAfter i) of None \<Rightarrow> Inr expiresAt
          | Some d \<Rightarrow> case date_ms (ce_dp env) d of None \<Rightarrow> Inl EXPIRY_REQUIRED
            | Some notAfter \<Rightarrow> if notAfter \<le> issuedAt then Inl EXPIRY_REQUIRED
                else Inr (if expiresAt > notAfter then notAfter else expiresAt))"

record issue_terms =
  it_capabilities :: "string list"
  it_scope :: cred_scope
  it_metadata :: "cred_metadata option"
  it_expiresAt :: int

definition has_credential :: "cred_registry \<Rightarrow> string \<Rightarrow> bool" where
  "has_credential st i \<longleftrightarrow> jm_get (rg_credentials st) i \<noteq> None"

definition validateIssueAt :: "cred_env \<Rightarrow> cred_registry \<Rightarrow> issue_input \<Rightarrow> int \<Rightarrow> bool \<Rightarrow> cred_error + issue_terms" where
  "validateIssueAt env st i issuedAt requireFuture =
     (if act_type (ii_actor i) \<notin> set actor_credential_types then Inl UNSUPPORTED_ACTOR_TYPE
      else if ii_audience i \<notin> set actor_credential_audiences then Inl UNKNOWN_AUDIENCE
      else case normalizeCredentialCapabilities (ii_capabilities i) of Inl e \<Rightarrow> Inl e
      | Inr caps \<Rightarrow> case normalizeCredentialScope (ii_scope i) of Inl e \<Rightarrow> Inl e
      | Inr scope \<Rightarrow> case resolveExpiry env i issuedAt of Inl e \<Rightarrow> Inl e
      | Inr expiresAt \<Rightarrow>
          if requireFuture \<and> expiresAt \<le> issuedAt then Inl EXPIRY_REQUIRED
          else if (case truthy (ii_id i) of Some x \<Rightarrow> has_credential st x | None \<Rightarrow> False) then Inl DUPLICATE_CREDENTIAL_ID
          else Inr \<lparr>it_capabilities = caps, it_scope = scope, it_metadata = normalizeCredentialMetadata (ii_metadata i),
            it_expiresAt = expiresAt\<rparr>)"

text \<open>A value or a random id, with the state after drawing it.\<close>

definition or_draw :: "cred_env \<Rightarrow> string option \<Rightarrow> cred_registry \<Rightarrow> string \<times> cred_registry" where
  "or_draw env a st = (case a of Some s \<Rightarrow> (s, st) | None \<Rightarrow> (ce_uuid env (rg_draws st), st\<lparr>rg_draws := rg_draws st + 1\<rparr>))"

definition put_credential :: "cred_registry \<Rightarrow> credential \<Rightarrow> cred_registry" where
  "put_credential st c = st\<lparr>rg_credentials := jm_set (rg_credentials st) (cd_id c) c\<rparr>"

definition issueAt ::
  "cred_env \<Rightarrow> cred_registry \<Rightarrow> issue_input \<Rightarrow> int \<Rightarrow> 8 word list \<Rightarrow> cred_error + (cred_registry \<times> string \<times> public_credential)" where
  "issueAt env st i issuedAt bytes =
     (case validateIssueAt env st i issuedAt False of Inl e \<Rightarrow> Inl e
      | Inr t \<Rightarrow> case or_draw env (ii_id i) st of (new_id, st1) \<Rightarrow>
          if has_credential st1 new_id then Inl DUPLICATE_CREDENTIAL_ID
          else case or_draw env (ii_correlationId i) st1 of (correlation, st2) \<Rightarrow>
            let c = \<lparr>cd_id = new_id, cd_actor = (ii_actor i)\<lparr>act_label := truthy (act_label (ii_actor i))\<rparr>,
                  cd_issuer = (ii_issuer i)\<lparr>iss_label := truthy (iss_label (ii_issuer i))\<rparr>, cd_grantId = truthy (ii_grantId i),
                  cd_audience = ii_audience i, cd_capabilities = it_capabilities t, cd_scope = it_scope t,
                  cd_metadata = it_metadata t, cd_issuedAt = ce_toIso env issuedAt, cd_expiresAt = ce_toIso env (it_expiresAt t),
                  cd_revokedAt = None, cd_revokedBy = None, cd_revocationReason = None, cd_correlationId = correlation,
                  cd_secretHash = ce_sha env (to_hex bytes)\<rparr>;
                st3 = recordAudit env (put_credential st2 c)
                  \<lparr>nt_action = ''issue'', nt_decision = ''allow'', nt_reasonCode = ''ACTOR_CREDENTIAL_ISSUED'', nt_credential = Some c,
                   nt_required = [], nt_granted = it_capabilities t, nt_denied = [], nt_correlationId = truthy (ii_correlationId i),
                   nt_scope = credential_scope_json (it_scope t),
                   nt_params = js_obj [(''credentialId'', JStr new_id), (''actor'', cred_actor_json (cd_actor c)),
                     (''metadata'', case it_metadata t of None \<Rightarrow> JUndef | Some m \<Rightarrow> metadata_json m)]\<rparr>
            in Inr (st3, scoped_token new_id (to_hex bytes), publicCredential c))"

text \<open>A prepared issuance is an object of its own, here a number.\<close>

definition prepareIssue :: "cred_env \<Rightarrow> cred_registry \<Rightarrow> issue_input \<Rightarrow> int \<Rightarrow> bool \<Rightarrow> cred_error + (cred_registry \<times> nat)" where
  "prepareIssue env st i now requireFuture =
     (case validateIssueAt env st i now requireFuture of Inl e \<Rightarrow> Inl e
      | Inr _ \<Rightarrow> Inr (st\<lparr>rg_prepared := jm_set (rg_prepared st) (rg_handles st) (i, now), rg_handles := rg_handles st + 1\<rparr>, rg_handles st))"

definition issuePrepared ::
  "cred_env \<Rightarrow> cred_registry \<Rightarrow> nat \<Rightarrow> 8 word list \<Rightarrow> cred_error + (cred_registry \<times> string \<times> public_credential)" where
  "issuePrepared env st handle bytes =
     (case jm_get (rg_prepared st) handle of None \<Rightarrow> Inl PREPARED_INVALID
      | Some (i, issuedAt) \<Rightarrow> case issueAt env st i issuedAt bytes of Inl e \<Rightarrow> Inl e
        | Inr (st1, token, c) \<Rightarrow> Inr (st1\<lparr>rg_prepared := jm_delete (rg_prepared st1) handle\<rparr>, token, c))"

section \<open>Restoring\<close>

record import_input =
  im_id :: string
  im_actor :: cred_actor
  im_issuer :: cred_issuer
  im_grantId :: "string option"
  im_audience :: string
  im_capabilities :: "string list"
  im_scope :: json
  im_metadata :: json
  im_issuedAt :: string
  im_expiresAt :: string
  im_revokedAt :: "string option"
  im_revokedBy :: "string option"
  im_revocationReason :: "string option"
  im_correlationId :: "string option"
  im_secretHash :: string

text \<open>\<open>new Date(s).toISOString()\<close> throws for an invalid date.\<close>

definition iso_again :: "cred_env \<Rightarrow> string option \<Rightarrow> cred_error + string option" where
  "iso_again env a = (case truthy a of None \<Rightarrow> Inr None
     | Some s \<Rightarrow> (case ce_dp env s of None \<Rightarrow> Inl INVALID_DATE | Some t \<Rightarrow> Inr (Some (ce_toIso env t))))"

definition importCredential :: "cred_env \<Rightarrow> cred_registry \<Rightarrow> import_input \<Rightarrow> cred_error + (cred_registry \<times> public_credential)" where
  "importCredential env st i =
     (if act_type (im_actor i) \<notin> set actor_credential_types then Inl UNSUPPORTED_ACTOR_TYPE
      else if im_audience i \<notin> set actor_credential_audiences then Inl UNKNOWN_AUDIENCE
      else case normalizeCredentialCapabilities (im_capabilities i) of Inl e \<Rightarrow> Inl e
      | Inr caps \<Rightarrow> case normalizeCredentialScope (im_scope i) of Inl e \<Rightarrow> Inl e
      | Inr scope \<Rightarrow>
          if \<not> is_sha_digest (im_secretHash i) then Inl INVALID_SECRET_HASH
          else case (ce_dp env (im_issuedAt i), ce_dp env (im_expiresAt i)) of
            (Some issued, Some expires) \<Rightarrow>
              if has_credential st (im_id i) then Inl DUPLICATE_CREDENTIAL_ID
              else (case iso_again env (im_revokedAt i) of Inl e \<Rightarrow> Inl e
              | Inr revokedAt \<Rightarrow> case or_draw env (im_correlationId i) st of (correlation, st1) \<Rightarrow>
                let c = \<lparr>cd_id = im_id i, cd_actor = (im_actor i)\<lparr>act_label := truthy (act_label (im_actor i))\<rparr>,
                      cd_issuer = (im_issuer i)\<lparr>iss_label := truthy (iss_label (im_issuer i))\<rparr>, cd_grantId = truthy (im_grantId i),
                      cd_audience = im_audience i, cd_capabilities = caps, cd_scope = scope,
                      cd_metadata = normalizeCredentialMetadata (im_metadata i), cd_issuedAt = ce_toIso env issued,
                      cd_expiresAt = ce_toIso env expires, cd_revokedAt = revokedAt, cd_revokedBy = truthy (im_revokedBy i),
                      cd_revocationReason = truthy (im_revocationReason i), cd_correlationId = correlation,
                      cd_secretHash = im_secretHash i\<rparr>;
                    st2 = recordAudit env (put_credential st1 c)
                      \<lparr>nt_action = ''issue'', nt_decision = ''allow'', nt_reasonCode = ''ACTOR_CREDENTIAL_RESTORED'',
                       nt_credential = Some c, nt_required = [], nt_granted = caps, nt_denied = [], nt_correlationId = None,
                       nt_scope = credential_scope_json scope,
                       nt_params = js_obj [(''credentialId'', JStr (im_id i)), (''actor'', cred_actor_json (cd_actor c)),
                         (''restored'', JBool True), (''revoked'', JBool (is_truthy revokedAt))]\<rparr>
                in Inr (st2, publicCredential c))
          | _ \<Rightarrow> Inl EXPIRY_REQUIRED)"

section \<open>Validation\<close>

record validate_input =
  vi_audience :: string
  vi_required :: "string list"
  vi_scope :: "scope_request option"
  vi_correlationId :: "string option"

datatype cred_result =
    CredOk public_credential "string list"
  | CredDenied cred_failure "string option" "string list"

definition requested_json :: "validate_input \<Rightarrow> json" where
  "requested_json v = (case vi_scope v of None \<Rightarrow> JNull | Some q \<Rightarrow> scope_request_json q)"

definition validation_scope :: "credential \<Rightarrow> validate_input \<Rightarrow> json" where
  "validation_scope c v = JObj [(''credentialScope'', credential_scope_json (cd_scope c)), (''requestedScope'', requested_json v)]"

definition validation_params :: "credential \<Rightarrow> validate_input \<Rightarrow> json" where
  "validation_params c v = JObj [(''credentialId'', JStr (cd_id c)), (''audience'', JStr (vi_audience v)),
     (''requiredCapabilities'', JArr (map JStr (vi_required v)))]"

definition deny_credential ::
  "cred_env \<Rightarrow> cred_registry \<Rightarrow> cred_failure \<Rightarrow> string option \<Rightarrow> validate_input \<Rightarrow> string list \<Rightarrow> cred_registry \<times> cred_result" where
  "deny_credential env st reason credentialId v denied =
     (let c = (case truthy credentialId of None \<Rightarrow> None | Some i \<Rightarrow> jm_get (rg_credentials st) i) in
      (recordAudit env st
         \<lparr>nt_action = (if reason = ExpiredCredential then ''expiry'' else ''validate''),
          nt_decision = (if reason = ExpiredCredential then ''expired'' else if reason = RevokedCredential then ''revoked'' else ''deny''),
          nt_reasonCode = validationReasonCode reason, nt_credential = c, nt_required = [], nt_granted = [],
          nt_denied = knownDeniedCapabilities denied, nt_correlationId = truthy (vi_correlationId v),
          nt_scope = (case c of None \<Rightarrow> JUndef | Some x \<Rightarrow> validation_scope x v),
          nt_params = (case c of None \<Rightarrow> JObj [(''credentialId'', or_null_str credentialId), (''reason'', JStr (failure_name reason))]
            | Some x \<Rightarrow> validation_params x v)\<rparr>,
       CredDenied reason (truthy credentialId) denied))"

definition cred_expired :: "cred_env \<Rightarrow> public_credential \<Rightarrow> int \<Rightarrow> bool" where
  "cred_expired env c now \<longleftrightarrow> (case ce_dp env (cd_expiresAt c) of Some t \<Rightarrow> t \<le> now | None \<Rightarrow> False)"

definition cred_validate :: "cred_env \<Rightarrow> cred_registry \<Rightarrow> int \<Rightarrow> string \<Rightarrow> validate_input \<Rightarrow> cred_registry \<times> cred_result" where
  "cred_validate env st now token v =
     (case parseScopedActorToken token of None \<Rightarrow> deny_credential env st MalformedCredential None v []
      | Some (i, secret) \<Rightarrow>
        case jm_get (rg_credentials st) i of None \<Rightarrow> deny_credential env st MalformedCredential (Some i) v []
        | Some c \<Rightarrow>
          if \<not> sameSecretHash (ce_sha env) (cd_secretHash c) secret then deny_credential env st MalformedCredential (Some i) v []
          else if act_type (cd_actor c) \<notin> set actor_credential_types then deny_credential env st UnsupportedActorType (Some (cd_id c)) v []
          else if vi_audience v \<notin> set actor_credential_audiences then deny_credential env st UnknownAudience (Some (cd_id c)) v []
          else if cd_audience c \<noteq> vi_audience v then deny_credential env st WrongAudience (Some (cd_id c)) v []
          else if cred_expired env (publicCredential c) now then
            (recordAudit env st
               \<lparr>nt_action = ''expiry'', nt_decision = ''expired'', nt_reasonCode = ''ACTOR_CREDENTIAL_EXPIRED'', nt_credential = Some c,
                nt_required = [], nt_granted = [], nt_denied = knownDeniedCapabilities (vi_required v),
                nt_correlationId = truthy (vi_correlationId v), nt_scope = validation_scope c v, nt_params = validation_params c v\<rparr>,
             CredDenied ExpiredCredential (Some (cd_id c)) (vi_required v))
          else if is_truthy (cd_revokedAt c) then deny_credential env st RevokedCredential (Some (cd_id c)) v (vi_required v)
          else case truthy (List.find (\<lambda>b. \<not> isRelayCapabilityBit (JStr b)) (vi_required v)) of
            Some b \<Rightarrow> deny_credential env st UnknownCapability (Some (cd_id c)) v [b]
          | None \<Rightarrow>
            let missing = filter (\<lambda>b. b \<notin> set (cd_capabilities c)) (vi_required v) in
            if missing \<noteq> [] then deny_credential env st InsufficientCapability (Some (cd_id c)) v missing
            else case validateCredentialScope (cd_scope c) (vi_scope v) of
              Some f \<Rightarrow> deny_credential env st f (Some (cd_id c)) v (vi_required v)
            | None \<Rightarrow>
              (recordAudit env st
                 \<lparr>nt_action = ''validate'', nt_decision = ''allow'', nt_reasonCode = ''ACTOR_CREDENTIAL_ALLOWED'', nt_credential = Some c,
                  nt_required = vi_required v, nt_granted = vi_required v, nt_denied = [],
                  nt_correlationId = truthy (vi_correlationId v), nt_scope = validation_scope c v, nt_params = validation_params c v\<rparr>,
               CredOk (publicCredential c) (vi_required v)))"

section \<open>Revocation\<close>

record revoke_input =
  rv_revokedBy :: string
  rv_reason :: "string option"
  rv_correlationId :: "string option"

definition revoked_credential :: "cred_env \<Rightarrow> int \<Rightarrow> revoke_input \<Rightarrow> credential \<Rightarrow> credential" where
  "revoked_credential env now r c = c\<lparr>cd_revokedAt := Some (ce_toIso env now), cd_revokedBy := Some (rv_revokedBy r),
     cd_revocationReason := (case Option.bind (truthy (rv_reason r)) (\<lambda>s. redactString (JStr s)) of
        Some x \<Rightarrow> Some x | None \<Rightarrow> cd_revocationReason c)\<rparr>"

definition cred_revoke ::
  "cred_env \<Rightarrow> cred_registry \<Rightarrow> int \<Rightarrow> string \<Rightarrow> revoke_input \<Rightarrow> cred_registry \<times> public_credential option" where
  "cred_revoke env st now i r =
     (case jm_get (rg_credentials st) i of None \<Rightarrow> (st, None)
      | Some c0 \<Rightarrow>
        let c = revoked_credential env now r c0 in
        (recordAudit env (st\<lparr>rg_credentials := jm_set (rg_credentials st) i c\<rparr>)
           \<lparr>nt_action = ''revoke'', nt_decision = ''revoked'', nt_reasonCode = ''ACTOR_CREDENTIAL_REVOKED'', nt_credential = Some c,
            nt_required = [], nt_granted = [], nt_denied = [], nt_correlationId = truthy (rv_correlationId r),
            nt_scope = credential_scope_json (cd_scope c),
            nt_params = JObj [(''credentialId'', JStr i), (''revokedBy'', JStr (rv_revokedBy r)), (''reason'', or_null_str (rv_reason r))]\<rparr>,
         Some (publicCredential c)))"

definition revoke_if_granted ::
  "cred_env \<Rightarrow> int \<Rightarrow> string \<Rightarrow> revoke_input \<Rightarrow> cred_registry \<times> public_credential list \<Rightarrow> string \<Rightarrow> cred_registry \<times> public_credential list" where
  "revoke_if_granted env now grantId r acc k =
     (case jm_get (rg_credentials (fst acc)) k of None \<Rightarrow> acc
      | Some c \<Rightarrow>
        if cd_grantId c \<noteq> Some grantId \<or> is_truthy (cd_revokedAt c) \<or> cred_expired env (publicCredential c) now then acc
        else case cred_revoke env (fst acc) now (cd_id c) r of
          (st, Some p) \<Rightarrow> (st, snd acc @ [p]) | (st, None) \<Rightarrow> (st, snd acc))"

definition cred_revokeByGrantId ::
  "cred_env \<Rightarrow> cred_registry \<Rightarrow> int \<Rightarrow> string \<Rightarrow> revoke_input \<Rightarrow> cred_registry \<times> public_credential list" where
  "cred_revokeByGrantId env st now grantId r = foldl (revoke_if_granted env now grantId r) (st, []) (map fst (rg_credentials st))"

section \<open>Reading\<close>

definition listCredentials :: "cred_registry \<Rightarrow> public_credential list" where
  "listCredentials st = map (\<lambda>c. publicCredential c) (jm_values (rg_credentials st))"

definition getCredential :: "cred_registry \<Rightarrow> string \<Rightarrow> public_credential option" where
  "getCredential st i = map_option (\<lambda>c. publicCredential c) (jm_get (rg_credentials st) i)"

end
