(* ===== verification/Credential_Covers.thy ===== *)
theory Credential_Covers
  imports Credential_Scope
begin

text \<open>
  Tokens and scopes of actor credentials, characterised: which texts are tokens, and which requests a scope covers.
\<close>

section \<open>Tokens\<close>

lemma split_on_nonempty: "split_on d s \<noteq> []"
  by (induction d s rule: split_on.induct) (auto split: list.split)

lemma split_on_one: "split_on d s = [a] \<longleftrightarrow> s = a \<and> d \<notin> set a"
proof (induction s arbitrary: a)
  case (Cons c s)
  show ?case
  proof (cases "c = d")
    case True
    then show ?thesis using split_on_nonempty by auto
  next
    case False
    then have "split_on d (c # s) = [a] \<longleftrightarrow> (\<exists>b. a = c # b \<and> split_on d s = [b])"
      using split_on_nonempty [of d s] by (cases "split_on d s") auto
    also have "\<dots> \<longleftrightarrow> c # s = a \<and> d \<notin> set a" unfolding Cons.IH using False by auto
    finally show ?thesis .
  qed
qed auto

lemma split_on_more:
  "split_on d s = a # p # ps \<longleftrightarrow> (\<exists>s'. s = a @ d # s' \<and> d \<notin> set a \<and> split_on d s' = p # ps)"
proof (induction s arbitrary: a)
  case (Cons c s)
  show ?case
  proof (cases "c = d")
    case True
    then show ?thesis by (cases a) auto
  next
    case False
    show ?thesis
    proof (cases a)
      case Nil
      with False show ?thesis by (auto split: list.split)
    next
      case (Cons x b)
      have "split_on d (c # s) = a # p # ps \<longleftrightarrow> x = c \<and> split_on d s = b # p # ps"
        using False split_on_nonempty [of d s] Cons by (cases "split_on d s") auto
      also have "\<dots> \<longleftrightarrow> (\<exists>s'. c # s = a @ d # s' \<and> d \<notin> set a \<and> split_on d s' = p # ps)"
        unfolding Cons.IH using False Cons by auto
      finally show ?thesis .
    qed
  qed
qed auto

lemma parse_token_iff:
  "parseScopedActorToken token = Some (i, secret) \<longleftrightarrow>
    token = scoped_token i secret \<and> i \<noteq> [] \<and> secret \<noteq> [] \<and> CHR ''.'' \<notin> set i \<and> CHR ''.'' \<notin> set secret"
proof -
  have "CHR ''.'' \<notin> set token_prefix" by (simp add: token_prefix_def)
  then have three: "split_on CHR ''.'' token = [token_prefix, i, secret] \<longleftrightarrow>
      token = scoped_token i secret \<and> CHR ''.'' \<notin> set i \<and> CHR ''.'' \<notin> set secret"
    by (auto simp: split_on_more split_on_one scoped_token_def)
  have "parseScopedActorToken token = Some (i, secret) \<longleftrightarrow> split_on CHR ''.'' token = [token_prefix, i, secret] \<and> i \<noteq> [] \<and> secret \<noteq> []"
    by (auto simp: parseScopedActorToken_def split: list.splits)
  with three show ?thesis by blast
qed

lemma json_hex_not_dot: "n < 16 \<Longrightarrow> json_hex n \<noteq> CHR ''.''"
  using json_hex_code [of n] by (auto split: if_split_asm)

lemma to_hex_dotless: "CHR ''.'' \<notin> set (to_hex bs)"
proof -
  have "json_hex (unat b div 16) \<noteq> CHR ''.'' \<and> json_hex (unat b mod 16) \<noteq> CHR ''.''" for b :: "8 word"
  proof -
    have "unat b < 2 ^ LENGTH(8)" by (rule unsigned_less)
    then have "unat b div 16 < 16" "unat b mod 16 < 16" by (simp_all add: less_mult_imp_div_less)
    then show ?thesis by (simp add: json_hex_not_dot)
  qed
  then have "CHR ''.'' \<noteq> json_hex (unat b div 16)" "CHR ''.'' \<noteq> json_hex (unat b mod 16)" for b :: "8 word"
    by metis+
  then show ?thesis by (induction bs) (simp_all add: to_hex_def)
qed

lemma to_hex_empty: "to_hex bs = [] \<longleftrightarrow> bs = []"
  by (cases bs) (simp_all add: to_hex_def)

section \<open>Scopes\<close>

text \<open>What a scope covers: a dimension it restricts must be asked for within its values (the work context may be deferred, if it
  is not asked for), and a channel may be asked for only where channels are listed.\<close>

definition dimension_covers :: "string list option \<Rightarrow> string option \<Rightarrow> bool" where
  "dimension_covers vs r \<longleftrightarrow> (case vs of None \<Rightarrow> True | Some xs \<Rightarrow> (case truthy r of None \<Rightarrow> False | Some x \<Rightarrow> x \<in> set xs))"

definition asked :: "string list option \<Rightarrow> string option \<Rightarrow> string list" where
  "asked rs r = filter (\<lambda>s. trim s \<noteq> []) (case rs of Some xs \<Rightarrow> xs | None \<Rightarrow> (case truthy r of None \<Rightarrow> [] | Some x \<Rightarrow> [x]))"

definition scope_covers :: "cred_scope \<Rightarrow> scope_request \<Rightarrow> bool" where
  "scope_covers s q \<longleftrightarrow>
     dimension_covers (sp_nodeIds s) (rq_nodeId q) \<and> dimension_covers (sp_sessionIds s) (rq_sessionId q) \<and>
     dimension_covers (sp_globalSessionIds s) (rq_globalSessionId q) \<and>
     (case sp_workContextIds s of None \<Rightarrow> True
      | Some xs \<Rightarrow> set (asked (rq_workContextIds q) (rq_workContextId q)) \<subseteq> set xs \<and>
          (asked (rq_workContextIds q) (rq_workContextId q) = [] \<longrightarrow> rq_deferWorkContextScope q = Some True)) \<and>
     (case sp_channelIds s of None \<Rightarrow> asked (rq_channelIds q) (rq_channelId q) = []
      | Some xs \<Rightarrow> asked (rq_channelIds q) (rq_channelId q) \<noteq> [] \<and> set (asked (rq_channelIds q) (rq_channelId q)) \<subseteq> set xs) \<and>
     dimension_covers (sp_repoIds s) (rq_repoId q) \<and>
     (case sp_pathPrefixes s of None \<Rightarrow> True
      | Some ps \<Rightarrow> (case truthy (rq_path q) of None \<Rightarrow> False | Some x \<Rightarrow> \<exists>p\<in>set ps. pathMatchesCredentialPrefix x p)) \<and>
     dimension_covers (sp_taskRefs s) (rq_taskRef q)"

definition scope_normal :: "cred_scope \<Rightarrow> bool" where
  "scope_normal s \<longleftrightarrow> sp_nodeIds s \<noteq> Some [] \<and> sp_sessionIds s \<noteq> Some [] \<and> sp_globalSessionIds s \<noteq> Some [] \<and>
     sp_workContextIds s \<noteq> Some [] \<and> sp_channelIds s \<noteq> Some [] \<and> sp_repoIds s \<noteq> Some [] \<and> sp_pathPrefixes s \<noteq> Some [] \<and>
     sp_taskRefs s \<noteq> Some []"

definition rule_passes :: "scope_rule \<Rightarrow> bool" where
  "rule_passes r \<longleftrightarrow> (if some_list (sr_values r) then list_all (sr_matches r (list_of (sr_values r))) (list_of (sr_requested r))
     else \<not> (some_list (sr_requested r) \<and> sr_required r))"

definition rule_absent :: "scope_rule \<Rightarrow> bool" where
  "rule_absent r \<longleftrightarrow> sr_values r \<noteq> None \<and> sr_requested r = None \<and> \<not> sr_deferred r"

lemma check_rules_None: "check_rules rs = None \<longleftrightarrow> list_all rule_passes rs"
  by (induction rs) (auto simp: rule_passes_def some_list_def list_of_def split: option.splits)

lemma singleton_asked: "singletonScopeValue r = map_option (\<lambda>x. [x]) (truthy r)"
  by (simp add: singletonScopeValue_def)

lemma normalized_asked:
  "normalizedRequestedScopeValues (nullish rs (singletonScopeValue r)) = (if asked rs r = [] then None else Some (asked rs r))"
  by (auto simp: normalizedRequestedScopeValues_def asked_def nullish_def singletonScopeValue_def Let_def split: option.split)

lemma validate_scope_iff:
  assumes "scope_normal s"
  shows "validateCredentialScope s expected = None \<longleftrightarrow> scope_covers s (case expected of None \<Rightarrow> no_request | Some q \<Rightarrow> q)"
proof -
  define q where "q = (case expected of None \<Rightarrow> no_request | Some q \<Rightarrow> q)"
  have ne: "sp_nodeIds s \<noteq> Some []" "sp_sessionIds s \<noteq> Some []" "sp_globalSessionIds s \<noteq> Some []" "sp_workContextIds s \<noteq> Some []"
    "sp_channelIds s \<noteq> Some []" "sp_repoIds s \<noteq> Some []" "sp_pathPrefixes s \<noteq> Some []" "sp_taskRefs s \<noteq> Some []"
    using assms by (simp_all add: scope_normal_def)
  define fits where "fits = (\<lambda>r. rule_passes r \<and> \<not> rule_absent r)"
  have "validateCredentialScope s expected = None \<longleftrightarrow> list_all rule_passes (scope_rules s q) \<and> \<not> list_ex rule_absent (scope_rules s q)"
    unfolding validateCredentialScope_def Let_def q_def [symmetric] check_rules_None [symmetric] rule_absent_def
    by (simp split: option.split)
  also have "\<dots> \<longleftrightarrow> list_all fits (scope_rules s q)"
    by (auto simp: fits_def list_all_iff list_ex_iff)
  also have "\<dots> \<longleftrightarrow> scope_covers s q"
  proof -
    have single: "fits (plain_rule vs (singletonScopeValue r) wrong) \<longleftrightarrow> dimension_covers vs r" if "vs \<noteq> Some []" for vs r wrong
      using that by (auto simp: fits_def rule_passes_def rule_absent_def plain_rule_def singletonScopeValue_def some_list_def list_of_def dimension_covers_def
          listIncludesRequestedValue_def split: option.splits)
    have work: "fits ((plain_rule vs (if a = [] then None else Some a) wrong)\<lparr>sr_deferred := d\<rparr>) \<longleftrightarrow>
        (case vs of None \<Rightarrow> True | Some xs \<Rightarrow> set a \<subseteq> set xs \<and> (a = [] \<longrightarrow> d))" if "vs \<noteq> Some []" for vs a wrong d
      using that by (auto simp: fits_def rule_passes_def rule_absent_def plain_rule_def some_list_def list_of_def listIncludesRequestedValue_def list_all_iff split: option.splits)
    have channel: "fits ((plain_rule vs (if a = [] then None else Some a) wrong)\<lparr>sr_required := True\<rparr>) \<longleftrightarrow>
        (case vs of None \<Rightarrow> a = [] | Some xs \<Rightarrow> a \<noteq> [] \<and> set a \<subseteq> set xs)" if "vs \<noteq> Some []" for vs a wrong
      using that by (auto simp: fits_def rule_passes_def rule_absent_def plain_rule_def some_list_def list_of_def listIncludesRequestedValue_def list_all_iff split: option.splits)
    have path: "fits ((plain_rule vs (singletonScopeValue r) wrong)\<lparr>sr_matches := (\<lambda>prefixes path. list_ex (pathMatchesCredentialPrefix path) prefixes)\<rparr>) \<longleftrightarrow>
        (case vs of None \<Rightarrow> True | Some ps \<Rightarrow> (case truthy r of None \<Rightarrow> False | Some x \<Rightarrow> \<exists>p\<in>set ps. pathMatchesCredentialPrefix x p))"
      if "vs \<noteq> Some []" for vs r wrong
      using that by (auto simp: fits_def rule_passes_def rule_absent_def plain_rule_def singletonScopeValue_def some_list_def list_of_def list_ex_iff split: option.splits)
    show ?thesis
      unfolding scope_rules_def normalized_asked list.pred_inject single [OF ne(1)] single [OF ne(2)] single [OF ne(3)] work [OF ne(4)]
        channel [OF ne(5)] single [OF ne(6)] path [OF ne(7)] single [OF ne(8)] scope_covers_def by simp
  qed
  finally show ?thesis by (simp add: q_def)
qed

end
