(* ===== verification/Credential_Safety.thy ===== *)
theory Credential_Safety
  imports Actor_Credentials Credential_Covers
begin

text \<open>
  What the registry of actor credentials guarantees: validation accepts exactly what a live credential covers, what is issued works
  until it expires or is revoked, revocation is permanent, and the ring of audit events is the recent end of the log.
\<close>

section \<open>Auditing leaves the credentials alone\<close>

lemma append_event_rest [simp]:
  "rg_credentials (appendAuditEvent env st e b) = rg_credentials st" "rg_prepared (appendAuditEvent env st e b) = rg_prepared st"
  "rg_handles (appendAuditEvent env st e b) = rg_handles st"
  by (simp_all add: appendAuditEvent_def split: option.split)

lemma record_audit_rest [simp]:
  "rg_credentials (recordAudit env st n) = rg_credentials st" "rg_prepared (recordAudit env st n) = rg_prepared st"
  "rg_handles (recordAudit env st n) = rg_handles st"
  by (simp_all add: recordAudit_def Let_def)

lemma deny_rest [simp]:
  "rg_credentials (fst (deny_credential env st f i v d)) = rg_credentials st" "rg_prepared (fst (deny_credential env st f i v d)) = rg_prepared st"
  "snd (deny_credential env st f i v d) = CredDenied f (truthy i) d"
  by (simp_all add: deny_credential_def Let_def)

lemma validate_rest [simp]:
  "rg_credentials (fst (cred_validate env st now token v)) = rg_credentials st"
  "rg_prepared (fst (cred_validate env st now token v)) = rg_prepared st"
  by (simp_all add: cred_validate_def Let_def split: option.split prod.split)

lemma or_draw_rest: "or_draw env a st = (x, st') \<Longrightarrow> rg_credentials st' = rg_credentials st \<and> rg_prepared st' = rg_prepared st"
  by (auto simp: or_draw_def split: option.splits)

section \<open>Validation\<close>

definition cred_accepts :: "cred_env \<Rightarrow> credential \<Rightarrow> int \<Rightarrow> string \<Rightarrow> validate_input \<Rightarrow> bool" where
  "cred_accepts env c now secret v \<longleftrightarrow>
     sameSecretHash (ce_sha env) (cd_secretHash c) secret \<and> act_type (cd_actor c) \<in> set actor_credential_types \<and>
     vi_audience v \<in> set actor_credential_audiences \<and> cd_audience c = vi_audience v \<and>
     \<not> cred_expired env (publicCredential c) now \<and> \<not> is_truthy (cd_revokedAt c) \<and>
     set (vi_required v) \<subseteq> set (cd_capabilities c) \<and> truthy (List.find (\<lambda>b. \<not> isRelayCapabilityBit (JStr b)) (vi_required v)) = None \<and>
     validateCredentialScope (cd_scope c) (vi_scope v) = None"

lemma validate_ok_iff:
  "snd (cred_validate env st now token v) = CredOk p bits \<longleftrightarrow>
    (\<exists>i secret c. parseScopedActorToken token = Some (i, secret) \<and> jm_get (rg_credentials st) i = Some c \<and>
       cred_accepts env c now secret v \<and> p = publicCredential c \<and> bits = vi_required v)"
  by (auto simp: cred_validate_def cred_accepts_def Let_def filter_empty_conv split: option.split prod.split)

section \<open>The registry as a transition system\<close>

datatype cred_op =
    CoIssue issue_input int "8 word list"
  | CoPrepare issue_input int bool
  | CoIssuePrepared nat "8 word list"
  | CoImport import_input
  | CoValidate int string validate_input
  | CoRevoke int string revoke_input
  | CoRevokeGrant int string revoke_input

text \<open>An operation that throws leaves the registry as it was.\<close>

definition done_or :: "cred_registry \<Rightarrow> cred_error + (cred_registry \<times> 'a) \<Rightarrow> cred_registry" where
  "done_or st r = (case r of Inl _ \<Rightarrow> st | Inr x \<Rightarrow> fst x)"

fun cred_step :: "cred_env \<Rightarrow> cred_registry \<Rightarrow> cred_op \<Rightarrow> cred_registry" where
  "cred_step env st (CoIssue i now bytes) = done_or st (issueAt env st i now bytes)"
| "cred_step env st (CoPrepare i now future) = done_or st (prepareIssue env st i now future)"
| "cred_step env st (CoIssuePrepared h bytes) = done_or st (issuePrepared env st h bytes)"
| "cred_step env st (CoImport i) = done_or st (importCredential env st i)"
| "cred_step env st (CoValidate now token v) = fst (cred_validate env st now token v)"
| "cred_step env st (CoRevoke now i r) = fst (cred_revoke env st now i r)"
| "cred_step env st (CoRevokeGrant now g r) = fst (cred_revokeByGrantId env st now g r)"

abbreviation cred_at :: "cred_registry \<Rightarrow> string \<Rightarrow> credential option" where
  "cred_at st i \<equiv> jm_get (rg_credentials st) i"

definition cred_inv :: "cred_registry \<Rightarrow> bool" where
  "cred_inv st \<longleftrightarrow> jm_wf (rg_credentials st) \<and> (\<forall>i c. cred_at st i = Some c \<longrightarrow> cd_id c = i)"

lemma cred_map_set: "jm_get (jm_set m k v) i = (if i = k then Some v else jm_get m i)"
  by (simp add: jm_get_def map_of_jm_set)

lemma cred_at_put: "cred_at (put_credential st c) i = (if i = cd_id c then Some c else cred_at st i)"
  by (simp add: put_credential_def cred_map_set)

text \<open>What an issuance or an import does to the map: a new credential under a new id.\<close>

definition adds :: "cred_registry \<Rightarrow> cred_registry \<Rightarrow> credential \<Rightarrow> bool" where
  "adds st st' c \<longleftrightarrow> cred_at st (cd_id c) = None \<and> rg_credentials st' = jm_set (rg_credentials st) (cd_id c) c"

lemma issue_adds:
  assumes "issueAt env st i now bytes = Inr (st', token, p)"
  obtains c t where "adds st st' c" "p = publicCredential c" "token = scoped_token (cd_id c) (to_hex bytes)"
    "validateIssueAt env st i now False = Inr t" "cd_secretHash c = ce_sha env (to_hex bytes)" "cd_revokedAt c = None"
    "cd_actor c = (ii_actor i)\<lparr>act_label := truthy (act_label (ii_actor i))\<rparr>" "cd_audience c = ii_audience i"
    "cd_capabilities c = it_capabilities t" "cd_scope c = it_scope t" "cd_expiresAt c = ce_toIso env (it_expiresAt t)"
    "cd_grantId c = truthy (ii_grantId i)" "cd_issuedAt c = ce_toIso env now"
    "ii_id i = Some (cd_id c) \<or> ii_id i = None \<and> cd_id c = ce_uuid env (rg_draws st)"
proof -
  from assms obtain t where t: "validateIssueAt env st i now False = Inr t" by (auto simp: issueAt_def split: sum.splits)
  obtain n st1 where d1: "or_draw env (ii_id i) st = (n, st1)" by force
  obtain k st2 where d2: "or_draw env (ii_correlationId i) st1 = (k, st2)" by force
  have rest: "rg_credentials st1 = rg_credentials st" "rg_credentials st2 = rg_credentials st"
    using or_draw_rest [OF d1] or_draw_rest [OF d2] by simp_all
  have n: "ii_id i = Some n \<or> ii_id i = None \<and> n = ce_uuid env (rg_draws st)"
    using d1 by (auto simp: or_draw_def split: option.splits)
  show thesis
    by (rule that) (use assms n in \<open>auto simp: issueAt_def t d1 d2 Let_def adds_def has_credential_def rest put_credential_def split: if_splits\<close>)
qed

lemma import_adds:
  assumes "importCredential env st i = Inr (st', p)"
  obtains c issued expires where "adds st st' c" "p = publicCredential c" "cd_id c = im_id i"
    "act_type (cd_actor c) = act_type (im_actor i)" "act_type (im_actor i) \<in> set actor_credential_types"
    "cd_audience c = im_audience i" "im_audience i \<in> set actor_credential_audiences"
    "normalizeCredentialCapabilities (im_capabilities i) = Inr (cd_capabilities c)"
    "normalizeCredentialScope (im_scope i) = Inr (cd_scope c)" "is_sha_digest (im_secretHash i)" "cd_secretHash c = im_secretHash i"
    "ce_dp env (im_issuedAt i) = Some issued" "ce_dp env (im_expiresAt i) = Some expires" "cd_expiresAt c = ce_toIso env expires"
    "iso_again env (im_revokedAt i) = Inr (cd_revokedAt c)" "cd_grantId c = truthy (im_grantId i)"
proof -
  note unfold = importCredential_def
  from assms have ok: "act_type (im_actor i) \<in> set actor_credential_types" "im_audience i \<in> set actor_credential_audiences"
    by (simp_all add: unfold split: if_split_asm)
  from assms obtain caps where caps: "normalizeCredentialCapabilities (im_capabilities i) = Inr caps"
    by (cases "normalizeCredentialCapabilities (im_capabilities i)") (simp_all add: unfold ok)
  from assms obtain scope where scope: "normalizeCredentialScope (im_scope i) = Inr scope"
    by (cases "normalizeCredentialScope (im_scope i)") (simp_all add: unfold ok caps)
  from assms have digest: "is_sha_digest (im_secretHash i)"
    by (simp add: unfold ok caps scope split: if_split_asm)
  from assms obtain issued where d1: "ce_dp env (im_issuedAt i) = Some issued"
    by (cases "ce_dp env (im_issuedAt i)") (simp_all add: unfold ok caps scope digest)
  from assms obtain expires where d2: "ce_dp env (im_expiresAt i) = Some expires"
    by (cases "ce_dp env (im_expiresAt i)") (simp_all add: unfold ok caps scope digest d1)
  from assms have new: "cred_at st (im_id i) = None"
    by (simp add: unfold ok caps scope digest d1 d2 has_credential_def split: if_split_asm)
  from assms obtain rv where rv: "iso_again env (im_revokedAt i) = Inr rv"
    by (cases "iso_again env (im_revokedAt i)") (simp_all add: unfold ok caps scope digest d1 d2 new has_credential_def)
  obtain k st1 where k: "or_draw env (im_correlationId i) st = (k, st1)" by force
  have rest: "rg_credentials st1 = rg_credentials st" using or_draw_rest [OF k] by simp
  define c where "c = \<lparr>cd_id = im_id i, cd_actor = (im_actor i)\<lparr>act_label := truthy (act_label (im_actor i))\<rparr>,
      cd_issuer = (im_issuer i)\<lparr>iss_label := truthy (iss_label (im_issuer i))\<rparr>, cd_grantId = truthy (im_grantId i),
      cd_audience = im_audience i, cd_capabilities = caps, cd_scope = scope,
      cd_metadata = normalizeCredentialMetadata (im_metadata i), cd_issuedAt = ce_toIso env issued,
      cd_expiresAt = ce_toIso env expires, cd_revokedAt = rv, cd_revokedBy = truthy (im_revokedBy i),
      cd_revocationReason = truthy (im_revocationReason i), cd_correlationId = k, cd_secretHash = im_secretHash i\<rparr>"
  have res: "rg_credentials st' = jm_set (rg_credentials st) (im_id i) c" "p = publicCredential c"
    using assms by (auto simp: unfold ok caps scope digest d1 d2 new has_credential_def rv k Let_def put_credential_def rest c_def)
  show thesis
  proof (rule that [of c])
    show "adds st st' c" using res(1) new by (simp add: adds_def c_def)
  qed (simp_all add: res(2) c_def ok caps scope digest d1 d2 rv)
qed

lemma adds_at: "adds st st' c \<Longrightarrow> cred_at st' i = (if i = cd_id c then Some c else cred_at st i)"
  by (simp add: adds_def cred_map_set)

lemma adds_inv: "adds st st' c \<Longrightarrow> cred_inv st \<Longrightarrow> cred_inv st'"
proof -
  assume a: "adds st st' c" and inv: "cred_inv st"
  have "jm_wf (rg_credentials st')" using a inv by (simp add: adds_def cred_inv_def jm_wf_set)
  with inv adds_at [OF a] show "cred_inv st'" unfolding cred_inv_def by (metis option.inject)
qed

lemma issue_prepared_adds:
  assumes "issuePrepared env st h bytes = Inr (st', token, p)"
  obtains i now st1 where "issueAt env st i now bytes = Inr (st1, token, p)" "rg_credentials st' = rg_credentials st1"
    "jm_get (rg_prepared st) h = Some (i, now)"
proof (cases "jm_get (rg_prepared st) h")
  case None
  with assms show ?thesis by (simp add: issuePrepared_def)
next
  case (Some x)
  obtain i now where x: "x = (i, now)" by force
  show ?thesis
  proof (cases "issueAt env st i now bytes")
    case (Inl e)
    with assms Some x show ?thesis by (simp add: issuePrepared_def)
  next
    case (Inr y)
    obtain st1 tk c where y: "y = (st1, tk, c)" using prod_cases3 by blast
    have st': "st' = st1\<lparr>rg_prepared := jm_delete (rg_prepared st1) h\<rparr>" "tk = token" "c = p"
      using assms Inr Some x y by (auto simp: issuePrepared_def)
    show ?thesis by (rule that [of i now st1]) (use Inr Some x y st' in simp_all)
  qed
qed

lemma prepare_rest: "prepareIssue env st i now f = Inr (st', h) \<Longrightarrow> rg_credentials st' = rg_credentials st"
  by (auto simp: prepareIssue_def split: sum.splits)

lemma revoke_rest:
  "rg_credentials (fst (cred_revoke env st now i r)) = (case cred_at st i of None \<Rightarrow> rg_credentials st
     | Some c \<Rightarrow> jm_set (rg_credentials st) i (revoked_credential env now r c))"
  by (simp add: cred_revoke_def Let_def split: option.split)

lemma revoked_credential_fields [simp]:
  "cd_id (revoked_credential env now r c) = cd_id c" "cd_actor (revoked_credential env now r c) = cd_actor c"
  "cd_audience (revoked_credential env now r c) = cd_audience c" "cd_scope (revoked_credential env now r c) = cd_scope c"
  "cd_capabilities (revoked_credential env now r c) = cd_capabilities c" "cd_grantId (revoked_credential env now r c) = cd_grantId c"
  "cd_expiresAt (revoked_credential env now r c) = cd_expiresAt c" "cd_secretHash (revoked_credential env now r c) = cd_secretHash c"
  "cd_revokedAt (revoked_credential env now r c) = Some (ce_toIso env now)"
  by (simp_all add: revoked_credential_def)

lemma expired_public [simp]:
  "cred_expired env (publicCredential (revoked_credential env now r c)) t = cred_expired env (publicCredential c) t"
  by (simp add: cred_expired_def public_credential.truncate_def)

lemma revoke_at:
  "cred_at (fst (cred_revoke env st now i r)) j =
    (if j = i then map_option (revoked_credential env now r) (cred_at st i) else cred_at st j)"
  by (simp add: revoke_rest cred_map_set split: option.split)

lemma revoke_inv: "cred_inv st \<Longrightarrow> cred_inv (fst (cred_revoke env st now i r))"
  unfolding cred_inv_def by (auto simp: revoke_rest cred_map_set jm_wf_set split: option.split if_split_asm)

text \<open>The step of the loop over a grant, and the whole loop.\<close>

definition grant_hit :: "cred_env \<Rightarrow> int \<Rightarrow> string \<Rightarrow> credential \<Rightarrow> bool" where
  "grant_hit env now g c \<longleftrightarrow> cd_grantId c = Some g \<and> \<not> is_truthy (cd_revokedAt c) \<and> \<not> cred_expired env (publicCredential c) now"

definition grant_revoked :: "cred_env \<Rightarrow> int \<Rightarrow> string \<Rightarrow> revoke_input \<Rightarrow> credential \<Rightarrow> credential" where
  "grant_revoked env now g r c = (if grant_hit env now g c then revoked_credential env now r c else c)"

lemma revoke_if_granted_step:
  assumes "cred_inv (fst acc)"
  shows "cred_inv (fst (revoke_if_granted env now g r acc k)) \<and>
    cred_at (fst (revoke_if_granted env now g r acc k)) j =
      (if j = k then map_option (grant_revoked env now g r) (cred_at (fst acc) k) else cred_at (fst acc) j) \<and>
    map fst (rg_credentials (fst (revoke_if_granted env now g r acc k))) = map fst (rg_credentials (fst acc))"
proof (cases "cred_at (fst acc) k")
  case None
  then show ?thesis using assms by (simp add: revoke_if_granted_def)
next
  case (Some c)
  then have "cd_id c = k" using assms by (simp add: cred_inv_def)
  have keys: "map fst (jm_set (rg_credentials (fst acc)) k x) = map fst (rg_credentials (fst acc))" for x :: credential
    using Some by (simp add: keys_jm_set jm_get_def map_of_SomeD) (metis fst_conv image_eqI map_of_SomeD)
  show ?thesis
  proof (cases "grant_hit env now g c")
    case True
    then have "revoke_if_granted env now g r acc k =
        (fst (cred_revoke env (fst acc) now k r), snd acc @ [publicCredential (revoked_credential env now r c)])"
      using Some \<open>cd_id c = k\<close> by (simp add: revoke_if_granted_def grant_hit_def cred_revoke_def Let_def)
    then show ?thesis
      using True Some revoke_inv [OF assms] keys by (simp add: grant_revoked_def revoke_rest cred_map_set)
  next
    case False
    then have "revoke_if_granted env now g r acc k = acc"
      using Some by (auto simp: revoke_if_granted_def grant_hit_def)
    with False Some assms show ?thesis by (simp add: grant_revoked_def)
  qed
qed

lemma grant_revoked_twice: "grant_revoked env now g r (grant_revoked env now g r c) = grant_revoked env now g r c"
  if "ce_toIso env now \<noteq> []"
  using that by (simp add: grant_revoked_def grant_hit_def is_truthy_def truthy_def)

lemma revoke_grant_at:
  assumes "cred_inv st"
  shows "cred_inv (fst (cred_revokeByGrantId env st now g r)) \<and>
    cred_at (fst (cred_revokeByGrantId env st now g r)) j = map_option (grant_revoked env now g r) (cred_at st j)"
proof -
  have loop: "distinct ks \<Longrightarrow> cred_inv (fst acc) \<Longrightarrow> cred_inv (fst (foldl (revoke_if_granted env now g r) acc ks)) \<and>
      cred_at (fst (foldl (revoke_if_granted env now g r) acc ks)) j =
        (if j \<in> set ks then map_option (grant_revoked env now g r) (cred_at (fst acc) j) else cred_at (fst acc) j)" for ks acc
  proof (induction ks arbitrary: acc)
    case (Cons k ks)
    note step = revoke_if_granted_step [OF Cons.prems(2), of env now g r k]
    from Cons.IH [of "revoke_if_granted env now g r acc k"] Cons.prems(1) step show ?case by auto
  qed simp
  have "distinct (map fst (rg_credentials st))" using assms by (simp add: cred_inv_def jm_wf_def)
  note all = loop [OF this, of "(st, [])"]
  show ?thesis
  proof (cases "j \<in> set (map fst (rg_credentials st))")
    case True
    with all assms show ?thesis by (simp add: cred_revokeByGrantId_def)
  next
    case False
    then have "cred_at st j = None" by (simp add: jm_get_def map_of_eq_None_iff)
    with False all assms show ?thesis by (simp add: cred_revokeByGrantId_def)
  qed
qed

section \<open>Ageing\<close>

text \<open>However a credential ages, only its revocation fields change, and a revocation is not taken back.\<close>

definition cred_aged :: "credential \<Rightarrow> credential \<Rightarrow> bool" where
  "cred_aged c c' \<longleftrightarrow> cd_id c' = cd_id c \<and> cd_actor c' = cd_actor c \<and> cd_audience c' = cd_audience c \<and>
     cd_capabilities c' = cd_capabilities c \<and> cd_scope c' = cd_scope c \<and> cd_grantId c' = cd_grantId c \<and>
     cd_expiresAt c' = cd_expiresAt c \<and> cd_secretHash c' = cd_secretHash c \<and>
     (is_truthy (cd_revokedAt c) \<longrightarrow> is_truthy (cd_revokedAt c'))"

lemma aged_refl [simp]: "cred_aged c c"
  by (simp add: cred_aged_def)

lemma aged_trans: "cred_aged a b \<Longrightarrow> cred_aged b c \<Longrightarrow> cred_aged a c"
  by (simp add: cred_aged_def)

definition iso_printed :: "cred_env \<Rightarrow> bool" where
  "iso_printed env \<longleftrightarrow> (\<forall>t. ce_toIso env t \<noteq> [])"

lemma revoked_aged: "iso_printed env \<Longrightarrow> cred_aged c (revoked_credential env now r c)"
  by (simp add: cred_aged_def iso_printed_def is_truthy_def truthy_def)

lemma grant_aged: "iso_printed env \<Longrightarrow> cred_aged c (grant_revoked env now g r c)"
  by (simp add: grant_revoked_def revoked_aged)

lemma adds_prepared: "adds st st1 c \<Longrightarrow> rg_credentials st' = rg_credentials st1 \<Longrightarrow> adds st st' c"
  by (simp add: adds_def)

lemma step_cases:
  assumes "cred_inv st"
  shows "(\<exists>c. adds st (cred_step env st op) c) \<or> rg_credentials (cred_step env st op) = rg_credentials st \<or>
    (\<exists>now i r. op = CoRevoke now i r) \<or> (\<exists>now g r. op = CoRevokeGrant now g r)"
proof (cases op)
  case (CoIssue i now bytes)
  then show ?thesis
    by (cases "issueAt env st i now bytes") (auto simp: done_or_def elim!: issue_adds)
next
  case (CoPrepare i now f)
  then show ?thesis
    by (cases "prepareIssue env st i now f") (auto simp: done_or_def dest: prepare_rest)
next
  case (CoIssuePrepared h bytes)
  show ?thesis
  proof (cases "issuePrepared env st h bytes")
    case (Inl e)
    with CoIssuePrepared show ?thesis by (simp add: done_or_def)
  next
    case (Inr x)
    obtain st1 tk p where x: "x = (st1, tk, p)" using prod_cases3 by blast
    with Inr obtain i now st2 where i: "issueAt env st i now bytes = Inr (st2, tk, p)" "rg_credentials st1 = rg_credentials st2"
      by (auto elim: issue_prepared_adds)
    from i(1) obtain c where "adds st st2 c" by (rule issue_adds)
    with adds_prepared i(2) have "adds st st1 c" by blast
    with CoIssuePrepared Inr x show ?thesis by (auto simp: done_or_def)
  qed
next
  case (CoImport i)
  then show ?thesis
    by (cases "importCredential env st i") (auto simp: done_or_def elim!: import_adds)
qed simp_all

lemma cred_step_inv: "cred_inv st \<Longrightarrow> cred_inv (cred_step env st op)"
proof -
  assume inv: "cred_inv st"
  from step_cases [OF inv, of env op] show ?thesis
  proof (elim disjE exE)
    assume "rg_credentials (cred_step env st op) = rg_credentials st"
    with inv show ?thesis by (simp add: cred_inv_def)
  qed (use inv adds_inv revoke_inv revoke_grant_at in auto)
qed

lemma step_aged:
  assumes "cred_inv st" and "iso_printed env" and "cred_at st i = Some c"
  shows "\<exists>c'. cred_at (cred_step env st op) i = Some c' \<and> cred_aged c c'"
  using step_cases [OF assms(1), of env op]
proof (elim disjE exE)
  fix a assume a: "adds st (cred_step env st op) a"
  then have "cd_id a \<noteq> i" using assms(3) by (auto simp: adds_def)
  with adds_at [OF a] assms(3) show ?thesis by simp
next
  assume "rg_credentials (cred_step env st op) = rg_credentials st"
  with assms(3) show ?thesis by simp
next
  fix now j r assume "op = CoRevoke now j r"
  with assms(3) revoked_aged [OF assms(2)] show ?thesis by (auto simp: revoke_at)
next
  fix now g r assume "op = CoRevokeGrant now g r"
  with assms(3) revoke_grant_at [OF assms(1)] grant_aged [OF assms(2)] show ?thesis by simp
qed

lemma empty_inv: "cred_inv empty_registry"
  by (simp add: cred_inv_def empty_registry_def jm_wf_def jm_get_def)

interpretation cred_machine: state_machine "cred_step env" "\<lambda>_ _. True" cred_inv
  by unfold_locales (rule cred_step_inv)

lemma run_aged:
  assumes "cred_inv st" and "iso_printed env" and "cred_at st i = Some c"
  shows "\<exists>c'. cred_at (run (cred_step env) st ops) i = Some c' \<and> cred_aged c c'"
  using assms(1,3)
proof (induction ops arbitrary: st c)
  case (Cons op ops)
  obtain c1 where c1: "cred_at (cred_step env st op) i = Some c1" "cred_aged c c1"
    using step_aged [OF Cons.prems(1) assms(2) Cons.prems(2)] by blast
  from Cons.IH [OF cred_step_inv [OF Cons.prems(1)] c1(1)] aged_trans [OF c1(2)] show ?case by auto
qed auto

text \<open>C11: Revoking a credential is final: whatever is then issued, prepared, restored, validated or revoked, no token with that id
  is accepted at any time, for any request.\<close>

theorem credential_revocation_is_final:
  assumes "iso_printed env" and "cred_at (run (cred_step env) empty_registry ops) i = Some c"
  shows "snd (cred_validate env (run (cred_step env) (fst (cred_revoke env (run (cred_step env) empty_registry ops) now i r)) ops') t token v)
    \<noteq> CredOk p bits \<or> cd_id p \<noteq> i"
proof -
  define st where "st = run (cred_step env) empty_registry ops"
  define st1 where "st1 = fst (cred_revoke env st now i r)"
  have inv: "cred_inv st" unfolding st_def by (rule cred_machine.run_inv [OF empty_inv]) simp
  then have inv1: "cred_inv st1" unfolding st1_def by (rule revoke_inv)
  have "cred_at st1 i = Some (revoked_credential env now r c)"
    using assms(2) by (simp add: st1_def revoke_at st_def)
  from run_aged [OF inv1 assms(1) this] obtain c2 where
    c2: "cred_at (run (cred_step env) st1 ops') i = Some c2" "cred_aged (revoked_credential env now r c) c2" by blast
  have "is_truthy (cd_revokedAt c2)"
    using c2(2) assms(1) by (simp add: cred_aged_def iso_printed_def is_truthy_def truthy_def)
  moreover have "cred_inv (run (cred_step env) st1 ops')" by (rule cred_machine.run_inv [OF inv1]) simp
  ultimately have "\<not> (\<exists>p bits. snd (cred_validate env (run (cred_step env) st1 ops') t token v) = CredOk p bits \<and> cd_id p = i)"
    using c2(1) by (auto simp: validate_ok_iff cred_inv_def cred_accepts_def public_credential.truncate_def)
  then show ?thesis by (auto simp: st1_def st_def)
qed

section \<open>What validation accepts\<close>

definition good_credential :: "credential \<Rightarrow> bool" where
  "good_credential c \<longleftrightarrow> act_type (cd_actor c) \<in> set actor_credential_types \<and> cd_audience c \<in> set actor_credential_audiences \<and>
     set (cd_capabilities c) \<subseteq> set relay_capability_bits \<and> scope_normal (cd_scope c)"

definition all_good :: "cred_registry \<Rightarrow> bool" where
  "all_good st \<longleftrightarrow> cred_inv st \<and> (\<forall>i c. cred_at st i = Some c \<longrightarrow> good_credential c)"

lemma caps_known: "isRelayCapabilityBit (JStr c) \<longleftrightarrow> c \<in> set relay_capability_bits"
  by (simp add: isRelayCapabilityBit_def str_sat_def)

lemma normalize_caps_known:
  "normalize_caps acc cs = Inr r \<Longrightarrow> set acc \<subseteq> set relay_capability_bits \<Longrightarrow> set r \<subseteq> set relay_capability_bits"
  by (induction acc cs rule: normalize_caps.induct) (auto simp: caps_known split: if_split_asm)

lemma normalized_capabilities: "normalizeCredentialCapabilities cs = Inr r \<Longrightarrow> set r \<subseteq> set relay_capability_bits"
  unfolding normalizeCredentialCapabilities_def by (erule normalize_caps_known) simp

lemma scope_dimension_ne: "scope_dimension v \<noteq> Some []"
  by (simp add: scope_dimension_def Let_def)

lemma normalized_scope: "normalizeCredentialScope v = Inr s \<Longrightarrow> scope_normal s"
  by (auto simp: normalizeCredentialScope_def Let_def scope_normal_def scope_dimension_ne split: if_split_asm)

lemma issue_terms_good:
  assumes "validateIssueAt env st i now f = Inr t"
  shows "act_type (ii_actor i) \<in> set actor_credential_types" "ii_audience i \<in> set actor_credential_audiences"
    "set (it_capabilities t) \<subseteq> set relay_capability_bits" "scope_normal (it_scope t)" "resolveExpiry env i now = Inr (it_expiresAt t)"
proof -
  from assms have "act_type (ii_actor i) \<in> set actor_credential_types \<and> ii_audience i \<in> set actor_credential_audiences \<and>
      normalizeCredentialCapabilities (ii_capabilities i) = Inr (it_capabilities t) \<and>
      normalizeCredentialScope (ii_scope i) = Inr (it_scope t) \<and> resolveExpiry env i now = Inr (it_expiresAt t)"
    by (auto simp: validateIssueAt_def split: if_split_asm sum.split_asm)
  then show "act_type (ii_actor i) \<in> set actor_credential_types" "ii_audience i \<in> set actor_credential_audiences"
    "set (it_capabilities t) \<subseteq> set relay_capability_bits" "scope_normal (it_scope t)" "resolveExpiry env i now = Inr (it_expiresAt t)"
    using normalized_capabilities normalized_scope by blast+
qed

lemma issued_good:
  assumes "issueAt env st i now bytes = Inr (st', token, p)"
  shows "\<exists>c. adds st st' c \<and> good_credential c"
proof -
  from assms obtain c t where c: "adds st st' c" "validateIssueAt env st i now False = Inr t"
    "cd_actor c = (ii_actor i)\<lparr>act_label := truthy (act_label (ii_actor i))\<rparr>" "cd_audience c = ii_audience i"
    "cd_capabilities c = it_capabilities t" "cd_scope c = it_scope t"
    by (rule issue_adds)
  from issue_terms_good [OF c(2)] c(3-) have "good_credential c" by (simp add: good_credential_def)
  with c(1) show ?thesis by blast
qed

lemma imported_good:
  assumes "importCredential env st i = Inr (st', p)"
  shows "\<exists>c. adds st st' c \<and> good_credential c"
proof -
  from assms obtain c where "adds st st' c" "act_type (cd_actor c) = act_type (im_actor i)"
    "act_type (im_actor i) \<in> set actor_credential_types" "cd_audience c = im_audience i" "im_audience i \<in> set actor_credential_audiences"
    "normalizeCredentialCapabilities (im_capabilities i) = Inr (cd_capabilities c)" "normalizeCredentialScope (im_scope i) = Inr (cd_scope c)"
    by (rule import_adds)
  then have "good_credential c" using normalized_capabilities normalized_scope by (simp add: good_credential_def)
  with \<open>adds st st' c\<close> show ?thesis by blast
qed

lemma good_adds: "adds st st' c \<Longrightarrow> good_credential c \<Longrightarrow> all_good st \<Longrightarrow> all_good st'"
proof -
  assume a: "adds st st' c" and c: "good_credential c" and all: "all_good st"
  have "cred_inv st'" using adds_inv [OF a] all by (simp add: all_good_def)
  moreover have "good_credential d" if "cred_at st' i = Some d" for i d
    using that adds_at [OF a, of i] c all by (auto simp: all_good_def split: if_split_asm)
  ultimately show "all_good st'" by (simp add: all_good_def)
qed

lemma good_same: "rg_credentials st' = rg_credentials st \<Longrightarrow> all_good st \<Longrightarrow> all_good st'"
  by (simp add: all_good_def cred_inv_def)

lemma good_revoked [simp]: "good_credential (revoked_credential env now r c) = good_credential c"
  by (simp add: good_credential_def)

lemma step_good: "all_good st \<Longrightarrow> all_good (cred_step env st op)"
proof (cases op)
  case (CoIssue i now bytes)
  assume g: "all_good st"
  show ?thesis
  proof (cases "issueAt env st i now bytes")
    case (Inr x)
    with CoIssue g issued_good good_adds show ?thesis by (cases x) (force simp: done_or_def)
  qed (use CoIssue g in \<open>simp add: done_or_def\<close>)
next
  case (CoPrepare i now f)
  assume g: "all_good st"
  with CoPrepare show ?thesis
    by (cases "prepareIssue env st i now f") (auto simp: done_or_def dest!: prepare_rest intro: good_same)
next
  case (CoIssuePrepared h bytes)
  assume g: "all_good st"
  show ?thesis
  proof (cases "issuePrepared env st h bytes")
    case (Inr x)
    obtain st1 tk p where x: "x = (st1, tk, p)" using prod_cases3 by blast
    with Inr obtain i now st2 where i: "issueAt env st i now bytes = Inr (st2, tk, p)" "rg_credentials st1 = rg_credentials st2"
      by (auto elim: issue_prepared_adds)
    from issued_good [OF i(1)] good_adds g have "all_good st2" by blast
    with good_same i(2) have "all_good st1" by blast
    with CoIssuePrepared Inr x show ?thesis by (simp add: done_or_def)
  qed (use CoIssuePrepared g in \<open>simp add: done_or_def\<close>)
next
  case (CoImport i)
  assume g: "all_good st"
  show ?thesis
  proof (cases "importCredential env st i")
    case (Inr x)
    with CoImport g imported_good good_adds show ?thesis by (cases x) (force simp: done_or_def)
  qed (use CoImport g in \<open>simp add: done_or_def\<close>)
next
  case (CoValidate now token v)
  assume g: "all_good st"
  with CoValidate show ?thesis by (auto intro: good_same)
next
  case (CoRevoke now i r)
  assume g: "all_good st"
  have "good_credential d" if "cred_at (fst (cred_revoke env st now i r)) j = Some d" for j d
    using that g by (auto simp: revoke_at all_good_def split: if_split_asm)
  with CoRevoke g revoke_inv show ?thesis by (simp add: all_good_def)
next
  case (CoRevokeGrant now gr r)
  assume g: "all_good st"
  then have inv: "cred_inv st" by (simp add: all_good_def)
  have "good_credential d" if "cred_at (fst (cred_revokeByGrantId env st now gr r)) j = Some d" for j d
    using that g revoke_grant_at [OF inv, of env now gr r j] by (auto simp: all_good_def grant_revoked_def)
  with CoRevokeGrant revoke_grant_at [OF inv] show ?thesis by (simp add: all_good_def)
qed

lemma reachable_good: "all_good (run (cred_step env) empty_registry ops)"
proof -
  have "all_good st \<Longrightarrow> all_good (run (cred_step env) st ops)" for st
    by (induction ops arbitrary: st) (simp_all add: step_good)
  moreover have "all_good empty_registry"
    using empty_inv by (simp add: all_good_def) (simp add: empty_registry_def jm_get_def)
  ultimately show ?thesis by blast
qed


section \<open>A concrete registry\<close>

text \<open>Dates printed in unary with a sign; no hashing.\<close>

definition sample_cred_env :: cred_env where
  "sample_cred_env = \<lparr>ce_numstr = sample_numstr, ce_sha = (\<lambda>s. s),
     ce_dp = (\<lambda>s. case s of [] \<Rightarrow> None | c # r \<Rightarrow> Some (if c = CHR ''-'' then - int (length r) else int (length r))),
     ce_toIso = (\<lambda>t. if t < 0 then CHR ''-'' # replicate (nat (- t)) CHR ''i'' else CHR ''i'' # replicate (nat t) CHR ''i''),
     ce_uuid = (\<lambda>n. ''u''), ce_maxTtl = 100, ce_maxAudit = 2\<rparr>"

definition sample_issue :: issue_input where
  "sample_issue = \<lparr>ii_id = Some ''a'', ii_actor = \<lparr>act_type = ''cli'', act_id = ''x'', act_label = None\<rparr>,
     ii_issuer = \<lparr>iss_id = ''o'', iss_label = None\<rparr>, ii_grantId = Some ''g'', ii_audience = ''relay:cli-gateway:v1'',
     ii_capabilities = [''session:read''], ii_scope = JObj [(''taskRefs'', JArr [JStr ''t''])], ii_metadata = JUndef,
     ii_expiresAt = None, ii_ttlMs = Some 10, ii_notAfter = None, ii_correlationId = None\<rparr>"

lemma sample_terms: "validateIssueAt sample_cred_env empty_registry sample_issue 0 False =
  Inr \<lparr>it_capabilities = [''session:read''], it_scope = no_scope\<lparr>sp_taskRefs := Some [''t'']\<rparr>, it_metadata = None, it_expiresAt = 10\<rparr>"
  by code_simp

lemma sample_issue_ok:
  obtains st1 c where "issueAt sample_cred_env empty_registry sample_issue 0 [1] = Inr (st1, scoped_token ''a'' ''01'', publicCredential c)"
    "cred_at st1 ''a'' = Some c" "cd_id c = ''a''" "cd_grantId c = Some ''g''" "cd_audience c = ''relay:cli-gateway:v1''"
    "cd_capabilities c = [''session:read'']" "cd_scope c = no_scope\<lparr>sp_taskRefs := Some [''t'']\<rparr>"
    "cd_expiresAt c = ce_toIso sample_cred_env 10"
proof -
  have hex: "to_hex [1] = ''01''" by code_simp
  have fields: "ii_id sample_issue = Some ''a''" "ii_correlationId sample_issue = None" "\<not> has_credential empty_registry ''a''"
    by (simp_all add: sample_issue_def has_credential_def empty_registry_def jm_get_def)
  obtain x where x: "issueAt sample_cred_env empty_registry sample_issue 0 [1] = Inr x"
    by (simp add: issueAt_def sample_terms Let_def or_draw_def fields split: prod.split)
  obtain st1 token p where y: "x = (st1, token, p)" using prod_cases3 by blast
  from x [unfolded y] obtain c t where c: "adds empty_registry st1 c" "p = publicCredential c" "token = scoped_token (cd_id c) (to_hex [1])"
    "validateIssueAt sample_cred_env empty_registry sample_issue 0 False = Inr t" "cd_audience c = ii_audience sample_issue"
    "cd_capabilities c = it_capabilities t" "cd_scope c = it_scope t" "cd_expiresAt c = ce_toIso sample_cred_env (it_expiresAt t)"
    "cd_grantId c = truthy (ii_grantId sample_issue)"
    "ii_id sample_issue = Some (cd_id c) \<or> ii_id sample_issue = None \<and> cd_id c = ce_uuid sample_cred_env (rg_draws empty_registry)"
    by (rule issue_adds)
  then have i: "cd_id c = ''a''" by (simp add: sample_issue_def)
  have t: "t = \<lparr>it_capabilities = [''session:read''], it_scope = no_scope\<lparr>sp_taskRefs := Some [''t'']\<rparr>, it_metadata = None, it_expiresAt = 10\<rparr>"
    using c(4) sample_terms by simp
  show thesis
    by (rule that [of st1 c])
      (use x y c(2,3) i hex adds_at [OF c(1), of "''a''"] c(5-9) t in \<open>simp_all add: sample_issue_def truthy_def\<close>)
qed

lemma sample_iso_printed: "iso_printed sample_cred_env"
  by (simp add: iso_printed_def sample_cred_env_def)

definition sample_revoke :: revoke_input where
  "sample_revoke = \<lparr>rv_revokedBy = ''o'', rv_reason = None, rv_correlationId = None\<rparr>"

definition sample_validate :: validate_input where
  "sample_validate = \<lparr>vi_audience = ''relay:cli-gateway:v1'', vi_required = [''session:read''],
     vi_scope = Some (no_request\<lparr>rq_taskRef := Some ''t''\<rparr>), vi_correlationId = None\<rparr>"

lemma sample_issued: "\<exists>c. cred_at (run (cred_step sample_cred_env) empty_registry [CoIssue sample_issue 0 [1]]) ''a'' = Some c \<and> cd_grantId c = Some ''g''"
proof -
  obtain st1 c where "issueAt sample_cred_env empty_registry sample_issue 0 [1] = Inr (st1, scoped_token ''a'' ''01'', publicCredential c)"
    "cred_at st1 ''a'' = Some c" "cd_grantId c = Some ''g''" by (rule sample_issue_ok)
  then show ?thesis by (simp add: done_or_def)
qed

theorem credential_revocation_is_final_witness:
  "\<not> (\<exists>p bits. snd (cred_validate sample_cred_env (run (cred_step sample_cred_env)
      (fst (cred_revoke sample_cred_env (run (cred_step sample_cred_env) empty_registry [CoIssue sample_issue 0 [1]]) 1 ''a'' sample_revoke)) [])
      2 (scoped_token ''a'' ''01'') sample_validate) = CredOk p bits \<and> cd_id p = ''a'')"
  using credential_revocation_is_final [OF sample_iso_printed] sample_issued by blast

end
