(* ===== verification/Credential_Lifetime.thy ===== *)
theory Credential_Lifetime
  imports Credential_Safety
begin

text \<open>
  The lifetime of an actor credential: what is issued is accepted until it expires or is revoked, its lifetime is bounded, revoking
  a grant reaches every credential of it and no other, and gaps of the scope test.
\<close>

section \<open>Issued credentials work\<close>

definition iso_dates :: "cred_env \<Rightarrow> bool" where
  "iso_dates env \<longleftrightarrow> (\<forall>t. ce_toIso env t \<noteq> [] \<and> ce_dp env (ce_toIso env t) = Some t)"

lemma iso_dates_printed: "iso_dates env \<Longrightarrow> iso_printed env"
  by (simp add: iso_dates_def iso_printed_def)

lemma public_fields [simp]:
  "cd_id (publicCredential c) = cd_id c" "cd_grantId (publicCredential c) = cd_grantId c" "cd_audience (publicCredential c) = cd_audience c"
  "cd_capabilities (publicCredential c) = cd_capabilities c" "cd_scope (publicCredential c) = cd_scope c"
  "cd_expiresAt (publicCredential c) = cd_expiresAt c" "cd_actor (publicCredential c) = cd_actor c"
  "cd_issuedAt (publicCredential c) = cd_issuedAt c" "cd_revokedAt (publicCredential c) = cd_revokedAt c"
  by (simp_all add: public_credential.truncate_def)

text \<open>The operations that leave a credential of the given id and grant alone.\<close>

definition op_spares :: "string \<Rightarrow> string option \<Rightarrow> cred_op \<Rightarrow> bool" where
  "op_spares i g op = (case op of CoRevoke now j r \<Rightarrow> j \<noteq> i | CoRevokeGrant now h r \<Rightarrow> Some h \<noteq> g | _ \<Rightarrow> True)"

lemma step_spares:
  assumes "cred_inv st" and "cred_at st i = Some c" and "op_spares i (cd_grantId c) op"
  shows "cred_at (cred_step env st op) i = Some c"
  using step_cases [OF assms(1), of env op]
proof (elim disjE exE)
  fix a assume a: "adds st (cred_step env st op) a"
  then have "cd_id a \<noteq> i" using assms(2) by (auto simp: adds_def)
  with adds_at [OF a] assms(2) show ?thesis by simp
next
  assume "rg_credentials (cred_step env st op) = rg_credentials st"
  with assms(2) show ?thesis by simp
next
  fix now j r assume "op = CoRevoke now j r"
  with assms(2,3) show ?thesis by (simp add: revoke_at op_spares_def)
next
  fix now g r assume "op = CoRevokeGrant now g r"
  with assms revoke_grant_at [OF assms(1)] show ?thesis by (auto simp: op_spares_def grant_revoked_def grant_hit_def)
qed

lemma run_spares:
  "cred_inv st \<Longrightarrow> cred_at st i = Some c \<Longrightarrow> list_all (op_spares i (cd_grantId c)) ops \<Longrightarrow> cred_at (run (cred_step env) st ops) i = Some c"
  by (induction ops arbitrary: st) (simp_all add: step_spares cred_step_inv)

lemma issued_public:
  assumes "issueAt env st i now bytes = Inr (st1, token, p)" and "cred_inv st"
  obtains c where "cred_at st1 (cd_id p) = Some c" "p = publicCredential c" "cd_secretHash c = ce_sha env (to_hex bytes)"
    "token = scoped_token (cd_id p) (to_hex bytes)" "cd_revokedAt c = None" "cred_inv st1" "good_credential c"
proof -
  from assms(1) obtain c t where c: "adds st st1 c" "p = publicCredential c" "token = scoped_token (cd_id c) (to_hex bytes)"
    "validateIssueAt env st i now False = Inr t" "cd_secretHash c = ce_sha env (to_hex bytes)" "cd_revokedAt c = None"
    "cd_actor c = (ii_actor i)\<lparr>act_label := truthy (act_label (ii_actor i))\<rparr>" "cd_audience c = ii_audience i"
    "cd_capabilities c = it_capabilities t" "cd_scope c = it_scope t"
    by (rule issue_adds)
  have "good_credential c" using issue_terms_good [OF c(4)] c(7-) by (simp add: good_credential_def)
  moreover have "cred_at st1 (cd_id c) = Some c" by (simp add: adds_at [OF c(1)])
  ultimately show thesis using that c adds_inv [OF c(1) assms(2)] by simp
qed


section \<open>Bounded lifetimes\<close>

lemma resolved_expiry:
  assumes "resolveExpiry env i now = Inr e"
  shows "e - now \<le> ce_maxTtl env \<and>
    (case date_given (ii_notAfter i) of None \<Rightarrow> True | Some d \<Rightarrow> \<exists>n. date_ms (ce_dp env) d = Some n \<and> now < n \<and> e \<le> n)"
  using assms
  by (auto simp: resolveExpiry_def split: if_split_asm option.split_asm)

text \<open>C13: A credential never outlives its bounds: the expiry in an issued record is at most the maximal lifetime of the registry after
  the time of issue, and at most the ceiling of the request, which then lies in the future; a prepared issuance counts from the
  time it was prepared.\<close>

theorem issued_lifetime_is_bounded:
  assumes "iso_dates env" and "issueAt env st i now bytes = Inr (st1, token, p)"
  shows "\<exists>e. ce_dp env (cd_expiresAt p) = Some e \<and> e \<le> now + ce_maxTtl env \<and> ce_dp env (cd_issuedAt p) = Some now \<and>
    (case date_given (ii_notAfter i) of None \<Rightarrow> True | Some d \<Rightarrow> \<exists>n. date_ms (ce_dp env) d = Some n \<and> now < n \<and> e \<le> n)"
proof -
  from assms(2) obtain c t where c: "p = publicCredential c" "validateIssueAt env st i now False = Inr t"
    "cd_expiresAt c = ce_toIso env (it_expiresAt t)" "cd_issuedAt c = ce_toIso env now"
    by (rule issue_adds)
  from resolved_expiry [OF issue_terms_good(5) [OF c(2)]] c assms(1) show ?thesis
    by (auto simp: iso_dates_def)
qed

section \<open>Revoking a grant\<close>

text \<open>Revoking a grant is complete and exact: no token of a credential under it is accepted at that or a later time, whatever
  happens afterwards, and every other credential is left as it was.\<close>

theorem grant_revocation_is_complete:
  assumes "iso_printed env" and "cred_at (run (cred_step env) empty_registry ops0) i = Some c"
    and "fst (cred_revokeByGrantId env (run (cred_step env) empty_registry ops0) now g r) = st1" and "now \<le> t"
  shows "(if cd_grantId c = Some g
     then snd (cred_validate env (run (cred_step env) st1 ops) t token v) \<noteq> CredOk p bits \<or> cd_id p \<noteq> i
     else cred_at st1 i = Some c)"
proof -
  define st where "st = run (cred_step env) empty_registry ops0"
  have inv: "cred_inv st" unfolding st_def by (rule cred_machine.run_inv [OF empty_inv]) simp
  note g = revoke_grant_at [OF inv, of env now g r i]
  have st1: "st1 = fst (cred_revokeByGrantId env st now g r)" and at: "cred_at st i = Some c" using assms(2,3) by (simp_all add: st_def)
  show ?thesis
  proof (cases "cd_grantId c = Some g")
    case True
    have inv1: "cred_inv st1" using g st1 by simp
    have "cred_at st1 i = Some (grant_revoked env now g r c)" using g st1 at by simp
    from run_aged [OF inv1 assms(1) this] obtain c2 where
      c2: "cred_at (run (cred_step env) st1 ops) i = Some c2" "cred_aged (grant_revoked env now g r c) c2" by blast
    have "is_truthy (cd_revokedAt c2) \<or> cred_expired env (publicCredential c2) t"
    proof (cases "grant_hit env now g c")
      case True
      then show ?thesis using c2(2) assms(1) by (simp add: cred_aged_def grant_revoked_def iso_printed_def is_truthy_def truthy_def)
    next
      case False
      then show ?thesis
        using c2(2) True assms(4) by (auto simp: cred_aged_def grant_revoked_def grant_hit_def cred_expired_def split: option.splits)
    qed
    moreover have "cred_inv (run (cred_step env) st1 ops)" by (rule cred_machine.run_inv [OF inv1]) simp
    ultimately have "\<not> (\<exists>p bits. snd (cred_validate env (run (cred_step env) st1 ops) t token v) = CredOk p bits \<and> cd_id p = i)"
      using c2(1) by (auto simp: validate_ok_iff cred_inv_def cred_accepts_def)
    with True show ?thesis by auto
  next
    case False
    then show ?thesis using g st1 at by (simp add: grant_revoked_def grant_hit_def)
  qed
qed

section \<open>Concrete inputs\<close>

lemma sample_iso_dates: "iso_dates sample_cred_env"
  by (simp add: iso_dates_def sample_cred_env_def)


theorem issued_lifetime_is_bounded_witness:
  "\<exists>st1 token p e. issueAt sample_cred_env empty_registry sample_issue 0 [1] = Inr (st1, token, p) \<and>
    ce_dp sample_cred_env (cd_expiresAt p) = Some e \<and> e \<le> 0 + ce_maxTtl sample_cred_env"
proof -
  obtain st1 c where "issueAt sample_cred_env empty_registry sample_issue 0 [1] = Inr (st1, scoped_token ''a'' ''01'', publicCredential c)"
    by (rule sample_issue_ok)
  with issued_lifetime_is_bounded [OF sample_iso_dates this] show ?thesis by blast
qed

theorem grant_revocation_is_complete_witness:
  "\<not> (\<exists>p bits. snd (cred_validate sample_cred_env (run (cred_step sample_cred_env)
      (fst (cred_revokeByGrantId sample_cred_env (run (cred_step sample_cred_env) empty_registry [CoIssue sample_issue 0 [1]]) 1 ''g'' sample_revoke)) [])
      2 (scoped_token ''a'' ''01'') sample_validate) = CredOk p bits \<and> cd_id p = ''a'')"
proof -
  obtain c where c: "cred_at (run (cred_step sample_cred_env) empty_registry [CoIssue sample_issue 0 [1]]) ''a'' = Some c" "cd_grantId c = Some ''g''"
    using sample_issued by blast
  show ?thesis
    using grant_revocation_is_complete [OF sample_iso_printed c(1) refl, of 1 2 "''g''" sample_revoke "[]"] c(2) by auto
qed

section \<open>Gaps of the scope test\<close>

text \<open>Dot segments of a path are not resolved, so a path out of the prefix matches it.\<close>

lemma dot_segments_leave_the_prefix:
  "pathMatchesCredentialPrefix ''/repo/../etc/passwd'' ''/repo''"
  by code_simp

text \<open>An empty list of channels hides the channel named beside it: a credential without any channel scope passes, though the rule is
  meant to deny whenever a channel is requested.\<close>

lemma empty_channel_list_hides_the_channel:
  "validateCredentialScope (no_scope\<lparr>sp_nodeIds := Some [''n'']\<rparr>)
     (Some (no_request\<lparr>rq_nodeId := Some ''n'', rq_channelId := Some ''c'', rq_channelIds := Some []\<rparr>)) = None"
  by code_simp

text \<open>An id with a dot makes a token that is no token.\<close>

lemma dotted_id_makes_no_token: "CHR ''.'' \<in> set i \<Longrightarrow> parseScopedActorToken (scoped_token i secret) \<noteq> Some (i, secret)"
  by (auto simp: parse_token_iff)

end
