(* ===== verification/Audit_Ring.thy ===== *)
theory Audit_Ring
  imports Relay_Prelude
begin

text \<open>
  The bounded rings of audit events the registries keep in memory: an event that repeats the newest one is counted there, a full
  ring overwrites its oldest entry. A ring refines a plain log: it lists the recent end of the log and counts what it has dropped.
\<close>

section \<open>The ring\<close>

record 'e audit_ring =
  ring_events :: "'e list"
  ring_next :: nat
  ring_dropped :: nat
  ring_correlated :: bool

definition empty_ring :: "'e audit_ring" where
  "empty_ring = \<lparr>ring_events = [], ring_next = 0, ring_dropped = 0, ring_correlated = False\<rparr>"

definition ring_index :: "nat \<Rightarrow> 'e audit_ring \<Rightarrow> nat option" where
  "ring_index cap r =
     (if ring_events r = [] then None
      else if length (ring_events r) < cap then Some (length (ring_events r) - 1)
      else Some ((ring_next r + cap - 1) mod cap))"

definition ring_newest :: "nat \<Rightarrow> 'e audit_ring \<Rightarrow> 'e option" where
  "ring_newest cap r = map_option (\<lambda>i. ring_events r ! i) (ring_index cap r)"

definition ring_list :: "nat \<Rightarrow> 'e audit_ring \<Rightarrow> 'e list" where
  "ring_list cap r =
     (if length (ring_events r) < cap then ring_events r
      else drop (ring_next r) (ring_events r) @ take (ring_next r) (ring_events r))"

text \<open>An event is folded into the newest one when it repeats it and neither was correlated by the caller.\<close>

definition ring_folds :: "nat \<Rightarrow> ('e \<Rightarrow> 'e \<Rightarrow> bool) \<Rightarrow> 'e audit_ring \<Rightarrow> 'e \<Rightarrow> bool \<Rightarrow> bool" where
  "ring_folds cap repeats r e correlated \<longleftrightarrow>
     \<not> correlated \<and> \<not> ring_correlated r \<and> (case ring_newest cap r of None \<Rightarrow> False | Some p \<Rightarrow> repeats p e)"

definition ring_push :: "nat \<Rightarrow> ('e \<Rightarrow> 'e \<Rightarrow> bool) \<Rightarrow> ('e \<Rightarrow> 'e) \<Rightarrow> 'e audit_ring \<Rightarrow> 'e \<Rightarrow> bool \<Rightarrow> 'e audit_ring" where
  "ring_push cap repeats tally r e correlated =
     (if ring_folds cap repeats r e correlated
      then (case ring_index cap r of None \<Rightarrow> r | Some i \<Rightarrow> r\<lparr>ring_events := (ring_events r)[i := tally (ring_events r ! i)]\<rparr>)
      else if length (ring_events r) < cap
      then r\<lparr>ring_events := ring_events r @ [e], ring_correlated := correlated\<rparr>
      else r\<lparr>ring_events := (ring_events r)[ring_next r := e], ring_next := (ring_next r + 1) mod cap,
        ring_dropped := ring_dropped r + 1, ring_correlated := correlated\<rparr>)"

section \<open>The log\<close>

text \<open>The whole history, with whether its newest entry was correlated by the caller.\<close>

definition log_event :: "('e \<Rightarrow> 'e \<Rightarrow> bool) \<Rightarrow> ('e \<Rightarrow> 'e) \<Rightarrow> 'e list \<times> bool \<Rightarrow> 'e \<times> bool \<Rightarrow> 'e list \<times> bool" where
  "log_event repeats tally l x =
     (if \<not> snd x \<and> \<not> snd l \<and> fst l \<noteq> [] \<and> repeats (last (fst l)) (fst x)
      then (butlast (fst l) @ [tally (last (fst l))], snd l) else (fst l @ [fst x], snd x))"

definition event_log :: "('e \<Rightarrow> 'e \<Rightarrow> bool) \<Rightarrow> ('e \<Rightarrow> 'e) \<Rightarrow> ('e \<times> bool) list \<Rightarrow> 'e list \<times> bool" where
  "event_log repeats tally xs = foldl (log_event repeats tally) ([], False) xs"

section \<open>The newest entry\<close>

definition ring_inv :: "nat \<Rightarrow> 'e audit_ring \<Rightarrow> bool" where
  "ring_inv cap st \<longleftrightarrow> length (ring_events st) \<le> cap \<and> ring_next st < cap \<and>
     (length (ring_events st) < cap \<longrightarrow> ring_next st = 0)"

lemma ring_index_at:
  assumes "ring_inv cap st" and "ring_events st \<noteq> []"
  obtains k where "ring_index cap st = Some k" "k < length (ring_events st)" "last (ring_list cap st) = ring_events st ! k"
    "\<And>x. ring_list cap (st\<lparr>ring_events := (ring_events st)[k := x]\<rparr>) = butlast (ring_list cap st) @ [x]"
proof (cases "length (ring_events st) < cap")
  case True
  define k where "k = length (ring_events st) - 1"
  have k: "ring_index cap st = Some k" "k < length (ring_events st)" using True assms(2) by (simp_all add: ring_index_def k_def)
  have "(ring_events st)[k := x] = butlast (ring_events st) @ [x]" for x
    using assms(2) by (simp add: k_def list_update_append1 butlast_conv_take)
      (metis One_nat_def Suc_pred append_butlast_last_id append_take_drop_id butlast_conv_take length_butlast length_greater_0_conv list_update_length)
  with k True assms(2) show ?thesis by (intro that [of k]) (simp_all add: ring_list_def k_def last_conv_nth)
next
  case False
  define n where "n = ring_next st"
  define es where "es = ring_events st"
  have full: "length es = cap" "n < length es" using False assms(1) by (simp_all add: ring_inv_def n_def es_def)
  define k where "k = (n + length es - 1) mod length es"
  have k: "ring_index cap st = Some k" "k < length es"
    using False assms(2) full by (simp_all add: ring_index_def k_def n_def es_def)
  have k2: "k = (if n = 0 then length es - 1 else n - 1)"
    using full by (simp add: k_def) (metis (no_types, lifting) Nat.add_diff_assoc2 Suc_leI add.commute le_add_diff_inverse2 less_imp_diff_less mod_add_self1 mod_less not_gr_zero One_nat_def)
  have "last (drop n es @ take n es) = es ! k"
  proof (cases "n = 0")
    case True
    from full have "es \<noteq> []" by auto
    with True show ?thesis by (simp add: k2 last_conv_nth)
  next
    case False
    from full have "es \<noteq> []" by auto
    with False full show ?thesis by (simp add: k2 last_append last_conv_nth)
  qed
  moreover have "drop n (es[k := x]) @ take n (es[k := x]) = butlast (drop n es @ take n es) @ [x]" for x
  proof (cases "n = 0")
    case True
    from full have "es \<noteq> []" by auto
    then obtain ys y where es: "es = ys @ [y]" by (cases es rule: rev_cases) auto
    from True show ?thesis by (simp add: k2) (simp add: es)
  next
    case False
    have "take n es = take (n - 1) es @ [es ! (n - 1)]" using False full by (metis Suc_pred' gr0I less_imp_diff_less take_Suc_conv_app_nth)
    then have "(take n es)[n - 1 := x] = take (n - 1) es @ [x]" using False full by (simp add: list_update_append)
    then have "take n (es[n - 1 := x]) = take (n - 1) es @ [x]" by (simp add: take_update_swap)
    moreover have "take n es \<noteq> []" using False full by auto
    moreover have "butlast (take n es) = take (n - 1) es" using full False by (simp add: butlast_take)
    ultimately show ?thesis using False full by (simp add: k2 butlast_append)
  qed
  ultimately show ?thesis
    using k full False by (intro that [of k]) (simp_all add: ring_list_def es_def n_def)
qed

section \<open>Refinement\<close>

text \<open>The recent end of a log.\<close>

definition recent :: "nat \<Rightarrow> 'a list \<Rightarrow> 'a list" where
  "recent n xs = drop (length xs - n) xs"

definition ring_refines :: "nat \<Rightarrow> 'e audit_ring \<Rightarrow> 'e list \<times> bool \<Rightarrow> bool" where
  "ring_refines cap st l \<longleftrightarrow> ring_inv cap st \<and> ring_list cap st = recent (cap) (fst l) \<and>
     ring_dropped st = length (fst l) - cap \<and> length (ring_events st) = min (length (fst l)) (cap) \<and>
     ring_correlated st = snd l"

lemma recent_empty: "0 < n \<Longrightarrow> recent n xs = [] \<longleftrightarrow> xs = []"
  by (cases xs rule: rev_cases) (simp_all add: recent_def)

lemma recent_last: "0 < n \<Longrightarrow> xs \<noteq> [] \<Longrightarrow> last (recent n xs) = last xs"
  by (simp add: recent_def)

lemma recent_bump: "0 < n \<Longrightarrow> xs \<noteq> [] \<Longrightarrow> recent n (butlast xs @ [y]) = butlast (recent n xs) @ [y]"
  by (simp add: recent_def butlast_drop)

lemma recent_snoc: "recent n (xs @ [y]) = (if length xs < n then xs @ [y] else drop 1 (recent n xs) @ [y])" if "0 < n"
  using that by (auto simp: recent_def Suc_diff_le)

lemma append_refines:
  assumes "ring_refines cap st l" and "0 < cap"
  shows "ring_refines cap (ring_push cap repeats tally st e b) (log_event repeats tally l (e, b))"
proof -
  define N where "N = cap"
  define es where "es = ring_events st"
  have inv: "ring_inv cap st" and list: "ring_list cap st = recent N (fst l)" and dropped: "ring_dropped st = length (fst l) - N"
    and len: "length es = min (length (fst l)) N" and corr: "ring_correlated st = snd l" and N: "0 < N"
    using assms by (simp_all add: ring_refines_def N_def es_def)
  have empty: "es = [] \<longleftrightarrow> fst l = []"
  proof -
    have "length es = 0 \<longleftrightarrow> length (fst l) = 0" using len N by (cases "fst l") (auto simp: min_def split: if_split_asm)
    then show ?thesis by simp
  qed
  show ?thesis
  proof (cases "\<not> b \<and> \<not> snd l \<and> fst l \<noteq> [] \<and> repeats (last (fst l)) e")
    case True
    then have ne: "ring_events st \<noteq> []" "fst l \<noteq> []" using empty by (simp_all add: es_def)
    obtain k where k: "ring_index cap st = Some k" "k < length (ring_events st)" "last (ring_list cap st) = ring_events st ! k"
      "\<And>x. ring_list cap (st\<lparr>ring_events := (ring_events st)[k := x]\<rparr>) = butlast (ring_list cap st) @ [x]"
      using ring_index_at [OF inv ne(1)] by metis
    have top: "ring_events st ! k = last (fst l)" using k(3) list recent_last [OF N ne(2)] by simp
    have "ring_push cap repeats tally st e b = st\<lparr>ring_events := (ring_events st)[k := tally (last (fst l))]\<rparr>"
      using True corr top k(1) by (simp add: ring_push_def ring_folds_def ring_newest_def)
    moreover have "log_event repeats tally l (e, b) = (butlast (fst l) @ [tally (last (fst l))], snd l)" using True by (simp add: log_event_def)
    moreover have "length (butlast (fst l) @ [tally (last (fst l))]) = length (fst l)" using ne(2) by simp
    ultimately show ?thesis
      using k(4) [of "tally (last (fst l))"] inv list dropped len corr recent_bump [OF N ne(2)]
      by (simp add: ring_refines_def ring_inv_def N_def es_def)
  next
    case False
    have log: "log_event repeats tally l (e, b) = (fst l @ [e], b)" using False by (auto simp: log_event_def)
    have fresh: "\<not> (\<not> b \<and> \<not> ring_correlated st \<and> (case ring_newest cap st of None \<Rightarrow> False | Some p \<Rightarrow> repeats p e))"
    proof (cases "ring_events st = []")
      case True
      then show ?thesis by (simp add: ring_newest_def ring_index_def)
    next
      case ne: False
      obtain k where "ring_index cap st = Some k" "last (ring_list cap st) = ring_events st ! k"
        using ring_index_at [OF inv ne] by metis
      then have "ring_newest cap st = Some (last (fst l))"
        using list recent_last [OF N, of "fst l"] ne empty by (simp add: ring_newest_def es_def)
      with False corr ne empty show ?thesis by (simp add: es_def)
    qed
    show ?thesis
    proof (cases "length es < N")
      case True
      then have small: "length (fst l) < N" using len by simp
      have zero: "ring_next st = 0" using inv True by (simp add: ring_inv_def N_def es_def)
      have st': "ring_push cap repeats tally st e b = st\<lparr>ring_events := ring_events st @ [e], ring_correlated := b\<rparr>"
        unfolding ring_push_def ring_folds_def if_not_P [OF fresh] using True by (simp add: N_def es_def)
      have es: "ring_events st = fst l"
        using list small True by (simp add: ring_list_def recent_def N_def es_def)
      show ?thesis
        unfolding st' log ring_refines_def
        using inv zero small dropped N es by (auto simp: ring_inv_def ring_list_def recent_def N_def)
    next
      case False
      then have full: "length es = N" "N \<le> length (fst l)" using len by auto
      define n where "n = ring_next st"
      have n: "n < N" using inv by (simp add: ring_inv_def N_def n_def)
      have st': "ring_push cap repeats tally st e b = st\<lparr>ring_events := es[n := e], ring_next := (n + 1) mod N, ring_dropped := ring_dropped st + 1, ring_correlated := b\<rparr>"
        unfolding ring_push_def ring_folds_def if_not_P [OF fresh] using False by (simp add: N_def es_def n_def)
      have rot: "drop n es @ take n es = recent N (fst l)"
        using list full by (simp add: ring_list_def N_def es_def n_def)
      have "drop ((n + 1) mod N) (es[n := e]) @ take ((n + 1) mod N) (es[n := e]) = drop 1 (drop n es @ take n es) @ [e]"
      proof (cases "n + 1 = N")
        case True
        have "es[n := e] = take n es @ [e]" using True full by (metis Suc_eq_plus1 append_take_drop_id butlast_conv_take diff_Suc_1 length_butlast
            list_update_length snoc_eq_iff_butlast append_butlast_last_id length_0_conv nat.simps(3))
        moreover have "drop 1 (drop n es) = []" using True full by simp
        ultimately show ?thesis using True n full by simp
      next
        case False
        then have lt: "n + 1 < N" using n by simp
        have "take (n + 1) (es[n := e]) = take n es @ [e]" using n full by (simp add: take_Suc_conv_app_nth)
        moreover have "drop (n + 1) (es[n := e]) = drop (n + 1) es" by simp
        moreover have "drop 1 (drop n es @ take n es) = drop (n + 1) es @ take n es" using n full by (simp add: drop_append)
        ultimately show ?thesis using lt by simp
      qed
      then have "ring_list cap (ring_push cap repeats tally st e b) = recent N (fst l @ [e])"
        unfolding st' using full rot N by (simp add: ring_list_def N_def [symmetric] recent_snoc)
      then show ?thesis
        unfolding log ring_refines_def
        using st' full dropped N by (simp add: ring_inv_def N_def [symmetric])
    qed
  qed
qed

section \<open>Histories\<close>

definition push_all :: "nat \<Rightarrow> ('e \<Rightarrow> 'e \<Rightarrow> bool) \<Rightarrow> ('e \<Rightarrow> 'e) \<Rightarrow> 'e audit_ring \<Rightarrow> ('e \<times> bool) list \<Rightarrow> 'e audit_ring" where
  "push_all cap repeats tally r xs = foldl (\<lambda>r x. ring_push cap repeats tally r (fst x) (snd x)) r xs"

lemma empty_refines: "0 < cap \<Longrightarrow> ring_refines cap empty_ring ([], False)"
  by (simp add: ring_refines_def ring_inv_def empty_ring_def ring_list_def recent_def)

lemma ring_refines_log: "0 < cap \<Longrightarrow> ring_refines cap (push_all cap repeats tally empty_ring xs) (event_log repeats tally xs)"
proof (induction xs rule: rev_induct)
  case Nil
  then show ?case using empty_refines by (simp add: push_all_def event_log_def)
next
  case (snoc x xs)
  from append_refines [OF snoc.IH [OF snoc.prems] snoc.prems, of repeats tally "fst x" "snd x"] show ?case
    by (simp add: push_all_def event_log_def)
qed

text \<open>What a reader sees of a ring that refines a log.\<close>

lemma ring_refines_view:
  "ring_refines cap r l \<Longrightarrow> ring_list cap r = recent cap (fst l) \<and> ring_dropped r + length (ring_list cap r) = length (fst l) \<and>
    length (ring_events r) \<le> cap"
  by (auto simp: ring_refines_def recent_def)

end
