(* ===== verification/Credential_Audit.thy ===== *)
theory Credential_Audit
  imports Credential_Safety Audit_Ring
begin

text \<open>
  The ring of audit events of the credential registry refines a plain log: what it lists is the recent end of the log in which
  repeated events are coalesced, and it counts what it has dropped.
\<close>

section \<open>The ring of the registry\<close>

definition ring_of :: "cred_registry \<Rightarrow> cred_event audit_ring" where
  "ring_of st = \<lparr>ring_events = rg_events st, ring_next = rg_next st, ring_dropped = rg_dropped st, ring_correlated = rg_correlated st\<rparr>"

lemma ring_of_fields [simp]:
  "ring_events (ring_of st) = rg_events st" "ring_next (ring_of st) = rg_next st" "ring_dropped (ring_of st) = rg_dropped st"
  "ring_correlated (ring_of st) = rg_correlated st"
  by (simp_all add: ring_of_def)

lemma newest_of_ring: "newest_index env st = ring_index (ce_maxAudit env) (ring_of st)"
  "newestAuditEvent env st = ring_newest (ce_maxAudit env) (ring_of st)"
  by (simp_all add: newest_index_def newestAuditEvent_def ring_index_def ring_newest_def)

lemma listed_of_ring: "listAuditEvents env st = ring_list (ce_maxAudit env) (ring_of st)"
  by (simp add: listAuditEvents_def ring_list_def)

lemma append_of_ring:
  "ring_of (appendAuditEvent env st e b) = ring_push (ce_maxAudit env) isRepeatedAuditEvent bump (ring_of st) e b"
proof -
  have updates: "ring_of (st\<lparr>rg_events := x\<rparr>) = (ring_of st)\<lparr>ring_events := x\<rparr>" "ring_of (st\<lparr>rg_next := n\<rparr>) = (ring_of st)\<lparr>ring_next := n\<rparr>"
    "ring_of (st\<lparr>rg_dropped := d\<rparr>) = (ring_of st)\<lparr>ring_dropped := d\<rparr>"
    "ring_of (st\<lparr>rg_correlated := c\<rparr>) = (ring_of st)\<lparr>ring_correlated := c\<rparr>" for st x n d c
    by (simp_all add: ring_of_def)
  show ?thesis
    unfolding appendAuditEvent_def ring_push_def ring_folds_def newest_of_ring
    by (cases "ring_index (ce_maxAudit env) (ring_of st)") (simp_all add: updates if_distrib [of ring_of])
qed

definition ring_run :: "cred_env \<Rightarrow> cred_registry \<Rightarrow> (cred_event \<times> bool) list \<Rightarrow> cred_registry" where
  "ring_run env st xs = foldl (\<lambda>st x. appendAuditEvent env st (fst x) (snd x)) st xs"

lemma run_of_ring: "ring_of (ring_run env st xs) = push_all (ce_maxAudit env) isRepeatedAuditEvent bump (ring_of st) xs"
  unfolding ring_run_def push_all_def by (induction xs arbitrary: st) (simp_all add: append_of_ring)

text \<open>C23: The ring is the recent end of the log: whatever events are recorded, correlated or not, the ring lists exactly the last
  entries of the history in which an uncorrelated event that repeats the newest, uncorrelated one is counted there instead of being
  added, in order and no more than the cap, and the count of dropped entries is what is missing from that history.\<close>

theorem audit_ring_refines_log:
  assumes "0 < ce_maxAudit env" and "ring_run env empty_registry xs = st"
  shows "listAuditEvents env st = recent (ce_maxAudit env) (fst (event_log isRepeatedAuditEvent bump xs)) \<and>
    rg_dropped st + length (listAuditEvents env st) = length (fst (event_log isRepeatedAuditEvent bump xs)) \<and>
    length (rg_events st) \<le> ce_maxAudit env"
proof -
  have "ring_of empty_registry = empty_ring" by (simp add: ring_of_def empty_registry_def empty_ring_def)
  then have "ring_refines (ce_maxAudit env) (ring_of st) (event_log isRepeatedAuditEvent bump xs)"
    using ring_refines_log [OF assms(1)] assms(2) run_of_ring [of env empty_registry xs] by simp
  from ring_refines_view [OF this] show ?thesis unfolding listed_of_ring ring_of_fields .
qed

section \<open>Concrete inputs\<close>

definition sample_event :: "string \<Rightarrow> cred_event" where
  "sample_event i = \<lparr>ev_action = ''validate'', ev_decision = ''allow'', ev_reasonCode = ''ACTOR_CREDENTIAL_ALLOWED'', ev_credentialId = Some i,
     ev_actor = None, ev_issuer = None, ev_audience = None, ev_scopeHash = [], ev_paramsHash = [], ev_requiredBits = [], ev_grantedBits = [],
     ev_deniedBits = [], ev_correlationId = [], ev_repeatedCount = None\<rparr>"

definition sample_events :: "(cred_event \<times> bool) list" where
  "sample_events = [(sample_event ''a'', False), (sample_event ''b'', True), (sample_event ''c'', False), (sample_event ''c'', False)]"

lemma sample_log: "fst (event_log isRepeatedAuditEvent bump sample_events) = [sample_event ''a'', sample_event ''b'', bump (sample_event ''c'')]"
  by (simp add: event_log_def sample_events_def log_event_def isRepeatedAuditEvent_def sample_event_def)

text \<open>Of four events, of which the last repeats the one before, a ring of two keeps the last two entries.\<close>

theorem audit_ring_refines_log_witness:
  "listAuditEvents sample_cred_env (ring_run sample_cred_env empty_registry sample_events) = [sample_event ''b'', bump (sample_event ''c'')]"
proof -
  have cap: "ce_maxAudit sample_cred_env = 2" by (simp add: sample_cred_env_def)
  have "listAuditEvents sample_cred_env (ring_run sample_cred_env empty_registry sample_events) = recent (ce_maxAudit sample_cred_env) (fst (event_log isRepeatedAuditEvent bump sample_events))"
    using audit_ring_refines_log [of sample_cred_env sample_events, OF _ refl] cap by simp
  also have "\<dots> = [sample_event ''b'', bump (sample_event ''c'')]" by (simp add: cap sample_log recent_def)
  finally show ?thesis .
qed

end
