(* ===== verification/Credential_Entry.thy ===== *)
theory Credential_Entry
  imports Actor_Credentials
begin

text \<open>
  What the security audit log is told of a credential (\<open>shared/scoped-actor-credentials.ts\<close>): the redacted record and the entry.
\<close>

definition redactScopedActorCredentialForAudit :: "(string \<Rightarrow> string) \<Rightarrow> public_credential \<Rightarrow> json" where
  "redactScopedActorCredentialForAudit sha p = js_obj
     [(''id'', JStr (cd_id p)),
      (''actor'', js_obj [(''type'', JStr (act_type (cd_actor p))), (''displayName'', str_or_undef (act_label (cd_actor p))),
        (''idHash'', JStr (sha (act_id (cd_actor p))))]),
      (''issuer'', js_obj [(''displayName'', str_or_undef (iss_label (cd_issuer p))), (''idHash'', JStr (sha (iss_id (cd_issuer p))))]),
      (''audience'', JStr (cd_audience p)), (''capabilities'', JArr (map JStr (cd_capabilities p))),
      (''scope'', credential_scope_json (cd_scope p)),
      (''metadata'', case cd_metadata p of None \<Rightarrow> JUndef | Some m \<Rightarrow> metadata_json m),
      (''issuedAt'', JStr (cd_issuedAt p)), (''expiresAt'', JStr (cd_expiresAt p)),
      (''revokedAt'', str_or_undef (truthy (cd_revokedAt p))), (''revokedBy'', str_or_undef (truthy (cd_revokedBy p))),
      (''correlationId'', JStr (cd_correlationId p))]"

definition cred_event_type :: "string \<Rightarrow> string \<Rightarrow> string" where
  "cred_event_type action decision =
     (if action = ''revoke'' \<or> decision = ''revoked'' then ''revocation''
      else if action = ''expiry'' \<or> decision = ''expired'' then ''expiry''
      else if decision = ''deny'' \<or> decision = ''failed'' then ''denial'' else ''grant'')"

text \<open>The parameters are spread over the object that holds the credential; those of no object are a member of their own.\<close>

definition entry_params :: "(string \<Rightarrow> string) \<Rightarrow> public_credential option \<Rightarrow> json \<Rightarrow> json" where
  "entry_params sha c params =
     obj_spread (js_obj [(''credential'', case c of None \<Rightarrow> JUndef | Some p \<Rightarrow> redactScopedActorCredentialForAudit sha p)])
       (case params of JObj ms \<Rightarrow> JObj ms
        | JArr xs \<Rightarrow> JObj (zip (map (\<lambda>i. int_to_dec (int i)) [0 ..< length xs]) xs)
        | _ \<Rightarrow> JObj [(''params'', js_nullish params JNull)])"

definition createScopedActorCredentialAuditEntry :: "(string \<Rightarrow> string) \<Rightarrow> string \<Rightarrow> audit_note \<Rightarrow> audit_input" where
  "createScopedActorCredentialAuditEntry sha uuid n =
     (let c = map_option (\<lambda>x. publicCredential x) (nt_credential n) in
      \<lparr>ai_eventId = None, ai_timestamp = None, ai_eventType = cred_event_type (nt_action n) (nt_decision n),
       ai_decision = nt_decision n, ai_reasonCode = nt_reasonCode n,
       ai_peer = (case c of None \<Rightarrow> \<lparr>pe_kind = ''system'', pe_nodeId = None, pe_credentialId = None, pe_displayName = None, pe_principalHash = None\<rparr>
         | Some p \<Rightarrow> \<lparr>pe_kind = ''system'', pe_nodeId = None, pe_credentialId = Some (cd_id p),
             pe_displayName = Some (or_value (act_label (cd_actor p)) (act_type (cd_actor p))),
             pe_principalHash = Some (sha (act_type (cd_actor p) @ '':'' @ act_id (cd_actor p)))\<rparr>),
       ai_node = None, ai_sessionId = None, ai_action = ''actor-credential.'' @ nt_action n, ai_target = map_option cd_id c,
       ai_scope = redactAuditValue (js_nullish (nt_scope n)
         (case c of None \<Rightarrow> JNull | Some p \<Rightarrow> fld (redactScopedActorCredentialForAudit sha p) ''scope'')),
       ai_params = redactAuditValue (entry_params sha c (nt_params n)),
       ai_requiredBits = Some (nt_required n), ai_grantedBits = Some (nt_granted n), ai_deniedBits = Some (nt_denied n),
       ai_aclRef = None, ai_policyVersion = Some ''1.0'', ai_sourceDiagnostics = JUndef,
       ai_correlationId = Some (or_value (nt_correlationId n) uuid)\<rparr>)"

section \<open>The entry is accepted and names no principal\<close>

text \<open>The log accepts every entry made here.\<close>

lemma credential_entry_is_accepted:
  "\<exists>e. normalizeSecurityAuditEntry numstr sha now ids (createScopedActorCredentialAuditEntry sha uuid n) seq prev = Inr e"
  by (simp add: normalizeSecurityAuditEntry_def createScopedActorCredentialAuditEntry_def cred_event_type_def security_audit_event_types_def Let_def)

text \<open>The redacted record does not depend on the ids of the actor and the issuer but through their hashes.\<close>

lemma redacted_record_hides_ids:
  assumes "sha a = sha (act_id (cd_actor p))" and "sha b = sha (iss_id (cd_issuer p))"
  shows "redactScopedActorCredentialForAudit sha (p\<lparr>cd_actor := (cd_actor p)\<lparr>act_id := a\<rparr>, cd_issuer := (cd_issuer p)\<lparr>iss_id := b\<rparr>\<rparr>) =
    redactScopedActorCredentialForAudit sha p"
  by (simp add: redactScopedActorCredentialForAudit_def assms)

end
