(* ===== verification/Credential_Store.thy ===== *)
theory Credential_Store
  imports Actor_Credentials
begin

text \<open>
  The durable store of actor credentials (\<open>server/scoped-actor-credential-store.ts\<close>) and the service that keeps it in step with the
  registry (\<open>server/scoped-actor-credentials.ts\<close>). The table is a map from the primary key to rows in the order of insertion; a column
  of JSON is what \<open>JSON.parse\<close> makes of its text. The engine compares dates as texts.
\<close>

section \<open>The table\<close>

record cred_row =
  cw_id :: string
  cw_actor_type :: string
  cw_actor_id :: string
  cw_actor_display_name :: "string option"
  cw_issuer_id :: string
  cw_issuer_display_name :: "string option"
  cw_grant_id :: "string option"
  cw_audience :: string
  cw_secret_hash :: string
  cw_capabilities :: "json option"
  cw_scope :: "json option"
  cw_metadata :: "json option option"
  cw_issued_at :: string
  cw_expires_at :: string
  cw_revoked_at :: "string option"
  cw_revoked_by :: "string option"
  cw_revocation_reason :: "string option"
  cw_correlation_id :: string

type_synonym cred_store = "(string, cred_row) jsmap"

datatype store_error = RequiredFieldEmpty | SecretHashInvalid | RowExists | WriteFailed

text \<open>The record read from a row: the scope and metadata are whatever the columns hold.\<close>

record stored_credential =
  sd_id :: string
  sd_actor :: cred_actor
  sd_issuer :: cred_issuer
  sd_grantId :: "string option"
  sd_audience :: string
  sd_capabilities :: "string list"
  sd_scope :: json
  sd_metadata :: json
  sd_issuedAt :: string
  sd_expiresAt :: string
  sd_revokedAt :: "string option"
  sd_revokedBy :: "string option"
  sd_revocationReason :: "string option"
  sd_correlationId :: string

definition toCredentialRecord :: "cred_row \<Rightarrow> stored_credential" where
  "toCredentialRecord w =
     \<lparr>sd_id = cw_id w, sd_actor = \<lparr>act_type = cw_actor_type w, act_id = cw_actor_id w, act_label = truthy (cw_actor_display_name w)\<rparr>,
      sd_issuer = \<lparr>iss_id = cw_issuer_id w, iss_label = truthy (cw_issuer_display_name w)\<rparr>, sd_grantId = truthy (cw_grant_id w),
      sd_audience = cw_audience w,
      sd_capabilities = (case cw_capabilities w of Some (JArr xs) \<Rightarrow> map the_str (filter isRelayCapabilityBit xs) | _ \<Rightarrow> []),
      sd_scope = (case cw_scope w of Some v \<Rightarrow> if is_record v then v else JObj [] | None \<Rightarrow> JObj []),
      sd_metadata = (case cw_metadata w of Some (Some v) \<Rightarrow> if is_record v then v else JUndef | _ \<Rightarrow> JUndef),
      sd_issuedAt = cw_issued_at w, sd_expiresAt = cw_expires_at w, sd_revokedAt = truthy (cw_revoked_at w),
      sd_revokedBy = truthy (cw_revoked_by w), sd_revocationReason = truthy (cw_revocation_reason w),
      sd_correlationId = cw_correlation_id w\<rparr>"

text \<open>\<open>requireNonEmpty\<close> trims and refuses what is left empty; \<open>x?.trim() || null\<close>.\<close>

definition requireNonEmpty :: "string \<Rightarrow> string option" where
  "requireNonEmpty s = truthy (Some (trim s))"

definition trimmed_or_null :: "string option \<Rightarrow> string option" where
  "trimmed_or_null a = truthy (map_option trim a)"

definition recordCredential :: "cred_store \<Rightarrow> public_credential \<Rightarrow> string \<Rightarrow> store_error + (cred_store \<times> stored_credential)" where
  "recordCredential store p secret_hash =
     (case (requireNonEmpty (cd_id p), requireNonEmpty secret_hash) of
        (Some i, Some h) \<Rightarrow>
          if \<not> is_sha_digest h then Inl SecretHashInvalid
          else (case (requireNonEmpty (act_type (cd_actor p)), requireNonEmpty (act_id (cd_actor p)), requireNonEmpty (iss_id (cd_issuer p)),
              requireNonEmpty (cd_audience p), requireNonEmpty (cd_issuedAt p), requireNonEmpty (cd_expiresAt p),
              requireNonEmpty (cd_correlationId p)) of
            (Some ty, Some aid, Some iid, Some aud, Some issued, Some expires, Some corr) \<Rightarrow>
              if jm_get store i \<noteq> None then Inl RowExists
              else let w = \<lparr>cw_id = i, cw_actor_type = ty, cw_actor_id = aid,
                  cw_actor_display_name = trimmed_or_null (act_label (cd_actor p)), cw_issuer_id = iid,
                  cw_issuer_display_name = trimmed_or_null (iss_label (cd_issuer p)), cw_grant_id = trimmed_or_null (cd_grantId p),
                  cw_audience = aud, cw_secret_hash = h, cw_capabilities = Some (JArr (map JStr (cd_capabilities p))),
                  cw_scope = Some (credential_scope_json (cd_scope p)), cw_metadata = map_option (\<lambda>m. Some (metadata_json m)) (cd_metadata p),
                  cw_issued_at = issued, cw_expires_at = expires, cw_revoked_at = None, cw_revoked_by = None, cw_revocation_reason = None,
                  cw_correlation_id = corr\<rparr>
                in Inr (jm_set store i w, toCredentialRecord w)
          | _ \<Rightarrow> Inl RequiredFieldEmpty)
      | _ \<Rightarrow> Inl RequiredFieldEmpty)"

definition store_get :: "cred_store \<Rightarrow> string \<Rightarrow> stored_credential option" where
  "store_get store i = map_option toCredentialRecord (jm_get store i)"

text \<open>The update by id touches a row only while it is not revoked.\<close>

definition revoked_row :: "string \<Rightarrow> revoke_input \<Rightarrow> cred_row \<Rightarrow> cred_row" where
  "revoked_row at r w = (if cw_revoked_at w = None
     then w\<lparr>cw_revoked_at := Some at, cw_revoked_by := Some (rv_revokedBy r), cw_revocation_reason := rv_reason r\<rparr> else w)"

definition revokeCredential :: "cred_store \<Rightarrow> string \<Rightarrow> string \<Rightarrow> revoke_input \<Rightarrow> cred_store \<times> stored_credential option" where
  "revokeCredential store at i r =
     (case jm_get store i of None \<Rightarrow> (store, None)
      | Some w \<Rightarrow> (jm_set store i (revoked_row at r w), Some (toCredentialRecord (revoked_row at r w))))"

definition revokeCredentialsByGrantId ::
  "cred_store \<Rightarrow> string \<Rightarrow> string \<Rightarrow> revoke_input \<Rightarrow> cred_store \<times> stored_credential list" where
  "revokeCredentialsByGrantId store at g r =
     (let live = (\<lambda>w. cw_grant_id w = Some g \<and> cw_revoked_at w = None) in
      (map (\<lambda>kw. (fst kw, if live (snd kw) then revoked_row at r (snd kw) else snd kw)) store,
       map (\<lambda>w. toCredentialRecord (revoked_row at r w)) (filter live (jm_values store))))"

definition pruneExpiredCredentials :: "cred_store \<Rightarrow> string \<Rightarrow> cred_store \<times> nat" where
  "pruneExpiredCredentials store now =
     (let kept = filter (\<lambda>kw. \<not> cw_expires_at (snd kw) \<le> now) store in (kept, length store - length kept))"

definition listRestorableCredentials :: "cred_store \<Rightarrow> string \<Rightarrow> (stored_credential \<times> string) list" where
  "listRestorableCredentials store now =
     map (\<lambda>w. (toCredentialRecord w, cw_secret_hash w)) (filter (\<lambda>w. now < cw_expires_at w) (jm_values store))"

section \<open>The service\<close>

record cred_service =
  sv_registry :: cred_registry
  sv_store :: cred_store

definition recordIssued :: "(string \<Rightarrow> string) \<Rightarrow> cred_store \<Rightarrow> string \<Rightarrow> public_credential \<Rightarrow> store_error + (cred_store \<times> stored_credential)" where
  "recordIssued sha store token p =
     (case scopedActorCredentialSecretHash sha token of None \<Rightarrow> Inl WriteFailed | Some h \<Rightarrow> recordCredential store p h)"

text \<open>How the routes issue: a credential that cannot be stored is revoked at once.\<close>

definition persistence_failed :: revoke_input where
  "persistence_failed = \<lparr>rv_revokedBy = ''hub-persistence-failed'', rv_reason = Some ''failed to persist scoped actor credential'',
     rv_correlationId = None\<rparr>"

definition issue_persisted ::
  "cred_env \<Rightarrow> cred_service \<Rightarrow> issue_input \<Rightarrow> int \<Rightarrow> 8 word list \<Rightarrow> cred_service \<times> (string \<times> public_credential) option" where
  "issue_persisted env sv i now bytes =
     (case issueAt env (sv_registry sv) i now bytes of Inl e \<Rightarrow> (sv, None)
      | Inr (reg, token, p) \<Rightarrow>
        (case recordIssued (ce_sha env) (sv_store sv) token p of
           Inl e \<Rightarrow> (sv\<lparr>sv_registry := fst (cred_revoke env reg now (cd_id p) persistence_failed)\<rparr>, None)
         | Inr (store, _) \<Rightarrow> (\<lparr>sv_registry = reg, sv_store = store\<rparr>, Some (token, p))))"

text \<open>The two clocks of a revocation are read one after the other.\<close>

definition service_revoke ::
  "cred_env \<Rightarrow> cred_service \<Rightarrow> int \<Rightarrow> int \<Rightarrow> string \<Rightarrow> revoke_input \<Rightarrow> cred_service \<times> public_credential option" where
  "service_revoke env sv now now2 i r =
     (case cred_revoke env (sv_registry sv) now i r of (reg, p) \<Rightarrow>
        (\<lparr>sv_registry = reg, sv_store = fst (revokeCredential (sv_store sv) (ce_toIso env now2) i r)\<rparr>, p))"

definition service_revokeByGrantId ::
  "cred_env \<Rightarrow> cred_service \<Rightarrow> int \<Rightarrow> int \<Rightarrow> string \<Rightarrow> revoke_input \<Rightarrow> cred_service \<times> public_credential list" where
  "service_revokeByGrantId env sv now now2 g r =
     (case cred_revokeByGrantId env (sv_registry sv) now g r of (reg, ps) \<Rightarrow>
        (\<lparr>sv_registry = reg, sv_store = fst (revokeCredentialsByGrantId (sv_store sv) (ce_toIso env now2) g r)\<rparr>, ps))"

definition import_of_stored :: "stored_credential \<Rightarrow> string \<Rightarrow> import_input" where
  "import_of_stored d h =
     \<lparr>im_id = sd_id d, im_actor = sd_actor d, im_issuer = sd_issuer d, im_grantId = truthy (sd_grantId d), im_audience = sd_audience d,
      im_capabilities = sd_capabilities d, im_scope = sd_scope d, im_metadata = sd_metadata d, im_issuedAt = sd_issuedAt d,
      im_expiresAt = sd_expiresAt d, im_revokedAt = truthy (sd_revokedAt d), im_revokedBy = truthy (sd_revokedBy d),
      im_revocationReason = truthy (sd_revocationReason d), im_correlationId = Some (sd_correlationId d), im_secretHash = h\<rparr>"

record rehydration =
  rh_registry :: cred_registry
  rh_restored :: nat
  rh_revoked :: nat

text \<open>A row that cannot be imported is skipped.\<close>

definition rehydrate_row :: "cred_env \<Rightarrow> rehydration \<Rightarrow> stored_credential \<times> string \<Rightarrow> rehydration" where
  "rehydrate_row env h dh =
     (case getCredential (rh_registry h) (sd_id (fst dh)) of Some _ \<Rightarrow> h
      | None \<Rightarrow> (case importCredential env (rh_registry h) (import_of_stored (fst dh) (snd dh)) of Inl e \<Rightarrow> h
        | Inr (reg, _) \<Rightarrow> \<lparr>rh_registry = reg, rh_restored = rh_restored h + 1,
            rh_revoked = rh_revoked h + (if is_truthy (sd_revokedAt (fst dh)) then 1 else 0)\<rparr>))"

definition rehydrate :: "cred_env \<Rightarrow> cred_service \<Rightarrow> int \<Rightarrow> cred_service \<times> nat \<times> nat \<times> nat" where
  "rehydrate env sv at =
     (let (store, pruned) = pruneExpiredCredentials (sv_store sv) (ce_toIso env at);
          h = foldl (rehydrate_row env) \<lparr>rh_registry = sv_registry sv, rh_restored = 0, rh_revoked = 0\<rparr>
                (listRestorableCredentials store (ce_toIso env at))
      in (\<lparr>sv_registry = rh_registry h, sv_store = store\<rparr>, rh_restored h, rh_revoked h, pruned))"

text \<open>A restart: a new process with an empty registry reads the store.\<close>

definition hub_restart :: "cred_env \<Rightarrow> cred_service \<Rightarrow> int \<Rightarrow> cred_service" where
  "hub_restart env sv at = fst (rehydrate env (sv\<lparr>sv_registry := empty_registry\<rparr>) at)"

end
