(* ===== verification/Credential_Restart.thy ===== *)
theory Credential_Restart
  imports Credential_Store Credential_Lifetime
begin

text \<open>
  A restart of the hub is transparent: the registry read origin from the store accepts the same requests as the one that was lost.
\<close>

section \<open>What is stored is read origin\<close>

lemma normalize_caps_fixed:
  "distinct cs \<Longrightarrow> set cs \<subseteq> set relay_capability_bits \<Longrightarrow> set acc \<inter> set cs = {} \<Longrightarrow> normalize_caps acc cs = Inr (acc @ cs)"
  by (induction acc cs rule: normalize_caps.induct) (auto simp: caps_known)

lemma normalize_caps_distinct: "normalize_caps acc cs = Inr r \<Longrightarrow> distinct acc \<Longrightarrow> distinct r"
  by (induction acc cs rule: normalize_caps.induct) (auto split: if_split_asm)

lemma capabilities_stable: "normalizeCredentialCapabilities cs = Inr r \<Longrightarrow> normalizeCredentialCapabilities r = Inr r"
  unfolding normalizeCredentialCapabilities_def
  using normalize_caps_distinct [of "[]" cs r] normalized_capabilities [of cs r] normalize_caps_fixed [of r "[]"]
  by (simp add: normalizeCredentialCapabilities_def)

definition texts_normal :: "string list \<Rightarrow> bool" where
  "texts_normal xs \<longleftrightarrow> distinct xs \<and> (\<forall>x\<in>set xs. trim x = x \<and> x \<noteq> [])"

lemma normal_add: "texts_normal acc \<Longrightarrow> texts_normal (add_text acc v)"
  by (cases v) (auto simp: add_text_def texts_normal_def)

lemma normal_texts: "texts_normal (normalizeStringList v)"
proof -
  have "texts_normal acc \<Longrightarrow> texts_normal (foldl add_text acc xs)" for acc xs
    by (induction xs arbitrary: acc) (simp_all add: normal_add)
  moreover have "texts_normal []" by (simp add: texts_normal_def)
  ultimately show ?thesis by (cases v) (simp_all add: normalizeStringList_def)
qed

lemma texts_stable: "texts_normal xs \<Longrightarrow> normalizeStringList (JArr (map JStr xs)) = xs"
proof -
  have "texts_normal (acc @ xs) \<Longrightarrow> foldl add_text acc (map JStr xs) = acc @ xs" for acc
  proof (induction xs arbitrary: acc)
    case (Cons x xs)
    then have "add_text acc (JStr x) = acc @ [x]" by (simp add: add_text_def texts_normal_def)
    with Cons show ?case by simp
  qed simp
  from this [of "[]"] show "texts_normal xs \<Longrightarrow> ?thesis" by (simp add: normalizeStringList_def)
qed

lemma dimension_stable: "scope_dimension (texts_json (scope_dimension v)) = scope_dimension v"
  using texts_stable [OF normal_texts, of v] normal_texts [of v]
  by (simp add: scope_dimension_def texts_json_def Let_def) (simp add: normalizeStringList_def)

lemma fld_literal:
  assumes "distinct (map fst kvs)"
  shows "fld (js_obj kvs) k = (case map_of kvs k of Some x \<Rightarrow> x | None \<Rightarrow> JUndef)"
  unfolding fld_js_obj using assms
proof (induction kvs)
  case (Cons kv kvs)
  have "map_of kvs (fst kv) = None" using Cons.prems by (simp add: map_of_eq_None_iff)
  then have "map_of (filter (\<lambda>kv. snd kv \<noteq> JUndef) kvs) (fst kv) = None" by (auto simp: map_of_eq_None_iff)
  with Cons show ?case by (cases kv) auto
qed simp

lemma scope_json_fields:
  "fld (credential_scope_json s) ''nodeIds'' = texts_json (sp_nodeIds s)"
  "fld (credential_scope_json s) ''sessionIds'' = texts_json (sp_sessionIds s)"
  "fld (credential_scope_json s) ''globalSessionIds'' = texts_json (sp_globalSessionIds s)"
  "fld (credential_scope_json s) ''workContextIds'' = texts_json (sp_workContextIds s)"
  "fld (credential_scope_json s) ''channelIds'' = texts_json (sp_channelIds s)"
  "fld (credential_scope_json s) ''repoIds'' = texts_json (sp_repoIds s)"
  "fld (credential_scope_json s) ''pathPrefixes'' = texts_json (sp_pathPrefixes s)"
  "fld (credential_scope_json s) ''taskRefs'' = texts_json (sp_taskRefs s)"
  unfolding credential_scope_json_def by (subst fld_literal; simp)+

lemma scope_record [simp]: "is_record (credential_scope_json s)"
  by (simp add: credential_scope_json_def js_obj_def is_record_def)

lemma scope_stable:
  assumes "normalizeCredentialScope v = Inr s"
  shows "normalizeCredentialScope (credential_scope_json s) = Inr s"
proof -
  have s: "s = \<lparr>sp_nodeIds = scope_dimension (fld v ''nodeIds''), sp_sessionIds = scope_dimension (fld v ''sessionIds''),
      sp_globalSessionIds = scope_dimension (fld v ''globalSessionIds''), sp_workContextIds = scope_dimension (fld v ''workContextIds''),
      sp_channelIds = scope_dimension (fld v ''channelIds''), sp_repoIds = scope_dimension (fld v ''repoIds''),
      sp_pathPrefixes = scope_dimension (fld v ''pathPrefixes''), sp_taskRefs = scope_dimension (fld v ''taskRefs'')\<rparr>"
    and ne: "s \<noteq> no_scope"
    using assms by (auto simp: normalizeCredentialScope_def Let_def split: if_split_asm)
  have again: "\<lparr>sp_nodeIds = scope_dimension (texts_json (sp_nodeIds s)), sp_sessionIds = scope_dimension (texts_json (sp_sessionIds s)),
      sp_globalSessionIds = scope_dimension (texts_json (sp_globalSessionIds s)),
      sp_workContextIds = scope_dimension (texts_json (sp_workContextIds s)), sp_channelIds = scope_dimension (texts_json (sp_channelIds s)),
      sp_repoIds = scope_dimension (texts_json (sp_repoIds s)), sp_pathPrefixes = scope_dimension (texts_json (sp_pathPrefixes s)),
      sp_taskRefs = scope_dimension (texts_json (sp_taskRefs s))\<rparr> = s"
    unfolding s cred_scope.simps dimension_stable by (rule refl)
  show ?thesis unfolding normalizeCredentialScope_def Let_def scope_json_fields again using ne by simp
qed

lemma requireNonEmpty_Some: "requireNonEmpty s = Some x \<longleftrightarrow> x = trim s \<and> x \<noteq> []"
  by (auto simp: requireNonEmpty_def truthy_def)

lemma digest_trimmed: "is_sha_digest h \<Longrightarrow> trim h = h"
proof -
  assume h: "is_sha_digest h"
  have ws: "\<not> is_ws c" if "c \<in> set h" for c
    using h that by (auto simp: is_sha_digest_def list_all_iff is_ws_def is_digit_def Let_def)
  have "h \<noteq> []" using h by (auto simp: is_sha_digest_def)
  then show "trim h = h" by (intro trim_fixed) (simp add: ws)
qed

section \<open>The host\<close>

text \<open>From 1970 to the end of the year 9999 dates are printed with a fixed width: read origin as printed, nothing to trim, ordered as
  texts like the times.\<close>

definition in_era :: "int \<Rightarrow> bool" where
  "in_era t \<longleftrightarrow> 0 \<le> t \<and> t < 253402300800000"

definition host_ok :: "cred_env \<Rightarrow> bool" where
  "host_ok env \<longleftrightarrow>
     (\<forall>t. in_era t \<longrightarrow> ce_dp env (ce_toIso env t) = Some t \<and> trim (ce_toIso env t) = ce_toIso env t \<and> ce_toIso env t \<noteq> []) \<and>
     (\<forall>s t. in_era s \<longrightarrow> in_era t \<longrightarrow> (ce_toIso env s < ce_toIso env t \<longleftrightarrow> s < t)) \<and>
     (\<forall>s. is_sha_digest (ce_sha env s)) \<and> (\<forall>n. trim (ce_uuid env n) = ce_uuid env n)"

lemma era_date: "host_ok env \<Longrightarrow> in_era t \<Longrightarrow> ce_dp env (ce_toIso env t) = Some t \<and> trim (ce_toIso env t) = ce_toIso env t \<and> ce_toIso env t \<noteq> []"
  by (simp add: host_ok_def)

lemma era_less: "host_ok env \<Longrightarrow> in_era s \<Longrightarrow> in_era t \<Longrightarrow> ce_toIso env s < ce_toIso env t \<longleftrightarrow> s < t"
  by (simp add: host_ok_def)

section \<open>A row and its credential\<close>

definition mirrors :: "cred_env \<Rightarrow> credential \<Rightarrow> cred_row \<Rightarrow> bool" where
  "mirrors env c w \<longleftrightarrow>
     cw_id w = cd_id c \<and> cw_actor_type w = act_type (cd_actor c) \<and> act_type (cd_actor c) \<in> set actor_credential_types \<and>
     cw_audience w = cd_audience c \<and> cd_audience c \<in> set actor_credential_audiences \<and>
     cw_grant_id w = cd_grantId c \<and> cd_grantId c \<noteq> Some [] \<and> cw_secret_hash w = cd_secretHash c \<and> is_sha_digest (cd_secretHash c) \<and>
     cw_capabilities w = Some (JArr (map JStr (cd_capabilities c))) \<and>
     normalizeCredentialCapabilities (cd_capabilities c) = Inr (cd_capabilities c) \<and>
     cw_scope w = Some (credential_scope_json (cd_scope c)) \<and>
     normalizeCredentialScope (credential_scope_json (cd_scope c)) = Inr (cd_scope c) \<and>
     (\<exists>t. in_era t \<and> cw_issued_at w = ce_toIso env t) \<and>
     (\<exists>t. in_era t \<and> cw_expires_at w = ce_toIso env t \<and> cd_expiresAt c = ce_toIso env t) \<and>
     (\<forall>x. cw_revoked_at w = Some x \<longrightarrow> (\<exists>t. in_era t \<and> x = ce_toIso env t))"

definition tells :: "credential \<Rightarrow> cred_row \<Rightarrow> bool" where
  "tells c w \<longleftrightarrow> (is_truthy (cd_revokedAt c) \<longleftrightarrow> cw_revoked_at w \<noteq> None)"

lemma stored_caps:
  assumes "normalizeCredentialCapabilities cs = Inr cs"
  shows "map the_str (filter isRelayCapabilityBit (map JStr cs)) = cs"
proof -
  have "set cs \<subseteq> set relay_capability_bits" using normalized_capabilities [OF assms] .
  then have "filter isRelayCapabilityBit (map JStr cs) = map JStr cs" by (auto simp: filter_id_conv caps_known)
  then show ?thesis by (simp add: comp_def the_str_def)
qed

lemma import_row:
  assumes "host_ok env" and "mirrors env c w" and "cred_at st (cw_id w) = None"
  shows "\<exists>st' p c'. importCredential env st (import_of_stored (toCredentialRecord w) (cw_secret_hash w)) = Inr (st', p) \<and>
    adds st st' c' \<and> cd_id c' = cw_id w \<and> mirrors env c' w \<and> tells c' w"
proof -
  define i where "i = import_of_stored (toCredentialRecord w) (cw_secret_hash w)"
  obtain issued where issued: "in_era issued" "cw_issued_at w = ce_toIso env issued" using assms(2) by (auto simp: mirrors_def)
  obtain expires where expires: "in_era expires" "cw_expires_at w = ce_toIso env expires" using assms(2) by (auto simp: mirrors_def)
  have f: "im_id i = cw_id w" "act_type (im_actor i) = cw_actor_type w" "im_audience i = cw_audience w"
    "im_capabilities i = cd_capabilities c" "im_scope i = credential_scope_json (cd_scope c)" "im_secretHash i = cw_secret_hash w"
    "im_issuedAt i = ce_toIso env issued" "im_expiresAt i = ce_toIso env expires" "im_grantId i = truthy (truthy (cw_grant_id w))"
    "im_revokedAt i = truthy (truthy (cw_revoked_at w))"
    using assms(2) issued(2) expires(2)
    by (simp_all add: i_def import_of_stored_def toCredentialRecord_def mirrors_def stored_caps credential_scope_json_def js_obj_def is_record_def)
  have m: "cw_actor_type w \<in> set actor_credential_types" "cw_audience w \<in> set actor_credential_audiences"
    "normalizeCredentialCapabilities (cd_capabilities c) = Inr (cd_capabilities c)"
    "normalizeCredentialScope (credential_scope_json (cd_scope c)) = Inr (cd_scope c)" "is_sha_digest (cw_secret_hash w)"
    using assms(2) by (simp_all add: mirrors_def)
  note d = era_date [OF assms(1) issued(1)] era_date [OF assms(1) expires(1)]
  have rv: "iso_again env (im_revokedAt i) = Inr (cw_revoked_at w)"
  proof (cases "cw_revoked_at w")
    case None
    then show ?thesis by (simp add: f iso_again_def truthy_def)
  next
    case (Some x)
    then obtain t where t: "in_era t" "x = ce_toIso env t" using assms(2) by (auto simp: mirrors_def)
    with Some era_date [OF assms(1) t(1)] show ?thesis by (simp add: f iso_again_def truthy_def)
  qed
  obtain k st1 where k: "or_draw env (im_correlationId i) st = (k, st1)" by force
  have "\<exists>st' p. importCredential env st i = Inr (st', p)"
    using m d rv assms(3) by (simp add: importCredential_def f has_credential_def k Let_def)
  then obtain st' p where imp: "importCredential env st i = Inr (st', p)" by blast
  from imp obtain c' expires' where c': "adds st st' c'" "cd_id c' = im_id i" "act_type (cd_actor c') = act_type (im_actor i)"
    "cd_audience c' = im_audience i" "normalizeCredentialCapabilities (im_capabilities i) = Inr (cd_capabilities c')"
    "normalizeCredentialScope (im_scope i) = Inr (cd_scope c')" "cd_secretHash c' = im_secretHash i"
    "ce_dp env (im_expiresAt i) = Some expires'" "cd_expiresAt c' = ce_toIso env expires'"
    "iso_again env (im_revokedAt i) = Inr (cd_revokedAt c')" "cd_grantId c' = truthy (im_grantId i)"
    by (rule import_adds)
  have same: "cd_capabilities c' = cd_capabilities c" "cd_scope c' = cd_scope c" "cd_expiresAt c' = ce_toIso env expires"
    "cd_revokedAt c' = cw_revoked_at w"
    using c' m d rv by (simp_all add: f)
  have "cd_grantId c' = cw_grant_id w"
    using c'(11) assms(2) by (auto simp: f mirrors_def truthy_def split: option.split)
  then have "mirrors env c' w"
    using assms(2) c'(2-4,7) same expires unfolding mirrors_def by (simp add: f) blast
  moreover have "tells c' w"
  proof (cases "cw_revoked_at w")
    case (Some x)
    then obtain t where t: "in_era t" "x = ce_toIso env t" using assms(2) by (auto simp: mirrors_def)
    with Some era_date [OF assms(1) t(1)] show ?thesis by (simp add: tells_def same is_truthy_def truthy_def)
  qed (simp add: tells_def same is_truthy_def truthy_def)
  moreover have "cd_id c' = cw_id w" using c'(2) f(1) by simp
  ultimately show ?thesis using imp c'(1) unfolding i_def by blast
qed

section \<open>Reading the store\<close>

definition restored :: "cred_env \<Rightarrow> cred_registry \<Rightarrow> cred_row \<Rightarrow> bool" where
  "restored env st w \<longleftrightarrow> (\<exists>c. cred_at st (cw_id w) = Some c \<and> mirrors env c w \<and> tells c w)"

lemma rehydrate_rows:
  assumes "host_ok env" and "distinct (map cw_id ws)" and "\<forall>w\<in>set ws. \<exists>c. mirrors env c w"
    and "cred_inv (rh_registry h)" and "\<forall>w\<in>set ws. cred_at (rh_registry h) (cw_id w) = None"
    and "h' = foldl (rehydrate_row env) h (map (\<lambda>w. (toCredentialRecord w, cw_secret_hash w)) ws)"
  shows "cred_inv (rh_registry h') \<and> (\<forall>w\<in>set ws. restored env (rh_registry h') w) \<and>
    (\<forall>i. i \<notin> cw_id ` set ws \<longrightarrow> cred_at (rh_registry h') i = cred_at (rh_registry h) i)"
  using assms(2-)
proof (induction ws arbitrary: h)
  case (Cons w ws)
  obtain c where c: "mirrors env c w" using Cons.prems(2) by auto
  have new: "cred_at (rh_registry h) (cw_id w) = None" using Cons.prems(4) by simp
  obtain st' p c' where imp: "importCredential env (rh_registry h) (import_of_stored (toCredentialRecord w) (cw_secret_hash w)) = Inr (st', p)"
    and c': "adds (rh_registry h) st' c'" "cd_id c' = cw_id w" "mirrors env c' w" "tells c' w"
    using import_row [OF assms(1) c new] by blast
  define h1 where "h1 = rehydrate_row env h (toCredentialRecord w, cw_secret_hash w)"
  have h1: "rh_registry h1 = st'"
    using new imp by (simp add: h1_def rehydrate_row_def getCredential_def) (simp add: toCredentialRecord_def getCredential_def)
  note at = adds_at [OF c'(1), unfolded c'(2)]
  have rest: "cred_inv (rh_registry h') \<and> (\<forall>w\<in>set ws. restored env (rh_registry h') w) \<and>
      (\<forall>i. i \<notin> cw_id ` set ws \<longrightarrow> cred_at (rh_registry h') i = cred_at (rh_registry h1) i)"
  proof (rule Cons.IH)
    show "cred_inv (rh_registry h1)" using adds_inv [OF c'(1) Cons.prems(3)] h1 by simp
    show "\<forall>w\<in>set ws. cred_at (rh_registry h1) (cw_id w) = None" using Cons.prems(1,4) by (auto simp: h1 at image_iff)
  qed (use Cons.prems in \<open>auto simp: h1_def\<close>)
  have "cw_id w \<notin> cw_id ` set ws" using Cons.prems(1) by auto
  with rest have "cred_at (rh_registry h') (cw_id w) = Some c'" by (simp add: h1 at)
  then have "restored env (rh_registry h') w" using c'(3,4) by (auto simp: restored_def)
  moreover have "cred_at (rh_registry h') i = cred_at (rh_registry h) i" if "i \<notin> cw_id ` set (w # ws)" for i
    using that rest by (simp add: h1 at)
  ultimately show ?case using rest by simp
qed simp

lemma upto_dot: "CHR ''.'' \<notin> set s \<Longrightarrow> takeWhile (\<lambda>c. c \<noteq> CHR ''.'') (s @ CHR ''.'' # r) = s"
  by (induction s) auto

lemma hex_of_token:
  assumes "scoped_token i s = scoped_token j t" and "CHR ''.'' \<notin> set s" and "CHR ''.'' \<notin> set t"
  shows "s = t"
proof -
  have "rev s @ CHR ''.'' # rev (token_prefix @ ''.'' @ i) = rev t @ CHR ''.'' # rev (token_prefix @ ''.'' @ j)"
    using arg_cong [OF assms(1), of rev] by (simp add: scoped_token_def)
  from arg_cong [OF this, of "takeWhile (\<lambda>c. c \<noteq> CHR ''.'')"] have "rev s = rev t"
    using assms(2,3) by (simp only: upto_dot set_rev not_False_eq_True)
  then show ?thesis by simp
qed

section \<open>Registry and store in step\<close>

definition dead :: "cred_env \<Rightarrow> int \<Rightarrow> credential \<Rightarrow> bool" where
  "dead env t c \<longleftrightarrow> is_truthy (cd_revokedAt c) \<or> cred_expired env (publicCredential c) t"

text \<open>At time \<open>t\<close> every row belongs to a credential of the registry, and they agree about revocation unless it has expired; a
  credential without a row is dead.\<close>

definition linked :: "cred_env \<Rightarrow> int \<Rightarrow> cred_service \<Rightarrow> bool" where
  "linked env t sv \<longleftrightarrow> jm_wf (sv_store sv) \<and> cred_inv (sv_registry sv) \<and>
     (\<forall>i w. jm_get (sv_store sv) i = Some w \<longrightarrow> cw_id w = i \<and>
        (\<exists>c. cred_at (sv_registry sv) i = Some c \<and> mirrors env c w \<and> (tells c w \<or> cred_expired env (publicCredential c) t))) \<and>
     (\<forall>i c. cred_at (sv_registry sv) i = Some c \<longrightarrow> jm_get (sv_store sv) i \<noteq> None \<or> dead env t c)"

lemma expired_later: "cred_expired env p s \<Longrightarrow> s \<le> t \<Longrightarrow> cred_expired env p t"
  by (auto simp: cred_expired_def split: option.splits)

lemma linked_row:
  assumes "linked env t sv" and "jm_get (sv_store sv) i = Some w"
  obtains c where "cw_id w = i" "cred_at (sv_registry sv) i = Some c" "mirrors env c w" "tells c w \<or> cred_expired env (publicCredential c) t"
  using assms unfolding linked_def by blast

lemma linkedI:
  assumes "jm_wf (sv_store sv)" "cred_inv (sv_registry sv)"
    and "\<And>i w. jm_get (sv_store sv) i = Some w \<Longrightarrow> cw_id w = i \<and>
        (\<exists>c. cred_at (sv_registry sv) i = Some c \<and> mirrors env c w \<and> (tells c w \<or> cred_expired env (publicCredential c) t))"
    and "\<And>i c. cred_at (sv_registry sv) i = Some c \<Longrightarrow> jm_get (sv_store sv) i = None \<Longrightarrow> dead env t c"
  shows "linked env t sv"
  using assms unfolding linked_def by blast

lemma linked_later: "linked env s sv \<Longrightarrow> s \<le> t \<Longrightarrow> linked env t sv"
  unfolding linked_def dead_def by (meson expired_later)

lemma map_of_filter_snd:
  "distinct (map fst m) \<Longrightarrow> map_of (filter (\<lambda>kv. P (snd kv)) m) k = (case map_of m k of None \<Rightarrow> None | Some v \<Rightarrow> if P v then Some v else None)"
proof (induction m)
  case (Cons kv m)
  then have "map_of m (fst kv) = None" by (simp add: map_of_eq_None_iff)
  with Cons show ?case by (cases kv) (auto split: option.splits)
qed simp

lemma restart_store:
  assumes "linked env s sv" and "s \<le> t" and "host_ok env" and "in_era t"
  shows "linked env t (hub_restart env sv t) \<and>
    (\<forall>i. jm_get (sv_store (hub_restart env sv t)) i =
      (case jm_get (sv_store sv) i of None \<Rightarrow> None | Some w \<Rightarrow> if ce_toIso env t < cw_expires_at w then Some w else None)) \<and>
    (\<forall>i w. jm_get (sv_store (hub_restart env sv t)) i = Some w \<longrightarrow> restored env (sv_registry (hub_restart env sv t)) w) \<and>
    (\<forall>i. jm_get (sv_store (hub_restart env sv t)) i = None \<longrightarrow> cred_at (sv_registry (hub_restart env sv t)) i = None)"
proof -
  define now where "now = ce_toIso env t"
  define kept where "kept = filter (\<lambda>kw. \<not> cw_expires_at (snd kw) \<le> now) (sv_store sv)"
  define h where "h = foldl (rehydrate_row env) \<lparr>rh_registry = empty_registry, rh_restored = 0, rh_revoked = 0\<rparr>
    (map (\<lambda>w. (toCredentialRecord w, cw_secret_hash w)) (jm_values kept))"
  have all: "filter (\<lambda>w. now < cw_expires_at w) (jm_values kept) = jm_values kept"
    by (auto simp: filter_id_conv kept_def jm_values_def not_le)
  have sv': "hub_restart env sv t = \<lparr>sv_registry = rh_registry h, sv_store = kept\<rparr>"
    using all by (simp add: hub_restart_def rehydrate_def pruneExpiredCredentials_def listRestorableCredentials_def Let_def h_def
        kept_def [symmetric] now_def [symmetric])
  have wf: "jm_wf kept" using assms(1) by (simp add: linked_def kept_def jm_wf_filter)
  have get: "jm_get kept i = (case jm_get (sv_store sv) i of None \<Rightarrow> None | Some w \<Rightarrow> if now < cw_expires_at w then Some w else None)" for i
  proof -
    have "distinct (map fst (sv_store sv))" using assms(1) by (simp add: linked_def jm_wf_def)
    moreover have "kept = filter (\<lambda>kw. now < cw_expires_at (snd kw)) (sv_store sv)" by (simp add: kept_def not_le)
    ultimately show ?thesis using map_of_filter_snd [of "sv_store sv" "\<lambda>w. now < cw_expires_at w" i] by (simp add: jm_get_def)
  qed
  have row: "cw_id w = i \<and> (\<exists>c. mirrors env c w)" if "jm_get kept i = Some w" for i w
  proof -
    have "jm_get (sv_store sv) i = Some w" using that get [of i] by (auto split: option.split_asm if_split_asm)
    then show ?thesis using linked_row [OF assms(1)] by metis
  qed
  have member: "jm_get kept (fst kw) = Some (snd kw)" if "kw \<in> set kept" for kw
    using that wf by (simp add: jm_get_def jm_wf_def)
  have ids: "map cw_id (jm_values kept) = map fst kept"
  proof -
    have "cw_id (snd kw) = fst kw" if "kw \<in> set kept" for kw using row [OF member [OF that]] by simp
    then show ?thesis by (simp add: jm_values_def)
  qed
  have keys: "i \<in> cw_id ` set (jm_values kept) \<longleftrightarrow> jm_get kept i \<noteq> None" for i
  proof -
    have "cw_id ` set (jm_values kept) = set (map fst kept)" using arg_cong [OF ids, of set] by simp
    then show ?thesis by (auto simp: jm_get_def map_of_eq_None_iff)
  qed
  have "cred_inv (rh_registry h) \<and> (\<forall>w\<in>set (jm_values kept). restored env (rh_registry h) w) \<and>
      (\<forall>i. i \<notin> cw_id ` set (jm_values kept) \<longrightarrow>
        cred_at (rh_registry h) i = cred_at (rh_registry \<lparr>rh_registry = empty_registry, rh_restored = 0, rh_revoked = 0\<rparr>) i)"
  proof (rule rehydrate_rows [OF assms(3)])
    show "distinct (map cw_id (jm_values kept))" using wf ids by (simp add: jm_wf_def)
    show "\<forall>w\<in>set (jm_values kept). \<exists>c. mirrors env c w"
      using row [OF member] by (force simp: jm_values_def)
    show "cred_inv (rh_registry \<lparr>rh_registry = empty_registry, rh_restored = 0, rh_revoked = 0\<rparr>)" by (simp add: empty_inv)
    show "\<forall>w\<in>set (jm_values kept). cred_at (rh_registry \<lparr>rh_registry = empty_registry, rh_restored = 0, rh_revoked = 0\<rparr>) (cw_id w) = None"
      by (simp add: empty_registry_def jm_get_def)
  qed (rule h_def)
  then have inv: "cred_inv (rh_registry h)" and origin: "\<And>i w. jm_get kept i = Some w \<Longrightarrow> restored env (rh_registry h) w"
    and none: "\<And>i. jm_get kept i = None \<Longrightarrow> cred_at (rh_registry h) i = None"
    using jm_get_in_values [of kept] keys by (auto simp: empty_registry_def jm_get_def [of "[]"])
  have "linked env t \<lparr>sv_registry = rh_registry h, sv_store = kept\<rparr>"
  proof (rule linkedI)
    fix i w assume "jm_get (sv_store \<lparr>sv_registry = rh_registry h, sv_store = kept\<rparr>) i = Some w"
    then have k: "jm_get kept i = Some w" by simp
    with row origin show "cw_id w = i \<and> (\<exists>c. cred_at (sv_registry \<lparr>sv_registry = rh_registry h, sv_store = kept\<rparr>) i = Some c \<and> mirrors env c w \<and>
        (tells c w \<or> cred_expired env (publicCredential c) t))"
      unfolding restored_def by fastforce
  qed (use wf inv none in auto)
  moreover note get [unfolded now_def] origin none
  ultimately show ?thesis unfolding sv' by (intro conjI) auto
qed

section \<open>The same requests are accepted\<close>

definition same_authority :: "credential \<Rightarrow> credential \<Rightarrow> bool" where
  "same_authority c d \<longleftrightarrow> act_type (cd_actor c) = act_type (cd_actor d) \<and> cd_grantId c = cd_grantId d \<and> cd_audience c = cd_audience d \<and>
     cd_capabilities c = cd_capabilities d \<and> cd_scope c = cd_scope d \<and> cd_secretHash c = cd_secretHash d \<and>
     cd_expiresAt c = cd_expiresAt d \<and> (is_truthy (cd_revokedAt c) \<longleftrightarrow> is_truthy (cd_revokedAt d))"

lemma accepts_same: "same_authority c d \<Longrightarrow> cred_accepts env c t secret v = cred_accepts env d t secret v"
  by (simp add: cred_accepts_def same_authority_def cred_expired_def)

lemma normal_scope_inj:
  assumes "normalizeCredentialScope (credential_scope_json s) = Inr s" "normalizeCredentialScope (credential_scope_json u) = Inr u"
    and "credential_scope_json s = credential_scope_json u"
  shows "s = u"
proof -
  have "Inr s = (Inr u :: cred_error + cred_scope)" using assms(1) unfolding assms(3) assms(2) by (rule sym)
  then show ?thesis by simp
qed

lemma mirrors_same:
  assumes "mirrors env c w" and "mirrors env d w" and "is_truthy (cd_revokedAt c) \<longleftrightarrow> is_truthy (cd_revokedAt d)"
  shows "same_authority c d \<and> cd_id c = cd_id d"
proof -
  have "map JStr (cd_capabilities c) = map JStr (cd_capabilities d)" using assms(1,2) by (simp add: mirrors_def)
  then have "cd_capabilities c = cd_capabilities d" by (rule map_injective) (simp add: inj_def)
  moreover have "cd_scope c = cd_scope d"
    using assms(1,2) by (intro normal_scope_inj) (simp_all add: mirrors_def)
  moreover have "cd_id c = cd_id d \<and> act_type (cd_actor c) = act_type (cd_actor d) \<and> cd_grantId c = cd_grantId d \<and>
      cd_audience c = cd_audience d \<and> cd_secretHash c = cd_secretHash d"
    using assms(1,2) by (simp add: mirrors_def)
  moreover have "cd_expiresAt c = cd_expiresAt d" using assms(1,2) unfolding mirrors_def by metis
  ultimately show ?thesis using assms(3) by (simp add: same_authority_def)
qed

text \<open>What a credential entitles to.\<close>

definition authority :: "public_credential \<Rightarrow> string \<times> string \<times> string option \<times> string \<times> string list \<times> cred_scope \<times> string" where
  "authority p = (cd_id p, act_type (cd_actor p), cd_grantId p, cd_audience p, cd_capabilities p, cd_scope p, cd_expiresAt p)"

lemma restart_accepts:
  assumes "linked env s sv" and "s \<le> at" and "host_ok env" and "in_era at" and "at \<le> t"
  shows "(\<exists>p. snd (cred_validate env (sv_registry sv) t token v) = CredOk p bits \<and> authority p = a) \<longleftrightarrow>
    (\<exists>p. snd (cred_validate env (sv_registry (hub_restart env sv at)) t token v) = CredOk p bits \<and> authority p = a)"
proof -
  define sv' where "sv' = hub_restart env sv at"
  note r = restart_store [OF assms(1-4), folded sv'_def]
  have same: "authority (publicCredential c) = authority (publicCredential d)" if "same_authority c d" "cd_id c = cd_id d" for c d
    using that by (simp add: authority_def same_authority_def)
  have there: "\<exists>d. cred_at (sv_registry sv') i = Some d \<and> same_authority c d \<and> cd_id c = cd_id d"
    if c: "cred_at (sv_registry sv) i = Some c" and live: "\<not> is_truthy (cd_revokedAt c)" "\<not> cred_expired env (publicCredential c) t" for i c
  proof -
    have live_s: "\<not> cred_expired env (publicCredential c) s" "\<not> cred_expired env (publicCredential c) at"
      using live(2) assms(2,5) expired_later order_trans by blast+
    then have "\<not> dead env s c" using live(1) by (simp add: dead_def)
    then obtain w where w: "jm_get (sv_store sv) i = Some w" using assms(1) c unfolding linked_def by blast
    then obtain c0 where c0: "cw_id w = i" "cred_at (sv_registry sv) i = Some c0" "mirrors env c0 w"
      "tells c0 w \<or> cred_expired env (publicCredential c0) s" by (rule linked_row [OF assms(1)])
    with c live_s have m: "mirrors env c w" "tells c w" by simp_all
    obtain e where e: "in_era e" "cw_expires_at w = ce_toIso env e" "cd_expiresAt c = ce_toIso env e" using m(1) by (auto simp: mirrors_def)
    have "at < e" using live_s(2) era_date [OF assms(3) e(1)] e(3) by (simp add: cred_expired_def)
    then have "jm_get (sv_store sv') i = Some w" using r w e era_less [OF assms(3,4) e(1)] by simp
    with r have "restored env (sv_registry sv') w" by blast
    then obtain d where d: "cred_at (sv_registry sv') i = Some d" "mirrors env d w" "tells d w" using c0(1) by (auto simp: restored_def)
    then show ?thesis using mirrors_same [OF m(1) d(2)] m(2) d(3) by (auto simp: tells_def)
  qed
  have origin: "\<exists>c. cred_at (sv_registry sv) i = Some c \<and> same_authority c d \<and> cd_id c = cd_id d"
    if d: "cred_at (sv_registry sv') i = Some d" and live: "\<not> is_truthy (cd_revokedAt d)" "\<not> cred_expired env (publicCredential d) t" for i d
  proof -
    obtain w where w': "jm_get (sv_store sv') i = Some w" using r d by (cases "jm_get (sv_store sv') i") auto
    then have w: "jm_get (sv_store sv) i = Some w" using r by (auto split: option.split_asm if_split_asm)
    from r w' have "restored env (sv_registry sv') w" by blast
    moreover obtain c where c: "cw_id w = i" "cred_at (sv_registry sv) i = Some c" "mirrors env c w"
      "tells c w \<or> cred_expired env (publicCredential c) s" using w by (rule linked_row [OF assms(1)])
    ultimately have m: "mirrors env d w" "tells d w" using d by (auto simp: restored_def)
    have exp: "cd_expiresAt c = cd_expiresAt d" using c(3) m(1) by (auto simp: mirrors_def)
    have "\<not> cred_expired env (publicCredential d) s" using live(2) assms(2,5) expired_later order_trans by blast
    then have "tells c w" using c(4) exp by (simp add: cred_expired_def)
    then show ?thesis using mirrors_same [OF c(3) m(1)] c(2) m(2) by (auto simp: tells_def)
  qed
  show ?thesis unfolding validate_ok_iff sv'_def [symmetric]
  proof (intro iffI; elim exE conjE)
    fix p i secret c assume h: "parseScopedActorToken token = Some (i, secret)" "cred_at (sv_registry sv) i = Some c"
      "cred_accepts env c t secret v" "p = publicCredential c" "bits = vi_required v" "authority p = a"
    then obtain d where d: "cred_at (sv_registry sv') i = Some d" "same_authority c d" "cd_id c = cd_id d"
      using there [of i c] by (auto simp: cred_accepts_def)
    have "cred_accepts env d t secret v" "authority (publicCredential d) = a"
      using h(3,4,6) accepts_same [OF d(2)] same [OF d(2,3)] by simp_all
    with h(1,5) d(1) show "\<exists>p. (\<exists>i secret c. parseScopedActorToken token = Some (i, secret) \<and> cred_at (sv_registry sv') i = Some c \<and>
        cred_accepts env c t secret v \<and> p = publicCredential c \<and> bits = vi_required v) \<and> authority p = a" by blast
  next
    fix p i secret d assume h: "parseScopedActorToken token = Some (i, secret)" "cred_at (sv_registry sv') i = Some d"
      "cred_accepts env d t secret v" "p = publicCredential d" "bits = vi_required v" "authority p = a"
    then obtain c where c: "cred_at (sv_registry sv) i = Some c" "same_authority c d" "cd_id c = cd_id d"
      using origin [of i d] by (auto simp: cred_accepts_def)
    have "cred_accepts env c t secret v" "authority (publicCredential c) = a"
      using h(3,4,6) accepts_same [OF c(2)] same [OF c(2,3)] by simp_all
    with h(1,5) c(1) show "\<exists>p. (\<exists>i secret c. parseScopedActorToken token = Some (i, secret) \<and> cred_at (sv_registry sv) i = Some c \<and>
        cred_accepts env c t secret v \<and> p = publicCredential c \<and> bits = vi_required v) \<and> authority p = a" by blast
  qed
qed

section \<open>The service as a transition system\<close>

datatype svc_op =
    SvIssue issue_input int "8 word list"
  | SvValidate int string validate_input
  | SvRevoke int int string revoke_input
  | SvRevokeGrant int int string revoke_input
  | SvRestart int

fun svc_step :: "cred_env \<Rightarrow> cred_service \<times> int \<Rightarrow> svc_op \<Rightarrow> cred_service \<times> int" where
  "svc_step env (sv, t) (SvIssue i now bytes) = (fst (issue_persisted env sv i now bytes), now)"
| "svc_step env (sv, t) (SvValidate now token v) = (sv\<lparr>sv_registry := fst (cred_validate env (sv_registry sv) now token v)\<rparr>, now)"
| "svc_step env (sv, t) (SvRevoke now now2 i r) = (fst (service_revoke env sv now now2 i r), now2)"
| "svc_step env (sv, t) (SvRevokeGrant now now2 g r) = (fst (service_revokeByGrantId env sv now now2 g r), now2)"
| "svc_step env (sv, t) (SvRestart now) = (hub_restart env sv now, now)"

text \<open>The clock does not go back, dates stay within the era, and ids come without surrounding white space.\<close>

definition clocks :: "int \<Rightarrow> int \<Rightarrow> int \<Rightarrow> bool" where
  "clocks t now now2 \<longleftrightarrow> t \<le> now \<and> now \<le> now2 \<and> in_era now \<and> in_era now2"

fun svc_ok :: "cred_env \<Rightarrow> cred_service \<times> int \<Rightarrow> svc_op \<Rightarrow> bool" where
  "svc_ok env (sv, t) (SvIssue i now bytes) \<longleftrightarrow> host_ok env \<and> clocks t now now \<and>
     (case resolveExpiry env i now of Inl _ \<Rightarrow> True | Inr e \<Rightarrow> in_era e) \<and>
     (case ii_id i of None \<Rightarrow> True | Some x \<Rightarrow> trim x = x) \<and> (case ii_grantId i of None \<Rightarrow> True | Some x \<Rightarrow> trim x = x)"
| "svc_ok env (sv, t) (SvValidate now token v) \<longleftrightarrow> host_ok env \<and> clocks t now now"
| "svc_ok env (sv, t) (SvRevoke now now2 i r) \<longleftrightarrow> host_ok env \<and> clocks t now now2"
| "svc_ok env (sv, t) (SvRevokeGrant now now2 g r) \<longleftrightarrow> host_ok env \<and> clocks t now now2"
| "svc_ok env (sv, t) (SvRestart now) \<longleftrightarrow> host_ok env \<and> clocks t now now"

definition fresh_service :: cred_service where
  "fresh_service = \<lparr>sv_registry = empty_registry, sv_store = []\<rparr>"

lemma record_row:
  assumes "recordCredential store p h = Inr (store', d)"
  obtains w where "jm_get store (trim (cd_id p)) = None" "store' = jm_set store (trim (cd_id p)) w" "cw_id w = trim (cd_id p)"
    "cw_actor_type w = trim (act_type (cd_actor p))" "cw_audience w = trim (cd_audience p)" "cw_grant_id w = trimmed_or_null (cd_grantId p)"
    "cw_secret_hash w = trim h" "is_sha_digest (trim h)" "cw_capabilities w = Some (JArr (map JStr (cd_capabilities p)))"
    "cw_scope w = Some (credential_scope_json (cd_scope p))" "cw_issued_at w = trim (cd_issuedAt p)"
    "cw_expires_at w = trim (cd_expiresAt p)" "cw_revoked_at w = None"
  using assms
  by (auto simp: recordCredential_def requireNonEmpty_Some Let_def split: option.split_asm if_split_asm intro: that)

lemma issue_linked:
  assumes link: "linked env t sv" and ok: "svc_ok env (sv, t) (SvIssue i now bytes)"
  shows "linked env now (fst (issue_persisted env sv i now bytes))"
proof (cases "issueAt env (sv_registry sv) i now bytes")
  case (Inl e)
  then show ?thesis using link ok linked_later by (auto simp: issue_persisted_def clocks_def)
next
  case (Inr x)
  obtain reg token p where x: "x = (reg, token, p)" using prod_cases3 by blast
  from ok have host: "host_ok env" and now: "in_era now" "t \<le> now" by (simp_all add: clocks_def)
  from Inr x obtain c u where c: "adds (sv_registry sv) reg c" "p = publicCredential c" "token = scoped_token (cd_id c) (to_hex bytes)"
    "validateIssueAt env (sv_registry sv) i now False = Inr u" "cd_secretHash c = ce_sha env (to_hex bytes)" "cd_revokedAt c = None"
    "cd_actor c = (ii_actor i)\<lparr>act_label := truthy (act_label (ii_actor i))\<rparr>" "cd_audience c = ii_audience i"
    "cd_capabilities c = it_capabilities u" "cd_scope c = it_scope u" "cd_expiresAt c = ce_toIso env (it_expiresAt u)"
    "cd_grantId c = truthy (ii_grantId i)" "cd_issuedAt c = ce_toIso env now"
    "ii_id i = Some (cd_id c) \<or> ii_id i = None \<and> cd_id c = ce_uuid env (rg_draws (sv_registry sv))"
    by (auto elim: issue_adds)
  note at = adds_at [OF c(1)]
  have inv: "cred_inv reg" using adds_inv [OF c(1)] link by (simp add: linked_def)
  have new: "cred_at (sv_registry sv) (cd_id c) = None" using c(1) by (simp add: adds_def)
  have no_row: "jm_get (sv_store sv) (cd_id c) = None"
    using new linked_row [OF link] by (cases "jm_get (sv_store sv) (cd_id c)") force+
  have old: "cw_id w = j \<and> (\<exists>d. cred_at (sv_registry sv) j = Some d \<and> mirrors env d w \<and> (tells d w \<or> cred_expired env (publicCredential d) now))"
    if "jm_get (sv_store sv) j = Some w" for j w
    using linked_later [OF link now(2)] that unfolding linked_def by blast
  have rest: "jm_get (sv_store sv) j \<noteq> None \<or> dead env now d" if "cred_at (sv_registry sv) j = Some d" for j d
    using linked_later [OF link now(2)] that unfolding linked_def by blast
  show ?thesis
  proof (cases "recordIssued (ce_sha env) (sv_store sv) token p")
    case (Inl e)
    define reg' where "reg' = fst (cred_revoke env reg now (cd_id p) persistence_failed)"
    have sv': "fst (issue_persisted env sv i now bytes) = sv\<lparr>sv_registry := reg'\<rparr>"
      using Inr x Inl by (simp add: issue_persisted_def reg'_def)
    have at': "cred_at reg' j = (if j = cd_id c then Some (revoked_credential env now persistence_failed c) else cred_at (sv_registry sv) j)" for j
      unfolding reg'_def revoke_at c(2) public_fields at by simp
    show ?thesis unfolding sv'
    proof (rule linkedI)
      show "cred_inv (sv_registry (sv\<lparr>sv_registry := reg'\<rparr>))" using revoke_inv [OF inv] by (simp add: reg'_def)
    next
      fix j w assume "jm_get (sv_store (sv\<lparr>sv_registry := reg'\<rparr>)) j = Some w"
      then have w: "jm_get (sv_store sv) j = Some w" by simp
      then have "j \<noteq> cd_id c" using no_row by auto
      with old [OF w] show "cw_id w = j \<and> (\<exists>d. cred_at (sv_registry (sv\<lparr>sv_registry := reg'\<rparr>)) j = Some d \<and> mirrors env d w \<and>
          (tells d w \<or> cred_expired env (publicCredential d) now))" by (simp add: at')
    next
      fix j d assume "cred_at (sv_registry (sv\<lparr>sv_registry := reg'\<rparr>)) j = Some d" "jm_get (sv_store (sv\<lparr>sv_registry := reg'\<rparr>)) j = None"
      then show "dead env now d"
        using rest [of j d] era_date [OF host now(1)] by (auto simp: at' dead_def is_truthy_def truthy_def split: if_split_asm)
    qed (use link in \<open>simp add: linked_def\<close>)
  next
    case stored: (Inr y)
    obtain store d where y: "y = (store, d)" by force
    have sv': "fst (issue_persisted env sv i now bytes) = \<lparr>sv_registry = reg, sv_store = store\<rparr>"
      using Inr x stored y by (simp add: issue_persisted_def)
    from stored y obtain h where h: "scopedActorCredentialSecretHash (ce_sha env) token = Some h"
      "recordCredential (sv_store sv) p h = Inr (store, d)"
      by (auto simp: recordIssued_def split: option.split_asm)
    have hash: "h = cd_secretHash c"
    proof -
      obtain j secret where parsed: "parseScopedActorToken token = Some (j, secret)" "h = ce_sha env secret"
        using h(1) by (auto simp: scopedActorCredentialSecretHash_def)
      then have "parseScopedActorToken (scoped_token (cd_id c) (to_hex bytes)) = Some (j, secret)" using c(3) by simp
      then have "secret = to_hex bytes"
        by (simp add: parse_token_iff) (metis hex_of_token to_hex_dotless)
      with parsed(2) c(5) show ?thesis by simp
    qed
    have id: "trim (cd_id c) = cd_id c" using ok c(14) host by (auto simp: host_ok_def split: option.split_asm)
    have dig: "is_sha_digest (cd_secretHash c)" using host c(5) by (simp add: host_ok_def)
    note good = issue_terms_good [OF c(4)]
    have caps: "normalizeCredentialCapabilities (ii_capabilities i) = Inr (it_capabilities u)"
      "normalizeCredentialScope (ii_scope i) = Inr (it_scope u)"
      using c(4) by (auto simp: validateIssueAt_def split: if_split_asm sum.split_asm)
    have e: "in_era (it_expiresAt u)" using ok good(5) by simp
    obtain w where w: "store = jm_set (sv_store sv) (cd_id c) w" "cw_id w = cd_id c"
      "cw_actor_type w = trim (act_type (cd_actor c))" "cw_audience w = trim (cd_audience c)" "cw_grant_id w = trimmed_or_null (cd_grantId c)"
      "cw_secret_hash w = cd_secretHash c" "cw_capabilities w = Some (JArr (map JStr (cd_capabilities c)))"
      "cw_scope w = Some (credential_scope_json (cd_scope c))" "cw_issued_at w = trim (cd_issuedAt c)"
      "cw_expires_at w = trim (cd_expiresAt c)" "cw_revoked_at w = None"
      using record_row [OF h(2)] unfolding c(2) public_fields id hash digest_trimmed [OF dig] by metis
    have "mirrors env c w"
    proof -
      have types: "trim ty = ty" if "ty \<in> set actor_credential_types" for ty
        using that by (auto simp: actor_credential_types_def intro!: trim_fixed simp: is_ws_def)
      have auds: "trim a = a" if "a \<in> set actor_credential_audiences" for a
        using that by (auto simp: actor_credential_audiences_def intro!: trim_fixed simp: is_ws_def)
      have grant: "trimmed_or_null (cd_grantId c) = cd_grantId c" "cd_grantId c \<noteq> Some []"
        using ok c(12) by (auto simp: trimmed_or_null_def truthy_def split: option.split_asm option.split)
      show ?thesis
        unfolding mirrors_def w c(11,13)
        using good(1,2) c(7-10) types auds grant dig capabilities_stable [OF caps(1)] scope_stable [OF caps(2)] now e
          era_date [OF host now(1)] era_date [OF host e]
        by auto
    qed
    moreover have "tells c w" by (simp add: tells_def w c(6) is_truthy_def truthy_def)
    ultimately have cw: "mirrors env c w" "tells c w" .
    have get: "jm_get store j = (if j = cd_id c then Some w else jm_get (sv_store sv) j)" for j
      by (simp add: w(1) cred_map_set)
    show ?thesis unfolding sv'
    proof (rule linkedI)
      show "jm_wf (sv_store \<lparr>sv_registry = reg, sv_store = store\<rparr>)" using link by (simp add: linked_def w(1) jm_wf_set)
    next
      fix j v assume "jm_get (sv_store \<lparr>sv_registry = reg, sv_store = store\<rparr>) j = Some v"
      then show "cw_id v = j \<and> (\<exists>d. cred_at (sv_registry \<lparr>sv_registry = reg, sv_store = store\<rparr>) j = Some d \<and> mirrors env d v \<and>
          (tells d v \<or> cred_expired env (publicCredential d) now))"
        using old [of j v] cw w(2) by (auto simp: get at split: if_split_asm)
    next
      fix j d assume "cred_at (sv_registry \<lparr>sv_registry = reg, sv_store = store\<rparr>) j = Some d"
        "jm_get (sv_store \<lparr>sv_registry = reg, sv_store = store\<rparr>) j = None"
      then show "dead env now d" using rest [of j d] by (auto simp: get at split: if_split_asm)
    qed (use inv in simp)
  qed
qed

lemma linked_same_credentials:
  assumes "linked env t sv" and "rg_credentials (sv_registry sv') = rg_credentials (sv_registry sv)" and "sv_store sv' = sv_store sv"
  shows "linked env t sv'"
  using assms unfolding linked_def cred_inv_def by simp

lemma mirrors_revoked [simp]: "mirrors env (revoked_credential env now r c) w = mirrors env c w"
  by (simp add: mirrors_def)

lemma revoked_row_same [simp]:
  "cw_id (revoked_row at r w) = cw_id w" "cw_revoked_at (revoked_row at r w) \<noteq> None"
  by (simp_all add: revoked_row_def)

lemma mirrors_revoked_row: "host_ok env \<Longrightarrow> in_era t \<Longrightarrow> mirrors env c w \<Longrightarrow> mirrors env c (revoked_row (ce_toIso env t) r w)"
  by (auto simp: mirrors_def revoked_row_def)

lemma tells_revoked:
  "host_ok env \<Longrightarrow> in_era now \<Longrightarrow> cw_revoked_at w \<noteq> None \<Longrightarrow> tells (revoked_credential env now r c) w"
  using era_date [of env now] by (simp add: tells_def is_truthy_def truthy_def)

lemma revoke_linked:
  assumes link: "linked env t sv" and ok: "svc_ok env (sv, t) (SvRevoke now now2 i r)"
  shows "linked env now2 (fst (service_revoke env sv now now2 i r))"
proof -
  from ok have host: "host_ok env" and era: "in_era now" "in_era now2" "t \<le> now2" by (simp_all add: clocks_def)
  define at where "at = ce_toIso env now2"
  define reg where "reg = fst (cred_revoke env (sv_registry sv) now i r)"
  define store where "store = fst (revokeCredential (sv_store sv) at i r)"
  have sv': "fst (service_revoke env sv now now2 i r) = \<lparr>sv_registry = reg, sv_store = store\<rparr>"
    by (simp add: service_revoke_def reg_def store_def at_def split: prod.split)
  have get: "jm_get store j = (if j = i then map_option (revoked_row at r) (jm_get (sv_store sv) i) else jm_get (sv_store sv) j)" for j
    by (simp add: store_def revokeCredential_def cred_map_set split: option.split)
  have at': "cred_at reg j = (if j = i then map_option (revoked_credential env now r) (cred_at (sv_registry sv) i) else cred_at (sv_registry sv) j)" for j
    unfolding reg_def by (rule revoke_at)
  note later = linked_later [OF link era(3)]
  show ?thesis unfolding sv'
  proof (rule linkedI)
    show "jm_wf (sv_store \<lparr>sv_registry = reg, sv_store = store\<rparr>)"
      using link by (auto simp: linked_def store_def revokeCredential_def jm_wf_set split: option.split)
    show "cred_inv (sv_registry \<lparr>sv_registry = reg, sv_store = store\<rparr>)"
      using link revoke_inv by (simp add: linked_def reg_def)
  next
    fix j w assume "jm_get (sv_store \<lparr>sv_registry = reg, sv_store = store\<rparr>) j = Some w"
    then have w: "jm_get store j = Some w" by simp
    have "cw_id w = j \<and> (\<exists>c. cred_at reg j = Some c \<and> mirrors env c w \<and> (tells c w \<or> cred_expired env (publicCredential c) now2))"
    proof (cases "j = i")
      case True
      with w get obtain w0 where w0: "jm_get (sv_store sv) i = Some w0" "w = revoked_row at r w0" by auto
      from linked_row [OF later w0(1)] obtain c where c: "cw_id w0 = i" "cred_at (sv_registry sv) i = Some c" "mirrors env c w0" by metis
      then show ?thesis
        using True w0(2) mirrors_revoked_row [OF host era(2) c(3)] tells_revoked [OF host era(1) revoked_row_same(2)] by (simp add: at' at_def)
    next
      case False
      with w get have "jm_get (sv_store sv) j = Some w" by simp
      with False later show ?thesis unfolding linked_def by (simp add: at')
    qed
    then show "cw_id w = j \<and> (\<exists>c. cred_at (sv_registry \<lparr>sv_registry = reg, sv_store = store\<rparr>) j = Some c \<and> mirrors env c w \<and>
        (tells c w \<or> cred_expired env (publicCredential c) now2))" by simp
  next
    fix j d assume d: "cred_at (sv_registry \<lparr>sv_registry = reg, sv_store = store\<rparr>) j = Some d"
      and none: "jm_get (sv_store \<lparr>sv_registry = reg, sv_store = store\<rparr>) j = None"
    show "dead env now2 d"
    proof (cases "j = i")
      case True
      with d era_date [OF host era(1)] show ?thesis by (auto simp: at' dead_def is_truthy_def truthy_def)
    next
      case False
      with d none have "cred_at (sv_registry sv) j = Some d" "jm_get (sv_store sv) j = None" by (simp_all add: at' get)
      with later show ?thesis unfolding linked_def by blast
    qed
  qed
qed

lemma revoke_grant_linked:
  assumes link: "linked env t sv" and ok: "svc_ok env (sv, t) (SvRevokeGrant now now2 g r)"
  shows "linked env now2 (fst (service_revokeByGrantId env sv now now2 g r))"
proof -
  from ok have host: "host_ok env" and era: "in_era now" "in_era now2" "t \<le> now" "now \<le> now2" by (simp_all add: clocks_def)
  define at where "at = ce_toIso env now2"
  define live where "live = (\<lambda>w :: cred_row. cw_grant_id w = Some g \<and> cw_revoked_at w = None)"
  define reg where "reg = fst (cred_revokeByGrantId env (sv_registry sv) now g r)"
  define store where "store = fst (revokeCredentialsByGrantId (sv_store sv) at g r)"
  have sv': "fst (service_revokeByGrantId env sv now now2 g r) = \<lparr>sv_registry = reg, sv_store = store\<rparr>"
    by (simp add: service_revokeByGrantId_def reg_def store_def at_def split: prod.split)
  have store: "store = map (\<lambda>kw. (fst kw, if live (snd kw) then revoked_row at r (snd kw) else snd kw)) (sv_store sv)"
    by (simp add: store_def revokeCredentialsByGrantId_def live_def)
  have get: "jm_get store j = map_option (\<lambda>w. if live w then revoked_row at r w else w) (jm_get (sv_store sv) j)" for j
    using map_of_map [of "\<lambda>w. if live w then revoked_row at r w else w" "sv_store sv"] by (simp add: jm_get_def store case_prod_unfold)
  have inv: "cred_inv (sv_registry sv)" using link by (simp add: linked_def)
  have at': "cred_at reg j = map_option (grant_revoked env now g r) (cred_at (sv_registry sv) j)" and inv': "cred_inv reg" for j
    using revoke_grant_at [OF inv] by (simp_all add: reg_def)
  show ?thesis unfolding sv'
  proof (rule linkedI)
    show "jm_wf (sv_store \<lparr>sv_registry = reg, sv_store = store\<rparr>)"
      using link by (simp add: linked_def jm_wf_def store comp_def)
    show "cred_inv (sv_registry \<lparr>sv_registry = reg, sv_store = store\<rparr>)" by (simp add: inv')
  next
    fix j w assume "jm_get (sv_store \<lparr>sv_registry = reg, sv_store = store\<rparr>) j = Some w"
    then obtain w0 where w0: "jm_get (sv_store sv) j = Some w0" "w = (if live w0 then revoked_row at r w0 else w0)" by (auto simp: get)
    from linked_row [OF linked_later [OF link era(3)] w0(1)] obtain c where
      c: "cw_id w0 = j" "cred_at (sv_registry sv) j = Some c" "mirrors env c w0" "tells c w0 \<or> cred_expired env (publicCredential c) now" by metis
    define c' where "c' = grant_revoked env now g r c"
    have grant: "cd_grantId c = cw_grant_id w0" using c(3) by (simp add: mirrors_def)
    have "mirrors env c' w0" using c(3) by (simp add: c'_def grant_revoked_def)
    then have m: "mirrors env c' w" using mirrors_revoked_row [OF host era(2)] by (simp add: w0(2) at_def)
    have "tells c' w \<or> cred_expired env (publicCredential c') now2"
    proof (cases "grant_hit env now g c")
      case True
      then have "live w0"
        using c(4) grant by (auto simp: live_def grant_hit_def tells_def)
      with True tells_revoked [OF host era(1) revoked_row_same(2)] show ?thesis by (simp add: c'_def grant_revoked_def w0(2))
    next
      case False
      then have same: "c' = c" by (simp add: c'_def grant_revoked_def)
      show ?thesis
      proof (cases "live w0")
        case True
        with False grant have "is_truthy (cd_revokedAt c) \<or> cred_expired env (publicCredential c) now" by (auto simp: grant_hit_def live_def)
        with True show ?thesis using expired_later [OF _ era(4)] by (auto simp: same w0(2) tells_def)
      next
        case False
        with c(4) show ?thesis using expired_later [OF _ era(4)] by (auto simp: same w0(2))
      qed
    qed
    with m c w0(2) at' show "cw_id w = j \<and> (\<exists>c. cred_at (sv_registry \<lparr>sv_registry = reg, sv_store = store\<rparr>) j = Some c \<and> mirrors env c w \<and>
        (tells c w \<or> cred_expired env (publicCredential c) now2))" by (simp add: c'_def)
  next
    fix j d assume "cred_at (sv_registry \<lparr>sv_registry = reg, sv_store = store\<rparr>) j = Some d"
      "jm_get (sv_store \<lparr>sv_registry = reg, sv_store = store\<rparr>) j = None"
    then obtain c where c: "cred_at (sv_registry sv) j = Some c" "d = grant_revoked env now g r c" "jm_get (sv_store sv) j = None"
      by (auto simp: at' get)
    have "dead env now2 c" using linked_later [OF link order_trans [OF era(3,4)]] c(1,3) unfolding linked_def by blast
    then show "dead env now2 d"
      using c(2) era_date [OF host era(1)] by (auto simp: dead_def grant_revoked_def is_truthy_def truthy_def)
  qed
qed

lemma svc_step_linked: "linked env (snd s) (fst s) \<Longrightarrow> svc_ok env s op \<Longrightarrow> linked env (snd (svc_step env s op)) (fst (svc_step env s op))"
proof -
  assume l: "linked env (snd s) (fst s)" and ok: "svc_ok env s op"
  obtain sv t where s: "s = (sv, t)" by force
  show ?thesis
  proof (cases op)
    case (SvIssue i now bytes)
    with l ok issue_linked show ?thesis by (simp add: s)
  next
    case (SvValidate now token v)
    have "linked env now sv" using l ok linked_later by (auto simp: s SvValidate clocks_def)
    from linked_same_credentials [OF this, of "fst (svc_step env s op)"] show ?thesis by (simp add: s SvValidate)
  next
    case (SvRevoke now now2 i r)
    with l ok revoke_linked show ?thesis by (simp add: s)
  next
    case (SvRevokeGrant now now2 g r)
    with l ok revoke_grant_linked show ?thesis by (simp add: s)
  next
    case (SvRestart now)
    with l ok restart_store show ?thesis by (auto simp: s clocks_def)
  qed
qed

interpretation service_machine: state_machine "svc_step env" "svc_ok env" "\<lambda>s. linked env (snd s) (fst s)"
  by unfold_locales (rule svc_step_linked)

lemma fresh_linked: "linked env t fresh_service"
proof -
  have "cred_at empty_registry i = None" for i by (simp add: empty_registry_def jm_get_def)
  then show ?thesis by (intro linkedI) (simp_all add: fresh_service_def empty_inv jm_wf_def jm_get_def [of "[]"])
qed


section \<open>A concrete history\<close>

definition sample_host :: cred_env where
  "sample_host = sample_cred_env\<lparr>ce_sha := (\<lambda>s. replicate 64 CHR ''a'')\<rparr>"

lemma unary_less: "(replicate m x < replicate n x) \<longleftrightarrow> m < (n :: nat)" for x :: char
proof (induction m arbitrary: n)
  case 0
  then show ?case by (cases n) simp_all
next
  case (Suc m)
  then show ?case by (cases n) simp_all
qed

lemma sample_host_ok: "host_ok sample_host"
proof -
  have dates: "ce_toIso sample_host t = replicate (Suc (nat t)) CHR ''i''" if "0 \<le> t" for t
    using that by (simp add: sample_host_def sample_cred_env_def)
  have "trim (replicate (Suc n) CHR ''i'') = replicate (Suc n) CHR ''i''" for n
    by (rule trim_fixed) (simp add: is_ws_def)
  moreover have "ce_dp sample_host (replicate (Suc n) CHR ''i'') = Some (int n)" for n
    by (simp add: sample_host_def sample_cred_env_def)
  moreover have "is_sha_digest (ce_sha sample_host s)" for s
    by (simp add: sample_host_def is_sha_digest_def list_all_iff)
  moreover have "trim (ce_uuid sample_host n) = ce_uuid sample_host n" for n
    by (simp add: sample_host_def sample_cred_env_def) code_simp
  ultimately show ?thesis
    unfolding host_ok_def by (auto simp: in_era_def dates unary_less simp del: replicate_Suc)
qed

definition sample_history :: "svc_op list" where
  "sample_history = [SvIssue sample_issue 0 [1], SvValidate 1 (scoped_token ''a'' ''01'') sample_validate]"

lemma sample_history_ok: "all_ok (svc_step sample_host) (svc_ok sample_host) (fresh_service, 0) sample_history"
proof -
  have "resolveExpiry sample_host sample_issue 0 = Inr 10" by code_simp
  moreover have "trim ''a'' = ''a''" "trim ''g'' = ''g''" by code_simp+
  ultimately show ?thesis
    using sample_host_ok by (simp add: sample_history_def clocks_def in_era_def sample_issue_def)
qed

definition sample_credential :: credential where
  "sample_credential = \<lparr>cd_id = ''a'', cd_actor = \<lparr>act_type = ''cli'', act_id = ''x'', act_label = None\<rparr>,
     cd_issuer = \<lparr>iss_id = ''o'', iss_label = None\<rparr>, cd_grantId = Some ''g'', cd_audience = ''relay:cli-gateway:v1'',
     cd_capabilities = [''session:read''], cd_scope = no_scope\<lparr>sp_taskRefs := Some [''t'']\<rparr>, cd_metadata = None,
     cd_issuedAt = ''i'', cd_expiresAt = ''iiiiiiiiiii'', cd_revokedAt = None, cd_revokedBy = None, cd_revocationReason = None,
     cd_correlationId = ''u'', cd_secretHash = replicate 64 CHR ''a''\<rparr>"

lemma sample_host_issue:
  obtains reg where "issueAt sample_host empty_registry sample_issue 0 [1] = Inr (reg, scoped_token ''a'' ''01'', publicCredential sample_credential)"
    "cred_at reg ''a'' = Some sample_credential"
proof -
  have terms: "validateIssueAt sample_host empty_registry sample_issue 0 False =
      Inr \<lparr>it_capabilities = [''session:read''], it_scope = no_scope\<lparr>sp_taskRefs := Some [''t'']\<rparr>, it_metadata = None, it_expiresAt = 10\<rparr>"
    by code_simp
  have hex: "to_hex [1] = ''01''" by code_simp
  have iso: "ce_toIso sample_host 0 = ''i''" "ce_toIso sample_host 10 = ''iiiiiiiiiii''" "ce_uuid sample_host n = ''u''"
    "ce_sha sample_host x = replicate 64 CHR ''a''" for n x
    by (simp_all add: sample_host_def sample_cred_env_def numeral_eq_Suc)
  have free: "\<not> has_credential empty_registry ''a''" by (simp add: has_credential_def empty_registry_def jm_get_def)
  have fields: "ii_id sample_issue = Some ''a''" "ii_correlationId sample_issue = None" "ii_grantId sample_issue = Some ''g''"
    "ii_actor sample_issue = \<lparr>act_type = ''cli'', act_id = ''x'', act_label = None\<rparr>" "ii_issuer sample_issue = \<lparr>iss_id = ''o'', iss_label = None\<rparr>"
    "ii_audience sample_issue = ''relay:cli-gateway:v1''"
    by (simp_all add: sample_issue_def)
  have c: "\<lparr>cd_id = ''a'', cd_actor = \<lparr>act_type = ''cli'', act_id = ''x'', act_label = truthy None\<rparr>,
     cd_issuer = \<lparr>iss_id = ''o'', iss_label = truthy None\<rparr>, cd_grantId = truthy (Some ''g''), cd_audience = ''relay:cli-gateway:v1'',
     cd_capabilities = [''session:read''], cd_scope = no_scope\<lparr>sp_taskRefs := Some [''t'']\<rparr>, cd_metadata = None,
     cd_issuedAt = ''i'', cd_expiresAt = ''iiiiiiiiiii'', cd_revokedAt = None, cd_revokedBy = None, cd_revocationReason = None,
     cd_correlationId = ''u'', cd_secretHash = replicate 64 CHR ''a''\<rparr> = sample_credential"
    by (simp add: sample_credential_def truthy_def)
  have id: "cd_id sample_credential = ''a''" by (simp add: sample_credential_def)
  show thesis
    by (rule that, simp add: issueAt_def terms or_draw_def fields free iso hex c Let_def) (simp add: cred_at_put id)
qed

lemma sample_host_accepts:
  "snd (cred_validate sample_host (sv_registry (fst (run (svc_step sample_host) (fresh_service, 0) sample_history))) 7
     (scoped_token ''a'' ''01'') sample_validate) = CredOk (publicCredential sample_credential) [''session:read'']"
proof -
  obtain reg where reg: "issueAt sample_host empty_registry sample_issue 0 [1] = Inr (reg, scoped_token ''a'' ''01'', publicCredential sample_credential)"
    "cred_at reg ''a'' = Some sample_credential" by (rule sample_host_issue)
  have "\<not> isl (recordIssued (ce_sha sample_host) [] (scoped_token ''a'' ''01'') (publicCredential sample_credential))"
    by code_simp
  then obtain store d where rec: "recordIssued (ce_sha sample_host) [] (scoped_token ''a'' ''01'') (publicCredential sample_credential) = Inr (store, d)"
    by (cases "recordIssued (ce_sha sample_host) [] (scoped_token ''a'' ''01'') (publicCredential sample_credential)") auto
  have at: "cred_at (sv_registry (fst (run (svc_step sample_host) (fresh_service, 0) sample_history))) ''a'' = Some sample_credential"
    by (simp add: sample_history_def issue_persisted_def fresh_service_def reg rec)
  have "cred_accepts sample_host sample_credential 7 ''01'' sample_validate" by code_simp
  moreover have "parseScopedActorToken (scoped_token ''a'' ''01'') = Some (''a'', ''01'')" by code_simp
  ultimately show ?thesis using at by (auto simp: validate_ok_iff sample_validate_def)
qed


end
