(* ===== verification/Handshake_Grants.thy ===== *)
theory Handshake_Grants
  imports Actor_Credentials Audit_Ring
begin

text \<open>
  The registry of operator handshake grants (\<open>HandshakeGrantRegistry\<close> of \<open>shared/operator-handshake-grants.ts\<close>): one-time grants
  that are requested, approved or denied by an operator, validated and consumed by their holder, or revoked. An operation reads the
  clock once; the record of arguments is that of the credential registry. The helpers that this file shares word for word with
  \<open>shared/scoped-actor-credentials.ts\<close> (string lists, scopes, metadata, redaction) are the definitions made there.
\<close>

section \<open>Data\<close>

definition grant_token_prefix :: string where "grant_token_prefix = ''relay-ohg-v1''"

definition grant_audiences :: "string list" where
  "grant_audiences = [''relay:operator-handshake:v1'', ''relay:cli-gateway:v1'', ''relay:operator-client:v1'', ''relay:node-pair-token:v1'',
     ''relay:registry-test'']"

definition grant_actor_types :: "string list" where
  "grant_actor_types = [''agent'', ''cli'', ''automation-system'']"

definition default_grant_ttl_ms :: int where "default_grant_ttl_ms = 10 * 60 * 1000"

definition default_grant_max_ttl_ms :: int where "default_grant_max_ttl_ms = 30 * 60 * 1000"

datatype grant_status = GsRequested | GsApproved | GsDenied | GsRevoked | GsExpired | GsConsumed

fun grant_status_name :: "grant_status \<Rightarrow> string" where
  "grant_status_name GsRequested = ''requested''"
| "grant_status_name GsApproved = ''approved''"
| "grant_status_name GsDenied = ''denied''"
| "grant_status_name GsRevoked = ''revoked''"
| "grant_status_name GsExpired = ''expired''"
| "grant_status_name GsConsumed = ''consumed''"

datatype grant_failure =
    GfMalformed | GfLaneMixing | GfUnknownAudience | GfWrongAudience | GfNotApproved | GfExpired | GfRevoked | GfReplayed
  | GfActorMismatch | GfDeviceMismatch | GfSessionMismatch | GfMissingScope | GfWrongNode | GfWrongSession | GfWrongGlobalSession
  | GfWrongWorkContext | GfWrongChannel | GfWrongRepo | GfWrongPath | GfWrongTask | GfUnknownCapability | GfInsufficientCapability

fun grant_failure_name :: "grant_failure \<Rightarrow> string" where
  "grant_failure_name GfMalformed = ''malformed_grant''"
| "grant_failure_name GfLaneMixing = ''lane_mixing''"
| "grant_failure_name GfUnknownAudience = ''unknown_audience''"
| "grant_failure_name GfWrongAudience = ''wrong_audience''"
| "grant_failure_name GfNotApproved = ''not_approved''"
| "grant_failure_name GfExpired = ''expired''"
| "grant_failure_name GfRevoked = ''revoked''"
| "grant_failure_name GfReplayed = ''replayed''"
| "grant_failure_name GfActorMismatch = ''actor_mismatch''"
| "grant_failure_name GfDeviceMismatch = ''device_mismatch''"
| "grant_failure_name GfSessionMismatch = ''session_mismatch''"
| "grant_failure_name GfMissingScope = ''missing_scope''"
| "grant_failure_name GfWrongNode = ''wrong_node_scope''"
| "grant_failure_name GfWrongSession = ''wrong_session_scope''"
| "grant_failure_name GfWrongGlobalSession = ''wrong_global_session_scope''"
| "grant_failure_name GfWrongWorkContext = ''wrong_work_context_scope''"
| "grant_failure_name GfWrongChannel = ''wrong_channel_scope''"
| "grant_failure_name GfWrongRepo = ''wrong_repo_scope''"
| "grant_failure_name GfWrongPath = ''wrong_path_scope''"
| "grant_failure_name GfWrongTask = ''wrong_task_scope''"
| "grant_failure_name GfUnknownCapability = ''unknown_capability''"
| "grant_failure_name GfInsufficientCapability = ''insufficient_capability''"

definition handshakeGrantReasonCode :: "grant_failure \<Rightarrow> string" where
  "handshakeGrantReasonCode f = ''HANDSHAKE_GRANT_'' @ map upper_char (grant_failure_name f)"

datatype grant_error =
    GeUnsupportedActorType | GeUnknownAudience | GeUnknownCapability | GeScopeRequired | GeExpiryRequired | GeExpiryExceedsMaxTtl
  | GeDuplicateGrantId | GeHighRiskApprovalRequired | GeGrantNotFound | GeGrantNotPending

record grant_party =
  gp_idHash :: string
  gp_displayName :: "string option"

record session_binding =
  sb_sessionId :: "string option"
  sb_globalSessionId :: "string option"
  sb_workContextId :: "string option"
  sb_authSessionHash :: "string option"

text \<open>The id serves as \<open>jti\<close>, too. The public record leaves out the reasons and the hash of the handle.\<close>

record public_grant =
  hg_id :: string
  hg_status :: grant_status
  hg_actor :: cred_actor
  hg_issuer :: grant_party
  hg_audience :: string
  hg_capabilities :: "string list"
  hg_scope :: cred_scope
  hg_device :: "grant_party option"
  hg_binding :: "session_binding option"
  hg_metadata :: "cred_metadata option"
  hg_createdAt :: string
  hg_expiresAt :: string
  hg_approvedAt :: "string option"
  hg_approvedByHash :: "string option"
  hg_deniedAt :: "string option"
  hg_deniedByHash :: "string option"
  hg_revokedAt :: "string option"
  hg_revokedByHash :: "string option"
  hg_consumedAt :: "string option"
  hg_consumedBy :: "string option"
  hg_highRiskApproval :: json
  hg_correlationId :: string

record handshake_grant = public_grant +
  hg_deniedReason :: "string option"
  hg_revocationReason :: "string option"
  hg_handleHash :: "string option"

abbreviation publicGrant :: "handshake_grant \<Rightarrow> public_grant" where
  "publicGrant g \<equiv> public_grant.truncate g"

record device_input =
  dv_id :: string
  dv_displayName :: "string option"

record grant_request =
  gr_id :: "string option"
  gr_actor :: cred_actor
  gr_issuer :: cred_issuer
  gr_audience :: string
  gr_capabilities :: "string list"
  gr_scope :: json
  gr_device :: "device_input option"
  gr_binding :: "session_binding option"
  gr_metadata :: json
  gr_expiresAt :: "date_arg option"
  gr_ttlMs :: "int option"
  gr_correlationId :: "string option"

record grant_event =
  gv_action :: string
  gv_decision :: string
  gv_reasonCode :: string
  gv_grantId :: "string option"
  gv_actor :: "cred_actor option"
  gv_issuer :: "grant_party option"
  gv_audience :: "string option"
  gv_scopeHash :: string
  gv_paramsHash :: string
  gv_requiredBits :: "string list"
  gv_grantedBits :: "string list"
  gv_deniedBits :: "string list"
  gv_correlationId :: string
  gv_repeatedCount :: "nat option"

record grant_registry =
  hr_grants :: "(string, handshake_grant) jsmap"
  hr_ring :: "grant_event audit_ring"
  hr_draws :: nat

definition empty_grants :: grant_registry where
  "empty_grants = \<lparr>hr_grants = [], hr_ring = empty_ring, hr_draws = 0\<rparr>"

section \<open>Audit\<close>

definition same_grant_event :: "grant_event \<Rightarrow> grant_event \<Rightarrow> bool" where
  "same_grant_event p c \<longleftrightarrow>
     gv_action p = gv_action c \<and> gv_decision p = gv_decision c \<and> gv_reasonCode p = gv_reasonCode c \<and>
     gv_grantId p = gv_grantId c \<and> gv_audience p = gv_audience c \<and>
     map_option act_type (gv_actor p) = map_option act_type (gv_actor c) \<and>
     map_option act_id (gv_actor p) = map_option act_id (gv_actor c) \<and>
     Option.bind (gv_actor p) act_label = Option.bind (gv_actor c) act_label \<and>
     map_option gp_idHash (gv_issuer p) = map_option gp_idHash (gv_issuer c) \<and>
     Option.bind (gv_issuer p) gp_displayName = Option.bind (gv_issuer c) gp_displayName \<and>
     gv_scopeHash p = gv_scopeHash c \<and> gv_paramsHash p = gv_paramsHash c \<and> gv_requiredBits p = gv_requiredBits c \<and>
     gv_grantedBits p = gv_grantedBits c \<and> gv_deniedBits p = gv_deniedBits c"

definition count_grant_event :: "grant_event \<Rightarrow> grant_event" where
  "count_grant_event e = e\<lparr>gv_repeatedCount := Some ((case gv_repeatedCount e of None \<Rightarrow> 1 | Some n \<Rightarrow> n) + 1)\<rparr>"

text \<open>The correlation id is drawn only for an event that is kept.\<close>

definition appendGrantEvent :: "cred_env \<Rightarrow> grant_registry \<Rightarrow> grant_event \<Rightarrow> string option \<Rightarrow> grant_registry" where
  "appendGrantEvent env st draft correlationId =
     (if ring_folds (ce_maxAudit env) same_grant_event (hr_ring st) draft (correlationId \<noteq> None)
      then st\<lparr>hr_ring := ring_push (ce_maxAudit env) same_grant_event count_grant_event (hr_ring st) draft False\<rparr>
      else (let event = draft\<lparr>gv_correlationId := or_value correlationId (ce_uuid env (hr_draws st))\<rparr> in
        st\<lparr>hr_ring := ring_push (ce_maxAudit env) same_grant_event count_grant_event (hr_ring st) event (correlationId \<noteq> None),
          hr_draws := (if correlationId = None then hr_draws st + 1 else hr_draws st)\<rparr>))"

definition party_json :: "grant_party \<Rightarrow> json" where
  "party_json p = js_obj [(''idHash'', JStr (gp_idHash p)), (''displayName'', str_or_undef (gp_displayName p))]"

definition binding_json :: "session_binding \<Rightarrow> json" where
  "binding_json b = js_obj [(''sessionId'', str_or_undef (sb_sessionId b)), (''globalSessionId'', str_or_undef (sb_globalSessionId b)),
     (''workContextId'', str_or_undef (sb_workContextId b)), (''authSessionHash'', str_or_undef (sb_authSessionHash b))]"

definition redactHandshakeGrantForAudit :: "(string \<Rightarrow> string) \<Rightarrow> public_grant \<Rightarrow> json" where
  "redactHandshakeGrantForAudit sha g = js_obj
     [(''id'', JStr (hg_id g)), (''jti'', JStr (hg_id g)), (''status'', JStr (grant_status_name (hg_status g))),
      (''actor'', js_obj [(''type'', JStr (act_type (hg_actor g))), (''displayName'', str_or_undef (act_label (hg_actor g))),
        (''idHash'', JStr (sha (act_id (hg_actor g))))]),
      (''issuer'', party_json (hg_issuer g)), (''audience'', JStr (hg_audience g)), (''capabilities'', JArr (map JStr (hg_capabilities g))),
      (''scope'', credential_scope_json (hg_scope g)), (''device'', case hg_device g of None \<Rightarrow> JUndef | Some d \<Rightarrow> party_json d),
      (''sessionBinding'', case hg_binding g of None \<Rightarrow> JUndef | Some b \<Rightarrow> binding_json b),
      (''metadata'', case hg_metadata g of None \<Rightarrow> JUndef | Some m \<Rightarrow> metadata_json m),
      (''createdAt'', JStr (hg_createdAt g)), (''expiresAt'', JStr (hg_expiresAt g)),
      (''approvedAt'', str_or_undef (hg_approvedAt g)), (''approvedByHash'', str_or_undef (hg_approvedByHash g)),
      (''deniedAt'', str_or_undef (hg_deniedAt g)), (''deniedByHash'', str_or_undef (hg_deniedByHash g)),
      (''revokedAt'', str_or_undef (hg_revokedAt g)), (''revokedByHash'', str_or_undef (hg_revokedByHash g)),
      (''consumedAt'', str_or_undef (hg_consumedAt g)), (''consumedBy'', str_or_undef (hg_consumedBy g)),
      (''highRiskApproval'', hg_highRiskApproval g), (''correlationId'', JStr (hg_correlationId g))]"

definition or_null :: "('a \<Rightarrow> json) \<Rightarrow> 'a option \<Rightarrow> json" where
  "or_null f a = (case a of None \<Rightarrow> JNull | Some x \<Rightarrow> f x)"

record grant_note =
  gn_action :: string
  gn_decision :: string
  gn_reasonCode :: string
  gn_grant :: "handshake_grant option"
  gn_required :: "string list"
  gn_granted :: "string list"
  gn_denied :: "string list"
  gn_correlationId :: "string option"
  gn_scope :: json
  gn_params :: json

definition recordGrantAudit :: "cred_env \<Rightarrow> grant_registry \<Rightarrow> grant_note \<Rightarrow> grant_registry" where
  "recordGrantAudit env st n =
     (let g = gn_grant n;
          material_scope = redactAuditValue (js_nullish (js_nullish (gn_scope n)
            (case g of None \<Rightarrow> JUndef | Some x \<Rightarrow> credential_scope_json (hg_scope x))) JNull);
          material_params = redactAuditValue (js_nullish (gn_params n) JNull)
      in appendGrantEvent env st
        \<lparr>gv_action = gn_action n, gv_decision = gn_decision n, gv_reasonCode = gn_reasonCode n,
         gv_grantId = map_option hg_id g, gv_actor = map_option hg_actor g, gv_issuer = map_option hg_issuer g,
         gv_audience = map_option hg_audience g, gv_scopeHash = hashAuditMaterial (ce_numstr env) (ce_sha env) material_scope,
         gv_paramsHash = hashAuditMaterial (ce_numstr env) (ce_sha env) material_params, gv_requiredBits = gn_required n,
         gv_grantedBits = gn_granted n, gv_deniedBits = gn_denied n, gv_correlationId = [], gv_repeatedCount = None\<rparr>
        (gn_correlationId n))"

definition grant_scope_material :: "handshake_grant \<Rightarrow> json" where
  "grant_scope_material g = JObj [(''grantScope'', credential_scope_json (hg_scope g)), (''device'', or_null party_json (hg_device g)),
     (''sessionBinding'', or_null binding_json (hg_binding g))]"

definition grant_params_material :: "cred_env \<Rightarrow> string \<Rightarrow> handshake_grant \<Rightarrow> json" where
  "grant_params_material env operation g = JObj [(''operation'', JStr operation),
     (''grant'', redactHandshakeGrantForAudit (ce_sha env) (publicGrant g))]"

text \<open>The note of a step in the life of a grant.\<close>

definition grant_note_of ::
  "cred_env \<Rightarrow> string \<Rightarrow> string \<Rightarrow> string \<Rightarrow> string \<Rightarrow> handshake_grant \<Rightarrow> string option \<Rightarrow> grant_note" where
  "grant_note_of env action decision reasonCode operation g correlationId =
     \<lparr>gn_action = action, gn_decision = decision, gn_reasonCode = reasonCode, gn_grant = Some g, gn_required = [], gn_granted = [],
      gn_denied = [], gn_correlationId = truthy correlationId, gn_scope = grant_scope_material g,
      gn_params = grant_params_material env operation g\<rparr>"

definition put_grant :: "grant_registry \<Rightarrow> handshake_grant \<Rightarrow> grant_registry" where
  "put_grant st g = st\<lparr>hr_grants := jm_set (hr_grants st) (hg_id g) g\<rparr>"

section \<open>Requests\<close>

definition normalizeGrantCapabilities :: "string list \<Rightarrow> grant_error + string list" where
  "normalizeGrantCapabilities cs = (case normalizeCredentialCapabilities cs of Inl _ \<Rightarrow> Inl GeUnknownCapability | Inr r \<Rightarrow> Inr r)"

definition normalizeGrantScope :: "json \<Rightarrow> grant_error + cred_scope" where
  "normalizeGrantScope v = (case normalizeCredentialScope v of Inl _ \<Rightarrow> Inl GeScopeRequired | Inr s \<Rightarrow> Inr s)"

definition resolveGrantExpiry :: "cred_env \<Rightarrow> grant_request \<Rightarrow> int \<Rightarrow> grant_error + int" where
  "resolveGrantExpiry env i createdAt =
     (if date_given (gr_expiresAt i) = None \<and> gr_ttlMs i = None then Inr (createdAt + default_grant_ttl_ms)
      else case (case date_given (gr_expiresAt i) of Some d \<Rightarrow> date_ms (ce_dp env) d
          | None \<Rightarrow> date_of_ms (createdAt + (case gr_ttlMs i of None \<Rightarrow> 0 | Some t \<Rightarrow> t))) of
        None \<Rightarrow> Inl GeExpiryRequired
      | Some expiresAt \<Rightarrow> if expiresAt - createdAt > ce_maxTtl env then Inl GeExpiryExceedsMaxTtl else Inr expiresAt)"

definition copySessionBinding :: "session_binding \<Rightarrow> session_binding" where
  "copySessionBinding b = \<lparr>sb_sessionId = truthy (sb_sessionId b), sb_globalSessionId = truthy (sb_globalSessionId b),
     sb_workContextId = truthy (sb_workContextId b), sb_authSessionHash = truthy (sb_authSessionHash b)\<rparr>"

definition draw_grant_id :: "cred_env \<Rightarrow> string option \<Rightarrow> grant_registry \<Rightarrow> string \<times> grant_registry" where
  "draw_grant_id env a st = (case a of Some s \<Rightarrow> (s, st) | None \<Rightarrow> (ce_uuid env (hr_draws st), st\<lparr>hr_draws := hr_draws st + 1\<rparr>))"

definition requested_grant ::
  "cred_env \<Rightarrow> int \<Rightarrow> grant_request \<Rightarrow> string \<Rightarrow> string list \<Rightarrow> cred_scope \<Rightarrow> int \<Rightarrow> string \<Rightarrow> handshake_grant" where
  "requested_grant env now i new_id caps scope expiresAt correlation =
     \<lparr>hg_id = new_id, hg_status = GsRequested, hg_actor = (gr_actor i)\<lparr>act_label := truthy (act_label (gr_actor i))\<rparr>,
      hg_issuer = \<lparr>gp_idHash = ce_sha env (iss_id (gr_issuer i)), gp_displayName = truthy (iss_label (gr_issuer i))\<rparr>,
      hg_audience = gr_audience i, hg_capabilities = caps, hg_scope = scope,
      hg_device = map_option (\<lambda>d. \<lparr>gp_idHash = ce_sha env (dv_id d), gp_displayName = truthy (dv_displayName d)\<rparr>) (gr_device i),
      hg_binding = map_option copySessionBinding (gr_binding i), hg_metadata = normalizeCredentialMetadata (gr_metadata i),
      hg_createdAt = ce_toIso env now, hg_expiresAt = ce_toIso env expiresAt, hg_approvedAt = None, hg_approvedByHash = None,
      hg_deniedAt = None, hg_deniedByHash = None, hg_revokedAt = None, hg_revokedByHash = None, hg_consumedAt = None,
      hg_consumedBy = None, hg_highRiskApproval = JUndef, hg_correlationId = correlation, hg_deniedReason = None,
      hg_revocationReason = None, hg_handleHash = None\<rparr>"

definition grant_request_op ::
  "cred_env \<Rightarrow> grant_registry \<Rightarrow> int \<Rightarrow> grant_request \<Rightarrow> grant_error + (grant_registry \<times> public_grant)" where
  "grant_request_op env st now i =
     (if act_type (gr_actor i) \<notin> set grant_actor_types then Inl GeUnsupportedActorType
      else if gr_audience i \<notin> set grant_audiences then Inl GeUnknownAudience
      else case normalizeGrantCapabilities (gr_capabilities i) of Inl e \<Rightarrow> Inl e
      | Inr caps \<Rightarrow> case normalizeGrantScope (gr_scope i) of Inl e \<Rightarrow> Inl e
      | Inr scope \<Rightarrow> case resolveGrantExpiry env i now of Inl e \<Rightarrow> Inl e
      | Inr expiresAt \<Rightarrow> case draw_grant_id env (gr_id i) st of (new_id, st1) \<Rightarrow>
          if jm_get (hr_grants st1) new_id \<noteq> None then Inl GeDuplicateGrantId
          else case draw_grant_id env (gr_correlationId i) st1 of (correlation, st2) \<Rightarrow>
            let g = requested_grant env now i new_id caps scope expiresAt correlation
            in Inr (recordGrantAudit env (put_grant st2 g)
                 ((grant_note_of env ''request'' ''requires_confirmation'' ''HANDSHAKE_GRANT_REQUESTED'' ''request'' g (gr_correlationId i))
                    \<lparr>gn_required := caps\<rparr>), publicGrant g))"

section \<open>Decisions\<close>

definition requiresHighRiskApproval :: "handshake_grant \<Rightarrow> bool" where
  "requiresHighRiskApproval g \<longleftrightarrow> list_ex (\<lambda>c. c \<in> set high_risk_capabilities) (hg_capabilities g)"

definition evidence_text :: "json \<Rightarrow> bool" where
  "evidence_text v \<longleftrightarrow> str_sat (\<lambda>s. trim s \<noteq> []) v"

definition normalizeHighRiskApprovalEvidence :: "json \<Rightarrow> json option" where
  "normalizeHighRiskApprovalEvidence v =
     (if \<not> is_record v \<or> \<not> evidence_text (fld v ''challengeId'') \<or> \<not> evidence_text (fld v ''contractHash'') \<or>
         \<not> evidence_text (fld v ''approvedAt'') then None
      else Some (JObj [(''challengeId'', fld v ''challengeId''), (''contractHash'', fld v ''contractHash''), (''approvedAt'', fld v ''approvedAt'')]))"

record approve_input =
  ap_approvedBy :: cred_issuer
  ap_highRiskApproval :: json
  ap_correlationId :: "string option"

record decision_input =
  di_by :: cred_issuer
  di_reason :: "string option"
  di_correlationId :: "string option"

definition describeGrantScope :: "cred_scope \<Rightarrow> string" where
  "describeGrantScope s = join_with ''; '' (map (\<lambda>(k, vs). k @ ''='' @ join_with '','' (list_of vs))
     (filter (\<lambda>(k, vs). vs \<noteq> None)
       [(''nodeIds'', sp_nodeIds s), (''sessionIds'', sp_sessionIds s), (''globalSessionIds'', sp_globalSessionIds s),
        (''workContextIds'', sp_workContextIds s), (''channelIds'', sp_channelIds s), (''repoIds'', sp_repoIds s),
        (''pathPrefixes'', sp_pathPrefixes s), (''taskRefs'', sp_taskRefs s)]))"

definition describeSessionBinding :: "session_binding option \<Rightarrow> string" where
  "describeSessionBinding b = (case b of None \<Rightarrow> ''no session binding''
     | Some x \<Rightarrow> join_with ''; '' (map (\<lambda>(k, v). k @ ''='' @ or_value v [])
         (filter (\<lambda>(k, v). v \<noteq> None) [(''sessionId'', sb_sessionId x), (''globalSessionId'', sb_globalSessionId x),
           (''workContextId'', sb_workContextId x), (''authSessionHash'', sb_authSessionHash x)])))"

record approval_copy =
  cp_title :: string
  cp_summary :: string
  cp_details :: "string list"
  cp_revokePath :: string

definition operatorHandshakeGrantApprovalCopy :: "public_grant \<Rightarrow> approval_copy" where
  "operatorHandshakeGrantApprovalCopy g =
     (let actor = act_type (hg_actor g) @ '':'' @ act_id (hg_actor g); path = ''/operator/handshake-grants/'' @ hg_id g in
      \<lparr>cp_title = ''Approve one-time Relay handshake grant for '' @ or_value (act_label (hg_actor g)) (act_id (hg_actor g)),
       cp_summary = ''Delegates '' @ join_with '', '' (hg_capabilities g) @ '' to '' @ actor @ '' for audience '' @ hg_audience g @
         '' until '' @ hg_expiresAt g @
         ''. This is a one-time handshake grant, not a browser login, pair token, node credential, or reusable scoped actor token.'',
       cp_details = [''Actor: '' @ actor, ''Audience: '' @ hg_audience g, ''TTL/expires: '' @ hg_expiresAt g,
         ''Scope: '' @ describeGrantScope (hg_scope g),
         ''Device: '' @ or_value (Option.bind (hg_device g) gp_displayName) ''no device binding'',
         ''Session binding: '' @ describeSessionBinding (hg_binding g), ''Revoke: DELETE '' @ path],
       cp_revokePath = path\<rparr>)"

definition grant_handle :: "string \<Rightarrow> string \<Rightarrow> string" where
  "grant_handle i secret = grant_token_prefix @ ''.'' @ i @ ''.'' @ secret"

text \<open>A high-risk grant without evidence is denied for good, and the call throws.\<close>

definition grant_approve ::
  "cred_env \<Rightarrow> grant_registry \<Rightarrow> int \<Rightarrow> string \<Rightarrow> approve_input \<Rightarrow> 8 word list \<Rightarrow>
   grant_registry \<times> (grant_error + (string \<times> public_grant \<times> approval_copy))" where
  "grant_approve env st now grantId i bytes =
     (case jm_get (hr_grants st) grantId of None \<Rightarrow> (st, Inl GeGrantNotFound)
      | Some g \<Rightarrow>
        if hg_status g \<noteq> GsRequested then (st, Inl GeGrantNotPending)
        else if requiresHighRiskApproval g \<and> normalizeHighRiskApprovalEvidence (ap_highRiskApproval i) = None then
          (let g1 = g\<lparr>hg_status := GsDenied, hg_deniedAt := Some (ce_toIso env now),
                 hg_deniedByHash := Some (ce_sha env (iss_id (ap_approvedBy i))),
                 hg_deniedReason := Some ''high-risk capabilities require approval contract evidence''\<rparr>
           in (recordGrantAudit env (put_grant st g1)
                 ((grant_note_of env ''deny'' ''deny'' ''HANDSHAKE_GRANT_HIGH_RISK_APPROVAL_REQUIRED'' ''approve-denied'' g1 (ap_correlationId i))
                   \<lparr>gn_denied := filter (\<lambda>c. c \<in> set high_risk_capabilities) (hg_capabilities g1)\<rparr>),
               Inl GeHighRiskApprovalRequired))
        else
          (let secret = to_hex bytes;
               g1 = g\<lparr>hg_handleHash := Some (ce_sha env secret), hg_status := GsApproved, hg_approvedAt := Some (ce_toIso env now),
                 hg_approvedByHash := Some (ce_sha env (iss_id (ap_approvedBy i))),
                 hg_highRiskApproval := (if js_truthy (ap_highRiskApproval i) then ap_highRiskApproval i else hg_highRiskApproval g)\<rparr>;
               st1 = recordGrantAudit env (put_grant st g1)
                 ((grant_note_of env ''approve'' ''approved'' ''HANDSHAKE_GRANT_APPROVED'' ''approve'' g1 (ap_correlationId i))
                   \<lparr>gn_granted := hg_capabilities g1\<rparr>);
               st2 = recordGrantAudit env st1
                 ((grant_note_of env ''issue'' ''allow'' ''HANDSHAKE_GRANT_ISSUED'' ''issue'' g1 (ap_correlationId i))
                   \<lparr>gn_granted := hg_capabilities g1\<rparr>)
           in (st2, Inr (grant_handle (hg_id g1) secret, publicGrant g1, operatorHandshakeGrantApprovalCopy (publicGrant g1)))))"

definition grant_deny ::
  "cred_env \<Rightarrow> grant_registry \<Rightarrow> int \<Rightarrow> string \<Rightarrow> decision_input \<Rightarrow> grant_registry \<times> public_grant option" where
  "grant_deny env st now grantId i =
     (case jm_get (hr_grants st) grantId of None \<Rightarrow> (st, None)
      | Some g \<Rightarrow>
        if hg_status g \<noteq> GsRequested then (st, Some (publicGrant g))
        else
          let g1 = g\<lparr>hg_status := GsDenied, hg_deniedAt := Some (ce_toIso env now), hg_deniedByHash := Some (ce_sha env (iss_id (di_by i))),
                hg_deniedReason := (case Option.bind (truthy (di_reason i)) (\<lambda>s. redactString (JStr s)) of Some x \<Rightarrow> Some x
                  | None \<Rightarrow> hg_deniedReason g)\<rparr>
          in (recordGrantAudit env (put_grant st g1)
                ((grant_note_of env ''deny'' ''deny'' ''HANDSHAKE_GRANT_DENIED'' ''deny'' g1 (di_correlationId i))
                  \<lparr>gn_denied := hg_capabilities g1\<rparr>), Some (publicGrant g1)))"

definition grant_revoke ::
  "cred_env \<Rightarrow> grant_registry \<Rightarrow> int \<Rightarrow> string \<Rightarrow> decision_input \<Rightarrow> grant_registry \<times> public_grant option" where
  "grant_revoke env st now grantId i =
     (case jm_get (hr_grants st) grantId of None \<Rightarrow> (st, None)
      | Some g \<Rightarrow>
          let g1 = g\<lparr>hg_status := GsRevoked, hg_revokedAt := Some (ce_toIso env now), hg_revokedByHash := Some (ce_sha env (iss_id (di_by i))),
                hg_revocationReason := (case Option.bind (truthy (di_reason i)) (\<lambda>s. redactString (JStr s)) of Some x \<Rightarrow> Some x
                  | None \<Rightarrow> hg_revocationReason g)\<rparr>
          in (recordGrantAudit env (put_grant st g1)
                ((grant_note_of env ''revoke'' ''revoked'' ''HANDSHAKE_GRANT_REVOKED'' ''revoke'' g1 (di_correlationId i))
                  \<lparr>gn_denied := hg_capabilities g1\<rparr>), Some (publicGrant g1)))"

section \<open>Validation\<close>

record grant_rule =
  ru_values :: "string list option"
  ru_requested :: "string option"
  ru_requestedValues :: "string list option"
  ru_wrong :: grant_failure
  ru_matches :: "string list \<Rightarrow> string \<Rightarrow> bool"

definition grant_rule_of :: "string list option \<Rightarrow> string option \<Rightarrow> grant_failure \<Rightarrow> grant_rule" where
  "grant_rule_of vs r wrong = \<lparr>ru_values = vs, ru_requested = truthy r, ru_requestedValues = None, ru_wrong = wrong,
     ru_matches = listIncludesRequestedValue\<rparr>"

definition pathMatchesGrantPrefix :: "string \<Rightarrow> string \<Rightarrow> bool" where
  "pathMatchesGrantPrefix path prefix \<longleftrightarrow>
     path = prefix \<or> starts_with path (if ends_with prefix ''/'' then prefix else prefix @ ''/'')"

definition grant_rules :: "cred_scope \<Rightarrow> scope_request \<Rightarrow> grant_rule list" where
  "grant_rules s q =
     [grant_rule_of (sp_nodeIds s) (rq_nodeId q) GfWrongNode, grant_rule_of (sp_sessionIds s) (rq_sessionId q) GfWrongSession,
      grant_rule_of (sp_globalSessionIds s) (rq_globalSessionId q) GfWrongGlobalSession,
      grant_rule_of (sp_workContextIds s) (rq_workContextId q) GfWrongWorkContext,
      (grant_rule_of (sp_channelIds s) (rq_channelId q) GfWrongChannel)\<lparr>ru_requestedValues := rq_channelIds q\<rparr>,
      grant_rule_of (sp_repoIds s) (rq_repoId q) GfWrongRepo,
      (grant_rule_of (sp_pathPrefixes s) (rq_path q) GfWrongPath)\<lparr>ru_matches := (\<lambda>ps p. list_ex (pathMatchesGrantPrefix p) ps)\<rparr>,
      grant_rule_of (sp_taskRefs s) (rq_taskRef q) GfWrongTask]"

definition rule_asked :: "grant_rule \<Rightarrow> bool" where
  "rule_asked r \<longleftrightarrow> ru_requested r \<noteq> None \<or> some_list (ru_requestedValues r)"

fun check_grant_rules :: "grant_rule list \<Rightarrow> grant_failure option" where
  "check_grant_rules [] = None"
| "check_grant_rules (r # rs) =
     (case ru_values r of None \<Rightarrow> check_grant_rules rs
      | Some vs \<Rightarrow>
        if \<not> rule_asked r then check_grant_rules rs
        else if list_ex (\<lambda>v. v \<notin> set vs) (list_of (ru_requestedValues r)) then Some (ru_wrong r)
        else (case ru_requested r of None \<Rightarrow> check_grant_rules rs
          | Some x \<Rightarrow> if \<not> ru_matches r vs x then Some (ru_wrong r) else check_grant_rules rs))"

definition validateGrantScope :: "cred_scope \<Rightarrow> scope_request option \<Rightarrow> grant_failure option" where
  "validateGrantScope s expected =
     (let rules = grant_rules s (case expected of None \<Rightarrow> no_request | Some q \<Rightarrow> q) in
      case check_grant_rules rules of Some f \<Rightarrow> Some f
      | None \<Rightarrow> if list_ex (\<lambda>r. ru_values r \<noteq> None \<and> \<not> rule_asked r) rules then Some GfMissingScope else None)"

definition parseHandshakeGrantHandle :: "string \<Rightarrow> (string \<times> string) option" where
  "parseHandshakeGrantHandle handle =
     (case split_on CHR ''.'' handle of
        [p, i, s] \<Rightarrow> if p \<noteq> grant_token_prefix \<or> i = [] \<or> s = [] then None else Some (i, s)
      | _ \<Rightarrow> None)"

definition isForeignCredentialLane :: "string \<Rightarrow> bool" where
  "isForeignCredentialLane value =
     (let t = to_lower (trim value) in
      starts_with t ''bearer '' \<or> starts_with t ''relay-sac-v1.'' \<or> starts_with t ''pair_'' \<or> starts_with t ''node_'' \<or>
      includes_sub t ''.secret_'' \<or> starts_with t ''relay-pair-'' \<or> starts_with t ''relay-node-'' \<or> includes_sub t ''connect.sid='' \<or>
      includes_sub t ''token='')"

definition actorMatches :: "cred_actor \<Rightarrow> cred_actor \<Rightarrow> bool" where
  "actorMatches g r \<longleftrightarrow> act_type g = act_type r \<and> act_id g = act_id r"

definition binding_field :: "string option \<Rightarrow> string option \<Rightarrow> bool" where
  "binding_field g r \<longleftrightarrow> \<not> is_truthy g \<or> g = r"

definition sessionBindingMatches :: "session_binding option \<Rightarrow> session_binding option \<Rightarrow> bool" where
  "sessionBindingMatches g r =
     (case g of None \<Rightarrow> True
      | Some b \<Rightarrow> binding_field (sb_sessionId b) (Option.bind r sb_sessionId) \<and>
          binding_field (sb_globalSessionId b) (Option.bind r sb_globalSessionId) \<and>
          binding_field (sb_workContextId b) (Option.bind r sb_workContextId) \<and>
          binding_field (sb_authSessionHash b) (Option.bind r sb_authSessionHash))"

record grant_validate =
  gx_audience :: string
  gx_required :: "string list"
  gx_actor :: "cred_actor option"
  gx_deviceId :: "string option"
  gx_binding :: "session_binding option"
  gx_scope :: "scope_request option"
  gx_consume :: "bool option"
  gx_correlationId :: "string option"

datatype grant_result =
    GrantOk public_grant "string list" bool
  | GrantDenied grant_failure "string option" "string list"

definition grant_validation_scope :: "handshake_grant \<Rightarrow> grant_validate \<Rightarrow> json" where
  "grant_validation_scope g v = JObj [(''grantScope'', credential_scope_json (hg_scope g)),
     (''requestedScope'', or_null scope_request_json (gx_scope v)), (''sessionBinding'', or_null binding_json (gx_binding v)),
     (''devicePresented'', JBool (is_truthy (gx_deviceId v)))]"

definition consumes :: "grant_validate \<Rightarrow> bool" where
  "consumes v \<longleftrightarrow> gx_consume v \<noteq> Some False"

definition grant_validation_params :: "handshake_grant \<Rightarrow> grant_validate \<Rightarrow> json" where
  "grant_validation_params g v = JObj [(''grantId'', JStr (hg_id g)), (''audience'', JStr (gx_audience v)),
     (''actor'', or_null cred_actor_json (gx_actor v)), (''requiredCapabilities'', JArr (map JStr (gx_required v))),
     (''consume'', JBool (consumes v))]"

definition denyValidation ::
  "cred_env \<Rightarrow> grant_registry \<Rightarrow> grant_failure \<Rightarrow> string option \<Rightarrow> grant_validate \<Rightarrow> string list \<Rightarrow> grant_registry \<times> grant_result" where
  "denyValidation env st reason grantId v denied =
     (let g = (case truthy grantId of None \<Rightarrow> None | Some i \<Rightarrow> jm_get (hr_grants st) i) in
      (recordGrantAudit env st
         \<lparr>gn_action = (if reason = GfExpired then ''expiry'' else if reason = GfRevoked then ''revoke''
            else if reason = GfReplayed then ''replay'' else ''validate''),
          gn_decision = (if reason = GfExpired then ''expired'' else if reason = GfRevoked then ''revoked'' else ''deny''),
          gn_reasonCode = handshakeGrantReasonCode reason, gn_grant = g, gn_required = [], gn_granted = [],
          gn_denied = knownDeniedCapabilities denied, gn_correlationId = truthy (gx_correlationId v),
          gn_scope = (case g of None \<Rightarrow> JUndef | Some x \<Rightarrow> grant_validation_scope x v),
          gn_params = (case g of None \<Rightarrow> JObj [(''grantId'', or_null_str grantId), (''reason'', JStr (grant_failure_name reason)),
              (''audience'', JStr (gx_audience v))]
            | Some x \<Rightarrow> grant_validation_params x v)\<rparr>,
       GrantDenied reason (truthy grantId) denied))"

definition grant_expired :: "cred_env \<Rightarrow> handshake_grant \<Rightarrow> int \<Rightarrow> bool" where
  "grant_expired env g now \<longleftrightarrow> (case ce_dp env (hg_expiresAt g) of Some t \<Rightarrow> t \<le> now | None \<Rightarrow> False)"

text \<open>Why a grant whose handle fits is refused, in the order of the code, with the bits the refusal names.\<close>

definition grant_refusal :: "cred_env \<Rightarrow> handshake_grant \<Rightarrow> int \<Rightarrow> grant_validate \<Rightarrow> (grant_failure \<times> string list) option" where
  "grant_refusal env g now v =
     (let required = gx_required v; missing = filter (\<lambda>b. b \<notin> set (hg_capabilities g)) required in
      if gx_audience v \<notin> set grant_audiences then Some (GfUnknownAudience, [])
      else if hg_audience g \<noteq> gx_audience v then Some (GfWrongAudience, [])
      else if hg_status g = GsRequested \<or> hg_status g = GsDenied then Some (GfNotApproved, [])
      else if grant_expired env g now then Some (GfExpired, required)
      else if is_truthy (hg_revokedAt g) \<or> hg_status g = GsRevoked then Some (GfRevoked, required)
      else if is_truthy (hg_consumedAt g) \<or> hg_status g = GsConsumed then Some (GfReplayed, required)
      else if (case gx_actor v of None \<Rightarrow> False | Some a \<Rightarrow> \<not> actorMatches (hg_actor g) a) then Some (GfActorMismatch, required)
      else if (case hg_device g of None \<Rightarrow> False | Some d \<Rightarrow> ce_sha env (or_value (gx_deviceId v) []) \<noteq> gp_idHash d)
        then Some (GfDeviceMismatch, required)
      else if \<not> sessionBindingMatches (hg_binding g) (gx_binding v) then Some (GfSessionMismatch, required)
      else case truthy (List.find (\<lambda>b. \<not> isRelayCapabilityBit (JStr b)) required) of Some b \<Rightarrow> Some (GfUnknownCapability, [b])
      | None \<Rightarrow>
          if missing \<noteq> [] then Some (GfInsufficientCapability, missing)
          else map_option (\<lambda>f. (f, required)) (validateGrantScope (hg_scope g) (gx_scope v)))"

text \<open>A grant found expired is marked so; an accepted one is consumed unless the caller only asks.\<close>

definition spend :: "cred_env \<Rightarrow> int \<Rightarrow> grant_validate \<Rightarrow> handshake_grant \<Rightarrow> handshake_grant" where
  "spend env now v g = (if consumes v then g\<lparr>hg_status := GsConsumed, hg_consumedAt := Some (ce_toIso env now),
     hg_consumedBy := Some (case gx_actor v of None \<Rightarrow> ''unknown'' | Some a \<Rightarrow> act_type a @ '':'' @ act_id a)\<rparr> else g)"

definition grant_validate_op ::
  "cred_env \<Rightarrow> grant_registry \<Rightarrow> int \<Rightarrow> string \<Rightarrow> grant_validate \<Rightarrow> grant_registry \<times> grant_result" where
  "grant_validate_op env st now handle v =
     (case parseHandshakeGrantHandle handle of
        None \<Rightarrow> denyValidation env st (if isForeignCredentialLane handle then GfLaneMixing else GfMalformed) None v []
      | Some (i, secret) \<Rightarrow>
        case jm_get (hr_grants st) i of None \<Rightarrow> denyValidation env st GfMalformed (Some i) v []
        | Some g \<Rightarrow>
          if hg_handleHash g \<noteq> Some (ce_sha env secret) then denyValidation env st GfMalformed (Some i) v []
          else case grant_refusal env g now v of
            Some (f, bits) \<Rightarrow>
              denyValidation env (if f = GfExpired then put_grant st (g\<lparr>hg_status := GsExpired\<rparr>) else st) f (Some (hg_id g)) v bits
          | None \<Rightarrow>
              let g1 = spend env now v g
              in (recordGrantAudit env (put_grant st g1)
                    \<lparr>gn_action = ''validate'', gn_decision = ''allow'',
                     gn_reasonCode = (if consumes v then ''HANDSHAKE_GRANT_CONSUMED'' else ''HANDSHAKE_GRANT_VALIDATED''), gn_grant = Some g1,
                     gn_required = gx_required v, gn_granted = gx_required v, gn_denied = [], gn_correlationId = truthy (gx_correlationId v),
                     gn_scope = grant_validation_scope g1 v, gn_params = grant_validation_params g1 v\<rparr>,
                  GrantOk (publicGrant g1) (gx_required v) (consumes v)))"

section \<open>Reading\<close>

definition listGrants :: "grant_registry \<Rightarrow> public_grant list" where
  "listGrants st = map (\<lambda>g. publicGrant g) (jm_values (hr_grants st))"

definition getGrant :: "grant_registry \<Rightarrow> string \<Rightarrow> public_grant option" where
  "getGrant st i = map_option (\<lambda>g. publicGrant g) (jm_get (hr_grants st) i)"

definition listGrantEvents :: "cred_env \<Rightarrow> grant_registry \<Rightarrow> grant_event list" where
  "listGrantEvents env st = ring_list (ce_maxAudit env) (hr_ring st)"

text \<open>What the security audit log is told.\<close>

definition handshakeGrantAuditEventType :: "string \<Rightarrow> string \<Rightarrow> string" where
  "handshakeGrantAuditEventType action decision =
     (if action = ''revoke'' \<or> decision = ''revoked'' then ''revocation''
      else if action = ''expiry'' \<or> decision = ''expired'' then ''expiry''
      else if action = ''replay'' then ''failed_redemption''
      else if action = ''approve'' \<or> decision = ''approved'' then ''approval''
      else if decision = ''deny'' \<or> decision = ''failed'' then ''denial'' else ''grant'')"

definition createHandshakeGrantAuditEntry :: "(string \<Rightarrow> string) \<Rightarrow> string \<Rightarrow> grant_note \<Rightarrow> audit_input" where
  "createHandshakeGrantAuditEntry sha uuid n =
     (let g = map_option (\<lambda>x. publicGrant x) (gn_grant n);
          params = (case gn_params n of JObj ms \<Rightarrow> JObj ms
            | JArr xs \<Rightarrow> JObj (zip (map (\<lambda>i. int_to_dec (int i)) [0 ..< length xs]) xs)
            | v \<Rightarrow> JObj [(''params'', js_nullish v JNull)])
      in \<lparr>ai_eventId = None, ai_timestamp = None, ai_eventType = handshakeGrantAuditEventType (gn_action n) (gn_decision n),
       ai_decision = gn_decision n, ai_reasonCode = gn_reasonCode n,
       ai_peer = (case g of None \<Rightarrow> \<lparr>pe_kind = ''system'', pe_nodeId = None, pe_credentialId = None, pe_displayName = None, pe_principalHash = None\<rparr>
         | Some p \<Rightarrow> \<lparr>pe_kind = ''system'', pe_nodeId = None, pe_credentialId = Some (hg_id p),
             pe_displayName = Some (or_value (act_label (hg_actor p)) (act_type (hg_actor p))),
             pe_principalHash = Some (sha (act_type (hg_actor p) @ '':'' @ act_id (hg_actor p)))\<rparr>),
       ai_node = None, ai_sessionId = None, ai_action = ''operator-handshake-grant.'' @ gn_action n, ai_target = map_option hg_id g,
       ai_scope = redactAuditValue (js_nullish (js_nullish (gn_scope n)
         (case g of None \<Rightarrow> JUndef | Some p \<Rightarrow> credential_scope_json (hg_scope p))) JNull),
       ai_params = redactAuditValue (obj_spread params
         (js_obj [(''grant'', case g of None \<Rightarrow> JUndef | Some p \<Rightarrow> redactHandshakeGrantForAudit sha p)])),
       ai_requiredBits = Some (gn_required n), ai_grantedBits = Some (gn_granted n), ai_deniedBits = Some (gn_denied n),
       ai_aclRef = None, ai_policyVersion = Some ''1.0'', ai_sourceDiagnostics = JUndef,
       ai_correlationId = Some (or_value (gn_correlationId n) uuid)\<rparr>)"

end
