(* ===== verification/Gateway_Commands.thy ===== *)
theory Gateway_Commands
  imports Credential_Scope
begin

text \<open>
  The lane of the command line gateway (\<open>server/cli-gateway-actor-auth.ts\<close>): which commands a scoped actor credential may carry,
  the capability each needs, how a request is told from those of other lanes, and the envelope of a refusal. A request is its method
  and its headers, whose values hold no line breaks.
\<close>

section \<open>Commands\<close>

definition cli_audience :: string where "cli_audience = ''relay:cli-gateway:v1''"

definition profile_reason :: string where "profile_reason = ''agent-profile-credential''"

definition read_scope_task_ref :: string where "read_scope_task_ref = ''relay:cli-gateway:v1:read''"

definition renew_command :: string where "renew_command = ''actor-credentials.renew''"

definition cli_grant_capabilities :: "string list" where
  "cli_grant_capabilities =
    [''session:read'', ''session:create:terminal'', ''context:read'', ''context:write'', ''inbox:read'', ''inbox:write'',
     ''artifact:write'']"

definition cli_read_commands :: "string list" where
  "cli_read_commands =
    [''nodes.list'', ''sessions.list'', ''sessions.get'', ''sessions.screen'', ''sessions.native.list'',
     ''sessions.native.get'', ''sessions.native.import'', ''sessions.native.watch'', ''work-contexts.get'',
     ''work-contexts.resume'', ''work-context-artifacts.list'', ''work-context-artifacts.show'',
     ''work-context-artifacts.export'', ''work-context-artifacts.doctor'', ''handoff-artifacts.list'',
     ''handoff-artifacts.show'', ''handoff-artifacts.copy'', ''workflow-runs.list'', ''workflow-runs.get'',
     ''automation-runs.list'', ''automation-runs.get'', ''pr-overseer.list'', ''pr-overseer.get'', ''events.subscribe'',
     ''work-context-messages.list'', ''work-context-messages.show'', ''work-context-messages.query'',
     ''work-context-messages.templates.list'', ''work-context-messages.templates.show'',
     ''work-context-messages.templates.render'', ''workspace-surfaces.list'', ''workspace-topics.list'',
     ''workspace-topics.search'', ''workspace-topics.get'', ''channels.list'', ''channels.get'', ''channels.run.get'',
     ''channels.run.wait'', ''channels.run.history'', ''channels.history'', ''channels.receipts'', ''channels.subscribe'',
     ''channels.threads.history'', ''channels.roster'', ''channels.members'', ''channels.search'', ''context.get'',
     ''context.list'', ''inbox.list'', ''inbox.get'', ''agent-profiles.list'', ''agent-profiles.get'',
     ''agent-profiles.credential.status'']"

definition cli_write_commands :: "string list" where
  "cli_write_commands =
    [''sessions.create'', ''context.create'', ''context.pin'', ''context.unpin'', ''inbox.send'', ''inbox.ack'',
     ''inbox.resolve'', ''inbox.ignore'', ''work-context-artifacts.publish'', ''work-context-artifacts.pin'',
     ''work-context-artifacts.unpin'', ''handoff-artifacts.attach'', ''workflow-runs.publish'', ''workflow-runs.update'',
     ''automation-runs.register'', ''automation-runs.observe'', ''automation-runs.retire'', ''pr-overseer.register'',
     ''pr-overseer.observe'', ''pr-overseer.retire'', ''work-context-messages.append'', ''workspace-surfaces.publish'',
     ''workspace-topics.create'', ''workspace-topics.update'', ''workspace-topics.archive'', ''workspace-topics.restore'',
     ''channels.post'', ''channels.invite'', ''channels.remove-member'', ''agent-profiles.create'', ''agent-profiles.update'',
     ''agent-profiles.reset'', ''agent-profiles.credential.mint'', ''agent-profiles.credential.revoke'']"

definition channel_read_commands :: "string list" where
  "channel_read_commands =
    [''channels.list'', ''channels.get'', ''channels.run.get'', ''channels.run.wait'', ''channels.run.history'',
     ''channels.history'', ''channels.receipts'', ''channels.subscribe'', ''channels.threads.history'', ''channels.roster'',
     ''channels.members'', ''channels.search'']"

definition channel_write_commands :: "string list" where
  "channel_write_commands =
    [''channels.post'', ''channels.invite'', ''channels.remove-member'']"

definition agent_profile_read_commands :: "string list" where
  "agent_profile_read_commands =
    [''agent-profiles.list'', ''agent-profiles.get'', ''agent-profiles.credential.status'']"

definition agent_profile_write_commands :: "string list" where
  "agent_profile_write_commands =
    [''agent-profiles.create'', ''agent-profiles.update'', ''agent-profiles.reset'', ''agent-profiles.credential.mint'',
     ''agent-profiles.credential.revoke'']"

definition cli_read_post_commands :: "string list" where
  "cli_read_post_commands =
    [''work-context-messages.query'', ''work-context-messages.templates.render'', ''sessions.native.watch'',
     ''sessions.native.import'']"

definition context_read_commands :: "string list" where
  "context_read_commands = [''workflow-runs.list'', ''workflow-runs.get'', ''automation-runs.list'', ''automation-runs.get'',
     ''pr-overseer.list'', ''pr-overseer.get'', ''workspace-surfaces.list'', ''workspace-topics.list'', ''workspace-topics.search'',
     ''workspace-topics.get'']"

definition cliGatewayActorCommandCapabilities :: "string \<Rightarrow> string list" where
  "cliGatewayActorCommandCapabilities command =
     (if command = ''sessions.create'' then [''session:create:terminal'']
      else if command = ''events.subscribe'' then [''context:read'']
      else if command = ''sessions.native.watch'' then [''session:read'']
      else if command = ''context.get'' \<or> command = ''context.list'' then [''context:read'']
      else if command = ''inbox.list'' \<or> command = ''inbox.get'' then [''inbox:read'']
      else if command = ''work-context-messages.append'' then [''context:write'']
      else if command \<in> set channel_read_commands then [''context:read'']
      else if command \<in> set channel_write_commands then [''context:write'']
      else if command \<in> set agent_profile_read_commands then [''context:read'']
      else if command \<in> set agent_profile_write_commands then [''context:write'']
      else if command \<in> set context_read_commands \<or> starts_with command ''work-context-messages.'' then [''context:read'']
      else if command = ''workspace-surfaces.publish'' \<or> starts_with command ''workspace-topics.'' then [''context:write'']
      else if command \<in> set cli_read_commands then [''session:read'']
      else if starts_with command ''workflow-runs.'' then [''context:write'']
      else if starts_with command ''automation-runs.'' then [''context:write'']
      else if starts_with command ''pr-overseer.'' then [''context:write'']
      else if starts_with command ''context.'' then [''context:write'']
      else if starts_with command ''inbox.'' then [''inbox:write'']
      else [''artifact:write''])"

section \<open>Requests\<close>

record http_request =
  hq_method :: string
  hq_header :: "string \<Rightarrow> string option"

definition command_header :: string where "command_header = ''x-relay-cli-command''"

definition bearerActorToken :: "http_request \<Rightarrow> string" where
  "bearerActorToken q =
     (let h = or_value (hq_header q ''authorization'') []; rest = drop 6 h in
      if starts_with (to_lower h) ''bearer'' \<and> rest \<noteq> [] \<and> is_ws (hd rest) then trim rest else [])"

definition cliGatewayCorrelationId :: "http_request \<Rightarrow> string option" where
  "cliGatewayCorrelationId q = hq_header q ''x-relay-correlation-id''"

definition isCliGatewayActorTokenRequest :: "http_request \<Rightarrow> bool" where
  "isCliGatewayActorTokenRequest q \<longleftrightarrow>
     hq_header q ''x-relay-cli-actor-token'' = Some ''v1'' \<or> starts_with (bearerActorToken q) ''relay-sac-v1.''"

definition isSupportedCliGatewayActorReadRequest :: "http_request \<Rightarrow> string option \<Rightarrow> bool" where
  "isSupportedCliGatewayActorReadRequest q expected =
     (case truthy expected of None \<Rightarrow> False
      | Some c \<Rightarrow> c \<in> set cli_read_commands \<and>
          (hq_method q = ''GET'' \<or> hq_method q = ''POST'' \<and> c \<in> set cli_read_post_commands) \<and> hq_header q command_header = Some c)"

definition isSupportedCliGatewayActorWriteRequest :: "http_request \<Rightarrow> string option \<Rightarrow> bool" where
  "isSupportedCliGatewayActorWriteRequest q expected =
     (if hq_method q \<noteq> ''POST'' \<and> hq_method q \<noteq> ''PATCH'' then False
      else case truthy expected of None \<Rightarrow> False
      | Some c \<Rightarrow> c \<in> set cli_write_commands \<and> hq_header q command_header = Some c)"

definition isSupportedCliGatewayActorRequest :: "http_request \<Rightarrow> string option \<Rightarrow> bool" where
  "isSupportedCliGatewayActorRequest q expected =
     (case truthy expected of None \<Rightarrow> False
      | Some c \<Rightarrow>
          if c \<in> set cli_read_commands then isSupportedCliGatewayActorReadRequest q (Some c)
          else if c \<in> set cli_write_commands then isSupportedCliGatewayActorWriteRequest q (Some c)
          else False)"

datatype cred_lane = LaneMissing | LaneActor | LaneBrowser | LaneNode | LaneRoute | LaneType

definition classifyCliGatewayCredentialLane :: "http_request \<Rightarrow> string option \<Rightarrow> cred_lane" where
  "classifyCliGatewayCredentialLane q expected =
     (let token = bearerActorToken q in
      if token = [] then (if is_truthy (hq_header q ''cookie'') then LaneBrowser else LaneMissing)
      else if starts_with token ''relay-sac-v1.'' then
        (if expected = Some renew_command
         then (if hq_method q = ''POST'' \<and> hq_header q command_header = expected then LaneActor else LaneRoute)
         else if isSupportedCliGatewayActorRequest q expected then LaneActor else LaneRoute)
      else if is_truthy (hq_header q ''x-relay-node-id'') \<or> is_truthy (hq_header q ''x-relay-node-credential'') then LaneNode
      else LaneType)"

section \<open>Refusals\<close>

definition forbidden_actor_reasons :: "cred_failure list" where
  "forbidden_actor_reasons = [UnsupportedActorType, WrongAudience, UnknownAudience, MissingScope, WrongNodeScope, WrongSessionScope,
     WrongGlobalSessionScope, WrongWorkContextScope, WrongChannelScope, WrongRepoScope, WrongPathScope, WrongTaskScope,
     UnknownCapability, InsufficientCapability]"

definition cliGatewayActorReasonCode :: "cred_failure \<Rightarrow> string" where
  "cliGatewayActorReasonCode r = ''CLI_ACTOR_'' @ map upper_char (failure_name r)"

definition cliGatewayActorMessage :: "string \<Rightarrow> string" where
  "cliGatewayActorMessage code =
     (if code = ''CLI_ACTOR_CREDENTIAL_MISSING'' then ''CLI gateway actor commands require --actor-token or RELAY_IDE_ACTOR_TOKEN''
      else if code = ''CLI_ACTOR_BROWSER_COOKIE_REJECTED'' then ''browser cookies are not accepted for the scoped CLI actor lane''
      else if code = ''CLI_ACTOR_NODE_CREDENTIAL_REJECTED'' then ''node credentials are not accepted for the scoped CLI actor lane''
      else if code = ''CLI_ACTOR_CREDENTIAL_UNSUPPORTED_TYPE'' then ''unsupported CLI gateway credential type''
      else if code = ''CLI_ACTOR_ROUTE_UNSUPPORTED''
        then ''scoped CLI actor credentials are limited to supported CLI gateway route and command pairs''
      else ''scoped CLI actor credential rejected: '' @ code)"

record failure_input =
  fi_lane :: "cred_lane option"
  fi_reason :: "cred_failure option"
  fi_credentialId :: "string option"
  fi_deniedBits :: "string list option"
  fi_correlationId :: "string option"

record failure_envelope =
  fe_code :: string
  fe_reasonCode :: string
  fe_message :: string
  fe_credentialId :: "string option"
  fe_deniedBits :: "string list option"
  fe_correlationId :: "string option"

definition cliGatewayActorFailure :: "failure_input \<Rightarrow> failure_envelope" where
  "cliGatewayActorFailure i =
     (let reasonCode = (case fi_reason i of Some r \<Rightarrow> cliGatewayActorReasonCode r
        | None \<Rightarrow> (case fi_lane i of Some LaneMissing \<Rightarrow> ''CLI_ACTOR_CREDENTIAL_MISSING''
            | Some LaneBrowser \<Rightarrow> ''CLI_ACTOR_BROWSER_COOKIE_REJECTED''
            | Some LaneNode \<Rightarrow> ''CLI_ACTOR_NODE_CREDENTIAL_REJECTED''
            | Some LaneRoute \<Rightarrow> ''CLI_ACTOR_ROUTE_UNSUPPORTED''
            | _ \<Rightarrow> ''CLI_ACTOR_CREDENTIAL_UNSUPPORTED_TYPE''))
      in \<lparr>fe_code = (case fi_reason i of Some r \<Rightarrow> if r \<in> set forbidden_actor_reasons then ''FORBIDDEN'' else ''UNAUTHORIZED''
            | None \<Rightarrow> ''UNAUTHORIZED''),
          fe_reasonCode = reasonCode, fe_message = cliGatewayActorMessage reasonCode, fe_credentialId = truthy (fi_credentialId i),
          fe_deniedBits = (if some_list (fi_deniedBits i) then fi_deniedBits i else None), fe_correlationId = truthy (fi_correlationId i)\<rparr>)"

definition sendCliGatewayActorFailure :: "failure_envelope \<Rightarrow> nat" where
  "sendCliGatewayActorFailure f = (if fe_code f = ''FORBIDDEN'' then 403 else 401)"

section \<open>What a command needs\<close>

definition read_bits :: "string list" where "read_bits = [''session:read'', ''context:read'', ''inbox:read'']"

lemma commands_disjoint: "set cli_read_commands \<inter> set cli_write_commands = {}"
  by (simp add: cli_read_commands_def cli_write_commands_def)

lemma read_lists: "set channel_read_commands \<union> set agent_profile_read_commands \<union> set context_read_commands \<union>
    {''events.subscribe'', ''sessions.native.watch'', ''context.get'', ''context.list'', ''inbox.list'', ''inbox.get''} \<subseteq> set cli_read_commands"
  by (simp add: cli_read_commands_def channel_read_commands_def agent_profile_read_commands_def context_read_commands_def)

lemma write_lists: "set channel_write_commands \<union> set agent_profile_write_commands \<union>
    {''sessions.create'', ''work-context-messages.append'', ''workspace-surfaces.publish''} \<subseteq> set cli_write_commands"
  by (simp add: cli_write_commands_def channel_write_commands_def agent_profile_write_commands_def)

lemma message_writes: "c \<in> set cli_write_commands \<Longrightarrow> starts_with c ''work-context-messages.'' \<Longrightarrow> c = ''work-context-messages.append''"
proof -
  have "list_all (\<lambda>c. starts_with c ''work-context-messages.'' \<longrightarrow> c = ''work-context-messages.append'') cli_write_commands"
    by (simp add: cli_write_commands_def starts_with_def)
  then show "c \<in> set cli_write_commands \<Longrightarrow> starts_with c ''work-context-messages.'' \<Longrightarrow> c = ''work-context-messages.append''"
    by (simp add: list_all_iff)
qed

lemma topic_reads: "c \<in> set cli_read_commands \<Longrightarrow> starts_with c ''workspace-topics.'' \<Longrightarrow> c \<in> set context_read_commands"
proof -
  have "list_all (\<lambda>c. starts_with c ''workspace-topics.'' \<longrightarrow> c \<in> set context_read_commands) cli_read_commands"
    by (simp add: cli_read_commands_def context_read_commands_def starts_with_def)
  then show "c \<in> set cli_read_commands \<Longrightarrow> starts_with c ''workspace-topics.'' \<Longrightarrow> c \<in> set context_read_commands"
    by (simp add: list_all_iff)
qed

lemma read_command_bits:
  assumes "c \<in> set cli_read_commands"
  shows "set (cliGatewayActorCommandCapabilities c) \<subseteq> set read_bits"
proof -
  have "c \<notin> set cli_write_commands" using assms commands_disjoint by blast
  then have "c \<notin> set channel_write_commands" "c \<notin> set agent_profile_write_commands" "c \<noteq> ''sessions.create''"
    "c \<noteq> ''work-context-messages.append''" "c \<noteq> ''workspace-surfaces.publish''" using write_lists by blast+
  moreover have "starts_with c ''workspace-topics.'' \<Longrightarrow> c \<in> set context_read_commands" using topic_reads [OF assms] .
  ultimately show ?thesis
    using assms unfolding cliGatewayActorCommandCapabilities_def by (simp add: read_bits_def)
qed

lemma write_command_bits:
  assumes "c \<in> set cli_write_commands"
  shows "cliGatewayActorCommandCapabilities c \<in> set [[''session:create:terminal''], [''context:write''], [''inbox:write''], [''artifact:write'']]"
proof -
  have "c \<notin> set cli_read_commands" using assms commands_disjoint by blast
  then have "c \<notin> set channel_read_commands" "c \<notin> set agent_profile_read_commands" "c \<notin> set context_read_commands" "c \<noteq> ''events.subscribe''"
    "c \<noteq> ''sessions.native.watch''" "c \<noteq> ''context.get''" "c \<noteq> ''context.list''" "c \<noteq> ''inbox.list''" "c \<noteq> ''inbox.get''"
    using read_lists by blast+
  moreover have "starts_with c ''work-context-messages.'' \<Longrightarrow> c = ''work-context-messages.append''" using message_writes [OF assms] .
  ultimately show ?thesis
    using \<open>c \<notin> set cli_read_commands\<close> unfolding cliGatewayActorCommandCapabilities_def by simp
qed

end
