(* ===== verification/Actor_Auth.thy ===== *)
theory Actor_Auth
  imports Handshake_Grants Gateway_Commands
begin

text \<open>
  How the gateway issues, renews, lists, revokes and rotates scoped actor credentials, on its own authority or on that of a handshake
  grant, and how it validates them (\<open>server/cli-gateway-actor-auth.ts\<close>). Bodies of requests are values of any shape. The clock of a
  call is a function: its \<open>k\<close>th reading. A call that throws may have changed the registries already, so every operation
  returns both and a result or an error.
\<close>

section \<open>Errors\<close>

datatype auth_reason =
    ArGrant grant_failure | ArHandleRequired | ArActorRequired | ArIssuerRequired | ArTtlRequired | ArAudienceRequired
  | ArAudienceExpansion | ArCapabilityRequired | ArCapabilityExpansion | ArScopeRequired | ArCredentialNotFound

fun auth_reason_name :: "auth_reason \<Rightarrow> string" where
  "auth_reason_name (ArGrant f) = grant_failure_name f"
| "auth_reason_name ArHandleRequired = ''grant_handle_required''"
| "auth_reason_name ArActorRequired = ''actor_required''"
| "auth_reason_name ArIssuerRequired = ''issuer_required''"
| "auth_reason_name ArTtlRequired = ''ttl_required''"
| "auth_reason_name ArAudienceRequired = ''audience_required''"
| "auth_reason_name ArAudienceExpansion = ''audience_expansion''"
| "auth_reason_name ArCapabilityRequired = ''capability_required''"
| "auth_reason_name ArCapabilityExpansion = ''capability_expansion''"
| "auth_reason_name ArScopeRequired = ''scope_required''"
| "auth_reason_name ArCredentialNotFound = ''credential_not_found''"

text \<open>A grant error names the reason and the grant, if any; the registry has errors of its own.\<close>

datatype auth_error = GrantError auth_reason "string option" | RegistryError cred_error | Disappeared

section \<open>Reading requests\<close>

definition strings :: "json list \<Rightarrow> string list" where
  "strings xs = List.map_filter (\<lambda>v. case v of JStr s \<Rightarrow> Some s | _ \<Rightarrow> None) xs"

definition text_or :: "json \<Rightarrow> string \<Rightarrow> string" where
  "text_or v d = (case v of JStr s \<Rightarrow> s | _ \<Rightarrow> d)"

definition text_of :: "json \<Rightarrow> string option" where
  "text_of v = (case v of JStr s \<Rightarrow> Some s | _ \<Rightarrow> None)"

definition coerceActor :: "json \<Rightarrow> cred_actor" where
  "coerceActor v = \<lparr>act_type = text_or (fld v ''type'') ''cli'', act_id = text_or (fld v ''id'') ''relay-cli'',
     act_label = text_of (fld v ''displayName'')\<rparr>"

definition coerceIssuer :: "json \<Rightarrow> cred_issuer" where
  "coerceIssuer v = \<lparr>iss_id = text_or (fld v ''id'') ''browser-operator'', iss_label = text_of (fld v ''displayName'')\<rparr>"

definition coerceCapabilities :: "json \<Rightarrow> string list" where
  "coerceCapabilities v =
     (case v of JArr xs \<Rightarrow>
        (let caps = filter (\<lambda>c. isRelayCapabilityBit (JStr c) \<and> c \<in> set cli_grant_capabilities) (strings xs)
         in if caps = [] then [''session:read''] else caps)
      | _ \<Rightarrow> [''session:read''])"

definition coerce_dimension :: "json \<Rightarrow> string list option" where
  "coerce_dimension v = (case v of JArr xs \<Rightarrow> (if strings xs = [] then None else Some (strings xs)) | _ \<Rightarrow> None)"

definition coerceScope :: "json \<Rightarrow> cred_scope option" where
  "coerceScope v =
     (if \<not> is_record v then None
      else Some \<lparr>sp_nodeIds = coerce_dimension (fld v ''nodeIds''), sp_sessionIds = coerce_dimension (fld v ''sessionIds''),
         sp_globalSessionIds = coerce_dimension (fld v ''globalSessionIds''),
         sp_workContextIds = coerce_dimension (fld v ''workContextIds''), sp_channelIds = coerce_dimension (fld v ''channelIds''),
         sp_repoIds = coerce_dimension (fld v ''repoIds''), sp_pathPrefixes = coerce_dimension (fld v ''pathPrefixes''),
         sp_taskRefs = coerce_dimension (fld v ''taskRefs'')\<rparr>)"

definition uniqueStrings :: "string list \<Rightarrow> string list" where
  "uniqueStrings xs = foldl (\<lambda>acc x. if x \<in> set acc then acc else acc @ [x]) [] xs"

definition some_scope :: "cred_scope option \<Rightarrow> cred_scope" where
  "some_scope s = (case s of None \<Rightarrow> no_scope | Some x \<Rightarrow> x)"

definition defaultCliGatewayActorScope :: "cred_scope option \<Rightarrow> string list \<Rightarrow> cred_scope" where
  "defaultCliGatewayActorScope overrides capabilities =
     (if ''session:read'' \<notin> set capabilities then some_scope overrides
      else (some_scope overrides)\<lparr>sp_taskRefs :=
        Some (uniqueStrings (read_scope_task_ref # list_of (sp_taskRefs (some_scope overrides))))\<rparr>)"

text \<open>A number of milliseconds: a sum of dates is cut to whole milliseconds, and \<open>NaN\<close> and the infinities give no date.\<close>

definition ms_of :: "js_number \<Rightarrow> int" where
  "ms_of n = (case n of IntNum i \<Rightarrow> i | FracNum i \<Rightarrow> i | _ \<Rightarrow> 3 * max_date_ms)"

section \<open>Markers\<close>

definition trusted_reasons :: "string list" where
  "trusted_reasons =
    [''persistent-orchestrator'', ''channel-runtime-read'', ''hub-local-cli'', ''agent-profile-credential'']"

definition credentialIssueMetadata :: "json \<Rightarrow> json" where
  "credentialIssueMetadata metadata =
     (if \<not> is_record metadata then JUndef
      else let sanitized = (if str_sat (\<lambda>s. s \<in> set trusted_reasons) (fld metadata ''reason'') then obj_delete metadata ''reason'' else metadata)
        in if obj_keys sanitized = [] then JUndef else sanitized)"

definition marked_as :: "string \<Rightarrow> public_credential option \<Rightarrow> bool" where
  "marked_as r c \<longleftrightarrow> (case c of None \<Rightarrow> False | Some p \<Rightarrow> Option.bind (cd_metadata p) md_reason = Some r)"

definition isLocalHubCliActorCredential :: "public_credential option \<Rightarrow> bool" where
  "isLocalHubCliActorCredential c = marked_as ''hub-local-cli'' c"

definition isAgentProfileActorCredential :: "public_credential option \<Rightarrow> bool" where
  "isAgentProfileActorCredential c = marked_as profile_reason c"

definition names_channels :: "public_credential option \<Rightarrow> bool" where
  "names_channels c \<longleftrightarrow> (case c of None \<Rightarrow> False | Some p \<Rightarrow> some_list (sp_channelIds (cd_scope p)))"

definition credentialDefersChannelScopeToMembership :: "public_credential option \<Rightarrow> bool" where
  "credentialDefersChannelScopeToMembership c \<longleftrightarrow> isAgentProfileActorCredential c \<and> \<not> names_channels c"

section \<open>Issuing\<close>

definition internal_issue_input :: "json \<Rightarrow> string option \<Rightarrow> issue_input" where
  "internal_issue_input body trustedReason =
     (let capabilities = coerceCapabilities (fld body ''capabilities'') in
      \<lparr>ii_id = None, ii_actor = coerceActor (fld body ''actor''), ii_issuer = coerceIssuer (fld body ''issuer''), ii_grantId = None,
       ii_audience = cli_audience, ii_capabilities = capabilities,
       ii_scope = credential_scope_json (defaultCliGatewayActorScope (coerceScope (fld body ''scope'')) capabilities),
       ii_metadata = (case trustedReason of Some r \<Rightarrow> JObj [(''reason'', JStr r)] | None \<Rightarrow> credentialIssueMetadata (fld body ''metadata'')),
       ii_expiresAt = map_option DateText (text_of (fld body ''expiresAt'')),
       ii_ttlMs = Some (case fld body ''ttlMs'' of JNum n \<Rightarrow> ms_of n | _ \<Rightarrow> 5 * 60 * 1000), ii_notAfter = None,
       ii_correlationId = text_of (fld body ''correlationId'')\<rparr>)"

type_synonym issued = "cred_error + (cred_registry \<times> string \<times> public_credential)"

definition issueCliGatewayActorCredentialInternal ::
  "cred_env \<Rightarrow> cred_registry \<Rightarrow> int \<Rightarrow> json \<Rightarrow> string option \<Rightarrow> 8 word list \<Rightarrow> issued" where
  "issueCliGatewayActorCredentialInternal env st now body trustedReason bytes =
     issueAt env st (internal_issue_input body trustedReason) now bytes"

definition issueCliGatewayActorCredential :: "cred_env \<Rightarrow> cred_registry \<Rightarrow> int \<Rightarrow> json \<Rightarrow> 8 word list \<Rightarrow> issued" where
  "issueCliGatewayActorCredential env st now body bytes = issueCliGatewayActorCredentialInternal env st now body None bytes"

definition issuePersistentOrchestratorCliGatewayActorCredential :: "cred_env \<Rightarrow> cred_registry \<Rightarrow> int \<Rightarrow> json \<Rightarrow> 8 word list \<Rightarrow> issued" where
  "issuePersistentOrchestratorCliGatewayActorCredential env st now body bytes =
     issueCliGatewayActorCredentialInternal env st now body (Some ''persistent-orchestrator'') bytes"

definition issueChannelRuntimeReadCliGatewayActorCredential :: "cred_env \<Rightarrow> cred_registry \<Rightarrow> int \<Rightarrow> json \<Rightarrow> 8 word list \<Rightarrow> issued" where
  "issueChannelRuntimeReadCliGatewayActorCredential env st now body bytes =
     issueCliGatewayActorCredentialInternal env st now body (Some ''channel-runtime-read'') bytes"

definition issueLocalHubCliActorCredential :: "cred_env \<Rightarrow> cred_registry \<Rightarrow> int \<Rightarrow> json \<Rightarrow> 8 word list \<Rightarrow> issued" where
  "issueLocalHubCliActorCredential env st now body bytes =
     issueCliGatewayActorCredentialInternal env st now body (Some ''hub-local-cli'') bytes"

definition agentProfileCredentialScope :: cred_scope where
  "agentProfileCredentialScope = no_scope\<lparr>sp_taskRefs := Some [read_scope_task_ref]\<rparr>"

definition issueAgentProfileCliGatewayActorCredential :: "cred_env \<Rightarrow> cred_registry \<Rightarrow> int \<Rightarrow> json \<Rightarrow> 8 word list \<Rightarrow> issued" where
  "issueAgentProfileCliGatewayActorCredential env st now body bytes =
     (let scope = some_scope (coerceScope (fld body ''scope''));
          taskRefs = uniqueStrings (list_of (sp_taskRefs agentProfileCredentialScope) @ list_of (sp_taskRefs scope))
      in issueCliGatewayActorCredentialInternal env st now
        (obj_set body ''scope'' (credential_scope_json (scope\<lparr>sp_taskRefs := Some taskRefs\<rparr>))) (Some profile_reason) bytes)"

section \<open>Renewing\<close>

definition default_login_ttl_ms :: int where "default_login_ttl_ms = 30 * 24 * 60 * 60 * 1000"

definition renewal_ttl :: "json \<Rightarrow> int" where
  "renewal_ttl v = (case v of JNum (IntNum i) \<Rightarrow> if 0 < i then i else default_login_ttl_ms
     | JNum (FracNum i) \<Rightarrow> if 0 \<le> i then i else default_login_ttl_ms | _ \<Rightarrow> default_login_ttl_ms)"

definition renewal_input :: "public_credential \<Rightarrow> json \<Rightarrow> issue_input" where
  "renewal_input previous ttl =
     \<lparr>ii_id = None, ii_actor = cd_actor previous,
      ii_issuer = \<lparr>iss_id = cd_id previous, iss_label = truthy (iss_label (cd_issuer previous))\<rparr>, ii_grantId = None,
      ii_audience = cd_audience previous, ii_capabilities = cd_capabilities previous,
      ii_scope = credential_scope_json (cd_scope previous),
      ii_metadata = obj_set (case cd_metadata previous of None \<Rightarrow> JObj [] | Some m \<Rightarrow> metadata_json m) ''reason'' (JStr ''cli-login-renewal''),
      ii_expiresAt = None, ii_ttlMs = Some (renewal_ttl ttl), ii_notAfter = None, ii_correlationId = None\<rparr>"

definition renewCliGatewayActorCredential ::
  "cred_env \<Rightarrow> cred_registry \<Rightarrow> int \<Rightarrow> public_credential \<Rightarrow> json \<Rightarrow> 8 word list \<Rightarrow>
   auth_error + (cred_registry \<times> string \<times> public_credential)" where
  "renewCliGatewayActorCredential env st now previous ttl bytes =
     (if isLocalHubCliActorCredential (Some previous) then Inl (GrantError ArAudienceExpansion None)
      else if isAgentProfileActorCredential (Some previous) then Inl (GrantError ArAudienceExpansion None)
      else case issueAt env st (renewal_input previous ttl) now bytes of Inl e \<Rightarrow> Inl (RegistryError e) | Inr r \<Rightarrow> Inr r)"

section \<open>Requests on the authority of a grant\<close>

record lifecycle_request =
  lr_grantHandle :: string
  lr_capabilities :: "string list"
  lr_actor :: cred_actor
  lr_grantActor :: "cred_actor option"
  lr_deviceId :: "string option"
  lr_sessionBinding :: "session_binding option"
  lr_scope :: cred_scope
  lr_ttlMs :: "int option"
  lr_expiresAt :: "string option"
  lr_correlationId :: string

record lifecycle_options =
  lo_ttlRequired :: bool
  lo_existing :: "public_credential option"

definition strictActor :: "json \<Rightarrow> auth_error + cred_actor" where
  "strictActor v =
     (if is_str (fld v ''type'') \<and> is_str (fld v ''id'')
      then Inr \<lparr>act_type = the_str (fld v ''type''), act_id = the_str (fld v ''id''), act_label = text_of (fld v ''displayName'')\<rparr>
      else Inl (GrantError ArActorRequired None))"

definition strictCliGatewayCapabilities :: "json \<Rightarrow> auth_error + string list" where
  "strictCliGatewayCapabilities v =
     (case v of JArr xs \<Rightarrow>
        if xs = [] then Inl (GrantError ArCapabilityRequired None)
        else if length (strings xs) \<noteq> length xs \<or> ''*'' \<in> set (strings xs) then Inl (GrantError ArCapabilityExpansion None)
        else if list_ex (\<lambda>c. \<not> isRelayCapabilityBit (JStr c)) (strings xs) then Inl (GrantError (ArGrant GfUnknownCapability) None)
        else if list_ex (\<lambda>c. c \<notin> set cli_grant_capabilities) (strings xs) then Inl (GrantError ArCapabilityExpansion None)
        else Inr (strings xs)
      | _ \<Rightarrow> Inl (GrantError ArCapabilityRequired None))"

definition strictScope :: "json \<Rightarrow> auth_error + cred_scope" where
  "strictScope v = (case coerceScope v of None \<Rightarrow> Inl (GrantError ArScopeRequired None)
     | Some s \<Rightarrow> if s = no_scope then Inl (GrantError ArScopeRequired None) else Inr s)"

definition strictSessionBinding :: "json \<Rightarrow> session_binding" where
  "strictSessionBinding v = \<lparr>sb_sessionId = text_of (fld v ''sessionId''), sb_globalSessionId = text_of (fld v ''globalSessionId''),
     sb_workContextId = text_of (fld v ''workContextId''), sb_authSessionHash = text_of (fld v ''authSessionHash'')\<rparr>"

text \<open>A credential that exists already supplies the actor, the capabilities and the scope itself.\<close>

definition lifecycle_subject :: "json \<Rightarrow> lifecycle_options \<Rightarrow> auth_error + (cred_actor \<times> string list \<times> cred_scope)" where
  "lifecycle_subject body opts =
     (case lo_existing opts of Some c \<Rightarrow> Inr (cd_actor c, cd_capabilities c, cd_scope c)
      | None \<Rightarrow> case strictActor (fld body ''actor'') of Inl e \<Rightarrow> Inl e
      | Inr actor \<Rightarrow> case strictCliGatewayCapabilities (fld body ''capabilities'') of Inl e \<Rightarrow> Inl e
      | Inr caps \<Rightarrow> case strictScope (fld body ''scope'') of Inl e \<Rightarrow> Inl e | Inr scope \<Rightarrow> Inr (actor, caps, scope))"

definition lifecycle_correlation :: "json \<Rightarrow> int \<Rightarrow> string" where
  "lifecycle_correlation v now = (case v of JStr s \<Rightarrow> if trim s \<noteq> [] then trim s else ''cli-actor-grant-'' @ int_to_dec now
     | _ \<Rightarrow> ''cli-actor-grant-'' @ int_to_dec now)"

definition strictGrantLifecycleRequest :: "json \<Rightarrow> lifecycle_options \<Rightarrow> int \<Rightarrow> auth_error + lifecycle_request" where
  "strictGrantLifecycleRequest body opts now =
     (if \<not> str_sat (\<lambda>s. trim s \<noteq> []) (fld body ''grantHandle'') then Inl (GrantError ArHandleRequired None)
      else if fld body ''audience'' \<noteq> JStr cli_audience
        then Inl (GrantError (if is_str (fld body ''audience'') then ArAudienceExpansion else ArAudienceRequired) None)
      else case lifecycle_subject body opts of Inl e \<Rightarrow> Inl e
      | Inr (actor, caps, scope) \<Rightarrow>
        let ttlMs = (case fld body ''ttlMs'' of JNum n \<Rightarrow> Some (ms_of n) | _ \<Rightarrow> None);
            expiresAt = truthy (text_of (fld body ''expiresAt''))
        in if lo_ttlRequired opts \<and> ttlMs = None \<and> expiresAt = None then Inl (GrantError ArTtlRequired None)
        else case (if js_truthy (fld body ''grantActor'') then map_sum id Some (strictActor (fld body ''grantActor'')) else Inr None) of Inl e \<Rightarrow> Inl e
        | Inr grantActor \<Rightarrow> Inr
          \<lparr>lr_grantHandle = trim (the_str (fld body ''grantHandle'')), lr_capabilities = caps, lr_actor = actor, lr_grantActor = grantActor,
           lr_deviceId = text_of (fld body ''deviceId''),
           lr_sessionBinding = (if is_record (fld body ''sessionBinding'') then Some (strictSessionBinding (fld body ''sessionBinding'')) else None),
           lr_scope = defaultCliGatewayActorScope (Some scope) [''session:read''], lr_ttlMs = ttlMs, lr_expiresAt = expiresAt,
           lr_correlationId = lifecycle_correlation (fld body ''correlationId'') now\<rparr>)"

section \<open>What a scope asks for\<close>

definition first_of :: "string list option \<Rightarrow> string option" where
  "first_of xs = (case list_of xs of [] \<Rightarrow> None | x # _ \<Rightarrow> truthy (Some x))"

definition taskRefForGrantValidation :: "string list option \<Rightarrow> string option" where
  "taskRefForGrantValidation taskRefs =
     (if \<not> some_list taskRefs then None
      else nullish (List.find (\<lambda>t. t \<noteq> read_scope_task_ref) (list_of taskRefs)) (Some (hd (list_of taskRefs))))"

definition scopeForValidation :: "cred_scope option \<Rightarrow> bool \<Rightarrow> bool \<Rightarrow> scope_request" where
  "scopeForValidation scope deferWorkContextScope multi =
     (let s = some_scope scope in
      \<lparr>rq_nodeId = first_of (sp_nodeIds s), rq_sessionId = first_of (sp_sessionIds s), rq_globalSessionId = first_of (sp_globalSessionIds s),
       rq_workContextId = (if multi \<and> some_list (sp_workContextIds s) then None else first_of (sp_workContextIds s)),
       rq_workContextIds = (if multi \<and> some_list (sp_workContextIds s) then sp_workContextIds s else None),
       rq_deferWorkContextScope = (if deferWorkContextScope then Some True else None),
       rq_channelId = (if multi \<and> some_list (sp_channelIds s) then None else first_of (sp_channelIds s)),
       rq_channelIds = (if multi \<and> some_list (sp_channelIds s) then sp_channelIds s else None),
       rq_repoId = first_of (sp_repoIds s), rq_path = first_of (sp_pathPrefixes s),
       rq_taskRef = truthy (taskRefForGrantValidation (sp_taskRefs s))\<rparr>)"

section \<open>The grant behind a request\<close>

text \<open>One dimension: what the grant lists, what is asked for, the refusal, and how a value fits.\<close>

type_synonym request_rule = "string list option \<times> string list option \<times> grant_failure \<times> (string list \<Rightarrow> string \<Rightarrow> bool)"

definition listed :: "string list \<Rightarrow> string \<Rightarrow> bool" where "listed vs v \<longleftrightarrow> v \<in> set vs"

definition request_rules :: "cred_scope \<Rightarrow> cred_scope \<Rightarrow> request_rule list" where
  "request_rules g r =
     [(sp_nodeIds g, sp_nodeIds r, GfWrongNode, listed), (sp_sessionIds g, sp_sessionIds r, GfWrongSession, listed),
      (sp_globalSessionIds g, sp_globalSessionIds r, GfWrongGlobalSession, listed),
      (sp_workContextIds g, sp_workContextIds r, GfWrongWorkContext, listed), (sp_channelIds g, sp_channelIds r, GfWrongChannel, listed),
      (sp_repoIds g, sp_repoIds r, GfWrongRepo, listed),
      (sp_pathPrefixes g, sp_pathPrefixes r, GfWrongPath, \<lambda>ps p. list_ex (pathMatchesGrantPrefix p) ps),
      (sp_taskRefs g, sp_taskRefs r, GfWrongTask, listed)]"

definition requestValuesForGrantScopeRule :: "request_rule \<Rightarrow> string list" where
  "requestValuesForGrantScopeRule rule =
     (case rule of (gv, rv, wrong, matches) \<Rightarrow>
        if wrong \<noteq> GfWrongTask then list_of rv
        else filter (\<lambda>t. t \<noteq> read_scope_task_ref \<or> t \<in> set (list_of gv)) (list_of rv))"

definition requestOnlyScopeDimensionIsAllowed :: "grant_failure \<Rightarrow> string list \<Rightarrow> bool" where
  "requestOnlyScopeDimensionIsAllowed wrong vs \<longleftrightarrow> wrong = GfWrongTask \<and> vs = [read_scope_task_ref]"

fun check_request_rules :: "request_rule list \<Rightarrow> grant_failure option" where
  "check_request_rules [] = None"
| "check_request_rules (rule # rules) =
     (case rule of (gv, rv, wrong, matches) \<Rightarrow>
        let vs = requestValuesForGrantScopeRule rule in
        if vs = [] then check_request_rules rules
        else if \<not> some_list gv
          then (if requestOnlyScopeDimensionIsAllowed wrong vs then check_request_rules rules else Some wrong)
        else if \<not> list_all (matches (list_of gv)) vs then Some wrong
        else check_request_rules rules)"

definition validateRequestedScopeAgainstGrant :: "cred_scope \<Rightarrow> cred_scope \<Rightarrow> grant_failure option" where
  "validateRequestedScopeAgainstGrant grantScope requestScope = check_request_rules (request_rules grantScope requestScope)"

definition lifecycle_validation :: "lifecycle_request \<Rightarrow> bool \<Rightarrow> grant_validate" where
  "lifecycle_validation r consume =
     \<lparr>gx_audience = cli_audience, gx_required = lr_capabilities r, gx_actor = Some (lr_actor r), gx_deviceId = truthy (lr_deviceId r),
      gx_binding = lr_sessionBinding r, gx_scope = Some (scopeForValidation (Some (lr_scope r)) False False), gx_consume = Some consume,
      gx_correlationId = Some (lr_correlationId r)\<rparr>"

text \<open>The handle is validated, the whole scope is compared with the grant, and the handle is validated again, this time spending it
  if the caller says so. The two validations read the clock at \<open>t1\<close> and \<open>t2\<close>.\<close>

definition validateCliGatewayLifecycleGrant ::
  "cred_env \<Rightarrow> grant_registry \<Rightarrow> int \<Rightarrow> int \<Rightarrow> lifecycle_request \<Rightarrow> bool \<Rightarrow> grant_registry \<times> (auth_error + public_grant)" where
  "validateCliGatewayLifecycleGrant env gs t1 t2 r consume =
     (case grant_validate_op env gs t1 (lr_grantHandle r) (lifecycle_validation r False) of
        (gs1, GrantDenied f i _) \<Rightarrow> (gs1, Inl (GrantError (ArGrant f) i))
      | (gs1, GrantOk preflight _ _) \<Rightarrow>
        case validateRequestedScopeAgainstGrant (hg_scope preflight) (lr_scope r) of
          Some f \<Rightarrow> (gs1, Inl (GrantError (ArGrant f) (Some (hg_id preflight))))
        | None \<Rightarrow>
          case grant_validate_op env gs1 t2 (lr_grantHandle r) (lifecycle_validation r consume) of
            (gs2, GrantDenied f i _) \<Rightarrow> (gs2, Inl (GrantError (ArGrant f) i))
          | (gs2, GrantOk p _ _) \<Rightarrow> (gs2, Inr p))"

definition grantBackedCredentialIssueInput ::
  "lifecycle_request \<Rightarrow> public_grant \<Rightarrow> cred_actor \<Rightarrow> json \<Rightarrow> string list \<Rightarrow> cred_scope \<Rightarrow> issue_input" where
  "grantBackedCredentialIssueInput r g actor metadata capabilities scope =
     \<lparr>ii_id = None, ii_actor = actor, ii_issuer = \<lparr>iss_id = hg_id g, iss_label = truthy (gp_displayName (hg_issuer g))\<rparr>,
      ii_grantId = Some (hg_id g), ii_audience = cli_audience, ii_capabilities = capabilities, ii_scope = credential_scope_json scope,
      ii_metadata = metadata, ii_expiresAt = map_option DateText (lr_expiresAt r), ii_ttlMs = lr_ttlMs r,
      ii_notAfter = Some (DateText (hg_expiresAt g)), ii_correlationId = Some (lr_correlationId r)\<rparr>"

section \<open>The lifecycle of grant-backed credentials\<close>

record auth_env =
  au_creds :: cred_env
  au_grants :: cred_env

record auth_state =
  as_creds :: cred_registry
  as_grants :: grant_registry

text \<open>The grant is validated without spending it, the issuance is prepared, the grant is spent, and the prepared issuance is made.
  Issuing and rotating share these steps.\<close>

definition grant_backed_issue ::
  "auth_env \<Rightarrow> auth_state \<Rightarrow> (nat \<Rightarrow> int) \<Rightarrow> lifecycle_request \<Rightarrow> cred_actor \<Rightarrow> json \<Rightarrow> string list \<Rightarrow> cred_scope \<Rightarrow> 8 word list \<Rightarrow>
   auth_state \<times> (auth_error + (public_grant \<times> string \<times> public_credential))" where
  "grant_backed_issue env st clock r actor metadata capabilities scope bytes =
     (case validateCliGatewayLifecycleGrant (au_grants env) (as_grants st) (clock 1) (clock 2) r False of
        (gs1, Inl e) \<Rightarrow> (st\<lparr>as_grants := gs1\<rparr>, Inl e)
      | (gs1, Inr preflight) \<Rightarrow>
        case prepareIssue (au_creds env) (as_creds st) (grantBackedCredentialIssueInput r preflight actor metadata capabilities scope)
            (clock 3) True of
          Inl e \<Rightarrow> (st\<lparr>as_grants := gs1\<rparr>, Inl (RegistryError e))
        | Inr (cs1, handle) \<Rightarrow>
          case validateCliGatewayLifecycleGrant (au_grants env) gs1 (clock 4) (clock 5) r True of
            (gs2, Inl e) \<Rightarrow> (\<lparr>as_creds = cs1, as_grants = gs2\<rparr>, Inl e)
          | (gs2, Inr grant) \<Rightarrow>
            case issuePrepared (au_creds env) cs1 handle bytes of
              Inl e \<Rightarrow> (\<lparr>as_creds = cs1, as_grants = gs2\<rparr>, Inl (RegistryError e))
            | Inr (cs2, token, c) \<Rightarrow> (\<lparr>as_creds = cs2, as_grants = gs2\<rparr>, Inr (grant, token, c)))"

definition issueCliGatewayActorCredentialWithGrant ::
  "auth_env \<Rightarrow> auth_state \<Rightarrow> (nat \<Rightarrow> int) \<Rightarrow> json \<Rightarrow> 8 word list \<Rightarrow> auth_state \<times> (auth_error + (string \<times> public_credential))" where
  "issueCliGatewayActorCredentialWithGrant env st clock body bytes =
     (case strictGrantLifecycleRequest body \<lparr>lo_ttlRequired = True, lo_existing = None\<rparr> (clock 0) of Inl e \<Rightarrow> (st, Inl e)
      | Inr r \<Rightarrow>
        case grant_backed_issue env st clock r (lr_actor r) (credentialIssueMetadata (fld body ''metadata'')) (lr_capabilities r)
            (lr_scope r) bytes of
          (st1, Inl e) \<Rightarrow> (st1, Inl e) | (st1, Inr (grant, token, c)) \<Rightarrow> (st1, Inr (token, c)))"

definition scopeDimensionIsAuthorized :: "string list option \<Rightarrow> string list option \<Rightarrow> bool" where
  "scopeDimensionIsAuthorized c r =
     (if \<not> some_list c then \<not> some_list r else if \<not> some_list r then False else set (list_of c) \<subseteq> set (list_of r))"

definition scopeIsAuthorizedByRequest :: "cred_scope \<Rightarrow> cred_scope \<Rightarrow> bool" where
  "scopeIsAuthorizedByRequest c r \<longleftrightarrow>
     scopeDimensionIsAuthorized (sp_nodeIds c) (sp_nodeIds r) \<and> scopeDimensionIsAuthorized (sp_sessionIds c) (sp_sessionIds r) \<and>
     scopeDimensionIsAuthorized (sp_globalSessionIds c) (sp_globalSessionIds r) \<and>
     scopeDimensionIsAuthorized (sp_workContextIds c) (sp_workContextIds r) \<and>
     scopeDimensionIsAuthorized (sp_channelIds c) (sp_channelIds r) \<and> scopeDimensionIsAuthorized (sp_repoIds c) (sp_repoIds r) \<and>
     scopeDimensionIsAuthorized (sp_pathPrefixes c) (sp_pathPrefixes r) \<and> scopeDimensionIsAuthorized (sp_taskRefs c) (sp_taskRefs r)"

definition credentialMatchesGrantLifecycleRequest :: "public_credential \<Rightarrow> lifecycle_request \<Rightarrow> bool" where
  "credentialMatchesGrantLifecycleRequest c r \<longleftrightarrow>
     cd_audience c = cli_audience \<and> act_type (cd_actor c) = act_type (lr_actor r) \<and> act_id (cd_actor c) = act_id (lr_actor r) \<and>
     set (cd_capabilities c) \<subseteq> set (lr_capabilities r) \<and> scopeIsAuthorizedByRequest (cd_scope c) (lr_scope r)"

definition listCliGatewayActorCredentialsWithGrant ::
  "auth_env \<Rightarrow> auth_state \<Rightarrow> (nat \<Rightarrow> int) \<Rightarrow> json \<Rightarrow> auth_state \<times> (auth_error + public_credential list)" where
  "listCliGatewayActorCredentialsWithGrant env st clock body =
     (case strictGrantLifecycleRequest body \<lparr>lo_ttlRequired = False, lo_existing = None\<rparr> (clock 0) of Inl e \<Rightarrow> (st, Inl e)
      | Inr r \<Rightarrow>
        case validateCliGatewayLifecycleGrant (au_grants env) (as_grants st) (clock 1) (clock 2) r True of
          (gs1, Inl e) \<Rightarrow> (st\<lparr>as_grants := gs1\<rparr>, Inl e)
        | (gs1, Inr _) \<Rightarrow> (st\<lparr>as_grants := gs1\<rparr>,
            Inr (filter (\<lambda>c. credentialMatchesGrantLifecycleRequest c r) (listCredentials (as_creds st)))))"

text \<open>\<open>String(v)\<close>\<close>

fun js_text :: "(js_number \<Rightarrow> string) \<Rightarrow> json \<Rightarrow> string" where
  "js_text numstr JUndef = ''undefined''"
| "js_text numstr JNull = ''null''"
| "js_text numstr (JBool b) = (if b then ''true'' else ''false'')"
| "js_text numstr (JNum n) = numstr n"
| "js_text numstr (JStr s) = s"
| "js_text numstr (JArr xs) = join_with '','' (map (\<lambda>v. if v = JUndef \<or> v = JNull then [] else js_text numstr v) xs)"
| "js_text numstr (JObj _) = ''[object Object]''"

definition revocation_reason :: "(js_number \<Rightarrow> string) \<Rightarrow> json \<Rightarrow> string option" where
  "revocation_reason numstr metadata =
     (if is_record metadata \<and> ''reason'' \<in> set (obj_keys metadata)
      then Some (js_text numstr (js_nullish (fld metadata ''reason'') (JStr []))) else None)"

definition revokeCliGatewayActorCredentialWithGrant ::
  "auth_env \<Rightarrow> auth_state \<Rightarrow> (nat \<Rightarrow> int) \<Rightarrow> string \<Rightarrow> json \<Rightarrow> auth_state \<times> (auth_error + public_credential)" where
  "revokeCliGatewayActorCredentialWithGrant env st clock credentialId body =
     (case getCredential (as_creds st) credentialId of None \<Rightarrow> (st, Inl (GrantError ArCredentialNotFound None))
      | Some existing \<Rightarrow>
        case strictGrantLifecycleRequest body \<lparr>lo_ttlRequired = False, lo_existing = Some existing\<rparr> (clock 0) of Inl e \<Rightarrow> (st, Inl e)
      | Inr r \<Rightarrow>
        case validateCliGatewayLifecycleGrant (au_grants env) (as_grants st) (clock 1) (clock 2) r True of
          (gs1, Inl e) \<Rightarrow> (st\<lparr>as_grants := gs1\<rparr>, Inl e)
        | (gs1, Inr grant) \<Rightarrow>
          case cred_revoke (au_creds env) (as_creds st) (clock 3) credentialId
              \<lparr>rv_revokedBy = ''grant:'' @ hg_id grant, rv_reason = revocation_reason (ce_numstr (au_creds env)) (fld body ''metadata''),
               rv_correlationId = Some (lr_correlationId r)\<rparr> of
            (cs1, None) \<Rightarrow> (\<lparr>as_creds = cs1, as_grants = gs1\<rparr>, Inl (GrantError ArCredentialNotFound (Some (hg_id grant))))
          | (cs1, Some c) \<Rightarrow> (\<lparr>as_creds = cs1, as_grants = gs1\<rparr>, Inr c))"

definition rotateCliGatewayActorCredentialWithGrant ::
  "auth_env \<Rightarrow> auth_state \<Rightarrow> (nat \<Rightarrow> int) \<Rightarrow> string \<Rightarrow> json \<Rightarrow> 8 word list \<Rightarrow>
   auth_state \<times> (auth_error + (string \<times> public_credential \<times> public_credential))" where
  "rotateCliGatewayActorCredentialWithGrant env st clock credentialId body bytes =
     (case getCredential (as_creds st) credentialId of None \<Rightarrow> (st, Inl (GrantError ArCredentialNotFound None))
      | Some existing \<Rightarrow>
        case strictGrantLifecycleRequest body \<lparr>lo_ttlRequired = True, lo_existing = Some existing\<rparr> (clock 0) of Inl e \<Rightarrow> (st, Inl e)
      | Inr r \<Rightarrow>
        case grant_backed_issue env st clock r (cd_actor existing) (credentialIssueMetadata (fld body ''metadata''))
            (cd_capabilities existing) (cd_scope existing) bytes of
          (st1, Inl e) \<Rightarrow> (st1, Inl e)
        | (st1, Inr (grant, token, c)) \<Rightarrow>
          case cred_revoke (au_creds env) (as_creds st1) (clock 6) credentialId
              \<lparr>rv_revokedBy = ''grant:'' @ hg_id grant, rv_reason = Some ''rotated by grant-backed lifecycle'',
               rv_correlationId = Some (lr_correlationId r)\<rparr> of
            (cs2, None) \<Rightarrow> (st1\<lparr>as_creds := cs2\<rparr>, Inl Disappeared)
          | (cs2, Some revoked) \<Rightarrow> (st1\<lparr>as_creds := cs2\<rparr>, Inr (token, c, revoked)))"

section \<open>Validating at the gateway\<close>

definition credentialNamedBy :: "cred_registry \<Rightarrow> string \<Rightarrow> public_credential option" where
  "credentialNamedBy st token =
     (case split_on CHR ''.'' token of [p, i, _] \<Rightarrow> if p \<noteq> token_prefix \<or> i = [] then None else getCredential st i | _ \<Rightarrow> None)"

definition withoutRequestedChannelScope :: "scope_request \<Rightarrow> scope_request" where
  "withoutRequestedChannelScope q = q\<lparr>rq_channelId := None, rq_channelIds := None\<rparr>"

record gateway_validation =
  gw_token :: string
  gw_capabilities :: "string list"
  gw_scope :: "cred_scope option"
  gw_deferWorkContextScope :: bool
  gw_correlationId :: "string option"

definition defers_channel_scope :: "public_credential option \<Rightarrow> bool" where
  "defers_channel_scope c \<longleftrightarrow> (isLocalHubCliActorCredential c \<and> \<not> names_channels c) \<or> credentialDefersChannelScopeToMembership c"

text \<open>The scope the registry is asked about: without the channels where the credential named by the token defers them, and with the
  read marker for a request that names no task.\<close>

definition gateway_scope :: "cred_registry \<Rightarrow> gateway_validation \<Rightarrow> scope_request" where
  "gateway_scope st v =
     (let requested = scopeForValidation (gw_scope v) (gw_deferWorkContextScope v) True;
          named = (if rq_channelId requested \<noteq> None \<or> rq_channelIds requested \<noteq> None then credentialNamedBy st (gw_token v) else None);
          q = (if defers_channel_scope named then withoutRequestedChannelScope requested else requested)
      in q\<lparr>rq_taskRef := nullish (rq_taskRef q) (Some read_scope_task_ref)\<rparr>)"

definition validateCliGatewayActorCredential ::
  "cred_env \<Rightarrow> cred_registry \<Rightarrow> int \<Rightarrow> gateway_validation \<Rightarrow> cred_registry \<times> cred_result" where
  "validateCliGatewayActorCredential env st now v =
     cred_validate env st now (gw_token v)
       \<lparr>vi_audience = cli_audience, vi_required = gw_capabilities v, vi_scope = Some (gateway_scope st v),
        vi_correlationId = truthy (gw_correlationId v)\<rparr>"

end
