(* ===== verification/Handshake_Safety.thy ===== *)
theory Handshake_Safety
  imports Handshake_Grants Credential_Covers Credential_Safety
begin

text \<open>
  The life of a handshake grant: its registry moves every grant along one lifecycle, a grant validates exactly while it is approved
  and unspent, it is spent once, and refusals are final.
\<close>

section \<open>Auditing leaves the grants alone\<close>

lemma append_grant_rest [simp]: "hr_grants (appendGrantEvent env st e k) = hr_grants st"
  by (simp add: appendGrantEvent_def Let_def)

lemma record_grant_rest [simp]: "hr_grants (recordGrantAudit env st n) = hr_grants st"
  by (simp add: recordGrantAudit_def Let_def)

lemma deny_validation_rest [simp]:
  "hr_grants (fst (denyValidation env st f i v d)) = hr_grants st" "snd (denyValidation env st f i v d) = GrantDenied f (truthy i) d"
  by (simp_all add: denyValidation_def Let_def)

lemma draw_rest: "draw_grant_id env a st = (x, st') \<Longrightarrow> hr_grants st' = hr_grants st"
  by (auto simp: draw_grant_id_def split: option.splits)

abbreviation grant_at :: "grant_registry \<Rightarrow> string \<Rightarrow> handshake_grant option" where
  "grant_at st i \<equiv> jm_get (hr_grants st) i"

lemma grant_at_put: "grant_at (put_grant st g) i = (if i = hg_id g then Some g else grant_at st i)"
  by (simp add: put_grant_def cred_map_set)

section \<open>What validation accepts\<close>

definition grant_live :: "cred_env \<Rightarrow> handshake_grant \<Rightarrow> int \<Rightarrow> bool" where
  "grant_live env g now \<longleftrightarrow> hg_status g \<noteq> GsRequested \<and> hg_status g \<noteq> GsDenied \<and> \<not> grant_expired env g now \<and>
     \<not> is_truthy (hg_revokedAt g) \<and> hg_status g \<noteq> GsRevoked \<and> \<not> is_truthy (hg_consumedAt g) \<and> hg_status g \<noteq> GsConsumed"

definition grant_fits :: "cred_env \<Rightarrow> handshake_grant \<Rightarrow> grant_validate \<Rightarrow> bool" where
  "grant_fits env g v \<longleftrightarrow> gx_audience v \<in> set grant_audiences \<and> hg_audience g = gx_audience v \<and>
     (case gx_actor v of None \<Rightarrow> True | Some a \<Rightarrow> actorMatches (hg_actor g) a) \<and>
     (case hg_device g of None \<Rightarrow> True | Some d \<Rightarrow> ce_sha env (or_value (gx_deviceId v) []) = gp_idHash d) \<and>
     sessionBindingMatches (hg_binding g) (gx_binding v) \<and>
     truthy (List.find (\<lambda>b. \<not> isRelayCapabilityBit (JStr b)) (gx_required v)) = None \<and>
     set (gx_required v) \<subseteq> set (hg_capabilities g) \<and> validateGrantScope (hg_scope g) (gx_scope v) = None"

lemma refusal_None: "grant_refusal env g now v = None \<longleftrightarrow> grant_live env g now \<and> grant_fits env g v"
proof -
  have actor: "(case gx_actor v of None \<Rightarrow> True | Some a \<Rightarrow> actorMatches (hg_actor g) a) \<longleftrightarrow>
      \<not> (case gx_actor v of None \<Rightarrow> False | Some a \<Rightarrow> \<not> actorMatches (hg_actor g) a)" by (simp split: option.split)
  have device: "(case hg_device g of None \<Rightarrow> True | Some d \<Rightarrow> ce_sha env (or_value (gx_deviceId v) []) = gp_idHash d) \<longleftrightarrow>
      \<not> (case hg_device g of None \<Rightarrow> False | Some d \<Rightarrow> ce_sha env (or_value (gx_deviceId v) []) \<noteq> gp_idHash d)" by (simp split: option.split)
  have caps: "set (gx_required v) \<subseteq> set (hg_capabilities g) \<longleftrightarrow> filter (\<lambda>b. b \<notin> set (hg_capabilities g)) (gx_required v) = []"
    by (auto simp: filter_empty_conv)
  show ?thesis
    unfolding grant_fits_def grant_live_def actor device caps grant_refusal_def Let_def
    by (cases "truthy (List.find (\<lambda>b. \<not> isRelayCapabilityBit (JStr b)) (gx_required v))") (simp_all split: if_split)
qed

lemma validate_granted:
  assumes "parseHandshakeGrantHandle handle = Some (i, secret)" and "grant_at st i = Some g" and "hg_handleHash g = Some (ce_sha env secret)"
    and "grant_refusal env g now v = None"
  shows "hr_grants (fst (grant_validate_op env st now handle v)) = hr_grants (put_grant st (spend env now v g)) \<and>
    snd (grant_validate_op env st now handle v) = GrantOk (publicGrant (spend env now v g)) (gx_required v) (consumes v)"
  using assms by (simp add: grant_validate_op_def Let_def)

lemma validate_refused:
  assumes "parseHandshakeGrantHandle handle = Some (i, secret)" and "grant_at st i = Some g" and "hg_handleHash g = Some (ce_sha env secret)"
    and "grant_refusal env g now v = Some (f, bits)"
  shows "hr_grants (fst (grant_validate_op env st now handle v)) =
      (if f = GfExpired then hr_grants (put_grant st (g\<lparr>hg_status := GsExpired\<rparr>)) else hr_grants st) \<and>
    snd (grant_validate_op env st now handle v) = GrantDenied f (truthy (Some (hg_id g))) bits"
  using assms by (simp add: grant_validate_op_def)

lemma validate_unknown:
  assumes "\<not> (\<exists>i secret g. parseHandshakeGrantHandle handle = Some (i, secret) \<and> grant_at st i = Some g \<and>
    hg_handleHash g = Some (ce_sha env secret))"
  shows "hr_grants (fst (grant_validate_op env st now handle v)) = hr_grants st \<and>
    (\<exists>f i. snd (grant_validate_op env st now handle v) = GrantDenied f i [])"
  using assms by (auto simp: grant_validate_op_def split: option.split)

lemma grant_ok_iff:
  "snd (grant_validate_op env st now handle v) = GrantOk p bits spent \<longleftrightarrow>
    (\<exists>i secret g. parseHandshakeGrantHandle handle = Some (i, secret) \<and> grant_at st i = Some g \<and> hg_handleHash g = Some (ce_sha env secret) \<and>
       grant_live env g now \<and> grant_fits env g v \<and> p = publicGrant (spend env now v g) \<and> bits = gx_required v \<and> spent = consumes v)"
proof (cases "\<exists>i secret g. parseHandshakeGrantHandle handle = Some (i, secret) \<and> grant_at st i = Some g \<and> hg_handleHash g = Some (ce_sha env secret)")
  case True
  then obtain i secret g where h: "parseHandshakeGrantHandle handle = Some (i, secret)" "grant_at st i = Some g"
    "hg_handleHash g = Some (ce_sha env secret)" by blast
  show ?thesis
  proof (cases "grant_refusal env g now v")
    case None
    with validate_granted [OF h None] refusal_None [of env g now v] h show ?thesis by auto
  next
    case (Some f)
    with validate_refused [OF h, of now v "fst f" "snd f"] refusal_None [of env g now v] h show ?thesis by auto
  qed
next
  case False
  with validate_unknown [OF False, of now v] show ?thesis by auto
qed

section \<open>The lifecycle\<close>

text \<open>What can happen to a grant: it is approved, with evidence where it is high-risk, refused, spent, found expired, or revoked.\<close>

inductive lifecycle :: "cred_env \<Rightarrow> handshake_grant \<Rightarrow> handshake_grant \<Rightarrow> bool" for env where
  stays: "lifecycle env g g"
| approved: "hg_status g = GsRequested \<Longrightarrow>
    \<not> (requiresHighRiskApproval g \<and> normalizeHighRiskApprovalEvidence evidence = None) \<Longrightarrow>
    lifecycle env g (g\<lparr>hg_handleHash := Some h, hg_status := GsApproved, hg_approvedAt := Some (ce_toIso env t), hg_approvedByHash := Some b,
      hg_highRiskApproval := (if js_truthy evidence then evidence else hg_highRiskApproval g)\<rparr>)"
| refused: "hg_status g = GsRequested \<Longrightarrow>
    lifecycle env g (g\<lparr>hg_status := GsDenied, hg_deniedAt := a, hg_deniedByHash := b, hg_deniedReason := r\<rparr>)"
| spent: "hg_handleHash g \<noteq> None \<Longrightarrow> grant_live env g t \<Longrightarrow>
    lifecycle env g (g\<lparr>hg_status := GsConsumed, hg_consumedAt := Some (ce_toIso env t), hg_consumedBy := b\<rparr>)"
| lapsed: "hg_handleHash g \<noteq> None \<Longrightarrow> grant_expired env g t \<Longrightarrow> lifecycle env g (g\<lparr>hg_status := GsExpired\<rparr>)"
| withdrawn: "lifecycle env g (g\<lparr>hg_status := GsRevoked, hg_revokedAt := Some (ce_toIso env t), hg_revokedByHash := b, hg_revocationReason := r\<rparr>)"

datatype grant_op =
    GoRequest int grant_request
  | GoApprove int string approve_input "8 word list"
  | GoDeny int string decision_input
  | GoRevoke int string decision_input
  | GoValidate int string grant_validate

fun grant_step :: "cred_env \<Rightarrow> grant_registry \<Rightarrow> grant_op \<Rightarrow> grant_registry" where
  "grant_step env st (GoRequest now i) = (case grant_request_op env st now i of Inl _ \<Rightarrow> st | Inr x \<Rightarrow> fst x)"
| "grant_step env st (GoApprove now i a bytes) = fst (grant_approve env st now i a bytes)"
| "grant_step env st (GoDeny now i d) = fst (grant_deny env st now i d)"
| "grant_step env st (GoRevoke now i d) = fst (grant_revoke env st now i d)"
| "grant_step env st (GoValidate now handle v) = fst (grant_validate_op env st now handle v)"

text \<open>A stored scope lists trimmed values only.\<close>

definition scope_dimensions :: "cred_scope \<Rightarrow> string list option list" where
  "scope_dimensions s = [sp_nodeIds s, sp_sessionIds s, sp_globalSessionIds s, sp_workContextIds s, sp_channelIds s, sp_repoIds s,
     sp_pathPrefixes s, sp_taskRefs s]"

definition scope_trimmed :: "cred_scope \<Rightarrow> bool" where
  "scope_trimmed s \<longleftrightarrow> (\<forall>d\<in>set (scope_dimensions s). \<forall>x\<in>set (list_of d). trim x = x \<and> x \<noteq> [])"

definition text_values :: "json \<Rightarrow> string set" where
  "text_values v = {trim s | s. JStr s \<in> set (elements v) \<and> trim s \<noteq> []}"

lemma normalized_values: "set (normalizeStringList v) = text_values v"
proof -
  have add: "set (add_text acc v) = set acc \<union> {trim s | s. JStr s = v \<and> trim s \<noteq> []}" for acc v
    by (cases v) (auto simp: add_text_def)
  have "set (foldl add_text acc xs) = set acc \<union> {trim s | s. JStr s \<in> set xs \<and> trim s \<noteq> []}" for acc xs
    by (induction xs arbitrary: acc) (auto simp: add)
  then show ?thesis by (cases v) (auto simp: normalizeStringList_def text_values_def elements_def)
qed

lemma dimension_values: "set (list_of (scope_dimension v)) = text_values v"
  using normalized_values [of v] by (auto simp: scope_dimension_def list_of_def Let_def)

lemma normalized_trimmed: "normalizeCredentialScope v = Inr s \<Longrightarrow> scope_trimmed s"
  by (auto simp: normalizeCredentialScope_def Let_def scope_trimmed_def scope_dimensions_def dimension_values text_values_def
      split: if_split_asm)

text \<open>What a request puts into the registry.\<close>

definition newly_requested :: "cred_env \<Rightarrow> handshake_grant \<Rightarrow> bool" where
  "newly_requested env g \<longleftrightarrow> hg_status g = GsRequested \<and> hg_handleHash g = None \<and> hg_revokedAt g = None \<and> hg_consumedAt g = None \<and>
     act_type (hg_actor g) \<in> set grant_actor_types \<and> hg_audience g \<in> set grant_audiences \<and>
     set (hg_capabilities g) \<subseteq> set relay_capability_bits \<and> scope_normal (hg_scope g) \<and> scope_trimmed (hg_scope g) \<and>
     hg_expiresAt g \<in> range (ce_toIso env)"

definition grants_inv :: "grant_registry \<Rightarrow> bool" where
  "grants_inv st \<longleftrightarrow> (\<forall>i g. grant_at st i = Some g \<longrightarrow> hg_id g = i)"

text \<open>A step moves every grant along its lifecycle, and whatever appears is a new request.\<close>

definition moves :: "cred_env \<Rightarrow> grant_registry \<Rightarrow> grant_registry \<Rightarrow> bool" where
  "moves env st st' \<longleftrightarrow> (\<forall>i g. grant_at st i = Some g \<longrightarrow> (\<exists>g'. grant_at st' i = Some g' \<and> lifecycle env g g' \<and> hg_id g' = i)) \<and>
     (\<forall>i g'. grant_at st i = None \<longrightarrow> grant_at st' i = Some g' \<longrightarrow> newly_requested env g' \<and> hg_id g' = i)"

lemma moves_same: "grants_inv st \<Longrightarrow> hr_grants st' = hr_grants st \<Longrightarrow> moves env st st'"
  by (auto simp: moves_def grants_inv_def intro: lifecycle.stays)

lemma moves_put: "grants_inv st \<Longrightarrow> grant_at st i = Some g \<Longrightarrow> lifecycle env g g' \<Longrightarrow> hg_id g' = hg_id g \<Longrightarrow>
    hr_grants st' = hr_grants (put_grant st g') \<Longrightarrow> moves env st st'"
  unfolding moves_def grants_inv_def by (auto simp: put_grant_def cred_map_set intro: lifecycle.stays)


lemma request_step:
  assumes "grant_request_op env st now i = Inr (st', p)"
  obtains g where "hr_grants st' = jm_set (hr_grants st) (hg_id g) g" "grant_at st (hg_id g) = None" "newly_requested env g" "p = publicGrant g"
    "hg_actor g = (gr_actor i)\<lparr>act_label := truthy (act_label (gr_actor i))\<rparr>" "hg_audience g = gr_audience i"
    "hg_highRiskApproval g = JUndef"
proof -
  note unfold = grant_request_op_def
  from assms have ok: "act_type (gr_actor i) \<in> set grant_actor_types" "gr_audience i \<in> set grant_audiences"
    by (simp_all add: unfold split: if_split_asm)
  from assms obtain caps where caps: "normalizeGrantCapabilities (gr_capabilities i) = Inr caps"
    by (cases "normalizeGrantCapabilities (gr_capabilities i)") (simp_all add: unfold ok)
  from assms obtain scope where scope: "normalizeGrantScope (gr_scope i) = Inr scope"
    by (cases "normalizeGrantScope (gr_scope i)") (simp_all add: unfold ok caps)
  from assms obtain t where t: "resolveGrantExpiry env i now = Inr t"
    by (cases "resolveGrantExpiry env i now") (simp_all add: unfold ok caps scope)
  obtain n st1 where d1: "draw_grant_id env (gr_id i) st = (n, st1)" by force
  obtain k st2 where d2: "draw_grant_id env (gr_correlationId i) st1 = (k, st2)" by force
  have rest: "hr_grants st1 = hr_grants st" "hr_grants st2 = hr_grants st" using draw_rest [OF d1] draw_rest [OF d2] by simp_all
  have fresh: "grant_at st n = None" using assms by (simp add: unfold ok caps scope t d1 rest split: if_split_asm)
  have c: "set caps \<subseteq> set relay_capability_bits" using caps normalized_capabilities by (simp add: normalizeGrantCapabilities_def split: sum.split_asm)
  have s: "scope_normal scope" "scope_trimmed scope"
    using scope normalized_scope normalized_trimmed by (simp_all add: normalizeGrantScope_def split: sum.split_asm)
  define g where "g = requested_grant env now i n caps scope t k"
  have out: "hr_grants st' = hr_grants (put_grant st2 g)" "p = publicGrant g"
    using assms fresh by (auto simp: unfold ok caps scope t d1 d2 rest Let_def g_def)
  show thesis
    by (rule that [of g]) (use out fresh c s ok in \<open>simp_all add: g_def requested_grant_def put_grant_def rest newly_requested_def\<close>)
qed


lemma approve_moves:
  assumes "grants_inv st"
  shows "moves env st (fst (grant_approve env st now i a bytes))"
proof (cases "grant_at st i")
  case None
  then show ?thesis using assms by (simp add: grant_approve_def moves_same)
next
  case (Some g)
  consider (late) "hg_status g \<noteq> GsRequested"
    | (bare) "hg_status g = GsRequested" "requiresHighRiskApproval g \<and> normalizeHighRiskApprovalEvidence (ap_highRiskApproval a) = None"
    | (fine) "hg_status g = GsRequested" "\<not> (requiresHighRiskApproval g \<and> normalizeHighRiskApprovalEvidence (ap_highRiskApproval a) = None)"
    by blast
  then show ?thesis
  proof cases
    case late
    with Some show ?thesis using assms by (simp add: grant_approve_def moves_same)
  next
    case bare
    show ?thesis
      by (rule moves_put [OF assms Some lifecycle.refused [OF bare(1)]])
        (use bare Some in \<open>simp_all add: grant_approve_def Let_def\<close>)
  next
    case fine
    then have e: "(requiresHighRiskApproval g \<and> normalizeHighRiskApprovalEvidence (ap_highRiskApproval a) = None) = False" by blast
    show ?thesis
      by (rule moves_put [OF assms Some lifecycle.approved [OF fine, where env = env and h = "ce_sha env (to_hex bytes)" and t = now
            and b = "ce_sha env (iss_id (ap_approvedBy a))"]])
        (use fine(1) Some in \<open>simp_all add: grant_approve_def Let_def e del: not_None_eq\<close>)
  qed
qed

lemma deny_moves: "grants_inv st \<Longrightarrow> moves env st (fst (grant_deny env st now i d))"
proof (cases "grant_at st i")
  case (Some g)
  assume inv: "grants_inv st"
  show ?thesis
  proof (cases "hg_status g = GsRequested")
    case True
    show ?thesis
      by (rule moves_put [OF inv Some lifecycle.refused [OF True]]) (use True Some in \<open>simp_all add: grant_deny_def Let_def\<close>)
  qed (use Some inv in \<open>simp add: grant_deny_def moves_same\<close>)
qed (simp add: grant_deny_def moves_same)

lemma revoke_moves: "grants_inv st \<Longrightarrow> moves env st (fst (grant_revoke env st now i d))"
proof (cases "grant_at st i")
  case (Some g)
  assume inv: "grants_inv st"
  show ?thesis
    by (rule moves_put [OF inv Some lifecycle.withdrawn]) (use Some in \<open>simp_all add: grant_revoke_def Let_def\<close>)
qed (simp add: grant_revoke_def moves_same)

lemma rules_wrong: "check_grant_rules rs = Some f \<Longrightarrow> f \<in> ru_wrong ` set rs"
  by (induction rs) (auto split: option.splits if_splits)

lemma scope_not_expired: "validateGrantScope s q \<noteq> Some GfExpired"
proof
  assume "validateGrantScope s q = Some GfExpired"
  then have "check_grant_rules (grant_rules s (case q of None \<Rightarrow> no_request | Some q \<Rightarrow> q)) = Some GfExpired"
    by (simp add: validateGrantScope_def Let_def split: option.splits if_splits)
  from rules_wrong [OF this] show False by (simp add: grant_rules_def grant_rule_of_def)
qed

lemma refusal_expired: "grant_refusal env g now v = Some (GfExpired, bits) \<Longrightarrow> grant_expired env g now"
  using scope_not_expired [of "hg_scope g" "gx_scope v"]
  by (cases "validateGrantScope (hg_scope g) (gx_scope v)") (simp_all add: grant_refusal_def Let_def split: if_split_asm option.split_asm)

lemma validate_moves: "grants_inv st \<Longrightarrow> moves env st (fst (grant_validate_op env st now handle v))"
proof -
  assume inv: "grants_inv st"
  show ?thesis
  proof (cases "\<exists>i secret g. parseHandshakeGrantHandle handle = Some (i, secret) \<and> grant_at st i = Some g \<and> hg_handleHash g = Some (ce_sha env secret)")
    case True
    then obtain i secret g where h: "parseHandshakeGrantHandle handle = Some (i, secret)" "grant_at st i = Some g"
      "hg_handleHash g = Some (ce_sha env secret)" by blast
    then have some: "hg_handleHash g \<noteq> None" by simp
    show ?thesis
    proof (cases "grant_refusal env g now v")
      case None
      then have live: "grant_live env g now" by (simp add: refusal_None)
      have "lifecycle env g (spend env now v g)"
        by (simp add: spend_def lifecycle.spent [OF some live] lifecycle.stays)
      then show ?thesis
        by (rule moves_put [OF inv h(2)]) (use validate_granted [OF h None] in \<open>simp_all add: spend_def\<close>)
    next
      case (Some r)
      obtain f bits where r: "r = (f, bits)" by force
      note out = validate_refused [OF h Some [unfolded r]]
      show ?thesis
      proof (cases "f = GfExpired")
        case True
        with Some r refusal_expired have "grant_expired env g now" by blast
        from lifecycle.lapsed [OF some this] show ?thesis
          by (rule moves_put [OF inv h(2)]) (use out True in simp_all)
      qed (use out inv moves_same in simp)
    qed
  qed (use inv validate_unknown moves_same in blast)
qed

lemma request_moves: "grants_inv st \<Longrightarrow> moves env st (grant_step env st (GoRequest now i))"
proof (cases "grant_request_op env st now i")
  case (Inr x)
  assume inv: "grants_inv st"
  obtain st' p where x: "x = (st', p)" by force
  from Inr x obtain g where g: "hr_grants st' = jm_set (hr_grants st) (hg_id g) g" "grant_at st (hg_id g) = None" "newly_requested env g"
    by (auto elim: request_step)
  then have "grant_at st' j = (if j = hg_id g then Some g else grant_at st j)" for j by (simp add: cred_map_set)
  with g inv show ?thesis by (auto simp: moves_def grants_inv_def Inr x intro: lifecycle.stays)
qed (simp add: moves_same)

lemma step_moves: "grants_inv st \<Longrightarrow> moves env st (grant_step env st op)"
  using request_moves by (cases op) (simp_all add: approve_moves deny_moves revoke_moves validate_moves)

section \<open>The invariant\<close>

definition grant_wf :: "handshake_grant \<Rightarrow> bool" where
  "grant_wf g \<longleftrightarrow> (hg_status g \<in> {GsRequested, GsDenied} \<longrightarrow> hg_handleHash g = None) \<and>
     (hg_handleHash g \<noteq> None \<and> requiresHighRiskApproval g \<longrightarrow> normalizeHighRiskApprovalEvidence (hg_highRiskApproval g) \<noteq> None) \<and>
     (hg_status g = GsRevoked \<longrightarrow> is_truthy (hg_revokedAt g)) \<and> (hg_status g = GsConsumed \<longrightarrow> is_truthy (hg_consumedAt g)) \<and>
     act_type (hg_actor g) \<in> set grant_actor_types \<and> hg_audience g \<in> set grant_audiences \<and>
     set (hg_capabilities g) \<subseteq> set relay_capability_bits \<and> scope_normal (hg_scope g) \<and> scope_trimmed (hg_scope g) \<and>
     hg_expiresAt g \<noteq> []"

definition grants_ok :: "grant_registry \<Rightarrow> bool" where
  "grants_ok st \<longleftrightarrow> (\<forall>i g. grant_at st i = Some g \<longrightarrow> hg_id g = i \<and> grant_wf g)"

lemma ok_inv: "grants_ok st \<Longrightarrow> grants_inv st"
  by (simp add: grants_ok_def grants_inv_def)

lemma evidence_truthy: "normalizeHighRiskApprovalEvidence e \<noteq> None \<Longrightarrow> js_truthy e"
  by (cases e) (simp_all add: normalizeHighRiskApprovalEvidence_def is_record_def)

lemma high_risk_same [simp]:
  "requiresHighRiskApproval (g\<lparr>hg_handleHash := h, hg_status := s, hg_approvedAt := a, hg_approvedByHash := b, hg_highRiskApproval := e\<rparr>) = requiresHighRiskApproval g"
  "requiresHighRiskApproval (g\<lparr>hg_status := s\<rparr>) = requiresHighRiskApproval g"
  "requiresHighRiskApproval (g\<lparr>hg_status := s, hg_consumedAt := a, hg_consumedBy := b\<rparr>) = requiresHighRiskApproval g"
  "requiresHighRiskApproval (g\<lparr>hg_status := s, hg_revokedAt := a, hg_revokedByHash := b, hg_revocationReason := r\<rparr>) = requiresHighRiskApproval g"
  by (simp_all add: requiresHighRiskApproval_def)

lemma lifecycle_wf: "lifecycle env g g' \<Longrightarrow> iso_printed env \<Longrightarrow> grant_wf g \<Longrightarrow> grant_wf g'"
proof (induction rule: lifecycle.induct)
  case (approved g evidence h t b)
  then show ?case using evidence_truthy [of evidence] by (auto simp: grant_wf_def)
qed (auto simp: grant_wf_def iso_printed_def is_truthy_def truthy_def)

lemma moves_ok: "moves env st st' \<Longrightarrow> iso_printed env \<Longrightarrow> grants_ok st \<Longrightarrow> grants_ok st'"
proof -
  assume m: "moves env st st'" and iso: "iso_printed env" and ok: "grants_ok st"
  have "hg_id g' = i \<and> grant_wf g'" if g': "grant_at st' i = Some g'" for i g'
  proof (cases "grant_at st i")
    case None
    with m g' have "newly_requested env g'" "hg_id g' = i" by (auto simp: moves_def)
    moreover from this obtain t where "hg_expiresAt g' = ce_toIso env t" by (auto simp: newly_requested_def)
    ultimately show ?thesis using iso by (simp add: newly_requested_def grant_wf_def iso_printed_def)
  next
    case (Some g)
    with m g' have "lifecycle env g g'" "hg_id g' = i" by (fastforce simp: moves_def)+
    with lifecycle_wf iso ok Some show ?thesis by (auto simp: grants_ok_def)
  qed
  then show ?thesis by (simp add: grants_ok_def)
qed

lemma empty_grants_ok: "grants_ok empty_grants"
  by (simp add: grants_ok_def empty_grants_def jm_get_def)


interpretation grant_machine: state_machine "grant_step env" "\<lambda>_ _. True" "\<lambda>st. iso_printed env \<longrightarrow> grants_ok st" for env
  by unfold_locales (blast intro: moves_ok step_moves ok_inv)

lemma run_grants_ok: "iso_printed env \<Longrightarrow> grants_ok st \<Longrightarrow> grants_ok (run (grant_step env) st ops)"
  using grant_machine.run_inv [of env st ops] by simp

section \<open>A grant that is closed stays closed\<close>

definition grant_closed :: "handshake_grant \<Rightarrow> bool" where
  "grant_closed g \<longleftrightarrow> is_truthy (hg_revokedAt g) \<or> is_truthy (hg_consumedAt g) \<or> (hg_handleHash g = None \<and> hg_status g \<noteq> GsRequested)"

lemma lifecycle_closed: "lifecycle env g g' \<Longrightarrow> iso_printed env \<Longrightarrow> grant_closed g \<Longrightarrow> grant_closed g'"
  by (induction rule: lifecycle.induct) (auto simp: grant_closed_def iso_printed_def is_truthy_def truthy_def)

definition closed_at :: "grant_registry \<Rightarrow> string \<Rightarrow> bool" where
  "closed_at st i \<longleftrightarrow> (\<exists>g. grant_at st i = Some g \<and> grant_closed g)"

lemma moves_closed: "moves env st st' \<Longrightarrow> iso_printed env \<Longrightarrow> closed_at st i \<Longrightarrow> closed_at st' i"
  unfolding moves_def closed_at_def using lifecycle_closed by blast

lemma run_closed: "iso_printed env \<Longrightarrow> grants_ok st \<Longrightarrow> closed_at st i \<Longrightarrow> closed_at (run (grant_step env) st ops) i"
proof (induction ops arbitrary: st)
  case (Cons op ops)
  have m: "moves env st (grant_step env st op)" using step_moves ok_inv Cons.prems by blast
  from Cons.IH [OF Cons.prems(1) moves_ok [OF m] moves_closed [OF m]] Cons.prems show ?case by simp
qed simp

lemma closed_refuses:
  assumes "grants_ok st" and "closed_at st i"
  shows "\<not> (\<exists>p bits spent. snd (grant_validate_op env st now handle v) = GrantOk p bits spent \<and> hg_id p = i)"
proof
  assume "\<exists>p bits spent. snd (grant_validate_op env st now handle v) = GrantOk p bits spent \<and> hg_id p = i"
  then obtain j secret g where g: "grant_at st j = Some g" "hg_handleHash g = Some (ce_sha env secret)" "grant_live env g now"
    "hg_id (publicGrant (spend env now v g)) = i" by (auto simp: grant_ok_iff)
  then have "j = i" using assms(1) by (auto simp: grants_ok_def public_grant.truncate_def spend_def split: if_split_asm)
  with assms g show False by (auto simp: closed_at_def grant_closed_def grant_live_def)
qed


section \<open>Where a usable grant comes from\<close>

text \<open>The approval that gave a grant its handle.\<close>

definition approves :: "cred_env \<Rightarrow> handshake_grant \<Rightarrow> grant_op \<Rightarrow> bool" where
  "approves env g op \<longleftrightarrow> (case op of
     GoApprove now i a bytes \<Rightarrow> i = hg_id g \<and> hg_handleHash g = Some (ce_sha env (to_hex bytes)) \<and>
       (requiresHighRiskApproval g \<longrightarrow> normalizeHighRiskApprovalEvidence (ap_highRiskApproval a) \<noteq> None)
   | _ \<Rightarrow> False)"

definition handles_explained :: "cred_env \<Rightarrow> grant_op list \<Rightarrow> grant_registry \<Rightarrow> bool" where
  "handles_explained env ops st \<longleftrightarrow>
     (\<forall>i g. grant_at st i = Some g \<longrightarrow> hg_handleHash g \<noteq> None \<longrightarrow> (\<exists>op\<in>set ops. approves env g op))"

lemma approves_same: "hg_id g' = hg_id g \<Longrightarrow> hg_handleHash g' = hg_handleHash g \<Longrightarrow> hg_capabilities g' = hg_capabilities g \<Longrightarrow>
    approves env g' op = approves env g op"
  by (simp add: approves_def requiresHighRiskApproval_def split: grant_op.split)

text \<open>Every step keeps what a handle was given for, apart from the approval itself.\<close>

definition keeps_handle :: "handshake_grant \<Rightarrow> handshake_grant \<Rightarrow> bool" where
  "keeps_handle g g' \<longleftrightarrow> hg_id g' = hg_id g \<and> hg_handleHash g' = hg_handleHash g \<and> hg_capabilities g' = hg_capabilities g"

lemma keeps_refl [simp]: "keeps_handle g g"
  by (simp add: keeps_handle_def)

lemma keeps_denied: "keeps_handle g (g\<lparr>hg_status := s, hg_deniedAt := a, hg_deniedByHash := b, hg_deniedReason := r\<rparr>)"
  by (simp add: keeps_handle_def)

lemma keeps_revoked: "keeps_handle g (g\<lparr>hg_status := s, hg_revokedAt := a, hg_revokedByHash := b, hg_revocationReason := r\<rparr>)"
  by (simp add: keeps_handle_def)

lemma put_keeps:
  "grants_inv st \<Longrightarrow> grant_at st j = Some x \<Longrightarrow> keeps_handle x x' \<Longrightarrow> grant_at (put_grant st x') i = Some g' \<Longrightarrow>
    \<exists>g. grant_at st i = Some g \<and> keeps_handle g g'"
  by (auto simp: grant_at_put grants_inv_def keeps_handle_def split: if_split_asm)

lemma approve_handle:
  assumes inv: "grants_inv st" and "grant_at (fst (grant_approve env st now j a bytes)) i = Some g'" and "hg_handleHash g' \<noteq> None"
  shows "approves env g' (GoApprove now j a bytes) \<or> (\<exists>g. grant_at st i = Some g \<and> keeps_handle g g')"
proof (cases "grant_at st j")
  case (Some x)
  then have j: "hg_id x = j" using inv by (simp add: grants_inv_def)
  consider (late) "hg_status x \<noteq> GsRequested"
    | (bare) "hg_status x = GsRequested" "requiresHighRiskApproval x \<and> normalizeHighRiskApprovalEvidence (ap_highRiskApproval a) = None"
    | (fine) "hg_status x = GsRequested" "\<not> (requiresHighRiskApproval x \<and> normalizeHighRiskApprovalEvidence (ap_highRiskApproval a) = None)"
    by blast
  then show ?thesis
  proof cases
    case late
    with Some assms show ?thesis by (simp add: grant_approve_def)
  next
    case bare
    with Some assms(2) show ?thesis by (auto simp: grant_approve_def Let_def dest: put_keeps [OF inv Some keeps_denied])
  next
    case fine
    then have e: "(requiresHighRiskApproval x \<and> normalizeHighRiskApprovalEvidence (ap_highRiskApproval a) = None) = False" by blast
    show ?thesis
    proof (cases "i = j")
      case True
      with Some assms(2) fine(1) e j have "g' = x\<lparr>hg_handleHash := Some (ce_sha env (to_hex bytes)), hg_status := GsApproved,
          hg_approvedAt := Some (ce_toIso env now), hg_approvedByHash := Some (ce_sha env (iss_id (ap_approvedBy a))),
          hg_highRiskApproval := (if js_truthy (ap_highRiskApproval a) then ap_highRiskApproval a else hg_highRiskApproval x)\<rparr>"
        by (simp add: grant_approve_def Let_def grant_at_put)
      with fine(2) j show ?thesis by (simp add: approves_def)
    next
      case False
      with Some assms(2) fine(1) e j show ?thesis by (simp add: grant_approve_def Let_def grant_at_put)
    qed
  qed
qed (use assms in \<open>simp add: grant_approve_def\<close>)

lemma step_handle:
  assumes inv: "grants_inv st" and "grant_at (grant_step env st op) i = Some g'" and "hg_handleHash g' \<noteq> None"
  shows "approves env g' op \<or> (\<exists>g. grant_at st i = Some g \<and> keeps_handle g g')"
proof (cases op)
  case (GoApprove now j a bytes)
  with approve_handle [OF inv, of env now j a bytes i g'] assms(2,3) show ?thesis by simp
next
  case (GoRequest now r)
  with assms show ?thesis
    by (cases "grant_request_op env st now r") (auto simp: cred_map_set newly_requested_def split: if_split_asm elim!: request_step)
next
  case (GoDeny now j d)
  show ?thesis
  proof (cases "grant_at st j")
    case (Some x)
    show ?thesis
    proof (cases "hg_status x = GsRequested")
      case True
      with Some GoDeny assms(2) show ?thesis by (auto simp: grant_deny_def Let_def dest: put_keeps [OF inv Some keeps_denied])
    qed (use GoDeny Some assms(2) in \<open>simp add: grant_deny_def\<close>)
  qed (use GoDeny assms(2) in \<open>simp add: grant_deny_def\<close>)
next
  case (GoRevoke now j d)
  show ?thesis
  proof (cases "grant_at st j")
    case (Some x)
    with GoRevoke assms(2) show ?thesis by (auto simp: grant_revoke_def Let_def dest: put_keeps [OF inv Some keeps_revoked])
  qed (use GoRevoke assms(2) in \<open>simp add: grant_revoke_def\<close>)
next
  case (GoValidate now handle v)
  show ?thesis
  proof (cases "\<exists>k secret x. parseHandshakeGrantHandle handle = Some (k, secret) \<and> grant_at st k = Some x \<and> hg_handleHash x = Some (ce_sha env secret)")
    case True
    then obtain k secret x where h: "parseHandshakeGrantHandle handle = Some (k, secret)" "grant_at st k = Some x"
      "hg_handleHash x = Some (ce_sha env secret)" by blast
    have spends: "keeps_handle x (spend env now v x)" "keeps_handle x (x\<lparr>hg_status := GsExpired\<rparr>)" by (simp_all add: spend_def keeps_handle_def)
    show ?thesis
    proof (cases "grant_refusal env x now v")
      case None
      with validate_granted [OF h None] GoValidate assms(2) put_keeps [OF inv h(2) spends(1)] show ?thesis by simp
    next
      case (Some r)
      obtain f bits where r: "r = (f, bits)" by force
      from validate_refused [OF h Some [unfolded r]] GoValidate assms(2) put_keeps [OF inv h(2) spends(2)] show ?thesis
        by (simp split: if_split_asm)
    qed
  qed (use validate_unknown [of handle st env now v] GoValidate assms(2) in auto)
qed


lemma step_explained: "grants_inv st \<Longrightarrow> handles_explained env ops st \<Longrightarrow> handles_explained env (ops @ [op]) (grant_step env st op)"
  unfolding handles_explained_def
proof (intro allI impI)
  fix i g' assume inv: "grants_inv st" and ih: "\<forall>i g. grant_at st i = Some g \<longrightarrow> hg_handleHash g \<noteq> None \<longrightarrow> (\<exists>op\<in>set ops. approves env g op)"
    and g': "grant_at (grant_step env st op) i = Some g'" "hg_handleHash g' \<noteq> None"
  from step_handle [OF inv g'] show "\<exists>op\<in>set (ops @ [op]). approves env g' op"
  proof
    assume "\<exists>g. grant_at st i = Some g \<and> keeps_handle g g'"
    then obtain g where g: "grant_at st i = Some g" "keeps_handle g g'" by blast
    with g'(2) ih obtain o' where "o' \<in> set ops" "approves env g o'" by (fastforce simp: keeps_handle_def)
    with g(2) approves_same [of g' g env o'] show ?thesis by (auto simp: keeps_handle_def)
  qed simp
qed

lemma run_explained: "iso_printed env \<Longrightarrow> handles_explained env ops (run (grant_step env) empty_grants ops)"
proof (induction ops rule: rev_induct)
  case Nil
  then show ?case by (simp add: handles_explained_def empty_grants_def jm_get_def)
next
  case (snoc op ops)
  have "grants_inv (run (grant_step env) empty_grants ops)" using run_grants_ok [OF snoc.prems empty_grants_ok] ok_inv by blast
  from step_explained [OF this snoc.IH [OF snoc.prems]] show ?case by (simp add: run_append)
qed

section \<open>Scopes\<close>

definition grant_covers :: "cred_scope \<Rightarrow> scope_request \<Rightarrow> bool" where
  "grant_covers s q \<longleftrightarrow>
     dimension_covers (sp_nodeIds s) (rq_nodeId q) \<and> dimension_covers (sp_sessionIds s) (rq_sessionId q) \<and>
     dimension_covers (sp_globalSessionIds s) (rq_globalSessionId q) \<and> dimension_covers (sp_workContextIds s) (rq_workContextId q) \<and>
     (case sp_channelIds s of None \<Rightarrow> True
      | Some xs \<Rightarrow> (let wanted = list_of (rq_channelIds q) @ list_of (map_option (\<lambda>x. [x]) (truthy (rq_channelId q)))
          in wanted \<noteq> [] \<and> set wanted \<subseteq> set xs)) \<and>
     dimension_covers (sp_repoIds s) (rq_repoId q) \<and>
     (case sp_pathPrefixes s of None \<Rightarrow> True
      | Some ps \<Rightarrow> (case truthy (rq_path q) of None \<Rightarrow> False | Some x \<Rightarrow> \<exists>p\<in>set ps. pathMatchesGrantPrefix x p)) \<and>
     dimension_covers (sp_taskRefs s) (rq_taskRef q)"

definition grant_rule_fits :: "grant_rule \<Rightarrow> bool" where
  "grant_rule_fits r \<longleftrightarrow> (case ru_values r of None \<Rightarrow> True | Some vs \<Rightarrow> rule_asked r \<and> set (list_of (ru_requestedValues r)) \<subseteq> set vs \<and>
     (case ru_requested r of None \<Rightarrow> True | Some x \<Rightarrow> ru_matches r vs x))"

lemma check_grant_rules_None:
  "check_grant_rules rs = None \<and> \<not> list_ex (\<lambda>r. ru_values r \<noteq> None \<and> \<not> rule_asked r) rs \<longleftrightarrow> list_all grant_rule_fits rs"
proof (induction rs)
  case (Cons r rs)
  then show ?case
    by (cases "ru_values r") (auto simp: grant_rule_fits_def list_ex_iff split: option.splits)
qed simp

lemma validate_grant_scope_iff:
  "validateGrantScope s expected = None \<longleftrightarrow> grant_covers s (case expected of None \<Rightarrow> no_request | Some q \<Rightarrow> q)"
proof -
  define q where "q = (case expected of None \<Rightarrow> no_request | Some q \<Rightarrow> q)"
  have "validateGrantScope s expected = None \<longleftrightarrow> list_all grant_rule_fits (grant_rules s q)"
    unfolding check_grant_rules_None [symmetric] validateGrantScope_def Let_def q_def [symmetric] by (simp split: option.split)
  also have "\<dots> \<longleftrightarrow> grant_covers s q"
  proof -
    have plain: "grant_rule_fits (grant_rule_of vs r wrong) \<longleftrightarrow> dimension_covers vs r" for vs r wrong
      by (auto simp: grant_rule_fits_def grant_rule_of_def rule_asked_def some_list_def list_of_def dimension_covers_def
          listIncludesRequestedValue_def split: option.splits)
    have channel: "grant_rule_fits ((grant_rule_of vs r wrong)\<lparr>ru_requestedValues := rs\<rparr>) \<longleftrightarrow> (case vs of None \<Rightarrow> True
      | Some xs \<Rightarrow> (let wanted = list_of rs @ list_of (map_option (\<lambda>x. [x]) (truthy r)) in wanted \<noteq> [] \<and> set wanted \<subseteq> set xs))" for vs r wrong rs
      by (auto simp: grant_rule_fits_def grant_rule_of_def rule_asked_def some_list_def list_of_def listIncludesRequestedValue_def Let_def split: option.splits)
    have path: "grant_rule_fits ((grant_rule_of vs r wrong)\<lparr>ru_matches := (\<lambda>ps p. list_ex (pathMatchesGrantPrefix p) ps)\<rparr>) \<longleftrightarrow>
        (case vs of None \<Rightarrow> True | Some ps \<Rightarrow> (case truthy r of None \<Rightarrow> False | Some x \<Rightarrow> \<exists>p\<in>set ps. pathMatchesGrantPrefix x p))" for vs r wrong
      by (auto simp: grant_rule_fits_def grant_rule_of_def rule_asked_def some_list_def list_of_def list_ex_iff split: option.splits)
    show ?thesis unfolding grant_rules_def list.pred_inject plain channel path grant_covers_def by simp
  qed
  finally show ?thesis by (simp add: q_def)
qed


section \<open>Properties\<close>

lemma parse_handle_iff:
  "parseHandshakeGrantHandle handle = Some (i, secret) \<longleftrightarrow>
    handle = grant_handle i secret \<and> i \<noteq> [] \<and> secret \<noteq> [] \<and> CHR ''.'' \<notin> set i \<and> CHR ''.'' \<notin> set secret"
proof -
  have "CHR ''.'' \<notin> set grant_token_prefix" by (simp add: grant_token_prefix_def)
  then have three: "split_on CHR ''.'' handle = [grant_token_prefix, i, secret] \<longleftrightarrow>
      handle = grant_handle i secret \<and> CHR ''.'' \<notin> set i \<and> CHR ''.'' \<notin> set secret"
    by (auto simp: split_on_more split_on_one grant_handle_def)
  have "parseHandshakeGrantHandle handle = Some (i, secret) \<longleftrightarrow> split_on CHR ''.'' handle = [grant_token_prefix, i, secret] \<and> i \<noteq> [] \<and> secret \<noteq> []"
    by (auto simp: parseHandshakeGrantHandle_def split: list.splits)
  with three show ?thesis by blast
qed

abbreviation grants_after :: "cred_env \<Rightarrow> grant_op list \<Rightarrow> grant_registry" where
  "grants_after env ops \<equiv> run (grant_step env) empty_grants ops"

lemma after_ok: "iso_printed env \<Longrightarrow> grants_ok (grants_after env ops)"
  by (rule run_grants_ok [OF _ empty_grants_ok])

lemma after_wf: "iso_printed env \<Longrightarrow> grant_at (grants_after env ops) i = Some g \<Longrightarrow> hg_id g = i \<and> grant_wf g"
  using after_ok by (simp add: grants_ok_def)

text \<open>Whether a grant has been handed out and is not used up.\<close>

definition grant_open :: "cred_env \<Rightarrow> handshake_grant \<Rightarrow> int \<Rightarrow> bool" where
  "grant_open env g now \<longleftrightarrow> \<not> grant_expired env g now \<and> \<not> is_truthy (hg_revokedAt g) \<and> \<not> is_truthy (hg_consumedAt g)"

definition grant_answers :: "cred_env \<Rightarrow> handshake_grant \<Rightarrow> grant_validate \<Rightarrow> bool" where
  "grant_answers env g v \<longleftrightarrow> hg_audience g = gx_audience v \<and> (case gx_actor v of None \<Rightarrow> True | Some a \<Rightarrow> actorMatches (hg_actor g) a) \<and>
     (case hg_device g of None \<Rightarrow> True | Some d \<Rightarrow> ce_sha env (or_value (gx_deviceId v) []) = gp_idHash d) \<and>
     sessionBindingMatches (hg_binding g) (gx_binding v) \<and> set (gx_required v) \<subseteq> set (hg_capabilities g) \<and>
     grant_covers (hg_scope g) (case gx_scope v of None \<Rightarrow> no_request | Some q \<Rightarrow> q)"

lemma live_open: "grant_wf g \<Longrightarrow> hg_handleHash g = Some h \<Longrightarrow> grant_live env g now = grant_open env g now"
  by (auto simp: grant_wf_def grant_live_def grant_open_def)

lemma fits_answers:
  assumes "grant_wf g"
  shows "grant_fits env g v = grant_answers env g v"
proof -
  have "truthy (List.find (\<lambda>b. \<not> isRelayCapabilityBit (JStr b)) (gx_required v)) = None" if "set (gx_required v) \<subseteq> set (hg_capabilities g)"
  proof -
    have "List.find (\<lambda>b. \<not> isRelayCapabilityBit (JStr b)) (gx_required v) = None"
      using assms that by (auto simp: find_None_iff caps_known grant_wf_def)
    then show ?thesis by (simp add: truthy_def)
  qed
  moreover have "hg_audience g \<in> set grant_audiences" using assms by (simp add: grant_wf_def)
  ultimately show ?thesis unfolding grant_fits_def grant_answers_def validate_grant_scope_iff by metis
qed

text \<open>C17: Validation of a handshake grant is exact: in every registry that can arise, a request is accepted if and only if its handle
  is the prefix, an id and a secret joined by dots, the secret is the one that the approval of that grant handed out, the grant has
  neither expired nor been revoked nor spent, and it answers the request: the audience, the actor, the device and the session
  binding agree, every capability required is held, and the scope asked for lies in every dimension the grant restricts. The answer
  shows the grant as it is after the call.\<close>

theorem grant_validates_exactly:
  assumes "iso_printed env"
  shows "snd (grant_validate_op env (grants_after env ops) now handle v) = GrantOk p bits spent \<longleftrightarrow>
    (\<exists>i secret g. handle = grant_handle i secret \<and> i \<noteq> [] \<and> secret \<noteq> [] \<and> CHR ''.'' \<notin> set i \<and> CHR ''.'' \<notin> set secret \<and>
       grant_at (grants_after env ops) i = Some g \<and> hg_handleHash g = Some (ce_sha env secret) \<and> grant_open env g now \<and>
       grant_answers env g v \<and> p = publicGrant (spend env now v g) \<and> bits = gx_required v \<and> spent = consumes v)"
proof -
  have ok: "grant_live env g now \<and> grant_fits env g v \<longleftrightarrow> grant_open env g now \<and> grant_answers env g v"
    if "grant_at (grants_after env ops) i = Some g" "hg_handleHash g = Some h" for i g h
    using after_wf [OF assms that(1)] live_open [OF _ that(2)] fits_answers by blast
  show ?thesis
    unfolding grant_ok_iff parse_handle_iff
  proof (rule iff_exI)+
    fix i secret g
    show "(handle = grant_handle i secret \<and> i \<noteq> [] \<and> secret \<noteq> [] \<and> CHR ''.'' \<notin> set i \<and> CHR ''.'' \<notin> set secret) \<and>
        grant_at (grants_after env ops) i = Some g \<and> hg_handleHash g = Some (ce_sha env secret) \<and> grant_live env g now \<and>
        grant_fits env g v \<and> p = publicGrant (spend env now v g) \<and> bits = gx_required v \<and> spent = consumes v \<longleftrightarrow>
      handle = grant_handle i secret \<and> i \<noteq> [] \<and> secret \<noteq> [] \<and> CHR ''.'' \<notin> set i \<and> CHR ''.'' \<notin> set secret \<and>
       grant_at (grants_after env ops) i = Some g \<and> hg_handleHash g = Some (ce_sha env secret) \<and> grant_open env g now \<and>
       grant_answers env g v \<and> p = publicGrant (spend env now v g) \<and> bits = gx_required v \<and> spent = consumes v"
      using ok [of i g "ce_sha env secret"] by argo
  qed
qed

lemma accepted_grant:
  assumes "iso_printed env" and "snd (grant_validate_op env (grants_after env ops) now handle v) = GrantOk p bits spent"
  obtains i secret g where "parseHandshakeGrantHandle handle = Some (i, secret)" "grant_at (grants_after env ops) i = Some g"
    "hg_handleHash g = Some (ce_sha env secret)" "grant_refusal env g now v = None" "p = publicGrant (spend env now v g)" "spent = consumes v"
    "hg_id g = i" "hg_id p = i" "hg_capabilities p = hg_capabilities g" "grant_wf g"
proof -
  from assms(2) [unfolded grant_ok_iff] obtain i secret g where g: "parseHandshakeGrantHandle handle = Some (i, secret)"
    "grant_at (grants_after env ops) i = Some g" "hg_handleHash g = Some (ce_sha env secret)" "grant_refusal env g now v = None"
    "p = publicGrant (spend env now v g)" "spent = consumes v" by (auto simp: refusal_None)
  with after_wf [OF assms(1) g(2)] show thesis
    by (intro that [of i secret g]) (simp_all add: public_grant.truncate_def spend_def)
qed

lemma closed_forever:
  assumes "iso_printed env" and "grants_ok st" and "closed_at st i"
  shows "\<not> (\<exists>p bits spent. snd (grant_validate_op env (run (grant_step env) st ops) now handle v) = GrantOk p bits spent \<and> hg_id p = i)"
  by (rule closed_refuses [OF run_grants_ok run_closed]) (use assms in simp_all)

text \<open>C15: A handshake grant is good for one use: once a validation has spent it, no later validation of that grant is accepted, whatever
  handle is presented, and whatever is requested, approved, denied, revoked or validated in between.\<close>

theorem grant_is_single_use:
  assumes "iso_printed env" and "snd (grant_validate_op env (grants_after env ops) now handle v) = GrantOk p bits True"
  shows "\<not> (\<exists>p' bits' spent'. snd (grant_validate_op env (run (grant_step env) (fst (grant_validate_op env (grants_after env ops) now handle v)) ops')
    now' handle' v') = GrantOk p' bits' spent' \<and> hg_id p' = hg_id p)"
proof -
  from assms obtain i secret g where g: "parseHandshakeGrantHandle handle = Some (i, secret)" "grant_at (grants_after env ops) i = Some g"
    "hg_handleHash g = Some (ce_sha env secret)" "grant_refusal env g now v = None" "True = consumes v" "hg_id g = i" "hg_id p = i"
    by (rule accepted_grant)
  define st1 where "st1 = fst (grant_validate_op env (grants_after env ops) now handle v)"
  have "grants_ok st1"
    unfolding st1_def by (rule moves_ok [OF validate_moves [OF ok_inv] assms(1)]) (rule after_ok [OF assms(1)])+
  moreover have "grant_at st1 i = Some (spend env now v g)"
    using validate_granted [OF g(1-4)] g(6) by (simp add: st1_def grant_at_put spend_def)
  then have "closed_at st1 i"
    using g(5) assms(1) by (simp add: closed_at_def grant_closed_def spend_def iso_printed_def is_truthy_def truthy_def)
  ultimately show ?thesis using closed_forever [OF assms(1)] g(7) by (simp add: st1_def)
qed

text \<open>C18: A refusal is final: once an operator has denied a request for a grant, or revoked a grant at any point of its life, no
  handle is ever accepted for it, whatever happens afterwards.\<close>

theorem grant_refusal_is_final:
  assumes "iso_printed env" and "grant_at (grants_after env ops) i = Some g"
    and "op = GoRevoke now i d \<or> (op = GoDeny now i d \<and> hg_status g = GsRequested)"
  shows "\<not> (\<exists>p bits spent. snd (grant_validate_op env (run (grant_step env) (grant_step env (grants_after env ops) op) ops')
    now' handle v) = GrantOk p bits spent \<and> hg_id p = i)"
proof -
  define st where "st = grants_after env ops"
  have g: "grant_at st i = Some g" "hg_id g = i" "grant_wf g" using assms(2) after_wf [OF assms(1,2)] by (simp_all add: st_def)
  have inv: "grants_ok st" unfolding st_def by (rule after_ok [OF assms(1)])
  have "closed_at (grant_step env st op) i"
    using assms(3)
  proof
    assume "op = GoRevoke now i d"
    with g assms(1) show ?thesis
      by (simp add: grant_revoke_def Let_def closed_at_def grant_at_put grant_closed_def iso_printed_def is_truthy_def truthy_def)
  next
    assume "op = GoDeny now i d \<and> hg_status g = GsRequested"
    with g show ?thesis by (simp add: grant_deny_def Let_def closed_at_def grant_at_put grant_closed_def grant_wf_def)
  qed
  with closed_forever [OF assms(1) moves_ok [OF step_moves [OF ok_inv [OF inv]] assms(1) inv]] show ?thesis by (simp add: st_def)
qed

text \<open>C16: No grant works without an operator: a grant that validates was approved under its own id, its handle carries the secret of that
  approval, and if it carries a high-risk capability the approval came with the evidence of an approval contract.\<close>

theorem usable_grant_was_approved:
  assumes "iso_printed env" and "snd (grant_validate_op env (grants_after env ops) now handle v) = GrantOk p bits spent"
  shows "\<exists>t a bytes secret. GoApprove t (hg_id p) a bytes \<in> set ops \<and> handle = grant_handle (hg_id p) secret \<and>
    ce_sha env secret = ce_sha env (to_hex bytes) \<and>
    (set (hg_capabilities p) \<inter> set high_risk_capabilities = {} \<or> normalizeHighRiskApprovalEvidence (ap_highRiskApproval a) \<noteq> None)"
proof -
  from assms obtain i secret g where g: "parseHandshakeGrantHandle handle = Some (i, secret)" "grant_at (grants_after env ops) i = Some g"
    "hg_handleHash g = Some (ce_sha env secret)" "hg_id g = i" "hg_id p = i" "hg_capabilities p = hg_capabilities g"
    by (rule accepted_grant)
  from run_explained [OF assms(1), of ops] g(2,3) obtain op where "op \<in> set ops" "approves env g op" by (fastforce simp: handles_explained_def)
  then obtain t a bytes where op: "GoApprove t i a bytes \<in> set ops" "ce_sha env secret = ce_sha env (to_hex bytes)"
    "requiresHighRiskApproval g \<longrightarrow> normalizeHighRiskApprovalEvidence (ap_highRiskApproval a) \<noteq> None"
    using g(3,4) by (cases rule: grant_op.exhaust [of op]) (simp_all add: approves_def)
  moreover have "requiresHighRiskApproval g \<longleftrightarrow> set (hg_capabilities p) \<inter> set high_risk_capabilities \<noteq> {}"
    using g(6) by (auto simp: requiresHighRiskApproval_def list_ex_iff)
  ultimately show ?thesis using g(1,5) by (auto simp: parse_handle_iff)
qed


section \<open>A concrete grant\<close>

definition sample_grant_request :: grant_request where
  "sample_grant_request = \<lparr>gr_id = Some ''g'', gr_actor = \<lparr>act_type = ''agent'', act_id = ''a'', act_label = None\<rparr>,
     gr_issuer = \<lparr>iss_id = ''o'', iss_label = None\<rparr>, gr_audience = ''relay:cli-gateway:v1'',
     gr_capabilities = [''session:read'', ''rpc:git:write''], gr_scope = JObj [(''taskRefs'', JArr [JStr ''t''])], gr_device = None, gr_binding = None,
     gr_metadata = JUndef, gr_expiresAt = None, gr_ttlMs = Some 10, gr_correlationId = Some ''c''\<rparr>"

definition sample_approval :: approve_input where
  "sample_approval = \<lparr>ap_approvedBy = \<lparr>iss_id = ''o'', iss_label = None\<rparr>,
     ap_highRiskApproval = JObj [(''challengeId'', JStr ''x''), (''contractHash'', JStr ''y''), (''approvedAt'', JStr ''z'')],
     ap_correlationId = None\<rparr>"

definition sample_validation :: grant_validate where
  "sample_validation = \<lparr>gx_audience = ''relay:cli-gateway:v1'', gx_required = [''session:read''],
     gx_actor = Some \<lparr>act_type = ''agent'', act_id = ''a'', act_label = None\<rparr>, gx_deviceId = None, gx_binding = None,
     gx_scope = Some (no_request\<lparr>rq_taskRef := Some ''t''\<rparr>), gx_consume = None, gx_correlationId = None\<rparr>"

definition sample_life :: "grant_op list" where
  "sample_life = [GoRequest 0 sample_grant_request, GoApprove 1 ''g'' sample_approval [1]]"

definition sample_grant :: handshake_grant where
  "sample_grant = requested_grant sample_cred_env 0 sample_grant_request ''g'' [''session:read'', ''rpc:git:write''] (no_scope\<lparr>sp_taskRefs := Some [''t'']\<rparr>) 10 ''c''"

lemma sample_requested: "hr_grants (grant_step sample_cred_env empty_grants (GoRequest 0 sample_grant_request)) = [(''g'', sample_grant)]"
proof -
  have "normalizeGrantCapabilities (gr_capabilities sample_grant_request) = Inr [''session:read'', ''rpc:git:write'']"
    "normalizeGrantScope (gr_scope sample_grant_request) = Inr (no_scope\<lparr>sp_taskRefs := Some [''t'']\<rparr>)"
    "resolveGrantExpiry sample_cred_env sample_grant_request 0 = Inr 10" "act_type (gr_actor sample_grant_request) \<in> set grant_actor_types"
    "gr_audience sample_grant_request \<in> set grant_audiences"
    by code_simp+
  moreover have "gr_id sample_grant_request = Some ''g''" "gr_correlationId sample_grant_request = Some ''c''" by (simp_all add: sample_grant_request_def)
  ultimately show ?thesis
    by (simp add: grant_request_op_def draw_grant_id_def empty_grants_def jm_get_def Let_def put_grant_def)
      (simp add: requested_grant_def sample_grant_def)
qed


definition sample_approved :: handshake_grant where
  "sample_approved = sample_grant\<lparr>hg_handleHash := Some ''01'', hg_status := GsApproved, hg_approvedAt := Some ''ii'',
     hg_approvedByHash := Some ''o'', hg_highRiskApproval := ap_highRiskApproval sample_approval\<rparr>"

lemma sample_approved_at: "grant_at (grants_after sample_cred_env sample_life) ''g'' = Some sample_approved"
proof -
  have fits: "hg_status sample_grant = GsRequested" "hg_id sample_grant = ''g''"
    by (simp_all add: sample_grant_def requested_grant_def)
  have evidence: "normalizeHighRiskApprovalEvidence (ap_highRiskApproval sample_approval) \<noteq> None" "js_truthy (ap_highRiskApproval sample_approval)"
    by code_simp+
  have prints: "ce_sha sample_cred_env (to_hex [1]) = ''01''" "ce_toIso sample_cred_env 1 = ''ii''"
    "ce_sha sample_cred_env (iss_id (ap_approvedBy sample_approval)) = ''o''"
    by code_simp+
  have "grant_at (grant_step sample_cred_env empty_grants (GoRequest 0 sample_grant_request)) ''g'' = Some sample_grant"
    by (simp only: sample_requested) (simp add: jm_get_def)
  then show ?thesis
    using evidence fits by (simp add: sample_life_def grant_approve_def Let_def grant_at_put prints sample_approved_def del: grant_step.simps(1) not_None_eq)
qed

lemma sample_handle: "grant_handle ''g'' ''01'' = ''relay-ohg-v1.g.01''"
  by (simp add: grant_handle_def grant_token_prefix_def)

theorem grant_validates_exactly_witness:
  "snd (grant_validate_op sample_cred_env (grants_after sample_cred_env sample_life) 2 (grant_handle ''g'' ''01'') sample_validation) =
    GrantOk (publicGrant (spend sample_cred_env 2 sample_validation sample_approved)) [''session:read''] True"
proof -
  have "hg_handleHash sample_approved = Some (ce_sha sample_cred_env ''01'')" by (simp add: sample_approved_def sample_cred_env_def)
  moreover have "grant_open sample_cred_env sample_approved 2" by code_simp
  moreover have "grant_answers sample_cred_env sample_approved sample_validation" by code_simp
  ultimately show ?thesis
    unfolding grant_validates_exactly [OF sample_iso_printed]
    by (intro exI [of _ "''g''"] exI [of _ "''01''"] exI [of _ sample_approved])
      (simp add: sample_approved_at sample_validation_def consumes_def)
qed


lemma sample_accepted: "\<exists>p bits. snd (grant_validate_op sample_cred_env (grants_after sample_cred_env sample_life) 2 (grant_handle ''g'' ''01'') sample_validation) =
    GrantOk p bits True \<and> hg_id p = ''g''"
proof -
  have "parseHandshakeGrantHandle (grant_handle ''g'' ''01'') = Some (''g'', ''01'')" by code_simp
  moreover have "hg_handleHash sample_approved = Some (ce_sha sample_cred_env ''01'')" by (simp add: sample_approved_def sample_cred_env_def)
  moreover have "grant_refusal sample_cred_env sample_approved 2 sample_validation = None" by code_simp
  ultimately have "snd (grant_validate_op sample_cred_env (grants_after sample_cred_env sample_life) 2 (grant_handle ''g'' ''01'') sample_validation) =
      GrantOk (publicGrant (spend sample_cred_env 2 sample_validation sample_approved)) (gx_required sample_validation) (consumes sample_validation)"
    using validate_granted sample_approved_at by blast
  moreover have "consumes sample_validation" "hg_id (publicGrant (spend sample_cred_env 2 sample_validation sample_approved)) = ''g''" by code_simp+
  ultimately show ?thesis by simp
qed

theorem grant_is_single_use_witness:
  "\<not> (\<exists>p' bits' spent'. snd (grant_validate_op sample_cred_env (run (grant_step sample_cred_env)
      (fst (grant_validate_op sample_cred_env (grants_after sample_cred_env sample_life) 2 (grant_handle ''g'' ''01'') sample_validation))
      [GoApprove 3 ''g'' sample_approval [1]]) 4 (grant_handle ''g'' ''01'') sample_validation) = GrantOk p' bits' spent' \<and> hg_id p' = ''g'')"
proof -
  obtain p bits where p: "snd (grant_validate_op sample_cred_env (grants_after sample_cred_env sample_life) 2 (grant_handle ''g'' ''01'') sample_validation) =
    GrantOk p bits True" "hg_id p = ''g''" using sample_accepted by blast
  show ?thesis using grant_is_single_use [OF sample_iso_printed p(1)] unfolding p(2) .
qed

definition sample_decision :: decision_input where
  "sample_decision = \<lparr>di_by = \<lparr>iss_id = ''o'', iss_label = None\<rparr>, di_reason = None, di_correlationId = None\<rparr>"

theorem grant_refusal_is_final_witness:
  "\<not> (\<exists>p bits spent. snd (grant_validate_op sample_cred_env (run (grant_step sample_cred_env)
    (grant_step sample_cred_env (grants_after sample_cred_env sample_life) (GoRevoke 2 ''g'' sample_decision)) [])
    3 (grant_handle ''g'' ''01'') sample_validation) = GrantOk p bits spent \<and> hg_id p = ''g'')"
  by (rule grant_refusal_is_final [OF sample_iso_printed sample_approved_at]) simp

theorem usable_grant_was_approved_witness:
  "\<exists>t a bytes. GoApprove t ''g'' a bytes \<in> set sample_life \<and> normalizeHighRiskApprovalEvidence (ap_highRiskApproval a) \<noteq> None"
proof -
  obtain p bits where p: "snd (grant_validate_op sample_cred_env (grants_after sample_cred_env sample_life) 2 (grant_handle ''g'' ''01'') sample_validation) =
    GrantOk p bits True" "hg_id p = ''g''" using sample_accepted by blast
  obtain i secret g where "grant_at (grants_after sample_cred_env sample_life) i = Some g" "hg_id g = i" "hg_id p = i"
    "hg_capabilities p = hg_capabilities g" using accepted_grant [OF sample_iso_printed p(1)] by metis
  then have "hg_capabilities p = hg_capabilities sample_approved" using p(2) sample_approved_at by simp
  moreover have "''rpc:git:write'' \<in> set (hg_capabilities sample_approved) \<inter> set high_risk_capabilities" by code_simp
  ultimately show ?thesis using usable_grant_was_approved [OF sample_iso_printed p(1)] p(2) by fastforce
qed

end
