(* ===== verification/Grant_Scopes.thy ===== *)
theory Grant_Scopes
  imports Actor_Auth Handshake_Safety Credential_Restart
begin

text \<open>
  The scope of a request against the scope of the handshake grant behind it: what passes the comparison of the gateway, and is then
  normalised by the registry of credentials, restricts every dimension the grant restricts to values of the grant.
\<close>

section \<open>Scopes within scopes\<close>

definition dimension_within :: "string list option \<Rightarrow> string list option \<Rightarrow> bool" where
  "dimension_within g c \<longleftrightarrow> (case g of None \<Rightarrow> c = None | Some xs \<Rightarrow> c \<noteq> None \<and> set (list_of c) \<subseteq> set xs)"

text \<open>Every dimension the grant restricts is restricted to its values, every other one is left open; paths lie below a prefix of the
  grant, and of the tasks the read marker may be added.\<close>

definition scope_within :: "cred_scope \<Rightarrow> cred_scope \<Rightarrow> bool" where
  "scope_within g c \<longleftrightarrow>
     dimension_within (sp_nodeIds g) (sp_nodeIds c) \<and> dimension_within (sp_sessionIds g) (sp_sessionIds c) \<and>
     dimension_within (sp_globalSessionIds g) (sp_globalSessionIds c) \<and> dimension_within (sp_workContextIds g) (sp_workContextIds c) \<and>
     dimension_within (sp_channelIds g) (sp_channelIds c) \<and> dimension_within (sp_repoIds g) (sp_repoIds c) \<and>
     (case sp_pathPrefixes g of None \<Rightarrow> sp_pathPrefixes c = None
      | Some ps \<Rightarrow> sp_pathPrefixes c \<noteq> None \<and> (\<forall>x\<in>set (list_of (sp_pathPrefixes c)). \<exists>p\<in>set ps. pathMatchesGrantPrefix x p)) \<and>
     set (list_of (sp_taskRefs c)) \<subseteq> insert read_scope_task_ref (set (list_of (sp_taskRefs g)))"

lemma dropWhile_stop: "ys \<noteq> [] \<Longrightarrow> \<not> P (hd ys) \<Longrightarrow> dropWhile P (xs @ ys) = dropWhile P xs @ ys"
  by (induction xs) (auto simp: dropWhile_fixed)

lemma trim_extends:
  assumes "q \<noteq> []" and "\<not> is_ws (hd q)" and "\<not> is_ws (last q)"
  shows "starts_with (trim (q @ r)) q"
proof -
  have "dropWhile is_ws (q @ r) = q @ r" using assms by (simp add: dropWhile_fixed)
  moreover have "dropWhile is_ws (rev r @ rev q) = dropWhile is_ws (rev r) @ rev q"
    using assms by (intro dropWhile_stop) (simp_all add: hd_rev)
  ultimately show ?thesis by (simp add: trim_def)
qed

lemma trimmed_path:
  assumes "trim p = p" and "p \<noteq> []" and "pathMatchesGrantPrefix v p"
  shows "pathMatchesGrantPrefix (trim v) p"
proof (cases "v = p")
  case False
  define q where "q = (if ends_with p ''/'' then p else p @ ''/'')"
  have p: "\<not> is_ws (hd p)" "\<not> is_ws (last p)" using trim_hd [of p] trim_last [of p] assms(1,2) by simp_all
  have q: "q \<noteq> []" "\<not> is_ws (hd q)" "\<not> is_ws (last q)" using p assms(2) by (simp_all add: q_def is_ws_def)
  from False assms(3) have "starts_with v q" by (simp add: pathMatchesGrantPrefix_def q_def)
  then obtain r where "v = q @ r" by (auto simp: starts_with_iff)
  with trim_extends [OF q] show ?thesis by (simp add: pathMatchesGrantPrefix_def q_def)
qed (use assms in simp)

lemma texts_values: "text_values (texts_json d) = {trim s | s. s \<in> set (list_of d) \<and> trim s \<noteq> []}"
  by (cases d) (auto simp: texts_json_def text_values_def list_of_def elements_def)

lemma dimension_None: "scope_dimension v = None \<longleftrightarrow> text_values v = {}"
  using normalized_values [of v] by (auto simp: scope_dimension_def Let_def)

lemma normalized_fields:
  assumes "normalizeCredentialScope v = Inr s"
  shows "sp_nodeIds s = scope_dimension (fld v ''nodeIds'')" "sp_sessionIds s = scope_dimension (fld v ''sessionIds'')"
    "sp_globalSessionIds s = scope_dimension (fld v ''globalSessionIds'')" "sp_workContextIds s = scope_dimension (fld v ''workContextIds'')"
    "sp_channelIds s = scope_dimension (fld v ''channelIds'')" "sp_repoIds s = scope_dimension (fld v ''repoIds'')"
    "sp_pathPrefixes s = scope_dimension (fld v ''pathPrefixes'')" "sp_taskRefs s = scope_dimension (fld v ''taskRefs'')"
  using assms by (auto simp: normalizeCredentialScope_def Let_def split: if_split_asm)

section \<open>The comparison with the grant\<close>

definition request_rule_ok :: "request_rule \<Rightarrow> bool" where
  "request_rule_ok rule \<longleftrightarrow> (case rule of (gv, rv, wrong, matches) \<Rightarrow>
     (let vs = requestValuesForGrantScopeRule rule in
      vs = [] \<or> (if some_list gv then list_all (matches (list_of gv)) vs else requestOnlyScopeDimensionIsAllowed wrong vs)))"

lemma check_request_None: "check_request_rules rules = None \<longleftrightarrow> list_all request_rule_ok rules"
proof (induction rules)
  case (Cons rule rules)
  then show ?case by (cases rule) (simp add: request_rule_ok_def Let_def)
qed simp

lemma plain_request:
  assumes "request_rule_ok (gv, rv, wrong, listed)" and "wrong \<noteq> GfWrongTask" and "dimension_covers gv (first_of rv)"
    and "\<forall>x\<in>set (list_of gv). trim x = x \<and> x \<noteq> []" and "gv \<noteq> Some []"
  shows "dimension_within gv (scope_dimension (texts_json rv))"
proof (cases gv)
  case None
  with assms(1,2) have "list_of rv = []"
    by (simp add: request_rule_ok_def requestValuesForGrantScopeRule_def Let_def some_list_def requestOnlyScopeDimensionIsAllowed_def)
  with None show ?thesis by (simp add: dimension_within_def dimension_None texts_values)
next
  case (Some xs)
  with assms(1,2,5) have sub: "set (list_of rv) \<subseteq> set xs"
    by (auto simp: request_rule_ok_def requestValuesForGrantScopeRule_def Let_def some_list_def list_of_def listed_def list_all_iff)
  from Some assms(3) obtain y ys where y: "list_of rv = y # ys" "y \<in> set xs"
    by (auto simp: dimension_covers_def first_of_def truthy_def split: list.split_asm if_split_asm option.split_asm)
  have "trim x = x \<and> x \<noteq> []" if "x \<in> set (list_of rv)" for x using that sub assms(4) Some by (auto simp: list_of_def)
  with y sub Some show ?thesis
    by (auto simp: dimension_within_def dimension_None texts_values dimension_values)
qed

lemma path_request:
  assumes "request_rule_ok (gv, rv, GfWrongPath, \<lambda>ps p. list_ex (pathMatchesGrantPrefix p) ps)"
    and "gv \<noteq> None \<Longrightarrow> list_of rv \<noteq> []"
    and "\<forall>x\<in>set (list_of gv). trim x = x \<and> x \<noteq> []" and "gv \<noteq> Some []"
  shows "case gv of None \<Rightarrow> scope_dimension (texts_json rv) = None
    | Some ps \<Rightarrow> scope_dimension (texts_json rv) \<noteq> None \<and> (\<forall>x\<in>set (list_of (scope_dimension (texts_json rv))). \<exists>p\<in>set ps. pathMatchesGrantPrefix x p)"
proof (cases gv)
  case None
  with assms(1) have "list_of rv = []"
    by (simp add: request_rule_ok_def requestValuesForGrantScopeRule_def Let_def some_list_def requestOnlyScopeDimensionIsAllowed_def)
  with None show ?thesis by (simp add: dimension_None texts_values)
next
  case (Some ps)
  have fits: "\<exists>p\<in>set ps. pathMatchesGrantPrefix (trim x) p \<and> trim x \<noteq> []" if "x \<in> set (list_of rv)" for x
  proof -
    from assms(1,4) that Some obtain p where p: "p \<in> set ps" "pathMatchesGrantPrefix x p"
      by (auto simp: request_rule_ok_def requestValuesForGrantScopeRule_def Let_def some_list_def list_of_def list_all_iff list_ex_iff split: option.splits)
    then have t: "trim p = p" "p \<noteq> []" using assms(3) Some by (auto simp: list_of_def)
    have m: "pathMatchesGrantPrefix (trim x) p" by (rule trimmed_path [OF t p(2)])
    moreover have "trim x \<noteq> []" using m t(2) by (auto simp: pathMatchesGrantPrefix_def starts_with_def split: if_split_asm)
    ultimately show ?thesis using p(1) by blast
  qed
  with Some assms(2) obtain y where "y \<in> set (list_of rv)" "trim y \<noteq> []" by (cases "list_of rv") auto
  with Some fits show ?thesis by (auto simp: dimension_None texts_values dimension_values)
qed

lemma task_request:
  assumes "request_rule_ok (gv, rv, GfWrongTask, listed)" and "\<forall>x\<in>set (list_of gv). trim x = x \<and> x \<noteq> []"
  shows "set (list_of (scope_dimension (texts_json rv))) \<subseteq> insert read_scope_task_ref (set (list_of gv))"
proof -
  have mark: "trim read_scope_task_ref = read_scope_task_ref" by code_simp
  have no: "filter (\<lambda>t. t \<noteq> read_scope_task_ref) xs \<noteq> [read_scope_task_ref]" for xs
  proof
    assume a: "filter (\<lambda>t. t \<noteq> read_scope_task_ref) xs = [read_scope_task_ref]"
    have "read_scope_task_ref \<in> set (filter (\<lambda>t. t \<noteq> read_scope_task_ref) xs)" unfolding a by simp
    then show False by simp
  qed
  have "x = read_scope_task_ref \<or> x \<in> set (list_of gv)" if "x \<in> set (list_of rv)" for x
    using assms(1) that no
    by (auto simp: request_rule_ok_def requestValuesForGrantScopeRule_def Let_def some_list_def list_of_def listed_def list_all_iff
        requestOnlyScopeDimensionIsAllowed_def filter_empty_conv split: option.splits if_split_asm dest: arg_cong [where f = set])
  with mark assms(2) show ?thesis by (fastforce simp: dimension_values texts_values)
qed


lemma requested_scope_within:
  assumes "validateRequestedScopeAgainstGrant g r = None" and "grant_covers g (scopeForValidation (Some r) False False)"
    and "scope_trimmed g" and "scope_normal g" and "normalizeCredentialScope v = Inr s"
    and "\<forall>k\<in>set [''nodeIds'', ''sessionIds'', ''globalSessionIds'', ''workContextIds'', ''channelIds'', ''repoIds'', ''pathPrefixes''].
       fld v k = fld (credential_scope_json r) k"
    and "text_values (fld v ''taskRefs'') \<subseteq> text_values (texts_json (sp_taskRefs r))"
  shows "scope_within g s"
proof -
  note rules = assms(1) [unfolded validateRequestedScopeAgainstGrant_def check_request_None request_rules_def]
  have trimmed: "\<forall>x\<in>set (list_of (sp_nodeIds g)). trim x = x \<and> x \<noteq> []"
    "\<forall>x\<in>set (list_of (sp_sessionIds g)). trim x = x \<and> x \<noteq> []"
    "\<forall>x\<in>set (list_of (sp_globalSessionIds g)). trim x = x \<and> x \<noteq> []"
    "\<forall>x\<in>set (list_of (sp_workContextIds g)). trim x = x \<and> x \<noteq> []"
    "\<forall>x\<in>set (list_of (sp_channelIds g)). trim x = x \<and> x \<noteq> []"
    "\<forall>x\<in>set (list_of (sp_repoIds g)). trim x = x \<and> x \<noteq> []"
    "\<forall>x\<in>set (list_of (sp_pathPrefixes g)). trim x = x \<and> x \<noteq> []"
    "\<forall>x\<in>set (list_of (sp_taskRefs g)). trim x = x \<and> x \<noteq> []"
    using assms(3) by (simp_all add: scope_trimmed_def scope_dimensions_def)
  have path: "list_of (sp_pathPrefixes r) \<noteq> []" if "sp_pathPrefixes g \<noteq> None"
    using that assms(2) by (auto simp: grant_covers_def scopeForValidation_def some_scope_def first_of_def truthy_def Let_def
        split: option.split_asm list.split_asm if_split_asm)
  have channels: "dimension_covers (sp_channelIds g) (first_of (sp_channelIds r))"
  proof (cases "first_of (sp_channelIds r)")
    case (Some x)
    then have "truthy (Some x) = Some x" by (auto simp: first_of_def truthy_def split: list.split_asm if_split_asm)
    with Some assms(2) show ?thesis
      by (auto simp: grant_covers_def scopeForValidation_def some_scope_def Let_def dimension_covers_def list_of_def truthy_def split: option.splits)
  qed (use assms(2) in \<open>auto simp: grant_covers_def scopeForValidation_def some_scope_def Let_def dimension_covers_def list_of_def truthy_def
      split: option.splits\<close>)
  have covers: "dimension_covers (sp_nodeIds g) (first_of (sp_nodeIds r))" "dimension_covers (sp_sessionIds g) (first_of (sp_sessionIds r))"
    "dimension_covers (sp_globalSessionIds g) (first_of (sp_globalSessionIds r))"
    "dimension_covers (sp_workContextIds g) (first_of (sp_workContextIds r))" "dimension_covers (sp_repoIds g) (first_of (sp_repoIds r))"
    using assms(2) by (simp_all add: grant_covers_def scopeForValidation_def some_scope_def Let_def)
  have task: "set (list_of (scope_dimension (fld v ''taskRefs''))) \<subseteq> insert read_scope_task_ref (set (list_of (sp_taskRefs g)))"
  proof -
    have "set (list_of (scope_dimension (texts_json (sp_taskRefs r)))) \<subseteq> insert read_scope_task_ref (set (list_of (sp_taskRefs g)))"
      by (rule task_request) (use rules trimmed in \<open>simp_all add: scope_dimensions_def\<close>)
    with assms(7) show ?thesis by (auto simp: dimension_values)
  qed
  have ok: "request_rule_ok (sp_nodeIds g, sp_nodeIds r, GfWrongNode, listed)"
    "request_rule_ok (sp_sessionIds g, sp_sessionIds r, GfWrongSession, listed)"
    "request_rule_ok (sp_globalSessionIds g, sp_globalSessionIds r, GfWrongGlobalSession, listed)"
    "request_rule_ok (sp_workContextIds g, sp_workContextIds r, GfWrongWorkContext, listed)"
    "request_rule_ok (sp_channelIds g, sp_channelIds r, GfWrongChannel, listed)"
    "request_rule_ok (sp_repoIds g, sp_repoIds r, GfWrongRepo, listed)"
    "request_rule_ok (sp_pathPrefixes g, sp_pathPrefixes r, GfWrongPath, \<lambda>ps p. list_ex (pathMatchesGrantPrefix p) ps)"
    using rules by simp_all
  have normal: "sp_nodeIds g \<noteq> Some []"
    "sp_sessionIds g \<noteq> Some []"
    "sp_globalSessionIds g \<noteq> Some []"
    "sp_workContextIds g \<noteq> Some []"
    "sp_channelIds g \<noteq> Some []"
    "sp_repoIds g \<noteq> Some []"
    "sp_pathPrefixes g \<noteq> Some []"
    using assms(4) by (simp_all add: scope_normal_def)
  have fields: "fld v ''nodeIds'' = texts_json (sp_nodeIds r)"
    "fld v ''sessionIds'' = texts_json (sp_sessionIds r)"
    "fld v ''globalSessionIds'' = texts_json (sp_globalSessionIds r)"
    "fld v ''workContextIds'' = texts_json (sp_workContextIds r)"
    "fld v ''channelIds'' = texts_json (sp_channelIds r)"
    "fld v ''repoIds'' = texts_json (sp_repoIds r)"
    "fld v ''pathPrefixes'' = texts_json (sp_pathPrefixes r)"
    using assms(6) by (simp_all add: scope_json_fields)
  have within: "dimension_within (sp_nodeIds g) (scope_dimension (texts_json (sp_nodeIds r)))"
    "dimension_within (sp_sessionIds g) (scope_dimension (texts_json (sp_sessionIds r)))"
    "dimension_within (sp_globalSessionIds g) (scope_dimension (texts_json (sp_globalSessionIds r)))"
    "dimension_within (sp_workContextIds g) (scope_dimension (texts_json (sp_workContextIds r)))"
    "dimension_within (sp_channelIds g) (scope_dimension (texts_json (sp_channelIds r)))"
    "dimension_within (sp_repoIds g) (scope_dimension (texts_json (sp_repoIds r)))"
    using plain_request [OF ok(1) _ covers(1) trimmed(1) normal(1)]
      plain_request [OF ok(2) _ covers(2) trimmed(2) normal(2)]
      plain_request [OF ok(3) _ covers(3) trimmed(3) normal(3)]
      plain_request [OF ok(4) _ covers(4) trimmed(4) normal(4)]
      plain_request [OF ok(5) _ channels trimmed(5) normal(5)]
      plain_request [OF ok(6) _ covers(5) trimmed(6) normal(6)] by simp_all
  show ?thesis
    unfolding scope_within_def normalized_fields [OF assms(5)] fields
    using within path_request [OF ok(7) path trimmed(7) normal(7)] task by simp
qed

end
