(* ===== verification/Actor_Auth_Safety.thy ===== *)
theory Actor_Auth_Safety
  imports Grant_Scopes Credential_Lifetime
begin

text \<open>
  What the gateway guarantees of the credentials it hands out and accepts: a credential issued on a grant stays within the grant and
  spends it, a failed attempt spends nothing, and channels are deferred for no credential but those that carry a marker of the hub.
\<close>

section \<open>The grant behind a lifecycle call\<close>

lemma lifecycle_input [simp]:
  "gx_consume (lifecycle_validation r c) = Some c" "gx_actor (lifecycle_validation r c) = Some (lr_actor r)"
  "gx_audience (lifecycle_validation r c) = cli_audience" "gx_required (lifecycle_validation r c) = lr_capabilities r"
  "gx_scope (lifecycle_validation r c) = Some (scopeForValidation (Some (lr_scope r)) False False)"
  "consumes (lifecycle_validation r c) = c"
  by (simp_all add: lifecycle_validation_def consumes_def)

lemma asked_only: "\<not> consumes v \<Longrightarrow> spend env now v g = g"
  by (simp add: spend_def)

lemma spent_fields [simp]:
  "hg_id (spend env now v g) = hg_id g" "hg_scope (spend env now v g) = hg_scope g" "hg_handleHash (spend env now v g) = hg_handleHash g"
  "hg_capabilities (spend env now v g) = hg_capabilities g" "hg_actor (spend env now v g) = hg_actor g"
  "hg_audience (spend env now v g) = hg_audience g" "hg_expiresAt (spend env now v g) = hg_expiresAt g"
  by (simp_all add: spend_def)

lemma public_grant_fields [simp]:
  "hg_id (publicGrant g) = hg_id g" "hg_scope (publicGrant g) = hg_scope g" "hg_expiresAt (publicGrant g) = hg_expiresAt g"
  "hg_issuer (publicGrant g) = hg_issuer g"
  by (simp_all add: public_grant.truncate_def)

text \<open>Another look at the same grant.\<close>

lemma granted_step:
  assumes "grant_validate_op env gs now handle v = (gs1, GrantOk p bits b)" and "grants_ok gs"
  obtains i secret g where "parseHandshakeGrantHandle handle = Some (i, secret)" "grant_at gs i = Some g" "hg_id g = i" "grant_wf g"
    "hg_handleHash g = Some (ce_sha env secret)" "grant_live env g now" "grant_fits env g v" "p = publicGrant (spend env now v g)"
    "\<forall>j. grant_at gs1 j = (if j = i then Some (spend env now v g) else grant_at gs j)"
proof -
  from assms(1) have "snd (grant_validate_op env gs now handle v) = GrantOk p bits b" by simp
  from this [unfolded grant_ok_iff] obtain i secret g where g: "parseHandshakeGrantHandle handle = Some (i, secret)" "grant_at gs i = Some g"
    "hg_handleHash g = Some (ce_sha env secret)" "grant_live env g now" "grant_fits env g v" "p = publicGrant (spend env now v g)" by blast
  have none: "grant_refusal env g now v = None" using g(4,5) by (simp add: refusal_None)
  have i: "hg_id g = i" "grant_wf g" using assms(2) g(2) by (simp_all add: grants_ok_def)
  have "hr_grants gs1 = hr_grants (put_grant gs (spend env now v g))"
    using validate_granted [OF g(1-3) none] assms(1) by simp
  then have "\<forall>j. grant_at gs1 j = (if j = i then Some (spend env now v g) else grant_at gs j)"
    using i(1) grant_at_put [of gs "spend env now v g"] by simp
  with g i show thesis by (intro that)
qed

lemma lifecycle_grant:
  assumes "validateCliGatewayLifecycleGrant env gs t1 t2 r consume = (gs', Inr p)" and "grants_ok gs" and "iso_printed env"
  obtains i secret g where "parseHandshakeGrantHandle (lr_grantHandle r) = Some (i, secret)" "grant_at gs i = Some g" "hg_id g = i" "grant_wf g"
    "hg_handleHash g = Some (ce_sha env secret)" "grant_live env g t1" "grant_live env g t2" "grant_fits env g (lifecycle_validation r consume)"
    "validateRequestedScopeAgainstGrant (hg_scope g) (lr_scope r) = None" "p = publicGrant (spend env t2 (lifecycle_validation r consume) g)"
    "\<forall>j. grant_at gs' j = (if j = i then Some (spend env t2 (lifecycle_validation r consume) g) else grant_at gs j)" "grants_ok gs'"
proof -
  let ?h = "lr_grantHandle r"
  obtain gs1 p1 b1 s1 where v1: "grant_validate_op env gs t1 ?h (lifecycle_validation r False) = (gs1, GrantOk p1 b1 s1)"
    and scope: "validateRequestedScopeAgainstGrant (hg_scope p1) (lr_scope r) = None"
    and rest: "\<exists>b s. grant_validate_op env gs1 t2 ?h (lifecycle_validation r consume) = (gs', GrantOk p b s)"
    using assms(1) by (auto simp: validateCliGatewayLifecycleGrant_def split: prod.splits grant_result.splits option.splits)
  obtain i secret g where g: "parseHandshakeGrantHandle ?h = Some (i, secret)" "grant_at gs i = Some g"
    "hg_id g = i" "grant_wf g" "hg_handleHash g = Some (ce_sha env secret)" "grant_live env g t1" "grant_fits env g (lifecycle_validation r False)"
    "p1 = publicGrant (spend env t1 (lifecycle_validation r False) g)"
    "\<forall>j. grant_at gs1 j = (if j = i then Some (spend env t1 (lifecycle_validation r False) g) else grant_at gs j)"
    by (rule granted_step [OF v1 assms(2)])
  have at1: "\<forall>j. grant_at gs1 j = grant_at gs j" using g(2,9) by (simp add: asked_only)
  have ok1: "grants_ok gs1" using assms(2) at1 by (simp add: grants_ok_def)
  from rest obtain b s where v2: "grant_validate_op env gs1 t2 ?h (lifecycle_validation r consume) = (gs', GrantOk p b s)" by blast
  have ok2: "grants_ok gs'"
    using moves_ok [OF validate_moves [OF ok_inv [OF ok1]] assms(3) ok1, of t2 ?h "lifecycle_validation r consume"] v2 by simp
  obtain i2 secret2 g2 where g2: "parseHandshakeGrantHandle ?h = Some (i2, secret2)" "grant_at gs1 i2 = Some g2" "hg_id g2 = i2" "grant_wf g2"
    "hg_handleHash g2 = Some (ce_sha env secret2)" "grant_live env g2 t2" "grant_fits env g2 (lifecycle_validation r consume)" "p = publicGrant (spend env t2 (lifecycle_validation r consume) g2)"
    "\<forall>j. grant_at gs' j = (if j = i2 then Some (spend env t2 (lifecycle_validation r consume) g2) else grant_at gs1 j)"
    by (rule granted_step [OF v2 ok1])
  from g2(1,2) g(1,2) at1 have "i2 = i" "g2 = g" by simp_all
  with g g2 scope ok2 at1 show thesis by (intro that [of i secret g]) (simp_all add: asked_only)
qed

lemma spent_closed: "iso_printed env \<Longrightarrow> consumes v \<Longrightarrow> grant_closed (spend env t v g)"
  by (simp add: grant_closed_def spend_def iso_printed_def is_truthy_def truthy_def)

lemma normalize_caps_set: "normalize_caps acc cs = Inr r \<Longrightarrow> set r = set acc \<union> set cs"
  by (induction acc cs rule: normalize_caps.induct) (auto split: if_split_asm)

lemma prepared_again:
  "prepareIssue env st i now f = Inr (st1, h) \<Longrightarrow> jm_get (rg_prepared st1) h = Some (i, now)"
  by (auto simp: prepareIssue_def cred_map_set split: sum.splits)


lemma granted_issue:
  assumes "grant_backed_issue env st clock r actor md caps scope bytes = (st', Inr (gr, token, p))" and "grants_ok (as_grants st)"
    and "iso_printed (au_grants env)"
  obtains i secret g cs1 cs2 where "parseHandshakeGrantHandle (lr_grantHandle r) = Some (i, secret)" "grant_at (as_grants st) i = Some g"
    "hg_id g = i" "grant_wf g" "hg_handleHash g = Some (ce_sha (au_grants env) secret)" "grant_live (au_grants env) g (clock 1)"
    "grant_fits (au_grants env) g (lifecycle_validation r True)"
    "validateRequestedScopeAgainstGrant (hg_scope g) (lr_scope r) = None"
    "issueAt (au_creds env) cs1 (grantBackedCredentialIssueInput r (publicGrant g) actor md caps scope) (clock 3) bytes = Inr (cs2, token, p)"
    "rg_credentials cs1 = rg_credentials (as_creds st)" "rg_credentials (as_creds st') = rg_credentials cs2"
    "closed_at (as_grants st') i" "grants_ok (as_grants st')"
proof -
  let ?env = "au_grants env"
  obtain gs1 p1 cs1 h gs2 p2 cs2 where steps:
    "validateCliGatewayLifecycleGrant ?env (as_grants st) (clock 1) (clock 2) r False = (gs1, Inr p1)"
    "prepareIssue (au_creds env) (as_creds st) (grantBackedCredentialIssueInput r p1 actor md caps scope) (clock 3) True = Inr (cs1, h)"
    "validateCliGatewayLifecycleGrant ?env gs1 (clock 4) (clock 5) r True = (gs2, Inr p2)"
    "issuePrepared (au_creds env) cs1 h bytes = Inr (cs2, token, p)" "st' = \<lparr>as_creds = cs2, as_grants = gs2\<rparr>"
    using assms(1) by (auto simp: grant_backed_issue_def split: prod.splits sum.splits)
  obtain i secret g where g: "parseHandshakeGrantHandle (lr_grantHandle r) = Some (i, secret)" "grant_at (as_grants st) i = Some g" "hg_id g = i"
    "grant_wf g" "hg_handleHash g = Some (ce_sha ?env secret)" "grant_live ?env g (clock 1)" "grant_live ?env g (clock 2)"
    "grant_fits ?env g (lifecycle_validation r False)"
    "validateRequestedScopeAgainstGrant (hg_scope g) (lr_scope r) = None" "p1 = publicGrant (spend ?env (clock 2) (lifecycle_validation r False) g)"
    "\<forall>j. grant_at gs1 j = (if j = i then Some (spend ?env (clock 2) (lifecycle_validation r False) g) else grant_at (as_grants st) j)" "grants_ok gs1"
    by (rule lifecycle_grant [OF steps(1) assms(2,3)])
  have at1: "grant_at gs1 i = Some g" "p1 = publicGrant g" using g(10,11) by (simp_all add: asked_only)
  obtain i2 secret2 g2 where g2: "parseHandshakeGrantHandle (lr_grantHandle r) = Some (i2, secret2)" "grant_at gs1 i2 = Some g2" "hg_id g2 = i2"
    "grant_wf g2" "hg_handleHash g2 = Some (ce_sha ?env secret2)" "grant_live ?env g2 (clock 4)" "grant_live ?env g2 (clock 5)"
    "grant_fits ?env g2 (lifecycle_validation r True)"
    "validateRequestedScopeAgainstGrant (hg_scope g2) (lr_scope r) = None" "p2 = publicGrant (spend ?env (clock 5) (lifecycle_validation r True) g2)"
    "\<forall>j. grant_at gs2 j = (if j = i2 then Some (spend ?env (clock 5) (lifecycle_validation r True) g2) else grant_at gs1 j)" "grants_ok gs2"
    by (rule lifecycle_grant [OF steps(3) g(12) assms(3)])
  have same: "i2 = i" "g2 = g" using g2(1,2) g(1) at1 by simp_all
  have closed: "closed_at (as_grants st') i"
    using g2(11) spent_closed [OF assms(3), of "lifecycle_validation r True"] by (simp add: steps(5) closed_at_def same)
  from steps(4) obtain j now st1 where issue: "issueAt (au_creds env) cs1 j now bytes = Inr (st1, token, p)"
    "rg_credentials cs2 = rg_credentials st1" "jm_get (rg_prepared cs1) h = Some (j, now)" by (rule issue_prepared_adds)
  have input: "j = grantBackedCredentialIssueInput r (publicGrant g) actor md caps scope" "now = clock 3"
    using issue(3) prepared_again [OF steps(2)] at1(2) by simp_all
  show thesis
    by (rule that [of i secret g cs1 st1, OF g(1-6)]) (use g2 g(9) closed issue input prepare_rest [OF steps(2)] same steps(5) in simp_all)
qed

section \<open>Properties\<close>

lemma subject_caps:
  assumes "strictGrantLifecycleRequest body \<lparr>lo_ttlRequired = b, lo_existing = None\<rparr> now = Inr r"
  shows "set (lr_capabilities r) \<subseteq> set cli_grant_capabilities" "trim (the_str (fld body ''grantHandle'')) = lr_grantHandle r"
    "\<exists>s. lr_scope r = defaultCliGatewayActorScope (Some s) [''session:read'']"
proof -
  from assms obtain actor caps scope where "lifecycle_subject body \<lparr>lo_ttlRequired = b, lo_existing = None\<rparr> = Inr (actor, caps, scope)"
    and r: "lr_capabilities r = caps" "lr_grantHandle r = trim (the_str (fld body ''grantHandle''))"
      "lr_scope r = defaultCliGatewayActorScope (Some scope) [''session:read'']"
    by (auto simp: strictGrantLifecycleRequest_def Let_def split: if_split_asm sum.split_asm)
  then have "strictCliGatewayCapabilities (fld body ''capabilities'') = Inr caps"
    by (auto simp: lifecycle_subject_def split: sum.split_asm)
  then have "set caps \<subseteq> set cli_grant_capabilities"
    by (auto simp: strictCliGatewayCapabilities_def list_ex_iff split: json.split_asm if_split_asm)
  with r show "set (lr_capabilities r) \<subseteq> set cli_grant_capabilities" "trim (the_str (fld body ''grantHandle'')) = lr_grantHandle r"
    "\<exists>s. lr_scope r = defaultCliGatewayActorScope (Some s) [''session:read'']" by auto
qed

text \<open>C14: A credential issued on a handshake grant stays within the grant, whatever the request asks for: it carries the id of a grant
  that was live and whose secret the request presented, its actor and its audience are those of the grant, its capabilities are
  capabilities of the grant and of the gateway, every dimension of the scope the grant restricts is restricted to its values and
  no other dimension is, save the read marker among the tasks, it expires no later than the grant, and the grant is spent for good.\<close>

theorem grant_backed_credential_stays_within_grant:
  assumes "iso_dates (au_creds env)" and "iso_printed (au_grants env)" and "as_grants st = grants_after (au_grants env) ops"
    and "issueCliGatewayActorCredentialWithGrant env st clock body bytes = (st', Inr (token, p))"
  shows "\<exists>g secret e n. grant_at (as_grants st) (hg_id g) = Some g \<and> trim (the_str (fld body ''grantHandle'')) = grant_handle (hg_id g) secret \<and>
    hg_handleHash g = Some (ce_sha (au_grants env) secret) \<and> grant_open (au_grants env) g (clock 1) \<and>
    cd_grantId p = Some (hg_id g) \<and> actorMatches (hg_actor g) (cd_actor p) \<and> cd_audience p = hg_audience g \<and>
    set (cd_capabilities p) \<subseteq> set (hg_capabilities g) \<inter> set cli_grant_capabilities \<and> scope_within (hg_scope g) (cd_scope p) \<and>
    ce_dp (au_creds env) (cd_expiresAt p) = Some e \<and> ce_dp (au_creds env) (hg_expiresAt g) = Some n \<and> e \<le> n \<and>
    closed_at (as_grants st') (hg_id g)"
proof -
  have ok: "grants_ok (as_grants st)" using after_ok [OF assms(2)] assms(3) by simp
  obtain r gr where r: "strictGrantLifecycleRequest body \<lparr>lo_ttlRequired = True, lo_existing = None\<rparr> (clock 0) = Inr r"
    "grant_backed_issue env st clock r (lr_actor r) (credentialIssueMetadata (fld body ''metadata'')) (lr_capabilities r) (lr_scope r) bytes =
      (st', Inr (gr, token, p))"
    using assms(4) by (auto simp: issueCliGatewayActorCredentialWithGrant_def split: sum.splits prod.splits)
  obtain i secret g cs1 cs2 where g: "parseHandshakeGrantHandle (lr_grantHandle r) = Some (i, secret)" "grant_at (as_grants st) i = Some g"
    "hg_id g = i" "grant_wf g" "hg_handleHash g = Some (ce_sha (au_grants env) secret)" "grant_live (au_grants env) g (clock 1)"
    "grant_fits (au_grants env) g (lifecycle_validation r True)"
    "validateRequestedScopeAgainstGrant (hg_scope g) (lr_scope r) = None"
    "issueAt (au_creds env) cs1 (grantBackedCredentialIssueInput r (publicGrant g) (lr_actor r) (credentialIssueMetadata (fld body ''metadata''))
      (lr_capabilities r) (lr_scope r)) (clock 3) bytes = Inr (cs2, token, p)"
    "rg_credentials cs1 = rg_credentials (as_creds st)" "rg_credentials (as_creds st') = rg_credentials cs2"
    "closed_at (as_grants st') i" "grants_ok (as_grants st')"
    by (rule granted_issue [OF r(2) ok assms(2)])
  define j where "j = grantBackedCredentialIssueInput r (publicGrant g) (lr_actor r) (credentialIssueMetadata (fld body ''metadata''))
      (lr_capabilities r) (lr_scope r)"
  obtain c t where c: "p = publicCredential c" "validateIssueAt (au_creds env) cs1 j (clock 3) False = Inr t"
    "cd_actor c = (ii_actor j)\<lparr>act_label := truthy (act_label (ii_actor j))\<rparr>" "cd_audience c = ii_audience j"
    "cd_capabilities c = it_capabilities t" "cd_scope c = it_scope t" "cd_grantId c = truthy (ii_grantId j)"
    by (rule issue_adds [OF g(9) [folded j_def]]) blast
  have answers: "grant_answers (au_grants env) g (lifecycle_validation r True)" using g(7) fits_answers [OF g(4)] by simp
  have handle: "lr_grantHandle r = grant_handle i secret" "i \<noteq> []" using g(1) by (simp_all add: parse_handle_iff)
  have terms: "normalizeCredentialCapabilities (lr_capabilities r) = Inr (it_capabilities t)"
    "normalizeCredentialScope (credential_scope_json (lr_scope r)) = Inr (it_scope t)"
    using c(2) by (auto simp: j_def grantBackedCredentialIssueInput_def validateIssueAt_def split: if_split_asm sum.split_asm)
  have caps: "set (cd_capabilities p) = set (lr_capabilities r)"
    using normalize_caps_set terms(1) c(1,5) by (force simp: normalizeCredentialCapabilities_def)
  have scope: "scope_within (hg_scope g) (cd_scope p)"
    using requested_scope_within [OF g(8) _ _ _ terms(2)] answers g(4) c(1,6)
    by (simp add: grant_answers_def grant_wf_def scope_json_fields)
  have life: "\<exists>e n. ce_dp (au_creds env) (cd_expiresAt p) = Some e \<and> ce_dp (au_creds env) (hg_expiresAt g) = Some n \<and> e \<le> n"
    using issued_lifetime_is_bounded [OF assms(1) g(9)] g(4)
    by (auto simp: grantBackedCredentialIssueInput_def date_given_def date_ms_def grant_wf_def)
  have "cd_grantId p = Some (hg_id g)" using c(1,7) g(3) handle(2) by (simp add: j_def grantBackedCredentialIssueInput_def truthy_def)
  moreover have "actorMatches (hg_actor g) (cd_actor p)" "cd_audience p = hg_audience g"
    using answers c(1,3,4) by (simp_all add: j_def grantBackedCredentialIssueInput_def grant_answers_def actorMatches_def)
  moreover have "set (cd_capabilities p) \<subseteq> set (hg_capabilities g) \<inter> set cli_grant_capabilities"
    using caps answers subject_caps(1) [OF r(1)] by (simp add: grant_answers_def)
  ultimately show ?thesis
    using g(2,3,5,12) handle(1) subject_caps(2) [OF r(1)] live_open [OF g(4,5)] g(6) scope life by metis
qed


section \<open>Failures spend nothing\<close>

definition unspent :: "grant_registry \<Rightarrow> grant_registry \<Rightarrow> bool" where
  "unspent gs gs' \<longleftrightarrow> (\<forall>i. grant_at gs' i = grant_at gs i \<or>
     (\<exists>g. grant_at gs i = Some g \<and> grant_at gs' i = Some (g\<lparr>hg_status := GsExpired\<rparr>)))"

lemma unspent_refl: "unspent gs gs"
  by (simp add: unspent_def)

lemma unspent_trans: "unspent a b \<Longrightarrow> unspent b c \<Longrightarrow> unspent a c"
  unfolding unspent_def
proof (intro allI)
  fix i assume ab: "\<forall>i. grant_at b i = grant_at a i \<or> (\<exists>g. grant_at a i = Some g \<and> grant_at b i = Some (g\<lparr>hg_status := GsExpired\<rparr>))"
    and bc: "\<forall>i. grant_at c i = grant_at b i \<or> (\<exists>g. grant_at b i = Some g \<and> grant_at c i = Some (g\<lparr>hg_status := GsExpired\<rparr>))"
  from ab [rule_format, of i] bc [rule_format, of i]
  show "grant_at c i = grant_at a i \<or> (\<exists>g. grant_at a i = Some g \<and> grant_at c i = Some (g\<lparr>hg_status := GsExpired\<rparr>))"
    by (elim disjE exE conjE) (auto)
qed

lemma validate_unspent:
  assumes "grants_ok gs" and "grant_validate_op env gs now handle v = (gs', res)" and "\<not> consumes v \<or> (\<exists>f i bits. res = GrantDenied f i bits)"
  shows "unspent gs gs'"
proof (cases "\<exists>i secret g. parseHandshakeGrantHandle handle = Some (i, secret) \<and> grant_at gs i = Some g \<and> hg_handleHash g = Some (ce_sha env secret)")
  case True
  then obtain i secret g where h: "parseHandshakeGrantHandle handle = Some (i, secret)" "grant_at gs i = Some g"
    "hg_handleHash g = Some (ce_sha env secret)" by blast
  have i: "hg_id g = i" using assms(1) h(2) by (simp add: grants_ok_def)
  show ?thesis
  proof (cases "grant_refusal env g now v")
    case None
    with validate_granted [OF h None] assms(2,3) have "hr_grants gs' = hr_grants (put_grant gs g)" by (auto simp: asked_only)
    then show ?thesis using h(2) i by (auto simp: unspent_def put_grant_def cred_map_set)
  next
    case (Some r)
    obtain f bits where r: "r = (f, bits)" by force
    from validate_refused [OF h Some [unfolded r]] assms(2) h(2) i show ?thesis
      by (auto simp: unspent_def put_grant_def cred_map_set split: if_split_asm)
  qed
next
  case False
  with validate_unknown [OF False, of now v] assms(2) show ?thesis by (simp add: unspent_def)
qed

lemma lifecycle_unspent:
  assumes "validateCliGatewayLifecycleGrant env gs t1 t2 r consume = (gs', res)" and "grants_ok gs" and "iso_printed env"
    and "\<not> consume \<or> isl res"
  shows "unspent gs gs'"
proof -
  obtain gs1 res1 where v1: "grant_validate_op env gs t1 (lr_grantHandle r) (lifecycle_validation r False) = (gs1, res1)" by force
  have u1: "unspent gs gs1" by (rule validate_unspent [OF assms(2) v1]) simp
  have ok1: "grants_ok gs1"
    using moves_ok [OF validate_moves [OF ok_inv [OF assms(2)]] assms(3,2), of t1 "lr_grantHandle r" "lifecycle_validation r False"] v1 by simp
  obtain gs2 res2 where v2: "grant_validate_op env gs1 t2 (lr_grantHandle r) (lifecycle_validation r consume) = (gs2, res2)" by force
  show ?thesis
  proof (cases res1)
    case (GrantDenied f i bits)
    with assms(1) v1 u1 show ?thesis by (simp add: validateCliGatewayLifecycleGrant_def)
  next
    case (GrantOk p bits b)
    show ?thesis
    proof (cases "validateRequestedScopeAgainstGrant (hg_scope p) (lr_scope r)")
      case None
      with GrantOk assms(1) v1 v2 have "gs' = gs2" "isl res \<longleftrightarrow> (\<exists>f i bits. res2 = GrantDenied f i bits)"
        by (auto simp: validateCliGatewayLifecycleGrant_def split: grant_result.splits)
      with assms(4) validate_unspent [OF ok1 v2] u1 unspent_trans show ?thesis by auto
    qed (use GrantOk assms(1) v1 u1 in \<open>simp add: validateCliGatewayLifecycleGrant_def\<close>)
  qed
qed

lemma not_future:
  assumes "validateIssueAt env st i now f = Inr t"
  shows "validateIssueAt env st i now False = Inr t"
proof (cases f)
  case True
  note unfold = validateIssueAt_def
  from assms have ok: "act_type (ii_actor i) \<in> set actor_credential_types" "ii_audience i \<in> set actor_credential_audiences"
    by (simp_all add: unfold split: if_split_asm)
  from assms obtain caps where caps: "normalizeCredentialCapabilities (ii_capabilities i) = Inr caps"
    by (cases "normalizeCredentialCapabilities (ii_capabilities i)") (simp_all add: unfold ok)
  from assms obtain scope where scope: "normalizeCredentialScope (ii_scope i) = Inr scope"
    by (cases "normalizeCredentialScope (ii_scope i)") (simp_all add: unfold ok caps)
  from assms obtain e where "resolveExpiry env i now = Inr e"
    by (cases "resolveExpiry env i now") (simp_all add: unfold ok caps scope)
  with assms True show ?thesis by (simp add: unfold ok caps scope split: if_split_asm)
qed (use assms in simp)

lemma prepared_issues:
  assumes "prepareIssue env st i now f = Inr (st1, h)" and "ii_id i = None" and "\<not> has_credential st (ce_uuid env (rg_draws st))"
  shows "\<exists>x. issuePrepared env st1 h bytes = Inr x"
proof -
  from assms(1) obtain t where t1: "validateIssueAt env st i now f = Inr t"
    by (cases "validateIssueAt env st i now f") (simp_all add: prepareIssue_def)
  have t: "validateIssueAt env st i now f = Inr t"
    "st1 = st\<lparr>rg_prepared := jm_set (rg_prepared st) (rg_handles st) (i, now), rg_handles := rg_handles st + 1\<rparr>" "h = rg_handles st"
    using assms(1) t1 by (auto simp add: prepareIssue_def)
  have at: "has_credential st1 = has_credential st" by (rule ext) (simp add: t(2) has_credential_def)
  have v: "validateIssueAt env st1 i now False = Inr t"
    using not_future [OF t(1)] by (simp only: validateIssueAt_def at)
  have get: "jm_get (rg_prepared st1) h = Some (i, now)" by (rule prepared_again [OF assms(1)])
  define st2 where "st2 = st1\<lparr>rg_draws := rg_draws st1 + 1\<rparr>"
  have d1: "or_draw env (ii_id i) st1 = (ce_uuid env (rg_draws st), st2)" by (simp add: or_draw_def assms(2) st2_def t(2))
  obtain k st3 where d2: "or_draw env (ii_correlationId i) st2 = (k, st3)" by force
  have fresh: "\<not> has_credential st2 (ce_uuid env (rg_draws st))" using assms(3) by (simp add: st2_def t(2) has_credential_def)
  show ?thesis by (simp add: issuePrepared_def get issueAt_def v d1 d2 fresh Let_def)
qed




section \<open>At the gateway\<close>

lemma named_credential:
  "parseScopedActorToken token = Some (i, secret) \<Longrightarrow> cred_at st i = Some c \<Longrightarrow> credentialNamedBy st token = Some (publicCredential c)"
  by (auto simp: parseScopedActorToken_def credentialNamedBy_def getCredential_def split: list.split_asm if_split_asm)

lemma requested_channels:
  "some_list (sp_channelIds s) \<Longrightarrow> rq_channelIds (scopeForValidation (Some s) d True) = sp_channelIds s \<and>
    rq_channelId (scopeForValidation (Some s) d True) = None"
  by (simp add: scopeForValidation_def some_scope_def Let_def)

text \<open>C20: Channels are deferred for nobody but the hub's own: if the gateway accepts a token for a request that names channels, then the
  credential lists every one of them, or it lists no channels at all and carries a marker the hub stamps, that of the local operator or
  that of an agent profile.\<close>

theorem channel_deferral_is_reserved:
  assumes "snd (validateCliGatewayActorCredential env (run (cred_step env) empty_registry ops) now v) = CredOk p bits"
    and "gw_scope v = Some s" and "sp_channelIds s = Some cs"
  shows "set (filter (\<lambda>c. trim c \<noteq> []) cs) \<subseteq> set (list_of (sp_channelIds (cd_scope p))) \<or>
    sp_channelIds (cd_scope p) = None \<and> (isLocalHubCliActorCredential (Some p) \<or> isAgentProfileActorCredential (Some p))"
proof (cases "cs = []")
  case False
  define st where "st = run (cred_step env) empty_registry ops"
  define req where "req = scopeForValidation (Some s) (gw_deferWorkContextScope v) True"
  have req: "rq_channelIds req = Some cs" "rq_channelId req = None"
    using requested_channels [of s] False assms(3) by (simp_all add: req_def some_list_def)
  from assms(1) obtain i secret c where c: "parseScopedActorToken (gw_token v) = Some (i, secret)" "cred_at st i = Some c"
    "validateCredentialScope (cd_scope c) (Some (gateway_scope st v)) = None" "p = publicCredential c"
    by (auto simp: validateCliGatewayActorCredential_def validate_ok_iff cred_accepts_def st_def)
  have normal: "scope_normal (cd_scope c)" using reachable_good [of env ops] c(2) by (auto simp: all_good_def good_credential_def st_def)
  have covers: "scope_covers (cd_scope c) (gateway_scope st v)" using c(3) validate_scope_iff [OF normal, of "Some (gateway_scope st v)"] by simp
  have named: "credentialNamedBy st (gw_token v) = Some p" using named_credential [OF c(1,2)] c(4) by simp
  show ?thesis
  proof (cases "defers_channel_scope (Some p)")
    case True
    with normal c(4) show ?thesis
      by (cases "sp_channelIds (cd_scope c)")
        (auto simp: defers_channel_scope_def credentialDefersChannelScopeToMembership_def names_channels_def some_list_def scope_normal_def)
  next
    case no: False
    have "rq_channelIds (gateway_scope st v) = Some cs" "rq_channelId (gateway_scope st v) = None"
      using no named req by (simp_all add: gateway_scope_def assms(2) req_def [symmetric] Let_def)
    moreover have "case sp_channelIds (cd_scope c) of None \<Rightarrow> asked (rq_channelIds (gateway_scope st v)) (rq_channelId (gateway_scope st v)) = []
        | Some xs \<Rightarrow> set (asked (rq_channelIds (gateway_scope st v)) (rq_channelId (gateway_scope st v))) \<subseteq> set xs"
      using covers by (auto simp: scope_covers_def split: option.split_asm)
    ultimately show ?thesis
      using c(4) by (cases "sp_channelIds (cd_scope c)") (auto simp: asked_def list_of_def filter_empty_conv)
  qed
qed simp


section \<open>Two gaps\<close>

text \<open>A renewed credential is under no grant: revoking the grant of its predecessor does not reach it, and the expiry of that grant does
  not bound it.\<close>

lemma renewal_forgets_the_grant:
  assumes "renewCliGatewayActorCredential env st now previous ttl bytes = Inr (st', token, p)"
  shows "cd_grantId p = None"
proof -
  have "issueAt env st (renewal_input previous ttl) now bytes = Inr (st', token, p)"
    using assms by (auto simp: renewCliGatewayActorCredential_def split: if_split_asm sum.split_asm)
  then obtain c where "p = publicCredential c" "cd_grantId c = truthy (ii_grantId (renewal_input previous ttl))" by (rule issue_adds)
  then show ?thesis by (simp add: renewal_input_def truthy_def)
qed

text \<open>The reserved reasons are taken out of the metadata of a caller as they are written, but the registry trims a reason before it
  stores it: a reserved reason with a space before it is stored as the marker itself.\<close>

definition padded_body :: json where
  "padded_body = JObj [(''metadata'', JObj [(''reason'', JStr '' hub-local-cli'')]), (''ttlMs'', JNum (IntNum 10))]"

lemma issued_metadata:
  assumes "issueAt env st i now bytes = Inr (st', token, p)"
  shows "cd_metadata p = normalizeCredentialMetadata (ii_metadata i)"
proof -
  from assms obtain t where t: "validateIssueAt env st i now False = Inr t"
    by (cases "validateIssueAt env st i now False") (simp_all add: issueAt_def)
  have "it_metadata t = normalizeCredentialMetadata (ii_metadata i)"
    using t by (auto simp: validateIssueAt_def split: if_split_asm sum.split_asm)
  then show ?thesis
    using assms by (auto simp: issueAt_def t Let_def public_credential.truncate_def split: prod.split_asm if_split_asm)
qed

lemma fresh_issues:
  assumes "validateIssueAt env empty_registry i now False = Inr t"
  shows "\<exists>st' token p. issueAt env empty_registry i now bytes = Inr (st', token, p)"
proof -
  have "\<not> has_credential (snd (or_draw env a empty_registry)) k" for a k
    by (simp add: or_draw_def has_credential_def empty_registry_def jm_get_def split: option.split)
  then show ?thesis by (simp add: issueAt_def assms Let_def split: prod.split) (metis snd_conv)
qed

lemma padded_reason_forges_the_marker:
  "\<exists>st' token p. issueCliGatewayActorCredential sample_cred_env empty_registry 0 padded_body [1] = Inr (st', token, p) \<and>
    isLocalHubCliActorCredential (Some p)"
proof -
  let ?i = "internal_issue_input padded_body None"
  have "\<not> isl (validateIssueAt sample_cred_env empty_registry ?i 0 False)" by code_simp
  then obtain t where "validateIssueAt sample_cred_env empty_registry ?i 0 False = Inr t"
    by (cases "validateIssueAt sample_cred_env empty_registry ?i 0 False") simp_all
  then obtain st' token p where p: "issueAt sample_cred_env empty_registry ?i 0 [1] = Inr (st', token, p)" using fresh_issues by blast
  have "normalizeCredentialMetadata (ii_metadata ?i) = Some \<lparr>md_reason = Some ''hub-local-cli'', md_taskRef = None, md_refs = None\<rparr>" by code_simp
  with issued_metadata [OF p] p show ?thesis
    by (auto simp: issueCliGatewayActorCredential_def issueCliGatewayActorCredentialInternal_def isLocalHubCliActorCredential_def marked_as_def)
qed


section \<open>Concrete calls\<close>

lemma lifecycle_succeeds:
  assumes "parseHandshakeGrantHandle (lr_grantHandle r) = Some (i, secret)" and "grant_at gs i = Some g" and "hg_id g = i"
    and "hg_handleHash g = Some (ce_sha env secret)" and "grant_refusal env g t1 (lifecycle_validation r False) = None"
    and "validateRequestedScopeAgainstGrant (hg_scope g) (lr_scope r) = None" and "grant_refusal env g t2 (lifecycle_validation r consume) = None"
  shows "\<exists>gs'. validateCliGatewayLifecycleGrant env gs t1 t2 r consume = (gs', Inr (publicGrant (spend env t2 (lifecycle_validation r consume) g))) \<and>
    grant_at gs' i = Some (spend env t2 (lifecycle_validation r consume) g)"
proof -
  obtain gs1 res1 where v1: "grant_validate_op env gs t1 (lr_grantHandle r) (lifecycle_validation r False) = (gs1, res1)" by force
  from validate_granted [OF assms(1,2,4,5)] v1 have r1: "res1 = GrantOk (publicGrant g) (lr_capabilities r) False"
    and at1: "grant_at gs1 i = Some g" using assms(3) by (simp_all add: asked_only put_grant_def cred_map_set)
  obtain gs2 res2 where v2: "grant_validate_op env gs1 t2 (lr_grantHandle r) (lifecycle_validation r consume) = (gs2, res2)" by force
  from validate_granted [OF assms(1) at1 assms(4,7)] v2
  have r2: "\<exists>bits b. res2 = GrantOk (publicGrant (spend env t2 (lifecycle_validation r consume) g)) bits b"
    and at2: "grant_at gs2 i = Some (spend env t2 (lifecycle_validation r consume) g)"
    using assms(3) by (simp_all add: put_grant_def cred_map_set)
  show ?thesis using v1 r1 v2 r2 at2 assms(6) by (auto simp: validateCliGatewayLifecycleGrant_def)
qed

definition sample_auth :: auth_env where
  "sample_auth = \<lparr>au_creds = sample_cred_env, au_grants = sample_cred_env\<rparr>"

definition sample_auth_state :: auth_state where
  "sample_auth_state = \<lparr>as_creds = empty_registry, as_grants = grants_after sample_cred_env sample_life\<rparr>"

definition sample_body :: "string \<Rightarrow> json" where
  "sample_body cap = JObj [(''grantHandle'', JStr ''relay-ohg-v1.g.01''), (''audience'', JStr ''relay:cli-gateway:v1''),
     (''actor'', JObj [(''type'', JStr ''agent''), (''id'', JStr ''a'')]), (''capabilities'', JArr [JStr cap]),
     (''scope'', JObj [(''taskRefs'', JArr [JStr ''t''])]), (''ttlMs'', JNum (IntNum 5))]"

definition sample_lifecycle :: "string \<Rightarrow> lifecycle_request" where
  "sample_lifecycle cap = \<lparr>lr_grantHandle = ''relay-ohg-v1.g.01'', lr_capabilities = [cap],
     lr_actor = \<lparr>act_type = ''agent'', act_id = ''a'', act_label = None\<rparr>, lr_grantActor = None, lr_deviceId = None, lr_sessionBinding = None,
     lr_scope = no_scope\<lparr>sp_taskRefs := Some [read_scope_task_ref, ''t'']\<rparr>, lr_ttlMs = Some 5, lr_expiresAt = None,
     lr_correlationId = ''cli-actor-grant-2''\<rparr>"

lemma sample_strict:
  "strictGrantLifecycleRequest (sample_body ''session:read'') \<lparr>lo_ttlRequired = True, lo_existing = None\<rparr> 2 = Inr (sample_lifecycle ''session:read'')"
  "strictGrantLifecycleRequest (sample_body ''context:write'') \<lparr>lo_ttlRequired = True, lo_existing = None\<rparr> 2 = Inr (sample_lifecycle ''context:write'')"
  by code_simp+

lemma sample_grant_found:
  "parseHandshakeGrantHandle (lr_grantHandle (sample_lifecycle cap)) = Some (''g'', ''01'')"
  "grant_at (as_grants sample_auth_state) ''g'' = Some sample_approved" "hg_id sample_approved = ''g''"
  "hg_handleHash sample_approved = Some (ce_sha sample_cred_env ''01'')"
  using sample_approved_at
  by (simp_all add: sample_lifecycle_def sample_auth_state_def sample_approved_def sample_grant_def requested_grant_def sample_cred_env_def
      parse_handle_iff grant_handle_def grant_token_prefix_def)

lemma sample_issue_succeeds:
  "\<exists>st' token p. issueCliGatewayActorCredentialWithGrant sample_auth sample_auth_state (\<lambda>_. 2) (sample_body ''session:read'') [1] = (st', Inr (token, p))"
proof -
  define r where "r = sample_lifecycle ''session:read''"
  define gs where "gs = as_grants sample_auth_state"
  have found: "parseHandshakeGrantHandle (lr_grantHandle r) = Some (''g'', ''01'')" "grant_at gs ''g'' = Some sample_approved"
    "hg_id sample_approved = ''g''" "hg_handleHash sample_approved = Some (ce_sha sample_cred_env ''01'')"
    using sample_grant_found by (simp_all add: r_def gs_def)
  have fits: "grant_refusal sample_cred_env sample_approved 2 (lifecycle_validation r False) = None"
    "validateRequestedScopeAgainstGrant (hg_scope sample_approved) (lr_scope r) = None"
    "grant_refusal sample_cred_env sample_approved 2 (lifecycle_validation r True) = None"
    unfolding r_def by code_simp+
  obtain gs1 where v1: "validateCliGatewayLifecycleGrant sample_cred_env gs 2 2 r False = (gs1, Inr (publicGrant sample_approved))"
    and at1: "grant_at gs1 ''g'' = Some sample_approved"
    using lifecycle_succeeds [OF found fits(1,2,1)] by (auto simp: asked_only)
  obtain gs2 g where v2: "validateCliGatewayLifecycleGrant sample_cred_env gs1 2 2 r True = (gs2, Inr g)"
    using lifecycle_succeeds [OF found(1) at1 found(3,4) fits(1-3)] by blast
  define j where "j = grantBackedCredentialIssueInput r (publicGrant sample_approved) (lr_actor r)
    (credentialIssueMetadata (fld (sample_body ''session:read'') ''metadata'')) (lr_capabilities r) (lr_scope r)"
  have "\<not> isl (prepareIssue sample_cred_env empty_registry j 2 True)" unfolding j_def r_def by code_simp
  then obtain cs1 h where prep: "prepareIssue sample_cred_env empty_registry j 2 True = Inr (cs1, h)"
    by (cases "prepareIssue sample_cred_env empty_registry j 2 True") auto
  have fresh: "\<not> has_credential empty_registry u" for u by (simp add: has_credential_def empty_registry_def jm_get_def)
  obtain cs2 token p where iss: "issuePrepared sample_cred_env cs1 h [1] = Inr (cs2, token, p)"
    using prepared_issues [OF prep _ fresh, of "[1]"] by (auto simp: j_def grantBackedCredentialIssueInput_def)
  have strict: "strictGrantLifecycleRequest (sample_body ''session:read'') \<lparr>lo_ttlRequired = True, lo_existing = None\<rparr> 2 = Inr r"
    using sample_strict(1) by (simp add: r_def)
  show ?thesis
    using v1 v2 prep iss
    by (simp add: issueCliGatewayActorCredentialWithGrant_def strict grant_backed_issue_def sample_auth_def gs_def j_def)
      (simp add: sample_auth_state_def)
qed


theorem grant_backed_credential_stays_within_grant_witness:
  "\<exists>st' token p (g :: handshake_grant). issueCliGatewayActorCredentialWithGrant sample_auth sample_auth_state (\<lambda>_. 2) (sample_body ''session:read'') [1] = (st', Inr (token, p)) \<and>
    cd_grantId p = Some (hg_id g) \<and> set (cd_capabilities p) \<subseteq> set (hg_capabilities g) \<and> scope_within (hg_scope g) (cd_scope p) \<and>
    closed_at (as_grants st') (hg_id g)"
proof -
  obtain st' token p where i: "issueCliGatewayActorCredentialWithGrant sample_auth sample_auth_state (\<lambda>_. 2) (sample_body ''session:read'') [1] =
    (st', Inr (token, p))" using sample_issue_succeeds by blast
  have "iso_dates (au_creds sample_auth)" "iso_printed (au_grants sample_auth)"
    "as_grants sample_auth_state = grants_after (au_grants sample_auth) sample_life"
    by (simp_all add: sample_auth_def sample_auth_state_def sample_iso_dates sample_iso_printed)
  from grant_backed_credential_stays_within_grant [OF this i] i show ?thesis by blast
qed

lemma sample_issue_fails:
  "\<exists>st' e. issueCliGatewayActorCredentialWithGrant sample_auth sample_auth_state (\<lambda>_. 2) (sample_body ''context:write'') [1] = (st', Inl e)"
proof -
  define r where "r = sample_lifecycle ''context:write''"
  have found: "parseHandshakeGrantHandle (lr_grantHandle r) = Some (''g'', ''01'')"
    "grant_at (grants_after sample_cred_env sample_life) ''g'' = Some sample_approved"
    "hg_handleHash sample_approved = Some (ce_sha sample_cred_env ''01'')"
    using sample_grant_found by (simp_all add: r_def sample_auth_state_def)
  have "grant_refusal sample_cred_env sample_approved 2 (lifecycle_validation r False) = Some (GfInsufficientCapability, [''context:write''])"
    unfolding r_def by code_simp
  from validate_refused [OF found this] obtain gs1 i bits where
    "grant_validate_op sample_cred_env (grants_after sample_cred_env sample_life) 2 (lr_grantHandle r) (lifecycle_validation r False) =
      (gs1, GrantDenied GfInsufficientCapability i bits)" by (metis prod.collapse)
  then have "\<exists>gs1 e. validateCliGatewayLifecycleGrant sample_cred_env (grants_after sample_cred_env sample_life) 2 2 r False = (gs1, Inl e)"
    by (simp add: validateCliGatewayLifecycleGrant_def)
  then show ?thesis
    using sample_strict(2)
    by (auto simp: issueCliGatewayActorCredentialWithGrant_def grant_backed_issue_def sample_auth_def sample_auth_state_def r_def)
qed


definition sample_channel_issue :: issue_input where
  "sample_channel_issue = sample_issue\<lparr>ii_scope := JObj [(''channelIds'', JArr [JStr ''c''])]\<rparr>"

definition sample_channel_request :: gateway_validation where
  "sample_channel_request = \<lparr>gw_token = scoped_token ''a'' ''01'', gw_capabilities = [''session:read''],
     gw_scope = Some (no_scope\<lparr>sp_channelIds := Some [''c'']\<rparr>), gw_deferWorkContextScope = False, gw_correlationId = None\<rparr>"

theorem channel_deferral_is_reserved_witness:
  "\<exists>p. snd (validateCliGatewayActorCredential sample_cred_env (run (cred_step sample_cred_env) empty_registry [CoIssue sample_channel_issue 0 [1]]) 1
      sample_channel_request) = CredOk p [''session:read''] \<and>
    (''c'' \<in> set (list_of (sp_channelIds (cd_scope p))) \<or> isLocalHubCliActorCredential (Some p) \<or> isAgentProfileActorCredential (Some p))"
proof -
  let ?st = "run (cred_step sample_cred_env) empty_registry [CoIssue sample_channel_issue 0 [1]]"
  define t where "t = \<lparr>it_capabilities = [''session:read''], it_scope = no_scope\<lparr>sp_channelIds := Some [''c'']\<rparr>, it_metadata = None, it_expiresAt = 10\<rparr>"
  have t: "validateIssueAt sample_cred_env empty_registry sample_channel_issue 0 False = Inr t" unfolding t_def by code_simp
  obtain st' token p0 where issue: "issueAt sample_cred_env empty_registry sample_channel_issue 0 [1] = Inr (st', token, p0)"
    using fresh_issues [OF t] by blast
  obtain c u where c: "adds empty_registry st' c" "p0 = publicCredential c" "token = scoped_token (cd_id c) (to_hex [1])"
    "validateIssueAt sample_cred_env empty_registry sample_channel_issue 0 False = Inr u" "cd_secretHash c = ce_sha sample_cred_env (to_hex [1])"
    "cd_revokedAt c = None" "cd_actor c = (ii_actor sample_channel_issue)\<lparr>act_label := truthy (act_label (ii_actor sample_channel_issue))\<rparr>"
    "cd_audience c = ii_audience sample_channel_issue" "cd_capabilities c = it_capabilities u" "cd_scope c = it_scope u"
    "cd_expiresAt c = ce_toIso sample_cred_env (it_expiresAt u)" "cd_grantId c = truthy (ii_grantId sample_channel_issue)"
    "cd_issuedAt c = ce_toIso sample_cred_env 0"
    "ii_id sample_channel_issue = Some (cd_id c) \<or> ii_id sample_channel_issue = None \<and> cd_id c = ce_uuid sample_cred_env (rg_draws empty_registry)"
    by (rule issue_adds [OF issue])
  have u: "u = t" using c(4) t by simp
  have id: "cd_id c = ''a''" using c(14) by (simp add: sample_channel_issue_def sample_issue_def)
  have st: "?st = st'" using issue by (simp add: done_or_def)
  have at: "cred_at ?st ''a'' = Some c" using adds_at [OF c(1), of "''a''"] id st by simp
  have parse: "parseScopedActorToken (gw_token sample_channel_request) = Some (''a'', ''01'')" by code_simp
  have hex: "to_hex [1] = ''01''" by code_simp
  have named: "credentialNamedBy ?st (gw_token sample_channel_request) = Some (publicCredential c)" by (rule named_credential [OF parse at])
  have "names_channels (Some (publicCredential c))" by (simp add: names_channels_def c(10) u t_def some_list_def)
  then have q: "gateway_scope ?st sample_channel_request =
      no_request\<lparr>rq_channelIds := Some [''c''], rq_taskRef := Some read_scope_task_ref\<rparr>"
    unfolding gateway_scope_def named Let_def
    by (simp add: defers_channel_scope_def credentialDefersChannelScopeToMembership_def sample_channel_request_def scopeForValidation_def
        some_scope_def no_scope_def some_list_def first_of_def list_of_def taskRefForGrantValidation_def nullish_def truthy_def no_request_def Let_def)
  define v where "v = \<lparr>vi_audience = cli_audience, vi_required = [''session:read''],
    vi_scope = Some (no_request\<lparr>rq_channelIds := Some [''c''], rq_taskRef := Some read_scope_task_ref\<rparr>), vi_correlationId = None\<rparr>"
  have "validateCredentialScope (cd_scope c) (vi_scope v) = None" unfolding c(10) u t_def v_def by code_simp
  moreover have "truthy (List.find (\<lambda>b. \<not> isRelayCapabilityBit (JStr b)) (vi_required v)) = None" unfolding v_def by code_simp
  ultimately have "cred_accepts sample_cred_env c 1 ''01'' v"
    using c(5-8,11) hex u
    by (simp add: cred_accepts_def sameSecretHash_def v_def sample_channel_issue_def sample_issue_def actor_credential_types_def
        actor_credential_audiences_def cli_audience_def cred_expired_def c(9) t_def is_truthy_def truthy_def sample_cred_env_def)
  then have ok: "snd (validateCliGatewayActorCredential sample_cred_env ?st 1 sample_channel_request) = CredOk (publicCredential c) [''session:read'']"
    using parse at
    by (simp only: validateCliGatewayActorCredential_def q validate_ok_iff) (auto simp: v_def sample_channel_request_def truthy_def)
  have "gw_scope sample_channel_request = Some (no_scope\<lparr>sp_channelIds := Some [''c'']\<rparr>)" by (simp add: sample_channel_request_def)
  from channel_deferral_is_reserved [OF ok this, of "[''c'']"] ok show ?thesis by (auto simp: trim_def is_ws_def)
qed

definition sample_gateway_request :: http_request where
  "sample_gateway_request = \<lparr>hq_method = ''GET'', hq_header = (\<lambda>h. if h = ''authorization'' then Some ''Bearer relay-sac-v1.a.01''
     else if h = ''x-relay-cli-command'' then Some ''nodes.list'' else None)\<rparr>"


end
