(* ===== verification/Spec2Isabelle.thy ===== *)
theory Spec2Isabelle
  imports Channel_Timeline Channel_Wire Subscription_Filter Channel_Mentions Line_Framer
    Ws_Backpressure Concurrency Policy_Revocation Confirmation_Safety Confirmation_Params Delivery_Safety Control_Safety Transcript_Cap
    Audit_Evidence Credential_Lifetime Credential_Audit Credential_Entry Credential_Store
    Credential_Restart Actor_Auth_Safety
begin

text \<open>
  A verification library for Relay, an IDE server that runs coding agents on paired nodes, relays their
  conversations over channels and guards what they may do. The sources are TypeScript under \<open>src/\<close>:
  \<open>shared/\<close> holds the protocols both sides compile, \<open>server/\<close> the hub, \<open>frontend/\<close> the browser client.

  \<^bold>\<open>The parts of the program and how they meet.\<close>

  \<^item> A channel is an append-only log of messages. The hub numbers the rows, sends events over a WebSocket
    (creations, text deltas of an open stream, updates, completions, edits, deletions, run lifecycle,
    receipts, snapshots on reconnect), and the client folds them into a timeline. A lossy socket sheds
    frames under backpressure and heals by a snapshot or a replay.
  \<^item> Text in a channel addresses agents by mention; a mention resolves to an agent profile, whose guard
    decides what is stored and used as a path.
  \<^item> Agents are child processes whose output arrives as chunks of bytes and is framed into lines; how many
    run at once is bounded by a semaphore and by the capacity check of terminal sessions.
  \<^item> An operation routed to a node is evaluated by the hub: the node's access-control list, its trust
    tier, the scope, and the state of the scoped session; the decision is audited. Scoped sessions live in
    a registry that validates, renews and revokes them; a policy change revokes those of a node.
  \<^item> Agents and command-line clients authenticate to the hub's gateway with scoped actor credentials. An operator
    approves a handshake grant, the client spends its handle once for a credential within the grant, and every
    command is checked against the capabilities and the scope of the credential. The hub keeps credentials in a
    table and reads them back after a restart.

  \<^bold>\<open>Theories.\<close>

  \<^descr> \<open>Relay_Prelude\<close>: what the sources use of the language: strings, values of type \<open>unknown\<close>
    (\<open>json\<close>), truthiness and \<open>??\<close>, insertion-ordered maps (\<open>jsmap\<close>), runs of a transition function. The
    locales \<open>keyed_map\<close> (a map with the laws of get, set and delete), \<open>state_machine\<close> (an invariant kept
    by every admitted event holds in every reachable state) and \<open>preference\<close> (a scan that keeps the better
    of two returns the least element of a rank).
  \<^descr> \<open>Channel_Types\<close>, \<open>Channel_Reducer\<close>, \<open>Channel_Timeline\<close>: the data of
    \<open>shared/channel-chat-protocol.ts\<close>, \<open>applyChannelEventV1\<close> with one definition per event lane, and
    \<open>mergeHistoryPage\<close>. The state is the interface \<open>ChannelReducerState\<close>. The invariant
    \<open>timeline_inv\<close> holds in every reachable state; on top of it: streams under loss and reordering,
    isolation of streams, replay, absence of gaps, agreement of catch-up with live delivery, and history
    pages in any order.
  \<^descr> \<open>Channel_Filter\<close>, \<open>Channel_Wire\<close>, \<open>Subscription_Filter\<close>: the predicates on messages and runs, the
    runtime guards of the wire format, the validator of subscription filters. The lemmas characterise the
    validator exactly, show that receipts carry no content and that a deletion frame clears its row, and
    give the round trips of turn ids and search snippets.
  \<^descr> \<open>Agent_Profile\<close>, \<open>Channel_Mentions\<close>: \<open>shared/agent-profile.ts\<close> and the mention parser. Resolution
    does not depend on the order of the contacts and returns the longest match; disambiguation tokens are
    unique when the ids differ in more than case and punctuation; parsed mentions are slices of the text
    outside code, and name contacts.
  \<^descr> \<open>Line_Framer\<close>: \<open>server/line-framer.ts\<close>. The framer agrees with a reference that splits the whole
    stream, for every chunking, and its memory is bounded.
  \<^descr> \<open>Ws_Backpressure\<close>: \<open>server/ws-backpressure.ts\<close>. The locale \<open>healing_lane\<close> is the contract of the
    delta and terminal lanes; the client of the terminal lane misses no byte; the heartbeat reaps exactly
    the silent sockets.
  \<^descr> \<open>Concurrency\<close>: \<open>server/concurrency.ts\<close> and \<open>server/session-capacity.ts\<close>. The semaphore is a
    transition system over the interleavings of calls and settlements.
  \<^descr> \<open>Security_Policy\<close>, \<open>Hub_Policy\<close>: \<open>shared/security-policy.ts\<close>, the failure classification of
    \<open>shared/security-audit.ts\<close>, and \<open>server/hub-policy-evaluator.ts\<close>. Resolution of a list and the hub's
    decision are characterised exactly and agree; path scopes contain what they accept; auditing fails
    closed.
  \<^descr> \<open>Identity\<close>, \<open>Session_Envelope\<close>, \<open>Session_Registry\<close>: \<open>shared/identity.ts\<close>,
    \<open>shared/session-envelope.ts\<close>, \<open>server/session-envelope-registry.ts\<close>. Scoped ids round-trip; the
    registry is a transition system whose events are the calls of its methods; revocation is permanent
    and, for a node, complete; renewals extend validity and are not taken back by an upsert.
  \<^descr> \<open>Policy_Revocation\<close>: \<open>revokePolicyAffectedSessions\<close>, where the registry and the evaluator meet.
  \<^descr> \<open>Stable_Json\<close>, \<open>High_Risk\<close>, \<open>Confirmation\<close>, \<open>Confirmation_Safety\<close>, \<open>Confirmation_Params\<close>:
    \<open>shared/stable-json.ts\<close>, \<open>server/high-risk-approvals.ts\<close>, \<open>server/confirmation-challenges.ts\<close>. A
    high-risk operation needs a challenge that a distinct party approves and its requester redeems once. The
    store of challenges is a transition system; its invariant gives that a redemption was authorised, that a
    token is spent once and that live challenges are never evicted. The serialisation under the hashes is
    injective up to the order of members, so equal canonical parameters mean equal payloads.
  \<^descr> \<open>Posix_Path\<close>, \<open>Delivery_Contract\<close>, \<open>Delivery_Safety\<close>: normal forms of paths;
    \<open>shared/channel-delivery-contract.ts\<close> and \<open>server/channel-delivery-contract-evaluator.ts\<close>. What a
    contract accepts, that a file expectation stays inside its directory, and that the verdict accounts for
    every expectation.
  \<^descr> \<open>Control_State\<close>, \<open>Control_Engine\<close>, \<open>Control_Safety\<close>: \<open>shared/control-state.ts\<close> and
    \<open>server/control-engine.ts\<close>. Who drives a terminal; typed input is gathered in bursts, redacted, logged
    and announced. The engine is a transition system over typing, timers and supervisor actions.
  \<^descr> \<open>Js_Object\<close>, \<open>Agent_Chat_Wire\<close>, \<open>Agent_Cards\<close>, \<open>Agent_Chat\<close>, \<open>Agent_Chat_Types\<close>, \<open>Agent_Chat_Safety\<close>,
    \<open>Transcript_Cap\<close>: objects addressed by field name; \<open>shared/agent-chat-protocol-v2.ts\<close>: guards, detail
    cards, the reducer \<open>applyAgentPatchV2\<close> and the cap of the transcript. The reducer and the cap keep
    sessions well-typed, ids unique and streams complete; the cap ends within its budget and keeps the tail.
  \<^descr> \<open>Audit_Redaction\<close>, \<open>Audit_Entry\<close>, \<open>Audit_Chain\<close>, \<open>Audit_Evidence\<close>: \<open>shared/security-audit.ts\<close> and
    \<open>server/security-audit-log.ts\<close>. Material is redacted before it is hashed, entries are hashed with the hash of
    the one before and kept in rows behind a checkpoint. Redacted values hold no secret; a log written through
    \<open>append\<close> verifies; logs that verify with the same head agree; the pages cover the log.
  \<^descr> \<open>Credential_Scope\<close>, \<open>Credential_Covers\<close>, \<open>Actor_Credentials\<close>, \<open>Credential_Safety\<close>, \<open>Credential_Lifetime\<close>,
    \<open>Audit_Ring\<close>, \<open>Credential_Audit\<close>, \<open>Credential_Entry\<close>, \<open>Credential_Store\<close>, \<open>Credential_Restart\<close>: \<open>shared/scoped-actor-credentials.ts\<close>,
    \<open>server/scoped-actor-credential-store.ts\<close>, \<open>server/scoped-actor-credentials.ts\<close>. Bearer credentials of agents and
    peers, limited to an audience, capabilities, a scope and a time. The registry is a transition system; validation
    accepts exactly what a live credential covers, revocation is final, lifetimes are bounded, the ring of audit
    events refines a plain log, and a restart from the table is transparent.
  \<^descr> \<open>Handshake_Grants\<close>, \<open>Handshake_Safety\<close>: \<open>shared/operator-handshake-grants.ts\<close>. A grant is requested, approved
    or denied, validated and spent, or revoked; the lifecycle is a relation between grants that every operation keeps
    to. Validation is exact, a grant is good for one use, a refusal is final, nothing works without an approval.
  \<^descr> \<open>Gateway_Commands\<close>, \<open>Actor_Auth\<close>, \<open>Grant_Scopes\<close>, \<open>Actor_Auth_Safety\<close>: \<open>server/cli-gateway-actor-auth.ts\<close>, where
    the registries of grants and of credentials meet. A credential issued on a grant stays within it, a failed issue
    spends nothing, channels are deferred for the hub's own credentials only, and the lanes of requests agree with the
    capabilities of commands.

  \<^bold>\<open>Parameters.\<close> \<open>Date.parse\<close> is an argument \<open>dp\<close> (\<open>None\<close> for an invalid date), \<open>toISOString\<close> an
  argument \<open>toIso\<close>, \<open>localeCompare\<close> an argument; theorems that need it assume that a printed time is not
  empty, or that the one printed is read back. The scrollback of the terminal lane is an argument whose
  hypothesis is that a replay returns the bytes from a cursor to the end. Times are integers
  (milliseconds); an operation of a registry reads the clock once, and a call that runs several of them
  gets its readings as a function. A transparent restart is stated for hosts whose clock stays between the years 0 and 9999
  and whose dates are printed with four digits and read back (\<open>host_ok\<close>, \<open>in_era\<close>); a lifetime given as a number that is no
  integer is cut to whole milliseconds, one that is not finite gives no date. SHA-256, base64, the rendering of numbers and random ids are arguments, and so is whether
  \<open>RegExp\<close> compiles a pattern; the probes of git, pull requests and files are a record of functions.

  \<^bold>\<open>Bounds.\<close> Every loop is structural or has a measure (the length of the remaining text or buffer),
  except the eviction of challenges, which gets as many rounds as there are challenges: each round that does
  not stop removes one. Strings are restricted to code units below 256, except ids in \<open>Identity\<close>
  (code points) and search snippets (UTF-16 code units); in \<open>Agent_Cards\<close> the ellipsis takes the place of
  one control character. Byte counts and sequence numbers are integers; the
  sources never leave the exact range of the language's numbers with them.

  \<^bold>\<open>Not modelled.\<close> Persistence (SQLite stores, JSON files), process and network I/O, HTTP routing, the
  protocol adapters of the agent programs, integrations with Git, GitHub and Jira, the command line and the
  frontend's components. In the modelled files: the lookups of plain objects do not see the prototype's own
  names; values shared within themselves, which the redaction of audit material marks as circular; the text of
  JSON columns of the audit log, which stand for what \<open>JSON.parse\<close> reads; the parsing of request bodies of the session
  registry (\<open>lifecycleInputError\<close>, \<open>expiresAtFromLifecycleInput\<close>).

  Operator clients (\<open>shared/operator-client-credentials.ts\<close>), handoffs between nodes, and automation and
  workflow runs are records behind files and requests that no modelled part rests on; the channel hub and the binder of
  agents are asynchronous code around processes and the message store. Values of header fields have no line breaks.
\<close>

end
